(* ===== verification/Prelude.thy ===== *)
theory Prelude
  imports Main "HOL-Library.Multiset"
begin

text \<open>
  Shared vocabulary of the development: time, errors as values, the Python string operations
  the components use, and generic facts on keyed lists.

  Conventions used by every theory:
  \<^item> an instant (\<^verbatim>\<open>datetime\<close>, \<^verbatim>\<open>monotonic()\<close>, \<^verbatim>\<open>time()\<close>) is an \<open>int\<close> counting
    microseconds, and every reading of a clock is an argument of the operation that reads it;
  \<^item> a Python \<^verbatim>\<open>str\<close> is a list of \<open>char\<close>, one \<open>char\<close> per code point, so the model covers the
    Latin-1 range (this is exactly what an HTTP header can carry); \<^verbatim>\<open>bytes\<close> are lists of
    \<open>char\<close> too, one \<open>char\<close> per byte;
  \<^item> an exception is a value of \<open>err\<close>, returned in the left half of a sum.
\<close>

section \<open>Collections of rewrite rules\<close>

named_theorems frame_simps \<open>what an operation leaves unchanged\<close>
named_theorems guard_simps \<open>unfoldings of access checks and validations\<close>
named_theorems row_simps \<open>look-ups in tables after an update\<close>

section \<open>Types and errors\<close>

type_synonym time = int
type_synonym bytes = "char list"

definition sec :: time where
  "sec = 1000000"

definition seconds :: "int \<Rightarrow> time" where
  "seconds n = n * sec"

definition days :: "int \<Rightarrow> time" where
  "days n = n * 86400 * sec"

definition hours :: "int \<Rightarrow> time" where
  "hours n = n * 3600 * sec"

datatype err =
    HTTPException int string
  | LookupError string
  | KeyError string
  | ValueError string
  | RuntimeError string
  | DataError string
  | UniqueViolation string
  | ForeignKeyViolation string
  | StorageError string
  | RedisError string
  | OSError string
  | RedisUnavailable string
  | VideoProcessingError string
  | OverflowError string
  | TypeError string
  | AttributeError string

fun is_http :: "err \<Rightarrow> bool" where
  "is_http (HTTPException _ _) = True"
| "is_http _ = False"

section \<open>Python strings\<close>

definition py_isspace :: "char \<Rightarrow> bool" where
  "py_isspace c = (let n = (of_char c :: nat) in
     (9 \<le> n \<and> n \<le> 13) \<or> (28 \<le> n \<and> n \<le> 32) \<or> n = 133 \<or> n = 160)"

definition py_lower_char :: "char \<Rightarrow> char" where
  "py_lower_char c = (let n = (of_char c :: nat) in
     if (65 \<le> n \<and> n \<le> 90) \<or> (192 \<le> n \<and> n \<le> 222 \<and> n \<noteq> 215) then char_of (n + 32) else c)"

definition lstrip_on :: "(char \<Rightarrow> bool) \<Rightarrow> string \<Rightarrow> string" where
  "lstrip_on P s = dropWhile P s"

definition rstrip_on :: "(char \<Rightarrow> bool) \<Rightarrow> string \<Rightarrow> string" where
  "rstrip_on P s = rev (dropWhile P (rev s))"

definition py_strip :: "string \<Rightarrow> string" where
  "py_strip s = rstrip_on py_isspace (lstrip_on py_isspace s)"

definition py_lower :: "string \<Rightarrow> string" where
  "py_lower s = map py_lower_char s"

text \<open>
  \<open>str.isdigit\<close> accepts the superscript digits, \<open>int\<close> does not; \<open>int\<close> also refuses more than
  4300 digits (\<^verbatim>\<open>sys.int_info.default_max_str_digits\<close>).
\<close>

definition is_decimal :: "char \<Rightarrow> bool" where
  "is_decimal c = (let n = (of_char c :: nat) in 48 \<le> n \<and> n \<le> 57)"

definition is_digit_char :: "char \<Rightarrow> bool" where
  "is_digit_char c = (let n = (of_char c :: nat) in is_decimal c \<or> n = 178 \<or> n = 179 \<or> n = 185)"

definition py_isdigit :: "string \<Rightarrow> bool" where
  "py_isdigit s = (s \<noteq> [] \<and> list_all is_digit_char s)"

definition digit_value :: "char \<Rightarrow> int" where
  "digit_value c = int (of_char c) - 48"

definition decimal_value :: "string \<Rightarrow> int" where
  "decimal_value s = foldl (\<lambda>acc c. 10 * acc + digit_value c) 0 s"

definition py_int_of_digits :: "string \<Rightarrow> int option" where
  "py_int_of_digits s =
     (if s \<noteq> [] \<and> list_all is_decimal s \<and> length s \<le> 4300 then Some (decimal_value s) else None)"

text \<open>\<open>partition_at\<close> is \<^verbatim>\<open>str.partition\<close> with a one-character separator; \<open>split_at\<close> is \<^verbatim>\<open>str.split\<close>.\<close>

fun partition_at :: "char \<Rightarrow> string \<Rightarrow> string \<times> bool \<times> string" where
  "partition_at c [] = ([], False, [])"
| "partition_at c (x # xs) =
     (if x = c then ([], True, xs)
      else (case partition_at c xs of (a, f, b) \<Rightarrow> (x # a, f, b)))"

fun split_at :: "char \<Rightarrow> string \<Rightarrow> string list" where
  "split_at c [] = [[]]"
| "split_at c (x # xs) =
     (if x = c then [] # split_at c xs
      else (case split_at c xs of [] \<Rightarrow> [[x]] | y # ys \<Rightarrow> (x # y) # ys))"

text \<open>\<^verbatim>\<open>s.rsplit(c, 1)\<close>: the part before and the part after the last occurrence.\<close>

definition rsplit_last :: "char \<Rightarrow> string \<Rightarrow> (string \<times> string) option" where
  "rsplit_last c s =
     (case partition_at c (rev s) of (a, f, b) \<Rightarrow> if f then Some (rev b, rev a) else None)"

text \<open>\<^verbatim>\<open>p in s\<close> of two texts.\<close>

fun contains :: "string \<Rightarrow> string \<Rightarrow> bool" where
  "contains p [] = (p = [])"
| "contains p (x # xs) = (take (length p) (x # xs) = p \<or> contains p xs)"

definition starts_with :: "string \<Rightarrow> string \<Rightarrow> bool" where
  "starts_with p s = (take (length p) s = p)"

fun show_nat :: "nat \<Rightarrow> string" where
  "show_nat n = (if n < 10 then [char_of (48 + n)] else show_nat (n div 10) @ [char_of (48 + n mod 10)])"

declare show_nat.simps [simp del]

definition show_int :: "int \<Rightarrow> string" where
  "show_int i = (if i < 0 then CHR ''-'' # show_nat (nat (- i)) else show_nat (nat i))"

text \<open>One character of the model is one code point below 256: one byte of UTF-8 up to 127, else two.\<close>

definition utf8_encode :: "string \<Rightarrow> bytes" where
  "utf8_encode s = concat (map (\<lambda>c. let n = (of_char c :: nat) in
     if n < 128 then [c] else [char_of (192 + n div 64), char_of (128 + n mod 64)]) s)"

section \<open>Facts on strings\<close>

lemma utf8_ascii: "list_all (\<lambda>c. (of_char c :: nat) < 128) s \<Longrightarrow> utf8_encode s = s"
  by (induction s) (auto simp: utf8_encode_def Let_def)

lemma py_strip_Nil [simp]: "py_strip [] = []"
  by (simp add: py_strip_def lstrip_on_def rstrip_on_def)

lemma length_py_lower [simp]: "length (py_lower s) = length s"
  by (simp add: py_lower_def)

lemma partition_at_no: "c \<notin> set s \<Longrightarrow> partition_at c s = (s, False, [])"
  by (induction s) auto

lemma partition_at_found: "c \<notin> set a \<Longrightarrow> partition_at c (a @ c # b) = (a, True, b)"
  by (induction a) auto

lemma partition_at_fst: "partition_at c s = (a, f, b) \<Longrightarrow> c \<notin> set a"
  by (induction s arbitrary: a f b) (auto split: prod.splits if_splits)

lemma split_at_no_sep: "p \<in> set (split_at c s) \<Longrightarrow> c \<notin> set p"
  by (induction s arbitrary: p) (auto split: list.splits if_splits)

lemma split_at_subset: "p \<in> set (split_at c s) \<Longrightarrow> set p \<subseteq> set s"
  by (induction s arbitrary: p) (fastforce split: list.splits if_splits)+

lemma split_at_not_Nil [simp]: "split_at c s \<noteq> []"
  by (cases s) (auto split: list.splits)

lemma set_rstrip_on: "set (rstrip_on P s) \<subseteq> set s"
  by (auto simp: rstrip_on_def dest: set_dropWhileD)

lemma set_lstrip_on: "set (lstrip_on P s) \<subseteq> set s"
  by (auto simp: lstrip_on_def dest: set_dropWhileD)

lemma set_py_strip: "set (py_strip s) \<subseteq> set s"
  using set_rstrip_on set_lstrip_on unfolding py_strip_def by blast

lemma rstrip_on_last: "rstrip_on P s \<noteq> [] \<Longrightarrow> \<not> P (last (rstrip_on P s))"
  by (auto simp: rstrip_on_def last_rev hd_dropWhile)

lemma show_nat_nonempty [simp]: "show_nat n \<noteq> []"
  by (subst show_nat.simps) simp

lemma show_nat_decimal: "c \<in> set (show_nat n) \<Longrightarrow> is_decimal c"
proof (induction n rule: show_nat.induct)
  case (1 n)
  then show ?case
    by (subst (asm) (2) show_nat.simps)
      (auto simp: is_decimal_def Let_def split: if_splits)
qed

lemma digit_value_char_of: "n < 10 \<Longrightarrow> digit_value (char_of (48 + n)) = int n"
  by (simp add: digit_value_def)

lemma decimal_value_snoc: "decimal_value (s @ [c]) = 10 * decimal_value s + digit_value c"
  by (simp add: decimal_value_def)

lemma decimal_value_show_nat [simp]: "decimal_value (show_nat n) = int n"
proof (induction n rule: show_nat.induct)
  case (1 n)
  show ?case
  proof (cases "n < 10")
    case True
    then show ?thesis
      by (subst show_nat.simps) (simp add: decimal_value_def digit_value_char_of)
  next
    case False
    with 1 have "decimal_value (show_nat (n div 10)) = int (n div 10)" by simp
    then have "decimal_value (show_nat n) = 10 * int (n div 10) + int (n mod 10)"
      using False by (subst show_nat.simps) (simp add: decimal_value_snoc digit_value_char_of)
    also have "\<dots> = int n" by (simp add: zdiv_int zmod_int)
    finally show ?thesis .
  qed
qed

lemma show_nat_inj [simp]: "show_nat m = show_nat n \<longleftrightarrow> m = n"
  by (metis decimal_value_show_nat of_nat_eq_iff)

lemma decimal_value_nonneg: "list_all is_decimal s \<Longrightarrow> 0 \<le> decimal_value s"
proof (induction s rule: rev_induct)
  case (snoc c s)
  then show ?case
    by (auto simp: decimal_value_snoc is_decimal_def digit_value_def Let_def)
qed (simp add: decimal_value_def)

lemma py_int_of_digits_nonneg: "py_int_of_digits s = Some n \<Longrightarrow> 0 \<le> n"
  by (auto simp: py_int_of_digits_def decimal_value_nonneg split: if_splits)

section \<open>Lists of rows with a key\<close>

definition find_row :: "('r \<Rightarrow> 'k) \<Rightarrow> 'k \<Rightarrow> 'r list \<Rightarrow> 'r option" where
  "find_row key k rows = find (\<lambda>r. key r = k) rows"

definition update_where :: "('r \<Rightarrow> bool) \<Rightarrow> ('r \<Rightarrow> 'r) \<Rightarrow> 'r list \<Rightarrow> 'r list" where
  "update_where P f rows = map (\<lambda>r. if P r then f r else r) rows"

definition delete_where :: "('r \<Rightarrow> bool) \<Rightarrow> 'r list \<Rightarrow> 'r list" where
  "delete_where P rows = filter (\<lambda>r. \<not> P r) rows"

definition keys_distinct :: "('r \<Rightarrow> 'k) \<Rightarrow> 'r list \<Rightarrow> bool" where
  "keys_distinct key rows = distinct (map key rows)"

lemma find_row_Nil [simp]: "find_row key k [] = None"
  by (simp add: find_row_def)

lemma find_row_Cons: "find_row key k (r # rows) = (if key r = k then Some r else find_row key k rows)"
  by (simp add: find_row_def)

lemma find_row_append:
  "find_row key k (xs @ ys) = (case find_row key k xs of Some r \<Rightarrow> Some r | None \<Rightarrow> find_row key k ys)"
  by (induction xs) (auto simp: find_row_Cons)

lemma find_row_SomeD: "find_row key k rows = Some r \<Longrightarrow> r \<in> set rows \<and> key r = k"
  by (auto simp: find_row_def find_Some_iff)

lemma find_row_None_iff: "find_row key k rows = None \<longleftrightarrow> (\<forall>r\<in>set rows. key r \<noteq> k)"
  by (auto simp: find_row_def find_None_iff)

lemma find_row_unique:
  "keys_distinct key rows \<Longrightarrow> r \<in> set rows \<Longrightarrow> find_row key (key r) rows = Some r"
  by (induction rows) (auto simp: find_row_Cons keys_distinct_def)

lemma find_row_update_where [row_simps]:
  "(\<And>r. P r \<Longrightarrow> key (f r) = key r) \<Longrightarrow>
   find_row key k (update_where P f rows) =
     map_option (\<lambda>r. if P r then f r else r) (find_row key k rows)"
  by (induction rows) (auto simp: find_row_Cons update_where_def)

lemma find_row_update_other: "(\<And>x. P x \<Longrightarrow> key (f x) = key x \<and> key x \<noteq> k) \<Longrightarrow> find_row key k (update_where P f xs) = find_row key k xs"
  by (induction xs) (auto simp: find_row_Cons update_where_def)

lemma find_row_delete_where [row_simps]:
  "keys_distinct key rows \<Longrightarrow>
   find_row key k (delete_where P rows) =
     (case find_row key k rows of Some r \<Rightarrow> if P r then None else Some r | None \<Rightarrow> None)"
proof (induction rows)
  case (Cons a rows)
  have "find_row key (key a) (delete_where P rows) = None"
    using Cons.prems by (auto simp: find_row_None_iff delete_where_def keys_distinct_def image_iff)
  with Cons show ?case
    by (auto simp: find_row_Cons delete_where_def keys_distinct_def)
qed (simp add: delete_where_def)

lemma set_delete_where [simp]: "set (delete_where P rows) = {r \<in> set rows. \<not> P r}"
  by (auto simp: delete_where_def)

lemma set_update_where: "set (update_where P f rows) = (\<lambda>r. if P r then f r else r) ` set rows"
  by (auto simp: update_where_def)

lemma keys_distinct_Nil [simp]: "keys_distinct key []"
  by (simp add: keys_distinct_def)

lemma keys_distinct_snoc:
  "keys_distinct key (rows @ [r]) \<longleftrightarrow> keys_distinct key rows \<and> find_row key (key r) rows = None"
  by (auto simp: keys_distinct_def find_row_None_iff image_iff)

lemma keys_distinct_delete_where: "keys_distinct key rows \<Longrightarrow> keys_distinct key (delete_where P rows)"
  by (induction rows) (auto simp: keys_distinct_def delete_where_def)

lemma map_key_update_where:
  "(\<And>r. P r \<Longrightarrow> key (f r) = key r) \<Longrightarrow> map key (update_where P f rows) = map key rows"
  by (induction rows) (auto simp: update_where_def)

lemma keys_distinct_update_where:
  "(\<And>r. P r \<Longrightarrow> key (f r) = key r) \<Longrightarrow> keys_distinct key rows \<Longrightarrow> keys_distinct key (update_where P f rows)"
  by (simp add: keys_distinct_def map_key_update_where)

lemma update_where_none: "(\<And>r. r \<in> set rows \<Longrightarrow> \<not> P r) \<Longrightarrow> update_where P f rows = rows"
  by (induction rows) (auto simp: update_where_def)

lemma delete_where_none: "(\<And>r. r \<in> set rows \<Longrightarrow> \<not> P r) \<Longrightarrow> delete_where P rows = rows"
  by (induction rows) (auto simp: delete_where_def)

section \<open>Results\<close>

fun is_ok :: "err + 'a \<Rightarrow> bool" where
  "is_ok (Inl _) = False"
| "is_ok (Inr _) = True"

lemma is_ok_iff: "is_ok r \<longleftrightarrow> (\<exists>x. r = Inr x)"
  by (cases r) auto

lemma not_is_ok_iff: "\<not> is_ok r \<longleftrightarrow> (\<exists>e. r = Inl e)"
  by (cases r) auto

text \<open>A 64-bit column (\<^verbatim>\<open>BIGINT\<close>) and a 32-bit column (\<^verbatim>\<open>INT\<close>) of PostgreSQL.\<close>

definition in_int8 :: "int \<Rightarrow> bool" where
  "in_int8 n = (- (2 ^ 63) \<le> n \<and> n < 2 ^ 63)"

definition in_int4 :: "int \<Rightarrow> bool" where
  "in_int4 n = (- (2 ^ 31) \<le> n \<and> n < 2 ^ 31)"

text \<open>The range of \<^verbatim>\<open>datetime\<close>, year 1 to year 9999, in microseconds since 1970; beyond it, \<^verbatim>\<open>OverflowError\<close>.\<close>

definition in_datetime :: "time \<Rightarrow> bool" where
  "in_datetime t = (- 62135596800000000 \<le> t \<and> t \<le> 253402300799999999)"

definition datetime_add :: "time \<Rightarrow> time \<Rightarrow> err + time" where
  "datetime_add t d = (if in_datetime (t + d) then Inr (t + d) else Inl (OverflowError ''date value out of range''))"

text \<open>The rest of a routine after a call that may raise: the exception ends it.\<close>

fun and_then :: "err + 'a \<Rightarrow> ('a \<Rightarrow> err + 'b) \<Rightarrow> err + 'b" where
  "and_then (Inl e) f = Inl e"
| "and_then (Inr x) f = f x"

lemma and_then_Inr [simp]: "and_then r f = Inr y \<longleftrightarrow> (\<exists>x. r = Inr x \<and> f x = Inr y)"
  by (cases r) auto

lemma and_then_Inl: "and_then r f = Inl e \<longleftrightarrow> r = Inl e \<or> (\<exists>x. r = Inr x \<and> f x = Inl e)"
  by (cases r) auto

text \<open>\<open>str(exc)\<close>, and \<open>str(exc) or type(exc).__name__\<close>.\<close>

fun err_str :: "err \<Rightarrow> string" where
  "err_str (HTTPException n d) = show_int n @ '': '' @ d"
| "err_str (LookupError m) = m"
| "err_str (KeyError m) = [CHR 0x27] @ m @ [CHR 0x27]"
| "err_str (ValueError m) = m"
| "err_str (RuntimeError m) = m"
| "err_str (DataError m) = m"
| "err_str (UniqueViolation m) = m"
| "err_str (ForeignKeyViolation m) = m"
| "err_str (StorageError m) = m"
| "err_str (RedisError m) = m"
| "err_str (OSError m) = m"
| "err_str (RedisUnavailable m) = m"
| "err_str (VideoProcessingError m) = m"
| "err_str (OverflowError m) = m"
| "err_str (TypeError m) = m"
| "err_str (AttributeError m) = m"

fun err_class :: "err \<Rightarrow> string" where
  "err_class (HTTPException _ _) = ''HTTPException''"
| "err_class (LookupError _) = ''LookupError''"
| "err_class (KeyError _) = ''KeyError''"
| "err_class (ValueError _) = ''ValueError''"
| "err_class (RuntimeError _) = ''RuntimeError''"
| "err_class (DataError _) = ''DataError''"
| "err_class (UniqueViolation _) = ''UniqueViolationError''"
| "err_class (ForeignKeyViolation _) = ''ForeignKeyViolationError''"
| "err_class (StorageError _) = ''OSError''"
| "err_class (RedisError _) = ''RedisError''"
| "err_class (OSError _) = ''OSError''"
| "err_class (RedisUnavailable _) = ''RedisUnavailable''"
| "err_class (VideoProcessingError _) = ''VideoProcessingError''"
| "err_class (OverflowError _) = ''OverflowError''"
| "err_class (TypeError _) = ''TypeError''"
| "err_class (AttributeError _) = ''AttributeError''"

definition err_text :: "err \<Rightarrow> string" where
  "err_text e = (if err_str e = [] then err_class e else err_str e)"

end
