(* ===== verification/Models.thy ===== *)
theory Models
  imports Prelude
begin

text \<open>
  The data classes of \<^verbatim>\<open>src/imghost/models.py\<close> as records, field by field and in their order,
  and the events of \<^verbatim>\<open>src/imghost/events.py\<close> as one datatype whose constructors take the fields
  of the event class in their order. A field is prefixed with its class, because record fields
  are global names. \<^verbatim>\<open>T | None\<close> is \<open>'t option\<close>; a float duration is kept as its number of
  microseconds; identifiers (UUIDs included) are strings.
\<close>

section \<open>Users, keys and links\<close>

record user =
  us_id :: string
  us_username :: string
  us_email :: string
  us_password_hash :: "string option"
  us_is_admin :: bool
  us_suspended :: bool
  us_quota_bytes :: "int option"
  us_rate_limit_rpm :: "int option"
  us_rate_limit_bph :: "int option"
  us_created_at :: time
  us_updated_at :: time

record api_key =
  ak_id :: string
  ak_user_id :: string
  ak_key_hash :: string
  ak_created_at :: time
  ak_last_used_at :: "time option"

record user_sso_link =
  sl_id :: string
  sl_user_id :: string
  sl_provider :: string
  sl_provider_uid :: string
  sl_linked_at :: time

record oauth_state_nonce =
  on_jti :: string
  on_mode :: string
  on_user_id :: "string option"
  on_code_verifier :: string
  on_created_at :: time
  on_expires_at :: time

record sharex_capability =
  sc_selector :: string
  sc_purpose :: string
  sc_album_id :: string
  sc_user_id :: string
  sc_secret_hash :: string
  sc_created_at :: time
  sc_expires_at :: time
  sc_consumed_at :: "time option"
  sc_revoked_at :: "time option"
  sc_last_seen_at :: "time option"

section \<open>Albums and media\<close>

record album =
  al_id :: string
  al_title :: "string option"
  al_user_id :: "string option"
  al_cover_media_id :: "string option"
  al_delete_token :: "string option"
  al_created_at :: time
  al_updated_at :: time
  al_expires_at :: "time option"

record media =
  md_id :: string
  md_album_id :: string
  md_user_id :: "string option"
  md_filename_orig :: string
  md_media_type :: string
  md_format :: string
  md_mime_type :: string
  md_storage_key :: string
  md_thumb_key :: "string option"
  md_thumb_is_orig :: bool
  md_thumb_status :: string
  md_file_size :: int
  md_thumb_size :: "int option"
  md_width :: "int option"
  md_height :: "int option"
  md_duration_secs :: "int option"
  md_is_animated :: bool
  md_codec_hint :: "string option"
  md_position :: int
  md_created_at :: time

section \<open>Events\<close>

datatype config_scalar = CBool bool | CInt int

datatype event =
    AlbumCreated string "string option" int string string string
  | MediaUploaded string string "string option" int string string string string string
  | AlbumDeleted string "string option" "string option" string int int string string
  | MediaDeleted string string "string option" "string option" string int string string
  | AlbumTitleChanged string "string option" "string option" string "string option" "string option" string string
  | AlbumCoverSet string "string option" "string option" string "string option" string string
  | AlbumReordered string "string option" "string option" string string string
  | AlbumExpiryChanged string "string option" "string option" string "time option" "time option" string string
  | UserDeleted string "string option" string string int int string string
  | UserSuspended string "string option" bool string string
  | UserPasswordReset string "string option" string string
  | AdminLoggedIn string string string
  | UserRegistered string "string option" string string string
  | ConfigChanged string "string option" "config_scalar option" "config_scalar option" string string
  | LoginFailed string string string string
  | UserLoggedOut string string string
  | ApiKeyIssued string "string option" bool string string
  | UserPasswordChanged string "string option" string string
  | UserAdminStatusChanged string "string option" bool bool string string
  | UserLimitsChanged string "string option" "(string \<times> int option \<times> int option) list" string string

text \<open>
  Python's truth value of an optional string (\<^verbatim>\<open>if album.title\<close>, \<^verbatim>\<open>if media.thumb_key\<close>): \<^verbatim>\<open>None\<close> and
  the empty string are both false.
\<close>

fun truthy :: "string option \<Rightarrow> bool" where
  "truthy None = False"
| "truthy (Some s) = (s \<noteq> [])"

text \<open>\<^verbatim>\<open>s or t\<close> for an optional string.\<close>

definition or_str :: "string option \<Rightarrow> string \<Rightarrow> string" where
  "or_str s t = (if truthy s then the s else t)"

fun or_zero :: "int option \<Rightarrow> int" where
  "or_zero None = 0"
| "or_zero (Some n) = n"

text \<open>\<^verbatim>\<open>is_expired\<close> of \<^verbatim>\<open>web/display_helpers.py\<close>, at the instant \<open>now\<close>.\<close>

fun is_expired :: "time \<Rightarrow> time option \<Rightarrow> bool" where
  "is_expired now None = False"
| "is_expired now (Some t) = (t \<le> now)"

lemma is_expired_iff: "is_expired now e \<longleftrightarrow> (\<exists>t. e = Some t \<and> t \<le> now)"
  by (cases e) auto

text \<open>Time passing never brings an album back.\<close>

lemma is_expired_mono: "now \<le> now' \<Longrightarrow> is_expired now e \<Longrightarrow> is_expired now' e"
  by (cases e) auto

section \<open>Storage accounting over media rows\<close>

text \<open>
  \<^verbatim>\<open>UploadService._storage_keys_for_media\<close> and \<^verbatim>\<open>_storage_bytes_for_media\<close> (repeated verbatim in
  \<^verbatim>\<open>AccountService\<close>): the distinct non-empty keys in order of first occurrence, and the bytes the
  rows account for.
\<close>

fun add_key :: "string option \<Rightarrow> string list \<Rightarrow> string list" where
  "add_key None keys = keys"
| "add_key (Some k) keys = (if k = [] \<or> k \<in> set keys then keys else keys @ [k])"

definition storage_keys_for_media :: "media list \<Rightarrow> string list" where
  "storage_keys_for_media items =
     foldl (\<lambda>keys m. add_key (md_thumb_key m) (add_key (Some (md_storage_key m)) keys)) [] items"

definition media_bytes :: "media \<Rightarrow> int" where
  "media_bytes m = md_file_size m +
     (if truthy (md_thumb_key m) \<and> md_thumb_key m \<noteq> Some (md_storage_key m)
      then or_zero (md_thumb_size m) else 0)"

definition storage_bytes_for_media :: "media list \<Rightarrow> int" where
  "storage_bytes_for_media items = foldl (\<lambda>total m. total + media_bytes m) 0 items"

lemma foldl_add_bytes: "foldl (\<lambda>total m. total + media_bytes m) a items = a + sum_list (map media_bytes items)"
  by (induction items arbitrary: a) auto

lemma storage_bytes_sum: "storage_bytes_for_media items = sum_list (map media_bytes items)"
  by (simp add: storage_bytes_for_media_def foldl_add_bytes)

lemma storage_bytes_append [simp]:
  "storage_bytes_for_media (xs @ ys) = storage_bytes_for_media xs + storage_bytes_for_media ys"
  by (simp add: storage_bytes_sum)

lemma storage_bytes_Nil [simp]: "storage_bytes_for_media [] = 0"
  by (simp add: storage_bytes_sum)

lemma set_add_key: "set (add_key k keys) = set keys \<union> {x. k = Some x \<and> x \<noteq> []}"
  by (cases k) auto

lemma distinct_add_key: "distinct keys \<Longrightarrow> distinct (add_key k keys)"
  by (cases k) auto

lemma foldl_keys:
  "set (foldl (\<lambda>keys m. add_key (md_thumb_key m) (add_key (Some (md_storage_key m)) keys)) ks items) =
     set ks \<union> {x. x \<noteq> [] \<and> (\<exists>m\<in>set items. x = md_storage_key m \<or> md_thumb_key m = Some x)}"
  by (induction items arbitrary: ks) (auto simp: set_add_key)

lemma set_storage_keys:
  "set (storage_keys_for_media items) =
     {x. x \<noteq> [] \<and> (\<exists>m\<in>set items. x = md_storage_key m \<or> md_thumb_key m = Some x)}"
  unfolding storage_keys_for_media_def by (subst foldl_keys) simp

lemma distinct_storage_keys: "distinct (storage_keys_for_media items)"
proof -
  have "distinct ks \<Longrightarrow>
    distinct (foldl (\<lambda>keys m. add_key (md_thumb_key m) (add_key (Some (md_storage_key m)) keys)) ks items)"
    for ks by (induction items arbitrary: ks) (simp_all add: distinct_add_key del: add_key.simps)
  then show ?thesis by (simp add: storage_keys_for_media_def)
qed

end
