(* ===== verification/Database.thy ===== *)
theory Database
  imports Models "HOL-Library.List_Lexorder" "HOL-Library.Char_ord" "HOL-Library.Product_Lexorder"
begin

text \<open>
  The PostgreSQL tables behind the repositories (\<^verbatim>\<open>db/init/001-init.sql\<close>) and the queries of
  \<^verbatim>\<open>src/imghost/repository_media.py\<close>. A table is the list of its rows in insertion order;
  \<^verbatim>\<open>ORDER BY\<close> is a stable sort of it, so rows that tie come in insertion order, and text compares
  by code point. A row of \<^verbatim>\<open>albums\<close>, \<^verbatim>\<open>media\<close> or \<^verbatim>\<open>sharex_delete_capabilities\<close> has the columns of
  its model class, so \<^verbatim>\<open>row_to_album\<close> and the like are the identity here; a user's row is joined
  with its rate limits by \<open>row_to_user\<close>. A query runs in one transaction: it returns an error and
  changes nothing, or returns its result and the new tables. \<open>now\<close> is the database's \<^verbatim>\<open>now()\<close>.
\<close>

section \<open>Tables\<close>

record user_row =
  ur_id :: string
  ur_username :: string
  ur_email :: string
  ur_password_hash :: "string option"
  ur_is_admin :: bool
  ur_is_suspended :: bool
  ur_quota_bytes :: "int option"
  ur_created_at :: time
  ur_updated_at :: time

record rate_limit_row =
  rl_user_id :: string
  rl_rpm :: "int option"
  rl_bph :: "int option"

record db =
  db_users :: "user_row list"
  db_rate_limits :: "rate_limit_row list"
  db_sso_links :: "user_sso_link list"
  db_nonces :: "oauth_state_nonce list"
  db_api_keys :: "api_key list"
  db_albums :: "album list"
  db_media :: "media list"
  db_sharex :: "sharex_capability list"

definition empty_db :: db where
  "empty_db = \<lparr>db_users = [], db_rate_limits = [], db_sso_links = [], db_nonces = [],
     db_api_keys = [], db_albums = [], db_media = [], db_sharex = []\<rparr>"

definition user_exists :: "db \<Rightarrow> string \<Rightarrow> bool" where
  "user_exists d u = (\<exists>r\<in>set (db_users d). ur_id r = u)"

definition album_exists :: "db \<Rightarrow> string \<Rightarrow> bool" where
  "album_exists d a = (\<exists>r\<in>set (db_albums d). al_id r = a)"

fun opt_user_exists :: "db \<Rightarrow> string option \<Rightarrow> bool" where
  "opt_user_exists d None = True"
| "opt_user_exists d (Some u) = user_exists d u"

text \<open>The uniqueness and foreign-key constraints the schema declares.\<close>

definition keys_ok :: "db \<Rightarrow> bool" where
  "keys_ok d =
     (keys_distinct ur_id (db_users d) \<and> keys_distinct ur_username (db_users d)
      \<and> keys_distinct ur_email (db_users d)
      \<and> keys_distinct rl_user_id (db_rate_limits d)
      \<and> keys_distinct sl_id (db_sso_links d)
      \<and> keys_distinct (\<lambda>l. (sl_provider l, sl_provider_uid l)) (db_sso_links d)
      \<and> keys_distinct on_jti (db_nonces d)
      \<and> keys_distinct ak_id (db_api_keys d) \<and> keys_distinct ak_user_id (db_api_keys d)
      \<and> keys_distinct ak_key_hash (db_api_keys d)
      \<and> keys_distinct al_id (db_albums d) \<and> keys_distinct md_id (db_media d)
      \<and> keys_distinct sc_selector (db_sharex d))"

definition fks_ok :: "db \<Rightarrow> bool" where
  "fks_ok d =
     ((\<forall>r\<in>set (db_rate_limits d). user_exists d (rl_user_id r))
      \<and> (\<forall>l\<in>set (db_sso_links d). user_exists d (sl_user_id l))
      \<and> (\<forall>n\<in>set (db_nonces d). opt_user_exists d (on_user_id n))
      \<and> (\<forall>k\<in>set (db_api_keys d). user_exists d (ak_user_id k))
      \<and> (\<forall>a\<in>set (db_albums d). opt_user_exists d (al_user_id a))
      \<and> (\<forall>m\<in>set (db_media d). album_exists d (md_album_id m) \<and> opt_user_exists d (md_user_id m))
      \<and> (\<forall>c\<in>set (db_sharex d). album_exists d (sc_album_id c) \<and> user_exists d (sc_user_id c)))"

definition db_wf :: "db \<Rightarrow> bool" where
  "db_wf d = (keys_ok d \<and> fks_ok d)"

text \<open>\<^verbatim>\<open>DELETE FROM albums\<close> and \<^verbatim>\<open>DELETE FROM users\<close> with the cascades of the schema.\<close>

definition cascade_album :: "(album \<Rightarrow> bool) \<Rightarrow> db \<Rightarrow> db" where
  "cascade_album P d =
     (let gone = map al_id (filter P (db_albums d)) in
      d\<lparr>db_albums := delete_where P (db_albums d),
        db_media := delete_where (\<lambda>m. md_album_id m \<in> set gone) (db_media d),
        db_sharex := delete_where (\<lambda>c. sc_album_id c \<in> set gone) (db_sharex d)\<rparr>)"

definition cascade_user :: "string \<Rightarrow> db \<Rightarrow> db" where
  "cascade_user u d =
     (let d' = cascade_album (\<lambda>a. al_user_id a = Some u) d in
      d'\<lparr>db_users := delete_where (\<lambda>r. ur_id r = u) (db_users d'),
         db_rate_limits := delete_where (\<lambda>r. rl_user_id r = u) (db_rate_limits d'),
         db_sso_links := delete_where (\<lambda>l. sl_user_id l = u) (db_sso_links d'),
         db_nonces := delete_where (\<lambda>n. on_user_id n = Some u) (db_nonces d'),
         db_api_keys := delete_where (\<lambda>k. ak_user_id k = u) (db_api_keys d'),
         db_media := update_where (\<lambda>m. md_user_id m = Some u) (\<lambda>m. m\<lparr>md_user_id := None\<rparr>) (db_media d'),
         db_sharex := delete_where (\<lambda>c. sc_user_id c = u) (db_sharex d')\<rparr>)"

lemma keys_distinct_filter: "keys_distinct k xs \<Longrightarrow> keys_distinct k (delete_where P xs)"
  by (rule keys_distinct_delete_where)

lemma db_wf_empty: "db_wf empty_db"
  by (simp add: db_wf_def keys_ok_def fks_ok_def empty_db_def)

lemma cascade_album_sel [simp]:
  "db_users (cascade_album P d) = db_users d"
  "db_rate_limits (cascade_album P d) = db_rate_limits d"
  "db_sso_links (cascade_album P d) = db_sso_links d"
  "db_nonces (cascade_album P d) = db_nonces d"
  "db_api_keys (cascade_album P d) = db_api_keys d"
  "db_albums (cascade_album P d) = delete_where P (db_albums d)"
  by (simp_all add: cascade_album_def Let_def)

lemma in_media_cascade_album:
  "m \<in> set (db_media (cascade_album P d)) \<longleftrightarrow>
     m \<in> set (db_media d) \<and> md_album_id m \<notin> al_id ` {a \<in> set (db_albums d). P a}"
  by (auto simp: cascade_album_def Let_def)

lemma in_sharex_cascade_album:
  "c \<in> set (db_sharex (cascade_album P d)) \<longleftrightarrow>
     c \<in> set (db_sharex d) \<and> sc_album_id c \<notin> al_id ` {a \<in> set (db_albums d). P a}"
  by (auto simp: cascade_album_def Let_def)

lemma user_exists_cong: "db_users d' = db_users d \<Longrightarrow> user_exists d' u = user_exists d u"
  by (simp add: user_exists_def)

lemma opt_user_exists_cong: "db_users d' = db_users d \<Longrightarrow> opt_user_exists d' u = opt_user_exists d u"
  by (cases u) (simp_all add: user_exists_def)

lemma album_exists_iff: "album_exists d a \<longleftrightarrow> a \<in> set (map al_id (db_albums d))"
  by (auto simp: album_exists_def)

lemma album_exists_cong: "map al_id (db_albums d') = map al_id (db_albums d) \<Longrightarrow> album_exists d' a = album_exists d a"
  by (simp only: album_exists_iff)

lemma album_exists_find: "album_exists d a \<longleftrightarrow> find_row al_id a (db_albums d) \<noteq> None"
  by (auto simp: album_exists_def find_row_None_iff)

lemma user_exists_find: "user_exists d u \<longleftrightarrow> find_row ur_id u (db_users d) \<noteq> None"
  by (auto simp: user_exists_def find_row_None_iff)

lemma db_wf_cascade_album:
  assumes "db_wf d"
  shows "db_wf (cascade_album P d)"
proof -
  have "keys_ok (cascade_album P d)"
    using assms by (simp add: db_wf_def keys_ok_def cascade_album_def Let_def keys_distinct_filter)
  moreover have "fks_ok (cascade_album P d)"
  proof -
    have ue: "user_exists (cascade_album P d) u = user_exists d u" for u
      by (rule user_exists_cong) simp
    have oue: "opt_user_exists (cascade_album P d) u = opt_user_exists d u" for u
      by (rule opt_user_exists_cong) simp
    have ae: "album_exists d a \<Longrightarrow> a \<notin> al_id ` {x \<in> set (db_albums d). P x}
        \<Longrightarrow> album_exists (cascade_album P d) a" for a
      by (auto simp: album_exists_def)
    show ?thesis
      using assms unfolding db_wf_def fks_ok_def ue oue
      by (simp add: in_media_cascade_album in_sharex_cascade_album ae)
  qed
  ultimately show ?thesis by (simp add: db_wf_def)
qed

lemma db_wf_cascade_user:
  assumes "db_wf d"
  shows "db_wf (cascade_user u d)"
proof -
  let ?d = "cascade_album (\<lambda>a. al_user_id a = Some u) d"
  have wf: "db_wf ?d" using assms by (rule db_wf_cascade_album)
  have k: "keys_ok (cascade_user u d)"
    using wf by (simp add: db_wf_def keys_ok_def cascade_user_def Let_def keys_distinct_filter
        keys_distinct_update_where)
  have alb: "db_albums (cascade_user u d) = db_albums ?d"
    by (simp add: cascade_user_def Let_def)
  have ae: "album_exists (cascade_user u d) a = album_exists ?d a" for a
    by (rule album_exists_cong) (simp add: alb)
  have ue: "user_exists (cascade_user u d) v \<longleftrightarrow> user_exists d v \<and> v \<noteq> u" for v
    by (auto simp: user_exists_def cascade_user_def Let_def)
  have ue': "user_exists ?d v = user_exists d v" for v by (rule user_exists_cong) simp
  have oue: "opt_user_exists ?d v \<Longrightarrow> v \<noteq> Some u \<Longrightarrow> opt_user_exists (cascade_user u d) v" for v
    by (cases v) (auto simp: ue ue')
  have f: "fks_ok ?d" using wf by (simp add: db_wf_def)
  have sub: "set (db_rate_limits (cascade_user u d)) = {r \<in> set (db_rate_limits d). rl_user_id r \<noteq> u}"
    "set (db_sso_links (cascade_user u d)) = {l \<in> set (db_sso_links d). sl_user_id l \<noteq> u}"
    "set (db_nonces (cascade_user u d)) = {n \<in> set (db_nonces d). on_user_id n \<noteq> Some u}"
    "set (db_api_keys (cascade_user u d)) = {k \<in> set (db_api_keys d). ak_user_id k \<noteq> u}"
    "set (db_albums (cascade_user u d)) = {a \<in> set (db_albums d). al_user_id a \<noteq> Some u}"
    "set (db_sharex (cascade_user u d)) = {c \<in> set (db_sharex ?d). sc_user_id c \<noteq> u}"
    by (auto simp: cascade_user_def Let_def)
  have med: "\<exists>m0\<in>set (db_media ?d). m = (if md_user_id m0 = Some u then m0\<lparr>md_user_id := None\<rparr> else m0)"
    if "m \<in> set (db_media (cascade_user u d))" for m
    using that by (auto simp: cascade_user_def Let_def set_update_where)
  have f0: "fks_ok d" using assms by (simp add: db_wf_def)
  have "album_exists ?d (md_album_id m) \<and> opt_user_exists (cascade_user u d) (md_user_id m)"
    if "m \<in> set (db_media (cascade_user u d))" for m
  proof -
    from med [OF that] obtain m0 where m0: "m0 \<in> set (db_media ?d)"
      and m: "m = (if md_user_id m0 = Some u then m0\<lparr>md_user_id := None\<rparr> else m0)" by blast
    from f m0 have "album_exists ?d (md_album_id m0)" "opt_user_exists ?d (md_user_id m0)"
      by (auto simp: fks_ok_def)
    then show ?thesis by (auto simp: m intro: oue)
  qed
  moreover have "opt_user_exists d v \<Longrightarrow> v \<noteq> Some u \<Longrightarrow> opt_user_exists (cascade_user u d) v" for v
    by (cases v) (auto simp: ue)
  ultimately have "fks_ok (cascade_user u d)"
    using f0 f unfolding fks_ok_def ae sub ue ue' by auto
  with k show ?thesis by (simp add: db_wf_def)
qed

section \<open>Albums\<close>

text \<open>\<^verbatim>\<open>LIKE\<close>: \<^verbatim>\<open>%\<close> matches any text, \<^verbatim>\<open>_\<close> one character, and a backslash quotes the next one.\<close>

fun like_match :: "string \<Rightarrow> string \<Rightarrow> bool" where
  "like_match [] s = (s = [])"
| "like_match (p # ps) s =
     (if p = CHR ''%'' then
        (like_match ps s \<or> (case s of [] \<Rightarrow> False | x # xs \<Rightarrow> like_match (p # ps) xs))
      else if p = CHR ''_'' then (case s of [] \<Rightarrow> False | x # xs \<Rightarrow> like_match ps xs)
      else if p = CHR 0x5C then
        (case ps of [] \<Rightarrow> False
         | q # qs \<Rightarrow> (case s of [] \<Rightarrow> False | x # xs \<Rightarrow> x = q \<and> like_match qs xs))
      else (case s of [] \<Rightarrow> False | x # xs \<Rightarrow> x = p \<and> like_match ps xs))"

definition contains_pattern :: "string \<Rightarrow> string" where
  "contains_pattern q = ''%'' @ py_lower q @ ''%''"

definition order_desc :: "('r \<Rightarrow> 'k::linorder) \<Rightarrow> 'r list \<Rightarrow> 'r list" where
  "order_desc key rows = rev (sort_key key rows)"

definition page :: "int \<Rightarrow> int \<Rightarrow> 'r list \<Rightarrow> 'r list" where
  "page lim ofs rows = take (nat lim) (drop (nat ofs) rows)"

definition album_matches :: "db \<Rightarrow> string option \<Rightarrow> string option \<Rightarrow> bool option \<Rightarrow> album \<Rightarrow> bool" where
  "album_matches d q owner anonymous a =
     ((truthy q \<longrightarrow>
         (case al_title a of None \<Rightarrow> False | Some t \<Rightarrow> like_match (contains_pattern (the q)) (py_lower t))
         \<or> like_match (contains_pattern (the q)) (al_id a))
      \<and> (truthy owner \<longrightarrow>
         (\<exists>r\<in>set (db_users d). al_user_id a = Some (ur_id r)
            \<and> (like_match (contains_pattern (the owner)) (py_lower (ur_username r))
               \<or> like_match (contains_pattern (the owner)) (py_lower (ur_email r)))))
      \<and> (case anonymous of None \<Rightarrow> True | Some b \<Rightarrow> (al_user_id a = None) = b))"

definition list_albums_page ::
  "string option \<Rightarrow> string option \<Rightarrow> bool option \<Rightarrow> int \<Rightarrow> int \<Rightarrow> db \<Rightarrow> album list \<times> int" where
  "list_albums_page q owner anonymous lim ofs d =
     (let rows = filter (album_matches d q owner anonymous) (db_albums d) in
      (page lim ofs (order_desc (\<lambda>a. (al_updated_at a, al_id a)) rows), int (length rows)))"

definition get_album :: "string \<Rightarrow> db \<Rightarrow> album option" where
  "get_album aid d = find_row al_id aid (db_albums d)"

definition create_album :: "album \<Rightarrow> db \<Rightarrow> err + (album \<times> db)" where
  "create_album a d =
     (if get_album (al_id a) d \<noteq> None then Inl (UniqueViolation ''albums_pkey'')
      else if \<not> opt_user_exists d (al_user_id a) then Inl (ForeignKeyViolation ''albums_user_id_fkey'')
      else Inr (a, d\<lparr>db_albums := db_albums d @ [a]\<rparr>))"

definition album_row_update :: "time \<Rightarrow> album \<Rightarrow> album \<Rightarrow> album" where
  "album_row_update now a row =
     row\<lparr>al_user_id := al_user_id a, al_title := al_title a, al_cover_media_id := al_cover_media_id a,
         al_delete_token := al_delete_token a, al_expires_at := al_expires_at a, al_updated_at := now\<rparr>"

definition update_album_row :: "time \<Rightarrow> album \<Rightarrow> db \<Rightarrow> err + (album \<times> db)" where
  "update_album_row now a d =
     (case get_album (al_id a) d of
        None \<Rightarrow> Inl (LookupError ''album_not_found'')
      | Some row \<Rightarrow>
        if \<not> opt_user_exists d (al_user_id a) then Inl (ForeignKeyViolation ''albums_user_id_fkey'')
        else Inr (album_row_update now a row,
          d\<lparr>db_albums := update_where (\<lambda>r. al_id r = al_id a) (album_row_update now a) (db_albums d)\<rparr>))"

definition list_expired_albums :: "time \<Rightarrow> db \<Rightarrow> album list" where
  "list_expired_albums now d =
     sort_key (\<lambda>a. the (al_expires_at a)) (filter (\<lambda>a. is_expired now (al_expires_at a)) (db_albums d))"

definition list_albums :: "db \<Rightarrow> album list" where
  "list_albums d = sort_key al_created_at (db_albums d)"

definition list_album_media :: "string \<Rightarrow> db \<Rightarrow> media list" where
  "list_album_media aid d = sort_key md_position (filter (\<lambda>m. md_album_id m = aid) (db_media d))"

definition repo_delete_album :: "string \<Rightarrow> db \<Rightarrow> (album option \<times> media list) \<times> db" where
  "repo_delete_album aid d =
     (case get_album aid d of
        None \<Rightarrow> ((None, []), d)
      | Some a \<Rightarrow> ((Some a, list_album_media aid d), cascade_album (\<lambda>r. al_id r = aid) d))"

section \<open>Media\<close>

definition list_media_for_album_ids :: "string list \<Rightarrow> db \<Rightarrow> (string \<times> media list) list" where
  "list_media_for_album_ids ids d =
     (let grouped = map (\<lambda>a. (a, [])) (remdups ids) in
      if ids = [] then grouped
      else map (\<lambda>(a, items). (a, items @ list_album_media a d)) grouped)"

definition list_all_media :: "db \<Rightarrow> media list" where
  "list_all_media d = sort_key md_created_at (db_media d)"

definition get_media :: "string \<Rightarrow> db \<Rightarrow> media option" where
  "get_media mid d = find_row md_id mid (db_media d)"

fun opt_in :: "(int \<Rightarrow> bool) \<Rightarrow> int option \<Rightarrow> bool" where
  "opt_in P None = True"
| "opt_in P (Some n) = P n"

definition media_encodable :: "media \<Rightarrow> bool" where
  "media_encodable m =
     (in_int8 (md_file_size m) \<and> opt_in in_int8 (md_thumb_size m) \<and> opt_in in_int4 (md_width m)
      \<and> opt_in in_int4 (md_height m) \<and> in_int8 (md_position m))"

definition create_media_row :: "media \<Rightarrow> db \<Rightarrow> err + (media \<times> db)" where
  "create_media_row m d =
     (if \<not> media_encodable m then Inl (DataError ''value out of range'')
      else if get_media (md_id m) d \<noteq> None then Inl (UniqueViolation ''media_pkey'')
      else if \<not> album_exists d (md_album_id m) then Inl (ForeignKeyViolation ''media_album_id_fkey'')
      else if \<not> opt_user_exists d (md_user_id m) then Inl (ForeignKeyViolation ''media_user_id_fkey'')
      else Inr (m, d\<lparr>db_media := db_media d @ [m]\<rparr>))"

text \<open>\<^verbatim>\<open>COALESCE(MAX(position) + 1000, 1000)\<close>, which overflows as \<^verbatim>\<open>BIGINT\<close> arithmetic does.\<close>

definition next_position :: "string \<Rightarrow> db \<Rightarrow> err + int" where
  "next_position aid d =
     (case map md_position (filter (\<lambda>m. md_album_id m = aid) (db_media d)) of
        [] \<Rightarrow> Inr 1000
      | p # ps \<Rightarrow> let n = fold max ps p + 1000 in
          if in_int8 n then Inr n else Inl (DataError ''bigint out of range''))"

definition create_media_with_next_position :: "media \<Rightarrow> db \<Rightarrow> err + (media \<times> db)" where
  "create_media_with_next_position m d =
     (case next_position (md_album_id m) d of
        Inl e \<Rightarrow> Inl e
      | Inr p \<Rightarrow> create_media_row (m\<lparr>md_position := p\<rparr>) d)"

definition update_media_row :: "media \<Rightarrow> db \<Rightarrow> err + (media \<times> db)" where
  "update_media_row m d =
     (if \<not> media_encodable m then Inl (DataError ''value out of range'')
      else if get_media (md_id m) d = None then Inl (LookupError ''media_not_found'')
      else if \<not> album_exists d (md_album_id m) then Inl (ForeignKeyViolation ''media_album_id_fkey'')
      else if \<not> opt_user_exists d (md_user_id m) then Inl (ForeignKeyViolation ''media_user_id_fkey'')
      else Inr (m, d\<lparr>db_media := update_where (\<lambda>r. md_id r = md_id m) (\<lambda>_. m) (db_media d)\<rparr>))"

definition set_thumb :: "string option \<Rightarrow> bool \<Rightarrow> string \<Rightarrow> int option \<Rightarrow> media \<Rightarrow> media" where
  "set_thumb tk orig status tsz m =
     m\<lparr>md_thumb_key := tk, md_thumb_is_orig := orig, md_thumb_status := status, md_thumb_size := tsz\<rparr>"

definition update_media_thumbnail_state ::
  "string \<Rightarrow> string option \<Rightarrow> bool \<Rightarrow> string \<Rightarrow> int option \<Rightarrow> db \<Rightarrow> err + (media \<times> db)" where
  "update_media_thumbnail_state mid tk orig status tsz d =
     (if \<not> opt_in in_int8 tsz then Inl (DataError ''value out of range'')
      else (case get_media mid d of
        None \<Rightarrow> Inl (LookupError ''media_not_found'')
      | Some m \<Rightarrow> Inr (set_thumb tk orig status tsz m,
          d\<lparr>db_media := update_where (\<lambda>r. md_id r = mid) (set_thumb tk orig status tsz) (db_media d)\<rparr>)))"

definition list_media_by_thumb_status :: "string list \<Rightarrow> db \<Rightarrow> media list" where
  "list_media_by_thumb_status statuses d =
     sort_key md_created_at (filter (\<lambda>m. md_thumb_status m \<in> set statuses) (db_media d))"

definition find_pending_thumbnails :: "db \<Rightarrow> media list" where
  "find_pending_thumbnails d = list_media_by_thumb_status [''pending'', ''processing''] d"

definition find_failed_thumbnails :: "db \<Rightarrow> media list" where
  "find_failed_thumbnails d = list_media_by_thumb_status [''failed''] d"

definition repo_delete_media :: "string \<Rightarrow> db \<Rightarrow> media option \<times> db" where
  "repo_delete_media mid d =
     (get_media mid d, d\<lparr>db_media := delete_where (\<lambda>m. md_id m = mid) (db_media d)\<rparr>)"

text \<open>
  \<^verbatim>\<open>update_media_positions\<close>: one \<^verbatim>\<open>UPDATE\<close> per entry of the dictionary, in one transaction, so a
  position that does not fit the column undoes all of them.
\<close>

definition set_position :: "string \<Rightarrow> string \<times> int \<Rightarrow> db \<Rightarrow> db" where
  "set_position aid mp d =
     d\<lparr>db_media := update_where (\<lambda>m. md_id m = fst mp \<and> md_album_id m = aid)
        (\<lambda>m. m\<lparr>md_position := snd mp\<rparr>) (db_media d)\<rparr>"

definition update_media_positions :: "string \<Rightarrow> (string \<times> int) list \<Rightarrow> db \<Rightarrow> err + (media list \<times> db)" where
  "update_media_positions aid positions d =
     (if \<not> list_all (\<lambda>mp. in_int8 (snd mp)) positions then Inl (DataError ''value out of range'')
      else let d' = fold (set_position aid) positions d in Inr (list_album_media aid d', d'))"

section \<open>Delete capabilities\<close>

definition create_sharex_delete_capability :: "sharex_capability \<Rightarrow> db \<Rightarrow> err + (sharex_capability \<times> db)" where
  "create_sharex_delete_capability c d =
     (if find_row sc_selector (sc_selector c) (db_sharex d) \<noteq> None
        then Inl (UniqueViolation ''sharex_delete_capabilities_pkey'')
      else if \<not> album_exists d (sc_album_id c) then Inl (ForeignKeyViolation ''sharex_album_id_fkey'')
      else if \<not> user_exists d (sc_user_id c) then Inl (ForeignKeyViolation ''sharex_user_id_fkey'')
      else Inr (c, d\<lparr>db_sharex := db_sharex d @ [c]\<rparr>))"

definition get_sharex_delete_capability :: "string \<Rightarrow> db \<Rightarrow> sharex_capability option" where
  "get_sharex_delete_capability sel d = find_row sc_selector sel (db_sharex d)"

text \<open>An \<^verbatim>\<open>UPDATE ... WHERE ... RETURNING *\<close> of capabilities, of which one row at most matches.\<close>

definition update_sharex_where ::
  "(sharex_capability \<Rightarrow> bool) \<Rightarrow> (sharex_capability \<Rightarrow> sharex_capability) \<Rightarrow> db
    \<Rightarrow> sharex_capability option \<times> db" where
  "update_sharex_where P f d =
     (map_option f (find P (db_sharex d)), d\<lparr>db_sharex := update_where P f (db_sharex d)\<rparr>)"

definition touch_sharex_delete_capability :: "time \<Rightarrow> string \<Rightarrow> db \<Rightarrow> sharex_capability option \<times> db" where
  "touch_sharex_delete_capability now sel d =
     update_sharex_where (\<lambda>c. sc_selector c = sel) (\<lambda>c. c\<lparr>sc_last_seen_at := Some now\<rparr>) d"

definition consumable :: "time \<Rightarrow> string \<Rightarrow> string \<Rightarrow> sharex_capability \<Rightarrow> bool" where
  "consumable now sel aid c =
     (sc_selector c = sel \<and> sc_album_id c = aid \<and> sc_revoked_at c = None \<and> sc_consumed_at c = None
      \<and> sc_expires_at c > now)"

definition consume_sharex_delete_capability ::
  "time \<Rightarrow> string \<Rightarrow> string \<Rightarrow> db \<Rightarrow> sharex_capability option \<times> db" where
  "consume_sharex_delete_capability now sel aid d =
     update_sharex_where (consumable now sel aid)
       (\<lambda>c. c\<lparr>sc_consumed_at := Some now, sc_last_seen_at := Some now\<rparr>) d"

definition revoke_row :: "time \<Rightarrow> sharex_capability \<Rightarrow> sharex_capability" where
  "revoke_row now c =
     c\<lparr>sc_revoked_at := (case sc_revoked_at c of Some t \<Rightarrow> Some t | None \<Rightarrow> Some now), sc_last_seen_at := Some now\<rparr>"

definition revoke_sharex_where :: "time \<Rightarrow> (sharex_capability \<Rightarrow> bool) \<Rightarrow> db \<Rightarrow> int \<times> db" where
  "revoke_sharex_where now P d =
     (let Q = (\<lambda>c. P c \<and> sc_consumed_at c = None \<and> sc_revoked_at c = None) in
      (int (length (filter Q (db_sharex d))), d\<lparr>db_sharex := update_where Q (revoke_row now) (db_sharex d)\<rparr>))"

definition revoke_sharex_delete_capabilities_for_album :: "time \<Rightarrow> string \<Rightarrow> db \<Rightarrow> int \<times> db" where
  "revoke_sharex_delete_capabilities_for_album now aid d =
     revoke_sharex_where now (\<lambda>c. sc_album_id c = aid) d"

definition revoke_sharex_delete_capabilities_for_user :: "time \<Rightarrow> string \<Rightarrow> db \<Rightarrow> int \<times> db" where
  "revoke_sharex_delete_capabilities_for_user now u d =
     revoke_sharex_where now (\<lambda>c. sc_user_id c = u) d"

definition delete_sharex_where :: "(sharex_capability \<Rightarrow> bool) \<Rightarrow> db \<Rightarrow> int \<times> db" where
  "delete_sharex_where P d =
     (int (length (filter P (db_sharex d))), d\<lparr>db_sharex := delete_where P (db_sharex d)\<rparr>)"

definition delete_expired_sharex_delete_capabilities :: "time \<Rightarrow> db \<Rightarrow> int \<times> db" where
  "delete_expired_sharex_delete_capabilities now d = delete_sharex_where (\<lambda>c. sc_expires_at c \<le> now) d"

definition delete_consumed_sharex_delete_capabilities_older_than :: "time \<Rightarrow> db \<Rightarrow> int \<times> db" where
  "delete_consumed_sharex_delete_capabilities_older_than cutoff d =
     delete_sharex_where (\<lambda>c. is_expired cutoff (sc_consumed_at c)) d"

definition delete_revoked_sharex_delete_capabilities_older_than :: "time \<Rightarrow> db \<Rightarrow> int \<times> db" where
  "delete_revoked_sharex_delete_capabilities_older_than cutoff d =
     delete_sharex_where (\<lambda>c. is_expired cutoff (sc_revoked_at c)) d"

end
