(* ===== verification/Db_Facts.thy ===== *)
theory Db_Facts
  imports Database
begin

text \<open>
  Facts about the queries of \<^verbatim>\<open>Database\<close>: what each leaves alone, that each keeps the constraints
  of the schema (\<open>db_wf\<close>), and what the position updates do to an album's listing.
\<close>

section \<open>Keeping the constraints\<close>

lemma exists_media_upd [simp]:
  "album_exists (d\<lparr>db_media := ms\<rparr>) a = album_exists d a"
  "user_exists (d\<lparr>db_media := ms\<rparr>) u = user_exists d u"
  "album_exists (d\<lparr>db_sharex := cs\<rparr>) a = album_exists d a"
  "user_exists (d\<lparr>db_sharex := cs\<rparr>) u = user_exists d u"
  "user_exists (d\<lparr>db_albums := xs\<rparr>) u = user_exists d u"
  by (simp_all add: album_exists_def user_exists_def)

lemma opt_exists_upd [simp]:
  "opt_user_exists (d\<lparr>db_media := ms\<rparr>) v = opt_user_exists d v"
  "opt_user_exists (d\<lparr>db_sharex := cs\<rparr>) v = opt_user_exists d v"
  "opt_user_exists (d\<lparr>db_albums := xs\<rparr>) v = opt_user_exists d v"
  by (cases v; simp)+

lemma db_wf_media_upd:
  assumes "db_wf d" "keys_distinct md_id ms"
    and "\<And>m. m \<in> set ms \<Longrightarrow> album_exists d (md_album_id m) \<and> opt_user_exists d (md_user_id m)"
  shows "db_wf (d\<lparr>db_media := ms\<rparr>)"
  using assms by (simp add: db_wf_def keys_ok_def fks_ok_def)

lemma db_wf_sharex_upd:
  assumes "db_wf d" "keys_distinct sc_selector cs"
    and "\<And>c. c \<in> set cs \<Longrightarrow> album_exists d (sc_album_id c) \<and> user_exists d (sc_user_id c)"
  shows "db_wf (d\<lparr>db_sharex := cs\<rparr>)"
  using assms by (simp add: db_wf_def keys_ok_def fks_ok_def)

lemma db_wf_albums_upd:
  assumes "db_wf d" "keys_distinct al_id xs" "set (map al_id (db_albums d)) \<subseteq> set (map al_id xs)"
    and "\<And>a. a \<in> set xs \<Longrightarrow> opt_user_exists d (al_user_id a)"
  shows "db_wf (d\<lparr>db_albums := xs\<rparr>)"
proof -
  have ae: "album_exists d a \<Longrightarrow> album_exists (d\<lparr>db_albums := xs\<rparr>) a" for a
    using assms(3) by (auto simp: album_exists_iff)
  show ?thesis
    using assms by (simp add: db_wf_def keys_ok_def fks_ok_def ae)
qed

lemma db_wf_keys:
  "db_wf d \<Longrightarrow> keys_distinct al_id (db_albums d)"
  "db_wf d \<Longrightarrow> keys_distinct md_id (db_media d)"
  "db_wf d \<Longrightarrow> keys_distinct sc_selector (db_sharex d)"
  "db_wf d \<Longrightarrow> keys_distinct ur_id (db_users d)"
  by (simp_all add: db_wf_def keys_ok_def)

lemma db_wf_fk_media:
  "db_wf d \<Longrightarrow> m \<in> set (db_media d) \<Longrightarrow> album_exists d (md_album_id m) \<and> opt_user_exists d (md_user_id m)"
  by (simp add: db_wf_def fks_ok_def)

lemma db_wf_fk_album: "db_wf d \<Longrightarrow> a \<in> set (db_albums d) \<Longrightarrow> opt_user_exists d (al_user_id a)"
  by (simp add: db_wf_def fks_ok_def)

lemma db_wf_fk_sharex:
  "db_wf d \<Longrightarrow> c \<in> set (db_sharex d) \<Longrightarrow> album_exists d (sc_album_id c) \<and> user_exists d (sc_user_id c)"
  by (simp add: db_wf_def fks_ok_def)

lemma db_wf_create_album: "db_wf d \<Longrightarrow> create_album a d = Inr (a', d') \<Longrightarrow> db_wf d'"
  by (auto simp: create_album_def get_album_def keys_distinct_snoc dest: db_wf_keys db_wf_fk_album
      split: if_splits intro!: db_wf_albums_upd)

lemma al_id_row_update [simp]: "al_id (album_row_update now a r) = al_id r"
  by (simp add: album_row_update_def)

lemma al_user_row_update [simp]: "al_user_id (album_row_update now a r) = al_user_id a"
  by (simp add: album_row_update_def)

lemma db_wf_update_album_row:
  assumes "db_wf d" "update_album_row now a d = Inr (a', d')"
  shows "db_wf d'"
proof -
  from assms(2) have d': "d' = d\<lparr>db_albums := update_where (\<lambda>r. al_id r = al_id a) (album_row_update now a) (db_albums d)\<rparr>"
    and u: "opt_user_exists d (al_user_id a)"
    by (auto simp: update_album_row_def split: option.splits if_splits)
  show ?thesis
    unfolding d'
  proof (rule db_wf_albums_upd [OF assms(1)])
    show "keys_distinct al_id (update_where (\<lambda>r. al_id r = al_id a) (album_row_update now a) (db_albums d))"
      using assms(1) by (intro keys_distinct_update_where) (simp_all add: db_wf_keys)
    show "set (map al_id (db_albums d)) \<subseteq>
        set (map al_id (update_where (\<lambda>r. al_id r = al_id a) (album_row_update now a) (db_albums d)))"
      by (subst map_key_update_where) auto
  qed (use u assms(1) in \<open>auto simp: set_update_where dest: db_wf_fk_album\<close>)
qed

lemma db_wf_repo_delete_album: "db_wf d \<Longrightarrow> db_wf (snd (repo_delete_album aid d))"
  by (auto simp: repo_delete_album_def db_wf_cascade_album split: option.splits)

lemma db_wf_create_media_row: "db_wf d \<Longrightarrow> create_media_row m d = Inr (m', d') \<Longrightarrow> db_wf d'"
  by (auto simp: create_media_row_def get_media_def keys_distinct_snoc dest: db_wf_keys db_wf_fk_media
      split: if_splits intro!: db_wf_media_upd)

lemma db_wf_create_media_with_next_position:
  "db_wf d \<Longrightarrow> create_media_with_next_position m d = Inr (m', d') \<Longrightarrow> db_wf d'"
  by (auto simp: create_media_with_next_position_def dest: db_wf_create_media_row split: sum.splits)

lemma db_wf_update_media:
  assumes "db_wf d"
    and "\<And>m. m \<in> set (db_media d) \<Longrightarrow> P m \<Longrightarrow> md_id (f m) = md_id m
      \<and> album_exists d (md_album_id (f m)) \<and> opt_user_exists d (md_user_id (f m))"
  shows "db_wf (d\<lparr>db_media := update_where P f (db_media d)\<rparr>)"
proof (rule db_wf_media_upd [OF assms(1)])
  have "map md_id (update_where P f (db_media d)) = map md_id (db_media d)"
    using assms(2) by (simp add: update_where_def)
  then show "keys_distinct md_id (update_where P f (db_media d))"
    using assms(1) by (simp add: keys_distinct_def db_wf_keys [unfolded keys_distinct_def])
next
  fix m assume "m \<in> set (update_where P f (db_media d))"
  then show "album_exists d (md_album_id m) \<and> opt_user_exists d (md_user_id m)"
    using assms by (auto simp: set_update_where dest: db_wf_fk_media)
qed

lemma set_thumb_sel [simp]:
  "md_id (set_thumb tk orig status tsz m) = md_id m"
  "md_album_id (set_thumb tk orig status tsz m) = md_album_id m"
  "md_user_id (set_thumb tk orig status tsz m) = md_user_id m"
  "md_storage_key (set_thumb tk orig status tsz m) = md_storage_key m"
  "md_position (set_thumb tk orig status tsz m) = md_position m"
  "md_file_size (set_thumb tk orig status tsz m) = md_file_size m"
  "md_thumb_key (set_thumb tk orig status tsz m) = tk"
  "md_thumb_is_orig (set_thumb tk orig status tsz m) = orig"
  "md_thumb_status (set_thumb tk orig status tsz m) = status"
  "md_thumb_size (set_thumb tk orig status tsz m) = tsz"
  by (simp_all add: set_thumb_def)

lemma db_wf_update_media_thumbnail_state:
  "db_wf d \<Longrightarrow> update_media_thumbnail_state mid tk orig status tsz d = Inr (m, d') \<Longrightarrow> db_wf d'"
  by (auto simp: update_media_thumbnail_state_def split: option.splits if_splits
      intro!: db_wf_update_media dest: db_wf_fk_media)

lemma db_wf_update_media_row: "db_wf d \<Longrightarrow> update_media_row m d = Inr (m', d') \<Longrightarrow> db_wf d'"
  by (auto simp: update_media_row_def split: if_splits intro!: db_wf_update_media)

lemma db_wf_repo_delete_media: "db_wf d \<Longrightarrow> db_wf (snd (repo_delete_media mid d))"
  by (auto simp: repo_delete_media_def keys_distinct_delete_where db_wf_keys dest: db_wf_fk_media
      intro!: db_wf_media_upd)

lemma db_wf_set_position: "db_wf d \<Longrightarrow> db_wf (set_position aid mp d)"
  by (auto simp: set_position_def intro!: db_wf_update_media dest: db_wf_fk_media)

lemma db_wf_fold_set_position: "db_wf d \<Longrightarrow> db_wf (fold (set_position aid) ps d)"
  by (induction ps arbitrary: d) (simp_all add: db_wf_set_position)

lemma db_wf_update_media_positions:
  "db_wf d \<Longrightarrow> update_media_positions aid ps d = Inr (ms, d') \<Longrightarrow> db_wf d'"
  by (auto simp: update_media_positions_def Let_def db_wf_fold_set_position split: if_splits)

lemma db_wf_update_sharex:
  assumes "db_wf d"
    and "\<And>c. sc_selector (f c) = sc_selector c \<and> sc_album_id (f c) = sc_album_id c \<and> sc_user_id (f c) = sc_user_id c"
  shows "db_wf (d\<lparr>db_sharex := update_where P f (db_sharex d)\<rparr>)"
  using assms
  by (intro db_wf_sharex_upd)
    (auto simp: keys_distinct_update_where db_wf_keys set_update_where dest: db_wf_fk_sharex)

lemma db_wf_delete_sharex: "db_wf d \<Longrightarrow> db_wf (d\<lparr>db_sharex := delete_where P (db_sharex d)\<rparr>)"
  by (intro db_wf_sharex_upd) (auto simp: keys_distinct_delete_where db_wf_keys dest: db_wf_fk_sharex)

lemma db_wf_create_sharex: "db_wf d \<Longrightarrow> create_sharex_delete_capability c d = Inr (c', d') \<Longrightarrow> db_wf d'"
  by (auto simp: create_sharex_delete_capability_def keys_distinct_snoc dest: db_wf_keys db_wf_fk_sharex
      split: if_splits intro!: db_wf_sharex_upd)

lemma db_wf_touch: "db_wf d \<Longrightarrow> db_wf (snd (touch_sharex_delete_capability now sel d))"
  by (simp add: touch_sharex_delete_capability_def update_sharex_where_def db_wf_update_sharex)

lemma db_wf_consume: "db_wf d \<Longrightarrow> db_wf (snd (consume_sharex_delete_capability now sel aid d))"
  by (simp add: consume_sharex_delete_capability_def update_sharex_where_def db_wf_update_sharex)

lemma db_wf_revoke: "db_wf d \<Longrightarrow> db_wf (snd (revoke_sharex_where now P d))"
  by (simp add: revoke_sharex_where_def Let_def revoke_row_def db_wf_update_sharex)

lemma db_wf_delete_sharex_where: "db_wf d \<Longrightarrow> db_wf (snd (delete_sharex_where P d))"
  by (simp add: delete_sharex_where_def db_wf_delete_sharex)

section \<open>An album's listing\<close>

lemma set_list_album_media: "set (list_album_media aid d) = {m \<in> set (db_media d). md_album_id m = aid}"
  by (simp add: list_album_media_def)

lemma sorted_list_album_media: "sorted (map md_position (list_album_media aid d))"
  by (simp add: list_album_media_def)

lemma mset_list_album_media: "mset (list_album_media aid d) = mset (filter (\<lambda>m. md_album_id m = aid) (db_media d))"
  by (simp add: list_album_media_def)

lemma distinct_list_album_media:
  assumes "keys_distinct md_id (db_media d)"
  shows "distinct (map md_id (list_album_media aid d))"
proof -
  have "mset (map md_id (list_album_media aid d)) = mset (map md_id (filter (\<lambda>m. md_album_id m = aid) (db_media d)))"
    by (simp add: mset_list_album_media)
  moreover have "distinct (map md_id (filter (\<lambda>m. md_album_id m = aid) (db_media d)))"
    using assms by (simp add: keys_distinct_def distinct_map_filter)
  ultimately show ?thesis
    using mset_eq_imp_distinct_iff by blast
qed

section \<open>Position updates\<close>

definition reposition :: "string \<Rightarrow> (string \<times> int) list \<Rightarrow> media \<Rightarrow> media" where
  "reposition aid ps m =
     (if md_album_id m = aid
      then (case map_of ps (md_id m) of Some p \<Rightarrow> m\<lparr>md_position := p\<rparr> | None \<Rightarrow> m)
      else m)"

lemma reposition_sel [simp]:
  "md_id (reposition aid ps m) = md_id m"
  "md_album_id (reposition aid ps m) = md_album_id m"
  "md_user_id (reposition aid ps m) = md_user_id m"
  "md_position (reposition aid ps m) =
     (if md_album_id m = aid then (case map_of ps (md_id m) of Some p \<Rightarrow> p | None \<Rightarrow> md_position m)
      else md_position m)"
  by (auto simp: reposition_def split: option.splits)

lemma fold_set_position_frame [frame_simps]:
  "db_users (fold (set_position aid) ps d) = db_users d"
  "db_albums (fold (set_position aid) ps d) = db_albums d"
  "db_sharex (fold (set_position aid) ps d) = db_sharex d"
  by (induction ps arbitrary: d) (simp_all add: set_position_def)

lemma fold_set_position_media:
  "distinct (map fst ps) \<Longrightarrow>
   db_media (fold (set_position aid) ps d) = map (reposition aid ps) (db_media d)"
proof (induction ps arbitrary: d)
  case Nil
  have "map (reposition aid []) ms = ms" for ms
    by (induction ms) (auto simp: reposition_def)
  then show ?case by simp
next
  case (Cons mp ps)
  obtain i p where mp: "mp = (i, p)" by (cases mp)
  have none: "map_of ps i = None"
    using Cons.prems by (simp add: mp map_of_eq_None_iff)
  have stp: "reposition aid ps (if md_id m = i \<and> md_album_id m = aid then m\<lparr>md_position := p\<rparr> else m)
      = reposition aid ((i, p) # ps) m" for m
    using none by (cases "md_id m = i \<and> md_album_id m = aid") (auto simp: reposition_def)
  have "db_media (set_position aid mp d) =
      map (\<lambda>m. if md_id m = i \<and> md_album_id m = aid then m\<lparr>md_position := p\<rparr> else m) (db_media d)"
    by (simp add: set_position_def update_where_def mp)
  moreover have "db_media (fold (set_position aid) ps (set_position aid mp d))
      = map (reposition aid ps) (db_media (set_position aid mp d))"
    using Cons.prems by (intro Cons.IH) simp
  ultimately show ?case
    by (simp only: fold_Cons o_apply map_map comp_def stp mp)
qed

lemma update_media_positions_ok:
  assumes "update_media_positions aid ps d = Inr (ms, d')" "distinct (map fst ps)"
  shows "db_media d' = map (reposition aid ps) (db_media d)" "ms = list_album_media aid d'"
    "db_albums d' = db_albums d" "db_users d' = db_users d" "db_sharex d' = db_sharex d"
  using assms by (auto simp: update_media_positions_def Let_def fold_set_position_media frame_simps split: if_splits)

end
