(* ===== verification/Storage.thy ===== *)
theory Storage
  imports Models
begin

text \<open>
  \<^verbatim>\<open>src/imghost/storage.py\<close>: HTTP byte ranges, the local filesystem backend and its streaming
  reads. A store maps keys to the bytes stored there; \<open>st_faulty\<close> says which operations raise
  in the run under consideration (a full disk, an unreachable bucket), so a theorem that holds
  for every \<open>st_faulty\<close> holds whatever fails. Without faults this is exactly
  \<^verbatim>\<open>LocalFilesystemBackend\<close>; with them it also stands for a bucket whose
  server may fail; the client's calls are in \<open>S3_Storage\<close>.
\<close>

section \<open>Byte ranges\<close>

record byte_range =
  br_start :: int
  br_end :: int

definition br_header_value :: "byte_range \<Rightarrow> string" where
  "br_header_value r = ''bytes='' @ show_int (br_start r) @ ''-'' @ show_int (br_end r)"

definition br_content_range_value :: "byte_range \<Rightarrow> string" where
  "br_content_range_value r = ''bytes '' @ show_int (br_start r) @ ''-'' @ show_int (br_end r)"

text \<open>
  \<^verbatim>\<open>InvalidByteRange\<close> is the exception the callers handle; \<open>BareValueError\<close> is the plain
  \<^verbatim>\<open>ValueError\<close> that \<^verbatim>\<open>int()\<close> raises, which they do not.
\<close>

datatype range_error = InvalidByteRange int | BareValueError

definition parse_position :: "int \<Rightarrow> string \<Rightarrow> range_error + int" where
  "parse_position sz s =
     (if \<not> py_isdigit s then Inl (InvalidByteRange sz)
      else (case py_int_of_digits s of None \<Rightarrow> Inl BareValueError | Some n \<Rightarrow> Inr n))"

definition normalize_byte_range :: "string option \<Rightarrow> int \<Rightarrow> range_error + byte_range option" where
  "normalize_byte_range range_header sz =
     (if \<not> truthy range_header then Inr None
      else let h = the range_header in
      if sz \<le> 0 \<or> \<not> starts_with ''bytes='' h then Inl (InvalidByteRange sz)
      else let raw_spec = py_strip (drop 6 h) in
      if raw_spec = [] \<or> CHR '','' \<in> set raw_spec then Inl (InvalidByteRange sz)
      else (case partition_at (CHR ''-'') raw_spec of (a, sep, b) \<Rightarrow>
        if \<not> sep then Inl (InvalidByteRange sz)
        else let raw_start = py_strip a; raw_end = py_strip b in
        if raw_start \<noteq> [] then
          (case parse_position sz raw_start of
             Inl e \<Rightarrow> Inl e
           | Inr start \<Rightarrow>
             if start \<ge> sz then Inl (InvalidByteRange sz)
             else if raw_end \<noteq> [] then
               (case parse_position sz raw_end of
                  Inl e \<Rightarrow> Inl e
                | Inr e \<Rightarrow>
                  if e < start then Inl (InvalidByteRange sz)
                  else Inr (Some \<lparr>br_start = start, br_end = min e (sz - 1)\<rparr>))
             else Inr (Some \<lparr>br_start = start, br_end = sz - 1\<rparr>))
        else
          (case parse_position sz raw_end of
             Inl e \<Rightarrow> Inl e
           | Inr suffix_length \<Rightarrow>
             if suffix_length \<le> 0 then Inl (InvalidByteRange sz)
             else let len = min suffix_length sz in
               Inr (Some \<lparr>br_start = sz - len, br_end = sz - 1\<rparr>))))"

lemma parse_position_nonneg: "parse_position sz s = Inr n \<Longrightarrow> 0 \<le> n"
  by (auto simp: parse_position_def py_int_of_digits_nonneg split: if_splits option.splits)

lemma normalize_in_bounds:
  assumes "normalize_byte_range h sz = Inr (Some r)"
  shows "0 \<le> br_start r \<and> br_start r \<le> br_end r \<and> br_end r < sz"
  using assms
  by (auto simp: normalize_byte_range_def Let_def
      split: if_splits prod.splits sum.splits dest: parse_position_nonneg)

lemma normalize_None_iff:
  "normalize_byte_range h sz = Inr None \<longleftrightarrow> \<not> truthy h"
  by (auto simp: normalize_byte_range_def Let_def split: prod.splits sum.splits)

subsection \<open>Reading back a header that the code wrote itself\<close>

lemma dropWhile_none: "(\<And>c. c \<in> set s \<Longrightarrow> \<not> P c) \<Longrightarrow> dropWhile P s = s"
  by (cases s) auto

lemma py_strip_none: "(\<And>c. c \<in> set s \<Longrightarrow> \<not> py_isspace c) \<Longrightarrow> py_strip s = s"
  using dropWhile_none [of s py_isspace] dropWhile_none [of "rev s" py_isspace]
  by (simp add: py_strip_def lstrip_on_def rstrip_on_def)

lemma decimal_not_space: "is_decimal c \<Longrightarrow> \<not> py_isspace c"
  by (auto simp: is_decimal_def py_isspace_def Let_def)

lemma py_strip_decimal: "list_all is_decimal s \<Longrightarrow> py_strip s = s"
  by (rule py_strip_none) (auto simp: list_all_iff decimal_not_space)

lemma length_show_nat: "n < 10 ^ k \<Longrightarrow> 0 < k \<Longrightarrow> length (show_nat n) \<le> k"
proof (induction n arbitrary: k rule: show_nat.induct)
  case (1 n)
  show ?case
  proof (cases "n < 10")
    case True
    with 1 show ?thesis by (subst show_nat.simps) simp
  next
    case False
    with 1 have k: "1 < k" by (cases "k = 1") auto
    from 1 k have "n div 10 < 10 ^ (k - 1)"
      by (metis One_nat_def Suc_pred less_mult_imp_div_less mult.commute power_Suc)
    with False k "1.IH" [of "k - 1"] have "length (show_nat (n div 10)) \<le> k - 1" by simp
    with False k show ?thesis by (subst show_nat.simps) simp
  qed
qed

lemma list_all_show_nat: "list_all is_decimal (show_nat n)"
  by (auto simp: list_all_iff show_nat_decimal)

lemma parse_position_show:
  assumes "n < 10 ^ 19"
  shows "parse_position sz (show_nat n) = Inr (int n)"
proof -
  have "length (show_nat n) \<le> 19" using length_show_nat [OF assms] by simp
  moreover have "py_isdigit (show_nat n)"
    using list_all_show_nat [of n]
    by (auto simp: py_isdigit_def list_all_iff is_digit_char_def Let_def)
  ultimately show ?thesis
    by (simp add: parse_position_def py_int_of_digits_def list_all_show_nat)
qed

lemma decimal_not_sep:
  "CHR ''-'' \<notin> set (show_nat n)" "CHR '','' \<notin> set (show_nat n)"
  using show_nat_decimal [of _ n] by (fastforce simp: is_decimal_def)+

lemma py_strip_spec:
  "py_strip (show_nat m @ CHR ''-'' # show_nat n) = show_nat m @ CHR ''-'' # show_nat n"
proof (rule py_strip_none)
  fix c assume "c \<in> set (show_nat m @ CHR ''-'' # show_nat n)"
  then have "is_decimal c \<or> c = CHR ''-''" by (auto dest: show_nat_decimal)
  then show "\<not> py_isspace c" by (auto simp: decimal_not_space) (simp add: py_isspace_def)
qed

lemma normalize_header_value:
  assumes "0 \<le> s" "s \<le> e" "e < sz" "in_int8 sz"
  shows "normalize_byte_range (Some (br_header_value \<lparr>br_start = s, br_end = e\<rparr>)) sz
           = Inr (Some \<lparr>br_start = s, br_end = e\<rparr>)"
proof -
  let ?spec = "show_nat (nat s) @ CHR ''-'' # show_nat (nat e)"
  have h: "br_header_value \<lparr>br_start = s, br_end = e\<rparr> = ''bytes='' @ ?spec"
    using assms by (simp add: br_header_value_def show_int_def)
  have "nat s < 10 ^ 19" "nat e < 10 ^ 19"
    using assms by (auto simp: in_int8_def)
  then have p: "parse_position sz (show_nat (nat s)) = Inr s"
    "parse_position sz (show_nat (nat e)) = Inr e"
    using assms by (simp_all add: parse_position_show)
  have part: "partition_at (CHR ''-'') ?spec = (show_nat (nat s), True, show_nat (nat e))"
    by (rule partition_at_found) (rule decimal_not_sep)
  have comma: "CHR '','' \<notin> set ?spec" using decimal_not_sep(2) by simp
  have "\<not> sz \<le> 0" "\<not> sz \<le> s" "\<not> e < s" "min e (sz - 1) = e" using assms(1-3) by auto
  then show ?thesis
    by (simp add: normalize_byte_range_def h starts_with_def py_strip_spec part p comma Let_def
        py_strip_decimal list_all_show_nat decimal_not_sep)
qed

section \<open>The filesystem backend\<close>

datatype store_op = SPut string | SGet string | SDelete string

record store =
  st_objects :: "string \<Rightarrow> bytes option"
  st_faulty :: "store_op \<Rightarrow> bool"
  st_torn :: "string \<Rightarrow> bytes option"

text \<open>A write that fails may have written a part of the object, or have emptied it: \<open>st_torn\<close> is what it leaves.\<close>

definition st_put :: "string \<Rightarrow> bytes \<Rightarrow> store \<Rightarrow> (err + unit) \<times> store" where
  "st_put key data s =
     (if st_faulty s (SPut key) then (Inl (StorageError ''put''), s\<lparr>st_objects := (st_objects s)(key := st_torn s key)\<rparr>)
      else (Inr (), s\<lparr>st_objects := (st_objects s)(key \<mapsto> data)\<rparr>))"

definition st_delete :: "string \<Rightarrow> store \<Rightarrow> (err + unit) \<times> store" where
  "st_delete key s =
     (if st_faulty s (SDelete key) then (Inl (StorageError ''delete''), s)
      else (Inr (), s\<lparr>st_objects := (st_objects s)(key := None)\<rparr>))"

definition st_exists :: "string \<Rightarrow> store \<Rightarrow> bool" where
  "st_exists key s = (st_objects s key \<noteq> None)"

definition st_get_bytes :: "string \<Rightarrow> store \<Rightarrow> err + bytes" where
  "st_get_bytes key s =
     (if st_faulty s (SGet key) then Inl (StorageError ''get_bytes'')
      else (case st_objects s key of None \<Rightarrow> Inl (StorageError ''not found'') | Some d \<Rightarrow> Inr d))"

definition st_get_size :: "string \<Rightarrow> store \<Rightarrow> err + int" where
  "st_get_size key s =
     (case st_get_bytes key s of Inl e \<Rightarrow> Inl e | Inr d \<Rightarrow> Inr (int (length d)))"

text \<open>
  The two ways the services delete a list of keys with a backend's \<open>del\<close>: one by one until a call
  raises (\<open>del_until\<close>), or every key whatever happens (\<open>del_each\<close>).
\<close>

primrec del_until :: "(string \<Rightarrow> 's \<Rightarrow> (err + unit) \<times> 's) \<Rightarrow> string list \<Rightarrow> 's \<Rightarrow> (err + unit) \<times> 's" where
  "del_until del [] s = (Inr (), s)"
| "del_until del (k # ks) s =
     (case del k s of (Inl e, s') \<Rightarrow> (Inl e, s') | (Inr u, s') \<Rightarrow> del_until del ks s')"

primrec del_each :: "(string \<Rightarrow> 's \<Rightarrow> (err + unit) \<times> 's) \<Rightarrow> string list \<Rightarrow> 's \<Rightarrow> 's" where
  "del_each del [] s = s"
| "del_each del (k # ks) s = del_each del ks (snd (del k s))"

subsection \<open>The contract the services rely on\<close>

text \<open>
  What a client of a store may assume: a successful write is read back and touches no other key,
  a successful delete removes exactly its key, a failed delete leaves the objects alone, a failed
  write leaves the other keys alone, and no call changes which calls fail.
\<close>

locale object_store =
  fixes put :: "string \<Rightarrow> bytes \<Rightarrow> 's \<Rightarrow> (err + unit) \<times> 's"
    and del :: "string \<Rightarrow> 's \<Rightarrow> (err + unit) \<times> 's"
    and objs :: "'s \<Rightarrow> string \<Rightarrow> bytes option"
    and fails :: "'s \<Rightarrow> store_op \<Rightarrow> bool"
  assumes put_ok: "\<not> fails s (SPut k) \<Longrightarrow> fst (put k d s) = Inr () \<and> objs (snd (put k d s)) = (objs s)(k \<mapsto> d)"
    and put_fail: "fails s (SPut k) \<Longrightarrow> (\<exists>e. fst (put k d s) = Inl e) \<and> (\<forall>x. x \<noteq> k \<longrightarrow> objs (snd (put k d s)) x = objs s x)"
    and del_ok: "\<not> fails s (SDelete k) \<Longrightarrow> fst (del k s) = Inr () \<and> objs (snd (del k s)) = (objs s)(k := None)"
    and del_fail: "fails s (SDelete k) \<Longrightarrow> (\<exists>e. fst (del k s) = Inl e) \<and> objs (snd (del k s)) = objs s"
    and put_faults: "fails (snd (put k d s)) = fails s"
    and del_faults: "fails (snd (del k s)) = fails s"
begin

lemma del_cases:
  obtains (ok) s' where "del k s = (Inr (), s')" "\<not> fails s (SDelete k)" "objs s' = (objs s)(k := None)"
      "fails s' = fails s"
  | (fail) e s' where "del k s = (Inl e, s')" "fails s (SDelete k)" "objs s' = objs s" "fails s' = fails s"
proof (cases "fails s (SDelete k)")
  case True
  with del_fail [of s k] obtain e where "fst (del k s) = Inl e" "objs (snd (del k s)) = objs s" by auto
  with True del_faults [of k s] that(2) [of e "snd (del k s)"] show ?thesis
    by (cases "del k s") simp
next
  case False
  with del_ok [of s k] del_faults [of k s] that(1) [of "snd (del k s)"] show ?thesis
    by (cases "del k s") simp
qed

lemma del_each_faults: "fails (del_each del ks s) = fails s"
  by (induction ks arbitrary: s) (simp_all add: del_faults)

lemma del_each_objs:
  "objs (del_each del ks s) x = (if x \<in> set ks \<and> \<not> fails s (SDelete x) then None else objs s x)"
proof (induction ks arbitrary: s)
  case (Cons k ks)
  show ?case
    by (cases rule: del_cases [of k s]) (auto simp: Cons)
qed simp

lemma del_until_faults: "fails (snd (del_until del ks s)) = fails s"
proof (induction ks arbitrary: s)
  case (Cons k ks)
  show ?case by (cases rule: del_cases [of k s]) (auto simp: Cons)
qed simp

lemma del_until_ok_iff:
  "fst (del_until del ks s) = Inr () \<longleftrightarrow> (\<forall>k\<in>set ks. \<not> fails s (SDelete k))"
proof (induction ks arbitrary: s)
  case (Cons k ks)
  show ?case by (cases rule: del_cases [of k s]) (auto simp: Cons)
qed simp

lemma del_until_objs_ok:
  assumes "\<forall>k\<in>set ks. \<not> fails s (SDelete k)"
  shows "objs (snd (del_until del ks s)) x = (if x \<in> set ks then None else objs s x)"
  using assms
proof (induction ks arbitrary: s)
  case (Cons k ks)
  then show ?case by (cases rule: del_cases [of k s]) auto
qed simp

lemma del_until_shrinks: "objs (snd (del_until del ks s)) x = objs s x \<or> (x \<in> set ks \<and> objs (snd (del_until del ks s)) x = None)"
proof (induction ks arbitrary: s)
  case (Cons k ks)
  show ?case
  proof (cases rule: del_cases [of k s])
    case (ok s')
    with Cons [of s'] show ?thesis by (cases "x = k") auto
  qed auto
qed simp

end

interpretation fs: object_store st_put st_delete st_objects st_faulty
  by unfold_locales (auto simp: st_put_def st_delete_def)

subsection \<open>Streaming a stored object\<close>

definition chunk_size :: nat where
  "chunk_size = 65536"

text \<open>
  The generator of \<^verbatim>\<open>LocalFilesystemBackend.get_stream\<close>: it reads at most \<open>chunk\<close> bytes at a time
  from the current file position until \<open>remaining\<close> is used up or the file ends.
\<close>

function read_chunks :: "nat \<Rightarrow> bytes \<Rightarrow> nat \<Rightarrow> bytes list" where
  "read_chunks chunk rest remaining =
     (if remaining = 0 \<or> chunk = 0 \<or> rest = [] then []
      else let n = min chunk remaining; piece = take n rest in
        piece # read_chunks chunk (drop n rest) (remaining - length piece))"
  by pat_completeness auto
termination
  by (relation "measure (\<lambda>(chunk, rest, remaining). length rest)") auto

declare read_chunks.simps [simp del]

record storage_stream =
  ss_status_code :: int
  ss_content_type :: string
  ss_content_length :: int
  ss_content_range :: "string option"
  ss_body :: "bytes list"

datatype stream_error = StreamRange range_error | StreamStorage err

definition local_get_stream :: "string \<Rightarrow> string option \<Rightarrow> store \<Rightarrow> stream_error + storage_stream" where
  "local_get_stream key range_header s =
     (case st_get_bytes key s of
        Inl e \<Rightarrow> Inl (StreamStorage e)
      | Inr data \<Rightarrow>
        let sz = int (length data) in
        (case normalize_byte_range range_header sz of
           Inl e \<Rightarrow> Inl (StreamRange e)
         | Inr br \<Rightarrow>
           let start = (case br of Some r \<Rightarrow> br_start r | None \<Rightarrow> 0);
               last = (case br of Some r \<Rightarrow> br_end r | None \<Rightarrow> sz - 1);
               len = max 0 (last - start + 1) in
           Inr \<lparr>ss_status_code = (case br of Some _ \<Rightarrow> 206 | None \<Rightarrow> 200),
                ss_content_type = ''application/octet-stream'',
                ss_content_length = len,
                ss_content_range =
                  (case br of Some r \<Rightarrow> Some (br_content_range_value r @ ''/'' @ show_int sz) | None \<Rightarrow> None),
                ss_body = read_chunks chunk_size (drop (nat start) data) (nat len)\<rparr>))"

lemma read_chunks_props:
  "0 < chunk \<Longrightarrow> concat (read_chunks chunk rest remaining) = take remaining rest
     \<and> (\<forall>p\<in>set (read_chunks chunk rest remaining). p \<noteq> [] \<and> length p \<le> chunk)"
proof (induction chunk rest remaining rule: read_chunks.induct)
  case (1 chunk rest remaining)
  show ?case
  proof (cases "remaining = 0 \<or> chunk = 0 \<or> rest = []")
    case True
    with "1.prems" show ?thesis by (subst (1 2) read_chunks.simps) auto
  next
    case False
    let ?n = "min chunk remaining"
    let ?piece = "take ?n rest"
    let ?tail = "read_chunks chunk (drop ?n rest) (remaining - length ?piece)"
    have eq: "read_chunks chunk rest remaining = ?piece # ?tail"
      using False by (subst read_chunks.simps) (simp add: Let_def)
    have IH: "concat ?tail = take (remaining - length ?piece) (drop ?n rest)
        \<and> (\<forall>p\<in>set ?tail. p \<noteq> [] \<and> length p \<le> chunk)"
      using False "1.prems" by (intro "1.IH" [OF _ refl refl]) auto
    have "?piece @ take (remaining - length ?piece) (drop ?n rest) = take remaining rest"
    proof (cases "?n \<le> length rest")
      case True
      then have "length ?piece = ?n" by simp
      moreover have "take (?n + (remaining - ?n)) rest = ?piece @ take (remaining - ?n) (drop ?n rest)"
        by (rule take_add)
      moreover have "?n + (remaining - ?n) = remaining" by simp
      ultimately show ?thesis by simp
    next
      case False
      then show ?thesis by simp
    qed
    then have "concat (?piece # ?tail) = take remaining rest"
      using IH by (simp only: concat.simps)
    moreover have "?piece \<noteq> [] \<and> length ?piece \<le> chunk"
      using False "1.prems" by (simp add: min_def)
    ultimately show ?thesis
      using IH unfolding eq by (simp only: list.set ball_simps simp_thms) blast
  qed
qed

end
