(* ===== verification/World.thy ===== *)
theory World
  imports Db_Facts Storage
begin

text \<open>
  The state the services work on: the tables, the object store, the audit log (its rows'
  \<^verbatim>\<open>created_at\<close>, all that the retention job looks at) and, in order, what was handed to the event
  bus and to the metrics. \<^verbatim>\<open>EventBus\<close> of \<^verbatim>\<open>src/imghost/events.py\<close> is modelled with its isolation of
  failing listeners, which is why emitting never fails.
\<close>

section \<open>The event bus\<close>

fun event_class :: "event \<Rightarrow> string" where
  "event_class (AlbumCreated _ _ _ _ _ _) = ''AlbumCreated''"
| "event_class (MediaUploaded _ _ _ _ _ _ _ _ _) = ''MediaUploaded''"
| "event_class (AlbumDeleted _ _ _ _ _ _ _ _) = ''AlbumDeleted''"
| "event_class (MediaDeleted _ _ _ _ _ _ _ _) = ''MediaDeleted''"
| "event_class (AlbumTitleChanged _ _ _ _ _ _ _ _) = ''AlbumTitleChanged''"
| "event_class (AlbumCoverSet _ _ _ _ _ _ _) = ''AlbumCoverSet''"
| "event_class (AlbumReordered _ _ _ _ _ _) = ''AlbumReordered''"
| "event_class (AlbumExpiryChanged _ _ _ _ _ _ _ _) = ''AlbumExpiryChanged''"
| "event_class (UserDeleted _ _ _ _ _ _ _ _) = ''UserDeleted''"
| "event_class (UserSuspended _ _ _ _ _) = ''UserSuspended''"
| "event_class (UserPasswordReset _ _ _ _) = ''UserPasswordReset''"
| "event_class (AdminLoggedIn _ _ _) = ''AdminLoggedIn''"
| "event_class (UserRegistered _ _ _ _ _) = ''UserRegistered''"
| "event_class (ConfigChanged _ _ _ _ _ _) = ''ConfigChanged''"
| "event_class (LoginFailed _ _ _ _) = ''LoginFailed''"
| "event_class (UserLoggedOut _ _ _) = ''UserLoggedOut''"
| "event_class (ApiKeyIssued _ _ _ _ _) = ''ApiKeyIssued''"
| "event_class (UserPasswordChanged _ _ _ _) = ''UserPasswordChanged''"
| "event_class (UserAdminStatusChanged _ _ _ _ _ _) = ''UserAdminStatusChanged''"
| "event_class (UserLimitsChanged _ _ _ _ _) = ''UserLimitsChanged''"

text \<open>
  A listener takes the event and the state it works on, and may raise. \<^verbatim>\<open>subscribe\<close> appends to the
  listeners of a class; \<^verbatim>\<open>emit\<close> runs them in order and goes on after one that raised, keeping what it
  had done before.
\<close>

type_synonym 's listener = "event \<Rightarrow> 's \<Rightarrow> (err + unit) \<times> 's"
type_synonym 's bus = "(string \<times> 's listener) list"

definition bus_subscribe :: "string \<Rightarrow> 's listener \<Rightarrow> 's bus \<Rightarrow> 's bus" where
  "bus_subscribe cls l b = b @ [(cls, l)]"

definition bus_emit :: "'s bus \<Rightarrow> event \<Rightarrow> 's \<Rightarrow> 's" where
  "bus_emit b ev s = fold (\<lambda>cl s. snd (snd cl ev s)) (filter (\<lambda>cl. fst cl = event_class ev) b) s"

lemma bus_emit_subscribe_same:
  "cls = event_class ev \<Longrightarrow> bus_emit (bus_subscribe cls l b) ev s = snd (l ev (bus_emit b ev s))"
  by (simp add: bus_emit_def bus_subscribe_def)

lemma bus_emit_subscribe_other:
  "cls \<noteq> event_class ev \<Longrightarrow> bus_emit (bus_subscribe cls l b) ev s = bus_emit b ev s"
  by (simp add: bus_emit_def bus_subscribe_def)

section \<open>The state of the services\<close>

datatype effect =
    Emitted event
  | UploadMetric string string string string "int option"
  | ThumbMetric string string "string option"
  | ThumbFailure string string string err

record world =
  w_db :: db
  w_store :: store
  w_audit :: "time list"
  w_log :: "effect list"

definition emit :: "event \<Rightarrow> world \<Rightarrow> world" where
  "emit ev w = w\<lparr>w_log := w_log w @ [Emitted ev]\<rparr>"

definition with_db :: "world \<Rightarrow> db \<Rightarrow> world" where
  "with_db w d = w\<lparr>w_db := d\<rparr>"

definition with_store :: "world \<Rightarrow> store \<Rightarrow> world" where
  "with_store w s = w\<lparr>w_store := s\<rparr>"

definition tally :: "effect \<Rightarrow> world \<Rightarrow> world" where
  "tally e w = w\<lparr>w_log := w_log w @ [e]\<rparr>"

lemma world_sel [simp]:
  "w_db (emit ev w) = w_db w" "w_store (emit ev w) = w_store w" "w_audit (emit ev w) = w_audit w"
  "w_log (emit ev w) = w_log w @ [Emitted ev]"
  "w_db (tally e w) = w_db w" "w_store (tally e w) = w_store w" "w_audit (tally e w) = w_audit w"
  "w_log (tally e w) = w_log w @ [e]"
  "w_db (with_db w d) = d" "w_store (with_db w d) = w_store w" "w_audit (with_db w d) = w_audit w"
  "w_log (with_db w d) = w_log w"
  "w_db (with_store w s) = w_db w" "w_store (with_store w s) = s" "w_audit (with_store w s) = w_audit w"
  "w_log (with_store w s) = w_log w"
  by (simp_all add: emit_def tally_def with_db_def with_store_def)

section \<open>Who may change an album\<close>

text \<open>\<^verbatim>\<open>UploadService._actor_kind\<close>, \<^verbatim>\<open>_require_delete_token\<close> and \<^verbatim>\<open>_require_album_access\<close>.\<close>

definition actor_kind :: "user option \<Rightarrow> string option \<Rightarrow> bool \<Rightarrow> string" where
  "actor_kind actor tok system =
     (if system then ''system''
      else (case actor of
        Some u \<Rightarrow> if us_is_admin u then ''admin'' else ''user''
      | None \<Rightarrow> if truthy tok then ''delete_token'' else ''anonymous''))"

definition require_delete_token :: "album \<Rightarrow> string option \<Rightarrow> err + unit" where
  "require_delete_token album tok =
     (if truthy (al_delete_token album) \<and> tok \<noteq> al_delete_token album
      then Inl (HTTPException 403 ''Invalid delete token.'') else Inr ())"

definition require_album_access :: "time \<Rightarrow> album \<Rightarrow> string option \<Rightarrow> user option \<Rightarrow> bool \<Rightarrow> err + unit" where
  "require_album_access now album tok actor allow_expired =
     (if \<not> allow_expired \<and> is_expired now (al_expires_at album)
        then Inl (HTTPException 404 ''Album not found.'')
      else if (case actor of Some u \<Rightarrow> us_is_admin u \<or> al_user_id album = Some (us_id u) | None \<Rightarrow> False)
        then Inr ()
      else if al_delete_token album = None then Inl (HTTPException 403 ''Album access denied.'')
      else require_delete_token album tok)"

text \<open>
  What the check promises: access is for an administrator, for the owner, and for whoever shows the
  album's own token, and only while the album has not expired (an administrator deleting it apart).
\<close>

definition may_access :: "time \<Rightarrow> album \<Rightarrow> string option \<Rightarrow> user option \<Rightarrow> bool \<Rightarrow> bool" where
  "may_access now album tok actor allow_expired =
     ((allow_expired \<or> \<not> is_expired now (al_expires_at album))
      \<and> ((\<exists>u. actor = Some u \<and> (us_is_admin u \<or> al_user_id album = Some (us_id u)))
         \<or> (al_delete_token album \<noteq> None \<and> (tok = al_delete_token album \<or> al_delete_token album = Some []))))"

lemma require_album_access_iff [guard_simps]:
  "require_album_access now album tok actor ae = Inr () \<longleftrightarrow> may_access now album tok actor ae"
  by (cases "al_delete_token album")
    (auto simp: require_album_access_def may_access_def require_delete_token_def split: option.splits)

lemma require_album_access_Inr [guard_simps]:
  "require_album_access now album tok actor ae = Inr u \<longleftrightarrow> may_access now album tok actor ae"
  using require_album_access_iff by simp

lemma require_album_access_error:
  "require_album_access now album tok actor ae = Inl e \<Longrightarrow>
     e = HTTPException 404 ''Album not found.'' \<or> e = HTTPException 403 ''Album access denied.''
     \<or> e = HTTPException 403 ''Invalid delete token.''"
  by (auto simp: require_album_access_def require_delete_token_def split: if_splits)

section \<open>Removing the stored objects of media rows\<close>

text \<open>
  \<^verbatim>\<open>_delete_media_storage_keys\<close> with \<^verbatim>\<open>_delete_storage_key_best_effort\<close>: the original, then the thumbnail
  if it is another object; a call that raises is logged and passed over.
\<close>

definition media_keys :: "media \<Rightarrow> string list" where
  "media_keys m = md_storage_key m #
     (if truthy (md_thumb_key m) \<and> md_thumb_key m \<noteq> Some (md_storage_key m)
      then [the (md_thumb_key m)] else [])"

definition delete_media_storage_keys :: "media list \<Rightarrow> store \<Rightarrow> store" where
  "delete_media_storage_keys items s = del_each st_delete (concat (map media_keys items)) s"

lemma delete_media_storage_keys_faults [simp]:
  "st_faulty (delete_media_storage_keys items s) = st_faulty s"
  by (simp add: delete_media_storage_keys_def fs.del_each_faults)

lemma delete_media_storage_keys_objects:
  "st_objects (delete_media_storage_keys items s) k =
     (if (\<exists>m\<in>set items. k \<in> set (media_keys m)) \<and> \<not> st_faulty s (SDelete k) then None else st_objects s k)"
  by (auto simp: delete_media_storage_keys_def fs.del_each_objs)

end
