(* ===== verification/Albums.thy ===== *)
theory Albums
  imports World
begin

text \<open>
  The album operations of \<^verbatim>\<open>UploadService\<close> (\<^verbatim>\<open>src/imghost/service.py\<close>): delete, retitle and cover,
  reorder, delete one item, change the expiry, and the periodic pruning. Each handler returns its
  result or the exception it raises together with the state it leaves. \<open>now\<close> is Python's clock at
  the access check, \<open>dbnow\<close> the database's at the update.
\<close>

section \<open>Handlers\<close>

datatype 'a patch = UNSET | Given 'a

definition album_not_found :: err where
  "album_not_found = HTTPException 404 ''Album not found.''"

definition normalize_title :: "string option \<Rightarrow> string option" where
  "normalize_title t =
     (case t of None \<Rightarrow> None
      | Some s \<Rightarrow> let n = py_strip s in if n = [] then None else Some n)"

definition normalize_cover_media_id :: "string option \<Rightarrow> media list \<Rightarrow> err + string option" where
  "normalize_cover_media_id cover items =
     (case cover of None \<Rightarrow> Inr None
      | Some c \<Rightarrow> if c \<in> set (map md_id items) then Inr (Some c)
                  else Inl (HTTPException 404 ''Cover media not found in album.''))"

fun needs_rebalance :: "media list \<Rightarrow> bool" where
  "needs_rebalance (a # b # rest) = (md_position b - md_position a < 2 \<or> needs_rebalance (b # rest))"
| "needs_rebalance _ = False"

definition actor_id :: "user option \<Rightarrow> string option" where
  "actor_id actor = map_option us_id actor"

definition api_or_web :: "user option \<Rightarrow> string" where
  "api_or_web actor = (if actor = None then ''web'' else ''api'')"

text \<open>\<^verbatim>\<open>delete_album\<close>\<close>

definition delete_album ::
  "time \<Rightarrow> string \<Rightarrow> string option \<Rightarrow> string \<Rightarrow> user option \<Rightarrow> world \<Rightarrow> (err + (album \<times> media list)) \<times> world" where
  "delete_album now aid tok cid actor w =
     (case get_album aid (w_db w) of
        None \<Rightarrow> (Inl album_not_found, w)
      | Some album \<Rightarrow>
        (case require_album_access now album tok actor (case actor of Some u \<Rightarrow> us_is_admin u | None \<Rightarrow> False) of
           Inl e \<Rightarrow> (Inl e, w)
         | Inr _ \<Rightarrow>
           (case repo_delete_album aid (w_db w) of
              ((None, _), d) \<Rightarrow> (Inl album_not_found, with_db w d)
            | ((Some deleted, items), d) \<Rightarrow>
              let w1 = with_db w d;
                  w2 = with_store w1 (delete_media_storage_keys items (w_store w1));
                  w3 = emit (AlbumDeleted (al_id deleted) (al_user_id deleted) (actor_id actor)
                         (actor_kind actor tok False) (int (length items))
                         (sum_list (map (\<lambda>m. md_file_size m + or_zero (md_thumb_size m)) items))
                         ''web'' cid) w2
              in (Inr (deleted, items), w3))))"

text \<open>\<^verbatim>\<open>update_album\<close>: the two optional parts of the request, each with its event, then one write.\<close>

definition apply_title_patch ::
  "string option patch \<Rightarrow> string option \<Rightarrow> string \<Rightarrow> user option \<Rightarrow> album \<Rightarrow> world \<Rightarrow> album \<times> bool \<times> world" where
  "apply_title_patch title tok cid actor album w =
     (case title of
        UNSET \<Rightarrow> (album, False, w)
      | Given t \<Rightarrow>
        let n = normalize_title t in
        if al_title album = n then (album, False, w)
        else (album\<lparr>al_title := n\<rparr>, True,
              emit (AlbumTitleChanged (al_id album) (al_user_id album) (actor_id actor)
                (actor_kind actor tok False) (al_title album) n (api_or_web actor) cid) w))"

definition apply_cover_patch ::
  "string option patch \<Rightarrow> media list \<Rightarrow> string option \<Rightarrow> string \<Rightarrow> user option \<Rightarrow> album \<Rightarrow> world
     \<Rightarrow> err + (album \<times> bool \<times> world)" where
  "apply_cover_patch cover items tok cid actor album w =
     (case cover of
        UNSET \<Rightarrow> Inr (album, False, w)
      | Given c \<Rightarrow>
        (case normalize_cover_media_id c items of
           Inl e \<Rightarrow> Inl e
         | Inr next \<Rightarrow>
           if al_cover_media_id album = next then Inr (album, False, w)
           else Inr (album\<lparr>al_cover_media_id := next\<rparr>, True,
             emit (AlbumCoverSet (al_id album) (al_user_id album) (actor_id actor)
               (actor_kind actor tok False) next (api_or_web actor) cid) w)))"

definition save_album :: "time \<Rightarrow> album \<Rightarrow> world \<Rightarrow> (err + unit) \<times> world" where
  "save_album dbnow album w =
     (case update_album_row dbnow album (w_db w) of
        Inl (LookupError _) \<Rightarrow> (Inl album_not_found, w)
      | Inl e \<Rightarrow> (Inl e, w)
      | Inr (_, d) \<Rightarrow> (Inr (), with_db w d))"

definition update_album ::
  "time \<Rightarrow> time \<Rightarrow> string \<Rightarrow> string option \<Rightarrow> string \<Rightarrow> user option \<Rightarrow> string option patch \<Rightarrow> string option patch
     \<Rightarrow> world \<Rightarrow> (err + (album \<times> media list)) \<times> world" where
  "update_album now dbnow aid tok cid actor title cover w =
     (case get_album aid (w_db w) of
        None \<Rightarrow> (Inl album_not_found, w)
      | Some album \<Rightarrow>
        (case require_album_access now album tok actor False of
           Inl e \<Rightarrow> (Inl e, w)
         | Inr _ \<Rightarrow>
           let items = list_album_media aid (w_db w) in
           (case apply_title_patch title tok cid actor album w of
              (album1, c1, w1) \<Rightarrow>
              (case apply_cover_patch cover items tok cid actor album1 w1 of
                 Inl e \<Rightarrow> (Inl e, w1)
               | Inr (album2, c2, w2) \<Rightarrow>
                 if c1 \<or> c2 then
                   (case save_album dbnow album2 w2 of
                      (Inl e, w3) \<Rightarrow> (Inl e, w3)
                    | (Inr _, w3) \<Rightarrow> (Inr (album2, list_album_media aid (w_db w3)), w3))
                 else (Inr (album2, list_album_media aid (w_db w2)), w2)))))"

text \<open>\<^verbatim>\<open>reorder_album\<close>: the loop over the requested positions builds a dictionary or raises.\<close>

fun collect_positions :: "media list \<Rightarrow> (string \<times> int) list \<Rightarrow> (string \<times> int) list \<Rightarrow> err + (string \<times> int) list" where
  "collect_positions items positions [] = Inr positions"
| "collect_positions items positions ((mid, p) # rest) =
     (if mid \<notin> set (map md_id items)
        then Inl (HTTPException 404 (''Media '' @ mid @ '' not found in album.''))
      else if mid \<in> set (map fst positions)
        then Inl (HTTPException 400 (''Duplicate media '' @ mid @ '' in order payload.''))
      else collect_positions items (positions @ [(mid, p)]) rest)"

definition even_positions :: "media list \<Rightarrow> (string \<times> int) list" where
  "even_positions items = zip (map md_id items) (map (\<lambda>i. int i * 1000) [1..<Suc (length items)])"

definition reorder_positions :: "string \<Rightarrow> (string \<times> int) list \<Rightarrow> db \<Rightarrow> err + (media list \<times> db)" where
  "reorder_positions aid positions d =
     (case update_media_positions aid positions d of
        Inl e \<Rightarrow> Inl e
      | Inr (reordered, d1) \<Rightarrow>
        if needs_rebalance reordered then update_media_positions aid (even_positions reordered) d1
        else Inr (reordered, d1))"

definition reorder_album ::
  "time \<Rightarrow> time \<Rightarrow> string \<Rightarrow> string option \<Rightarrow> (string \<times> int) list \<Rightarrow> string \<Rightarrow> user option \<Rightarrow> world
     \<Rightarrow> (err + (album \<times> media list)) \<times> world" where
  "reorder_album now dbnow aid tok order cid actor w =
     (case get_album aid (w_db w) of
        None \<Rightarrow> (Inl album_not_found, w)
      | Some album \<Rightarrow>
        (case require_album_access now album tok actor False of
           Inl e \<Rightarrow> (Inl e, w)
         | Inr _ \<Rightarrow>
           let items = list_album_media aid (w_db w) in
           if order = [] then (Inl (HTTPException 400 ''At least one position update is required.''), w)
           else (case collect_positions items [] order of
              Inl e \<Rightarrow> (Inl e, w)
            | Inr positions \<Rightarrow>
              (case reorder_positions aid positions (w_db w) of
                 Inl e \<Rightarrow> (Inl e, w)
               | Inr (reordered, d) \<Rightarrow>
                 (case save_album dbnow album (with_db w d) of
                    (Inl e, w1) \<Rightarrow> (Inl e, w1)
                  | (Inr _, w1) \<Rightarrow>
                    (Inr (album, reordered),
                     emit (AlbumReordered (al_id album) (al_user_id album) (actor_id actor)
                       (actor_kind actor tok False) (api_or_web actor) cid) w1))))))"

text \<open>\<^verbatim>\<open>delete_media\<close>\<close>

record media_delete_result =
  mr_deleted_media :: media
  mr_album :: "album option"
  mr_remaining_items :: "media list"
  mr_album_deleted :: bool

definition delete_emptied_album :: "string \<Rightarrow> string option \<Rightarrow> string \<Rightarrow> user option \<Rightarrow> world \<Rightarrow> world" where
  "delete_emptied_album aid tok cid actor w =
     (case repo_delete_album aid (w_db w) of
        ((None, _), d) \<Rightarrow> with_db w d
      | ((Some deleted, _), d) \<Rightarrow>
        emit (AlbumDeleted (al_id deleted) (al_user_id deleted) (actor_id actor)
          (actor_kind actor tok False) 0 0 (api_or_web actor) cid) (with_db w d))"

definition delete_media ::
  "time \<Rightarrow> time \<Rightarrow> string \<Rightarrow> string option \<Rightarrow> string \<Rightarrow> user option \<Rightarrow> world
     \<Rightarrow> (err + media_delete_result) \<times> world" where
  "delete_media now dbnow mid tok cid actor w =
     (case get_media mid (w_db w) of
        None \<Rightarrow> (Inl (HTTPException 404 ''Media not found.''), w)
      | Some media \<Rightarrow>
        (case get_album (md_album_id media) (w_db w) of
           None \<Rightarrow> (Inl album_not_found, w)
         | Some album \<Rightarrow>
           (case require_album_access now album tok actor False of
              Inl e \<Rightarrow> (Inl e, w)
            | Inr _ \<Rightarrow>
              (case repo_delete_media mid (w_db w) of
                 (None, d) \<Rightarrow> (Inl (HTTPException 404 ''Media not found.''), with_db w d)
               | (Some deleted, d) \<Rightarrow>
                 let w1 = with_db w d;
                     w2 = with_store w1 (delete_media_storage_keys [deleted] (w_store w1));
                     w3 = emit (MediaDeleted (md_id deleted) (md_album_id deleted) (md_user_id deleted)
                            (actor_id actor) (actor_kind actor tok False)
                            (md_file_size deleted + or_zero (md_thumb_size deleted)) (api_or_web actor) cid) w2;
                     remaining = list_album_media (al_id album) (w_db w3)
                 in if remaining = [] then
                      (Inr \<lparr>mr_deleted_media = deleted, mr_album = None, mr_remaining_items = [],
                            mr_album_deleted = True\<rparr>,
                       delete_emptied_album (al_id album) tok cid actor w3)
                    else
                      let album' = (if al_cover_media_id album = Some (md_id deleted)
                                    then album\<lparr>al_cover_media_id := None\<rparr> else album) in
                      (case update_album_row dbnow album' (w_db w3) of
                         Inl (LookupError _) \<Rightarrow>
                           (Inr \<lparr>mr_deleted_media = deleted, mr_album = None, mr_remaining_items = [],
                                 mr_album_deleted = True\<rparr>, w3)
                       | Inl e \<Rightarrow> (Inl e, w3)
                       | Inr (_, d') \<Rightarrow>
                           (Inr \<lparr>mr_deleted_media = deleted, mr_album = Some album',
                                 mr_remaining_items = remaining, mr_album_deleted = False\<rparr>,
                            with_db w3 d'))))))"

text \<open>\<^verbatim>\<open>admin_update_album\<close>; the ISO texts that the event carries are kept as the instants they denote.\<close>

definition admin_update_album ::
  "time \<Rightarrow> string \<Rightarrow> time option patch \<Rightarrow> string \<Rightarrow> string option \<Rightarrow> world \<Rightarrow> (err + album) \<times> world" where
  "admin_update_album dbnow aid expires cid admin_id w =
     (case get_album aid (w_db w) of
        None \<Rightarrow> (Inl album_not_found, w)
      | Some album \<Rightarrow>
        (case expires of
           UNSET \<Rightarrow> (Inr album, w)
         | Given new_expiry \<Rightarrow>
           if al_expires_at album = new_expiry then (Inr album, w)
           else let album' = album\<lparr>al_expires_at := new_expiry\<rparr> in
             (case update_album_row dbnow album' (w_db w) of
                Inl e \<Rightarrow> (Inl e, w)
              | Inr (_, d) \<Rightarrow>
                (Inr album', emit (AlbumExpiryChanged (al_id album) (al_user_id album) admin_id ''admin''
                   (al_expires_at album) new_expiry ''api'' cid) (with_db w d)))))"

section \<open>Pruning\<close>

record prune_result =
  pr_dry_run :: bool
  pr_album_ids :: "string list"
  pr_item_count :: int
  pr_bytes_freed :: int
  pr_audit_event_count :: int

text \<open>The body of the loop over the expired albums; the accumulator is (album ids, items, bytes).\<close>

definition prune_one :: "bool \<Rightarrow> album \<Rightarrow> (string list \<times> int \<times> int) \<times> world \<Rightarrow> (string list \<times> int \<times> int) \<times> world" where
  "prune_one dry_run album st =
     (case st of ((ids, cnt, bytes), w) \<Rightarrow>
      let items = list_album_media (al_id album) (w_db w);
          counted = (ids @ [al_id album], cnt + int (length items), bytes + storage_bytes_for_media items) in
      if dry_run then (counted, w)
      else (case del_until st_delete (storage_keys_for_media items) (w_store w) of
         (Inl _, s) \<Rightarrow> ((ids, cnt, bytes), with_store w s)
       | (Inr _, s) \<Rightarrow>
         (case repo_delete_album (al_id album) (w_db w) of
            ((None, _), d) \<Rightarrow> (counted, with_db (with_store w s) d)
          | ((Some deleted, gone), d) \<Rightarrow>
            (counted,
             emit (AlbumDeleted (al_id deleted) (al_user_id deleted) None (actor_kind None None True)
               (int (length gone)) (storage_bytes_for_media gone) ''system'' (''prune-'' @ al_id deleted))
               (with_db (with_store w s) d)))))"

definition sharex_consumed_retention_days :: int where
  "sharex_consumed_retention_days = 30"

definition sharex_revoked_retention_days :: int where
  "sharex_revoked_retention_days = 30"

definition prune_capabilities :: "time \<Rightarrow> db \<Rightarrow> db" where
  "prune_capabilities now d =
     (let d1 = snd (delete_expired_sharex_delete_capabilities now d);
          d2 = snd (delete_revoked_sharex_delete_capabilities_older_than
                 (now - days sharex_revoked_retention_days) d1)
      in snd (delete_consumed_sharex_delete_capabilities_older_than
            (now - days sharex_consumed_retention_days) d2))"

text \<open>
  \<^verbatim>\<open>prune_expired_albums\<close> with telemetry present, as \<^verbatim>\<open>AppState\<close> builds it: \<open>now\<close> is the first clock
  reading, \<open>audit_now\<close> the second, \<open>retention\<close> the setting \<^verbatim>\<open>audit_retention_days\<close>.
\<close>

definition prune_expired_albums :: "time \<Rightarrow> time \<Rightarrow> int \<Rightarrow> bool \<Rightarrow> world \<Rightarrow> prune_result \<times> world" where
  "prune_expired_albums now audit_now retention dry_run w =
     (case fold (prune_one dry_run) (list_expired_albums now (w_db w)) (([], 0, 0), w) of
        ((ids, cnt, bytes), w1) \<Rightarrow>
        let audit_before = audit_now - days retention;
            stale = int (length (filter (\<lambda>t. t < audit_before) (w_audit w1)));
            w2 = (if dry_run then w1
                  else with_db (w1\<lparr>w_audit := filter (\<lambda>t. \<not> t < audit_before) (w_audit w1)\<rparr>)
                         (prune_capabilities now (w_db w1)))
        in (\<lparr>pr_dry_run = dry_run, pr_album_ids = ids, pr_item_count = cnt,
              pr_bytes_freed = bytes, pr_audit_event_count = stale\<rparr>, w2))"

end
