(* ===== verification/Samples.thy ===== *)
theory Samples
  imports Albums
begin

text \<open>
  Concrete rows, tables and states that the instances of the theorems evaluate on: two users (the
  second an administrator), one album with three media rows of the first, one expired anonymous album,
  and a delete capability.
\<close>

definition sample_user :: "string \<Rightarrow> bool \<Rightarrow> user" where
  "sample_user u admin = \<lparr>us_id = u, us_username = u, us_email = u @ ''@x'', us_password_hash = None,
     us_is_admin = admin, us_suspended = False, us_quota_bytes = None, us_rate_limit_rpm = None,
     us_rate_limit_bph = None, us_created_at = 0, us_updated_at = 0\<rparr>"

definition sample_user_row :: "string \<Rightarrow> bool \<Rightarrow> user_row" where
  "sample_user_row u admin = \<lparr>ur_id = u, ur_username = u, ur_email = u @ ''@x'', ur_password_hash = None,
     ur_is_admin = admin, ur_is_suspended = False, ur_quota_bytes = None, ur_created_at = 0, ur_updated_at = 0\<rparr>"

definition sample_album :: "string \<Rightarrow> string option \<Rightarrow> string option \<Rightarrow> time option \<Rightarrow> album" where
  "sample_album a owner tok expiry = \<lparr>al_id = a, al_title = None, al_user_id = owner,
     al_cover_media_id = None, al_delete_token = tok, al_created_at = 0, al_updated_at = 0,
     al_expires_at = expiry\<rparr>"

definition sample_media :: "string \<Rightarrow> string \<Rightarrow> string option \<Rightarrow> string \<Rightarrow> string option \<Rightarrow> int \<Rightarrow> media" where
  "sample_media m a owner key thumb pos = \<lparr>md_id = m, md_album_id = a, md_user_id = owner,
     md_filename_orig = m, md_media_type = ''image'', md_format = ''png'', md_mime_type = ''image/png'',
     md_storage_key = key, md_thumb_key = thumb, md_thumb_is_orig = False, md_thumb_status = ''done'',
     md_file_size = 10, md_thumb_size = Some 3, md_width = Some 4, md_height = Some 4,
     md_duration_secs = None, md_is_animated = False, md_codec_hint = None, md_position = pos,
     md_created_at = 0\<rparr>"

definition sample_capability :: "string \<Rightarrow> string \<Rightarrow> string \<Rightarrow> time \<Rightarrow> sharex_capability" where
  "sample_capability s a u expiry = \<lparr>sc_selector = s, sc_purpose = ''delete_album'', sc_album_id = a,
     sc_user_id = u, sc_secret_hash = ''h'', sc_created_at = 0, sc_expires_at = expiry,
     sc_consumed_at = None, sc_revoked_at = None, sc_last_seen_at = None\<rparr>"

definition sample_db :: db where
  "sample_db = empty_db\<lparr>
     db_users := [sample_user_row ''u'' False, sample_user_row ''v'' True],
     db_albums := [sample_album ''a'' (Some ''u'') None None, sample_album ''x'' None (Some ''t'') (Some 5)],
     db_media := [sample_media ''m1'' ''a'' (Some ''u'') ''k1'' (Some ''t1'') 1000,
                  sample_media ''m2'' ''a'' (Some ''u'') ''k2'' (Some ''k2'') 2000,
                  sample_media ''m3'' ''a'' (Some ''u'') ''k3'' None 3000,
                  sample_media ''m4'' ''x'' None ''k4'' (Some ''t4'') 1000],
     db_sharex := [sample_capability ''s'' ''a'' ''u'' 100]\<rparr>"

definition sample_store :: "store_op list \<Rightarrow> store" where
  "sample_store faults = \<lparr>st_objects = (\<lambda>k. if k \<in> set [''k1'', ''t1'', ''k2'', ''k3'', ''k4'', ''t4''] then Some ''data'' else None),
     st_faulty = (\<lambda>op. op \<in> set faults),
     st_torn = (\<lambda>_. Some ''da'')\<rparr>"

definition sample_world :: "store_op list \<Rightarrow> world" where
  "sample_world faults = \<lparr>w_db = sample_db, w_store = sample_store faults, w_audit = [1, 9], w_log = []\<rparr>"

lemmas sample_defs = sample_user_def sample_user_row_def sample_album_def sample_media_def sample_capability_def
  sample_db_def sample_store_def sample_world_def

lemma sample_db_wf: "db_wf sample_db"
  by code_simp

lemma sample_world_sel [simp]:
  "w_db (sample_world f) = sample_db" "w_store (sample_world f) = sample_store f" "w_audit (sample_world f) = [1, 9]"
  "w_log (sample_world f) = []" "st_faulty (sample_store f) = (\<lambda>op. op \<in> set f)"
  by (simp_all add: sample_world_def sample_store_def)

lemma Inr_projr: "\<not> isl (fst x) \<Longrightarrow> x = (Inr (fst (projr (fst x)), snd (projr (fst x))), snd x)"
  by (cases x; cases "fst x") auto

end
