(* ===== verification/Album_Props.thy ===== *)
theory Album_Props
  imports Samples
begin

text \<open>
  What the album operations of \<^verbatim>\<open>Albums\<close> guarantee: who may change an album, what a reorder leaves
  behind, that a deletion is complete, and that pruning removes exactly the expired albums whose
  objects could be deleted, as its dry run announces.
\<close>

section \<open>Cascades and listings\<close>

lemma list_album_media_cascade_other:
  "aid \<notin> al_id ` {a \<in> set (db_albums d). P a} \<Longrightarrow> list_album_media aid (cascade_album P d) = list_album_media aid d"
  unfolding list_album_media_def cascade_album_def Let_def delete_where_def
  by (simp, intro arg_cong [where f = "sort_key md_position"] filter_cong) auto

lemma get_album_cascade_other:
  "get_album aid d = Some a \<Longrightarrow> \<not> P a \<Longrightarrow> keys_distinct al_id (db_albums d) \<Longrightarrow>
   get_album aid (cascade_album P d) = Some a"
  by (simp add: get_album_def find_row_delete_where)

lemma cascade_album_compose:
  "cascade_album P (cascade_album Q d) = cascade_album (\<lambda>a. P a \<or> Q a) d"
proof (rule db.equality)
  show "db_media (cascade_album P (cascade_album Q d)) = db_media (cascade_album (\<lambda>a. P a \<or> Q a) d)"
    unfolding cascade_album_def Let_def delete_where_def by (simp, rule filter_cong) auto
  show "db_sharex (cascade_album P (cascade_album Q d)) = db_sharex (cascade_album (\<lambda>a. P a \<or> Q a) d)"
    unfolding cascade_album_def Let_def delete_where_def by (simp, rule filter_cong) auto
qed (auto simp: delete_where_def cascade_album_def Let_def intro!: filter_cong)

section \<open>Access\<close>

text \<open>A request that does not pass the access check (no administrator, not the owner, no matching
  delete token, or an expired album) is refused with 403 or 404 and leaves tables, objects, audit log
  and emitted events exactly as they were, whichever of the album operations it asks for.\<close>

theorem unauthorised_requests_change_nothing:
  assumes "get_album aid (w_db w) = Some album"
    and "\<not> may_access now album tok actor False"
    and "\<not> may_access now album tok actor (case actor of Some u \<Rightarrow> us_is_admin u | None \<Rightarrow> False)"
    and "get_media mid (w_db w) = Some m" "md_album_id m = aid"
  shows "\<exists>e e'. {e, e'} \<subseteq> {album_not_found, HTTPException 403 ''Album access denied.'',
        HTTPException 403 ''Invalid delete token.''}
      \<and> delete_album now aid tok cid actor w = (Inl e, w)
      \<and> update_album now dbnow aid tok cid actor title cover w = (Inl e', w)
      \<and> reorder_album now dbnow aid tok order cid actor w = (Inl e', w)
      \<and> delete_media now dbnow mid tok cid actor w = (Inl e', w)"
proof -
  let ?ae = "case actor of Some u \<Rightarrow> us_is_admin u | None \<Rightarrow> False"
  from assms(3) obtain e where e: "require_album_access now album tok actor ?ae = Inl e"
    by (metis require_album_access_Inr sum.exhaust)
  from assms(2) obtain e' where e': "require_album_access now album tok actor False = Inl e'"
    by (metis require_album_access_Inr sum.exhaust)
  have "delete_album now aid tok cid actor w = (Inl e, w)"
    using e assms(1) by (simp add: delete_album_def)
  moreover have "update_album now dbnow aid tok cid actor title cover w = (Inl e', w)"
    "reorder_album now dbnow aid tok order cid actor w = (Inl e', w)"
    "delete_media now dbnow mid tok cid actor w = (Inl e', w)"
    using e' assms(1,4,5) by (simp_all add: update_album_def reorder_album_def delete_media_def)
  ultimately show ?thesis
    using require_album_access_error [OF e] require_album_access_error [OF e']
    by (auto simp: album_not_found_def)
qed

theorem unauthorised_requests_change_nothing_witness:
  "\<exists>e. delete_album 0 ''a'' (Some ''t'') ''c'' (Some (sample_user ''other'' False)) (sample_world []) = (Inl e, sample_world [])"
proof -
  have "get_album ''a'' (w_db (sample_world [])) = Some (sample_album ''a'' (Some ''u'') None None)"
    "\<not> may_access 0 (sample_album ''a'' (Some ''u'') None None) (Some ''t'') (Some (sample_user ''other'' False)) False"
    "\<not> may_access 0 (sample_album ''a'' (Some ''u'') None None) (Some ''t'') (Some (sample_user ''other'' False))
       (case Some (sample_user ''other'' False) of Some u \<Rightarrow> us_is_admin u | None \<Rightarrow> False)"
    "get_media ''m1'' (w_db (sample_world [])) = Some (sample_media ''m1'' ''a'' (Some ''u'') ''k1'' (Some ''t1'') 1000)"
    "md_album_id (sample_media ''m1'' ''a'' (Some ''u'') ''k1'' (Some ''t1'') 1000) = ''a''"
    by (simp_all add: may_access_def sample_defs get_album_def get_media_def find_row_Cons)
  from unauthorised_requests_change_nothing [OF this, where cid = "''c''" and title = UNSET and cover = UNSET
      and order = "[]" and dbnow = 0]
  show ?thesis by blast
qed

section \<open>Reordering\<close>

lemma needs_rebalance_iff:
  "\<not> needs_rebalance items \<longleftrightarrow>
     (\<forall>i. Suc i < length items \<longrightarrow> md_position (items ! i) + 2 \<le> md_position (items ! Suc i))"
proof (induction items rule: needs_rebalance.induct)
  case (1 a b rest)
  show ?case (is "?l \<longleftrightarrow> ?r")
  proof
    assume ?l
    then show ?r using 1 by (auto simp: nth_Cons split: nat.splits)
  next
    assume r: ?r
    from r [THEN spec, of 0] have "md_position a + 2 \<le> md_position b" by simp
    moreover have "\<not> needs_rebalance (b # rest)"
      using r by (subst "1.IH") (auto dest: spec [where x = "Suc _"])
    ultimately show ?l by simp
  qed
qed simp_all

lemma collect_positions_ok:
  assumes "collect_positions items ps order = Inr qs" "distinct (map fst ps)"
  shows "qs = ps @ order \<and> distinct (map fst (ps @ order)) \<and> fst ` set order \<subseteq> md_id ` set items"
  using assms
proof (induction items ps order arbitrary: qs rule: collect_positions.induct)
  case (2 items positions mid p rest)
  from "2.prems" have c: "mid \<in> md_id ` set items" "mid \<notin> set (map fst positions)"
    "collect_positions items (positions @ [(mid, p)]) rest = Inr qs"
    by (auto split: if_splits)
  with 2 have "qs = (positions @ [(mid, p)]) @ rest \<and> distinct (map fst ((positions @ [(mid, p)]) @ rest)) \<and> fst ` set rest \<subseteq> md_id ` set items"
    by simp
  with c(1) show ?case by simp
qed simp

lemma even_positions_simps:
  "map fst (even_positions items) = map md_id items"
  "map snd (even_positions items) = map (\<lambda>i. int i * 1000) [1..<Suc (length items)]"
  by (simp_all add: even_positions_def del: upt_Suc)

lemma map_of_even_positions:
  assumes "distinct (map md_id items)" "i < length items"
  shows "map_of (even_positions items) (md_id (items ! i)) = Some (int (Suc i) * 1000)"
proof -
  have "(md_id (items ! i), int (Suc i) * 1000) \<in> set (even_positions items)"
    using assms(2) by (auto simp: even_positions_def set_zip nth_append simp del: upt_Suc intro!: exI [of _ i])
  then show ?thesis
    using assms(1) by (subst map_of_eq_Some_iff) (simp_all add: even_positions_simps)
qed

lemma list_album_media_mset_id:
  assumes "db_media d' = map f (db_media d)" "\<And>m. md_id (f m) = md_id m \<and> md_album_id (f m) = md_album_id m"
  shows "mset (map md_id (list_album_media aid d')) = mset (map md_id (list_album_media aid d))"
proof -
  have "map md_id (filter (\<lambda>m. md_album_id m = aid) (map f xs)) = map md_id (filter (\<lambda>m. md_album_id m = aid) xs)" for xs
    using assms(2) by (induction xs) auto
  moreover have "mset (map md_id (list_album_media aid e)) = mset (map md_id (filter (\<lambda>m. md_album_id m = aid) (db_media e)))" for e
    by (simp add: mset_list_album_media)
  ultimately show ?thesis
    by (simp only: assms(1))
qed

text \<open>A listing is determined by its set of rows once the positions are strictly increasing along it.\<close>

lemma sorted_unique_listing:
  assumes "sorted (map f xs)" "distinct (map f xs)" "sorted (map f ys)" "set xs = set ys" "distinct ys"
  shows "xs = ys"
proof -
  have inj: "inj_on f (set xs)" using assms(2) by (simp add: distinct_map)
  have "distinct (map f ys)" using assms(4,5) inj by (simp add: distinct_map)
  with assms have "map f xs = map f ys"
    by (intro sorted_distinct_set_unique) simp_all
  with inj assms(4) show ?thesis by (simp add: inj_on_map_eq_map)
qed

lemma image_filter_swap: "(\<And>m. A (f m) = A m) \<Longrightarrow> {m \<in> f ` S. A m} = f ` {m \<in> S. A m}"
  by auto

lemma rebalanced_listing:
  assumes wf: "keys_distinct md_id (db_media d)"
    and items: "items = list_album_media aid d"
    and upd: "update_media_positions aid (even_positions items) d = Inr (ms, d')"
  shows "ms = map (reposition aid (even_positions items)) items"
    and "\<not> needs_rebalance ms"
proof -
  let ?r = "reposition aid (even_positions items)"
  have dist: "distinct (map md_id items)" unfolding items using wf by (rule distinct_list_album_media)
  have d': "db_media d' = map ?r (db_media d)" "ms = list_album_media aid d'"
    using update_media_positions_ok [OF upd] dist by (simp_all add: even_positions_simps)
  have alb: "md_album_id m = aid" if "m \<in> set items" for m
    using that by (simp add: items set_list_album_media)
  have pos: "md_position (?r (items ! i)) = int (Suc i) * 1000" if "i < length items" for i
    using that alb dist by (simp add: map_of_even_positions)
  have strict: "sorted_wrt (<) (map md_position (map ?r items))"
    using pos by (simp add: sorted_wrt_iff_nth_less del: reposition_sel)
  have "map ?r items = ms"
  proof (rule sorted_unique_listing [where f = md_position])
    show "sorted (map md_position (map ?r items))" "distinct (map md_position (map ?r items))"
      using strict by (simp_all only: strict_sorted_imp_sorted strict_sorted_iff)
    show "sorted (map md_position ms)" by (simp add: d' sorted_list_album_media)
    show "set (map ?r items) = set ms"
      unfolding d' set_list_album_media items list.set_map
      by (rule image_filter_swap [symmetric]) simp
    have "keys_distinct md_id (db_media d')"
      using wf by (simp add: keys_distinct_def d'(1) comp_def)
    then show "distinct ms"
      using distinct_list_album_media [of d' aid] by (simp add: d'(2) distinct_map)
  qed
  then show m: "ms = map ?r items" by simp
  show "\<not> needs_rebalance ms"
    unfolding needs_rebalance_iff m using pos by (auto simp del: reposition_sel)
qed

definition order_honoured :: "(string \<times> int) list \<Rightarrow> media list \<Rightarrow> bool" where
  "order_honoured order items =
     (\<forall>i j. i < j \<and> j < length items \<longrightarrow>
        (\<forall>p q. map_of order (md_id (items ! i)) = Some p \<longrightarrow> map_of order (md_id (items ! j)) = Some q \<longrightarrow> p \<le> q))"

lemma order_honoured_cong:
  "map md_id xs = map md_id ys \<Longrightarrow> order_honoured order xs = order_honoured order ys"
proof -
  assume eq: "map md_id xs = map md_id ys"
  then have len: "length xs = length ys" by (rule map_eq_imp_length_eq)
  have "md_id (xs ! i) = md_id (ys ! i)" if "i < length xs" for i
    using eq that len by (metis nth_map)
  with len show ?thesis by (auto simp: order_honoured_def)
qed

lemma order_honoured_update:
  assumes "update_media_positions aid ps d = Inr (ms, d')" "distinct (map fst ps)"
  shows "order_honoured ps ms"
  unfolding order_honoured_def
proof (intro allI impI)
  fix i j p q
  assume ij: "i < j \<and> j < length ms"
    and p: "map_of ps (md_id (ms ! i)) = Some p" and q: "map_of ps (md_id (ms ! j)) = Some q"
  note u = update_media_positions_ok [OF assms]
  have pos: "md_position m = r" if "m \<in> set ms" "map_of ps (md_id m) = Some r" for m r
  proof -
    from that have "m \<in> reposition aid ps ` set (db_media d)" "md_album_id m = aid"
      by (simp_all add: u set_list_album_media)
    then obtain m0 where m: "m = reposition aid ps m0" and "md_album_id m = aid" by blast
    then have "md_album_id m0 = aid" by simp
    with that m show ?thesis by simp
  qed
  have "sorted (map md_position ms)" by (simp add: u sorted_list_album_media)
  then have "md_position (ms ! i) \<le> md_position (ms ! j)"
    using ij by (auto simp: sorted_iff_nth_mono)
  with pos [OF nth_mem p] pos [OF nth_mem q] ij show "p \<le> q" by simp
qed

lemma reposition_other: "md_album_id m \<noteq> aid \<Longrightarrow> reposition aid ps m = m"
  by (simp add: reposition_def)

lemma filter_other_reposition:
  "filter (\<lambda>m. md_album_id m \<noteq> aid) (map (reposition aid ps) xs) = filter (\<lambda>m. md_album_id m \<noteq> aid) xs"
  by (induction xs) (simp_all add: reposition_other)

lemma reorder_positions_ok:
  assumes wf: "keys_distinct md_id (db_media d)" and dist: "distinct (map fst ps)"
    and ok: "reorder_positions aid ps d = Inr (ms, d')"
  shows "ms = list_album_media aid d' \<and> \<not> needs_rebalance ms \<and> order_honoured ps ms
    \<and> mset (map md_id ms) = mset (map md_id (list_album_media aid d))
    \<and> filter (\<lambda>m. md_album_id m \<noteq> aid) (db_media d') = filter (\<lambda>m. md_album_id m \<noteq> aid) (db_media d)
    \<and> db_albums d' = db_albums d \<and> db_users d' = db_users d \<and> db_sharex d' = db_sharex d"
proof -
  from ok obtain ms1 d1 where first: "update_media_positions aid ps d = Inr (ms1, d1)"
    and second: "(if needs_rebalance ms1 then update_media_positions aid (even_positions ms1) d1
       else Inr (ms1, d1)) = Inr (ms, d')"
    by (auto simp: reorder_positions_def split: sum.splits)
  note u = update_media_positions_ok [OF first dist]
  have wf1: "keys_distinct md_id (db_media d1)"
    using wf by (simp add: keys_distinct_def u(1) comp_def)
  have ids1: "mset (map md_id ms1) = mset (map md_id (list_album_media aid d))"
    unfolding u(2) by (rule list_album_media_mset_id [OF u(1)]) simp
  have hon1: "order_honoured ps ms1" using first dist by (rule order_honoured_update)
  show ?thesis
  proof (cases "needs_rebalance ms1")
    case False
    with second have "ms1 = ms" "d1 = d'" by simp_all
    with u ids1 hon1 False show ?thesis by (simp add: filter_other_reposition)
  next
    case True
    with second have upd: "update_media_positions aid (even_positions ms1) d1 = Inr (ms, d')" by simp
    note r = rebalanced_listing [OF wf1 u(2) upd]
    have dist1: "distinct (map fst (even_positions ms1))"
      using distinct_list_album_media [OF wf1] by (simp add: even_positions_simps u(2))
    note u1 = update_media_positions_ok [OF upd dist1]
    have ids: "map md_id ms = map md_id ms1"
      unfolding r(1) by simp
    have "order_honoured ps ms"
      using hon1 order_honoured_cong [OF ids] by simp
    moreover have "mset (map md_id ms) = mset (map md_id (list_album_media aid d))"
      using ids1 by (simp only: ids)
    moreover have "filter (\<lambda>m. md_album_id m \<noteq> aid) (db_media d') = filter (\<lambda>m. md_album_id m \<noteq> aid) (db_media d)"
      unfolding u1(1) u(1) filter_other_reposition by (rule refl)
    ultimately show ?thesis using r(2) u(3-5) u1(2-5) by simp
  qed
qed

lemma save_album_ok:
  "save_album dbnow a w = (Inr u, w') \<Longrightarrow>
     db_media (w_db w') = db_media (w_db w) \<and> w_store w' = w_store w
     \<and> (db_wf (w_db w) \<longrightarrow> db_wf (w_db w'))"
proof -
  assume "save_album dbnow a w = (Inr u, w')"
  then obtain r d where upd: "update_album_row dbnow a (w_db w) = Inr (r, d)" and w': "w' = with_db w d"
    by (auto simp: save_album_def split: sum.splits err.splits)
  from upd have "db_media d = db_media (w_db w)"
    by (auto simp: update_album_row_def split: option.splits if_splits)
  with w' db_wf_update_album_row [OF _ upd] show ?thesis by simp
qed

text \<open>C7: A successful reorder of an album leaves its items at positions that grow by at least two
  from one to the next (so later insertions between two items have room), keeps exactly the items it had,
  lists every two of the items named in the request in the requested order, moves no item of another
  album, and returns the listing that the database now holds.\<close>

theorem reorder_album_sound:
  assumes "db_wf (w_db w)"
    and "reorder_album now dbnow aid tok order cid actor w = (Inr (album, items), w')"
  shows "items = list_album_media aid (w_db w')
    \<and> (\<forall>i. Suc i < length items \<longrightarrow> md_position (items ! i) + 2 \<le> md_position (items ! Suc i))
    \<and> mset (map md_id items) = mset (map md_id (list_album_media aid (w_db w)))
    \<and> order_honoured order items
    \<and> filter (\<lambda>m. md_album_id m \<noteq> aid) (db_media (w_db w')) = filter (\<lambda>m. md_album_id m \<noteq> aid) (db_media (w_db w))"
proof -
  from assms(2) obtain positions d w1 u where
    c: "collect_positions (list_album_media aid (w_db w)) [] order = Inr positions"
    and r: "reorder_positions aid positions (w_db w) = Inr (items, d)"
    and s: "save_album dbnow album (with_db w d) = (Inr u, w1)"
    and w': "w_db w' = w_db w1"
    by (auto simp: reorder_album_def Let_def split: option.splits sum.splits prod.splits if_splits)
  from collect_positions_ok [OF c] have "positions = order" "distinct (map fst order)" by simp_all
  with r assms(1) have ok: "reorder_positions aid order (w_db w) = Inr (items, d)" by simp
  have media: "db_media (w_db w') = db_media d"
    using save_album_ok [OF s] by (simp add: w')
  then have same: "list_album_media aid (w_db w') = list_album_media aid d"
    by (simp add: list_album_media_def)
  note r = reorder_positions_ok [OF db_wf_keys(2) [OF assms(1)] \<open>distinct (map fst order)\<close> ok]
  have listing: "list_album_media aid (w_db w') = items"
    using r by (simp only: same)
  show ?thesis
    unfolding listing media using r unfolding needs_rebalance_iff
    by (elim conjE, intro conjI) (assumption | rule refl)+
qed

theorem reorder_album_sound_witness:
  defines "r \<equiv> reorder_album 0 7 ''a'' None [(''m3'', 1), (''m1'', 2)] ''c'' (Some (sample_user ''u'' False)) (sample_world [])"
  shows "order_honoured [(''m3'', 1), (''m1'', 2)] (list_album_media ''a'' (w_db (snd r)))
    \<and> length (list_album_media ''a'' (w_db (snd r))) = 3"
proof -
  have ok: "\<not> isl (fst r)" unfolding r_def by code_simp
  have "db_wf (w_db (sample_world []))" by (simp add: sample_db_wf)
  note s = reorder_album_sound [OF this trans [OF r_def [symmetric, THEN meta_eq_to_obj_eq] Inr_projr [OF ok]]]
  have "length (list_album_media ''a'' (w_db (snd r))) = 3" unfolding r_def by code_simp
  with s show ?thesis by metis
qed

section \<open>Deleting an album\<close>

lemma cascade_one_rows:
  assumes "get_album aid d = Some a" "d' = cascade_album (\<lambda>r. al_id r = aid) d"
  shows "db_albums d' = filter (\<lambda>r. al_id r \<noteq> aid) (db_albums d)
    \<and> db_media d' = filter (\<lambda>m. md_album_id m \<noteq> aid) (db_media d)
    \<and> db_sharex d' = filter (\<lambda>c. sc_album_id c \<noteq> aid) (db_sharex d)"
proof -
  have "a \<in> set (db_albums d)" "al_id a = aid"
    using assms(1) by (auto simp: get_album_def dest: find_row_SomeD)
  then have "x \<in> al_id ` {r \<in> set (db_albums d). al_id r = aid} \<longleftrightarrow> x = aid" for x by auto
  then show ?thesis
    unfolding assms(2) cascade_album_def Let_def delete_where_def by simp
qed

lemma delete_album_done:
  assumes "delete_album now aid tok cid actor w = (Inr (album, items), w')"
  shows "get_album aid (w_db w) = Some album \<and> items = list_album_media aid (w_db w)
    \<and> w_db w' = cascade_album (\<lambda>r. al_id r = aid) (w_db w)
    \<and> w_store w' = delete_media_storage_keys items (w_store w)"
proof (cases "get_album aid (w_db w)")
  case None
  with assms show ?thesis by (simp add: delete_album_def)
next
  case (Some a)
  show ?thesis
  proof (cases "require_album_access now a tok actor (case actor of Some u \<Rightarrow> us_is_admin u | None \<Rightarrow> False)")
    case (Inl e)
    with assms Some show ?thesis by (simp add: delete_album_def)
  next
    case (Inr u)
    from assms Some Inr show ?thesis
      by (clarsimp simp: delete_album_def repo_delete_album_def Let_def)
  qed
qed

text \<open>C8: A successful deletion of an album removes its row, every row of its media and every delete
  capability for it, and no other row of these tables; it returns the rows that were listed, and it
  removes from the store every original and thumbnail of theirs whose deletion the store carries out,
  and no other object. The constraints of the schema still hold.\<close>

theorem delete_album_complete:
  assumes "db_wf (w_db w)"
    and "delete_album now aid tok cid actor w = (Inr (album, items), w')"
  shows "db_albums (w_db w') = filter (\<lambda>r. al_id r \<noteq> aid) (db_albums (w_db w))
    \<and> db_media (w_db w') = filter (\<lambda>m. md_album_id m \<noteq> aid) (db_media (w_db w))
    \<and> db_sharex (w_db w') = filter (\<lambda>c. sc_album_id c \<noteq> aid) (db_sharex (w_db w))
    \<and> items = list_album_media aid (w_db w)
    \<and> (\<forall>k. st_objects (w_store w') k =
         (if (\<exists>m\<in>set items. k \<in> set (media_keys m)) \<and> \<not> st_faulty (w_store w) (SDelete k)
          then None else st_objects (w_store w) k))
    \<and> db_wf (w_db w')"
proof -
  from delete_album_done [OF assms(2)]
  have a: "get_album aid (w_db w) = Some album"
    and w': "w_db w' = cascade_album (\<lambda>r. al_id r = aid) (w_db w)"
      "w_store w' = delete_media_storage_keys items (w_store w)"
    and items: "items = list_album_media aid (w_db w)" by blast+
  have "db_wf (w_db w')" unfolding w'(1) using assms(1) by (rule db_wf_cascade_album)
  moreover have "st_objects (w_store w') k =
      (if (\<exists>m\<in>set items. k \<in> set (media_keys m)) \<and> \<not> st_faulty (w_store w) (SDelete k)
       then None else st_objects (w_store w) k)" for k
    unfolding w'(2) by (rule delete_media_storage_keys_objects)
  ultimately show ?thesis
    using cascade_one_rows [OF a w'(1)] items by blast
qed

theorem delete_album_complete_witness:
  defines "r \<equiv> delete_album 0 ''a'' None ''c'' (Some (sample_user ''u'' False)) (sample_world [SDelete ''k3''])"
  shows "map al_id (db_albums (w_db (snd r))) = [''x''] \<and> map md_id (db_media (w_db (snd r))) = [''m4'']
    \<and> st_objects (w_store (snd r)) ''t1'' = None \<and> st_objects (w_store (snd r)) ''k3'' = Some ''data''"
proof -
  have ok: "\<not> isl (fst r)" unfolding r_def by code_simp
  have "db_wf (w_db (sample_world [SDelete ''k3'']))" by (simp add: sample_db_wf)
  note s = delete_album_complete [OF this trans [OF r_def [symmetric, THEN meta_eq_to_obj_eq] Inr_projr [OF ok]]]
  have "\<exists>m\<in>set (list_album_media ''a'' sample_db). ''t1'' \<in> set (media_keys m)" by code_simp
  with s show ?thesis by (simp add: sample_defs)
qed

end
