(* ===== verification/Prune_Props.thy ===== *)
theory Prune_Props
  imports Album_Props
begin

text \<open>
  What the retention job promises: the loop body on one album, the whole loop by induction, and the
  job itself.
\<close>

section \<open>Pruning expired albums\<close>

definition prunable :: "world \<Rightarrow> album \<Rightarrow> bool" where
  "prunable w a =
     list_all (\<lambda>k. \<not> st_faulty (w_store w) (SDelete k))
       (storage_keys_for_media (list_album_media (al_id a) (w_db w)))"

lemma prune_one_dry: "prune_one True a ((ids, n, b), w) =
   ((ids @ [al_id a], n + int (length (list_album_media (al_id a) (w_db w))),
     b + storage_bytes_for_media (list_album_media (al_id a) (w_db w))), w)"
  by (simp add: prune_one_def Let_def)

lemma prune_one_skip:
  assumes "\<not> prunable w a"
  shows "\<exists>s. prune_one False a ((ids, n, b), w) = ((ids, n, b), with_store w s)
    \<and> st_faulty s = st_faulty (w_store w)
    \<and> (\<forall>k. st_objects s k = None \<or> st_objects s k = st_objects (w_store w) k)
    \<and> (\<forall>k. k \<notin> set (storage_keys_for_media (list_album_media (al_id a) (w_db w))) \<longrightarrow>
         st_objects s k = st_objects (w_store w) k)"
proof -
  let ?ks = "storage_keys_for_media (list_album_media (al_id a) (w_db w))"
  from assms have "fst (del_until st_delete ?ks (w_store w)) \<noteq> Inr ()"
    by (auto simp: fs.del_until_ok_iff prunable_def list_all_iff)
  then obtain e s where d: "del_until st_delete ?ks (w_store w) = (Inl e, s)"
    by (cases "del_until st_delete ?ks (w_store w)"; cases "fst (del_until st_delete ?ks (w_store w))") auto
  then have "prune_one False a ((ids, n, b), w) = ((ids, n, b), with_store w s)"
    by (simp add: prune_one_def Let_def)
  moreover have "st_faulty s = st_faulty (w_store w)"
    using fs.del_until_faults [of ?ks "w_store w"] d by simp
  moreover have "st_objects s k = st_objects (w_store w) k" if "k \<notin> set ?ks" for k
    using fs.del_until_shrinks [of ?ks "w_store w" k] d that by simp
  moreover have "st_objects s k = None \<or> st_objects s k = st_objects (w_store w) k" for k
    using fs.del_until_shrinks [of ?ks "w_store w" k] d by auto
  ultimately show ?thesis by blast
qed

lemma prune_one_ok:
  assumes "prunable w a" "get_album (al_id a) (w_db w) = Some a"
  shows "\<exists>w'. prune_one False a ((ids, n, b), w) =
      ((ids @ [al_id a], n + int (length (list_album_media (al_id a) (w_db w))),
        b + storage_bytes_for_media (list_album_media (al_id a) (w_db w))), w')
    \<and> w_db w' = cascade_album (\<lambda>r. al_id r = al_id a) (w_db w)
    \<and> w_audit w' = w_audit w
    \<and> st_faulty (w_store w') = st_faulty (w_store w)
    \<and> (\<forall>k. st_objects (w_store w') k =
         (if k \<in> set (storage_keys_for_media (list_album_media (al_id a) (w_db w))) then None
          else st_objects (w_store w) k))"
proof -
  let ?ms = "list_album_media (al_id a) (w_db w)"
  let ?ks = "storage_keys_for_media ?ms"
  have nf: "\<forall>k\<in>set ?ks. \<not> st_faulty (w_store w) (SDelete k)"
    using assms(1) by (simp add: prunable_def list_all_iff)
  then obtain s where d: "del_until st_delete ?ks (w_store w) = (Inr (), s)"
    using fs.del_until_ok_iff [of ?ks "w_store w"] by (cases "del_until st_delete ?ks (w_store w)") auto
  let ?w = "emit (AlbumDeleted (al_id a) (al_user_id a) None (actor_kind None None True)
               (int (length ?ms)) (storage_bytes_for_media ?ms) ''system'' (''prune-'' @ al_id a))
               (with_db (with_store w s) (cascade_album (\<lambda>r. al_id r = al_id a) (w_db w)))"
  have "st_faulty s = st_faulty (w_store w)"
    using fs.del_until_faults [of ?ks "w_store w"] d by simp
  moreover have "st_objects s k = (if k \<in> set ?ks then None else st_objects (w_store w) k)" for k
    using fs.del_until_objs_ok [OF nf, of k] d by simp
  moreover have "prune_one False a ((ids, n, b), w) =
      ((ids @ [al_id a], n + int (length ?ms), b + storage_bytes_for_media ?ms), ?w)"
    using assms(2) d by (simp add: prune_one_def repo_delete_album_def Let_def)
  ultimately show ?thesis by (intro exI [of _ ?w]) simp
qed

text \<open>
  The whole loop over albums of distinct ids: which state and totals it ends with. \<open>album_keys\<close> are the
  storage keys of an album's listing.
\<close>

abbreviation album_items :: "world \<Rightarrow> album \<Rightarrow> media list" where
  "album_items w a \<equiv> list_album_media (al_id a) (w_db w)"

abbreviation album_keys :: "world \<Rightarrow> album \<Rightarrow> string set" where
  "album_keys w a \<equiv> set (storage_keys_for_media (album_items w a))"

definition prune_state :: "world \<Rightarrow> album list \<Rightarrow> album list \<Rightarrow> world \<Rightarrow> bool" where
  "prune_state w as ok w' \<longleftrightarrow>
     w_db w' = cascade_album (\<lambda>r. al_id r \<in> al_id ` set ok) (w_db w)
     \<and> w_audit w' = w_audit w
     \<and> st_faulty (w_store w') = st_faulty (w_store w)
     \<and> (\<forall>k. st_objects (w_store w') k = None \<or> st_objects (w_store w') k = st_objects (w_store w) k)
     \<and> (\<forall>k. (\<forall>a\<in>set as. k \<notin> album_keys w a) \<longrightarrow> st_objects (w_store w') k = st_objects (w_store w) k)
     \<and> (\<forall>k. (\<exists>a\<in>set ok. k \<in> album_keys w a) \<longrightarrow> st_objects (w_store w') k = None)"

definition prune_totals :: "world \<Rightarrow> album list \<Rightarrow> string list \<times> int \<times> int \<Rightarrow> string list \<times> int \<times> int" where
  "prune_totals w ok acc = (case acc of (ids, n, b) \<Rightarrow>
     (ids @ map al_id ok, n + sum_list (map (\<lambda>a. int (length (album_items w a))) ok),
      b + sum_list (map (\<lambda>a. storage_bytes_for_media (album_items w a)) ok)))"

lemma prune_totals_Cons:
  "prune_totals w (a # ok) (ids, n, b) = prune_totals w ok
     (ids @ [al_id a], n + int (length (album_items w a)), b + storage_bytes_for_media (album_items w a))"
  by (simp add: prune_totals_def)

lemma cascade_album_none: "cascade_album (\<lambda>r. False) d = d"
  by (rule db.equality) (simp_all add: cascade_album_def delete_where_def)

lemma prune_state_skip:
  assumes "prune_state (with_store w s) as ok w'" "st_faulty s = st_faulty (w_store w)"
    "\<And>k. st_objects s k = None \<or> st_objects s k = st_objects (w_store w) k"
    "\<And>k. k \<notin> album_keys w a \<Longrightarrow> st_objects s k = st_objects (w_store w) k"
  shows "prune_state w (a # as) ok w'"
proof -
  have "st_objects (w_store w') k = None \<or> st_objects (w_store w') k = st_objects (w_store w) k" for k
    using assms(1) assms(3) [of k] unfolding prune_state_def world_sel by (elim conjE allE [of _ k]) auto
  then show ?thesis
    using assms(1,2,4) by (simp add: prune_state_def)
qed

lemma prune_state_ok:
  assumes first: "w_db w1 = cascade_album (\<lambda>r. al_id r = al_id a) (w_db w)" "w_audit w1 = w_audit w"
      "st_faulty (w_store w1) = st_faulty (w_store w)"
      "\<forall>k. st_objects (w_store w1) k = (if k \<in> album_keys w a then None else st_objects (w_store w) k)"
    and same: "\<And>c. c \<in> set as \<Longrightarrow> album_items w1 c = album_items w c" "set ok \<subseteq> set as"
    and rest: "prune_state w1 as ok w'"
  shows "prune_state w (a # as) (a # ok) w'"
proof -
  have "w_db w' = cascade_album (\<lambda>r. al_id r \<in> al_id ` set (a # ok)) (w_db w)"
    using rest unfolding prune_state_def first(1) cascade_album_compose
    by (elim conjE) (erule trans, rule arg_cong2 [where f = cascade_album], auto)
  moreover have mono: "st_objects (w_store w') k = None \<or> st_objects (w_store w') k = st_objects (w_store w) k"
    and del: "k \<in> album_keys w a \<Longrightarrow> st_objects (w_store w') k = None" for k
    using rest first(4) unfolding prune_state_def by (metis (full_types))+
  moreover have "st_objects (w_store w') k = st_objects (w_store w) k"
    if "\<forall>c\<in>set (a # as). k \<notin> album_keys w c" for k
  proof -
    from that same(1) have "\<forall>c\<in>set as. k \<notin> album_keys w1 c" by simp
    with rest have "st_objects (w_store w') k = st_objects (w_store w1) k"
      unfolding prune_state_def by blast
    with first(4) that show ?thesis by simp
  qed
  moreover have "st_objects (w_store w') k = None" if "\<exists>c\<in>set (a # ok). k \<in> album_keys w c" for k
  proof (cases "k \<in> album_keys w a")
    case True
    then show ?thesis by (rule del)
  next
    case False
    with that obtain c where "c \<in> set ok" "k \<in> album_keys w c" by auto
    with same(1) [of c] same(2) have "\<exists>c\<in>set ok. k \<in> album_keys w1 c" by (intro bexI [of _ c]) auto
    with rest show ?thesis unfolding prune_state_def by blast
  qed
  ultimately show ?thesis
    using rest first(2,3) unfolding prune_state_def by simp
qed

lemma prune_fold:
  assumes "db_wf (w_db w)" "distinct (map al_id as)" "\<forall>a\<in>set as. get_album (al_id a) (w_db w) = Some a"
  shows "\<exists>w'. fold (prune_one False) as (acc, w) = (prune_totals w (filter (prunable w) as) acc, w')
    \<and> prune_state w as (filter (prunable w) as) w'"
  using assms
proof (induction as arbitrary: w acc)
  case Nil
  then show ?case by (cases acc) (simp add: prune_state_def prune_totals_def cascade_album_none)
next
  case (Cons a as)
  obtain ids n b where acc: "acc = (ids, n, b)" by (cases acc)
  show ?case
  proof (cases "prunable w a")
    case False
    from prune_one_skip [OF False, of ids n b] obtain s where
      s: "prune_one False a ((ids, n, b), w) = ((ids, n, b), with_store w s)"
        "st_faulty s = st_faulty (w_store w)"
        "\<forall>k. st_objects s k = None \<or> st_objects s k = st_objects (w_store w) k"
        "\<forall>k. k \<notin> album_keys w a \<longrightarrow> st_objects s k = st_objects (w_store w) k" by blast
    have pr: "prunable (with_store w s) = prunable w" "prune_totals (with_store w s) = prune_totals w"
      by (intro ext; simp add: prunable_def prune_totals_def s(2))+
    have "\<exists>w'. fold (prune_one False) as (acc, with_store w s) =
          (prune_totals w (filter (prunable w) as) acc, w')
        \<and> prune_state (with_store w s) as (filter (prunable w) as) w'"
      using Cons.IH [of "with_store w s" acc] Cons.prems unfolding pr by simp
    then show ?thesis
      using prune_state_skip [OF _ s(2)] s(3,4) by (force simp: acc s(1) False)
  next
    case True
    have "get_album (al_id a) (w_db w) = Some a" using Cons.prems(3) by simp
    from prune_one_ok [OF True this, of ids n b] obtain w1 where
      w1: "prune_one False a ((ids, n, b), w) =
            ((ids @ [al_id a], n + int (length (album_items w a)), b + storage_bytes_for_media (album_items w a)), w1)"
        and first: "w_db w1 = cascade_album (\<lambda>r. al_id r = al_id a) (w_db w)" "w_audit w1 = w_audit w"
        "st_faulty (w_store w1) = st_faulty (w_store w)"
        "\<forall>k. st_objects (w_store w1) k = (if k \<in> album_keys w a then None else st_objects (w_store w) k)"
      by blast
    have other: "al_id c \<noteq> al_id a" if "c \<in> set as" for c
      using Cons.prems(2) that by (metis distinct.simps(2) image_eqI image_set list.simps(9))
    have same: "album_items w1 c = album_items w c" if "c \<in> set as" for c
      unfolding first(1) using other [OF that] by (intro list_album_media_cascade_other) auto
    have flt: "filter (prunable w1) as = filter (prunable w) as"
      by (rule filter_cong [OF refl]) (simp add: prunable_def same first(3))
    have tot: "prune_totals w1 (filter (prunable w) as) acc' = prune_totals w (filter (prunable w) as) acc'" for acc'
      unfolding prune_totals_def using same by (auto intro!: arg_cong [where f = sum_list] split: prod.splits)
    have "get_album (al_id c) (w_db w1) = Some c" if "c \<in> set as" for c
      unfolding first(1) using Cons.prems(1,3) other [OF that] that
      by (intro get_album_cascade_other) (simp_all add: db_wf_keys)
    moreover have "db_wf (w_db w1)" unfolding first(1) using Cons.prems(1) by (rule db_wf_cascade_album)
    ultimately obtain w' where w': "fold (prune_one False) as
          ((ids @ [al_id a], n + int (length (album_items w a)), b + storage_bytes_for_media (album_items w a)), w1) =
        (prune_totals w (a # filter (prunable w) as) (ids, n, b), w')"
      "prune_state w1 as (filter (prunable w) as) w'"
      using Cons.IH [of w1 "(ids @ [al_id a], n + int (length (album_items w a)), b + storage_bytes_for_media (album_items w a))"]
        Cons.prems(2) unfolding flt tot prune_totals_Cons by force
    have "prune_state w (a # as) (a # filter (prunable w) as) w'"
      using first same w'(2) by (intro prune_state_ok) auto
    with w' show ?thesis by (simp add: acc w1 True)
  qed
qed

lemma prune_fold_dry:
  "fold (prune_one True) as (acc, w) = (prune_totals w as acc, w)"
proof (induction as arbitrary: acc)
  case Nil
  show ?case by (cases acc) (simp add: prune_totals_def)
next
  case (Cons a as)
  show ?case by (cases acc) (simp add: prune_one_dry Cons.IH prune_totals_Cons)
qed

lemma expired_albums:
  assumes "db_wf d"
  shows "distinct (map al_id (list_expired_albums now d))"
    and "\<forall>a\<in>set (list_expired_albums now d). get_album (al_id a) d = Some a"
    and "set (list_expired_albums now d) = {a \<in> set (db_albums d). is_expired now (al_expires_at a)}"
proof -
  have k: "keys_distinct al_id (db_albums d)" using assms by (simp add: db_wf_keys)
  have "distinct (map al_id (filter P (db_albums d)))" for P
    using k unfolding keys_distinct_def by (rule distinct_map_filter)
  then show "distinct (map al_id (list_expired_albums now d))"
    unfolding list_expired_albums_def
    by (metis (no_types, lifting) distinct_map distinct_sort set_sort)
  show "\<forall>a\<in>set (list_expired_albums now d). get_album (al_id a) d = Some a"
    using k unfolding get_album_def list_expired_albums_def by (auto intro: find_row_unique)
  show "set (list_expired_albums now d) = {a \<in> set (db_albums d). is_expired now (al_expires_at a)}"
    by (simp add: list_expired_albums_def)
qed

abbreviation kept_capability :: "time \<Rightarrow> sharex_capability \<Rightarrow> bool" where
  "kept_capability now c \<equiv> now < sc_expires_at c
     \<and> \<not> is_expired (now - days 30) (sc_revoked_at c) \<and> \<not> is_expired (now - days 30) (sc_consumed_at c)"

lemma prune_capabilities_rows:
  "db_sharex (prune_capabilities now d) = filter (kept_capability now) (db_sharex d)"
  "db_albums (prune_capabilities now d) = db_albums d" "db_media (prune_capabilities now d) = db_media d"
  by (auto simp: prune_capabilities_def Let_def delete_expired_sharex_delete_capabilities_def
      delete_revoked_sharex_delete_capabilities_older_than_def
      delete_consumed_sharex_delete_capabilities_older_than_def delete_sharex_where_def delete_where_def
      sharex_revoked_retention_days_def sharex_consumed_retention_days_def intro!: filter_cong)

definition prune_report :: "time \<Rightarrow> int \<Rightarrow> bool \<Rightarrow> world \<Rightarrow> album list \<Rightarrow> prune_result" where
  "prune_report audit_now retention dry w gone =
     \<lparr>pr_dry_run = dry, pr_album_ids = map al_id gone,
      pr_item_count = sum_list (map (\<lambda>a. int (length (album_items w a))) gone),
      pr_bytes_freed = sum_list (map (\<lambda>a. storage_bytes_for_media (album_items w a)) gone),
      pr_audit_event_count = int (length (filter (\<lambda>t. t < audit_now - days retention) (w_audit w)))\<rparr>"

lemma prune_dry:
  "prune_expired_albums now an retention True w =
     (prune_report an retention True w (list_expired_albums now (w_db w)), w)"
  by (simp add: prune_expired_albums_def prune_fold_dry prune_totals_def prune_report_def Let_def)

lemma prune_live:
  assumes "db_wf (w_db w)"
    and expired_def: "expired = list_expired_albums now (w_db w)" and gone_def: "gone = filter (prunable w) expired"
  shows "\<exists>w1. prune_state w expired gone w1
    \<and> prune_expired_albums now an retention False w = (prune_report an retention False w gone,
         with_db (w1\<lparr>w_audit := filter (\<lambda>t. \<not> t < an - days retention) (w_audit w1)\<rparr>)
           (prune_capabilities now (w_db w1)))"
proof -
  obtain w1 where f: "fold (prune_one False) expired (([], 0, 0), w) = (prune_totals w gone ([], 0, 0), w1)"
    and st: "prune_state w expired gone w1"
    using prune_fold [OF assms(1) expired_albums(1,2) [OF assms(1)], where acc = "([], 0, 0)"]
    unfolding expired_def gone_def by blast
  have "w_audit w1 = w_audit w" using st by (simp add: prune_state_def)
  with f have "prune_expired_albums now an retention False w = (prune_report an retention False w gone,
         with_db (w1\<lparr>w_audit := filter (\<lambda>t. \<not> t < an - days retention) (w_audit w1)\<rparr>)
           (prune_capabilities now (w_db w1)))"
    by (simp add: prune_expired_albums_def expired_def prune_totals_def prune_report_def Let_def)
  with st show ?thesis by blast
qed

text \<open>C9: A dry run of the retention job changes nothing, and when no deletion in the store fails it
  announces exactly the albums, the number of items, the bytes and the audit rows that the real run
  then removes.\<close>

theorem prune_dry_run_predicts:
  assumes "db_wf (w_db w)"
    and "\<forall>a\<in>set (list_expired_albums now (w_db w)).
           \<forall>k\<in>set (storage_keys_for_media (list_album_media (al_id a) (w_db w))). \<not> st_faulty (w_store w) (SDelete k)"
  shows "fst (prune_expired_albums now an retention False w)
      = (fst (prune_expired_albums now an retention True w))\<lparr>pr_dry_run := False\<rparr>
    \<and> snd (prune_expired_albums now an retention True w) = w"
proof -
  have "filter (prunable w) (list_expired_albums now (w_db w)) = list_expired_albums now (w_db w)"
    using assms(2) by (intro filter_True) (simp add: prunable_def list_all_iff)
  with prune_live [OF assms(1) refl refl, of now an retention] show ?thesis
    by (auto simp: prune_dry prune_report_def)
qed

theorem prune_dry_run_predicts_witness:
  "pr_bytes_freed (fst (prune_expired_albums 6 6 0 True (sample_world []))) = 13
    \<and> pr_bytes_freed (fst (prune_expired_albums 6 6 0 False (sample_world []))) = 13"
proof -
  have "db_wf (w_db (sample_world []))" by (simp add: sample_db_wf)
  from prune_dry_run_predicts [OF this, of 6 6 0]
  have "fst (prune_expired_albums 6 6 0 False (sample_world []))
      = (fst (prune_expired_albums 6 6 0 True (sample_world [])))\<lparr>pr_dry_run := False\<rparr>" by simp
  moreover have "pr_bytes_freed (fst (prune_expired_albums 6 6 0 True (sample_world []))) = 13" by code_simp
  ultimately show ?thesis by simp
qed

lemma cascade_ids_rows:
  assumes "ids \<subseteq> al_id ` set (db_albums d)"
  shows "db_albums (cascade_album (\<lambda>r. al_id r \<in> ids) d) = filter (\<lambda>r. al_id r \<notin> ids) (db_albums d)"
    and "db_media (cascade_album (\<lambda>r. al_id r \<in> ids) d) = filter (\<lambda>m. md_album_id m \<notin> ids) (db_media d)"
    and "db_sharex (cascade_album (\<lambda>r. al_id r \<in> ids) d) = filter (\<lambda>c. sc_album_id c \<notin> ids) (db_sharex d)"
proof -
  have "x \<in> al_id ` {r \<in> set (db_albums d). al_id r \<in> ids} \<longleftrightarrow> x \<in> ids" for x using assms by auto
  then show "db_albums (cascade_album (\<lambda>r. al_id r \<in> ids) d) = filter (\<lambda>r. al_id r \<notin> ids) (db_albums d)"
    "db_media (cascade_album (\<lambda>r. al_id r \<in> ids) d) = filter (\<lambda>m. md_album_id m \<notin> ids) (db_media d)"
    "db_sharex (cascade_album (\<lambda>r. al_id r \<in> ids) d) = filter (\<lambda>c. sc_album_id c \<notin> ids) (db_sharex d)"
    unfolding cascade_album_def Let_def delete_where_def by simp_all
qed

text \<open>C10: The real run removes the rows of an album, with its media and delete capabilities, exactly if
  the album has expired and the store carries out the deletion of all its objects (an album one of
  whose objects resists is kept whole and retried by the next run); albums that have not expired keep
  their rows. It removes the objects of the removed albums, and no object that is not one of an expired
  album. It drops the capabilities past their expiry or their retention and the audit rows past theirs.\<close>

theorem prune_removes_exactly_the_expired:
  assumes "db_wf (w_db w)"
    and "prune_expired_albums now an retention False w = (r, w')"
  shows "(\<forall>a\<in>set (db_albums (w_db w)). al_id a \<in> set (pr_album_ids r) \<longleftrightarrow>
             is_expired now (al_expires_at a)
             \<and> (\<forall>k\<in>set (storage_keys_for_media (list_album_media (al_id a) (w_db w))). \<not> st_faulty (w_store w) (SDelete k)))
    \<and> db_albums (w_db w') = filter (\<lambda>a. al_id a \<notin> set (pr_album_ids r)) (db_albums (w_db w))
    \<and> db_media (w_db w') = filter (\<lambda>m. md_album_id m \<notin> set (pr_album_ids r)) (db_media (w_db w))
    \<and> db_sharex (w_db w') = filter (\<lambda>c. sc_album_id c \<notin> set (pr_album_ids r) \<and> now < sc_expires_at c
         \<and> \<not> is_expired (now - days 30) (sc_revoked_at c) \<and> \<not> is_expired (now - days 30) (sc_consumed_at c))
         (db_sharex (w_db w))
    \<and> (\<forall>a\<in>set (db_albums (w_db w)). al_id a \<in> set (pr_album_ids r) \<longrightarrow>
         (\<forall>k\<in>set (storage_keys_for_media (list_album_media (al_id a) (w_db w))). st_objects (w_store w') k = None))
    \<and> (\<forall>k. (\<forall>a\<in>set (db_albums (w_db w)). is_expired now (al_expires_at a) \<longrightarrow>
           k \<notin> set (storage_keys_for_media (list_album_media (al_id a) (w_db w))))
         \<longrightarrow> st_objects (w_store w') k = st_objects (w_store w) k)
    \<and> w_audit w' = filter (\<lambda>t. an - days retention \<le> t) (w_audit w)"
proof -
  define expired where "expired = list_expired_albums now (w_db w)"
  define gone where "gone = filter (prunable w) expired"
  from prune_live [OF assms(1) expired_def gone_def, of an retention] assms(2) obtain w1 where
    st: "prune_state w expired gone w1" and r: "r = prune_report an retention False w gone"
    and w': "w' = with_db (w1\<lparr>w_audit := filter (\<lambda>t. \<not> t < an - days retention) (w_audit w1)\<rparr>)
           (prune_capabilities now (w_db w1))"
    by (auto simp: expired_def gone_def)
  have ids: "set (pr_album_ids r) = al_id ` set gone" by (simp add: r prune_report_def)
  have gone: "set gone = {a \<in> set (db_albums (w_db w)). is_expired now (al_expires_at a) \<and> prunable w a}"
    by (auto simp: gone_def expired_def expired_albums(3) [OF assms(1)])
  have expd: "set expired = {a \<in> set (db_albums (w_db w)). is_expired now (al_expires_at a)}"
    by (simp add: expired_def expired_albums(3) [OF assms(1)])
  have inj: "inj_on al_id (set (db_albums (w_db w)))"
    using db_wf_keys(1) [OF assms(1)] by (simp add: keys_distinct_def distinct_map)
  have mem: "al_id a \<in> set (pr_album_ids r) \<longleftrightarrow> is_expired now (al_expires_at a) \<and> prunable w a"
    if "a \<in> set (db_albums (w_db w))" for a
    using that inj unfolding ids gone by (auto dest: inj_onD)
  have db1: "w_db w1 = cascade_album (\<lambda>r'. al_id r' \<in> set (pr_album_ids r)) (w_db w)"
    using st unfolding ids prune_state_def by blast
  have sub: "set (pr_album_ids r) \<subseteq> al_id ` set (db_albums (w_db w))" unfolding ids gone by auto
  have rows: "db_albums (w_db w') = filter (\<lambda>a. al_id a \<notin> set (pr_album_ids r)) (db_albums (w_db w))"
    "db_media (w_db w') = filter (\<lambda>m. md_album_id m \<notin> set (pr_album_ids r)) (db_media (w_db w))"
    "db_sharex (w_db w') = filter (\<lambda>c. sc_album_id c \<notin> set (pr_album_ids r) \<and> kept_capability now c) (db_sharex (w_db w))"
    by (simp_all only: w' world_sel prune_capabilities_rows db1 cascade_ids_rows [OF sub] filter_filter conj_ac)
  have objs: "st_objects (w_store w') = st_objects (w_store w1)" by (simp add: w')
  have none: "st_objects (w_store w') k = None" if "a \<in> set (db_albums (w_db w))" "al_id a \<in> set (pr_album_ids r)"
    "k \<in> album_keys w a" for a k
    using st that mem [OF that(1)] unfolding prune_state_def objs gone by blast
  have keep: "st_objects (w_store w') k = st_objects (w_store w) k" if "\<forall>a\<in>set expired. k \<notin> album_keys w a" for k
    using st that unfolding prune_state_def objs by blast
  have audit: "w_audit w' = filter (\<lambda>t. an - days retention \<le> t) (w_audit w)"
    using st by (simp add: w' prune_state_def not_less)
  show ?thesis
    using mem rows none keep audit unfolding expd prunable_def list_all_iff by blast
qed

theorem prune_removes_exactly_the_expired_witness:
  defines "r \<equiv> prune_expired_albums 6 6 0 False (sample_world [])"
  shows "map al_id (db_albums (w_db (snd r))) = [''a''] \<and> w_audit (snd r) = [9]
    \<and> st_objects (w_store (snd r)) ''k1'' = Some ''data''"
proof -
  have "db_wf (w_db (sample_world []))" by (simp add: sample_db_wf)
  note s = prune_removes_exactly_the_expired [OF this, of 6 6 0 "fst r" "snd r", unfolded prod.collapse,
      OF r_def [symmetric, THEN meta_eq_to_obj_eq]]
  have "pr_album_ids (fst r) = [''x'']" unfolding r_def by code_simp
  with s show ?thesis by (simp add: sample_defs storage_keys_for_media_def list_album_media_def empty_db_def days_def)
qed

end
