(* ===== verification/Storage_Props.thy ===== *)
theory Storage_Props
  imports Samples
begin

text \<open>
  What the byte ranges and the streaming reads of \<open>Storage\<close> guarantee.
\<close>

text \<open>C18: A ranged read sends exactly the requested bytes of the object, in non-empty chunks of at most the
  chunk size, and announces their number; the range is a non-empty part of the object, the status is
  206 with the matching \<^verbatim>\<open>Content-Range\<close>, and without a range header the whole object is sent with 200.\<close>

theorem stream_sends_requested_bytes:
  assumes "st_objects s key = Some data" "local_get_stream key h s = Inr st"
  shows "\<exists>br. normalize_byte_range h (int (length data)) = Inr br
    \<and> int (length (concat (ss_body st))) = ss_content_length st
    \<and> list_all (\<lambda>p. p \<noteq> [] \<and> length p \<le> chunk_size) (ss_body st)
    \<and> (case br of
         None \<Rightarrow> \<not> truthy h \<and> concat (ss_body st) = data \<and> ss_status_code st = 200 \<and> ss_content_range st = None
       | Some r \<Rightarrow> 0 \<le> br_start r \<and> br_start r \<le> br_end r \<and> br_end r < int (length data)
           \<and> concat (ss_body st) = take (nat (br_end r - br_start r + 1)) (drop (nat (br_start r)) data)
           \<and> ss_status_code st = 206
           \<and> ss_content_range st = Some (br_content_range_value r @ ''/'' @ show_int (int (length data))))"
proof -
  have get: "st_get_bytes key s = Inr data"
    using assms by (auto simp: local_get_stream_def st_get_bytes_def split: if_splits)
  with assms(2) obtain br where br: "normalize_byte_range h (int (length data)) = Inr br"
    by (auto simp: local_get_stream_def Let_def split: sum.splits)
  have c: "0 < chunk_size" by (simp add: chunk_size_def)
  note chunks = read_chunks_props [OF c]
  show ?thesis
  proof (cases br)
    case None
    with get br assms(2) have st: "ss_body st = read_chunks chunk_size data (length data)"
      "ss_content_length st = int (length data)" "ss_status_code st = 200" "ss_content_range st = None"
      by (auto simp: local_get_stream_def Let_def)
    have "\<not> truthy h" using br None normalize_None_iff by auto
    with None br st chunks [of data "length data"] show ?thesis by (simp add: list_all_iff)
  next
    case (Some r)
    from normalize_in_bounds [OF br [unfolded Some]]
    have b: "0 \<le> br_start r" "br_start r \<le> br_end r" "br_end r < int (length data)" by simp_all
    let ?n = "nat (br_end r - br_start r + 1)"
    from Some get br assms(2) b have st: "ss_body st = read_chunks chunk_size (drop (nat (br_start r)) data) ?n"
      "ss_content_length st = br_end r - br_start r + 1" "ss_status_code st = 206"
      "ss_content_range st = Some (br_content_range_value r @ ''/'' @ show_int (int (length data)))"
      by (auto simp: local_get_stream_def Let_def)
    have "?n \<le> length data - nat (br_start r)" using b by linarith
    then have "int (length (take ?n (drop (nat (br_start r)) data))) = br_end r - br_start r + 1"
      using b by simp
    with Some br st b chunks [of "drop (nat (br_start r)) data" ?n] show ?thesis by (simp add: list_all_iff)
  qed
qed

theorem stream_sends_requested_bytes_witness:
  "concat (ss_body (projr (local_get_stream ''k1'' (Some ''bytes=1-2'') (sample_store [])))) = ''at''"
proof -
  let ?r = "local_get_stream ''k1'' (Some ''bytes=1-2'') (sample_store [])"
  have "normalize_byte_range (Some ''bytes=1-2'') 4 = Inr (Some \<lparr>br_start = 1, br_end = 2\<rparr>)" by code_simp
  moreover have "st_objects (sample_store []) ''k1'' = Some ''data''" by (simp add: sample_store_def)
  moreover from calculation have "?r = Inr (projr ?r)"
    by (simp add: local_get_stream_def st_get_bytes_def Let_def)
  ultimately show ?thesis
    using stream_sends_requested_bytes [of "sample_store []" "''k1''" "''data''" "Some ''bytes=1-2''" "projr ?r"] by auto
qed

text \<open>The \<^verbatim>\<open>Range\<close> header a byte range prints itself as parses back to that range, for every range within
  an object of any size that a 64-bit count can hold (the S3 backend passes the header it prints on).\<close>

theorem range_header_round_trip:
  assumes "0 \<le> br_start r" "br_start r \<le> br_end r" "br_end r < sz" "in_int8 sz"
  shows "normalize_byte_range (Some (br_header_value r)) sz = Inr (Some r)"
  using normalize_header_value [OF assms] by (cases r) simp

theorem range_header_round_trip_witness:
  "normalize_byte_range (Some (br_header_value \<lparr>br_start = 3, br_end = 7\<rparr>)) 10 = Inr (Some \<lparr>br_start = 3, br_end = 7\<rparr>)"
  by (rule range_header_round_trip) (simp_all add: in_int8_def)

text \<open>A range whose position is a superscript digit, which \<^verbatim>\<open>str.isdigit\<close> accepts and \<open>int\<close> does not, is not
  answered with the error for invalid ranges but ends in a bare \<^verbatim>\<open>ValueError\<close>, for every object that is
  not empty; a request can carry it, since headers are decoded as Latin-1.\<close>

theorem superscript_range_raises:
  assumes "0 < sz" "c \<in> {char_of (178 :: nat), char_of (179 :: nat), char_of (185 :: nat)}"
  shows "normalize_byte_range (Some (''bytes='' @ [c] @ ''-'')) sz = Inl BareValueError
    \<and> normalize_byte_range (Some (''bytes=-'' @ [c])) sz = Inl BareValueError"
proof -
  have "list_all (\<lambda>c. \<not> py_isspace c \<and> c \<noteq> CHR '','' \<and> c \<noteq> CHR ''-'' \<and> is_digit_char c \<and> \<not> is_decimal c)
      [char_of (178 :: nat), char_of (179 :: nat), char_of (185 :: nat)]" by code_simp
  with assms(2) have c: "\<not> py_isspace c" "c \<noteq> CHR '',''" "c \<noteq> CHR ''-''" "is_digit_char c" "\<not> is_decimal c"
    unfolding list_all_iff by auto
  have "\<not> py_isspace (CHR ''-'')" by code_simp
  with c assms(1) show ?thesis
    by (simp add: normalize_byte_range_def starts_with_def Let_def py_strip_def lstrip_on_def rstrip_on_def
        parse_position_def py_isdigit_def py_int_of_digits_def)
qed

theorem superscript_range_raises_witness:
  "normalize_byte_range (Some (''bytes='' @ [char_of (178 :: nat)] @ ''-'')) 5 = Inl BareValueError"
  using superscript_range_raises [of 5 "char_of (178 :: nat)"] by simp

end
