(* ===== verification/Json.thy ===== *)
theory Json
  imports Prelude "HOL-Library.List_Lexorder" "HOL-Library.Char_ord"
begin

text \<open>
  The parts of Python's standard library that the configuration store and the signed tokens use: \<open>int(str)\<close>,
  \<^verbatim>\<open>json.loads\<close> and \<^verbatim>\<open>json.dumps\<close>. Of a parsed value only what the program looks at is kept: null, booleans,
  integers, strings and objects with their value; floats, arrays and strings outside the Latin-1 range are
  \<open>JOther\<close> with their source text.
  The scanner is given fuel; every recursive call of it consumes a character or ends a container, so
  \<open>3 * length s + 3\<close> is more than it can use.
\<close>

section \<open>Integers from text\<close>

text \<open>Digits with single underscores between them, as \<open>int\<close> accepts after stripping and the sign.\<close>

fun digit_groups :: "string \<Rightarrow> string option" where
  "digit_groups [] = None"
| "digit_groups [c] = (if is_decimal c then Some [c] else None)"
| "digit_groups (c # d # rest) =
     (if \<not> is_decimal c then None
      else if d = CHR ''_'' then map_option (Cons c) (digit_groups rest)
      else map_option (Cons c) (digit_groups (d # rest)))"

definition py_int :: "string \<Rightarrow> int option" where
  "py_int text =
     (let s = py_strip text;
          (sign, body) = (case s of
             c # rest \<Rightarrow> if c = CHR ''-'' then (-1, rest) else if c = CHR ''+'' then (1, rest) else (1, s)
           | [] \<Rightarrow> (1, s))
      in case digit_groups body of
           None \<Rightarrow> None
         | Some ds \<Rightarrow> map_option (\<lambda>n. sign * n) (py_int_of_digits ds))"

section \<open>JSON\<close>

datatype json = JNull | JBool bool | JInt int | JString string | JObject "(string option \<times> json) list" | JOther string

definition json_ws :: "char \<Rightarrow> bool" where
  "json_ws c = (c \<in> {CHR '' '', CHR 0x09, CHR 0x0A, CHR 0x0D})"

definition skip_ws :: "string \<Rightarrow> string" where
  "skip_ws s = dropWhile json_ws s"

definition is_hex :: "char \<Rightarrow> bool" where
  "is_hex c = (let n = (of_char c :: nat) in
     (48 \<le> n \<and> n \<le> 57) \<or> (65 \<le> n \<and> n \<le> 70) \<or> (97 \<le> n \<and> n \<le> 102))"

text \<open>What a string denotes: its text, or \<open>None\<close> if some code point is outside the Latin-1 range.\<close>

definition unescape :: "char \<Rightarrow> char option" where
  "unescape e = map_of [(CHR 0x22, CHR 0x22), (CHR 0x5C, CHR 0x5C), (CHR ''/'', CHR ''/''), (CHR ''b'', CHR 0x08),
     (CHR ''f'', CHR 0x0C), (CHR ''n'', CHR 0x0A), (CHR ''r'', CHR 0x0D), (CHR ''t'', CHR 0x09)] e"

definition hex_value :: "char \<Rightarrow> nat" where
  "hex_value c = (let n = of_char c in if n \<le> 57 then n - 48 else if n \<le> 70 then n - 55 else n - 87)"

definition hex_char :: "string \<Rightarrow> char option" where
  "hex_char ds = (let n = foldl (\<lambda>a d. 16 * a + hex_value d) 0 ds in if n < 256 then Some (char_of n) else None)"

definition scan_cons :: "char option \<Rightarrow> (string option \<times> string) option \<Rightarrow> (string option \<times> string) option" where
  "scan_cons d x = map_option (\<lambda>(t, r). (case d of Some c \<Rightarrow> map_option (Cons c) t | None \<Rightarrow> None, r)) x"

fun scan_string :: "string \<Rightarrow> (string option \<times> string) option" where
  "scan_string [] = None"
| "scan_string (c # rest) =
     (if c = CHR 0x22 then Some (Some [], rest)
      else if c = CHR 0x5C then
        (case rest of
           [] \<Rightarrow> None
         | e # rest' \<Rightarrow>
             (case unescape e of
                Some d \<Rightarrow> scan_cons (Some d) (scan_string rest')
              | None \<Rightarrow>
                  if e = CHR ''u'' \<and> 4 \<le> length rest' \<and> list_all is_hex (take 4 rest')
                  then scan_cons (hex_char (take 4 rest')) (scan_string (drop 4 rest')) else None))
      else if (of_char c :: nat) < 32 then None
      else scan_cons (Some c) (scan_string rest))"

text \<open>The regular expression \<^verbatim>\<open>(-?(?:0|[1-9][0-9]*))(\.[0-9]+)?([eE][-+]?[0-9]+)?\<close>.\<close>

definition scan_fraction :: "string \<Rightarrow> bool \<times> string" where
  "scan_fraction s = (case s of
     c # rest \<Rightarrow> if c = CHR ''.'' \<and> takeWhile is_decimal rest \<noteq> [] then (True, dropWhile is_decimal rest) else (False, s)
   | [] \<Rightarrow> (False, s))"

definition scan_exponent :: "string \<Rightarrow> bool \<times> string" where
  "scan_exponent s = (case s of
     c # rest \<Rightarrow>
       let rest' = (case rest of d # r \<Rightarrow> if d = CHR ''+'' \<or> d = CHR ''-'' then r else rest | [] \<Rightarrow> rest) in
       if (c = CHR ''e'' \<or> c = CHR ''E'') \<and> takeWhile is_decimal rest' \<noteq> [] then (True, dropWhile is_decimal rest')
       else (False, s)
   | [] \<Rightarrow> (False, s))"

definition scan_digits :: "string \<Rightarrow> (string \<times> string) option" where
  "scan_digits s = (case s of
     [] \<Rightarrow> None
   | c # rest \<Rightarrow> if c = CHR ''0'' then Some ([c], rest)
                 else if is_decimal c then Some (takeWhile is_decimal s, dropWhile is_decimal s)
                 else None)"

text \<open>
  The outcomes: a \<^verbatim>\<open>JSONDecodeError\<close>, the \<^verbatim>\<open>ValueError\<close> of an integer with more than 4300 digits,
  or the value and the rest of the text.
\<close>

datatype 'a scanned = BadJson | HugeInt | Scanned 'a string

definition scan_number :: "string \<Rightarrow> json scanned" where
  "scan_number s =
     (let (neg, body) = (case s of c # rest \<Rightarrow> if c = CHR ''-'' then (True, rest) else (False, s) | [] \<Rightarrow> (False, s)) in
      case scan_digits body of
        None \<Rightarrow> BadJson
      | Some (ds, rest) \<Rightarrow>
          (let (frac, rest1) = scan_fraction rest; (expo, rest2) = scan_exponent rest1 in
           if frac \<or> expo then Scanned (JOther (take (length s - length rest2) s)) rest2
           else (case py_int_of_digits ds of
              None \<Rightarrow> HugeInt
            | Some n \<Rightarrow> Scanned (JInt (if neg then - n else n)) rest2)))"

definition json_text :: "string \<Rightarrow> string \<Rightarrow> string option \<Rightarrow> json" where
  "json_text s r t = (case t of Some x \<Rightarrow> JString x | None \<Rightarrow> JOther (take (length s - length r) s))"

fun scan_value :: "nat \<Rightarrow> string \<Rightarrow> json scanned"
and scan_elements :: "nat \<Rightarrow> string \<Rightarrow> unit scanned"
and scan_members :: "nat \<Rightarrow> string \<Rightarrow> (string option \<times> json) list scanned" where
  "scan_value 0 s = BadJson"
| "scan_value (Suc n) s =
     (if starts_with ''null'' s then Scanned JNull (drop 4 s)
      else if starts_with ''true'' s then Scanned (JBool True) (drop 4 s)
      else if starts_with ''false'' s then Scanned (JBool False) (drop 5 s)
      else if starts_with ''NaN'' s then Scanned (JOther ''NaN'') (drop 3 s)
      else if starts_with ''Infinity'' s then Scanned (JOther ''Infinity'') (drop 8 s)
      else if starts_with ''-Infinity'' s then Scanned (JOther ''-Infinity'') (drop 9 s)
      else (case s of
        [] \<Rightarrow> BadJson
      | c # rest \<Rightarrow>
          if c = CHR 0x22 then (case scan_string rest of None \<Rightarrow> BadJson | Some (t, r) \<Rightarrow> Scanned (json_text s r t) r)
          else if c = CHR ''['' then
            (case skip_ws rest of
               [] \<Rightarrow> BadJson
             | d # r \<Rightarrow>
                 if d = CHR '']'' then Scanned (JOther (take (length s - length r) s)) r
                 else (case scan_elements n (d # r) of
                    BadJson \<Rightarrow> BadJson | HugeInt \<Rightarrow> HugeInt
                  | Scanned _ r' \<Rightarrow> Scanned (JOther (take (length s - length r') s)) r'))
          else if c = CHR ''{'' then
            (case skip_ws rest of
               [] \<Rightarrow> BadJson
             | d # r \<Rightarrow>
                 if d = CHR ''}'' then Scanned (JObject []) r
                 else (case scan_members n (d # r) of
                    BadJson \<Rightarrow> BadJson | HugeInt \<Rightarrow> HugeInt | Scanned ms r' \<Rightarrow> Scanned (JObject ms) r'))
          else scan_number s))"
| "scan_elements 0 s = BadJson"
| "scan_elements (Suc n) s =
     (case scan_value n s of
        BadJson \<Rightarrow> BadJson | HugeInt \<Rightarrow> HugeInt
      | Scanned _ r \<Rightarrow>
          (case skip_ws r of
             [] \<Rightarrow> BadJson
           | d # r' \<Rightarrow> if d = CHR '']'' then Scanned () r'
                       else if d = CHR '','' then scan_elements n (skip_ws r') else BadJson))"
| "scan_members 0 s = BadJson"
| "scan_members (Suc n) s =
     (case s of
        [] \<Rightarrow> BadJson
      | q # rest \<Rightarrow>
          if q \<noteq> CHR 0x22 then BadJson
          else (case scan_string rest of
            None \<Rightarrow> BadJson
          | Some (k, r) \<Rightarrow>
              (case skip_ws r of
                 [] \<Rightarrow> BadJson
               | d # r' \<Rightarrow>
                   if d \<noteq> CHR '':'' then BadJson
                   else (case scan_value n (skip_ws r') of
                      BadJson \<Rightarrow> BadJson | HugeInt \<Rightarrow> HugeInt
                    | Scanned v r2 \<Rightarrow>
                        (case skip_ws r2 of
                           [] \<Rightarrow> BadJson
                         | e # r3 \<Rightarrow>
                             if e = CHR ''}'' then Scanned [(k, v)] r3
                             else if e = CHR '','' then
                               (case scan_members n (skip_ws r3) of
                                  BadJson \<Rightarrow> BadJson | HugeInt \<Rightarrow> HugeInt | Scanned ms r4 \<Rightarrow> Scanned ((k, v) # ms) r4)
                             else BadJson)))))"

definition json_loads :: "string \<Rightarrow> unit scanned + json" where
  "json_loads s =
     (case scan_value (3 * length s + 3) (skip_ws s) of
        BadJson \<Rightarrow> Inl BadJson
      | HugeInt \<Rightarrow> Inl HugeInt
      | Scanned v r \<Rightarrow> if skip_ws r = [] then Inr v else Inl BadJson)"

text \<open>\<^verbatim>\<open>json.dumps\<close> of a boolean and of an integer; \<^verbatim>\<open>str\<close> of an integer of more than 4300 digits raises.\<close>

definition json_dumps_bool :: "bool \<Rightarrow> string" where
  "json_dumps_bool b = (if b then ''true'' else ''false'')"

definition json_dumps_int :: "int \<Rightarrow> err + string" where
  "json_dumps_int n =
     (if 4300 < length (show_nat (nat \<bar>n\<bar>)) then Inl (ValueError ''Exceeds the limit for integer string conversion'')
      else Inr (show_int n))"

section \<open>What is written is read back\<close>

lemma loads_dumps_bool: "json_loads (json_dumps_bool b) = Inr (JBool b)"
  unfolding json_dumps_bool_def by (cases b) (simp_all add: json_loads_def starts_with_def skip_ws_def json_ws_def eval_nat_numeral)

lemma scan_value_number:
  assumes "c \<notin> {CHR ''n'', CHR ''t'', CHR ''f'', CHR ''N'', CHR ''I'', CHR ''-'', CHR 0x22, CHR ''['', CHR ''{''}"
  shows "scan_value (Suc n) (c # rest) = scan_number (c # rest)"
  using assms unfolding scan_value.simps by (simp add: starts_with_def)

lemma show_nat_hd_zero: "0 < n \<Longrightarrow> hd (show_nat n) \<noteq> CHR ''0''"
proof (induction n rule: show_nat.induct)
  case (1 n)
  show ?case
  proof (cases "n < 10")
    case True
    have "(of_char (char_of (48 + n) :: char) :: nat) = 48 + n" using True by simp
    moreover have "(of_char CHR ''0'' :: nat) = 48" by simp
    ultimately have "char_of (48 + n) \<noteq> CHR ''0''" using "1.prems" by (metis add_left_cancel add.right_neutral less_irrefl)
    then show ?thesis using True by (subst show_nat.simps) simp
  next
    case False
    then have "hd (show_nat (n div 10)) \<noteq> CHR ''0''" by (intro 1) auto
    with False show ?thesis by (subst show_nat.simps) simp
  qed
qed

lemma decimal_not: "is_decimal c \<Longrightarrow> c \<notin> {CHR ''n'', CHR ''t'', CHR ''f'', CHR ''N'', CHR ''I'', CHR ''-'', CHR 0x22, CHR ''['', CHR ''{'', CHR '' '', CHR 0x09, CHR 0x0A, CHR 0x0D}"
  by (auto simp: is_decimal_def)

lemma scan_digits_show_nat: "scan_digits (show_nat n) = Some (show_nat n, [])"
proof (cases "n = 0")
  case True
  moreover have "scan_digits (show_nat 0) = Some (show_nat 0, [])" by code_simp
  ultimately show ?thesis by simp
next
  case False
  obtain c rest where cr: "show_nat n = c # rest" by (cases "show_nat n") auto
  have dec: "\<forall>x\<in>set (show_nat n). is_decimal x" using show_nat_decimal by blast
  then have "takeWhile is_decimal (show_nat n) = show_nat n" "dropWhile is_decimal (show_nat n) = []"
    by (simp_all add: takeWhile_eq_all_conv)
  moreover have "c \<noteq> CHR ''0''" using show_nat_hd_zero [of n] False cr by simp
  ultimately show ?thesis using dec by (simp add: scan_digits_def cr)
qed

lemma loads_dumps_int:
  assumes "0 \<le> n" "json_dumps_int n = Inr s"
  shows "json_loads s = Inr (JInt n)"
proof -
  let ?s = "show_nat (nat n)"
  from assms have s: "s = ?s" and len: "length ?s \<le> 4300"
    by (auto simp: json_dumps_int_def show_int_def split: if_splits)
  obtain c rest where cr: "?s = c # rest" by (cases ?s) auto
  have dec: "list_all is_decimal ?s" using show_nat_decimal by (auto simp: list_all_iff)
  then have c: "is_decimal c" by (simp add: cr)
  have "py_int_of_digits ?s = Some n" using dec len assms(1) by (simp add: py_int_of_digits_def)
  then have num: "scan_number ?s = Scanned (JInt n) []"
    using decimal_not [OF c] scan_digits_show_nat [of "nat n"]
    by (simp add: scan_number_def cr scan_fraction_def scan_exponent_def)
  have "skip_ws ?s = ?s" using decimal_not [OF c] by (simp add: cr skip_ws_def json_ws_def)
  moreover have "scan_value (3 * length ?s + 3) ?s = Scanned (JInt n) []"
    using decimal_not [OF c] num scan_value_number [of c "3 * length ?s + 2" rest] by (simp add: cr)
  ultimately show ?thesis by (simp add: s json_loads_def skip_ws_def)
qed


section \<open>Objects\<close>

text \<open>\<^verbatim>\<open>data.get(key)\<close> of a parsed object: the last of the members with that name.\<close>

definition obj_get :: "(string option \<times> json) list \<Rightarrow> string \<Rightarrow> json option" where
  "obj_get ms k = map_of (rev ms) (Some k)"

text \<open>
  \<^verbatim>\<open>json.dumps\<close> of a dictionary from strings to strings or \<^verbatim>\<open>None\<close>. Characters outside the printable ASCII
  range are escaped; \<open>isp\<close> and \<open>ksp\<close> are the blanks after a comma and a colon, none with the compact separators.
\<close>

definition hex_digit :: "nat \<Rightarrow> char" where
  "hex_digit n = (if n < 10 then char_of (48 + n) else char_of (87 + n))"

definition json_escape :: "char \<Rightarrow> string" where
  "json_escape c = (let n = of_char c in
     if c = CHR 0x22 then [CHR 0x5C, CHR 0x22] else if c = CHR 0x5C then [CHR 0x5C, CHR 0x5C]
     else if c = CHR 0x0A then [CHR 0x5C, CHR ''n''] else if c = CHR 0x0D then [CHR 0x5C, CHR ''r'']
     else if c = CHR 0x09 then [CHR 0x5C, CHR ''t''] else if c = CHR 0x0C then [CHR 0x5C, CHR ''f'']
     else if c = CHR 0x08 then [CHR 0x5C, CHR ''b'']
     else if 32 \<le> n \<and> n \<le> 126 then [c]
     else [CHR 0x5C, CHR ''u'', CHR ''0'', CHR ''0'', hex_digit (n div 16), hex_digit (n mod 16)])"

definition json_dumps_str :: "string \<Rightarrow> string" where
  "json_dumps_str s = CHR 0x22 # concat (map json_escape s) @ [CHR 0x22]"

definition json_dumps_opt :: "string option \<Rightarrow> string" where
  "json_dumps_opt v = (case v of Some s \<Rightarrow> json_dumps_str s | None \<Rightarrow> ''null'')"

fun json_fields :: "string \<Rightarrow> string \<Rightarrow> (string \<times> string option) list \<Rightarrow> string" where
  "json_fields isp ksp [] = []"
| "json_fields isp ksp [(k, v)] = json_dumps_str k @ CHR '':'' # ksp @ json_dumps_opt v"
| "json_fields isp ksp ((k, v) # m # ms) =
     json_dumps_str k @ CHR '':'' # ksp @ json_dumps_opt v @ CHR '','' # isp @ json_fields isp ksp (m # ms)"

definition json_dumps_object :: "string \<Rightarrow> string \<Rightarrow> (string \<times> string option) list \<Rightarrow> string" where
  "json_dumps_object isp ksp ms = CHR ''{'' # json_fields isp ksp ms @ [CHR ''}'']"


lemma hex_digit_value: "n < 16 \<Longrightarrow> hex_value (hex_digit n) = n \<and> is_hex (hex_digit n)"
  by (simp add: hex_digit_def hex_value_def is_hex_def)

lemma hex_escape: "hex_char [CHR ''0'', CHR ''0'', hex_digit (of_char c div 16), hex_digit (of_char c mod 16)] = Some c"
proof -
  have c: "(of_char c :: nat) < 256" by simp
  have z: "hex_value CHR ''0'' = 0" by (simp add: hex_value_def)
  have "hex_value (hex_digit (of_char c div 16)) = of_char c div 16" "hex_value (hex_digit (of_char c mod 16)) = of_char c mod 16"
    using hex_digit_value [of "of_char c div 16"] hex_digit_value [of "of_char c mod 16"] c by (simp_all add: less_mult_imp_div_less)
  then show ?thesis by (simp add: hex_char_def z mult.commute)
qed

lemma scan_string_escape: "scan_string (json_escape c @ t) = scan_cons (Some c) (scan_string t)"
proof -
  have hex: "is_hex (hex_digit (of_char c div 16))" "is_hex (hex_digit (of_char c mod 16))"
    using hex_digit_value [of "of_char c div 16"] hex_digit_value [of "of_char c mod 16"] by (simp_all add: less_mult_imp_div_less)
  have z: "is_hex CHR ''0''" by (simp add: is_hex_def)
  show ?thesis
  proof (cases "c \<in> {CHR 0x22, CHR 0x5C, CHR 0x0A, CHR 0x0D, CHR 0x09, CHR 0x0C, CHR 0x08}")
    case True
    then show ?thesis by (elim insertE emptyE) (simp_all add: json_escape_def unescape_def)
  next
    case short: False
    show ?thesis
    proof (cases "32 \<le> (of_char c :: nat) \<and> (of_char c :: nat) \<le> 126")
      case True
      with short show ?thesis by (simp add: json_escape_def)
    next
      case False
      with short have "json_escape c = [CHR 0x5C, CHR ''u'', CHR ''0'', CHR ''0'', hex_digit (of_char c div 16), hex_digit (of_char c mod 16)]"
        unfolding json_escape_def Let_def by simp
      then show ?thesis using hex z by (simp add: unescape_def hex_escape)
    qed
  qed
qed

lemma scan_string_escaped: "scan_string (concat (map json_escape s) @ CHR 0x22 # r) = Some (Some s, r)"
  by (induction s) (simp_all add: scan_string_escape scan_cons_def)

lemma scan_dumps_str: "scan_value (Suc n) (json_dumps_str s @ r) = Scanned (JString s) r"
  by (simp add: json_dumps_str_def starts_with_def scan_string_escaped json_text_def)

lemma scan_dumps_opt:
  "scan_value (Suc n) (json_dumps_opt v @ r) = Scanned (case v of Some s \<Rightarrow> JString s | None \<Rightarrow> JNull) r"
  by (cases v) (simp_all add: json_dumps_opt_def scan_dumps_str del: scan_value.simps, simp add: starts_with_def)

lemma skip_ws_colon [simp]: "skip_ws (CHR '':'' # s) = CHR '':'' # s" "skip_ws (CHR '','' # s) = CHR '','' # s" "skip_ws (CHR ''}'' # s) = CHR ''}'' # s"
  by (simp_all add: skip_ws_def json_ws_def)

lemma skip_ws_quote: "list_all json_ws sp \<Longrightarrow> skip_ws (sp @ json_dumps_str s @ r) = json_dumps_str s @ r"
  by (induction sp) (simp_all add: skip_ws_def json_dumps_str_def json_ws_def)

lemma skip_ws_opt: "list_all json_ws sp \<Longrightarrow> skip_ws (sp @ json_dumps_opt v @ r) = json_dumps_opt v @ r"
proof (cases v)
  case None
  then show "list_all json_ws sp \<Longrightarrow> ?thesis"
    by (induction sp) (simp_all add: skip_ws_def json_dumps_opt_def json_ws_def)
qed (simp add: json_dumps_opt_def skip_ws_quote)

definition parsed_fields :: "(string \<times> string option) list \<Rightarrow> (string option \<times> json) list" where
  "parsed_fields ms = map (\<lambda>(k, v). (Some k, case v of Some s \<Rightarrow> JString s | None \<Rightarrow> JNull)) ms"

lemma scan_member:
  assumes "list_all json_ws ksp" "d = CHR ''}'' \<or> d = CHR '',''"
  shows "scan_members (Suc (Suc n)) (json_dumps_str k @ CHR '':'' # ksp @ json_dumps_opt v @ d # r) =
    (let f = (Some k, case v of Some s \<Rightarrow> JString s | None \<Rightarrow> JNull) in
     if d = CHR ''}'' then Scanned [f] r
     else (case scan_members (Suc n) (skip_ws r) of
        BadJson \<Rightarrow> BadJson | HugeInt \<Rightarrow> HugeInt | Scanned ms r' \<Rightarrow> Scanned (f # ms) r'))"
proof -
  have d: "skip_ws (d # r) = d # r" using assms(2) by auto
  have q: "json_dumps_str k @ CHR '':'' # ksp @ json_dumps_opt v @ d # r
      = CHR 0x22 # concat (map json_escape k) @ CHR 0x22 # CHR '':'' # ksp @ json_dumps_opt v @ d # r"
    by (simp add: json_dumps_str_def)
  show ?thesis
    unfolding q scan_members.simps(2) [of "Suc n"] list.case scan_string_escaped option.case prod.case
      skip_ws_colon skip_ws_opt [OF assms(1)] scan_dumps_opt scanned.case d Let_def
    using assms(2) by (auto simp del: scan_members.simps)
qed

lemma scan_members_dumps:
  assumes "list_all json_ws isp" "list_all json_ws ksp" "ms \<noteq> []" "length ms < n"
  shows "scan_members n (json_fields isp ksp ms @ CHR ''}'' # r) = Scanned (parsed_fields ms) r"
  using assms
proof (induction isp ksp ms arbitrary: n rule: json_fields.induct)
  case (2 isp ksp k v)
  have "n = Suc (Suc (n - 2))" using 2(4) by simp
  then obtain m where n: "n = Suc (Suc m)" by blast
  from scan_member [OF 2(2), of "CHR ''}''" m k v r] show ?case
    unfolding n by (simp add: parsed_fields_def del: scan_members.simps)
next
  case (3 isp ksp k v m ms)
  have "n = Suc (Suc (n - 2))" using 3(5) by simp
  then obtain l where n: "n = Suc (Suc l)" by blast
  let ?t = "json_fields isp ksp (m # ms) @ CHR ''}'' # r"
  obtain k' v' where m: "m = (k', v')" by (cases m)
  have t: "skip_ws (isp @ ?t) = ?t"
    using skip_ws_quote [OF 3(2), of k'] m by (cases ms) simp_all
  have "scan_members (Suc l) ?t = Scanned (parsed_fields (m # ms)) r"
    using 3(1) [OF 3(2,3), of "Suc l"] 3(5) n by simp
  with scan_member [OF 3(3), of "CHR '',''" l k v "isp @ ?t"] t show ?case
    unfolding n by (simp add: parsed_fields_def del: scan_members.simps)
qed simp

text \<open>Reading back an object that was written.\<close>

lemma length_json_fields: "length ms \<le> length (json_fields isp ksp ms)"
  by (induction isp ksp ms rule: json_fields.induct) (auto simp: json_dumps_str_def)

lemma loads_dumps_object:
  assumes "list_all json_ws isp" "list_all json_ws ksp" "ms \<noteq> []"
  shows "json_loads (json_dumps_object isp ksp ms) = Inr (JObject (parsed_fields ms))"
proof -
  let ?s = "json_dumps_object isp ksp ms" and ?b = "json_fields isp ksp ms @ [CHR ''}'']"
  obtain k v ms' where ms: "ms = (k, v) # ms'" using assms(3) by (metis list.exhaust prod.exhaust)
  obtain t where q: "?b = CHR 0x22 # t" by (cases ms') (auto simp: ms json_dumps_str_def)
  have b: "skip_ws ?b = ?b" by (simp add: q skip_ws_def json_ws_def)
  have "length ms < 3 * length ?s + 2" using length_json_fields [of ms isp ksp] by (simp add: json_dumps_object_def)
  from scan_members_dumps [OF assms this, of "[]"] have m: "scan_members (3 * length ?s + 2) ?b = Scanned (parsed_fields ms) []" .
  have "scan_value (Suc (3 * length ?s + 2)) (CHR ''{'' # ?b) = Scanned (JObject (parsed_fields ms)) []"
    unfolding scan_value.simps list.case b
    using m [unfolded q] by (simp add: q starts_with_def del: scan_members.simps)
  then show ?thesis
    by (simp add: json_loads_def json_dumps_object_def skip_ws_def json_ws_def del: scan_value.simps)
qed

lemma map_of_rev: "distinct (map fst xs) \<Longrightarrow> map_of (rev xs) k = map_of xs k"
  by (metis distinct_rev map_of_eq_Some_iff not_Some_eq rev_map set_rev)

lemma obj_get_parsed:
  assumes "distinct (map fst ms)"
  shows "obj_get (parsed_fields ms) k = map_option (\<lambda>v. case v of Some s \<Rightarrow> JString s | None \<Rightarrow> JNull) (map_of ms k)"
proof -
  let ?j = "\<lambda>v :: string option. case v of Some s \<Rightarrow> JString s | None \<Rightarrow> JNull"
  have fst: "map fst (parsed_fields ms) = map (\<lambda>m. Some (fst m)) ms" by (auto simp: parsed_fields_def)
  have "distinct (map fst (parsed_fields ms))"
    unfolding fst using assms by (simp add: distinct_map inj_on_def)
  then have "obj_get (parsed_fields ms) k = map_of (parsed_fields ms) (Some k)"
    by (simp add: obj_get_def map_of_rev)
  also have "\<dots> = map_option ?j (map_of ms k)" by (induction ms) (auto simp: parsed_fields_def)
  finally show ?thesis .
qed

end
