(* ===== verification/Runtime_Config.thy ===== *)
theory Runtime_Config
  imports Json Models "HOL-Library.List_Lexorder" "HOL-Library.Char_ord"
begin

text \<open>
  \<^verbatim>\<open>src/imghost/runtime_config.py\<close>: the settings an administrator may change while the server runs.
  The environment is a function from names to values, the table \<^verbatim>\<open>config\<close> the list of its rows.
  A value is a boolean or an integer (\<open>cvalue\<close>), as its specification says.
\<close>

section \<open>Specifications\<close>

type_synonym environment = "string \<Rightarrow> string option"

type_synonym cvalue = config_scalar
datatype value_type = BoolType | IntType

text \<open>The default providers: a constant, \<^verbatim>\<open>_env_bool_default(name, default)\<close>, \<open>int(os.getenv(name, text))\<close>,
  and the same with a lower bound.\<close>

datatype default_provider =
    DConst cvalue | DEnvBool string bool | DEnvInt string string | DEnvIntMin int string string

record runtime_config_spec =
  sp_key :: string
  sp_value_type :: value_type
  sp_default :: default_provider
  sp_lock_env :: string

definition env_bool_default :: "environment \<Rightarrow> string \<Rightarrow> bool \<Rightarrow> err + bool" where
  "env_bool_default env name dflt =
     (case env name of
        None \<Rightarrow> Inr dflt
      | Some raw \<Rightarrow>
          let v = py_lower (py_strip raw) in
          if v \<in> {''1'', ''true'', ''yes'', ''on''} then Inr True
          else if v \<in> {''0'', ''false'', ''no'', ''off''} then Inr False
          else Inl (ValueError (name @ '' must be a boolean-like value.'')))"

definition env_int :: "environment \<Rightarrow> string \<Rightarrow> string \<Rightarrow> err + int" where
  "env_int env name text =
     (case py_int (case env name of Some raw \<Rightarrow> raw | None \<Rightarrow> text) of
        None \<Rightarrow> Inl (ValueError ''invalid literal for int() with base 10'')
      | Some n \<Rightarrow> Inr n)"

fun spec_default :: "environment \<Rightarrow> default_provider \<Rightarrow> err + cvalue" where
  "spec_default env (DConst v) = Inr v"
| "spec_default env (DEnvBool name b) = and_then (env_bool_default env name b) (\<lambda>b. Inr (CBool b))"
| "spec_default env (DEnvInt name text) = and_then (env_int env name text) (\<lambda>n. Inr (CInt n))"
| "spec_default env (DEnvIntMin lo name text) = and_then (env_int env name text) (\<lambda>n. Inr (CInt (max lo n)))"

definition runtime_config_specs :: "runtime_config_spec list" where
  "runtime_config_specs = [
     \<lparr>sp_key = ''allow_registration'', sp_value_type = BoolType, sp_default = DEnvBool ''ALLOW_REGISTRATION'' True,
       sp_lock_env = ''LOCK_ALLOW_REGISTRATION''\<rparr>,
     \<lparr>sp_key = ''anon_upload_enabled'', sp_value_type = BoolType, sp_default = DConst (CBool True),
       sp_lock_env = ''LOCK_ANON_UPLOAD''\<rparr>,
     \<lparr>sp_key = ''anon_expiry_hours'', sp_value_type = IntType, sp_default = DEnvInt ''ANON_EXPIRY_HOURS'' ''24'',
       sp_lock_env = ''LOCK_ANON_EXPIRY''\<rparr>,
     \<lparr>sp_key = ''max_upload_bytes'', sp_value_type = IntType, sp_default = DEnvInt ''MAX_UPLOAD_BYTES'' ''52428800'',
       sp_lock_env = ''LOCK_MAX_UPLOAD_BYTES''\<rparr>,
     \<lparr>sp_key = ''video_thumb_frames'', sp_value_type = IntType, sp_default = DEnvIntMin 1 ''VIDEO_THUMB_FRAMES'' ''15'',
       sp_lock_env = ''LOCK_VIDEO_THUMB_FRAMES''\<rparr>,
     \<lparr>sp_key = ''default_user_quota_bytes'', sp_value_type = IntType, sp_default = DEnvInt ''DEFAULT_USER_QUOTA_BYTES'' ''2147483648'',
       sp_lock_env = ''LOCK_DEFAULT_USER_QUOTA_BYTES''\<rparr>,
     \<lparr>sp_key = ''server_quota_bytes'', sp_value_type = IntType, sp_default = DEnvInt ''SERVER_QUOTA_BYTES'' ''0'',
       sp_lock_env = ''LOCK_SERVER_QUOTA_BYTES''\<rparr>,
     \<lparr>sp_key = ''rate_limit_anon_rpm'', sp_value_type = IntType, sp_default = DConst (CInt 5),
       sp_lock_env = ''LOCK_RATE_LIMITS''\<rparr>,
     \<lparr>sp_key = ''rate_limit_anon_bph'', sp_value_type = IntType, sp_default = DConst (CInt 104857600),
       sp_lock_env = ''LOCK_RATE_LIMITS''\<rparr>,
     \<lparr>sp_key = ''rate_limit_global_anon_rpm'', sp_value_type = IntType, sp_default = DConst (CInt 50),
       sp_lock_env = ''LOCK_RATE_LIMITS''\<rparr>,
     \<lparr>sp_key = ''rate_limit_global_anon_bph'', sp_value_type = IntType, sp_default = DConst (CInt 1073741824),
       sp_lock_env = ''LOCK_RATE_LIMITS''\<rparr>,
     \<lparr>sp_key = ''rate_limit_user_rpm'', sp_value_type = IntType, sp_default = DConst (CInt 30),
       sp_lock_env = ''LOCK_RATE_LIMITS''\<rparr>,
     \<lparr>sp_key = ''rate_limit_user_bph'', sp_value_type = IntType, sp_default = DConst (CInt 524288000),
       sp_lock_env = ''LOCK_RATE_LIMITS''\<rparr>,
     \<lparr>sp_key = ''auth_rate_limit_login_ip_rpm'', sp_value_type = IntType, sp_default = DConst (CInt 10),
       sp_lock_env = ''LOCK_RATE_LIMITS''\<rparr>,
     \<lparr>sp_key = ''auth_rate_limit_login_account_failures'', sp_value_type = IntType, sp_default = DConst (CInt 5),
       sp_lock_env = ''LOCK_RATE_LIMITS''\<rparr>,
     \<lparr>sp_key = ''auth_rate_limit_login_account_window_seconds'', sp_value_type = IntType, sp_default = DConst (CInt 900),
       sp_lock_env = ''LOCK_RATE_LIMITS''\<rparr>,
     \<lparr>sp_key = ''auth_rate_limit_login_lock_seconds'', sp_value_type = IntType, sp_default = DConst (CInt 300),
       sp_lock_env = ''LOCK_RATE_LIMITS''\<rparr>,
     \<lparr>sp_key = ''auth_rate_limit_registration_ip_rpm'', sp_value_type = IntType, sp_default = DConst (CInt 5),
       sp_lock_env = ''LOCK_RATE_LIMITS''\<rparr>,
     \<lparr>sp_key = ''auth_rate_limit_api_key_ip_failures'', sp_value_type = IntType, sp_default = DConst (CInt 20),
       sp_lock_env = ''LOCK_RATE_LIMITS''\<rparr>,
     \<lparr>sp_key = ''auth_rate_limit_api_key_ip_window_seconds'', sp_value_type = IntType, sp_default = DConst (CInt 600),
       sp_lock_env = ''LOCK_RATE_LIMITS''\<rparr>,
     \<lparr>sp_key = ''auth_rate_limit_api_key_lock_seconds'', sp_value_type = IntType, sp_default = DConst (CInt 300),
       sp_lock_env = ''LOCK_RATE_LIMITS''\<rparr>,
     \<lparr>sp_key = ''auth_rate_limit_admin_ip_failures'', sp_value_type = IntType, sp_default = DConst (CInt 10),
       sp_lock_env = ''LOCK_RATE_LIMITS''\<rparr>,
     \<lparr>sp_key = ''auth_rate_limit_admin_ip_window_seconds'', sp_value_type = IntType, sp_default = DConst (CInt 600),
       sp_lock_env = ''LOCK_RATE_LIMITS''\<rparr>,
     \<lparr>sp_key = ''auth_rate_limit_admin_lock_seconds'', sp_value_type = IntType, sp_default = DConst (CInt 300),
       sp_lock_env = ''LOCK_RATE_LIMITS''\<rparr>]"

definition find_spec :: "string \<Rightarrow> runtime_config_spec option" where
  "find_spec key = find_row sp_key key runtime_config_specs"

section \<open>Resolving a value\<close>

record runtime_config_value =
  rv_key :: string
  rv_value :: cvalue
  rv_default :: cvalue
  rv_locked :: bool
  rv_source :: string
  rv_stored_value :: "cvalue option"
  rv_updated_at :: "time option"

record config_row =
  cr_key :: string
  cr_value :: "string option"
  cr_updated_at :: time

definition is_locked :: "environment \<Rightarrow> runtime_config_spec \<Rightarrow> bool" where
  "is_locked env spec =
     (py_lower (py_strip (case env (sp_lock_env spec) of Some raw \<Rightarrow> raw | None \<Rightarrow> ''false'')) = ''true'')"

definition coerce_value :: "runtime_config_spec \<Rightarrow> json \<Rightarrow> err + cvalue" where
  "coerce_value spec raw =
     (case sp_value_type spec of
        BoolType \<Rightarrow>
          (case raw of JBool b \<Rightarrow> Inr (CBool b)
           | _ \<Rightarrow> Inl (HTTPException 400 (sp_key spec @ '' must be a boolean.'')))
      | IntType \<Rightarrow>
          (case raw of
             JInt n \<Rightarrow> if n < 0 then Inl (HTTPException 400 (sp_key spec @ '' must be non-negative.''))
                      else Inr (CInt n)
           | _ \<Rightarrow> Inl (HTTPException 400 (sp_key spec @ '' must be an integer.''))))"

definition decode_stored_value :: "runtime_config_spec \<Rightarrow> string option \<Rightarrow> err + cvalue option" where
  "decode_stored_value spec raw =
     (case raw of
        None \<Rightarrow> Inr None
      | Some text \<Rightarrow>
          (case json_loads text of
             Inl HugeInt \<Rightarrow> Inl (ValueError ''Exceeds the limit for integer string conversion'')
           | Inl _ \<Rightarrow> Inl (HTTPException 500 (''Invalid stored config value for '' @ sp_key spec @ ''.''))
           | Inr parsed \<Rightarrow> and_then (coerce_value spec parsed) (\<lambda>v. Inr (Some v))))"

definition resolve_value ::
  "environment \<Rightarrow> runtime_config_spec \<Rightarrow> string option \<Rightarrow> time option \<Rightarrow> err + runtime_config_value" where
  "resolve_value env spec stored updated_at =
     and_then (spec_default env (sp_default spec)) (\<lambda>dflt.
     and_then (decode_stored_value spec stored) (\<lambda>decoded.
       if is_locked env spec then
         Inr \<lparr>rv_key = sp_key spec, rv_value = dflt, rv_default = dflt, rv_locked = True,
              rv_source = ''locked'', rv_stored_value = decoded, rv_updated_at = updated_at\<rparr>
       else (case decoded of
         None \<Rightarrow>
           Inr \<lparr>rv_key = sp_key spec, rv_value = dflt, rv_default = dflt, rv_locked = False,
                rv_source = ''default'', rv_stored_value = None, rv_updated_at = updated_at\<rparr>
       | Some v \<Rightarrow>
           Inr \<lparr>rv_key = sp_key spec, rv_value = v, rv_default = dflt, rv_locked = False,
                rv_source = ''runtime'', rv_stored_value = Some v, rv_updated_at = updated_at\<rparr>)))"

definition resolve_row :: "environment \<Rightarrow> config_row list \<Rightarrow> runtime_config_spec \<Rightarrow> err + runtime_config_value" where
  "resolve_row env rows spec =
     (case find_row cr_key (sp_key spec) rows of
        Some r \<Rightarrow> resolve_value env spec (cr_value r) (Some (cr_updated_at r))
      | None \<Rightarrow> resolve_value env spec None None)"

text \<open>The dictionary comprehension: the first exception escapes.\<close>

fun resolve_all ::
  "environment \<Rightarrow> config_row list \<Rightarrow> runtime_config_spec list \<Rightarrow> err + (string \<times> runtime_config_value) list" where
  "resolve_all env rows [] = Inr []"
| "resolve_all env rows (spec # specs) =
     and_then (resolve_row env rows spec) (\<lambda>v.
     and_then (resolve_all env rows specs) (\<lambda>rest. Inr ((sp_key spec, v) # rest)))"

definition list_effective :: "environment \<Rightarrow> config_row list \<Rightarrow> err + (string \<times> runtime_config_value) list" where
  "list_effective env rows = resolve_all env rows runtime_config_specs"

definition get_value :: "environment \<Rightarrow> config_row list \<Rightarrow> string \<Rightarrow> err + cvalue" where
  "get_value env rows key =
     (if find_spec key = None then Inl (KeyError key)
      else and_then (list_effective env rows) (\<lambda>state.
        case map_of state key of Some v \<Rightarrow> Inr (rv_value v) | None \<Rightarrow> Inl (KeyError key)))"

text \<open>\<open>int(...)\<close> and \<open>bool(...)\<close> of a configuration value.\<close>

fun as_int :: "cvalue \<Rightarrow> int" where
  "as_int (CInt n) = n"
| "as_int (CBool b) = (if b then 1 else 0)"

fun as_bool :: "cvalue \<Rightarrow> bool" where
  "as_bool (CBool b) = b"
| "as_bool (CInt n) = (n \<noteq> 0)"

definition config_int :: "environment \<Rightarrow> config_row list \<Rightarrow> string \<Rightarrow> err + int" where
  "config_int env rows key = and_then (get_value env rows key) (\<lambda>v. Inr (as_int v))"

section \<open>Updating\<close>

fun json_dumps :: "cvalue \<Rightarrow> err + string" where
  "json_dumps (CBool b) = Inr (json_dumps_bool b)"
| "json_dumps (CInt n) = json_dumps_int n"

text \<open>\<^verbatim>\<open>INSERT ... ON CONFLICT (key) DO UPDATE\<close>, with the trigger that stamps \<^verbatim>\<open>updated_at\<close>.\<close>

definition upsert_config :: "time \<Rightarrow> string \<Rightarrow> string \<Rightarrow> config_row list \<Rightarrow> config_row list" where
  "upsert_config now key text rows =
     (if find_row cr_key key rows = None
        then rows @ [\<lparr>cr_key = key, cr_value = Some text, cr_updated_at = now\<rparr>]
      else update_where (\<lambda>r. cr_key r = key) (\<lambda>r. r\<lparr>cr_value := Some text, cr_updated_at := now\<rparr>) rows)"

record config_change =
  ch_key :: string
  ch_old_value :: cvalue
  ch_new_value :: cvalue

fun apply_updates ::
  "environment \<Rightarrow> time \<Rightarrow> (string \<times> runtime_config_value) list \<Rightarrow> (string \<times> json) list \<Rightarrow> config_row list
     \<Rightarrow> err + (config_change list \<times> config_row list)" where
  "apply_updates env now effective [] rows = Inr ([], rows)"
| "apply_updates env now effective ((key, raw) # updates) rows =
     (case (find_spec key, map_of effective key) of
        (Some spec, Some current) \<Rightarrow>
          if is_locked env spec
            then Inl (HTTPException 403 (key @ '' is locked by environment configuration.''))
          else and_then (coerce_value spec raw) (\<lambda>v.
            if rv_value current = v \<and> rv_source current = ''runtime''
              then apply_updates env now effective updates rows
            else and_then (json_dumps v) (\<lambda>text.
              and_then (apply_updates env now effective updates (upsert_config now key text rows)) (\<lambda>(changes, rows').
                Inr (\<lparr>ch_key = key, ch_old_value = rv_value current, ch_new_value = v\<rparr> # changes, rows'))))
      | _ \<Rightarrow> Inl (KeyError key))"

fun join_with :: "string \<Rightarrow> string list \<Rightarrow> string" where
  "join_with sep [] = []"
| "join_with sep [x] = x"
| "join_with sep (x # y # ys) = x @ sep @ join_with sep (y # ys)"

text \<open>\<^verbatim>\<open>update_values\<close>: the transaction returns the changes and the new rows, or undoes everything.\<close>

definition update_values ::
  "environment \<Rightarrow> time \<Rightarrow> (string \<times> json) list \<Rightarrow> config_row list \<Rightarrow> (err + config_change list) \<times> config_row list" where
  "update_values env now updates rows =
     (let unknown = filter (\<lambda>k. find_spec k = None) (map fst updates) in
      if updates = [] then (Inl (HTTPException 400 ''At least one config value is required.''), rows)
      else if unknown \<noteq> []
        then (Inl (HTTPException 400 (''Unknown config key(s): '' @ join_with '', '' (sort unknown) @ ''.'')), rows)
      else (case and_then (list_effective env rows) (\<lambda>effective. apply_updates env now effective updates rows) of
         Inl e \<Rightarrow> (Inl e, rows)
       | Inr (changes, rows') \<Rightarrow> (Inr changes, rows')))"

end
