(* ===== verification/Config_Props.thy ===== *)
theory Config_Props
  imports Runtime_Config
begin

text \<open>
  What the configuration store promises: an update is read back as given and touches nothing else, a
  setting locked by the environment keeps its default, and one unreadable row blocks every setting.
\<close>

section \<open>Resolving\<close>

lemma specs_distinct: "distinct (map sp_key runtime_config_specs)"
  by code_simp

lemma find_spec_mem: "spec \<in> set runtime_config_specs \<Longrightarrow> find_spec (sp_key spec) = Some spec"
  unfolding find_spec_def using specs_distinct by (intro find_row_unique) (simp_all add: keys_distinct_def)

lemma find_specD: "find_spec key = Some spec \<Longrightarrow> spec \<in> set runtime_config_specs \<and> sp_key spec = key"
  unfolding find_spec_def by (rule find_row_SomeD)

lemma resolve_all_lookup:
  assumes "resolve_all env rows specs = Inr state" "distinct (map sp_key specs)" "spec \<in> set specs"
  shows "\<exists>v. resolve_row env rows spec = Inr v \<and> map_of state (sp_key spec) = Some v"
  using assms
proof (induction specs arbitrary: state)
  case (Cons s specs)
  then obtain v rest where s: "resolve_row env rows s = Inr v" "resolve_all env rows specs = Inr rest"
    "state = (sp_key s, v) # rest" by auto
  show ?case
  proof (cases "spec = s")
    case True
    then show ?thesis by (simp add: s)
  next
    case False
    with Cons.prems have m: "spec \<in> set specs" by auto
    moreover from m Cons.prems(2) have "sp_key spec \<noteq> sp_key s" by (metis distinct.simps(2) image_eqI list.set_map list.simps(9))
    ultimately have m: "spec \<in> set specs" "sp_key spec \<noteq> sp_key s" by auto
    from Cons.IH [OF s(2) _ m(1)] Cons.prems(2) show ?thesis by (simp add: s m)
  qed
qed simp

lemma resolve_all_ok: "is_ok (resolve_all env rows specs) \<longleftrightarrow> (\<forall>s\<in>set specs. is_ok (resolve_row env rows s))"
proof (induction specs)
  case (Cons s specs)
  then show ?case
    by (cases "resolve_row env rows s"; cases "resolve_all env rows specs") auto
qed simp

lemma get_value_Inr:
  assumes "find_spec key = Some spec"
  shows "get_value env rows key = Inr x \<longleftrightarrow>
    (\<forall>s\<in>set runtime_config_specs. is_ok (resolve_row env rows s))
    \<and> (\<exists>v. resolve_row env rows spec = Inr v \<and> rv_value v = x)"
proof (cases "list_effective env rows")
  case (Inl e)
  then have "\<not> (\<forall>s\<in>set runtime_config_specs. is_ok (resolve_row env rows s))"
    unfolding resolve_all_ok [symmetric] by (simp add: list_effective_def)
  with Inl assms show ?thesis by (simp add: get_value_def)
next
  case (Inr state)
  then have "\<forall>s\<in>set runtime_config_specs. is_ok (resolve_row env rows s)"
    unfolding resolve_all_ok [symmetric] by (simp add: list_effective_def)
  moreover from find_specD [OF assms] resolve_all_lookup [OF Inr [unfolded list_effective_def] specs_distinct]
  obtain v where "resolve_row env rows spec = Inr v" "map_of state key = Some v" by blast
  ultimately show ?thesis using Inr assms by (simp add: get_value_def)
qed

lemma locked_value:
  assumes "resolve_row env rows spec = Inr v" "is_locked env spec"
  shows "spec_default env (sp_default spec) = Inr (rv_value v)"
  using assms by (auto simp: resolve_row_def resolve_value_def split: option.splits)

section \<open>Updating\<close>

lemma coerce_Inr:
  "coerce_value spec raw = Inr v \<longleftrightarrow>
     (sp_value_type spec = BoolType \<and> (\<exists>b. raw = JBool b \<and> v = CBool b))
     \<or> (sp_value_type spec = IntType \<and> (\<exists>n\<ge>0. raw = JInt n \<and> v = CInt n))"
  by (cases "sp_value_type spec"; cases raw) (auto simp: coerce_value_def)

lemma coerce_dumps:
  assumes "coerce_value spec raw = Inr v" "json_dumps v = Inr text"
  shows "decode_stored_value spec (Some text) = Inr (Some v)"
proof (cases v)
  case (CBool b)
  with assms have "sp_value_type spec = BoolType" "text = json_dumps_bool b" by (simp_all add: coerce_Inr)
  with CBool show ?thesis
    by (simp add: decode_stored_value_def loads_dumps_bool coerce_Inr)
next
  case (CInt n)
  with assms have "0 \<le> n" "sp_value_type spec = IntType" "json_dumps_int n = Inr text" by (auto simp: coerce_Inr)
  with CInt show ?thesis
    by (simp add: decode_stored_value_def loads_dumps_int [of n] coerce_Inr)
qed

lemma find_upsert:
  "find_row cr_key k (upsert_config now key text rows) =
     (if k = key then (case find_row cr_key key rows of
          None \<Rightarrow> Some \<lparr>cr_key = key, cr_value = Some text, cr_updated_at = now\<rparr>
        | Some r \<Rightarrow> Some (r\<lparr>cr_value := Some text, cr_updated_at := now\<rparr>))
      else find_row cr_key k rows)"
proof (cases "find_row cr_key key rows")
  case None
  then show ?thesis
    by (simp add: upsert_config_def find_row_append find_row_Cons split: option.split)
next
  case (Some r)
  have "find_row cr_key k (upsert_config now key text rows) =
      map_option (\<lambda>r. if cr_key r = key then r\<lparr>cr_value := Some text, cr_updated_at := now\<rparr> else r) (find_row cr_key k rows)"
    using Some by (simp add: upsert_config_def find_row_update_where)
  with Some show ?thesis
    by (cases "find_row cr_key k rows") (auto dest: find_row_SomeD)
qed

lemma resolve_row_cong:
  "find_row cr_key (sp_key spec) rows = find_row cr_key (sp_key spec) rows' \<Longrightarrow>
     resolve_row env rows spec = resolve_row env rows' spec"
  by (simp add: resolve_row_def)

text \<open>One iteration of the loop.\<close>

lemma apply_updates_step:
  assumes "apply_updates env now eff ((key, raw) # ups) rows = Inr (chs, rows')"
  obtains (same) spec cur v where "find_spec key = Some spec" "map_of eff key = Some cur" "\<not> is_locked env spec"
      "coerce_value spec raw = Inr v" "rv_value cur = v" "rv_source cur = ''runtime''"
      "apply_updates env now eff ups rows = Inr (chs, rows')"
  | (upd) spec cur v body chs' where "find_spec key = Some spec" "map_of eff key = Some cur" "\<not> is_locked env spec"
      "coerce_value spec raw = Inr v" "json_dumps v = Inr body"
      "apply_updates env now eff ups (upsert_config now key body rows) = Inr (chs', rows')"
      "chs = \<lparr>ch_key = key, ch_old_value = rv_value cur, ch_new_value = v\<rparr> # chs'"
proof -
  from assms obtain spec cur v where s: "find_spec key = Some spec" "map_of eff key = Some cur"
      "\<not> is_locked env spec" "coerce_value spec raw = Inr v"
    by (auto split: option.splits if_splits)
  show ?thesis
  proof (cases "rv_value cur = v \<and> rv_source cur = ''runtime''")
    case True
    with assms s have "apply_updates env now eff ups rows = Inr (chs, rows')" by simp
    with same s True show ?thesis by blast
  next
    case False
    with assms s obtain body chs' where "json_dumps v = Inr body"
      "apply_updates env now eff ups (upsert_config now key body rows) = Inr (chs', rows')"
      "chs = \<lparr>ch_key = key, ch_old_value = rv_value cur, ch_new_value = v\<rparr> # chs'" by auto
    with upd s show ?thesis by blast
  qed
qed

text \<open>The loop leaves the rows of other keys alone, and each updated key resolves to its new value.\<close>

lemma apply_updates_other:
  assumes "apply_updates env now eff ups rows = Inr (chs, rows')" "k \<notin> fst ` set ups"
  shows "find_row cr_key k rows' = find_row cr_key k rows"
  using assms
proof (induction ups arbitrary: chs rows)
  case (Cons u ups)
  obtain key raw where u: "u = (key, raw)" by (cases u)
  from Cons.prems(2) have k: "k \<noteq> key" "k \<notin> fst ` set ups" by (auto simp: u)
  from Cons.prems(1) [unfolded u] show ?case
  proof (cases rule: apply_updates_step)
    case (same spec cur v)
    from Cons.IH [OF same(7) k(2)] show ?thesis .
  next
    case (upd spec cur v body chs')
    from Cons.IH [OF upd(6) k(2)] k(1) show ?thesis by (simp add: find_upsert)
  qed
qed simp

lemma apply_updates_given:
  assumes "apply_updates env now eff ups rows = Inr (chs, rows')" "distinct (map fst ups)"
    "(k, raw) \<in> set ups" "find_spec k = Some spec" "resolve_row env rows spec = Inr cur" "map_of eff k = Some cur"
  shows "\<exists>v v'. coerce_value spec raw = Inr v \<and> \<not> is_locked env spec
    \<and> resolve_row env rows' spec = Inr v' \<and> rv_value v' = v"
  using assms
proof (induction ups arbitrary: chs rows)
  case (Cons u ups)
  obtain key raw1 where u: "u = (key, raw1)" by (cases u)
  have key: "sp_key spec = k" using find_specD [OF Cons.prems(4)] by simp
  have def: "\<exists>dv. spec_default env (sp_default spec) = Inr dv"
    using Cons.prems(5) by (auto simp: resolve_row_def resolve_value_def split: option.splits)
  show ?case
  proof (cases "k = key")
    case True
    with Cons.prems have raw: "raw1 = raw" "k \<notin> fst ` set ups" by (force simp: u)+
    from Cons.prems(1) [unfolded u] show ?thesis
    proof (cases rule: apply_updates_step)
      case (same spec' cur' v)
      with Cons.prems(4,6) True have eq: "spec' = spec" "cur' = cur" by simp_all
      from apply_updates_other [OF same(7) raw(2)] have "resolve_row env rows' spec = Inr cur"
        using Cons.prems(5) resolve_row_cong key by metis
      with same raw eq show ?thesis by blast
    next
      case (upd spec' cur' v body chs')
      with Cons.prems(4) True have eq: "spec' = spec" by simp
      have "\<exists>r. find_row cr_key (sp_key spec) rows' = Some r \<and> cr_value r = Some body"
        using apply_updates_other [OF upd(6) raw(2)] by (simp add: find_upsert key True split: option.split)
      with def upd eq raw coerce_dumps [OF upd(4,5)] show ?thesis
        by (auto simp: resolve_row_def resolve_value_def)
    qed
  next
    case False
    with Cons.prems(2,3) have m: "(k, raw) \<in> set ups" "distinct (map fst ups)" by (auto simp: u)
    from Cons.prems(1) [unfolded u] show ?thesis
    proof (cases rule: apply_updates_step)
      case (same spec' cur' v)
      from Cons.IH [OF same(7) m(2,1) Cons.prems(4-6)] show ?thesis .
    next
      case (upd spec' cur' v body chs')
      have "resolve_row env (upsert_config now key body rows) spec = Inr cur"
        using Cons.prems(5) False resolve_row_cong [of spec "upsert_config now key body rows" rows]
        by (simp add: find_upsert key)
      from Cons.IH [OF upd(6) m(2,1) Cons.prems(4) this Cons.prems(6)] show ?thesis .
    qed
  qed
qed simp

lemma apply_updates_changes:
  assumes "apply_updates env now eff ups rows = Inr (chs, rows')" "c \<in> set chs"
  shows "\<exists>raw spec cur. (ch_key c, raw) \<in> set ups \<and> find_spec (ch_key c) = Some spec
    \<and> map_of eff (ch_key c) = Some cur \<and> ch_old_value c = rv_value cur \<and> coerce_value spec raw = Inr (ch_new_value c)"
  using assms
proof (induction ups arbitrary: chs rows)
  case (Cons u ups)
  obtain key raw where u: "u = (key, raw)" by (cases u)
  from Cons.prems(1) [unfolded u] show ?case
  proof (cases rule: apply_updates_step)
    case (same spec cur v)
    from Cons.IH [OF same(7) Cons.prems(2)] show ?thesis by auto
  next
    case (upd spec cur v body chs')
    with Cons.prems(2) consider "c \<in> set chs'" | "c = \<lparr>ch_key = key, ch_old_value = rv_value cur, ch_new_value = v\<rparr>"
      by auto
    then show ?thesis
    proof cases
      case 1
      from Cons.IH [OF upd(6) 1] show ?thesis by auto
    next
      case 2
      with upd show ?thesis by (auto simp: u)
    qed
  qed
qed simp

section \<open>The promises\<close>

lemma update_values_done:
  assumes "update_values env now ups rows = (Inr chs, rows')"
  obtains eff where "list_effective env rows = Inr eff" "apply_updates env now eff ups rows = Inr (chs, rows')"
    "\<forall>k\<in>fst ` set ups. find_spec k \<noteq> None"
proof -
  have "filter (\<lambda>k. find_spec k = None) (map fst ups) = []"
    using assms by (cases "filter (\<lambda>k. find_spec k = None) (map fst ups)") (auto simp: update_values_def Let_def split: if_splits)
  then have "\<forall>k\<in>fst ` set ups. find_spec k \<noteq> None" by (auto simp: filter_empty_conv)
  with assms that show ?thesis
    by (cases "list_effective env rows"; cases "and_then (list_effective env rows) (\<lambda>eff. apply_updates env now eff ups rows)")
      (auto simp: update_values_def Let_def split: if_splits)
qed

lemma effective_rows_ok: "list_effective env rows = Inr eff \<Longrightarrow> \<forall>s\<in>set runtime_config_specs. is_ok (resolve_row env rows s)"
  unfolding resolve_all_ok [symmetric] by (simp add: list_effective_def)

lemma update_rows:
  assumes "update_values env now ups rows = (Inr chs, rows')" "distinct (map fst ups)" "spec \<in> set runtime_config_specs"
  shows "case map_of ups (sp_key spec) of
      Some raw \<Rightarrow> \<exists>v v'. coerce_value spec raw = Inr v \<and> resolve_row env rows' spec = Inr v' \<and> rv_value v' = v
    | None \<Rightarrow> resolve_row env rows' spec = resolve_row env rows spec"
proof -
  from assms(1) obtain eff where e: "list_effective env rows = Inr eff" "apply_updates env now eff ups rows = Inr (chs, rows')"
    by (rule update_values_done)
  show ?thesis
  proof (cases "map_of ups (sp_key spec)")
    case None
    then have "sp_key spec \<notin> fst ` set ups" by (simp add: map_of_eq_None_iff)
    from resolve_row_cong [OF apply_updates_other [OF e(2) this]] None show ?thesis by simp
  next
    case (Some raw)
    from resolve_all_lookup [OF e(1) [unfolded list_effective_def] specs_distinct assms(3)]
    obtain cur where "resolve_row env rows spec = Inr cur" "map_of eff (sp_key spec) = Some cur" by blast
    from apply_updates_given [OF e(2) assms(2) map_of_SomeD [OF Some] find_spec_mem [OF assms(3)] this] Some
    show ?thesis by auto
  qed
qed

text \<open>C12: After a successful update every updated setting reads back as exactly the value given (the
  round trip through the stored text loses nothing), every other setting reads as before, and each
  reported change names the value that was in effect before and the one that is now.\<close>

theorem config_update_reads_back:
  assumes "update_values env now ups rows = (Inr changes, rows')" "distinct (map fst ups)"
  shows "(\<forall>spec\<in>set runtime_config_specs. get_value env rows' (sp_key spec) =
      (case map_of ups (sp_key spec) of Some raw \<Rightarrow> coerce_value spec raw | None \<Rightarrow> get_value env rows (sp_key spec)))
    \<and> (\<forall>c\<in>set changes. get_value env rows (ch_key c) = Inr (ch_old_value c)
         \<and> get_value env rows' (ch_key c) = Inr (ch_new_value c))"
proof -
  from assms(1) obtain eff where e: "list_effective env rows = Inr eff" "apply_updates env now eff ups rows = Inr (changes, rows')"
    by (rule update_values_done)
  note before = effective_rows_ok [OF e(1)]
  have after: "is_ok (resolve_row env rows' s)" if "s \<in> set runtime_config_specs" for s
    using update_rows [OF assms that] before that by (auto split: option.splits)
  have known: "get_value env r (sp_key s) = Inr (rv_value v)"
    if "s \<in> set runtime_config_specs" "resolve_row env r s = Inr v" "\<forall>s\<in>set runtime_config_specs. is_ok (resolve_row env r s)" for r s v
    using that get_value_Inr [OF find_spec_mem [OF that(1)]] by blast
  have reads: "get_value env rows' (sp_key spec) =
      (case map_of ups (sp_key spec) of Some raw \<Rightarrow> coerce_value spec raw | None \<Rightarrow> get_value env rows (sp_key spec))"
    if m: "spec \<in> set runtime_config_specs" for spec
  proof (cases "map_of ups (sp_key spec)")
    case None
    with update_rows [OF assms m] have eq: "resolve_row env rows' spec = resolve_row env rows spec" by simp
    from before m obtain v where "resolve_row env rows spec = Inr v" by (auto simp: is_ok_iff)
    with known [OF m, of rows v] known [OF m, of rows' v] before after eq None show ?thesis by auto
  next
    case (Some raw)
    with update_rows [OF assms m] obtain v v' where
      "coerce_value spec raw = Inr v" "resolve_row env rows' spec = Inr v'" "rv_value v' = v" by auto
    with known [OF m, of rows' v'] after Some show ?thesis by auto
  qed
  moreover have "get_value env rows (ch_key c) = Inr (ch_old_value c) \<and> get_value env rows' (ch_key c) = Inr (ch_new_value c)"
    if c: "c \<in> set changes" for c
  proof -
    from apply_updates_changes [OF e(2) c] obtain raw spec cur where
      x: "(ch_key c, raw) \<in> set ups" "find_spec (ch_key c) = Some spec" "map_of eff (ch_key c) = Some cur"
        "ch_old_value c = rv_value cur" "coerce_value spec raw = Inr (ch_new_value c)" by blast
    from find_specD [OF x(2)] have m: "spec \<in> set runtime_config_specs" and k: "sp_key spec = ch_key c" by simp_all
    from resolve_all_lookup [OF e(1) [unfolded list_effective_def] specs_distinct m] x(3) k
    have "resolve_row env rows spec = Inr cur" by auto
    from known [OF m this before] k x(4) have "get_value env rows (ch_key c) = Inr (ch_old_value c)" by simp
    moreover have "map_of ups (ch_key c) = Some raw" using x(1) assms(2) by simp
    ultimately show ?thesis using reads [OF m] x(5) k by simp
  qed
  ultimately show ?thesis by blast
qed

theorem config_update_reads_back_witness:
  "get_value (\<lambda>_. None) (snd (update_values (\<lambda>_. None) 9 [(''rate_limit_anon_rpm'', JInt 7)] [])) ''rate_limit_anon_rpm'' = Inr (CInt 7)"
proof -
  let ?r = "update_values (\<lambda>_. None) 9 [(''rate_limit_anon_rpm'', JInt 7)] []"
  have run: "fst ?r = Inr [\<lparr>ch_key = ''rate_limit_anon_rpm'', ch_old_value = CInt 5, ch_new_value = CInt 7\<rparr>]" by code_simp
  then have "?r = (Inr [\<lparr>ch_key = ''rate_limit_anon_rpm'', ch_old_value = CInt 5, ch_new_value = CInt 7\<rparr>], snd ?r)"
    by (metis prod.collapse)
  from config_update_reads_back [OF this] show ?thesis by simp
qed

text \<open>A setting that the environment locks has its default value whatever the table stores for it, and
  a request that tries to change it is refused as a whole: no setting of the request is changed.\<close>

theorem locked_setting_is_pinned:
  assumes "spec \<in> set runtime_config_specs" "is_locked env spec"
  shows "(\<forall>v. get_value env rows (sp_key spec) = Inr v \<longrightarrow> spec_default env (sp_default spec) = Inr v)
    \<and> (\<forall>ups. sp_key spec \<in> fst ` set ups \<longrightarrow> (\<exists>e. update_values env now ups rows = (Inl e, rows)))"
proof -
  have fs: "find_spec (sp_key spec) = Some spec" using assms(1) by (rule find_spec_mem)
  have val: "\<forall>v. get_value env rows (sp_key spec) = Inr v \<longrightarrow> spec_default env (sp_default spec) = Inr v"
    unfolding get_value_Inr [OF fs] using locked_value [OF _ assms(2)] by blast
  have refuse: "apply_updates env now eff ups rws \<noteq> Inr (chs, rows')" if "sp_key spec \<in> fst ` set ups" for eff ups rws chs rows'
    using that
  proof (induction ups arbitrary: chs rws)
    case (Cons u ups)
    obtain key raw where u: "u = (key, raw)" by (cases u)
    show ?case
    proof
      assume "apply_updates env now eff (u # ups) rws = Inr (chs, rows')"
      then show False unfolding u
      proof (cases rule: apply_updates_step)
        case (same spec' cur v)
        with fs assms(2) have "key \<noteq> sp_key spec" by auto
        with Cons.prems Cons.IH [of rws chs] same(7) show False by (auto simp: u)
      next
        case (upd spec' cur v body chs')
        with fs assms(2) have "key \<noteq> sp_key spec" by auto
        with Cons.prems Cons.IH [of "upsert_config now key body rws" chs'] upd(6) show False by (auto simp: u)
      qed
    qed
  qed simp
  have "\<exists>e. update_values env now ups rows = (Inl e, rows)" if k: "sp_key spec \<in> fst ` set ups" for ups
  proof (cases "fst (update_values env now ups rows)")
    case (Inr chs)
    then have "update_values env now ups rows = (Inr chs, snd (update_values env now ups rows))" by (metis prod.collapse)
    then obtain eff where "apply_updates env now eff ups rows = Inr (chs, snd (update_values env now ups rows))"
      by (rule update_values_done)
    with refuse [OF k] show ?thesis by blast
  next
    case (Inl e)
    then show ?thesis
      by (cases "and_then (list_effective env rows) (\<lambda>eff. apply_updates env now eff ups rows)")
        (auto simp: update_values_def Let_def split: if_splits)
  qed
  with val show ?thesis by blast
qed

theorem locked_setting_is_pinned_witness:
  "\<exists>e. update_values (\<lambda>_. Some ''true'') 0 [(''rate_limit_anon_rpm'', JInt 7)] [] = (Inl e, [])"
proof -
  let ?s = "\<lparr>sp_key = ''rate_limit_anon_rpm'', sp_value_type = IntType, sp_default = DConst (CInt 5),
       sp_lock_env = ''LOCK_RATE_LIMITS''\<rparr>"
  have "?s \<in> set runtime_config_specs" "is_locked (\<lambda>_. Some ''true'') ?s" by code_simp+
  from locked_setting_is_pinned [OF this] show ?thesis by force
qed

text \<open>One row that does not decode to a value of its setting's type makes every setting unreadable,
  the locked ones and the ones without a row included: reading any of them raises.\<close>

theorem unreadable_row_blocks_every_setting:
  assumes "spec \<in> set runtime_config_specs" "find_row cr_key (sp_key spec) rows = Some row"
    and "decode_stored_value spec (cr_value row) = Inl e"
  shows "\<exists>e'. get_value env rows key = Inl e'"
proof (cases "find_spec key")
  case None
  then show ?thesis by (simp add: get_value_def)
next
  case (Some s)
  have "\<not> is_ok (resolve_row env rows spec)"
    using assms(2,3) by (cases "spec_default env (sp_default spec)") (simp_all add: resolve_row_def resolve_value_def)
  with assms(1) get_value_Inr [OF Some] have "get_value env rows key \<noteq> Inr v" for v by blast
  then show ?thesis by (cases "get_value env rows key") auto
qed

theorem unreadable_row_blocks_every_setting_witness:
  "\<exists>e. get_value (\<lambda>_. None) [\<lparr>cr_key = ''anon_expiry_hours'', cr_value = Some ''24h'', cr_updated_at = 0\<rparr>]
     ''max_upload_bytes'' = Inl e"
proof -
  let ?s = "\<lparr>sp_key = ''anon_expiry_hours'', sp_value_type = IntType,
       sp_default = DEnvInt ''ANON_EXPIRY_HOURS'' ''24'', sp_lock_env = ''LOCK_ANON_EXPIRY''\<rparr>"
  let ?r = "\<lparr>cr_key = ''anon_expiry_hours'', cr_value = Some ''24h'', cr_updated_at = 0\<rparr>"
  have "?s \<in> set runtime_config_specs" by code_simp
  moreover have "find_row cr_key (sp_key ?s) [?r] = Some ?r" by (simp add: find_row_Cons)
  moreover have "decode_stored_value ?s (cr_value ?r) =
      Inl (HTTPException 500 ''Invalid stored config value for anon_expiry_hours.'')" by code_simp
  ultimately show ?thesis by (rule unreadable_row_blocks_every_setting)
qed

section \<open>Types\<close>

text \<open>A stored value is readable when it decodes to a value of its setting; rows of settings that no longer exist are not read.\<close>

definition has_type :: "value_type \<Rightarrow> cvalue \<Rightarrow> bool" where
  "has_type ty v = (case ty of BoolType \<Rightarrow> (\<exists>b. v = CBool b) | IntType \<Rightarrow> (\<exists>n. v = CInt n))"

definition row_typed :: "config_row \<Rightarrow> bool" where
  "row_typed r = (\<forall>spec. find_spec (cr_key r) = Some spec \<longrightarrow> is_ok (decode_stored_value spec (cr_value r)))"

definition config_typed :: "config_row list \<Rightarrow> bool" where
  "config_typed rows = (\<forall>r\<in>set rows. row_typed r)"

definition defaults_ok :: "environment \<Rightarrow> bool" where
  "defaults_ok env = (\<forall>spec\<in>set runtime_config_specs. is_ok (spec_default env (sp_default spec)))"

lemma decoded_type:
  assumes "decode_stored_value spec raw = Inr (Some v)"
  shows "has_type (sp_value_type spec) v"
  using assms by (auto simp: decode_stored_value_def has_type_def coerce_Inr split: option.splits sum.splits scanned.splits)

lemma default_type:
  assumes "spec \<in> set runtime_config_specs" "spec_default env (sp_default spec) = Inr v"
  shows "has_type (sp_value_type spec) v"
proof -
  let ?fits = "\<lambda>s. case sp_default s of DConst w \<Rightarrow> (case w of CBool _ \<Rightarrow> sp_value_type s = BoolType | CInt _ \<Rightarrow> sp_value_type s = IntType)
    | DEnvBool _ _ \<Rightarrow> sp_value_type s = BoolType | _ \<Rightarrow> sp_value_type s = IntType"
  have "list_all ?fits runtime_config_specs" by code_simp
  with assms(1) have "?fits spec" by (simp add: list_all_iff)
  with assms(2) show ?thesis
    by (cases "sp_default spec") (auto simp: has_type_def split: config_scalar.splits)
qed

lemma resolve_row_typed:
  assumes "spec \<in> set runtime_config_specs" "defaults_ok env" "config_typed rows"
  shows "\<exists>v. resolve_row env rows spec = Inr v \<and> has_type (sp_value_type spec) (rv_value v)"
proof -
  from assms(1,2) obtain dflt where d: "spec_default env (sp_default spec) = Inr dflt" by (auto simp: defaults_ok_def is_ok_iff)
  note t = default_type [OF assms(1) d]
  show ?thesis
  proof (cases "find_row cr_key (sp_key spec) rows")
    case None
    with d t show ?thesis by (simp add: resolve_row_def resolve_value_def decode_stored_value_def)
  next
    case (Some r)
    from find_row_SomeD [OF this] assms(3) find_spec_mem [OF assms(1)] obtain dv where dv: "decode_stored_value spec (cr_value r) = Inr dv"
      by (metis config_typed_def row_typed_def is_ok_iff)
    with d t Some show ?thesis
      by (cases dv) (simp_all add: resolve_row_def resolve_value_def decoded_type)
  qed
qed

lemma get_value_typed:
  assumes "spec \<in> set runtime_config_specs" "defaults_ok env" "config_typed rows"
  shows "\<exists>v. get_value env rows (sp_key spec) = Inr v \<and> has_type (sp_value_type spec) v"
proof -
  from resolve_row_typed [OF assms] obtain v where v: "resolve_row env rows spec = Inr v" "has_type (sp_value_type spec) (rv_value v)" by blast
  have "is_ok (resolve_row env rows s)" if "s \<in> set runtime_config_specs" for s
    using resolve_row_typed [OF that assms(2,3)] by auto
  with v get_value_Inr [OF find_spec_mem [OF assms(1)], of env rows "rv_value v"] show ?thesis by blast
qed

lemma upsert_typed:
  assumes "config_typed rows" "find_spec key = Some spec" "coerce_value spec raw = Inr v" "json_dumps v = Inr body"
  shows "config_typed (upsert_config now key body rows)"
  using assms(1,2) coerce_dumps [OF assms(3,4)]
  by (auto simp: config_typed_def upsert_config_def set_update_where row_typed_def)

lemma apply_updates_typed: "apply_updates env now eff ups rows = Inr (chs, rows') \<Longrightarrow> config_typed rows \<Longrightarrow> config_typed rows'"
proof (induction ups arbitrary: chs rows)
  case (Cons u ups)
  obtain key raw where u: "u = (key, raw)" by (cases u)
  from Cons.prems(1) [unfolded u] show ?case
    by (cases rule: apply_updates_step) (use Cons.IH Cons.prems(2) upsert_typed in blast)+
qed simp

lemma update_values_typed:
  assumes "config_typed rows"
  shows "config_typed (snd (update_values env now ups rows))"
proof (cases "fst (update_values env now ups rows)")
  case (Inr chs)
  then have "update_values env now ups rows = (Inr chs, snd (update_values env now ups rows))" by (metis prod.collapse)
  then obtain eff where "apply_updates env now eff ups rows = Inr (chs, snd (update_values env now ups rows))"
    by (rule update_values_done)
  with assms show ?thesis by (rule apply_updates_typed [rotated])
next
  case (Inl e)
  then have "snd (update_values env now ups rows) = rows"
    by (cases "and_then (list_effective env rows) (\<lambda>eff. apply_updates env now eff ups rows)")
      (auto simp: update_values_def Let_def split: if_splits)
  with assms show ?thesis by simp
qed

text \<open>C11: While the environment gives every setting a default, a table of settings whose values can be read stays one through
  every sequence of updates, whatever they ask for, and every setting can be read from it and has a value of its own type.\<close>

theorem settings_stay_typed:
  assumes "defaults_ok env" "config_typed rows"
    and "rows' = fold (\<lambda>(now, ups) rows. snd (update_values env now ups rows)) requests rows"
  shows "config_typed rows'
    \<and> (\<forall>spec\<in>set runtime_config_specs. \<exists>v. get_value env rows' (sp_key spec) = Inr v \<and> has_type (sp_value_type spec) v)"
proof -
  have "config_typed rows'"
    using assms(2) unfolding assms(3)
    by (induction requests arbitrary: rows) (auto simp: update_values_typed split: prod.splits)
  with get_value_typed assms(1) show ?thesis by blast
qed

lemma plain_defaults_ok: "defaults_ok (\<lambda>_. None)"
proof -
  have "list_all (\<lambda>s. is_ok (spec_default (\<lambda>_. None) (sp_default s))) runtime_config_specs" by code_simp
  then show ?thesis by (simp add: defaults_ok_def list_all_iff)
qed

theorem settings_stay_typed_witness:
  "\<exists>v. get_value (\<lambda>_. None) (snd (update_values (\<lambda>_. None) 9 [(''rate_limit_anon_rpm'', JString ''many'')] [])) ''rate_limit_anon_rpm'' = Inr (CInt v)"
proof -
  let ?s = "\<lparr>sp_key = ''rate_limit_anon_rpm'', sp_value_type = IntType, sp_default = DConst (CInt 5),
       sp_lock_env = ''LOCK_RATE_LIMITS''\<rparr>"
  have "?s \<in> set runtime_config_specs" by code_simp
  with settings_stay_typed [OF plain_defaults_ok, of "[]" _ "[(9, [(''rate_limit_anon_rpm'', JString ''many'')])]"]
  show ?thesis by (fastforce simp: config_typed_def has_type_def)
qed

end
