(* ===== verification/Redis_Support.thy ===== *)
theory Redis_Support
  imports Json Models
begin

text \<open>
  \<^verbatim>\<open>src/imghost/redis_support.py\<close>. The server is not part of the program: its state is a type
  variable, and the client's commands are a record of functions, each of which may raise and may
  change the server's state. The handle is the circuit breaker in front of it. A routine that talks
  to the server is a state transformer that may raise (\<open>'s \<Rightarrow> (err + 'a) \<times> 's\<close>).
\<close>

section \<open>Routines that may raise, over a state\<close>

definition io_return :: "'a \<Rightarrow> 's \<Rightarrow> (err + 'a) \<times> 's" where
  "io_return x s = (Inr x, s)"

definition io_raise :: "err \<Rightarrow> 's \<Rightarrow> (err + 'a) \<times> 's" where
  "io_raise e s = (Inl e, s)"

definition io_bind ::
  "('s \<Rightarrow> (err + 'a) \<times> 's) \<Rightarrow> ('a \<Rightarrow> 's \<Rightarrow> (err + 'b) \<times> 's) \<Rightarrow> 's \<Rightarrow> (err + 'b) \<times> 's" where
  "io_bind m f s = (case m s of (Inl e, s') \<Rightarrow> (Inl e, s') | (Inr x, s') \<Rightarrow> f x s')"

definition io_seq ::
  "('s \<Rightarrow> (err + 'a) \<times> 's) \<Rightarrow> ('s \<Rightarrow> (err + 'b) \<times> 's) \<Rightarrow> 's \<Rightarrow> (err + 'b) \<times> 's" where
  "io_seq m n = io_bind m (\<lambda>_. n)"

definition io_lift :: "err + 'a \<Rightarrow> 's \<Rightarrow> (err + 'a) \<times> 's" where
  "io_lift r s = (r, s)"

lemmas io_defs = io_return_def io_raise_def io_bind_def io_seq_def io_lift_def

lemma io_bind_Inr: "m s = (Inr x, s') \<Longrightarrow> io_bind m f s = f x s'"
  by (simp add: io_bind_def)

lemma io_bind_Inl: "m s = (Inl e, s') \<Longrightarrow> io_bind m f s = (Inl e, s')"
  by (simp add: io_bind_def)

lemma io_seq_Inr: "m s = (Inr x, s') \<Longrightarrow> io_seq m n s = n s'"
  by (simp add: io_seq_def io_bind_Inr)

lemma io_seq_Inl: "m s = (Inl e, s') \<Longrightarrow> io_seq m n s = (Inl e, s')"
  by (simp add: io_seq_def io_bind_Inl)

section \<open>The client\<close>

record 's redis_client =
  rc_ping :: "'s \<Rightarrow> (err + bool) \<times> 's"
  rc_get :: "string \<Rightarrow> 's \<Rightarrow> (err + string option) \<times> 's"
  rc_set_ex :: "string \<Rightarrow> string \<Rightarrow> int \<Rightarrow> 's \<Rightarrow> (err + unit) \<times> 's"
  rc_set_nx_ex :: "string \<Rightarrow> string \<Rightarrow> int \<Rightarrow> 's \<Rightarrow> (err + bool) \<times> 's"
  rc_delete :: "string \<Rightarrow> 's \<Rightarrow> (err + unit) \<times> 's"
  rc_incr :: "string \<Rightarrow> 's \<Rightarrow> (err + int) \<times> 's"
  rc_expire :: "string \<Rightarrow> int \<Rightarrow> 's \<Rightarrow> (err + unit) \<times> 's"
  rc_hgetall :: "string \<Rightarrow> 's \<Rightarrow> (err + (string \<times> string) list) \<times> 's"
  rc_hdel :: "string \<Rightarrow> string list \<Rightarrow> 's \<Rightarrow> (err + unit) \<times> 's"
  rc_hincrby :: "string \<Rightarrow> string \<Rightarrow> int \<Rightarrow> 's \<Rightarrow> (err + unit) \<times> 's"
  rc_rpush :: "string \<Rightarrow> string \<Rightarrow> 's \<Rightarrow> (err + unit) \<times> 's"
  rc_blpop :: "string list \<Rightarrow> 's \<Rightarrow> (err + (string \<times> string) option) \<times> 's"
  rc_llen :: "string \<Rightarrow> 's \<Rightarrow> (err + int) \<times> 's"

text \<open>A server that keeps, under a key, a value and the instant it expires answers a \<^verbatim>\<open>GET\<close> at \<open>t\<close> with this.\<close>

definition live :: "time \<Rightarrow> (string \<times> time) option \<Rightarrow> string option" where
  "live t l = (case l of Some (v, expiry) \<Rightarrow> if t < expiry then Some v else None | None \<Rightarrow> None)"

text \<open>\<open>int(current or "0")\<close> of a reply, and \<open>int(...)\<close> of a field.\<close>

definition reply_int :: "string option \<Rightarrow> err + int" where
  "reply_int r = (case py_int (if truthy r then the r else ''0'') of
     None \<Rightarrow> Inl (ValueError ''invalid literal for int() with base 10'') | Some n \<Rightarrow> Inr n)"

definition text_int :: "string \<Rightarrow> err + int" where
  "text_int s = (case py_int s of
     None \<Rightarrow> Inl (ValueError ''invalid literal for int() with base 10'') | Some n \<Rightarrow> Inr n)"

section \<open>The handle\<close>

record redis_handle =
  rh_url :: "string option"
  rh_mode :: string
  rh_prefix :: string
  rh_cooldown :: time
  rh_blocked_until :: time
  rh_installed :: bool
  rh_connected :: bool
  rh_degraded :: bool

fun is_redis_exception :: "err \<Rightarrow> bool" where
  "is_redis_exception (RedisError _) = True"
| "is_redis_exception (OSError _) = True"
| "is_redis_exception _ = False"

definition handle_init :: "string option \<Rightarrow> string \<Rightarrow> string \<Rightarrow> bool \<Rightarrow> time \<Rightarrow> err + redis_handle" where
  "handle_init url mode prefix installed cooldown =
     (if mode \<notin> {''auto'', ''required'', ''disabled''}
        then Inl (ValueError ''REDIS_MODE must be one of: auto, required, disabled.'')
      else Inr \<lparr>rh_url = url, rh_mode = mode,
        rh_prefix = rstrip_on (\<lambda>c. c = CHR '':'') (lstrip_on (\<lambda>c. c = CHR '':'') prefix),
        rh_cooldown = cooldown, rh_blocked_until = 0, rh_installed = installed, rh_connected = False,
        rh_degraded = False\<rparr>)"

definition handle_enabled :: "redis_handle \<Rightarrow> bool" where
  "handle_enabled h = (rh_mode h \<noteq> ''disabled'' \<and> truthy (rh_url h))"

definition handle_available :: "time \<Rightarrow> redis_handle \<Rightarrow> bool" where
  "handle_available now h = (handle_enabled h \<and> rh_blocked_until h \<le> now)"

definition prefixed :: "redis_handle \<Rightarrow> string \<Rightarrow> string" where
  "prefixed h key = (if rh_prefix h \<noteq> [] then rh_prefix h @ '':'' @ key else key)"

definition get_client :: "time \<Rightarrow> redis_handle \<Rightarrow> (err + unit) \<times> redis_handle" where
  "get_client now h =
     (if \<not> handle_enabled h then (Inl (RedisUnavailable ''Redis is disabled.''), h)
      else if \<not> handle_available now h then (Inl (RedisUnavailable ''Redis is temporarily unavailable.''), h)
      else if rh_connected h then (Inr (), h)
      else if rh_installed h then (Inr (), h\<lparr>rh_connected := True\<rparr>)
      else (Inl (RedisUnavailable ''redis dependency is not installed.''), h))"

definition mark_failure :: "time \<Rightarrow> redis_handle \<Rightarrow> redis_handle" where
  "mark_failure now h = h\<lparr>rh_blocked_until := now + rh_cooldown h, rh_degraded := True\<rparr>"

definition mark_success :: "redis_handle \<Rightarrow> redis_handle" where
  "mark_success h = h\<lparr>rh_blocked_until := 0, rh_degraded := False\<rparr>"

text \<open>\<^verbatim>\<open>execute\<close>; \<open>now\<close> is the clock at the availability check and \<open>later\<close> the one at a failure.\<close>

definition handle_execute ::
  "time \<Rightarrow> time \<Rightarrow> ('s \<Rightarrow> (err + 'a) \<times> 's) \<Rightarrow> redis_handle \<Rightarrow> 's \<Rightarrow> (err + 'a) \<times> redis_handle \<times> 's" where
  "handle_execute now later callback h s =
     (case get_client now h of
        (Inl e, h') \<Rightarrow> (Inl e, h', s)
      | (Inr _, h') \<Rightarrow>
          (case callback s of
             (Inl e, s') \<Rightarrow>
               if is_redis_exception e
               then (Inl (RedisUnavailable ''Redis unavailable.''), mark_failure later h', s')
               else (Inl e, h', s')
           | (Inr x, s') \<Rightarrow> (Inr x, mark_success h', s')))"

definition handle_ping :: "'s redis_client \<Rightarrow> time \<Rightarrow> time \<Rightarrow> redis_handle \<Rightarrow> 's \<Rightarrow> (err + bool) \<times> redis_handle \<times> 's" where
  "handle_ping client now later h s =
     (if \<not> handle_enabled h then (Inr False, h, s)
      else (case handle_execute now later (rc_ping client) h s of
         (Inl (RedisUnavailable _), h', s') \<Rightarrow> (Inr False, h', s')
       | (r, h', s') \<Rightarrow> (r, h', s')))"

definition ensure_startup_ready ::
  "'s redis_client \<Rightarrow> time \<Rightarrow> time \<Rightarrow> redis_handle \<Rightarrow> 's \<Rightarrow> (err + unit) \<times> redis_handle \<times> 's" where
  "ensure_startup_ready client now later h s =
     (if \<not> handle_enabled h then (Inr (), h, s)
      else (case handle_execute now later (rc_ping client) h s of
         (Inl (RedisUnavailable _), h', s') \<Rightarrow>
           (if rh_mode h = ''required'' then Inl (RuntimeError ''Redis is required but unavailable during startup.'')
            else Inr (), h', s')
       | (Inl e, h', s') \<Rightarrow> (Inl e, h', s')
       | (Inr _, h', s') \<Rightarrow> (Inr (), h', s')))"

text \<open>\<^verbatim>\<open>_with_redis_fallback\<close>, which both limiters repeat: the fallback runs on its own state exactly when
  the server could not be used; the flag is the subsystem's entry in the telemetry.\<close>

definition with_redis_fallback ::
  "time \<Rightarrow> time \<Rightarrow> ('s \<Rightarrow> (err + unit) \<times> 's) \<Rightarrow> ('m \<Rightarrow> (err + unit) \<times> 'm)
     \<Rightarrow> redis_handle \<times> 's \<times> 'm \<times> bool \<Rightarrow> (err + unit) \<times> redis_handle \<times> 's \<times> 'm \<times> bool" where
  "with_redis_fallback now later redis_call fallback st =
     (case st of (h, s, m, degraded) \<Rightarrow>
      (case handle_execute now later redis_call h s of
         (Inl (RedisUnavailable _), h', s') \<Rightarrow> (case fallback m of (r, m') \<Rightarrow> (r, h', s', m', True))
       | (Inl e, h', s') \<Rightarrow> (Inl e, h', s', m, degraded)
       | (Inr _, h', s') \<Rightarrow> (Inr (), h', s', m, False)))"

section \<open>The breaker\<close>

lemma get_client_frame [simp]:
  "rh_blocked_until (snd (get_client now h)) = rh_blocked_until h"
  "rh_degraded (snd (get_client now h)) = rh_degraded h" "rh_cooldown (snd (get_client now h)) = rh_cooldown h"
  "rh_prefix (snd (get_client now h)) = rh_prefix h" "rh_mode (snd (get_client now h)) = rh_mode h"
  "rh_url (snd (get_client now h)) = rh_url h"
  by (simp_all add: get_client_def)

lemma blocked_execute:
  "\<not> handle_available now h \<Longrightarrow>
     \<exists>m. handle_execute now later cb h s = (Inl (RedisUnavailable m), h, s)"
  by (auto simp: handle_execute_def get_client_def)

lemma execute_failure_blocks:
  assumes "handle_available now h" "rh_connected h \<or> rh_installed h" "cb s = (Inl e, s')" "is_redis_exception e"
  shows "\<exists>h' m. handle_execute now later cb h s = (Inl (RedisUnavailable m), h', s')
    \<and> rh_blocked_until h' = later + rh_cooldown h \<and> rh_degraded h'"
  using assms by (auto simp: handle_execute_def get_client_def mark_failure_def handle_available_def)

text \<open>Once a call to the server has failed, no routine is run against it until the cooldown has
  passed: every routine in that time ends in \<^verbatim>\<open>RedisUnavailable\<close> without touching the server or the
  handle, and the limiters' fallback decides instead. The first success afterwards closes the breaker.\<close>

theorem breaker_keeps_failing_server_alone:
  assumes "handle_execute now later cb h s = (Inl (RedisUnavailable m), h', s')"
    and "handle_available now h" "rh_connected h \<or> rh_installed h"
    and "cb s = (Inl e, s')" "is_redis_exception e"
  shows "(\<forall>t t' (cb' :: 's \<Rightarrow> (err + 'b) \<times> 's) s0. t < later + rh_cooldown h \<longrightarrow>
           (\<exists>m'. handle_execute t t' cb' h' s0 = (Inl (RedisUnavailable m'), h', s0)))
    \<and> (\<forall>t t' call fb s0 (m0 :: 'm) d. t < later + rh_cooldown h \<longrightarrow>
           with_redis_fallback t t' call fb (h', s0, m0, d) = (fst (fb m0), h', s0, snd (fb m0), True))
    \<and> (\<forall>t t' (cb' :: 's \<Rightarrow> (err + 'b) \<times> 's) s0 x s1. later + rh_cooldown h \<le> t \<longrightarrow> cb' s0 = (Inr x, s1) \<longrightarrow>
           (\<exists>h''. handle_execute t t' cb' h' s0 = (Inr x, h'', s1) \<and> rh_blocked_until h'' = 0 \<and> \<not> rh_degraded h''))"
proof -
  have h': "h' = mark_failure later (h\<lparr>rh_connected := True\<rparr>)"
    using assms by (cases h) (auto simp: handle_execute_def get_client_def handle_available_def split: if_splits)
  have na: "\<not> handle_available t h'" if "t < later + rh_cooldown h" for t
    using that by (simp add: h' mark_failure_def handle_available_def)
  have "\<exists>m'. handle_execute t t' cb' h' s0 = (Inl (RedisUnavailable m'), h', s0)"
    if "t < later + rh_cooldown h" for t t' s0 and cb' :: "'s \<Rightarrow> (err + 'b) \<times> 's"
    by (rule blocked_execute [OF na [OF that]])
  moreover have "with_redis_fallback t t' call fb (h', s0, m0, d) = (fst (fb m0), h', s0, snd (fb m0), True)"
    if "t < later + rh_cooldown h" for t t' call s0 d and fb :: "'m \<Rightarrow> (err + unit) \<times> 'm" and m0
    using blocked_execute [OF na [OF that], of t' call s0]
    by (auto simp: with_redis_fallback_def split: prod.split)
  moreover have "\<exists>h''. handle_execute t t' cb' h' s0 = (Inr x, h'', s1) \<and> rh_blocked_until h'' = 0 \<and> \<not> rh_degraded h''"
    if "later + rh_cooldown h \<le> t" "cb' s0 = (Inr x, s1)" for t t' s0 x s1 and cb' :: "'s \<Rightarrow> (err + 'b) \<times> 's"
    using that assms(2) by (simp add: handle_execute_def get_client_def h' mark_failure_def handle_available_def
        handle_enabled_def mark_success_def)
  ultimately show ?thesis by blast
qed

text \<open>A handle through which the server can be used.\<close>

definition handle_ready :: "time \<Rightarrow> redis_handle \<Rightarrow> bool" where
  "handle_ready m h = (handle_available m h \<and> (rh_connected h \<or> rh_installed h))"

text \<open>A success closes the breaker: the handle stays usable from then on.\<close>

definition after_success :: "redis_handle \<Rightarrow> redis_handle" where
  "after_success h = mark_success (h\<lparr>rh_connected := True\<rparr>)"

lemma after_success_ready:
  assumes "handle_ready m h" "0 \<le> n"
  shows "handle_ready n (after_success h)"
  using assms by (simp add: handle_ready_def after_success_def mark_success_def handle_available_def handle_enabled_def)

lemma after_success_frame [simp]:
  "prefixed (after_success h) key = prefixed h key" "handle_enabled (after_success h) = handle_enabled h"
  by (simp_all add: after_success_def mark_success_def prefixed_def handle_enabled_def)

lemma ready_enabled: "handle_ready m h \<Longrightarrow> handle_enabled h"
  by (simp add: handle_ready_def handle_available_def)

lemma execute_ready:
  assumes "handle_ready m h" "callback s = (Inr x, s')"
  shows "handle_execute m m' callback h s = (Inr x, after_success h, s')"
proof -
  have "get_client m h = (Inr (), h\<lparr>rh_connected := True\<rparr>)"
    using assms(1) by (cases h) (auto simp: handle_ready_def get_client_def handle_available_def)
  then show ?thesis by (simp add: handle_execute_def assms(2) after_success_def)
qed

definition sample_handle :: redis_handle where
  "sample_handle = \<lparr>rh_url = Some ''redis://r'', rh_mode = ''auto'', rh_prefix = ''img'', rh_cooldown = seconds 5,
     rh_blocked_until = 0, rh_installed = True, rh_connected = True, rh_degraded = False\<rparr>"

text \<open>A server that keeps its keys as a map, at the time \<open>t\<close> of its clock.\<close>

definition lease_client :: "time \<Rightarrow> (string \<Rightarrow> (string \<times> time) option) redis_client" where
  "lease_client t = \<lparr>rc_ping = io_return True, rc_get = (\<lambda>k s. (Inr (live t (s k)), s)),
     rc_set_ex = (\<lambda>k v ttl s. (Inr (), s(k \<mapsto> (v, t + seconds ttl)))),
     rc_set_nx_ex = (\<lambda>k v ttl s. if live t (s k) = None then (Inr True, s(k \<mapsto> (v, t + seconds ttl))) else (Inr False, s)),
     rc_delete = (\<lambda>k s. (Inr (), s(k := None))), rc_incr = (\<lambda>_. io_return 1), rc_expire = (\<lambda>_ _. io_return ()),
     rc_hgetall = (\<lambda>_. io_return []), rc_hdel = (\<lambda>_ _. io_return ()), rc_hincrby = (\<lambda>_ _ _. io_return ()),
     rc_rpush = (\<lambda>_ _. io_return ()), rc_blpop = (\<lambda>_. io_return None), rc_llen = (\<lambda>_. io_return 0)\<rparr>"

theorem breaker_keeps_failing_server_alone_witness:
  "\<exists>m. handle_execute (seconds 3) (seconds 3) (\<lambda>s. (Inr (), s)) (mark_failure 0 sample_handle) ''srv''
     = (Inl (RedisUnavailable m), mark_failure 0 sample_handle, ''srv'')"
proof -
  have run: "handle_execute 0 0 (\<lambda>s. (Inl (RedisError ''down'') :: err + unit, s)) sample_handle ''srv''
      = (Inl (RedisUnavailable ''Redis unavailable.''), mark_failure 0 sample_handle, ''srv'')"
    by (simp add: handle_execute_def get_client_def sample_handle_def handle_enabled_def handle_available_def seconds_def)
  have av: "handle_available 0 sample_handle" "rh_connected sample_handle \<or> rh_installed sample_handle"
    by (simp_all add: sample_handle_def handle_enabled_def handle_available_def)
  have cool: "seconds 3 < 0 + rh_cooldown sample_handle" by (simp add: sample_handle_def seconds_def sec_def)
  note r = breaker_keeps_failing_server_alone [OF run av refl, where ?'m = unit and ?'b = unit]
  have "is_redis_exception (RedisError ''down'')" by simp
  from conjunct1 [OF r [OF this], THEN spec, THEN spec, THEN spec, THEN spec, THEN mp, OF cool] show ?thesis .
qed

end
