(* ===== verification/Rate_Limits.thy ===== *)
theory Rate_Limits
  imports Redis_Support Runtime_Config
begin

text \<open>
  \<^verbatim>\<open>src/imghost/rate_limits.py\<close>: the upload limits, kept in memory or in Redis. \<open>cfg\<close> is
  \<^verbatim>\<open>int(await runtime_config.get_value(key))\<close>. The interface both window counters of the program
  share (this one and the one of \<open>Auth_Limits\<close>) is the locale \<open>sliding_window\<close>.
\<close>

section \<open>Sliding windows\<close>

text \<open>
  The contract of a window counter: pruning drops from the front what is at least \<open>w\<close> old. The lemmas
  of the locale are what a limiter needs: as long as an event is only admitted when what remains after
  pruning leaves room for it under \<open>L\<close>, no window of that length ever holds more than \<open>L\<close>, where
  events count with a weight (one each, or their bytes).
\<close>

locale sliding_window =
  fixes stamp :: "'e \<Rightarrow> time"
    and prune :: "time \<Rightarrow> time \<Rightarrow> 'e list \<Rightarrow> 'e list"
  assumes prune_drops: "prune now w es = dropWhile (\<lambda>e. stamp e \<le> now - w) es"
begin

definition tracks :: "time \<Rightarrow> time \<Rightarrow> 'e list \<Rightarrow> 'e list \<Rightarrow> bool" where
  "tracks w now admitted es \<longleftrightarrow>
     sorted (map stamp admitted) \<and> (\<forall>e\<in>set admitted. stamp e \<le> now)
     \<and> (\<exists>c. c \<le> now - w \<and> es = filter (\<lambda>e. c < stamp e) admitted)"

definition bounded :: "time \<Rightarrow> ('e \<Rightarrow> int) \<Rightarrow> int \<Rightarrow> 'e list \<Rightarrow> bool" where
  "bounded w wt L admitted \<longleftrightarrow>
     (\<forall>t. sum_list (map wt (filter (\<lambda>e. t - w < stamp e \<and> stamp e \<le> t) admitted)) \<le> L)"

lemma dropWhile_sorted:
  "sorted (map stamp es) \<Longrightarrow> dropWhile (\<lambda>e. stamp e \<le> c) es = filter (\<lambda>e. c < stamp e) es"
proof (induction es)
  case (Cons e es)
  show ?case
  proof (cases "stamp e \<le> c")
    case False
    with Cons.prems have "\<forall>x\<in>set es. c < stamp x" by auto
    with False show ?thesis by (simp add: filter_id_conv)
  qed (use Cons in simp)
qed simp

lemma tracks_prune:
  assumes "tracks w now adm es" "now \<le> now'"
  shows "tracks w now' adm (prune now' w es)" "prune now' w es = filter (\<lambda>e. now' - w < stamp e) adm"
proof -
  from assms obtain c where c: "c \<le> now - w" "es = filter (\<lambda>e. c < stamp e) adm" "sorted (map stamp adm)"
    "\<forall>e\<in>set adm. stamp e \<le> now" unfolding tracks_def by blast
  have "sorted (map stamp es)" unfolding c(2) using c(3) by (rule sorted_filter)
  then have "prune now' w es = filter (\<lambda>e. now' - w < stamp e) es"
    unfolding prune_drops by (rule dropWhile_sorted)
  also have "\<dots> = filter (\<lambda>e. now' - w < stamp e) adm"
    using c(1) assms(2) unfolding c(2) filter_filter by (intro filter_cong) auto
  finally show "prune now' w es = filter (\<lambda>e. now' - w < stamp e) adm" .
  with c assms(2) show "tracks w now' adm (prune now' w es)" unfolding tracks_def by force
qed

lemma tracks_Nil: "tracks w now [] []"
  by (simp add: tracks_def) (rule exI [of _ "now - w"], simp)

lemma tracks_later: "tracks w now adm es \<Longrightarrow> now \<le> now' \<Longrightarrow> tracks w now' adm es"
  unfolding tracks_def by (elim conjE exE, intro conjI ballI exI) (auto intro: order_trans)

lemma tracks_add:
  assumes "tracks w now adm es" "now \<le> stamp e" "0 < w"
  shows "tracks w (stamp e) (adm @ [e]) (es @ [e])"
proof -
  from assms obtain c where c: "c \<le> now - w" "es = filter (\<lambda>e. c < stamp e) adm" "sorted (map stamp adm)"
    "\<forall>x\<in>set adm. stamp x \<le> now" unfolding tracks_def by blast
  have "sorted (map stamp (adm @ [e]))" using c(3,4) assms(2) by (auto simp: sorted_append)
  moreover have "es @ [e] = filter (\<lambda>x. c < stamp x) (adm @ [e])" using c(1,2) assms(2,3) by simp
  ultimately show ?thesis
    unfolding tracks_def using c(1,4) assms(2) by (intro conjI exI [of _ c]) force+
qed

lemma bounded_admit:
  assumes "bounded w wt L adm" "\<forall>x\<in>set adm. 0 \<le> wt x"
    and "sum_list (map wt (filter (\<lambda>x. stamp e - w < stamp x) adm)) + wt e \<le> L"
  shows "bounded w wt L (adm @ [e])"
  unfolding bounded_def
proof
  fix t
  show "sum_list (map wt (filter (\<lambda>x. t - w < stamp x \<and> stamp x \<le> t) (adm @ [e]))) \<le> L"
  proof (cases "t - w < stamp e \<and> stamp e \<le> t")
    case False
    with assms(1) show ?thesis by (auto simp: bounded_def)
  next
    case True
    have "sum_list (map wt (filter (\<lambda>x. t - w < stamp x \<and> stamp x \<le> t) xs))
        \<le> sum_list (map wt (filter (\<lambda>x. stamp e - w < stamp x) xs))" if "\<forall>x\<in>set xs. 0 \<le> wt x" for xs
      using that True by (induction xs) auto
    from this [OF assms(2)] True assms(3) show ?thesis by simp
  qed
qed

lemma bounded_Nil: "0 \<le> L \<Longrightarrow> bounded w wt L []"
  by (simp add: bounded_def)

end

section \<open>The counter\<close>

type_synonym window = "(time \<times> int) list"

definition minute :: time where
  "minute = seconds 60"

definition hour :: time where
  "hour = seconds 3600"

definition window_prune :: "time \<Rightarrow> time \<Rightarrow> window \<Rightarrow> window" where
  "window_prune now w events = dropWhile (\<lambda>e. fst e \<le> now - w) events"

definition window_count :: "time \<Rightarrow> time \<Rightarrow> window \<Rightarrow> int \<times> window" where
  "window_count now w events = (let es = window_prune now w events in (int (length es), es))"

definition window_bytes_used :: "time \<Rightarrow> time \<Rightarrow> window \<Rightarrow> int \<times> window" where
  "window_bytes_used now w events = (let es = window_prune now w events in (sum_list (map snd es), es))"

definition window_add :: "time \<Rightarrow> int \<Rightarrow> window \<Rightarrow> window" where
  "window_add now n events = events @ [(now, n)]"

interpretation upload_window: sliding_window "fst :: time \<times> int \<Rightarrow> time" window_prune
  by unfold_locales (simp add: window_prune_def)

section \<open>The limiter in memory\<close>

record limiter =
  lm_anon :: "string \<rightharpoonup> window"
  lm_user :: "string \<rightharpoonup> window"
  lm_global :: window

definition no_windows :: limiter where
  "no_windows = \<lparr>lm_anon = Map.empty, lm_user = Map.empty, lm_global = []\<rparr>"

definition rate_exceeded :: err where
  "rate_exceeded = HTTPException 429 ''Upload rate limit exceeded.''"

definition bandwidth_exceeded :: err where
  "bandwidth_exceeded = HTTPException 429 ''Upload bandwidth limit exceeded.''"

definition enforce_counter :: "time \<Rightarrow> int \<Rightarrow> int \<Rightarrow> int \<Rightarrow> window \<Rightarrow> (err + unit) \<times> window" where
  "enforce_counter now rpm bph n events =
     (case window_count now minute events of (requests, es) \<Rightarrow>
      if 0 < rpm \<and> rpm \<le> requests then (Inl rate_exceeded, es)
      else (case window_bytes_used now hour es of (used, es') \<Rightarrow>
        if 0 < bph \<and> bph < used + n then (Inl bandwidth_exceeded, es') else (Inr (), es')))"

text \<open>\<^verbatim>\<open>dict.setdefault(key, WindowCounter())\<close>: the counter, and the dictionary with it.\<close>

definition setdefault :: "string \<Rightarrow> (string \<rightharpoonup> 'e list) \<Rightarrow> 'e list \<times> (string \<rightharpoonup> 'e list)" where
  "setdefault k m = (case m k of Some es \<Rightarrow> (es, m) | None \<Rightarrow> ([], m(k \<mapsto> [])))"

fun limit_or :: "int option \<Rightarrow> err + int \<Rightarrow> err + int" where
  "limit_or (Some n) other = Inr n"
| "limit_or None other = other"

definition mem_enforce_user ::
  "(string \<Rightarrow> err + int) \<Rightarrow> time \<Rightarrow> string \<Rightarrow> int \<Rightarrow> user \<Rightarrow> limiter \<Rightarrow> (err + unit) \<times> limiter" where
  "mem_enforce_user cfg now key n u lm =
     (case setdefault key (lm_user lm) of (counter, users) \<Rightarrow>
      let lm1 = lm\<lparr>lm_user := users\<rparr> in
      (case and_then (limit_or (us_rate_limit_rpm u) (cfg ''rate_limit_user_rpm'')) (\<lambda>rpm.
             and_then (limit_or (us_rate_limit_bph u) (cfg ''rate_limit_user_bph'')) (\<lambda>bph. Inr (rpm, bph))) of
         Inl e \<Rightarrow> (Inl e, lm1)
       | Inr (rpm, bph) \<Rightarrow>
           (case enforce_counter now rpm bph n counter of
              (Inl e, es) \<Rightarrow> (Inl e, lm1\<lparr>lm_user := users(key \<mapsto> es)\<rparr>)
            | (Inr _, es) \<Rightarrow> (Inr (), lm1\<lparr>lm_user := users(key \<mapsto> window_add now n es)\<rparr>))))"

definition anon_limits :: "(string \<Rightarrow> err + int) \<Rightarrow> err + (int \<times> int \<times> int \<times> int)" where
  "anon_limits cfg =
     and_then (cfg ''rate_limit_anon_rpm'') (\<lambda>rpm. and_then (cfg ''rate_limit_anon_bph'') (\<lambda>bph.
     and_then (cfg ''rate_limit_global_anon_rpm'') (\<lambda>grpm. and_then (cfg ''rate_limit_global_anon_bph'') (\<lambda>gbph.
       Inr (rpm, bph, grpm, gbph)))))"

definition mem_enforce_anon ::
  "(string \<Rightarrow> err + int) \<Rightarrow> time \<Rightarrow> string \<Rightarrow> int \<Rightarrow> limiter \<Rightarrow> (err + unit) \<times> limiter" where
  "mem_enforce_anon cfg now key n lm =
     (case setdefault key (lm_anon lm) of (counter, anons) \<Rightarrow>
      let lm1 = lm\<lparr>lm_anon := anons\<rparr> in
      (case anon_limits cfg of
         Inl e \<Rightarrow> (Inl e, lm1)
       | Inr (rpm, bph, grpm, gbph) \<Rightarrow>
           (case enforce_counter now rpm bph n counter of
              (Inl e, es) \<Rightarrow> (Inl e, lm1\<lparr>lm_anon := anons(key \<mapsto> es)\<rparr>)
            | (Inr _, es) \<Rightarrow>
                (case enforce_counter now grpm gbph n (lm_global lm) of
                   (Inl e, gs) \<Rightarrow> (Inl e, lm1\<lparr>lm_anon := anons(key \<mapsto> es), lm_global := gs\<rparr>)
                 | (Inr _, gs) \<Rightarrow>
                     (Inr (), lm1\<lparr>lm_anon := anons(key \<mapsto> window_add now n es),
                                  lm_global := window_add now n gs\<rparr>)))))"

definition mem_enforce_upload_limits ::
  "(string \<Rightarrow> err + int) \<Rightarrow> time \<Rightarrow> string \<Rightarrow> int \<Rightarrow> user option \<Rightarrow> limiter \<Rightarrow> (err + unit) \<times> limiter" where
  "mem_enforce_upload_limits cfg now key n actor lm =
     (case actor of
        Some u \<Rightarrow> mem_enforce_user cfg now key n u lm
      | None \<Rightarrow> mem_enforce_anon cfg now key n lm)"

section \<open>The limiter in Redis\<close>

text \<open>The loop over the hash of a scope: the bytes of the last 60 buckets, and the fields that are older.\<close>

fun sum_buckets :: "int \<Rightarrow> (string \<times> string) list \<Rightarrow> int \<Rightarrow> string list \<Rightarrow> err + (int \<times> string list)" where
  "sum_buckets cutoff [] acc stale = Inr (acc, stale)"
| "sum_buckets cutoff ((field, raw) # rest) acc stale =
     and_then (text_int field) (\<lambda>bucket.
       if bucket < cutoff then sum_buckets cutoff rest acc (stale @ [field])
       else and_then (text_int raw) (\<lambda>v. sum_buckets cutoff rest (acc + v) stale))"

definition redis_check_requests :: "'s redis_client \<Rightarrow> string \<Rightarrow> int \<Rightarrow> 's \<Rightarrow> (err + unit) \<times> 's" where
  "redis_check_requests client req_key rpm =
     (if 0 < rpm then
        io_bind (rc_get client req_key) (\<lambda>reply.
        io_bind (io_lift (reply_int reply)) (\<lambda>requests.
          if rpm \<le> requests then io_raise rate_exceeded else io_return ()))
      else io_return ())"

definition redis_check_bytes :: "'s redis_client \<Rightarrow> string \<Rightarrow> int \<Rightarrow> int \<Rightarrow> int \<Rightarrow> 's \<Rightarrow> (err + unit) \<times> 's" where
  "redis_check_bytes client bytes_key bucket bph n =
     (if 0 < bph then
        io_bind (rc_hgetall client bytes_key) (\<lambda>values.
        io_bind (io_lift (sum_buckets (bucket - 59) values 0 [])) (\<lambda>(used, stale).
        io_seq (if stale \<noteq> [] then rc_hdel client bytes_key stale else io_return ())
          (if bph < used + n then io_raise bandwidth_exceeded else io_return ())))
      else io_return ())"

definition redis_enforce_counter ::
  "'s redis_client \<Rightarrow> redis_handle \<Rightarrow> string \<Rightarrow> int \<Rightarrow> int \<Rightarrow> int \<Rightarrow> int \<Rightarrow> 's \<Rightarrow> (err + unit) \<times> 's" where
  "redis_enforce_counter client h scope bucket rpm bph n =
     (let req_key = prefixed h (''rl:req:'' @ scope @ '':'' @ show_int bucket);
          bytes_key = prefixed h (''rl:bytes:'' @ scope)
      in io_seq (redis_check_requests client req_key rpm)
        (io_seq (redis_check_bytes client bytes_key bucket bph n)
        (io_seq (rc_incr client req_key)
        (io_seq (rc_expire client req_key 120)
        (io_seq (rc_hincrby client bytes_key (show_int bucket) n)
          (rc_expire client bytes_key 3720))))))"

definition enforce_with_redis ::
  "(string \<Rightarrow> err + int) \<Rightarrow> 's redis_client \<Rightarrow> redis_handle \<Rightarrow> time \<Rightarrow> string \<Rightarrow> int \<Rightarrow> user option
     \<Rightarrow> 's \<Rightarrow> (err + unit) \<times> 's" where
  "enforce_with_redis cfg client h wall key n actor =
     (let bucket = (wall div sec) div 60 in
      case actor of
        Some u \<Rightarrow>
          io_bind (io_lift (limit_or (us_rate_limit_rpm u) (cfg ''rate_limit_user_rpm''))) (\<lambda>rpm.
          io_bind (io_lift (limit_or (us_rate_limit_bph u) (cfg ''rate_limit_user_bph''))) (\<lambda>bph.
            redis_enforce_counter client h (''user:'' @ key) bucket rpm bph n))
      | None \<Rightarrow>
          io_bind (io_lift (anon_limits cfg)) (\<lambda>(rpm, bph, grpm, gbph).
          io_seq (redis_enforce_counter client h (''anon:'' @ key) bucket rpm bph n)
            (redis_enforce_counter client h ''anon:global'' bucket grpm gbph n)))"

definition redis_enforce_upload_limits ::
  "(string \<Rightarrow> err + int) \<Rightarrow> 's redis_client \<Rightarrow> time \<Rightarrow> time \<Rightarrow> time \<Rightarrow> time \<Rightarrow> string \<Rightarrow> int \<Rightarrow> user option
     \<Rightarrow> redis_handle \<times> 's \<times> limiter \<times> bool \<Rightarrow> (err + unit) \<times> redis_handle \<times> 's \<times> limiter \<times> bool" where
  "redis_enforce_upload_limits cfg client now wall later fall key n actor st =
     with_redis_fallback now later (enforce_with_redis cfg client (fst st) wall key n actor)
       (mem_enforce_upload_limits cfg fall key n actor) st"

end
