(* ===== verification/Rate_Limit_Props.thy ===== *)
theory Rate_Limit_Props
  imports Rate_Limits
begin

text \<open>
  What the upload limits guarantee over a whole run of requests, and where the two implementations
  fall short of their names.
\<close>

section \<open>One counter\<close>

lemma window_prune_twice:
  "sorted (map fst es) \<Longrightarrow> w \<le> w' \<Longrightarrow> window_prune now w' (window_prune now w es) = window_prune now w es"
  unfolding window_prune_def
  by (simp add: upload_window.dropWhile_sorted sorted_filter) (rule filter_cong, auto)

text \<open>The counter after a check is the pruned one, and the check passes if there is room.\<close>

lemma enforce_counter_spec:
  assumes "upload_window.tracks minute now0 adm es" "now0 \<le> now"
    and "enforce_counter now rpm bph n es = (r, es')"
  shows "upload_window.tracks minute now adm es'"
    and "is_ok r \<Longrightarrow> 0 < rpm \<Longrightarrow>
      sum_list (map (\<lambda>_. 1) (filter (\<lambda>x. now - minute < fst x) adm)) + 1 \<le> rpm"
    and "is_ok r \<Longrightarrow> 0 < bph \<Longrightarrow>
      sum_list (map snd (filter (\<lambda>x. now - minute < fst x) adm)) + n \<le> bph"
proof -
  note p = upload_window.tracks_prune [OF assms(1,2)]
  have "sorted (map fst es)"
    using assms(1) unfolding upload_window.tracks_def by (auto intro: sorted_filter)
  then have twice: "window_prune now hour (window_prune now minute es) = window_prune now minute es"
    by (rule window_prune_twice) (simp add: minute_def hour_def seconds_def sec_def)
  have es': "es' = window_prune now minute es"
    using assms(3) by (auto simp: enforce_counter_def window_count_def window_bytes_used_def Let_def twice
        split: if_splits)
  with p(1) show "upload_window.tracks minute now adm es'" by simp
  show "is_ok r \<Longrightarrow> 0 < rpm \<Longrightarrow>
      sum_list (map (\<lambda>_. 1) (filter (\<lambda>x. now - minute < fst x) adm)) + 1 \<le> rpm"
    using assms(3) by (auto simp: enforce_counter_def window_count_def window_bytes_used_def Let_def p(2)
        sum_list_triv split: if_splits)
  show "is_ok r \<Longrightarrow> 0 < bph \<Longrightarrow>
      sum_list (map snd (filter (\<lambda>x. now - minute < fst x) adm)) + n \<le> bph"
    using assms(3) by (auto simp: enforce_counter_def window_count_def window_bytes_used_def Let_def p(2) twice [unfolded p(2)]
        split: if_splits)
qed

section \<open>A run of requests\<close>

record upload_request =
  rq_time :: time
  rq_key :: string
  rq_bytes :: int
  rq_user :: "user option"

text \<open>The requests the limiter lets through, in order, and the state after them.\<close>

fun admit_all :: "(string \<Rightarrow> err + int) \<Rightarrow> upload_request list \<Rightarrow> limiter \<Rightarrow> upload_request list \<times> limiter" where
  "admit_all cfg [] lm = ([], lm)"
| "admit_all cfg (q # qs) lm =
     (case mem_enforce_upload_limits cfg (rq_time q) (rq_key q) (rq_bytes q) (rq_user q) lm of
        (r, lm1) \<Rightarrow> (case admit_all cfg qs lm1 of
          (adm, lm2) \<Rightarrow> (if is_ok r then q # adm else adm, lm2)))"

definition anon_entries :: "upload_request list \<Rightarrow> window" where
  "anon_entries qs = map (\<lambda>q. (rq_time q, rq_bytes q)) (filter (\<lambda>q. rq_user q = None) qs)"

definition key_entries :: "string \<Rightarrow> upload_request list \<Rightarrow> window" where
  "key_entries k qs = map (\<lambda>q. (rq_time q, rq_bytes q)) (filter (\<lambda>q. rq_user q = None \<and> rq_key q = k) qs)"

lemma entries_append:
  "anon_entries (xs @ ys) = anon_entries xs @ anon_entries ys"
  "key_entries k (xs @ ys) = key_entries k xs @ key_entries k ys"
  by (simp_all add: anon_entries_def key_entries_def)

definition window_of :: "(string \<rightharpoonup> 'e list) \<Rightarrow> string \<Rightarrow> 'e list" where
  "window_of m k = (case m k of Some es \<Rightarrow> es | None \<Rightarrow> [])"

lemma window_of_upd [simp]: "window_of (m(k \<mapsto> es)) k' = (if k' = k then es else window_of m k')"
  by (simp add: window_of_def)

lemma setdefault_window: "setdefault k m = (es, m') \<Longrightarrow> es = window_of m k \<and> window_of m' = window_of m"
  by (auto simp: setdefault_def window_of_def split: option.splits)

text \<open>A window that holds at most \<open>L\<close> in every span of a minute, if \<open>L\<close> limits at all.\<close>

definition held :: "(time \<times> int \<Rightarrow> int) \<Rightarrow> int \<Rightarrow> window \<Rightarrow> bool" where
  "held wt L es \<longleftrightarrow> (0 < L \<longrightarrow> upload_window.bounded minute wt L es)"

definition counter_inv :: "time \<Rightarrow> int \<Rightarrow> int \<Rightarrow> window \<Rightarrow> window \<Rightarrow> bool" where
  "counter_inv now rpm bph adm es \<longleftrightarrow>
     upload_window.tracks minute now adm es \<and> (\<forall>e\<in>set adm. 0 \<le> snd e)
     \<and> held (\<lambda>_. 1) rpm adm \<and> held snd bph adm"

lemma counter_inv_Nil: "counter_inv now rpm bph [] []"
  by (simp add: counter_inv_def upload_window.tracks_Nil held_def upload_window.bounded_Nil)

lemma counter_inv_later: "counter_inv now rpm bph adm es \<Longrightarrow> now \<le> now' \<Longrightarrow> counter_inv now' rpm bph adm es"
  unfolding counter_inv_def using upload_window.tracks_later by blast

lemma counter_inv_check:
  assumes "counter_inv now0 rpm bph adm es" "now0 \<le> now" "enforce_counter now rpm bph n es = (r, es')"
  shows "counter_inv now rpm bph adm es'"
  using assms enforce_counter_spec(1) unfolding counter_inv_def by blast

lemma counter_inv_admit:
  assumes "counter_inv now0 rpm bph adm es" "now0 \<le> now" "enforce_counter now rpm bph n es = (Inr (), es')" "0 \<le> n"
  shows "counter_inv now rpm bph (adm @ [(now, n)]) (window_add now n es')"
proof -
  from assms(1) have t: "upload_window.tracks minute now0 adm es" "\<forall>e\<in>set adm. 0 \<le> snd e"
    "held (\<lambda>_. 1) rpm adm" "held snd bph adm" by (simp_all add: counter_inv_def)
  note spec = enforce_counter_spec [OF t(1) assms(2,3)]
  have "upload_window.tracks minute now (adm @ [(now, n)]) (es' @ [(now, n)])"
    using upload_window.tracks_add [OF spec(1), of "(now, n)"] by (simp add: minute_def seconds_def sec_def)
  moreover have "held (\<lambda>_. 1) rpm (adm @ [(now, n)])"
    using t(3) spec(2) unfolding held_def by (auto intro!: upload_window.bounded_admit)
  moreover have "held snd bph (adm @ [(now, n)])"
    using t(2,4) spec(3) unfolding held_def by (auto intro!: upload_window.bounded_admit)
  ultimately show ?thesis
    using t(2) assms(4) by (simp add: counter_inv_def window_add_def)
qed

text \<open>The invariant of the limiter, against the requests admitted so far.\<close>

definition limiter_inv :: "int \<times> int \<times> int \<times> int \<Rightarrow> time \<Rightarrow> upload_request list \<Rightarrow> limiter \<Rightarrow> bool" where
  "limiter_inv limits now adm lm = (case limits of (rpm, bph, grpm, gbph) \<Rightarrow>
     (\<forall>k. counter_inv now rpm bph (key_entries k adm) (window_of (lm_anon lm) k))
     \<and> counter_inv now grpm gbph (anon_entries adm) (lm_global lm))"

lemma limiter_inv_step:
  assumes inv: "limiter_inv limits now adm lm" "now \<le> rq_time q" "0 \<le> rq_bytes q"
    and cfg: "anon_limits cfg = Inr limits"
    and step: "mem_enforce_upload_limits cfg (rq_time q) (rq_key q) (rq_bytes q) (rq_user q) lm = (r, lm')"
  shows "limiter_inv limits (rq_time q) (if is_ok r then adm @ [q] else adm) lm'"
proof (cases "rq_user q")
  case (Some u)
  have "anon_entries [q] = []" "key_entries k [q] = []" for k
    using Some by (simp_all add: anon_entries_def key_entries_def)
  moreover have "lm_anon lm' = lm_anon lm" "lm_global lm' = lm_global lm"
    using step Some by (auto simp: mem_enforce_upload_limits_def mem_enforce_user_def Let_def
        split: prod.splits sum.splits)
  ultimately show ?thesis
    using inv(1) counter_inv_later [OF _ inv(2)] by (auto simp: limiter_inv_def entries_append split: prod.splits)
next
  case None
  obtain rpm bph grpm gbph where lim: "limits = (rpm, bph, grpm, gbph)" by (cases limits)
  let ?k = "rq_key q" and ?t = "rq_time q" and ?n = "rq_bytes q"
  obtain es0 anons where sd: "setdefault ?k (lm_anon lm) = (es0, anons)" by (cases "setdefault ?k (lm_anon lm)")
  note w = setdefault_window [OF sd]
  obtain r1 es where e1: "enforce_counter ?t rpm bph ?n es0 = (r1, es)" by fastforce
  obtain r2 gs where e2: "enforce_counter ?t grpm gbph ?n (lm_global lm) = (r2, gs)" by fastforce
  have keys: "counter_inv now rpm bph (key_entries k adm) (window_of anons k)" for k
    using inv(1) w by (simp add: limiter_inv_def lim)
  have glob: "counter_inv now grpm gbph (anon_entries adm) (lm_global lm)"
    using inv(1) by (simp add: limiter_inv_def lim)
  note keys' = counter_inv_later [OF keys inv(2)] and glob' = counter_inv_later [OF glob inv(2)]
  have own: "counter_inv now rpm bph (key_entries ?k adm) es0" using keys [of ?k] w by simp
  have ent: "key_entries k [q] = (if k = ?k then [(?t, ?n)] else [])" "anon_entries [q] = [(?t, ?n)]" for k
    using None by (auto simp: key_entries_def anon_entries_def)
  note run = step [unfolded mem_enforce_upload_limits_def None option.case mem_enforce_anon_def sd cfg lim
      sum.case prod.case Let_def e1]
  show ?thesis
  proof (cases r1)
    case (Inl e)
    with run have "r = Inl e" "lm_anon lm' = anons(?k \<mapsto> es)" "lm_global lm' = lm_global lm" by auto
    then show ?thesis
      using keys' glob' counter_inv_check [OF own inv(2) e1] by (simp add: limiter_inv_def lim)
  next
    case ok1: (Inr u1)
    show ?thesis
    proof (cases r2)
      case (Inl e)
      with run ok1 e2 have "r = Inl e" "lm_anon lm' = anons(?k \<mapsto> es)" "lm_global lm' = gs" by auto
      then show ?thesis
        using keys' counter_inv_check [OF glob inv(2) e2] counter_inv_check [OF own inv(2) e1]
        by (simp add: limiter_inv_def lim)
    next
      case (Inr u2)
      with run ok1 e2 have r: "r = Inr ()" "lm_anon lm' = anons(?k \<mapsto> window_add ?t ?n es)"
        "lm_global lm' = window_add ?t ?n gs" by auto
      have "counter_inv ?t rpm bph (key_entries ?k adm @ [(?t, ?n)]) (window_add ?t ?n es)"
        using counter_inv_admit [OF own inv(2) _ inv(3)] e1 ok1 by simp
      moreover have "counter_inv ?t grpm gbph (anon_entries adm @ [(?t, ?n)]) (window_add ?t ?n gs)"
        using counter_inv_admit [OF glob inv(2) _ inv(3)] e2 Inr by simp
      ultimately show ?thesis
        using keys' by (simp add: limiter_inv_def lim r entries_append ent)
    qed
  qed
qed

lemma admit_all_inv:
  assumes "limiter_inv limits now adm lm" "anon_limits cfg = Inr limits"
    and "sorted (now # map rq_time qs)" "\<forall>q\<in>set qs. 0 \<le> rq_bytes q"
  shows "\<exists>t. limiter_inv limits t (adm @ fst (admit_all cfg qs lm)) (snd (admit_all cfg qs lm))"
  using assms
proof (induction qs arbitrary: now adm lm)
  case (Cons q qs)
  obtain r lm1 where step: "mem_enforce_upload_limits cfg (rq_time q) (rq_key q) (rq_bytes q) (rq_user q) lm = (r, lm1)"
    by fastforce
  have "limiter_inv limits (rq_time q) (if is_ok r then adm @ [q] else adm) lm1"
    using limiter_inv_step [OF Cons.prems(1) _ _ Cons.prems(2) step] Cons.prems(3,4) by simp
  from Cons.IH [OF this Cons.prems(2)] Cons.prems(3,4) show ?case
    by (cases "admit_all cfg qs lm1") (auto simp: step split: if_splits)
qed auto

definition last_minute :: "time \<Rightarrow> window \<Rightarrow> window" where
  "last_minute t es = filter (\<lambda>e. t - minute < fst e \<and> fst e \<le> t) es"

text \<open>C15: Over any run of requests in time order, starting from empty counters, the limiter in memory
  admits in every span of one minute at most the configured number of anonymous uploads of each client
  and at most the configured global number, and no more bytes than the two byte limits (a limit of 0
  does not limit).\<close>

theorem anonymous_minute_limits_hold:
  assumes "anon_limits cfg = Inr (rpm, bph, grpm, gbph)"
    and "sorted (map rq_time qs)" "\<forall>q\<in>set qs. 0 \<le> rq_bytes q"
    and "admit_all cfg qs no_windows = (adm, lm)"
  shows "(0 < rpm \<longrightarrow> int (length (last_minute t (key_entries k adm))) \<le> rpm)
    \<and> (0 < grpm \<longrightarrow> int (length (last_minute t (anon_entries adm))) \<le> grpm)
    \<and> (0 < bph \<longrightarrow> sum_list (map snd (last_minute t (key_entries k adm))) \<le> bph)
    \<and> (0 < gbph \<longrightarrow> sum_list (map snd (last_minute t (anon_entries adm))) \<le> gbph)"
proof -
  obtain now where now: "sorted (now # map rq_time qs)"
    using assms(2) by (cases qs) (auto intro: that)
  have "limiter_inv (rpm, bph, grpm, gbph) now [] no_windows"
    by (simp add: limiter_inv_def no_windows_def window_of_def counter_inv_Nil anon_entries_def key_entries_def)
  from admit_all_inv [OF this assms(1) now assms(3)] assms(4) obtain t' where
    "limiter_inv (rpm, bph, grpm, gbph) t' adm lm" by auto
  then show ?thesis
    by (simp add: limiter_inv_def counter_inv_def held_def upload_window.bounded_def last_minute_def sum_list_triv)
qed

definition sample_request :: "time \<Rightarrow> int \<Rightarrow> upload_request" where
  "sample_request t n = \<lparr>rq_time = t, rq_key = ''ip'', rq_bytes = n, rq_user = None\<rparr>"

theorem anonymous_minute_limits_hold_witness:
  "length (last_minute (seconds 30) (key_entries ''ip''
      (fst (admit_all (\<lambda>_. Inr 2) [sample_request 0 1, sample_request 5 1, sample_request 9 1] no_windows)))) \<le> 2"
proof -
  let ?qs = "[sample_request 0 1, sample_request 5 1, sample_request 9 1]"
  have "anon_limits (\<lambda>_. Inr 2) = Inr (2, 2, 2, 2)" by (simp add: anon_limits_def)
  moreover have "sorted (map rq_time ?qs)" "\<forall>q\<in>set ?qs. 0 \<le> rq_bytes q" by (simp_all add: sample_request_def)
  ultimately show ?thesis
    using anonymous_minute_limits_hold [of "\<lambda>_. Inr 2" 2 2 2 2 ?qs] by (metis linorder_not_less of_nat_le_numeral_iff prod.collapse zero_less_numeral)
qed

section \<open>The limit on bytes per hour\<close>

lemma enforce_counter_stale:
  assumes "\<forall>e\<in>set es. fst e + minute \<le> now" "0 < bph \<Longrightarrow> n \<le> bph"
  shows "enforce_counter now rpm bph n es = (Inr (), [])"
proof -
  have "window_prune now minute es = []"
    using assms(1) by (force simp: window_prune_def dropWhile_eq_Nil_conv)
  moreover have "window_prune now hour [] = []" by (simp add: window_prune_def)
  ultimately show ?thesis
    using assms(2) by (auto simp: enforce_counter_def window_count_def window_bytes_used_def Let_def)
qed

definition anon_request :: "string \<Rightarrow> int \<Rightarrow> time \<Rightarrow> upload_request" where
  "anon_request key n t = \<lparr>rq_time = t, rq_key = key, rq_bytes = n, rq_user = None\<rparr>"

lemma anon_request_sel [simp]:
  "rq_time (anon_request key n t) = t" "rq_key (anon_request key n t) = key"
  "rq_bytes (anon_request key n t) = n" "rq_user (anon_request key n t) = None"
  by (simp_all add: anon_request_def)

lemma admit_spaced:
  assumes "anon_limits cfg = Inr (rpm, bph, grpm, gbph)" "0 < bph \<Longrightarrow> n \<le> bph" "0 < gbph \<Longrightarrow> n \<le> gbph"
    and "sorted_wrt (\<lambda>s t. s + minute \<le> t) ts"
    and "\<forall>t\<in>set ts. \<forall>e\<in>set (window_of (lm_anon lm) key) \<union> set (lm_global lm). fst e + minute \<le> t"
  shows "fst (admit_all cfg (map (anon_request key n) ts) lm) = map (anon_request key n) ts"
  using assms(4,5)
proof (induction ts arbitrary: lm)
  case (Cons t ts)
  obtain es0 anons where sd: "setdefault key (lm_anon lm) = (es0, anons)" by (cases "setdefault key (lm_anon lm)")
  note w = setdefault_window [OF sd]
  have "enforce_counter t rpm bph n es0 = (Inr (), [])"
    using Cons.prems(2) w by (intro enforce_counter_stale assms(2)) auto
  moreover have "enforce_counter t grpm gbph n (lm_global lm) = (Inr (), [])"
    using Cons.prems(2) by (intro enforce_counter_stale assms(3)) auto
  ultimately have step: "mem_enforce_upload_limits cfg t key n None lm =
      (Inr (), lm\<lparr>lm_anon := anons(key \<mapsto> [(t, n)]), lm_global := [(t, n)]\<rparr>)"
    by (simp add: mem_enforce_upload_limits_def mem_enforce_anon_def sd assms(1) window_add_def)
  let ?lm = "lm\<lparr>lm_anon := anons(key \<mapsto> [(t, n)]), lm_global := [(t, n)]\<rparr>"
  have "fst (admit_all cfg (map (anon_request key n) ts) ?lm) = map (anon_request key n) ts"
    using Cons.prems(1) by (intro Cons.IH) (auto simp: window_of_def)
  then show ?case
    by (cases "admit_all cfg (map (anon_request key n) ts) ?lm") (simp add: step)
qed simp

text \<open>The limit on bytes per hour is in effect only within a minute: counting the requests of the last
  minute drops everything older from the very counter whose bytes are then added up. Uploads of one
  client at intervals of a minute or more are all admitted, however many there are and whatever they
  add up to, as long as each fits the limit on its own.\<close>

theorem spaced_uploads_escape_hourly_limit:
  assumes "anon_limits cfg = Inr (rpm, bph, grpm, gbph)" "0 < bph \<longrightarrow> n \<le> bph" "0 < gbph \<longrightarrow> n \<le> gbph"
    and "sorted_wrt (\<lambda>s t. s + minute \<le> t) ts"
  shows "fst (admit_all cfg (map (anon_request key n) ts) no_windows) = map (anon_request key n) ts"
  using assms by (intro admit_spaced [of cfg rpm bph grpm gbph]) (auto simp: no_windows_def window_of_def)

theorem spaced_uploads_escape_hourly_limit_witness:
  "sum_list (map rq_bytes (fst (admit_all (\<lambda>_. Inr 100)
     (map (anon_request ''ip'' 100) [0, minute, 2 * minute, 3 * minute]) no_windows))) = 400"
proof -
  have "anon_limits (\<lambda>_. Inr 100) = Inr (100, 100, 100, 100)" by (simp add: anon_limits_def)
  moreover have "sorted_wrt (\<lambda>s t. s + minute \<le> t) [0, minute, 2 * minute, 3 * minute]"
    by (simp add: minute_def seconds_def sec_def)
  ultimately show ?thesis
    using spaced_uploads_escape_hourly_limit [of "\<lambda>_. Inr 100" 100 100 100 100 100 "[0, minute, 2 * minute, 3 * minute]" "''ip''"]
    by simp
qed

section \<open>The counters in Redis\<close>

text \<open>
  What is assumed of the server: replies report the stored value, \<^verbatim>\<open>INCR\<close> adds one to the integer stored
  at its key (a missing key counts as 0), the other commands do not touch the strings stored. \<open>vals\<close> reads the
  stored strings from the server's state, \<open>hashes\<close> the stored hashes.
\<close>

definition redis_answers ::
  "'s redis_client \<Rightarrow> ('s \<Rightarrow> string \<Rightarrow> string option) \<Rightarrow> ('s \<Rightarrow> string \<Rightarrow> (string \<times> string) list) \<Rightarrow> bool" where
  "redis_answers client vals hashes \<longleftrightarrow>
     (\<forall>s k. rc_get client k s = (Inr (vals s k), s))
     \<and> (\<forall>s k m. reply_int (vals s k) = Inr m \<longrightarrow>
          (\<exists>s'. rc_incr client k s = (Inr (m + 1), s') \<and> vals s' = (vals s)(k \<mapsto> show_int (m + 1))))
     \<and> (\<forall>s k n. \<exists>s'. rc_expire client k n s = (Inr (), s') \<and> vals s' = vals s)
     \<and> (\<forall>s k. rc_hgetall client k s = (Inr (hashes s k), s))
     \<and> (\<forall>s k fs. \<exists>s'. rc_hdel client k fs s = (Inr (), s') \<and> vals s' = vals s)
     \<and> (\<forall>s k f n. \<exists>s'. rc_hincrby client k f n s = (Inr (), s') \<and> vals s' = vals s)"

lemma redis_check_requests_law:
  assumes "redis_answers client vals hashes" "reply_int (vals s rk) = Inr m"
  shows "redis_check_requests client rk rpm s = (if 0 < rpm \<and> rpm \<le> m then Inl rate_exceeded else Inr (), s)"
  using assms by (simp add: redis_check_requests_def redis_answers_def io_defs)

lemma redis_check_bytes_law:
  assumes law: "redis_answers client vals hashes" and used: "sum_buckets (bucket - 59) (hashes s bk) 0 [] = Inr (used, stale)"
  shows "\<exists>s1. redis_check_bytes client bk bucket bph n s =
      (if 0 < bph \<and> bph < used + n then Inl bandwidth_exceeded else Inr (), s1) \<and> vals s1 = vals s"
proof (cases "stale = []")
  case True
  then show ?thesis
    using law used by (intro exI [of _ s]) (simp add: redis_check_bytes_def redis_answers_def io_defs)
next
  case False
  from law obtain s2 where "rc_hdel client bk stale s = (Inr (), s2)" "vals s2 = vals s"
    unfolding redis_answers_def by blast
  with False law used show ?thesis
    by (intro exI [of _ "if 0 < bph then s2 else s"]) (simp add: redis_check_bytes_def redis_answers_def io_defs)
qed

lemma redis_record_law:
  assumes law: "redis_answers client vals hashes" "reply_int (vals s rk) = Inr m"
  shows "\<exists>s'. io_seq (rc_incr client rk) (io_seq (rc_expire client rk x) (io_seq (rc_hincrby client bk f n)
      (rc_expire client bk y))) s = (Inr (), s') \<and> vals s' = (vals s)(rk \<mapsto> show_int (m + 1))"
proof -
  from law obtain s2 where s2: "rc_incr client rk s = (Inr (m + 1), s2)" "vals s2 = (vals s)(rk \<mapsto> show_int (m + 1))"
    unfolding redis_answers_def by blast
  obtain s3 where s3: "rc_expire client rk x s2 = (Inr (), s3)" "vals s3 = vals s2"
    using law unfolding redis_answers_def by blast
  obtain s4 where s4: "rc_hincrby client bk f n s3 = (Inr (), s4)" "vals s4 = vals s3"
    using law unfolding redis_answers_def by blast
  obtain s5 where s5: "rc_expire client bk y s4 = (Inr (), s5)" "vals s5 = vals s4"
    using law unfolding redis_answers_def by blast
  from s2 s3 s4 s5 show ?thesis by (simp add: io_seq_def io_bind_def)
qed

lemma redis_counter:
  assumes law: "redis_answers client vals hashes"
    and req: "reply_int (vals s (prefixed h (''rl:req:'' @ scope @ '':'' @ show_int bucket))) = Inr m"
    and used: "sum_buckets (bucket - 59) (hashes s (prefixed h (''rl:bytes:'' @ scope))) 0 [] = Inr (used, stale)"
    and run: "redis_enforce_counter client h scope bucket rpm bph n s = (r, s')"
  shows "if 0 < rpm \<and> rpm \<le> m then r = Inl rate_exceeded \<and> s' = s
    else if 0 < bph \<and> bph < used + n then r = Inl bandwidth_exceeded \<and> vals s' = vals s
    else r = Inr () \<and> vals s' = (vals s)(prefixed h (''rl:req:'' @ scope @ '':'' @ show_int bucket) \<mapsto> show_int (m + 1))"
proof -
  define rk where "rk = prefixed h (''rl:req:'' @ scope @ '':'' @ show_int bucket)"
  define bk where "bk = prefixed h (''rl:bytes:'' @ scope)"
  note requests = redis_check_requests_law [OF law req [folded rk_def], of rpm]
  from redis_check_bytes_law [OF law used [folded bk_def], of bph n] obtain s1 where
    bytes: "redis_check_bytes client bk bucket bph n s =
      (if 0 < bph \<and> bph < used + n then Inl bandwidth_exceeded else Inr (), s1)" and s1: "vals s1 = vals s" by blast
  have "reply_int (vals s1 rk) = Inr m" using req by (simp only: s1 rk_def)
  from redis_record_law [OF law this] obtain s5 where
    rec: "io_seq (rc_incr client rk) (io_seq (rc_expire client rk 120) (io_seq (rc_hincrby client bk (show_int bucket) n)
      (rc_expire client bk 3720))) s1 = (Inr (), s5)" "vals s5 = (vals s)(rk \<mapsto> show_int (m + 1))"
    unfolding s1 by blast
  have run': "(r, s') = (if 0 < rpm \<and> rpm \<le> m then (Inl rate_exceeded, s)
      else if 0 < bph \<and> bph < used + n then (Inl bandwidth_exceeded, s1) else (Inr (), s5))"
    using run [symmetric] rec(1) requests bytes
    by (simp add: redis_enforce_counter_def Let_def rk_def [symmetric] bk_def [symmetric] io_seq_def io_bind_def
        del: append.simps split: if_splits)
  show ?thesis
    unfolding rk_def [symmetric] using run' rec(2) s1 by (auto split: if_splits)
qed

lemma prefixed_inj: "prefixed h a = prefixed h b \<longleftrightarrow> a = b"
  by (simp add: prefixed_def)

abbreviation req_key :: "redis_handle \<Rightarrow> string \<Rightarrow> time \<Rightarrow> string" where
  "req_key h scope wall \<equiv> prefixed h (''rl:req:'' @ scope @ '':'' @ show_int ((wall div sec) div 60))"

text \<open>In Redis an anonymous upload that passes its client's own limits and is then refused because the
  global counter of the minute is full has already been counted against the client: its own counter
  goes up although nothing is uploaded (the limiter in memory counts admitted uploads only). A refusal
  by the client's own limits counts nothing.\<close>

theorem redis_counts_refused_uploads:
  fixes client :: "'s redis_client"
  assumes "redis_answers client vals hashes"
    and "anon_limits cfg = Inr (rpm, bph, grpm, gbph)" "key \<noteq> ''global''"
    and "reply_int (vals s (req_key h (''anon:'' @ key) wall)) = Inr m"
    and "sum_buckets ((wall div sec) div 60 - 59) (hashes s (prefixed h (''rl:bytes:'' @ ''anon:'' @ key))) 0 [] = Inr (used, stale)"
    and "reply_int (vals s (req_key h ''anon:global'' wall)) = Inr gm" "0 < grpm" "grpm \<le> gm"
    and "enforce_with_redis cfg client h wall key n None s = (r, s')"
  shows "\<exists>e. r = Inl e \<and> (if (0 < rpm \<and> rpm \<le> m) \<or> (0 < bph \<and> bph < used + n) then vals s' = vals s
    else e = rate_exceeded \<and> vals s' = (vals s)(req_key h (''anon:'' @ key) wall \<mapsto> show_int (m + 1)))"
proof -
  let ?b = "(wall div sec) div 60" and ?own = "''anon:'' @ key"
  obtain r1 s1 where r1: "redis_enforce_counter client h ?own ?b rpm bph n s = (r1, s1)"
    by fastforce
  note c = redis_counter [OF assms(1,4,5) r1]
  have ne: "req_key h ''anon:global'' wall \<noteq> req_key h ?own wall"
    using assms(3) by (simp add: prefixed_inj)
  have run: "enforce_with_redis cfg client h wall key n None s =
      io_seq (redis_enforce_counter client h ?own ?b rpm bph n) (redis_enforce_counter client h ''anon:global'' ?b grpm gbph n) s"
    unfolding enforce_with_redis_def Let_def option.case
    by (simp add: io_lift_def io_bind_def assms(2))
  show ?thesis
  proof (cases r1)
    case (Inl x)
    with run assms(9) r1 have "r = Inl x" "s' = s1" by (simp_all add: io_seq_def io_bind_def)
    with c Inl show ?thesis by (auto split: if_splits)
  next
    case (Inr u)
    with c have v: "vals s1 = (vals s)(req_key h ?own wall \<mapsto> show_int (m + 1))"
      and nl: "\<not> (0 < rpm \<and> rpm \<le> m)" "\<not> (0 < bph \<and> bph < used + n)"
      by (auto split: if_splits)
    have "redis_check_requests client (req_key h ''anon:global'' wall) grpm s1 = (Inl rate_exceeded, s1)"
      using assms(1,6,7,8) ne v by (simp add: redis_check_requests_def redis_answers_def io_defs)
    then have "redis_enforce_counter client h ''anon:global'' ?b grpm gbph n s1 = (Inl rate_exceeded, s1)"
      by (simp add: redis_enforce_counter_def Let_def io_seq_def io_bind_def)
    with run assms(9) r1 Inr have "r = Inl rate_exceeded" "s' = s1" by (simp_all add: io_seq_def io_bind_def)
    with v nl show ?thesis by auto
  qed
qed

definition sample_redis :: "(string \<Rightarrow> string option) redis_client" where
  "sample_redis = \<lparr>rc_ping = (\<lambda>s. (Inr True, s)),
     rc_get = (\<lambda>k s. (Inr (s k), s)),
     rc_set_ex = (\<lambda>k v n s. (Inr (), s(k \<mapsto> v))),
     rc_set_nx_ex = (\<lambda>k v n s. if s k = None then (Inr True, s(k \<mapsto> v)) else (Inr False, s)),
     rc_delete = (\<lambda>k s. (Inr (), s(k := None))),
     rc_incr = (\<lambda>k s. case reply_int (s k) of Inl e \<Rightarrow> (Inl e, s) | Inr m \<Rightarrow> (Inr (m + 1), s(k \<mapsto> show_int (m + 1)))),
     rc_expire = (\<lambda>k n s. (Inr (), s)),
     rc_hgetall = (\<lambda>k s. (Inr [], s)),
     rc_hdel = (\<lambda>k fs s. (Inr (), s)),
     rc_hincrby = (\<lambda>k f n s. (Inr (), s)),
     rc_rpush = (\<lambda>k v s. (Inr (), s)),
     rc_blpop = (\<lambda>ks s. (Inr None, s)),
     rc_llen = (\<lambda>k s. (Inr 0, s))\<rparr>"

lemma sample_redis_answers: "redis_answers sample_redis (\<lambda>s. s) (\<lambda>s k. [])"
  by (simp add: redis_answers_def sample_redis_def)

theorem redis_counts_refused_uploads_witness:
  "\<exists>s'. enforce_with_redis (\<lambda>_. Inr 9) sample_redis sample_handle 0 ''ip'' 1 None
      [''img:rl:req:anon:global:0'' \<mapsto> ''9''] = (Inl rate_exceeded, s') \<and> s' ''img:rl:req:anon:ip:0'' = Some ''1''"
proof -
  let ?s = "[''img:rl:req:anon:global:0'' \<mapsto> ''9''] :: string \<Rightarrow> string option"
  obtain r s' where run: "enforce_with_redis (\<lambda>_. Inr 9) sample_redis sample_handle 0 ''ip'' 1 None ?s = (r, s')"
    by fastforce
  have "anon_limits (\<lambda>_. Inr 9) = Inr (9, 9, 9, 9)" by (simp add: anon_limits_def)
  moreover have "''ip'' \<noteq> ''global''" by simp
  moreover have k: "req_key sample_handle (''anon:'' @ ''ip'') 0 = ''img:rl:req:anon:ip:0''" by code_simp
  moreover have "req_key sample_handle ''anon:global'' 0 = ''img:rl:req:anon:global:0''" by code_simp
  moreover have "reply_int None = Inr 0" "reply_int (Some ''9'') = Inr 9" "show_int (0 + 1) = ''1''" by code_simp+
  ultimately show ?thesis
    using redis_counts_refused_uploads [OF sample_redis_answers, of "\<lambda>_. Inr 9" 9 9 9 9 "''ip''" ?s sample_handle 0 0 0 "[]" 9 1 r s'] run
    by simp
qed

end
