(* ===== verification/Auth_Limits.thy ===== *)
theory Auth_Limits
  imports Rate_Limits
begin

text \<open>
  \<^verbatim>\<open>src/imghost/auth_rate_limits.py\<close>: the limits on logins, registrations, API keys and the
  administration, in memory and in Redis. \<open>cfg\<close> is \<^verbatim>\<open>int(await runtime_config.get_value(key))\<close>.
  The counter is the second provider of the interface \<open>sliding_window\<close>.
\<close>

section \<open>The counter\<close>

definition auth_prune :: "time \<Rightarrow> time \<Rightarrow> time list \<Rightarrow> time list" where
  "auth_prune now w events = dropWhile (\<lambda>t. t \<le> now - w) events"

definition auth_count :: "time \<Rightarrow> time \<Rightarrow> time list \<Rightarrow> int \<times> time list" where
  "auth_count now w events = (let es = auth_prune now w events in (int (length es), es))"

definition auth_add :: "time \<Rightarrow> time list \<Rightarrow> time list" where
  "auth_add now events = events @ [now]"

interpretation auth_window: sliding_window "\<lambda>t :: time. t" auth_prune
  by unfold_locales (simp add: auth_prune_def)

section \<open>In memory\<close>

record auth_limiter =
  au_login_ip :: "string \<rightharpoonup> time list"
  au_registration_ip :: "string \<rightharpoonup> time list"
  au_login_failures :: "string \<rightharpoonup> time list"
  au_api_key_failures :: "string \<rightharpoonup> time list"
  au_admin_denials :: "string \<rightharpoonup> time list"
  au_locks :: "string \<rightharpoonup> time"

definition no_attempts :: auth_limiter where
  "no_attempts = \<lparr>au_login_ip = Map.empty, au_registration_ip = Map.empty, au_login_failures = Map.empty,
     au_api_key_failures = Map.empty, au_admin_denials = Map.empty, au_locks = Map.empty\<rparr>"

definition too_many_attempts :: err where
  "too_many_attempts = HTTPException 429 ''Too many authentication attempts. Try again later.''"

definition check_lock :: "string \<Rightarrow> time \<Rightarrow> auth_limiter \<Rightarrow> (err + unit) \<times> auth_limiter" where
  "check_lock key now au =
     (case au_locks au key of
        None \<Rightarrow> (Inr (), au)
      | Some expiry \<Rightarrow>
          if expiry \<le> now then (Inr (), au\<lparr>au_locks := (au_locks au)(key := None)\<rparr>)
          else (Inl too_many_attempts, au))"

definition enforce_attempt_counter :: "time \<Rightarrow> time \<Rightarrow> int \<Rightarrow> time list \<Rightarrow> (err + unit) \<times> time list" where
  "enforce_attempt_counter now w limit events =
     (if limit \<le> 0 then (Inr (), events)
      else (case auth_count now w events of (n, es) \<Rightarrow>
        (if limit \<le> n then Inl too_many_attempts else Inr (), es)))"

text \<open>The attempts of one client in the last minute: looked up, checked, and counted if there is room.\<close>

definition attempt_window ::
  "time \<Rightarrow> int \<Rightarrow> string \<Rightarrow> (string \<rightharpoonup> time list) \<Rightarrow> (err + unit) \<times> (string \<rightharpoonup> time list)" where
  "attempt_window now limit key m =
     (case setdefault key m of (counter, m1) \<Rightarrow>
      (case enforce_attempt_counter now minute limit counter of
         (Inl e, es) \<Rightarrow> (Inl e, m1(key \<mapsto> es))
       | (Inr _, es) \<Rightarrow> (Inr (), m1(key \<mapsto> auth_add now es))))"

definition login_lock :: "string \<Rightarrow> string" where
  "login_lock login_key = ''login:account:'' @ login_key"

definition api_key_lock :: "string \<Rightarrow> string" where
  "api_key_lock ip_key = ''api_key:ip:'' @ ip_key"

definition admin_lock :: "string \<Rightarrow> string" where
  "admin_lock ip_key = ''admin:ip:'' @ ip_key"

definition enforce_login_attempt ::
  "(string \<Rightarrow> err + int) \<Rightarrow> time \<Rightarrow> string \<Rightarrow> string \<Rightarrow> auth_limiter \<Rightarrow> (err + unit) \<times> auth_limiter" where
  "enforce_login_attempt cfg now ip_key login_key au =
     (case check_lock (login_lock login_key) now au of
        (Inl e, au1) \<Rightarrow> (Inl e, au1)
      | (Inr _, au1) \<Rightarrow>
          (case cfg ''auth_rate_limit_login_ip_rpm'' of
             Inl e \<Rightarrow> (Inl e, au1)
           | Inr rpm \<Rightarrow>
               (case attempt_window now rpm ip_key (au_login_ip au1) of
                  (r, m) \<Rightarrow> (r, au1\<lparr>au_login_ip := m\<rparr>))))"

definition enforce_registration_attempt ::
  "(string \<Rightarrow> err + int) \<Rightarrow> time \<Rightarrow> string \<Rightarrow> auth_limiter \<Rightarrow> (err + unit) \<times> auth_limiter" where
  "enforce_registration_attempt cfg now ip_key au =
     (case cfg ''auth_rate_limit_registration_ip_rpm'' of
        Inl e \<Rightarrow> (Inl e, au)
      | Inr rpm \<Rightarrow>
          (case attempt_window now rpm ip_key (au_registration_ip au) of
             (r, m) \<Rightarrow> (r, au\<lparr>au_registration_ip := m\<rparr>)))"

text \<open>The three failure recorders share their body: read the settings, count the failure, and lock when
  the failures of the window reach the threshold.\<close>

definition failure_settings ::
  "(string \<Rightarrow> err + int) \<Rightarrow> string \<Rightarrow> string \<Rightarrow> string \<Rightarrow> err + (int \<times> int \<times> int)" where
  "failure_settings cfg threshold_key window_key lock_key =
     and_then (cfg threshold_key) (\<lambda>threshold. and_then (cfg window_key) (\<lambda>w. and_then (cfg lock_key) (\<lambda>l.
       Inr (threshold, w, l))))"

definition count_failure ::
  "time \<Rightarrow> int \<times> int \<times> int \<Rightarrow> string \<Rightarrow> string \<Rightarrow> (string \<rightharpoonup> time list) \<Rightarrow> (string \<rightharpoonup> time)
     \<Rightarrow> (string \<rightharpoonup> time list) \<times> (string \<rightharpoonup> time)" where
  "count_failure now settings lock key m locks =
     (case settings of (threshold, window_seconds, lock_seconds) \<Rightarrow>
      (case setdefault key m of (counter, m1) \<Rightarrow>
       let counter1 = auth_add now counter in
       if 0 < threshold then
         (case auth_count now (seconds window_seconds) counter1 of (n, es) \<Rightarrow>
           (m1(key \<mapsto> es), if threshold \<le> n then locks(lock \<mapsto> now + seconds lock_seconds) else locks))
       else (m1(key \<mapsto> counter1), locks)))"

definition login_failure_settings :: "(string \<Rightarrow> err + int) \<Rightarrow> err + (int \<times> int \<times> int)" where
  "login_failure_settings cfg = failure_settings cfg ''auth_rate_limit_login_account_failures''
     ''auth_rate_limit_login_account_window_seconds'' ''auth_rate_limit_login_lock_seconds''"

definition api_key_failure_settings :: "(string \<Rightarrow> err + int) \<Rightarrow> err + (int \<times> int \<times> int)" where
  "api_key_failure_settings cfg = failure_settings cfg ''auth_rate_limit_api_key_ip_failures''
     ''auth_rate_limit_api_key_ip_window_seconds'' ''auth_rate_limit_api_key_lock_seconds''"

definition admin_denial_settings :: "(string \<Rightarrow> err + int) \<Rightarrow> err + (int \<times> int \<times> int)" where
  "admin_denial_settings cfg = failure_settings cfg ''auth_rate_limit_admin_ip_failures''
     ''auth_rate_limit_admin_ip_window_seconds'' ''auth_rate_limit_admin_lock_seconds''"

definition record_login_failure ::
  "(string \<Rightarrow> err + int) \<Rightarrow> time \<Rightarrow> string \<Rightarrow> auth_limiter \<Rightarrow> (err + unit) \<times> auth_limiter" where
  "record_login_failure cfg now login_key au =
     (case login_failure_settings cfg of
        Inl e \<Rightarrow> (Inl e, au)
      | Inr settings \<Rightarrow>
          (case count_failure now settings (login_lock login_key) login_key (au_login_failures au) (au_locks au) of
             (m, locks) \<Rightarrow> (Inr (), au\<lparr>au_login_failures := m, au_locks := locks\<rparr>)))"

definition record_login_success :: "string \<Rightarrow> auth_limiter \<Rightarrow> auth_limiter" where
  "record_login_success login_key au =
     au\<lparr>au_login_failures := (au_login_failures au)(login_key := None),
        au_locks := (au_locks au)(login_lock login_key := None)\<rparr>"

definition enforce_api_key_attempt :: "time \<Rightarrow> string \<Rightarrow> auth_limiter \<Rightarrow> (err + unit) \<times> auth_limiter" where
  "enforce_api_key_attempt now ip_key au = check_lock (api_key_lock ip_key) now au"

definition record_api_key_failure ::
  "(string \<Rightarrow> err + int) \<Rightarrow> time \<Rightarrow> string \<Rightarrow> auth_limiter \<Rightarrow> (err + unit) \<times> auth_limiter" where
  "record_api_key_failure cfg now ip_key au =
     (case api_key_failure_settings cfg of
        Inl e \<Rightarrow> (Inl e, au)
      | Inr settings \<Rightarrow>
          (case count_failure now settings (api_key_lock ip_key) ip_key (au_api_key_failures au) (au_locks au) of
             (m, locks) \<Rightarrow> (Inr (), au\<lparr>au_api_key_failures := m, au_locks := locks\<rparr>)))"

definition record_api_key_success :: "string \<Rightarrow> auth_limiter \<Rightarrow> auth_limiter" where
  "record_api_key_success ip_key au =
     au\<lparr>au_api_key_failures := (au_api_key_failures au)(ip_key := None),
        au_locks := (au_locks au)(api_key_lock ip_key := None)\<rparr>"

definition enforce_admin_attempt :: "time \<Rightarrow> string \<Rightarrow> auth_limiter \<Rightarrow> (err + unit) \<times> auth_limiter" where
  "enforce_admin_attempt now ip_key au = check_lock (admin_lock ip_key) now au"

definition record_admin_denial ::
  "(string \<Rightarrow> err + int) \<Rightarrow> time \<Rightarrow> string \<Rightarrow> auth_limiter \<Rightarrow> (err + unit) \<times> auth_limiter" where
  "record_admin_denial cfg now ip_key au =
     (case admin_denial_settings cfg of
        Inl e \<Rightarrow> (Inl e, au)
      | Inr settings \<Rightarrow>
          (case count_failure now settings (admin_lock ip_key) ip_key (au_admin_denials au) (au_locks au) of
             (m, locks) \<Rightarrow> (Inr (), au\<lparr>au_admin_denials := m, au_locks := locks\<rparr>)))"

section \<open>In Redis\<close>

definition redis_enforce_rpm :: "'s redis_client \<Rightarrow> redis_handle \<Rightarrow> time \<Rightarrow> string \<Rightarrow> int \<Rightarrow> 's \<Rightarrow> (err + unit) \<times> 's" where
  "redis_enforce_rpm client h wall key_prefix limit =
     (if limit \<le> 0 then io_return ()
      else let key = prefixed h (key_prefix @ '':'' @ show_int (wall div seconds 60)) in
        io_bind (rc_get client key) (\<lambda>reply.
        io_bind (io_lift (reply_int reply)) (\<lambda>current.
          if limit \<le> current then io_raise too_many_attempts
          else io_bind (rc_incr client key) (\<lambda>updated.
            if updated = 1 then rc_expire client key 120 else io_return ()))))"

definition redis_record_failure ::
  "'s redis_client \<Rightarrow> string \<Rightarrow> string \<Rightarrow> int \<times> int \<times> int \<Rightarrow> 's \<Rightarrow> (err + unit) \<times> 's" where
  "redis_record_failure client counter_key lock_key settings =
     (case settings of (threshold, window_seconds, lock_seconds) \<Rightarrow>
      io_bind (rc_incr client counter_key) (\<lambda>updated.
      io_seq (if updated = 1 then rc_expire client counter_key window_seconds else io_return ())
        (if 0 < threshold \<and> threshold \<le> updated then rc_set_ex client lock_key ''1'' lock_seconds else io_return ())))"

definition redis_raise_if_locked :: "'s redis_client \<Rightarrow> string \<Rightarrow> 's \<Rightarrow> (err + unit) \<times> 's" where
  "redis_raise_if_locked client key =
     io_bind (rc_get client key) (\<lambda>reply. if truthy reply then io_raise too_many_attempts else io_return ())"

definition login_attempt_with_redis ::
  "(string \<Rightarrow> err + int) \<Rightarrow> 's redis_client \<Rightarrow> redis_handle \<Rightarrow> time \<Rightarrow> string \<Rightarrow> string \<Rightarrow> 's \<Rightarrow> (err + unit) \<times> 's" where
  "login_attempt_with_redis cfg client h wall ip_key login_key =
     io_seq (redis_raise_if_locked client (prefixed h (''arl:lock:login:account:'' @ login_key)))
       (io_bind (io_lift (cfg ''auth_rate_limit_login_ip_rpm'')) (\<lambda>limit.
          redis_enforce_rpm client h wall (''arl:req:login:ip:'' @ ip_key) limit))"

definition registration_attempt_with_redis ::
  "(string \<Rightarrow> err + int) \<Rightarrow> 's redis_client \<Rightarrow> redis_handle \<Rightarrow> time \<Rightarrow> string \<Rightarrow> 's \<Rightarrow> (err + unit) \<times> 's" where
  "registration_attempt_with_redis cfg client h wall ip_key =
     io_bind (io_lift (cfg ''auth_rate_limit_registration_ip_rpm'')) (\<lambda>limit.
       redis_enforce_rpm client h wall (''arl:req:register:ip:'' @ ip_key) limit)"

definition login_failure_with_redis ::
  "(string \<Rightarrow> err + int) \<Rightarrow> 's redis_client \<Rightarrow> redis_handle \<Rightarrow> string \<Rightarrow> 's \<Rightarrow> (err + unit) \<times> 's" where
  "login_failure_with_redis cfg client h login_key =
     io_bind (io_lift (login_failure_settings cfg)) (redis_record_failure client
       (prefixed h (''arl:fail:login:account:'' @ login_key)) (prefixed h (''arl:lock:login:account:'' @ login_key)))"

definition login_success_with_redis :: "'s redis_client \<Rightarrow> redis_handle \<Rightarrow> string \<Rightarrow> 's \<Rightarrow> (err + unit) \<times> 's" where
  "login_success_with_redis client h login_key =
     io_seq (rc_delete client (prefixed h (''arl:fail:login:account:'' @ login_key)))
       (rc_delete client (prefixed h (''arl:lock:login:account:'' @ login_key)))"

definition api_key_attempt_with_redis :: "'s redis_client \<Rightarrow> redis_handle \<Rightarrow> string \<Rightarrow> 's \<Rightarrow> (err + unit) \<times> 's" where
  "api_key_attempt_with_redis client h ip_key =
     redis_raise_if_locked client (prefixed h (''arl:lock:api_key:ip:'' @ ip_key))"

definition api_key_failure_with_redis ::
  "(string \<Rightarrow> err + int) \<Rightarrow> 's redis_client \<Rightarrow> redis_handle \<Rightarrow> string \<Rightarrow> 's \<Rightarrow> (err + unit) \<times> 's" where
  "api_key_failure_with_redis cfg client h ip_key =
     io_bind (io_lift (api_key_failure_settings cfg)) (redis_record_failure client
       (prefixed h (''arl:fail:api_key:ip:'' @ ip_key)) (prefixed h (''arl:lock:api_key:ip:'' @ ip_key)))"

definition api_key_success_with_redis :: "'s redis_client \<Rightarrow> redis_handle \<Rightarrow> string \<Rightarrow> 's \<Rightarrow> (err + unit) \<times> 's" where
  "api_key_success_with_redis client h ip_key =
     io_seq (rc_delete client (prefixed h (''arl:fail:api_key:ip:'' @ ip_key)))
       (rc_delete client (prefixed h (''arl:lock:api_key:ip:'' @ ip_key)))"

definition admin_attempt_with_redis :: "'s redis_client \<Rightarrow> redis_handle \<Rightarrow> string \<Rightarrow> 's \<Rightarrow> (err + unit) \<times> 's" where
  "admin_attempt_with_redis client h ip_key =
     redis_raise_if_locked client (prefixed h (''arl:lock:admin:ip:'' @ ip_key))"

definition admin_denial_with_redis ::
  "(string \<Rightarrow> err + int) \<Rightarrow> 's redis_client \<Rightarrow> redis_handle \<Rightarrow> string \<Rightarrow> 's \<Rightarrow> (err + unit) \<times> 's" where
  "admin_denial_with_redis cfg client h ip_key =
     io_bind (io_lift (admin_denial_settings cfg)) (redis_record_failure client
       (prefixed h (''arl:fail:admin:ip:'' @ ip_key)) (prefixed h (''arl:lock:admin:ip:'' @ ip_key)))"

text \<open>\<^verbatim>\<open>_best_effort_clear\<close>: whatever the call raises is swallowed, and the handle does not hear of it.\<close>

definition best_effort_clear ::
  "time \<Rightarrow> ('s \<Rightarrow> (err + unit) \<times> 's) \<Rightarrow> redis_handle \<times> 's \<times> auth_limiter \<times> bool
     \<Rightarrow> redis_handle \<times> 's \<times> auth_limiter \<times> bool" where
  "best_effort_clear now call st =
     (case st of (h, s, au, degraded) \<Rightarrow>
      (case get_client now h of
         (Inl _, h') \<Rightarrow> (h', s, au, degraded)
       | (Inr _, h') \<Rightarrow> (h', snd (call s), au, degraded)))"

text \<open>The public operations of \<^verbatim>\<open>RedisAuthRateLimiter\<close> on the state (handle, server, fallback, degraded).\<close>

type_synonym 's auth_state = "redis_handle \<times> 's \<times> auth_limiter \<times> bool"

definition r_enforce_login_attempt ::
  "(string \<Rightarrow> err + int) \<Rightarrow> 's redis_client \<Rightarrow> time \<Rightarrow> time \<Rightarrow> time \<Rightarrow> time \<Rightarrow> string \<Rightarrow> string
     \<Rightarrow> 's auth_state \<Rightarrow> (err + unit) \<times> 's auth_state" where
  "r_enforce_login_attempt cfg client now wall later fall ip_key login_key st =
     with_redis_fallback now later (login_attempt_with_redis cfg client (fst st) wall ip_key login_key)
       (enforce_login_attempt cfg fall ip_key login_key) st"

definition r_record_login_failure ::
  "(string \<Rightarrow> err + int) \<Rightarrow> 's redis_client \<Rightarrow> time \<Rightarrow> time \<Rightarrow> time \<Rightarrow> string
     \<Rightarrow> 's auth_state \<Rightarrow> (err + unit) \<times> 's auth_state" where
  "r_record_login_failure cfg client now later fall login_key st =
     with_redis_fallback now later (login_failure_with_redis cfg client (fst st) login_key)
       (record_login_failure cfg fall login_key) st"

definition r_record_login_success :: "'s redis_client \<Rightarrow> time \<Rightarrow> string \<Rightarrow> 's auth_state \<Rightarrow> 's auth_state" where
  "r_record_login_success client now login_key st =
     (case st of (h, s, au, degraded) \<Rightarrow>
      best_effort_clear now (login_success_with_redis client h login_key)
        (h, s, record_login_success login_key au, degraded))"

definition r_enforce_registration_attempt ::
  "(string \<Rightarrow> err + int) \<Rightarrow> 's redis_client \<Rightarrow> time \<Rightarrow> time \<Rightarrow> time \<Rightarrow> time \<Rightarrow> string
     \<Rightarrow> 's auth_state \<Rightarrow> (err + unit) \<times> 's auth_state" where
  "r_enforce_registration_attempt cfg client now wall later fall ip_key st =
     with_redis_fallback now later (registration_attempt_with_redis cfg client (fst st) wall ip_key)
       (enforce_registration_attempt cfg fall ip_key) st"

definition r_enforce_api_key_attempt ::
  "'s redis_client \<Rightarrow> time \<Rightarrow> time \<Rightarrow> time \<Rightarrow> string \<Rightarrow> 's auth_state \<Rightarrow> (err + unit) \<times> 's auth_state" where
  "r_enforce_api_key_attempt client now later fall ip_key st =
     with_redis_fallback now later (api_key_attempt_with_redis client (fst st) ip_key)
       (enforce_api_key_attempt fall ip_key) st"

definition r_record_api_key_failure ::
  "(string \<Rightarrow> err + int) \<Rightarrow> 's redis_client \<Rightarrow> time \<Rightarrow> time \<Rightarrow> time \<Rightarrow> string
     \<Rightarrow> 's auth_state \<Rightarrow> (err + unit) \<times> 's auth_state" where
  "r_record_api_key_failure cfg client now later fall ip_key st =
     with_redis_fallback now later (api_key_failure_with_redis cfg client (fst st) ip_key)
       (record_api_key_failure cfg fall ip_key) st"

definition r_record_api_key_success :: "'s redis_client \<Rightarrow> time \<Rightarrow> string \<Rightarrow> 's auth_state \<Rightarrow> 's auth_state" where
  "r_record_api_key_success client now ip_key st =
     (case st of (h, s, au, degraded) \<Rightarrow>
      best_effort_clear now (api_key_success_with_redis client h ip_key)
        (h, s, record_api_key_success ip_key au, degraded))"

definition r_enforce_admin_attempt ::
  "'s redis_client \<Rightarrow> time \<Rightarrow> time \<Rightarrow> time \<Rightarrow> string \<Rightarrow> 's auth_state \<Rightarrow> (err + unit) \<times> 's auth_state" where
  "r_enforce_admin_attempt client now later fall ip_key st =
     with_redis_fallback now later (admin_attempt_with_redis client (fst st) ip_key)
       (enforce_admin_attempt fall ip_key) st"

definition r_record_admin_denial ::
  "(string \<Rightarrow> err + int) \<Rightarrow> 's redis_client \<Rightarrow> time \<Rightarrow> time \<Rightarrow> time \<Rightarrow> string
     \<Rightarrow> 's auth_state \<Rightarrow> (err + unit) \<times> 's auth_state" where
  "r_record_admin_denial cfg client now later fall ip_key st =
     with_redis_fallback now later (admin_denial_with_redis cfg client (fst st) ip_key)
       (record_admin_denial cfg fall ip_key) st"

end
