(* ===== verification/Auth_Limit_Props.thy ===== *)
theory Auth_Limit_Props
  imports Auth_Limits Rate_Limit_Props
begin

text \<open>
  What the limits on authentication guarantee over any interleaving of their operations.
\<close>

section \<open>Sequences of operations\<close>

datatype auth_op =
    LoginAttempt time string string
  | LoginFailure time string
  | LoginSuccess time string
  | Registration time string
  | ApiKeyAttempt time string
  | ApiKeyFailure time string
  | ApiKeySuccess time string
  | AdminAttempt time string
  | AdminDenial time string

fun op_time :: "auth_op \<Rightarrow> time" where
  "op_time (LoginAttempt t _ _) = t"
| "op_time (LoginFailure t _) = t"
| "op_time (LoginSuccess t _) = t"
| "op_time (Registration t _) = t"
| "op_time (ApiKeyAttempt t _) = t"
| "op_time (ApiKeyFailure t _) = t"
| "op_time (ApiKeySuccess t _) = t"
| "op_time (AdminAttempt t _) = t"
| "op_time (AdminDenial t _) = t"

fun auth_step :: "(string \<Rightarrow> err + int) \<Rightarrow> auth_op \<Rightarrow> auth_limiter \<Rightarrow> (err + unit) \<times> auth_limiter" where
  "auth_step cfg (LoginAttempt t ip k) au = enforce_login_attempt cfg t ip k au"
| "auth_step cfg (LoginFailure t k) au = record_login_failure cfg t k au"
| "auth_step cfg (LoginSuccess t k) au = (Inr (), record_login_success k au)"
| "auth_step cfg (Registration t ip) au = enforce_registration_attempt cfg t ip au"
| "auth_step cfg (ApiKeyAttempt t ip) au = enforce_api_key_attempt t ip au"
| "auth_step cfg (ApiKeyFailure t ip) au = record_api_key_failure cfg t ip au"
| "auth_step cfg (ApiKeySuccess t ip) au = (Inr (), record_api_key_success ip au)"
| "auth_step cfg (AdminAttempt t ip) au = enforce_admin_attempt t ip au"
| "auth_step cfg (AdminDenial t ip) au = record_admin_denial cfg t ip au"

definition auth_run :: "(string \<Rightarrow> err + int) \<Rightarrow> auth_op list \<Rightarrow> auth_limiter \<Rightarrow> auth_limiter" where
  "auth_run cfg ops au = fold (\<lambda>op au. snd (auth_step cfg op au)) ops au"

section \<open>Locks\<close>

lemma lock_names [simp]:
  "login_lock a = login_lock b \<longleftrightarrow> a = b" "login_lock a \<noteq> api_key_lock b" "login_lock a \<noteq> admin_lock b"
  "api_key_lock b \<noteq> login_lock a" "admin_lock b \<noteq> login_lock a"
  by (simp_all add: login_lock_def api_key_lock_def admin_lock_def)

lemma check_lock_locks:
  "au_locks (snd (check_lock key now au)) k =
     (if k = key \<and> (\<exists>e. au_locks au k = Some e \<and> e \<le> now) then None else au_locks au k)"
  by (auto simp: check_lock_def split: option.splits)

lemma check_lock_frame [simp]: "au_login_ip (snd (check_lock key now au)) = au_login_ip au"
  by (simp add: check_lock_def split: option.split)

lemma count_failure_locks:
  "count_failure now settings lock key m locks = (m', locks') \<Longrightarrow> k \<noteq> lock \<Longrightarrow> locks' k = locks k"
  by (auto simp: count_failure_def Let_def split: prod.splits if_splits)

lemma count_failure_own:
  "count_failure now (threshold, w, l) lock key m locks = (m', locks') \<Longrightarrow>
     locks' lock = locks lock \<or> locks' lock = Some (now + seconds l)"
  by (auto simp: count_failure_def Let_def split: prod.splits if_splits)

text \<open>While a lock on a login runs, no operation but its success lifts it.\<close>

lemma lock_persists:
  assumes "au_locks au (login_lock k) = Some e" "t0 + seconds l \<le> e" "login_failure_settings cfg = Inr (threshold, w, l)"
    and "t0 \<le> op_time op" "op_time op < t0 + seconds l" "\<And>t. op \<noteq> LoginSuccess t k"
  shows "\<exists>e'. au_locks (snd (auth_step cfg op au)) (login_lock k) = Some e' \<and> t0 + seconds l \<le> e'"
proof (cases op)
  case (LoginAttempt t ip k')
  have "au_locks (snd (check_lock (login_lock k') t au)) (login_lock k) = Some e"
    using assms LoginAttempt by (simp add: check_lock_locks)
  then show ?thesis
    using assms(2) LoginAttempt
    by (auto simp: enforce_login_attempt_def split: prod.splits sum.splits)
next
  case (LoginFailure t k')
  obtain m locks where c: "count_failure t (threshold, w, l) (login_lock k') k' (au_login_failures au) (au_locks au) = (m, locks)"
    by fastforce
  then have "locks (login_lock k) = Some e \<or> locks (login_lock k) = Some (t + seconds l)"
    using count_failure_locks [OF c, of "login_lock k"] count_failure_own [OF c] assms(1) by (cases "k = k'") auto
  with c LoginFailure assms(2-4) show ?thesis by (auto simp: record_login_failure_def)
next
  case (LoginSuccess t k')
  with assms(6) have "k' \<noteq> k" by blast
  with LoginSuccess assms show ?thesis by (simp add: record_login_success_def)
next
  case (Registration t ip)
  with assms show ?thesis by (auto simp: enforce_registration_attempt_def split: sum.split prod.split)
next
  case (ApiKeyAttempt t ip)
  with assms show ?thesis by (simp add: enforce_api_key_attempt_def check_lock_locks)
next
  case (ApiKeyFailure t ip)
  with assms show ?thesis
    by (auto simp: record_api_key_failure_def dest!: count_failure_locks [where k = "login_lock k"] split: sum.split prod.splits)
next
  case (ApiKeySuccess t ip)
  with assms show ?thesis by (simp add: record_api_key_success_def)
next
  case (AdminAttempt t ip)
  with assms show ?thesis by (simp add: enforce_admin_attempt_def check_lock_locks)
next
  case (AdminDenial t ip)
  with assms show ?thesis
    by (auto simp: record_admin_denial_def dest!: count_failure_locks [where k = "login_lock k"] split: sum.split prod.splits)
qed

lemma lock_persists_run:
  assumes "au_locks au (login_lock k) = Some e" "t0 + seconds l \<le> e" "login_failure_settings cfg = Inr (threshold, w, l)"
    and "\<forall>op\<in>set ops. t0 \<le> op_time op \<and> op_time op < t0 + seconds l \<and> (\<forall>t. op \<noteq> LoginSuccess t k)"
  shows "\<exists>e'. au_locks (auth_run cfg ops au) (login_lock k) = Some e' \<and> t0 + seconds l \<le> e'"
  using assms(1,2,4)
proof (induction ops arbitrary: au e)
  case (Cons op ops)
  then obtain e' where "au_locks (snd (auth_step cfg op au)) (login_lock k) = Some e'" "t0 + seconds l \<le> e'"
    using lock_persists [OF Cons.prems(1,2) assms(3), of op] by auto
  from Cons.IH [OF this] Cons.prems(3) show ?case by (simp add: auth_run_def)
qed (auto simp: auth_run_def)

text \<open>Failures within the window stay in the counter.\<close>

lemma prune_keeps: "\<forall>t\<in>set ts. now - w < t \<Longrightarrow> ts \<noteq> [] \<Longrightarrow> \<exists>xs'. auth_prune now w (xs @ ts) = xs' @ ts"
proof (induction xs)
  case Nil
  then show ?case by (cases ts) (auto simp: auth_prune_def intro: exI [of _ "[]"])
next
  case (Cons x xs)
  then show ?case by (cases "x \<le> now - w") (auto simp: auth_prune_def intro: exI [of _ "x # xs"])
qed

lemma record_failure_step:
  assumes cfg: "login_failure_settings cfg = Inr (threshold, w, l)" "0 < threshold"
    and before: "\<exists>xs. window_of (au_login_failures au) k = xs @ ts"
    and win: "\<forall>t\<in>set (ts @ [now]). now - seconds w < t"
  defines "au' \<equiv> snd (record_login_failure cfg now k au)"
  shows "\<exists>xs. window_of (au_login_failures au') k = xs @ ts @ [now]"
    and "threshold \<le> int (length ts) + 1 \<Longrightarrow> au_locks au' (login_lock k) = Some (now + seconds l)"
proof -
  obtain counter m1 where sd: "setdefault k (au_login_failures au) = (counter, m1)" by fastforce
  have "window_of (au_login_failures au) k = counter"
    using sd by (auto simp: setdefault_def window_of_def split: option.splits)
  with before obtain xs where "counter = xs @ ts" by auto
  with prune_keeps [OF win] obtain xs' where p: "auth_prune now (seconds w) (auth_add now counter) = xs' @ ts @ [now]"
    by (auto simp: auth_add_def)
  then have au': "au' = au\<lparr>au_login_failures := m1(k \<mapsto> xs' @ ts @ [now]),
      au_locks := (if threshold \<le> int (length (xs' @ ts @ [now])) then (au_locks au)(login_lock k \<mapsto> now + seconds l)
        else au_locks au)\<rparr>"
    by (simp add: au'_def record_login_failure_def cfg count_failure_def sd auth_count_def Let_def)
  then show "\<exists>xs. window_of (au_login_failures au') k = xs @ ts @ [now]" by (simp add: window_of_def)
  show "threshold \<le> int (length ts) + 1 \<Longrightarrow> au_locks au' (login_lock k) = Some (now + seconds l)"
    by (simp add: au')
qed

lemma record_failures:
  assumes cfg: "login_failure_settings cfg = Inr (threshold, w, l)" "0 < threshold"
    and "sorted ts" "ts \<noteq> []" "\<forall>t\<in>set ts. last ts - seconds w < t"
  shows "(\<exists>xs. window_of (au_login_failures (auth_run cfg (map (\<lambda>t. LoginFailure t k) ts) au)) k = xs @ ts)
    \<and> (threshold \<le> int (length ts) \<longrightarrow>
         au_locks (auth_run cfg (map (\<lambda>t. LoginFailure t k) ts) au) (login_lock k) = Some (last ts + seconds l))"
  using assms(3-5)
proof (induction ts rule: rev_induct)
  case (snoc now ts)
  let ?au = "auth_run cfg (map (\<lambda>t. LoginFailure t k) ts) au"
  have win: "\<forall>t\<in>set (ts @ [now]). now - seconds w < t" using snoc.prems(3) by simp
  have before: "\<exists>xs. window_of (au_login_failures ?au) k = xs @ ts"
  proof (cases "ts = []")
    case False
    have "last ts \<le> now" using snoc.prems(1) False by (simp add: sorted_append)
    then have "\<forall>t\<in>set ts. last ts - seconds w < t" using win by auto
    with snoc.IH [OF _ False] snoc.prems(1) show ?thesis by (simp add: sorted_append)
  qed simp
  note step = record_failure_step [OF cfg before win]
  then show ?case by (simp add: auth_run_def)
qed simp

text \<open>Once the configured number of login failures for an account has been recorded within the window,
  every login to that account is refused with 429 until the lock time after the last of them has passed,
  from whatever address and whatever else is attempted, recorded or counted in between, unless a success
  is recorded for that account.\<close>

theorem login_lockout:
  assumes "login_failure_settings cfg = Inr (threshold, w, l)" "0 < threshold" "threshold \<le> int (length ts)"
    and "sorted ts" "ts \<noteq> []" "\<forall>t\<in>set ts. last ts - seconds w < t"
    and "\<forall>op\<in>set ops. last ts \<le> op_time op \<and> op_time op \<le> now \<and> (\<forall>t. op \<noteq> LoginSuccess t k)"
    and "now < last ts + seconds l"
  shows "fst (enforce_login_attempt cfg now ip k
      (auth_run cfg ops (auth_run cfg (map (\<lambda>t. LoginFailure t k) ts) au))) = Inl too_many_attempts"
proof -
  have "au_locks (auth_run cfg (map (\<lambda>t. LoginFailure t k) ts) au) (login_lock k) = Some (last ts + seconds l)"
    using record_failures [OF assms(1,2,4-6)] assms(3) by blast
  moreover have "\<forall>op\<in>set ops. last ts \<le> op_time op \<and> op_time op < last ts + seconds l \<and> (\<forall>t. op \<noteq> LoginSuccess t k)"
    using assms(7,8) by auto
  ultimately obtain e where
    "au_locks (auth_run cfg ops (auth_run cfg (map (\<lambda>t. LoginFailure t k) ts) au)) (login_lock k) = Some e"
    "last ts + seconds l \<le> e" using lock_persists_run [OF _ order_refl assms(1)] by blast
  with assms(8) show ?thesis by (simp add: enforce_login_attempt_def check_lock_def)
qed

theorem login_lockout_witness:
  "fst (enforce_login_attempt (\<lambda>_. Inr 2) (seconds 3) ''ip'' ''user''
     (auth_run (\<lambda>_. Inr 2) [LoginSuccess (seconds 2) ''other'', LoginAttempt (seconds 2) ''ip'' ''user'']
       (auth_run (\<lambda>_. Inr 2) (map (\<lambda>t. LoginFailure t ''user'') [seconds 1, seconds 2]) no_attempts)))
   = Inl too_many_attempts"
proof -
  have "login_failure_settings (\<lambda>_. Inr 2) = Inr (2, 2, 2)"
    by (simp add: login_failure_settings_def failure_settings_def)
  from login_lockout [OF this, of "[seconds 1, seconds 2]"
      "[LoginSuccess (seconds 2) ''other'', LoginAttempt (seconds 2) ''ip'' ''user'']" "seconds 3" "''user''" "''ip''" no_attempts]
  show ?thesis by (simp add: seconds_def sec_def)
qed

section \<open>Attempts per client\<close>

text \<open>The login attempts of a client that the limiter lets through, in a run of operations.\<close>

fun admitted_logins :: "(string \<Rightarrow> err + int) \<Rightarrow> string \<Rightarrow> auth_op list \<Rightarrow> auth_limiter \<Rightarrow> time list" where
  "admitted_logins cfg ip [] au = []"
| "admitted_logins cfg ip (op # ops) au =
     (case auth_step cfg op au of (r, au') \<Rightarrow>
      (if is_ok r \<and> (\<exists>t k. op = LoginAttempt t ip k) then [op_time op] else [])
        @ admitted_logins cfg ip ops au')"

definition login_inv :: "int \<Rightarrow> time \<Rightarrow> time list \<Rightarrow> time list \<Rightarrow> bool" where
  "login_inv rpm now adm es \<longleftrightarrow> auth_window.tracks minute now adm es \<and> auth_window.bounded minute (\<lambda>_. 1) rpm adm"

lemma login_inv_later: "login_inv rpm now adm es \<Longrightarrow> now \<le> now' \<Longrightarrow> login_inv rpm now' adm es"
  unfolding login_inv_def using auth_window.tracks_later by blast

lemma attempt_window_inv:
  assumes "login_inv rpm now0 adm (window_of m ip)" "now0 \<le> now" "0 < rpm"
    and "attempt_window now rpm key m = (r, m')"
  shows "login_inv rpm now (if key = ip \<and> is_ok r then adm @ [now] else adm) (window_of m' ip)"
proof (cases "key = ip")
  case False
  with assms(4) setdefault_window [where k = key and m = m] have "window_of m' ip = window_of m ip"
    by (auto simp: attempt_window_def window_of_def setdefault_def split: prod.splits sum.splits option.splits if_splits)
  with False login_inv_later [OF assms(1,2)] show ?thesis by simp
next
  case True
  obtain es m1 where sd: "setdefault ip m = (es, m1)" by fastforce
  have "es = window_of m ip" using sd by (auto simp: setdefault_def window_of_def split: option.splits)
  with assms(1) have t: "auth_window.tracks minute now0 adm es" "auth_window.bounded minute (\<lambda>_. 1) rpm adm"
    by (simp_all add: login_inv_def)
  note p = auth_window.tracks_prune [OF t(1) assms(2)]
  show ?thesis
  proof (cases "rpm \<le> int (length (auth_prune now minute es))")
    case full: True
    with assms(3,4) True sd have "r = Inl too_many_attempts" "window_of m' ip = auth_prune now minute es"
      by (auto simp: attempt_window_def enforce_attempt_counter_def auth_count_def Let_def window_of_def)
    with p(1) t(2) show ?thesis by (simp add: login_inv_def)
  next
    case room: False
    with assms(3,4) True sd have r: "r = Inr ()" "window_of m' ip = auth_prune now minute es @ [now]"
      by (auto simp: attempt_window_def enforce_attempt_counter_def auth_count_def Let_def window_of_def auth_add_def)
    have "auth_window.tracks minute now (adm @ [now]) (auth_prune now minute es @ [now])"
      using auth_window.tracks_add [OF p(1), of now] by (simp add: minute_def seconds_def sec_def)
    moreover have "auth_window.bounded minute (\<lambda>_. 1) rpm (adm @ [now])"
      using t(2) room unfolding p(2) by (intro auth_window.bounded_admit) (simp_all add: sum_list_triv)
    ultimately show ?thesis using r True by (simp add: login_inv_def)
  qed
qed

lemma auth_step_login_ip:
  assumes "\<And>t k. op \<noteq> LoginAttempt t ip k"
  shows "window_of (au_login_ip (snd (auth_step cfg op au))) ip = window_of (au_login_ip au) ip"
proof (cases op)
  case (LoginAttempt t ip' k)
  with assms have "ip' \<noteq> ip" by blast
  moreover have "window_of (snd (attempt_window t rpm ip' m)) ip = window_of m ip" if "ip' \<noteq> ip" for rpm m
    using that by (auto simp: attempt_window_def window_of_def setdefault_def split: prod.splits sum.splits option.splits)
  moreover have "au_login_ip au1 = au_login_ip au" if "check_lock key t au = (x, au1)" for key x au1
    using check_lock_frame [of key t au] that by simp
  ultimately show ?thesis
    by (simp add: LoginAttempt enforce_login_attempt_def split: prod.split sum.split) (metis snd_conv)
next
  case (Registration t ip')
  then show ?thesis by (simp add: enforce_registration_attempt_def split: prod.split sum.split)
qed (simp_all add: record_login_failure_def record_login_success_def enforce_api_key_attempt_def
    record_api_key_failure_def record_api_key_success_def enforce_admin_attempt_def record_admin_denial_def
    split: prod.split sum.split)

lemma admitted_logins_inv:
  assumes "cfg ''auth_rate_limit_login_ip_rpm'' = Inr rpm" "0 < rpm"
    and "login_inv rpm now adm (window_of (au_login_ip au) ip)" "sorted (now # map op_time ops)"
  shows "auth_window.bounded minute (\<lambda>_. 1) rpm (adm @ admitted_logins cfg ip ops au)"
  using assms(3,4)
proof (induction ops arbitrary: now adm au)
  case Nil
  then show ?case by (simp add: login_inv_def)
next
  case (Cons op ops)
  obtain r au' where step: "auth_step cfg op au = (r, au')" by fastforce
  have ord: "now \<le> op_time op" "sorted (op_time op # map op_time ops)" using Cons.prems(2) by auto
  let ?adm = "if is_ok r \<and> (\<exists>t k. op = LoginAttempt t ip k) then adm @ [op_time op] else adm"
  have "login_inv rpm (op_time op) ?adm (window_of (au_login_ip au') ip)"
  proof (cases "\<exists>t k. op = LoginAttempt t ip k")
    case False
    then have "window_of (au_login_ip au') ip = window_of (au_login_ip au) ip"
      using auth_step_login_ip [of op ip cfg au] step by auto
    with False login_inv_later [OF Cons.prems(1) ord(1)] show ?thesis by simp
  next
    case True
    then obtain t k where op: "op = LoginAttempt t ip k" by blast
    obtain c au1 where c: "check_lock (login_lock k) t au = (c, au1)" by fastforce
    have au1: "au_login_ip au1 = au_login_ip au" using check_lock_frame [of "login_lock k" t au] c by simp
    show ?thesis
    proof (cases c)
      case (Inl e)
      with step c have "r = Inl e" "au' = au1" by (simp_all add: op enforce_login_attempt_def)
      with au1 login_inv_later [OF Cons.prems(1) ord(1)] show ?thesis by simp
    next
      case (Inr u)
      obtain r2 m where w: "attempt_window t rpm ip (au_login_ip au) = (r2, m)" by fastforce
      with step c Inr assms(1) au1 have "r = r2" "au_login_ip au' = m"
        by (auto simp: op enforce_login_attempt_def)
      with attempt_window_inv [OF Cons.prems(1) _ assms(2) w] ord(1) show ?thesis by (auto simp: op)
    qed
  qed
  note IH = Cons.IH [OF this ord(2)]
  show ?case
  proof (cases "is_ok r \<and> (\<exists>t k. op = LoginAttempt t ip k)")
    case True
    with IH show ?thesis by (simp add: step)
  next
    case False
    with IH show ?thesis by (simp only: admitted_logins.simps step prod.case if_False append_Nil)
  qed
qed

text \<open>However the operations of the limiter interleave, in every span of one minute it lets through at most
  the configured number of login attempts from one address.\<close>

theorem login_attempts_per_minute:
  assumes "cfg ''auth_rate_limit_login_ip_rpm'' = Inr rpm" "0 < rpm" "sorted (map op_time ops)"
  shows "int (length (filter (\<lambda>s. t - minute < s \<and> s \<le> t) (admitted_logins cfg ip ops no_attempts))) \<le> rpm"
proof -
  obtain now where "sorted (now # map op_time ops)" using assms(3) by (cases ops) (auto intro: that)
  moreover have "login_inv rpm now [] (window_of (au_login_ip no_attempts) ip)" for now
    using assms(2) by (simp add: login_inv_def no_attempts_def window_of_def auth_window.tracks_Nil auth_window.bounded_Nil)
  ultimately have "auth_window.bounded minute (\<lambda>_. 1) rpm (admitted_logins cfg ip ops no_attempts)"
    using admitted_logins_inv [where cfg = cfg and rpm = rpm and adm = "[]" and ip = ip and au = no_attempts and ops = ops]
      assms(1,2) by auto
  then show ?thesis by (simp add: auth_window.bounded_def sum_list_triv)
qed

theorem login_attempts_per_minute_witness:
  "length (filter (\<lambda>s. 4 - minute < s \<and> s \<le> 4) (admitted_logins (\<lambda>_. Inr 1) ''ip''
     [LoginAttempt 1 ''ip'' ''u'', LoginFailure 2 ''u'', LoginAttempt 3 ''ip'' ''v''] no_attempts)) \<le> 1"
  using login_attempts_per_minute [of "\<lambda>_. Inr 1" 1 "[LoginAttempt 1 ''ip'' ''u'', LoginFailure 2 ''u'', LoginAttempt 3 ''ip'' ''v'']" 4 "''ip''"]
  by simp

end
