(* ===== verification/Task_Queue.thy ===== *)
theory Task_Queue
  imports Json Models
begin

text \<open>
  \<^verbatim>\<open>src/imghost/tasks.py\<close> and \<^verbatim>\<open>src/imghost/task_catalog.py\<close>: the background tasks, run inline by
  \<^verbatim>\<open>SyncTaskQueue\<close> or taken from a first-in first-out queue by the workers of \<^verbatim>\<open>AsyncTaskQueue\<close>. A
  handler is a state transformer on the whole state, the queue included, so it may enqueue further
  tasks; it raises or returns. What the telemetry is told is kept, in order, as the list of \<open>tnote\<close>.
  The keyword arguments of a task are an association list.
\<close>

section \<open>Tasks\<close>

text \<open>\<open>AJson\<close> is any value of another kind, which only a message from elsewhere can bring.\<close>

datatype arg = AStr string | AInt int | ABool bool | ANone | AJson json

type_synonym kwargs = "(string \<times> arg) list"

datatype task_state =
    Queued | Started | Skipped | RetryScheduled | Succeeded | FailedPermanent | FailedExhausted

record task_run_result =
  tr_state :: task_state
  tr_reason :: "string option"
  tr_retryable :: bool

text \<open>What a handler returns: a \<^verbatim>\<open>TaskRunResult\<close>, or any other object.\<close>

datatype outcome = Result task_run_result | OtherValue

record queued_task =
  qt_task_name :: string
  qt_kwargs :: kwargs
  qt_attempt :: int
  qt_max_attempts :: int

text \<open>The telemetry calls: \<^verbatim>\<open>record_task_enqueued\<close>, \<^verbatim>\<open>record_task_state\<close>, \<^verbatim>\<open>record_task_failure\<close>, the last two
  also with the details that a worker of the Redis queue gives after an exception.\<close>

record details =
  dt_queue :: string
  dt_attempt :: int
  dt_max_attempts :: int
  dt_reason :: "string option"
  dt_kwargs :: kwargs

datatype tnote =
    Enqueued string string
  | State string task_state details
  | Failure string details
  | CrashState string kwargs
  | CrashFailure string kwargs

record 's queue_state =
  qs_queue :: "queued_task list"
  qs_notes :: "tnote list"
  qs_world :: 's

type_synonym 's handler = "kwargs \<Rightarrow> 's queue_state \<Rightarrow> (err + outcome) \<times> 's queue_state"

record 's registered_task =
  rt_handler :: "'s handler"
  rt_default_queue :: string
  rt_max_attempts :: int
  rt_pass_retry_metadata :: bool

type_synonym 's registry = "string \<rightharpoonup> 's registered_task"

definition register ::
  "string \<Rightarrow> 's handler \<Rightarrow> string \<Rightarrow> int \<Rightarrow> bool \<Rightarrow> 's registry \<Rightarrow> 's registry" where
  "register name handler default_queue max_attempts pass_retry reg =
     reg(name \<mapsto> \<lparr>rt_handler = handler, rt_default_queue = default_queue,
                  rt_max_attempts = max 1 max_attempts, rt_pass_retry_metadata = pass_retry\<rparr>)"

record task_spec =
  ts_name :: string
  ts_default_queue :: string
  ts_max_attempts :: int
  ts_pass_retry_metadata :: bool

definition generate_thumbnail_task :: task_spec where
  "generate_thumbnail_task = \<lparr>ts_name = ''generate_thumbnail'', ts_default_queue = ''thumbnails'',
     ts_max_attempts = 3, ts_pass_retry_metadata = True\<rparr>"

definition recover_thumbnails_task :: task_spec where
  "recover_thumbnails_task = \<lparr>ts_name = ''recover_thumbnails'', ts_default_queue = ''thumbnails'',
     ts_max_attempts = 1, ts_pass_retry_metadata = False\<rparr>"

definition prune_expired_albums_task :: task_spec where
  "prune_expired_albums_task = \<lparr>ts_name = ''prune_expired_albums'', ts_default_queue = ''cleanup'',
     ts_max_attempts = 1, ts_pass_retry_metadata = False\<rparr>"

definition all_tasks :: "task_spec list" where
  "all_tasks = [generate_thumbnail_task, recover_thumbnails_task, prune_expired_albums_task]"

definition default_queue_for :: "string \<Rightarrow> err + string" where
  "default_queue_for name =
     (case find (\<lambda>t. ts_name t = name) all_tasks of None \<Rightarrow> Inl (KeyError name) | Some t \<Rightarrow> Inr (ts_default_queue t))"

definition register_core_tasks :: "'s handler \<Rightarrow> 's handler \<Rightarrow> 's handler \<Rightarrow> 's registry \<Rightarrow> 's registry" where
  "register_core_tasks generate_thumbnail recover_thumbnails prune_expired_albums reg =
     register (ts_name prune_expired_albums_task) prune_expired_albums (ts_default_queue prune_expired_albums_task) 1 False
       (register (ts_name recover_thumbnails_task) recover_thumbnails (ts_default_queue recover_thumbnails_task) 1 False
         (register (ts_name generate_thumbnail_task) generate_thumbnail (ts_default_queue generate_thumbnail_task)
           (ts_max_attempts generate_thumbnail_task) (ts_pass_retry_metadata generate_thumbnail_task) reg))"

text \<open>\<^verbatim>\<open>normalize_task_queues\<close> of a sequence.\<close>

fun add_queue :: "string \<Rightarrow> string list \<Rightarrow> string list" where
  "add_queue raw normalized =
     (let q = py_lower (py_strip raw) in if q = [] \<or> q \<in> set normalized then normalized else normalized @ [q])"

definition normalize_task_queues :: "string list option \<Rightarrow> string list option" where
  "normalize_task_queues queues = map_option (\<lambda>qs. fold add_queue qs []) queues"

section \<open>Attempts\<close>

text \<open>\<open>int(kwargs.pop(key, default))\<close>: the number, and the arguments without the key; no attempt is a float.\<close>

fun arg_int :: "arg \<Rightarrow> err + int" where
  "arg_int (AInt n) = Inr n"
| "arg_int (ABool b) = Inr (if b then 1 else 0)"
| "arg_int (AStr s) = (case py_int s of Some n \<Rightarrow> Inr n | None \<Rightarrow> Inl (ValueError ''invalid literal for int() with base 10''))"
| "arg_int _ = Inl (TypeError ''int() argument must be a string, a bytes-like object or a real number'')"

definition pop_int :: "string \<Rightarrow> int \<Rightarrow> kwargs \<Rightarrow> (err + int) \<times> kwargs" where
  "pop_int key dflt kw =
     (case map_of kw key of None \<Rightarrow> Inr dflt | Some a \<Rightarrow> arg_int a, filter (\<lambda>e. fst e \<noteq> key) kw)"

definition attempt_metadata :: "'s registered_task \<Rightarrow> kwargs \<Rightarrow> err + (int \<times> int \<times> kwargs)" where
  "attempt_metadata task kw =
     (case pop_int ''_task_attempt'' 1 kw of (a, kw1) \<Rightarrow>
      (case pop_int ''_task_max_attempts'' (rt_max_attempts task) kw1 of (m, kw2) \<Rightarrow>
        and_then a (\<lambda>attempt. and_then m (\<lambda>max_attempts. Inr (attempt, max_attempts, kw2)))))"

definition handler_kwargs :: "'s registered_task \<Rightarrow> int \<Rightarrow> int \<Rightarrow> kwargs \<Rightarrow> kwargs" where
  "handler_kwargs task attempt max_attempts kw =
     (if rt_pass_retry_metadata task
      then filter (\<lambda>e. fst e \<notin> {''attempt'', ''max_attempts''}) kw @ [(''attempt'', AInt attempt), (''max_attempts'', AInt max_attempts)]
      else kw)"

definition tell :: "tnote list \<Rightarrow> 's queue_state \<Rightarrow> 's queue_state" where
  "tell ns st = st\<lparr>qs_notes := qs_notes st @ ns\<rparr>"

definition mk_details :: "string \<Rightarrow> int \<Rightarrow> int \<Rightarrow> string option \<Rightarrow> kwargs \<Rightarrow> details" where
  "mk_details q a m r kw = \<lparr>dt_queue = q, dt_attempt = a, dt_max_attempts = m, dt_reason = r, dt_kwargs = kw\<rparr>"

definition is_failure :: "task_state \<Rightarrow> bool" where
  "is_failure s = (s \<in> {FailedPermanent, FailedExhausted})"

definition terminal_state :: "task_run_result \<Rightarrow> task_state" where
  "terminal_state r = (if tr_state r = RetryScheduled then FailedExhausted else tr_state r)"

definition wants_retry :: "task_run_result \<Rightarrow> int \<Rightarrow> int \<Rightarrow> bool" where
  "wants_retry r attempt max_attempts = (tr_state r = RetryScheduled \<and> tr_retryable r \<and> attempt < max_attempts)"

text \<open>The notes of a task that ends: \<open>end_notes\<close> after a result, \<open>crash_notes\<close> after an exception.\<close>

definition end_notes :: "string \<Rightarrow> string \<Rightarrow> int \<Rightarrow> int \<Rightarrow> kwargs \<Rightarrow> outcome \<Rightarrow> tnote list" where
  "end_notes name q a m kw out =
     (case out of
        OtherValue \<Rightarrow> [State name Succeeded (mk_details q a m None kw)]
      | Result r \<Rightarrow>
          let d = mk_details q a m (tr_reason r) kw; t = terminal_state r in
          State name t d # (if is_failure t then [Failure name d] else []))"

definition crash_notes :: "string \<Rightarrow> string \<Rightarrow> int \<Rightarrow> int \<Rightarrow> kwargs \<Rightarrow> err \<Rightarrow> tnote list" where
  "crash_notes name q a m kw e =
     (let d = mk_details q a m (Some (err_text e)) kw in [State name FailedPermanent d, Failure name d])"

definition run_handler ::
  "'s registered_task \<Rightarrow> string \<Rightarrow> string \<Rightarrow> int \<Rightarrow> int \<Rightarrow> kwargs \<Rightarrow> 's queue_state \<Rightarrow> (err + outcome) \<times> 's queue_state" where
  "run_handler task name q a m kw st =
     rt_handler task (handler_kwargs task a m kw) (tell [State name Started (mk_details q a m None kw)] st)"

section \<open>The queue that runs inline\<close>

text \<open>The \<^verbatim>\<open>while True\<close> loop of \<^verbatim>\<open>SyncTaskQueue.enqueue\<close>; it goes round again only below \<^verbatim>\<open>max_attempts\<close>.\<close>

function sync_loop :: "'s registered_task \<Rightarrow> string \<Rightarrow> string \<Rightarrow> int \<Rightarrow> int \<Rightarrow> kwargs \<Rightarrow> 's queue_state \<Rightarrow> 's queue_state" where
  "sync_loop task name q a m kw st =
     (case run_handler task name q a m kw st of
        (Inl e, st1) \<Rightarrow> tell (crash_notes name q a m kw e) st1
      | (Inr OtherValue, st1) \<Rightarrow> tell (end_notes name q a m kw OtherValue) st1
      | (Inr (Result r), st1) \<Rightarrow>
          if wants_retry r a m then
            sync_loop task name q (a + 1) m kw
              (tell [State name RetryScheduled (mk_details q a m (tr_reason r) kw),
                     State name Queued (mk_details q (a + 1) m None kw)] st1)
          else tell (end_notes name q a m kw (Result r)) st1)"
  by pat_completeness auto
termination
  by (relation "measure (\<lambda>(task, name, q, a, m, kw, st). nat (m - a))") (auto simp: wants_retry_def)

declare sync_loop.simps [simp del]

definition sync_enqueue :: "'s registry \<Rightarrow> string \<Rightarrow> string option \<Rightarrow> kwargs \<Rightarrow> 's queue_state \<Rightarrow> (err + unit) \<times> 's queue_state" where
  "sync_enqueue reg name queue kw st =
     (case reg name of
        None \<Rightarrow> (Inl (KeyError name), st)
      | Some task \<Rightarrow>
          let q = (case queue of Some q \<Rightarrow> q | None \<Rightarrow> rt_default_queue task) in
          (case attempt_metadata task kw of
             Inl e \<Rightarrow> (Inl e, st)
           | Inr (a, m, kw') \<Rightarrow>
               (Inr (), sync_loop task name q a m kw'
                 (tell [Enqueued q name, State name Queued (mk_details q a m None kw')] st))))"

section \<open>The queue with workers\<close>

definition async_enqueue :: "'s registry \<Rightarrow> string \<Rightarrow> string option \<Rightarrow> kwargs \<Rightarrow> 's queue_state \<Rightarrow> (err + unit) \<times> 's queue_state" where
  "async_enqueue reg name queue kw st =
     (case reg name of
        None \<Rightarrow> (Inl (KeyError name), st)
      | Some task \<Rightarrow>
          let q = (case queue of Some q \<Rightarrow> q | None \<Rightarrow> rt_default_queue task) in
          (case attempt_metadata task kw of
             Inl e \<Rightarrow> (Inl e, st)
           | Inr (a, m, kw') \<Rightarrow>
               let a' = max 1 a; m' = max 1 m;
                   item = \<lparr>qt_task_name = name, qt_kwargs = kw', qt_attempt = a', qt_max_attempts = m'\<rparr> in
               (Inr (), tell [Enqueued q name, State name Queued (mk_details q a' m' None kw')]
                 (st\<lparr>qs_queue := qs_queue st @ [item]\<rparr>))))"

text \<open>\<^verbatim>\<open>_handle_task_result\<close>; a retry goes back to the end of the queue through \<^verbatim>\<open>enqueue\<close>.\<close>

definition retry_kwargs :: "int \<Rightarrow> int \<Rightarrow> kwargs \<Rightarrow> kwargs" where
  "retry_kwargs a m kw = (''_task_attempt'', AInt (a + 1)) # (''_task_max_attempts'', AInt m) # kw"

definition handle_task_result ::
  "'s registry \<Rightarrow> string \<Rightarrow> queued_task \<Rightarrow> outcome \<Rightarrow> 's queue_state \<Rightarrow> (err + unit) \<times> 's queue_state" where
  "handle_task_result reg q item out st =
     (let name = qt_task_name item; kw = qt_kwargs item; a = qt_attempt item; m = qt_max_attempts item in
      case out of
        OtherValue \<Rightarrow> (Inr (), tell (end_notes name q a m kw OtherValue) st)
      | Result r \<Rightarrow>
          if wants_retry r a m then
            async_enqueue reg name (Some q) (retry_kwargs a m kw)
              (tell [State name RetryScheduled (mk_details q a m (tr_reason r) kw)] st)
          else (Inr (), tell (end_notes name q a m kw (Result r)) st))"

definition execute_task :: "'s registry \<Rightarrow> 's registered_task \<Rightarrow> string \<Rightarrow> queued_task \<Rightarrow> 's queue_state \<Rightarrow> (err + unit) \<times> 's queue_state" where
  "execute_task reg task q item st =
     (let name = qt_task_name item; kw = qt_kwargs item; a = qt_attempt item; m = qt_max_attempts item in
      case run_handler task name q a m kw st of
        (Inl e, st1) \<Rightarrow> (Inr (), tell (crash_notes name q a m kw e) st1)
      | (Inr out, st1) \<Rightarrow> handle_task_result reg q item out st1)"

text \<open>
  One turn of \<^verbatim>\<open>_run_worker\<close> on an item: the queue name is the task's default again (the one \<^verbatim>\<open>enqueue\<close>
  was given is not in the item), and an exception is logged and passed over.
\<close>

definition worker_turn :: "'s registry \<Rightarrow> queued_task \<Rightarrow> 's queue_state \<Rightarrow> 's queue_state" where
  "worker_turn reg item st =
     (case reg (qt_task_name item) of
        None \<Rightarrow> st
      | Some task \<Rightarrow> snd (execute_task reg task (rt_default_queue task) item st))"

text \<open>One worker until the queue is empty, within a bound on the number of items taken.\<close>

fun drain :: "'s registry \<Rightarrow> nat \<Rightarrow> 's queue_state \<Rightarrow> 's queue_state option" where
  "drain reg n st =
     (case qs_queue st of
        [] \<Rightarrow> Some st
      | item # rest \<Rightarrow>
          (case n of 0 \<Rightarrow> None | Suc n' \<Rightarrow> drain reg n' (worker_turn reg item (st\<lparr>qs_queue := rest\<rparr>))))"

declare drain.simps [simp del]

end
