(* ===== verification/Task_Props.thy ===== *)
theory Task_Props
  imports Task_Queue
begin

text \<open>
  What the task queues guarantee: the inline queue and the worker queue do the same work in the same
  order, and a task is attempted at most as often as it may be.
\<close>

section \<open>Handlers that work on the application's state\<close>

text \<open>A handler that neither looks at nor changes the queue and the notes, as a function on the rest.\<close>

definition on_world :: "(kwargs \<Rightarrow> 's \<Rightarrow> (err + outcome) \<times> 's) \<Rightarrow> 's handler" where
  "on_world g kw st = (fst (g kw (qs_world st)), st\<lparr>qs_world := snd (g kw (qs_world st))\<rparr>)"

lemma tell_sel [simp]:
  "qs_queue (tell ns st) = qs_queue st" "qs_world (tell ns st) = qs_world st"
  "qs_notes (tell ns st) = qs_notes st @ ns"
  by (simp_all add: tell_def)

lemma pop_clean:
  assumes "key \<notin> fst ` set kw"
  shows "pop_int key d kw = (Inr d, kw)"
proof -
  have "map_of kw key = None" using assms by (simp add: map_of_eq_None_iff)
  moreover have "filter (\<lambda>e. fst e \<noteq> key) kw = kw" using assms by (intro filter_True) auto
  ultimately show ?thesis by (simp add: pop_int_def)
qed

lemma attempt_metadata_clean:
  "attempt_metadata task kw = Inr (a, m, kw') \<Longrightarrow> ''_task_attempt'' \<notin> fst ` set kw' \<and> ''_task_max_attempts'' \<notin> fst ` set kw'"
  by (auto simp: attempt_metadata_def pop_int_def split: option.splits prod.splits)

lemma attempt_metadata_retry:
  assumes "''_task_attempt'' \<notin> fst ` set kw" "''_task_max_attempts'' \<notin> fst ` set kw"
  shows "attempt_metadata task (retry_kwargs a m kw) = Inr (a + 1, m, kw)"
proof -
  have "filter (\<lambda>e. fst e \<noteq> ''_task_attempt'') kw = kw" "filter (\<lambda>e. fst e \<noteq> ''_task_max_attempts'') kw = kw"
    using assms by (force simp: filter_id_conv)+
  then show ?thesis by (simp add: attempt_metadata_def retry_kwargs_def pop_int_def)
qed

section \<open>Inline and queued execution agree\<close>

fun is_enqueued :: "tnote \<Rightarrow> bool" where
  "is_enqueued (Enqueued _ _) = True"
| "is_enqueued _ = False"

definition reports :: "tnote list \<Rightarrow> tnote list" where
  "reports ns = filter (\<lambda>n. \<not> is_enqueued n) ns"

lemma reports_append [simp]: "reports (xs @ ys) = reports xs @ reports ys"
  by (simp add: reports_def)

lemma reports_State [simp]: "reports (State a b c # ns) = State a b c # reports ns" "reports [] = []"
  "reports (Enqueued a' b' # ns) = reports ns"
  by (simp_all add: reports_def)

lemma loop_drain:
  assumes "reg name = Some task" "rt_handler task = on_world g"
    and "''_task_attempt'' \<notin> fst ` set kw" "''_task_max_attempts'' \<notin> fst ` set kw"
    and "1 \<le> a" "1 \<le> m" "q = rt_default_queue task"
    and "qs_world st2 = qs_world st" "reports (qs_notes st2) = reports (qs_notes st)"
    and "qs_queue st2 = [\<lparr>qt_task_name = name, qt_kwargs = kw, qt_attempt = a, qt_max_attempts = m\<rparr>]"
    and "nat (m - a) < n"
  shows "\<exists>s2. drain reg n st2 = Some s2 \<and> qs_queue s2 = []
    \<and> qs_world s2 = qs_world (sync_loop task name q a m kw st)
    \<and> reports (qs_notes s2) = reports (qs_notes (sync_loop task name q a m kw st))"
  using assms
proof (induction task name q a m kw st arbitrary: st2 n rule: sync_loop.induct)
  case (1 task name q a m kw st)
  let ?item = "\<lparr>qt_task_name = name, qt_kwargs = kw, qt_attempt = a, qt_max_attempts = m\<rparr>"
  let ?res = "g (handler_kwargs task a m kw) (qs_world st)"
  let ?start = "State name Started (mk_details q a m None kw)"
  obtain n' where n: "n = Suc n'" using "1.prems"(11) by (cases n) auto
  define st1 where "st1 = (tell [?start] st)\<lparr>qs_world := snd ?res\<rparr>"
  define st3 where "st3 = (tell [?start] (st2\<lparr>qs_queue := []\<rparr>))\<lparr>qs_world := snd ?res\<rparr>"
  have run: "run_handler task name q a m kw st = (fst ?res, st1)"
    by (simp add: run_handler_def "1.prems"(2) on_world_def st1_def)
  have run2: "run_handler task name q a m kw (st2\<lparr>qs_queue := []\<rparr>) = (fst ?res, st3)"
    by (simp add: run_handler_def "1.prems"(2,8) on_world_def st3_def)
  have eq: "qs_world st3 = qs_world st1" "reports (qs_notes st3) = reports (qs_notes st1)" "qs_queue st3 = []"
    using "1.prems"(8,9) by (simp_all add: st1_def st3_def)
  have turn: "drain reg n st2 = drain reg n' (worker_turn reg ?item (st2\<lparr>qs_queue := []\<rparr>))"
    by (subst drain.simps) (simp add: "1.prems"(10) n)
  have wt: "worker_turn reg ?item (st2\<lparr>qs_queue := []\<rparr>) = snd (execute_task reg task q ?item (st2\<lparr>qs_queue := []\<rparr>))"
    by (simp add: worker_turn_def "1.prems"(1,7))
  have stop: "drain reg n' s = Some s" if "qs_queue s = []" for s
    by (subst drain.simps) (simp add: that)
  show ?case
  proof (cases "fst ?res")
    case (Inl e)
    have "sync_loop task name q a m kw st = tell (crash_notes name q a m kw e) st1"
      by (subst sync_loop.simps) (simp add: run Inl)
    moreover have "worker_turn reg ?item (st2\<lparr>qs_queue := []\<rparr>) = tell (crash_notes name q a m kw e) st3"
      unfolding wt by (simp add: execute_task_def run2 Inl)
    ultimately show ?thesis using eq by (simp add: turn stop)
  next
    case (Inr out)
    show ?thesis
    proof (cases "\<exists>r. out = Result r \<and> wants_retry r a m")
      case False
      then have "sync_loop task name q a m kw st = tell (end_notes name q a m kw out) st1"
        by (subst sync_loop.simps) (cases out, simp_all add: run Inr)
      moreover have "worker_turn reg ?item (st2\<lparr>qs_queue := []\<rparr>) = tell (end_notes name q a m kw out) st3"
        unfolding wt using False by (cases out) (simp_all add: execute_task_def run2 Inr handle_task_result_def)
      ultimately show ?thesis using eq by (simp add: turn stop)
    next
      case True
      then obtain r where r: "out = Result r" "wants_retry r a m" by blast
      then have lt: "a < m" by (simp add: wants_retry_def)
      let ?again = "tell [State name RetryScheduled (mk_details q a m (tr_reason r) kw),
                     State name Queued (mk_details q (a + 1) m None kw)] st1"
      let ?item2 = "\<lparr>qt_task_name = name, qt_kwargs = kw, qt_attempt = a + 1, qt_max_attempts = m\<rparr>"
      let ?st4 = "tell [Enqueued q name, State name Queued (mk_details q (a + 1) m None kw)]
                 ((tell [State name RetryScheduled (mk_details q a m (tr_reason r) kw)] st3)\<lparr>qs_queue := [?item2]\<rparr>)"
      have loop: "sync_loop task name q a m kw st = sync_loop task name q (a + 1) m kw ?again"
        by (subst sync_loop.simps) (simp add: run Inr r)
      have "worker_turn reg ?item (st2\<lparr>qs_queue := []\<rparr>) = ?st4"
        unfolding wt using "1.prems"(1,3-6) r eq(3)
        by (simp add: execute_task_def run2 Inr handle_task_result_def async_enqueue_def attempt_metadata_retry Let_def)
      then have d: "drain reg n st2 = drain reg n' ?st4" by (simp only: turn)
      have IH: "\<exists>s2. drain reg n' ?st4 = Some s2 \<and> qs_queue s2 = []
          \<and> qs_world s2 = qs_world (sync_loop task name q (a + 1) m kw ?again)
          \<and> reports (qs_notes s2) = reports (qs_notes (sync_loop task name q (a + 1) m kw ?again))"
        using "1.prems" lt eq n r
        by (intro "1.IH" [OF run [symmetric] Inr r]) (simp_all add: run Inr)
      then show ?thesis by (simp only: d loop)
    qed
  qed
qed

text \<open>C19: Enqueueing a task and letting a worker run until its queue is empty does exactly what the inline
  queue does: the same calls of the handler in the same order with the same attempt numbers, so the same
  state of the application and the same reports of task states and failures. A worker needs at most as
  many turns as attempts are left.\<close>

theorem queued_execution_is_inline_execution:
  assumes "reg name = Some task" "rt_handler task = on_world g" "attempt_metadata task kw = Inr (a, m, kw')"
    and "1 \<le> a" "1 \<le> m" "qs_queue st = []"
    and "sync_enqueue reg name None kw st = (Inr (), s1)" "async_enqueue reg name None kw st = (Inr (), s)"
  shows "\<exists>s2. drain reg (Suc (nat (m - a))) s = Some s2 \<and> qs_queue s2 = []
    \<and> qs_world s2 = qs_world s1 \<and> reports (qs_notes s2) = reports (qs_notes s1)"
proof -
  let ?q = "rt_default_queue task"
  note clean = attempt_metadata_clean [OF assms(3)]
  from assms(1,3,7) have s1: "s1 = sync_loop task name ?q a m kw'
      (tell [Enqueued ?q name, State name Queued (mk_details ?q a m None kw')] st)"
    by (simp add: sync_enqueue_def Let_def)
  from assms(1,3-6,8) have s: "s = tell [Enqueued ?q name, State name Queued (mk_details ?q a m None kw')]
      (st\<lparr>qs_queue := [\<lparr>qt_task_name = name, qt_kwargs = kw', qt_attempt = a, qt_max_attempts = m\<rparr>]\<rparr>)"
    by (simp add: async_enqueue_def Let_def max_def)
  show ?thesis
    unfolding s1 using clean assms(1,2,4,5) by (intro loop_drain [where g = g]) (simp_all add: s)
qed

section \<open>The attempts of a task\<close>

text \<open>The attempt numbers a task was started with, and the states it ended in.\<close>

fun started_attempts :: "tnote list \<Rightarrow> int list" where
  "started_attempts [] = []"
| "started_attempts (State name s d # ns) = (if s = Started then [dt_attempt d] else []) @ started_attempts ns"
| "started_attempts (n # ns) = started_attempts ns"

definition ends :: "task_state \<Rightarrow> bool" where
  "ends s \<longleftrightarrow> s \<notin> {Queued, Started, RetryScheduled}"

fun end_states :: "tnote list \<Rightarrow> task_state list" where
  "end_states [] = []"
| "end_states (State name s d # ns) = (if ends s then [s] else []) @ end_states ns"
| "end_states (n # ns) = end_states ns"

lemma started_attempts_append [simp]: "started_attempts (xs @ ys) = started_attempts xs @ started_attempts ys"
  by (induction xs rule: started_attempts.induct) simp_all

lemma end_states_append [simp]: "end_states (xs @ ys) = end_states xs @ end_states ys"
  by (induction xs rule: end_states.induct) simp_all

text \<open>The states a handler of this program reports (\<^verbatim>\<open>generate_thumbnail\<close>): never one of the queue's own.\<close>

definition reports_own_states :: "(kwargs \<Rightarrow> 's \<Rightarrow> (err + outcome) \<times> 's) \<Rightarrow> bool" where
  "reports_own_states g \<longleftrightarrow>
     (\<forall>kw w r. fst (g kw w) = Inr (Result r) \<longrightarrow> tr_state r \<in> {Skipped, RetryScheduled, Succeeded, FailedPermanent})"

lemma terminal_notes:
  assumes "reports_own_states g" "fst (g kw0 w) = Inr out"
  shows "started_attempts (end_notes name q a m kw out) = [] \<and> length (end_states (end_notes name q a m kw out)) = 1"
proof (cases out)
  case (Result r)
  with assms have "tr_state r \<in> {Skipped, RetryScheduled, Succeeded, FailedPermanent}"
    unfolding reports_own_states_def by blast
  then show ?thesis
    by (auto simp: Result end_notes_def terminal_state_def is_failure_def ends_def Let_def)
qed (simp add: end_notes_def ends_def)

lemma crash_note_counts:
  "started_attempts (crash_notes name q a m kw e) = [] \<and> length (end_states (crash_notes name q a m kw e)) = 1"
  by (simp add: crash_notes_def ends_def Let_def)

lemma sync_loop_notes:
  assumes "rt_handler task = on_world g" "reports_own_states g" "a \<le> m"
  shows "\<exists>n ns. a \<le> n \<and> n \<le> m \<and> qs_notes (sync_loop task name q a m kw st) = qs_notes st @ ns
    \<and> started_attempts ns = [a..n] \<and> length (end_states ns) = 1"
  using assms
proof (induction task name q a m kw st rule: sync_loop.induct)
  case (1 task name q a m kw st)
  let ?res = "g (handler_kwargs task a m kw) (qs_world st)"
  let ?start = "State name Started (mk_details q a m None kw)"
  define st1 where "st1 = (tell [?start] st)\<lparr>qs_world := snd ?res\<rparr>"
  have run: "run_handler task name q a m kw st = (fst ?res, st1)"
    by (simp add: run_handler_def "1.prems"(1) on_world_def st1_def)
  have n1: "qs_notes st1 = qs_notes st @ [?start]" by (simp add: st1_def)
  have att: "started_attempts [?start] = [a]" "end_states [?start] = []"
    by (simp_all add: mk_details_def ends_def)
  have one: "[a..a] = [a]" by simp
  show ?case
  proof (cases "fst ?res")
    case (Inl e)
    have "sync_loop task name q a m kw st = tell (crash_notes name q a m kw e) st1"
      by (subst sync_loop.simps) (simp add: run Inl)
    then show ?thesis
      using "1.prems"(3) crash_note_counts att n1 one
      by (intro exI [of _ a] exI [of _ "?start # crash_notes name q a m kw e"]) (simp add: mk_details_def ends_def)
  next
    case (Inr out)
    show ?thesis
    proof (cases "\<exists>r. out = Result r \<and> wants_retry r a m")
      case False
      then have "sync_loop task name q a m kw st = tell (end_notes name q a m kw out) st1"
        by (subst sync_loop.simps) (cases out, simp_all add: run Inr)
      then show ?thesis
        using "1.prems"(3) terminal_notes [OF "1.prems"(2) Inr] n1 one
        by (intro exI [of _ a] exI [of _ "?start # end_notes name q a m kw out"]) (simp add: mk_details_def ends_def)
    next
      case True
      then obtain r where r: "out = Result r" "wants_retry r a m" by blast
      then have lt: "a < m" by (simp add: wants_retry_def)
      let ?mid = "[State name RetryScheduled (mk_details q a m (tr_reason r) kw),
                     State name Queued (mk_details q (a + 1) m None kw)]"
      have loop: "sync_loop task name q a m kw st = sync_loop task name q (a + 1) m kw (tell ?mid st1)"
        by (subst sync_loop.simps) (simp add: run Inr r)
      from "1.IH" [OF run [symmetric] Inr r "1.prems"(1,2)] lt obtain n ns where
        IH: "a + 1 \<le> n" "n \<le> m" "qs_notes (sync_loop task name q (a + 1) m kw (tell ?mid st1)) = qs_notes (tell ?mid st1) @ ns"
          "started_attempts ns = [a + 1..n]" "length (end_states ns) = 1" by auto
      have "[a..n] = a # [a + 1..n]" using IH(1) by (subst upto.simps) simp
      with IH loop n1 show ?thesis
        by (intro exI [of _ n] exI [of _ "?start # ?mid @ ns"]) (simp add: mk_details_def ends_def)
    qed
  qed
qed

text \<open>A task enqueued without attempt metadata is started with the attempt numbers 1, 2, ... in order, at
  least once and at most as often as its registration allows, and ends in exactly one final state.\<close>

theorem attempts_are_bounded:
  assumes "reg name = Some task" "rt_handler task = on_world g" "reports_own_states g"
    and "''_task_attempt'' \<notin> fst ` set kw" "''_task_max_attempts'' \<notin> fst ` set kw" "1 \<le> rt_max_attempts task"
    and "sync_enqueue reg name queue kw st = (Inr (), s1)"
  shows "\<exists>n ns. 1 \<le> n \<and> n \<le> rt_max_attempts task \<and> qs_notes s1 = qs_notes st @ ns
    \<and> started_attempts ns = [1..n] \<and> length (end_states ns) = 1"
proof -
  have "attempt_metadata task kw = Inr (1, rt_max_attempts task, kw)"
    using assms(4,5) by (simp add: attempt_metadata_def pop_clean)
  with assms(1,7) obtain q where s1: "s1 = sync_loop task name q 1 (rt_max_attempts task) kw
      (tell [Enqueued q name, State name Queued (mk_details q 1 (rt_max_attempts task) None kw)] st)"
    by (auto simp: sync_enqueue_def Let_def)
  from sync_loop_notes [OF assms(2,3,6), of name q kw
      "tell [Enqueued q name, State name Queued (mk_details q 1 (rt_max_attempts task) None kw)] st"]
  obtain n ns where n: "1 \<le> n" "n \<le> rt_max_attempts task" "started_attempts ns = [1..n]" "length (end_states ns) = 1"
    "qs_notes s1 = qs_notes st @ [Enqueued q name, State name Queued (mk_details q 1 (rt_max_attempts task) None kw)] @ ns"
    by (auto simp: s1)
  then show ?thesis
    by (intro exI [of _ n] exI [of _ "[Enqueued q name, State name Queued (mk_details q 1 (rt_max_attempts task) None kw)] @ ns"])
      (simp add: ends_def)
qed

text \<open>A handler that asks for a retry as often as its state says.\<close>

definition flaky :: "kwargs \<Rightarrow> nat \<Rightarrow> (err + outcome) \<times> nat" where
  "flaky kw w = (if w = 0 then (Inr OtherValue, 0)
     else (Inr (Result \<lparr>tr_state = RetryScheduled, tr_reason = None, tr_retryable = True\<rparr>), w - 1))"

definition flaky_registry :: "nat registry" where
  "flaky_registry = register ''t'' (on_world flaky) ''q'' 3 True Map.empty"

definition idle :: "nat \<Rightarrow> nat queue_state" where
  "idle w = \<lparr>qs_queue = [], qs_notes = [], qs_world = w\<rparr>"

definition flaky_task :: "nat registered_task" where
  "flaky_task = \<lparr>rt_handler = on_world flaky, rt_default_queue = ''q'', rt_max_attempts = 3, rt_pass_retry_metadata = True\<rparr>"

lemma flaky_facts:
  "flaky_registry ''t'' = Some flaky_task" "rt_handler flaky_task = on_world flaky"
  "attempt_metadata flaky_task [] = Inr (1, 3, [])" "rt_max_attempts flaky_task = 3"
  "qs_queue (idle w) = []" "reports_own_states flaky"
  by (simp_all add: flaky_registry_def register_def flaky_task_def attempt_metadata_def pop_int_def idle_def
      reports_own_states_def flaky_def)

theorem queued_execution_is_inline_execution_witness:
  "map_option qs_world (drain flaky_registry 3 (snd (async_enqueue flaky_registry ''t'' None [] (idle 5))))
     = Some (qs_world (snd (sync_enqueue flaky_registry ''t'' None [] (idle 5))))"
proof -
  have "sync_enqueue flaky_registry ''t'' None [] (idle 5) = (Inr (), snd (sync_enqueue flaky_registry ''t'' None [] (idle 5)))"
    "async_enqueue flaky_registry ''t'' None [] (idle 5) = (Inr (), snd (async_enqueue flaky_registry ''t'' None [] (idle 5)))"
    by (simp_all add: sync_enqueue_def async_enqueue_def flaky_facts Let_def)
  from queued_execution_is_inline_execution [OF flaky_facts(1-3) _ _ flaky_facts(5) this]
  show ?thesis by (auto simp: eval_nat_numeral)
qed

theorem attempts_are_bounded_witness:
  "\<exists>n. 1 \<le> n \<and> n \<le> 3 \<and> started_attempts (qs_notes (snd (sync_enqueue flaky_registry ''t'' None [] (idle 5)))) = [1..n]"
proof -
  have "sync_enqueue flaky_registry ''t'' None [] (idle 5) = (Inr (), snd (sync_enqueue flaky_registry ''t'' None [] (idle 5)))"
    by (simp add: sync_enqueue_def flaky_facts Let_def)
  from attempts_are_bounded [OF flaky_facts(1,2) _ _ _ _ this] show ?thesis
    by (auto simp: flaky_facts(4,6) idle_def)
qed

end
