(* ===== verification/Scheduler.thy ===== *)
theory Scheduler
  imports Redis_Support Task_Queue
begin

text \<open>
  \<^verbatim>\<open>src/imghost/scheduler.py\<close>: the periodic clean-up, and the lease in Redis that keeps several
  schedulers from all enqueueing it. A tick has two parts with awaits between them, so other processes
  may act in between: \<open>tick_begin\<close> up to the lease, \<open>tick_finish\<close> from the outcome of \<^verbatim>\<open>enqueue\<close> on.
\<close>

record scheduler =
  sd_poll_seconds :: int
  sd_cleanup_interval_seconds :: int
  sd_lease_seconds :: int
  sd_next_cleanup_at :: "time option"
  sd_last_tick_at :: "time option"
  sd_last_enqueue_at :: "time option"
  sd_last_enqueue_error :: "string option"
  sd_last_lease_acquired_at :: "time option"
  sd_last_lease_error :: "string option"
  sd_lease_token :: string

text \<open>The scheduler, its handle on Redis, and the server.\<close>

type_synonym 's sched = "scheduler \<times> redis_handle \<times> 's"

definition effective_lease_seconds :: "scheduler \<Rightarrow> int" where
  "effective_lease_seconds sd = max (sd_lease_seconds sd) (sd_cleanup_interval_seconds sd)"

definition cleanup_lease_key :: "redis_handle \<Rightarrow> string" where
  "cleanup_lease_key h = prefixed h (''scheduler:lease:'' @ ts_name prune_expired_albums_task)"

definition acquire_cleanup_lease :: "'s redis_client \<Rightarrow> time \<Rightarrow> time \<Rightarrow> time \<Rightarrow> 's sched \<Rightarrow> (err + bool) \<times> 's sched" where
  "acquire_cleanup_lease client avail later wall st =
     (case st of (sd, h, s) \<Rightarrow>
      if \<not> handle_enabled h then (Inr True, (sd\<lparr>sd_last_lease_error := None\<rparr>, h, s))
      else (case handle_execute avail later
                (rc_set_nx_ex client (cleanup_lease_key h) (sd_lease_token sd) (effective_lease_seconds sd)) h s of
        (Inl (RedisUnavailable m), h', s') \<Rightarrow> (Inr False, (sd\<lparr>sd_last_lease_error := Some m\<rparr>, h', s'))
      | (Inl e, h', s') \<Rightarrow> (Inl e, (sd, h', s'))
      | (Inr False, h', s') \<Rightarrow> (Inr False, (sd\<lparr>sd_last_lease_error := None\<rparr>, h', s'))
      | (Inr True, h', s') \<Rightarrow>
          (Inr True, (sd\<lparr>sd_last_lease_acquired_at := Some wall, sd_last_lease_error := None\<rparr>, h', s'))))"

text \<open>The script \<^verbatim>\<open>_SCHEDULER_LEASE_RELEASE\<close>: delete the key if it still holds the token.\<close>

definition lease_release_script :: "'s redis_client \<Rightarrow> string \<Rightarrow> string \<Rightarrow> 's \<Rightarrow> (err + unit) \<times> 's" where
  "lease_release_script client key token =
     io_bind (rc_get client key) (\<lambda>v. if v = Some token then rc_delete client key else io_return ())"

definition release_cleanup_lease :: "'s redis_client \<Rightarrow> time \<Rightarrow> time \<Rightarrow> 's sched \<Rightarrow> (err + unit) \<times> 's sched" where
  "release_cleanup_lease client avail later st =
     (case st of (sd, h, s) \<Rightarrow>
      if \<not> handle_enabled h then (Inr (), st)
      else (case handle_execute avail later (lease_release_script client (cleanup_lease_key h) (sd_lease_token sd)) h s of
        (Inl (RedisUnavailable m), h', s') \<Rightarrow> (Inr (), (sd\<lparr>sd_last_lease_error := Some m\<rparr>, h', s'))
      | (Inl e, h', s') \<Rightarrow> (Inl e, (sd, h', s'))
      | (Inr _, h', s') \<Rightarrow> (Inr (), (sd, h', s'))))"

definition set_next :: "time \<Rightarrow> 's sched \<Rightarrow> 's sched" where
  "set_next t st = (case st of (sd, rest) \<Rightarrow> (sd\<lparr>sd_next_cleanup_at := Some t\<rparr>, rest))"

text \<open>\<open>Inr True\<close>: the lease is held and the clean-up is to be enqueued; \<open>Inr False\<close>: the tick is over.\<close>

definition tick_begin ::
  "'s redis_client \<Rightarrow> time \<Rightarrow> time \<Rightarrow> time \<Rightarrow> time \<Rightarrow> 's sched \<Rightarrow> (err + bool) \<times> 's sched" where
  "tick_begin client now_mono avail later wall st =
     (case st of (sd, h, s) \<Rightarrow>
      let sd1 = sd\<lparr>sd_last_tick_at := Some wall\<rparr> in
      if (case sd_next_cleanup_at sd of Some t \<Rightarrow> now_mono < t | None \<Rightarrow> False) then (Inr False, (sd1, h, s))
      else (case acquire_cleanup_lease client avail later wall (sd1, h, s) of
        (Inl e, st1) \<Rightarrow> (Inl e, st1)
      | (Inr False, st1) \<Rightarrow> (Inr False, set_next (now_mono + seconds (sd_poll_seconds sd)) st1)
      | (Inr True, st1) \<Rightarrow> (Inr True, st1)))"

definition tick_finish ::
  "'s redis_client \<Rightarrow> time \<Rightarrow> time \<Rightarrow> time \<Rightarrow> time \<Rightarrow> err + unit \<Rightarrow> 's sched \<Rightarrow> (err + bool) \<times> 's sched" where
  "tick_finish client now_mono avail later wall enqueued st =
     (case st of (sd, h, s) \<Rightarrow>
      (case enqueued of
         Inl e \<Rightarrow>
           (case release_cleanup_lease client avail later (sd\<lparr>sd_last_enqueue_error := Some (err_str e)\<rparr>, h, s) of
              (Inl e', st1) \<Rightarrow> (Inl e', st1)
            | (Inr _, st1) \<Rightarrow> (Inr False, set_next (now_mono + seconds (sd_poll_seconds sd)) st1))
       | Inr _ \<Rightarrow>
           (Inr True, set_next (now_mono + seconds (sd_cleanup_interval_seconds sd))
             (sd\<lparr>sd_last_enqueue_at := Some wall, sd_last_enqueue_error := None\<rparr>, h, s))))"

text \<open>\<open>tick\<close> with the application's queue as the state that \<^verbatim>\<open>enqueue\<close> works on.\<close>

definition scheduler_tick ::
  "'s redis_client \<Rightarrow> time \<Rightarrow> time \<Rightarrow> time \<Rightarrow> time \<Rightarrow> ('q \<Rightarrow> (err + unit) \<times> 'q) \<Rightarrow> 's sched \<Rightarrow> 'q
     \<Rightarrow> (err + bool) \<times> 's sched \<times> 'q" where
  "scheduler_tick client now_mono avail later wall enqueue st q =
     (case tick_begin client now_mono avail later wall st of
        (Inr True, st1) \<Rightarrow>
          (case enqueue q of (r, q') \<Rightarrow>
            (case tick_finish client now_mono avail later wall r st1 of (res, st2) \<Rightarrow> (res, st2, q')))
      | (res, st1) \<Rightarrow> (res, st1, q))"

section \<open>Several schedulers and one server\<close>

text \<open>
  What is assumed of the server, as its documentation has it: \<open>leases\<close> reads from its state the value
  and the expiry of a key; a \<^verbatim>\<open>GET\<close> answers with a value that has not expired, \<^verbatim>\<open>SET NX EX\<close> sets the key
  if it has no such value, \<^verbatim>\<open>DEL\<close> removes it. A call may also raise, with or without its effect (a
  lost reply). \<open>client t\<close> is the client when the server's clock shows \<open>t\<close>.
\<close>

definition lease_server :: "(time \<Rightarrow> 's redis_client) \<Rightarrow> ('s \<Rightarrow> string \<Rightarrow> (string \<times> time) option) \<Rightarrow> bool" where
  "lease_server client leases \<longleftrightarrow>
     (\<forall>t k s. case rc_get (client t) k s of
        (Inr v, s') \<Rightarrow> v = live t (leases s k) \<and> leases s' = leases s | (Inl e, s') \<Rightarrow> leases s' = leases s)
     \<and> (\<forall>t k v ttl s. case rc_set_nx_ex (client t) k v ttl s of
        (Inr b, s') \<Rightarrow> b = (live t (leases s k) = None)
          \<and> leases s' = (if b then (leases s)(k \<mapsto> (v, t + seconds ttl)) else leases s)
      | (Inl e, s') \<Rightarrow> leases s' = leases s
          \<or> (live t (leases s k) = None \<and> leases s' = (leases s)(k \<mapsto> (v, t + seconds ttl))))
     \<and> (\<forall>t k s. leases (snd (rc_delete (client t) k s)) = leases s
          \<or> leases (snd (rc_delete (client t) k s)) = (leases s)(k := None))"

text \<open>
  The schedulers are numbered. \<open>cl_pending p\<close> is the server's time at which \<open>p\<close> got the lease for the
  clean-up it is about to enqueue, \<open>cl_held\<close> the leases that were got and not given back, newest first,
  \<open>cl_done\<close> those of them whose clean-up was enqueued. A step happens at a time not before the last.
\<close>

record 's cluster =
  cl_now :: time
  cl_scheds :: "nat \<Rightarrow> scheduler \<times> redis_handle"
  cl_server :: 's
  cl_pending :: "nat \<Rightarrow> time option"
  cl_held :: "(nat \<times> time) list"
  cl_done :: "(nat \<times> time) list"

definition put_sched :: "nat \<Rightarrow> time \<Rightarrow> 's sched \<Rightarrow> 's cluster \<Rightarrow> 's cluster" where
  "put_sched p t st c = (case st of (sd, h, s) \<Rightarrow>
     c\<lparr>cl_now := t, cl_scheds := (cl_scheds c)(p := (sd, h)), cl_server := s\<rparr>)"

definition get_sched :: "nat \<Rightarrow> 's cluster \<Rightarrow> 's sched" where
  "get_sched p c = (fst (cl_scheds c p), snd (cl_scheds c p), cl_server c)"

inductive cluster_step :: "(time \<Rightarrow> 's redis_client) \<Rightarrow> 's cluster \<Rightarrow> 's cluster \<Rightarrow> bool" for client where
  hold: "cl_pending c p = None \<Longrightarrow> cl_now c \<le> t \<Longrightarrow>
    tick_begin (client t) m avail later wall (get_sched p c) = (Inr True, st) \<Longrightarrow>
    cluster_step client c ((put_sched p t st c)\<lparr>cl_pending := (cl_pending c)(p \<mapsto> t), cl_held := (p, t) # cl_held c\<rparr>)"
| idle: "cl_pending c p = None \<Longrightarrow> cl_now c \<le> t \<Longrightarrow>
    tick_begin (client t) m avail later wall (get_sched p c) = (r, st) \<Longrightarrow> r \<noteq> Inr True \<Longrightarrow>
    cluster_step client c (put_sched p t st c)"
| success: "cl_pending c p = Some t0 \<Longrightarrow> cl_now c \<le> t \<Longrightarrow>
    tick_finish (client t) m avail later wall (Inr ()) (get_sched p c) = (r, st) \<Longrightarrow>
    cluster_step client c ((put_sched p t st c)\<lparr>cl_pending := (cl_pending c)(p := None), cl_done := (p, t0) # cl_done c\<rparr>)"
| failure: "cl_pending c p = Some t0 \<Longrightarrow> cl_now c \<le> t \<Longrightarrow>
    tick_finish (client t) m avail later wall (Inl e) (get_sched p c) = (r, st) \<Longrightarrow>
    cluster_step client c ((put_sched p t st c)\<lparr>cl_pending := (cl_pending c)(p := None),
      cl_held := filter (\<lambda>x. x \<noteq> (p, t0)) (cl_held c)\<rparr>)"

inductive cluster_reach :: "(time \<Rightarrow> 's redis_client) \<Rightarrow> 's cluster \<Rightarrow> 's cluster \<Rightarrow> bool" for client c0 where
  start: "cluster_reach client c0 c0"
| step: "cluster_reach client c0 c \<Longrightarrow> cluster_step client c c' \<Longrightarrow> cluster_reach client c0 c'"

section \<open>Effects on the lease\<close>

lemma lease_server_get:
  "lease_server client leases \<Longrightarrow> case rc_get (client t) k s of
     (Inr v, s') \<Rightarrow> v = live t (leases s k) \<and> leases s' = leases s | (Inl e, s') \<Rightarrow> leases s' = leases s"
  unfolding lease_server_def by (drule conjunct1, drule spec, drule spec, drule spec)

lemma lease_server_set:
  "lease_server client leases \<Longrightarrow> case rc_set_nx_ex (client t) k v ttl s of
     (Inr b, s') \<Rightarrow> b = (live t (leases s k) = None)
          \<and> leases s' = (if b then (leases s)(k \<mapsto> (v, t + seconds ttl)) else leases s)
   | (Inl e, s') \<Rightarrow> leases s' = leases s
          \<or> (live t (leases s k) = None \<and> leases s' = (leases s)(k \<mapsto> (v, t + seconds ttl)))"
  unfolding lease_server_def by (drule conjunct2, drule conjunct1, drule spec, drule spec, drule spec, drule spec, drule spec)

lemma lease_server_delete:
  "lease_server client leases \<Longrightarrow> leases (snd (rc_delete (client t) k s)) = leases s
     \<or> leases (snd (rc_delete (client t) k s)) = (leases s)(k := None)"
  unfolding lease_server_def by blast

text \<open>What a scheduler is configured with never changes.\<close>

definition settings_of :: "scheduler \<times> redis_handle \<Rightarrow> string \<times> int \<times> bool \<times> string" where
  "settings_of p = (sd_lease_token (fst p), effective_lease_seconds (fst p), handle_enabled (snd p), cleanup_lease_key (snd p))"

lemma handle_execute_settings:
  "handle_execute a l cb h s = (r, h', s') \<Longrightarrow> handle_enabled h' = handle_enabled h \<and> cleanup_lease_key h' = cleanup_lease_key h"
proof -
  assume run: "handle_execute a l cb h s = (r, h', s')"
  have "rh_url h' = rh_url h \<and> rh_mode h' = rh_mode h \<and> rh_prefix h' = rh_prefix h"
    using run by (auto simp: handle_execute_def get_client_def mark_failure_def mark_success_def
        split: prod.splits sum.splits if_splits)
  then show ?thesis by (simp add: handle_enabled_def cleanup_lease_key_def prefixed_def)
qed

lemma handle_execute_server:
  "handle_execute a l cb h s = (r, h', s') \<Longrightarrow>
     (s' = s \<and> (\<exists>e. r = Inl e)) \<or> (\<exists>r'. cb s = (r', s') \<and> (\<forall>x. r = Inr x \<longrightarrow> r' = Inr x) \<and> (\<forall>x. r' = Inr x \<longrightarrow> r = Inr x))"
  by (auto simp: handle_execute_def get_client_def split: prod.splits sum.splits if_splits)

lemma acquire_effect:
  assumes "lease_server client leases" "handle_enabled h"
    and "acquire_cleanup_lease (client t) a l w (sd, h, s) = (r, (sd', h', s'))"
  shows "settings_of (sd', h') = settings_of (sd, h)
    \<and> (let free = (live t (leases s (cleanup_lease_key h)) = None);
            taken = (leases s)(cleanup_lease_key h \<mapsto> (sd_lease_token sd, t + seconds (effective_lease_seconds sd)))
        in if r = Inr True then free \<and> leases s' = taken else leases s' = leases s \<or> (free \<and> leases s' = taken))"
proof -
  let ?cb = "rc_set_nx_ex (client t) (cleanup_lease_key h) (sd_lease_token sd) (effective_lease_seconds sd)"
  obtain r1 h1 s1 where x: "handle_execute a l ?cb h s = (r1, h1, s1)" by (metis prod_cases3)
  obtain b s2 where cb: "?cb s = (b, s2)" by fastforce
  have law: "case b of Inr b \<Rightarrow> b = (live t (leases s (cleanup_lease_key h)) = None)
          \<and> leases s2 = (if b then (leases s)(cleanup_lease_key h \<mapsto> (sd_lease_token sd, t + seconds (effective_lease_seconds sd))) else leases s)
      | Inl e \<Rightarrow> leases s2 = leases s \<or> (live t (leases s (cleanup_lease_key h)) = None
          \<and> leases s2 = (leases s)(cleanup_lease_key h \<mapsto> (sd_lease_token sd, t + seconds (effective_lease_seconds sd))))"
    using lease_server_set [OF assms(1), where t = t and k = "cleanup_lease_key h" and v = "sd_lease_token sd"
        and ttl = "effective_lease_seconds sd" and s = s]
    unfolding cb prod.case .
  have res: "s' = s1 \<and> h' = h1 \<and> settings_of (sd', h1) = settings_of (sd, h1) \<and> (r = Inr True \<longleftrightarrow> r1 = Inr True)"
  proof (cases r1)
    case (Inl e)
    note run = assms(3) [unfolded acquire_cleanup_lease_def prod.case x Inl]
    from assms(2) run show ?thesis
      by (cases e) (auto simp: Inl settings_of_def effective_lease_seconds_def)
  next
    case (Inr b)
    note run = assms(3) [unfolded acquire_cleanup_lease_def prod.case x Inr]
    from assms(2) run show ?thesis
      by (cases b) (auto simp: Inr settings_of_def effective_lease_seconds_def)
  qed
  have set1: "settings_of (sd, h1) = settings_of (sd, h)"
    using handle_execute_settings [OF x] by (simp add: settings_of_def)
  from handle_execute_server [OF x] show ?thesis
  proof
    assume "s1 = s \<and> (\<exists>e. r1 = Inl e)"
    with res set1 show ?thesis by auto
  next
    assume "\<exists>r'. ?cb s = (r', s1) \<and> (\<forall>x. r1 = Inr x \<longrightarrow> r' = Inr x) \<and> (\<forall>x. r' = Inr x \<longrightarrow> r1 = Inr x)"
    then obtain r' where r': "?cb s = (r', s1)" "\<forall>x. r1 = Inr x \<longrightarrow> r' = Inr x" "\<forall>x. r' = Inr x \<longrightarrow> r1 = Inr x"
      by blast
    from r'(1) cb have "r' = b" "s1 = s2" by simp_all
    with r'(2,3) have s1: "s1 = s2" "r1 = Inr True \<longleftrightarrow> b = Inr True" by blast+
    define free where "free = (live t (leases s (cleanup_lease_key h)) = None)"
    define taken where "taken = (leases s)(cleanup_lease_key h \<mapsto> (sd_lease_token sd, t + seconds (effective_lease_seconds sd)))"
    have law: "case b of Inr b \<Rightarrow> b = free \<and> leases s2 = (if b then taken else leases s)
      | Inl e \<Rightarrow> leases s2 = leases s \<or> (free \<and> leases s2 = taken)"
      using law unfolding free_def taken_def .
    have "if r = Inr True then free \<and> leases s' = taken else leases s' = leases s \<or> (free \<and> leases s' = taken)"
      using res s1 law by (cases b) auto
    with res set1 show ?thesis unfolding free_def taken_def Let_def by simp
  qed
qed

lemma release_effect:
  assumes "lease_server client leases" "handle_enabled h"
    and "release_cleanup_lease (client t) a l (sd, h, s) = (r, (sd', h', s'))"
  shows "settings_of (sd', h') = settings_of (sd, h)
    \<and> (leases s' = leases s \<or> (live t (leases s (cleanup_lease_key h)) = Some (sd_lease_token sd)
          \<and> leases s' = (leases s)(cleanup_lease_key h := None)))"
proof -
  let ?k = "cleanup_lease_key h"
  let ?cb = "lease_release_script (client t) ?k (sd_lease_token sd)"
  obtain r1 h1 s1 where x: "handle_execute a l ?cb h s = (r1, h1, s1)" by (metis prod_cases3)
  have res: "s' = s1 \<and> h' = h1 \<and> settings_of (sd', h1) = settings_of (sd, h1)"
  proof (cases r1)
    case (Inl e)
    note run = assms(3) [unfolded release_cleanup_lease_def prod.case x Inl]
    from assms(2) run show ?thesis
      by (cases e) (auto simp: Inl settings_of_def effective_lease_seconds_def)
  next
    case (Inr u)
    note run = assms(3) [unfolded release_cleanup_lease_def prod.case x Inr]
    from assms(2) run show ?thesis
      by (auto simp: settings_of_def effective_lease_seconds_def)
  qed
  have set1: "settings_of (sd, h1) = settings_of (sd, h)"
    using handle_execute_settings [OF x] by (simp add: settings_of_def)
  have "leases s1 = leases s \<or> (live t (leases s ?k) = Some (sd_lease_token sd) \<and> leases s1 = (leases s)(?k := None))"
  proof (cases "s1 = s")
    case False
    with handle_execute_server [OF x] have s1: "s1 = snd (?cb s)" by (metis snd_conv)
    obtain v s2 where g: "rc_get (client t) ?k s = (v, s2)" by fastforce
    have "case rc_get (client t) ?k s of
        (Inr v, s') \<Rightarrow> v = live t (leases s ?k) \<and> leases s' = leases s | (Inl e, s') \<Rightarrow> leases s' = leases s"
      by (rule lease_server_get [OF assms(1)])
    then have l2: "case v of Inr v \<Rightarrow> v = live t (leases s ?k) \<and> leases s2 = leases s | Inl e \<Rightarrow> leases s2 = leases s"
      by (simp add: g)
    show ?thesis
    proof (cases "v = Inr (Some (sd_lease_token sd))")
      case True
      then have "s1 = snd (rc_delete (client t) ?k s2)" using s1 g by (simp add: lease_release_script_def io_bind_def)
      moreover have "leases (snd (rc_delete (client t) ?k s2)) = leases s2
          \<or> leases (snd (rc_delete (client t) ?k s2)) = (leases s2)(?k := None)"
        by (rule lease_server_delete [OF assms(1)])
      ultimately show ?thesis using l2 True by auto
    next
      case False
      then have "s1 = s2"
        using s1 g by (cases v) (auto simp: lease_release_script_def io_bind_def io_return_def)
      with l2 show ?thesis by (cases v) auto
    qed
  qed simp
  with res set1 show ?thesis by auto
qed

section \<open>One clean-up per lease\<close>

definition cluster_inv ::
  "('s \<Rightarrow> string \<Rightarrow> (string \<times> time) option) \<Rightarrow> (nat \<Rightarrow> string) \<Rightarrow> string \<Rightarrow> int \<Rightarrow> 's cluster \<Rightarrow> bool" where
  "cluster_inv leases token key L c \<longleftrightarrow>
     (\<forall>p. settings_of (cl_scheds c p) = (token p, L, True, key))
     \<and> sorted_wrt (\<lambda>x y. snd y + seconds L \<le> snd x) (cl_held c)
     \<and> (\<forall>x\<in>set (cl_held c). snd x \<le> cl_now c
          \<and> (cl_now c < snd x + seconds L \<longrightarrow> leases (cl_server c) key = Some (token (fst x), snd x + seconds L)))
     \<and> (\<forall>p t. cl_pending c p = Some t \<longrightarrow> (p, t) \<in> set (cl_held c) \<and> (p, t) \<notin> set (cl_done c)
          \<and> (\<forall>u. (p, u) \<in> set (cl_held c) \<longrightarrow> u \<le> t))
     \<and> set (cl_done c) \<subseteq> set (cl_held c) \<and> distinct (cl_done c)"

lemma tick_begin_effect:
  assumes "lease_server client leases" "handle_enabled h"
    and "tick_begin (client t) m a l w (sd, h, s) = (r, (sd', h', s'))"
  shows "settings_of (sd', h') = settings_of (sd, h)
    \<and> (let free = (live t (leases s (cleanup_lease_key h)) = None);
            taken = (leases s)(cleanup_lease_key h \<mapsto> (sd_lease_token sd, t + seconds (effective_lease_seconds sd)))
        in if r = Inr True then free \<and> leases s' = taken else leases s' = leases s \<or> (free \<and> leases s' = taken))"
proof -
  let ?sd1 = "sd\<lparr>sd_last_tick_at := Some w\<rparr>"
  have same: "sd_lease_token ?sd1 = sd_lease_token sd" "effective_lease_seconds ?sd1 = effective_lease_seconds sd"
    "settings_of (?sd1, h) = settings_of (sd, h)"
    by (simp_all add: settings_of_def effective_lease_seconds_def)
  have next_same: "settings_of (sd2\<lparr>sd_next_cleanup_at := x\<rparr>, h2) = settings_of (sd2, h2)" for sd2 h2 x
    by (simp add: settings_of_def effective_lease_seconds_def)
  obtain r1 sd2 h2 s2 where acq: "acquire_cleanup_lease (client t) a l w (?sd1, h, s) = (r1, (sd2, h2, s2))"
    by (metis prod_cases4)
  note eff = acquire_effect [OF assms(1,2) acq, unfolded same]
  show ?thesis
  proof (cases "case sd_next_cleanup_at sd of Some t \<Rightarrow> m < t | None \<Rightarrow> False")
    case True
    with assms(3) have "r = Inr False" "sd' = ?sd1" "h' = h" "s' = s" by (simp_all add: tick_begin_def Let_def)
    with same show ?thesis by simp
  next
    case False
    then have "tick_begin (client t) m a l w (sd, h, s) = (case r1 of Inl e \<Rightarrow> (Inl e, (sd2, h2, s2))
        | Inr b \<Rightarrow> if b then (Inr True, (sd2, h2, s2)) else (Inr False, set_next (m + seconds (sd_poll_seconds sd)) (sd2, h2, s2)))"
      by (simp add: tick_begin_def Let_def acq split: sum.split bool.split)
    with assms(3) have "s' = s2" "h' = h2" "r = r1" "settings_of (sd', h2) = settings_of (sd2, h2)"
      by (auto simp: set_next_def next_same split: sum.splits if_splits)
    with eff show ?thesis unfolding Let_def by simp
  qed
qed

lemma tick_finish_effect:
  assumes "lease_server client leases" "handle_enabled h"
    and "tick_finish (client t) m a l w enq (sd, h, s) = (r, (sd', h', s'))"
  shows "settings_of (sd', h') = settings_of (sd, h)
    \<and> (leases s' = leases s \<or> (\<not> is_ok enq \<and> live t (leases s (cleanup_lease_key h)) = Some (sd_lease_token sd)
          \<and> leases s' = (leases s)(cleanup_lease_key h := None)))"
proof (cases enq)
  case (Inr u)
  with assms(3) show ?thesis
    by (auto simp: tick_finish_def set_next_def settings_of_def effective_lease_seconds_def)
next
  case (Inl e)
  let ?sd1 = "sd\<lparr>sd_last_enqueue_error := Some (err_str e)\<rparr>"
  have same: "sd_lease_token ?sd1 = sd_lease_token sd" "settings_of (?sd1, h) = settings_of (sd, h)"
    by (simp_all add: settings_of_def effective_lease_seconds_def)
  have next_same: "settings_of (sd2\<lparr>sd_next_cleanup_at := x\<rparr>, h2) = settings_of (sd2, h2)" for sd2 h2 x
    by (simp add: settings_of_def effective_lease_seconds_def)
  obtain r1 sd2 h2 s2 where rel: "release_cleanup_lease (client t) a l (?sd1, h, s) = (r1, (sd2, h2, s2))"
    by (metis prod_cases4)
  note eff = release_effect [OF assms(1,2) rel, unfolded same]
  from assms(3) Inl rel have "s' = s2" "h' = h2" "settings_of (sd', h2) = settings_of (sd2, h2)"
    by (auto simp: tick_finish_def set_next_def next_same split: sum.splits)
  with eff Inl show ?thesis by simp
qed

lemma held_live:
  assumes "cluster_inv leases token key L c" "x \<in> set (cl_held c)" "cl_now c \<le> t" "t < snd x + seconds L"
  shows "leases (cl_server c) key = Some (token (fst x), snd x + seconds L)"
    and "live t (leases (cl_server c) key) = Some (token (fst x))"
proof -
  from assms(1,2) have "cl_now c < snd x + seconds L \<longrightarrow> leases (cl_server c) key = Some (token (fst x), snd x + seconds L)"
    unfolding cluster_inv_def by blast
  with assms(3,4) show l: "leases (cl_server c) key = Some (token (fst x), snd x + seconds L)" by simp
  with assms(4) show "live t (leases (cl_server c) key) = Some (token (fst x))" by (simp add: live_def)
qed

lemma held_expired:
  assumes "cluster_inv leases token key L c" "cl_now c \<le> t" "live t (leases (cl_server c) key) = None"
  shows "\<forall>x\<in>set (cl_held c). snd x + seconds L \<le> t"
  using held_live(2) [OF assms(1) _ assms(2)] assms(3) by force

lemma cluster_settings:
  assumes "cluster_inv leases token key L c"
  shows "settings_of (cl_scheds c p) = (token p, L, True, key)" "handle_enabled (snd (cl_scheds c p))"
    "cleanup_lease_key (snd (cl_scheds c p)) = key" "sd_lease_token (fst (cl_scheds c p)) = token p"
    "effective_lease_seconds (fst (cl_scheds c p)) = L"
  using assms unfolding cluster_inv_def settings_of_def by auto

lemma put_sched_sel [simp]:
  "cl_now (put_sched p t (sd, h, s) c) = t" "cl_scheds (put_sched p t (sd, h, s) c) = (cl_scheds c)(p := (sd, h))"
  "cl_server (put_sched p t (sd, h, s) c) = s" "cl_pending (put_sched p t (sd, h, s) c) = cl_pending c"
  "cl_held (put_sched p t (sd, h, s) c) = cl_held c" "cl_done (put_sched p t (sd, h, s) c) = cl_done c"
  by (simp_all add: put_sched_def)

lemma cluster_invD:
  assumes "cluster_inv leases token key L c"
  shows "sorted_wrt (\<lambda>x y. snd y + seconds L \<le> snd x) (cl_held c)"
    and "\<And>x. x \<in> set (cl_held c) \<Longrightarrow> snd x \<le> cl_now c"
    and "\<And>p t. cl_pending c p = Some t \<Longrightarrow> (p, t) \<in> set (cl_held c)"
    and "\<And>p t. cl_pending c p = Some t \<Longrightarrow> (p, t) \<notin> set (cl_done c)"
    and "\<And>p t u. cl_pending c p = Some t \<Longrightarrow> (p, u) \<in> set (cl_held c) \<Longrightarrow> u \<le> t"
    and "set (cl_done c) \<subseteq> set (cl_held c)" "distinct (cl_done c)"
  using assms unfolding cluster_inv_def by blast+

lemma cluster_invI:
  assumes "\<And>p. settings_of (cl_scheds c p) = (token p, L, True, key)"
    and "sorted_wrt (\<lambda>x y. snd y + seconds L \<le> snd x) (cl_held c)"
    and "\<And>x. x \<in> set (cl_held c) \<Longrightarrow> snd x \<le> cl_now c"
    and "\<And>x. x \<in> set (cl_held c) \<Longrightarrow> cl_now c < snd x + seconds L \<Longrightarrow>
      leases (cl_server c) key = Some (token (fst x), snd x + seconds L)"
    and "\<And>p t. cl_pending c p = Some t \<Longrightarrow> (p, t) \<in> set (cl_held c) \<and> (p, t) \<notin> set (cl_done c)"
    and "\<And>p t u. cl_pending c p = Some t \<Longrightarrow> (p, u) \<in> set (cl_held c) \<Longrightarrow> u \<le> t"
    and "set (cl_done c) \<subseteq> set (cl_held c)" "distinct (cl_done c)"
  shows "cluster_inv leases token key L c"
  using assms unfolding cluster_inv_def by blast

text \<open>A call that leaves the lease alone, or takes it when it is free, respects every lease still held.\<close>

lemma held_kept:
  assumes "cluster_inv leases token key L c" "cl_now c \<le> t" "x \<in> set (cl_held c)" "t < snd x + seconds L"
    and "leases s' = leases (cl_server c) \<or> live t (leases (cl_server c) key) = None"
  shows "leases s' key = Some (token (fst x), snd x + seconds L)"
  using held_live [OF assms(1,3,2,4)] assms(5) by auto

lemma cluster_inv_hold:
  assumes "lease_server client leases" "inj token" "0 < L" "cluster_inv leases token key L c"
    and "cl_pending c p = None" "cl_now c \<le> t"
    and "tick_begin (client t) m a l w (get_sched p c) = (Inr True, (sd, h, s'))"
  shows "cluster_inv leases token key L
    ((put_sched p t (sd, h, s') c)\<lparr>cl_pending := (cl_pending c)(p \<mapsto> t), cl_held := (p, t) # cl_held c\<rparr>)"
proof -
  note q = cluster_settings [OF assms(4), of p] and D = cluster_invD [OF assms(4)]
  from tick_begin_effect [OF assms(1) q(2) assms(7) [unfolded get_sched_def]]
  have e: "settings_of (sd, h) = (token p, L, True, key)" "live t (leases (cl_server c) key) = None"
    "leases s' key = Some (token p, t + seconds L)"
    by (simp_all add: q Let_def)
  note gap = held_expired [OF assms(4,6) e(2)]
  have pos: "0 < seconds L" using assms(3) by (simp add: seconds_def sec_def)
  let ?c = "(put_sched p t (sd, h, s') c)\<lparr>cl_pending := (cl_pending c)(p \<mapsto> t), cl_held := (p, t) # cl_held c\<rparr>"
  show ?thesis
  proof (rule cluster_invI)
    show "settings_of (cl_scheds ?c p') = (token p', L, True, key)" for p'
      using e(1) cluster_settings(1) [OF assms(4)] by simp
    show "sorted_wrt (\<lambda>x y. snd y + seconds L \<le> snd x) (cl_held ?c)"
      using gap D(1) by simp
    show "x \<in> set (cl_held ?c) \<Longrightarrow> snd x \<le> cl_now ?c" for x
      using D(2) assms(6) by fastforce
    show "x \<in> set (cl_held ?c) \<Longrightarrow> cl_now ?c < snd x + seconds L \<Longrightarrow>
        leases (cl_server ?c) key = Some (token (fst x), snd x + seconds L)" for x
      using gap e(3) by force
    show "cl_pending ?c p' = Some t' \<Longrightarrow> (p', t') \<in> set (cl_held ?c) \<and> (p', t') \<notin> set (cl_done ?c)" for p' t'
      using D(3,4,6) gap pos by (cases "p' = p") force+
    show "cl_pending ?c p' = Some t' \<Longrightarrow> (p', u) \<in> set (cl_held ?c) \<Longrightarrow> u \<le> t'" for p' t' u
      using D(5) gap pos by (cases "p' = p") force+
    show "set (cl_done ?c) \<subseteq> set (cl_held ?c)" using D(6) by auto
    show "distinct (cl_done ?c)" using D(7) by simp
  qed
qed

lemma cluster_inv_idle:
  assumes "lease_server client leases" "cluster_inv leases token key L c"
    and "cl_now c \<le> t" "tick_begin (client t) m a l w (get_sched p c) = (r, (sd, h, s'))" "r \<noteq> Inr True"
  shows "cluster_inv leases token key L (put_sched p t (sd, h, s') c)"
proof -
  note q = cluster_settings [OF assms(2), of p] and D = cluster_invD [OF assms(2)]
  from tick_begin_effect [OF assms(1) q(2) assms(4) [unfolded get_sched_def]] assms(5)
  have e: "settings_of (sd, h) = (token p, L, True, key)"
    "leases s' = leases (cl_server c) \<or> live t (leases (cl_server c) key) = None"
    by (auto simp: q Let_def)
  let ?c = "put_sched p t (sd, h, s') c"
  show ?thesis
  proof (rule cluster_invI)
    show "settings_of (cl_scheds ?c p') = (token p', L, True, key)" for p'
      using e(1) cluster_settings(1) [OF assms(2)] by simp
    show "x \<in> set (cl_held ?c) \<Longrightarrow> snd x \<le> cl_now ?c" for x
      using D(2) [of x] assms(3) by simp
    show "x \<in> set (cl_held ?c) \<Longrightarrow> cl_now ?c < snd x + seconds L \<Longrightarrow>
        leases (cl_server ?c) key = Some (token (fst x), snd x + seconds L)" for x
      using held_kept [OF assms(2,3) _ _ e(2), of x] by simp
  qed (use D in auto)
qed

lemma cluster_inv_success:
  assumes "lease_server client leases" "cluster_inv leases token key L c"
    and "cl_pending c p = Some t0" "cl_now c \<le> t"
    and "tick_finish (client t) m a l w (Inr ()) (get_sched p c) = (r, (sd, h, s'))"
  shows "cluster_inv leases token key L
    ((put_sched p t (sd, h, s') c)\<lparr>cl_pending := (cl_pending c)(p := None), cl_done := (p, t0) # cl_done c\<rparr>)"
proof -
  note q = cluster_settings [OF assms(2), of p] and D = cluster_invD [OF assms(2)]
  from tick_finish_effect [OF assms(1) q(2) assms(5) [unfolded get_sched_def]]
  have e: "settings_of (sd, h) = (token p, L, True, key)"
    "leases s' = leases (cl_server c) \<or> live t (leases (cl_server c) key) = None"
    by (auto simp: q)
  let ?c = "(put_sched p t (sd, h, s') c)\<lparr>cl_pending := (cl_pending c)(p := None), cl_done := (p, t0) # cl_done c\<rparr>"
  show ?thesis
  proof (rule cluster_invI)
    show "settings_of (cl_scheds ?c p') = (token p', L, True, key)" for p'
      using e(1) cluster_settings(1) [OF assms(2)] by simp
    show "x \<in> set (cl_held ?c) \<Longrightarrow> snd x \<le> cl_now ?c" for x
      using D(2) [of x] assms(4) by simp
    show "x \<in> set (cl_held ?c) \<Longrightarrow> cl_now ?c < snd x + seconds L \<Longrightarrow>
        leases (cl_server ?c) key = Some (token (fst x), snd x + seconds L)" for x
      using held_kept [OF assms(2,4) _ _ e(2), of x] by simp
    show "cl_pending ?c p' = Some t' \<Longrightarrow> (p', t') \<in> set (cl_held ?c) \<and> (p', t') \<notin> set (cl_done ?c)" for p' t'
      using D(3,4) by (auto split: if_splits)
    show "cl_pending ?c p' = Some t' \<Longrightarrow> (p', u) \<in> set (cl_held ?c) \<Longrightarrow> u \<le> t'" for p' t' u
      using D(5) by (auto split: if_splits)
    show "set (cl_done ?c) \<subseteq> set (cl_held ?c)" "distinct (cl_done ?c)"
      using D(3,4) [OF assms(3)] D(6,7) by auto
  qed (use D in auto)
qed

lemma sorted_wrt_filter_eq: "sorted_wrt P xs \<Longrightarrow> sorted_wrt P (filter Q xs)"
  by (induction xs) auto

lemma sorted_wrt_two:
  assumes "sorted_wrt (\<lambda>x y. snd y + d \<le> snd x) (xs :: (nat \<times> time) list)" "x \<in> set xs" "y \<in> set xs" "x \<noteq> y"
  shows "snd y + d \<le> snd x \<or> snd x + d \<le> snd y"
  using assms by (induction xs) auto

lemma cluster_inv_failure:
  assumes "lease_server client leases" "inj token" "0 < L" "cluster_inv leases token key L c"
    and "cl_pending c p = Some t0" "cl_now c \<le> t"
    and "tick_finish (client t) m a l w (Inl err) (get_sched p c) = (r, (sd, h, s'))"
  shows "cluster_inv leases token key L
    ((put_sched p t (sd, h, s') c)\<lparr>cl_pending := (cl_pending c)(p := None), cl_held := filter (\<lambda>x. x \<noteq> (p, t0)) (cl_held c)\<rparr>)"
proof -
  note q = cluster_settings [OF assms(4), of p] and D = cluster_invD [OF assms(4)]
  from tick_finish_effect [OF assms(1) q(2) assms(7) [unfolded get_sched_def]]
  have e: "settings_of (sd, h) = (token p, L, True, key)"
    "leases s' = leases (cl_server c) \<or> live t (leases (cl_server c) key) = Some (token p)"
    by (auto simp: q)
  let ?c = "(put_sched p t (sd, h, s') c)\<lparr>cl_pending := (cl_pending c)(p := None),
      cl_held := filter (\<lambda>x. x \<noteq> (p, t0)) (cl_held c)\<rparr>"
  have own: "u = t0 \<or> u + seconds L \<le> t" if "(p, u) \<in> set (cl_held c)" for u
  proof -
    have "t0 \<le> t" using D(2) [OF D(3) [OF assms(5)]] assms(6) by simp
    moreover have "u \<le> t0" using D(5) [OF assms(5) that] .
    moreover have "u = t0 \<or> u + seconds L \<le> t0 \<or> t0 + seconds L \<le> u"
      using sorted_wrt_two [OF D(1) that D(3) [OF assms(5)]] by auto
    moreover have "0 < seconds L" using assms(3) by (simp add: seconds_def sec_def)
    ultimately show ?thesis by linarith
  qed
  show ?thesis
  proof (rule cluster_invI)
    show "settings_of (cl_scheds ?c p') = (token p', L, True, key)" for p'
      using e(1) cluster_settings(1) [OF assms(4)] by simp
    show "sorted_wrt (\<lambda>x y. snd y + seconds L \<le> snd x) (cl_held ?c)"
      using D(1) by (simp add: sorted_wrt_filter_eq)
    show "x \<in> set (cl_held ?c) \<Longrightarrow> snd x \<le> cl_now ?c" for x
      using D(2) [of x] assms(6) by auto
    show "leases (cl_server ?c) key = Some (token (fst x), snd x + seconds L)"
      if x: "x \<in> set (cl_held ?c)" "cl_now ?c < snd x + seconds L" for x
    proof -
      from x have h: "x \<in> set (cl_held c)" "t < snd x + seconds L" "x \<noteq> (p, t0)" by auto
      note lv = held_live [OF assms(4) h(1) assms(6) h(2)]
      have "fst x \<noteq> p" using own [of "snd x"] h by (cases x) auto
      then have "token (fst x) \<noteq> token p" using assms(2) by (auto dest: injD)
      with lv e(2) show ?thesis by auto
    qed
    show "cl_pending ?c p' = Some t' \<Longrightarrow> (p', t') \<in> set (cl_held ?c) \<and> (p', t') \<notin> set (cl_done ?c)" for p' t'
      using D(3,4) by (auto split: if_splits)
    show "cl_pending ?c p' = Some t' \<Longrightarrow> (p', u) \<in> set (cl_held ?c) \<Longrightarrow> u \<le> t'" for p' t' u
      using D(5) by (auto split: if_splits)
    show "set (cl_done ?c) \<subseteq> set (cl_held ?c)"
      using D(4) [OF assms(5)] D(6) by auto
  qed (use D in auto)
qed

lemma cluster_inv_step:
  assumes "lease_server client leases" "inj token" "0 < L"
    and "cluster_inv leases token key L c" "cluster_step client c c'"
  shows "cluster_inv leases token key L c'"
  using assms(5)
proof cases
  case (hold p t m a l w st)
  with cluster_inv_hold [OF assms(1-4) hold(2,3)] show ?thesis by (cases st) auto
next
  case (idle p t m a l w r st)
  with cluster_inv_idle [OF assms(1,4) idle(3)] show ?thesis by (cases st) auto
next
  case (success p t0 t m a l w r st)
  with cluster_inv_success [OF assms(1,4) success(2,3)] show ?thesis by (cases st) auto
next
  case (failure p t0 t m a l w e r st)
  with cluster_inv_failure [OF assms(1-4) failure(2,3)] show ?thesis by (cases st) auto
qed

text \<open>C29: Whatever schedulers share a Redis server, and however their ticks interleave (an \<^verbatim>\<open>enqueue\<close> may take
  longer than the lease, fail, or have its lease's reply lost), the clean-ups that get enqueued were
  started at least the length of the lease apart, each by one scheduler: a failed tick gives back its
  own lease and never one that another scheduler has meanwhile taken.\<close>

theorem one_cleanup_per_lease:
  assumes "lease_server client leases" "inj token" "0 < L"
    and "\<forall>p. settings_of (cl_scheds c0 p) = (token p, L, True, key)"
    and "cl_pending c0 = (\<lambda>_. None)" "cl_held c0 = []" "cl_done c0 = []"
    and "cluster_reach client c0 c"
  shows "distinct (cl_done c)
    \<and> (\<forall>x y. x \<in> set (cl_done c) \<longrightarrow> y \<in> set (cl_done c) \<longrightarrow> x \<noteq> y \<longrightarrow>
         snd x + seconds L \<le> snd y \<or> snd y + seconds L \<le> snd x)"
proof -
  have "cluster_inv leases token key L c"
    using assms(8)
  proof induction
    case start
    show ?case using assms(4-7) by (simp add: cluster_inv_def)
  next
    case (step c c')
    from cluster_inv_step [OF assms(1-3) step.IH step.hyps(2)] show ?case .
  qed
  note D = cluster_invD [OF this]
  from D(7) sorted_wrt_two [OF D(1)] D(6) show ?thesis by blast
qed

text \<open>Two schedulers that take the lease one after the other.\<close>

lemma lease_client_law: "lease_server lease_client (\<lambda>s. s)"
  by (simp add: lease_server_def lease_client_def)

definition sample_scheduler :: "nat \<Rightarrow> scheduler" where
  "sample_scheduler p = \<lparr>sd_poll_seconds = 5, sd_cleanup_interval_seconds = 60, sd_lease_seconds = 30,
     sd_next_cleanup_at = None, sd_last_tick_at = None, sd_last_enqueue_at = None, sd_last_enqueue_error = None,
     sd_last_lease_acquired_at = None, sd_last_lease_error = None, sd_lease_token = show_nat p\<rparr>"

definition sample_cluster :: "(string \<Rightarrow> (string \<times> time) option) cluster" where
  "sample_cluster = \<lparr>cl_now = 0, cl_scheds = (\<lambda>p. (sample_scheduler p, sample_handle)), cl_server = (\<lambda>_. None),
     cl_pending = (\<lambda>_. None), cl_held = [], cl_done = []\<rparr>"

lemma sample_tick:
  assumes "live t (s (cleanup_lease_key sample_handle)) = None"
  shows "tick_begin (lease_client t) 0 0 0 0 (sample_scheduler p, sample_handle, s) =
    (Inr True, (sample_scheduler p)\<lparr>sd_last_tick_at := Some 0, sd_last_lease_acquired_at := Some 0\<rparr>, sample_handle,
      s(cleanup_lease_key sample_handle \<mapsto> (show_nat p, t + seconds 60)))"
  using assms
  by (simp add: tick_begin_def acquire_cleanup_lease_def handle_execute_def get_client_def mark_success_def
      handle_enabled_def handle_available_def sample_handle_def lease_client_def sample_scheduler_def effective_lease_seconds_def)

lemma sample_cluster_step:
  assumes "fst (cl_scheds c p) = sample_scheduler p" "snd (cl_scheds c p) = sample_handle" "cl_pending c p = None" "cl_now c \<le> t"
    and "live t (cl_server c (cleanup_lease_key sample_handle)) = None"
  shows "\<exists>c'. cluster_reach lease_client c c' \<and> cl_now c' = t \<and> cl_pending c' = cl_pending c \<and> cl_done c' = (p, t) # cl_done c
    \<and> (\<forall>q. q \<noteq> p \<longrightarrow> cl_scheds c' q = cl_scheds c q)
    \<and> cl_server c' = (cl_server c)(cleanup_lease_key sample_handle \<mapsto> (show_nat p, t + seconds 60))"
proof -
  have g: "get_sched p c = (sample_scheduler p, sample_handle, cl_server c)" using assms(1,2) by (simp add: get_sched_def)
  obtain sd s where run: "tick_begin (lease_client t) 0 0 0 0 (get_sched p c) = (Inr True, sd, sample_handle, s)"
    and s: "s = (cl_server c)(cleanup_lease_key sample_handle \<mapsto> (show_nat p, t + seconds 60))"
    using sample_tick [of t "cl_server c" p, OF assms(5)] g by auto
  let ?c1 = "(put_sched p t (sd, sample_handle, s) c)\<lparr>cl_pending := (cl_pending c)(p \<mapsto> t), cl_held := (p, t) # cl_held c\<rparr>"
  note one = hold [where client = lease_client, OF assms(3,4) run]
  obtain r sd' where fin: "tick_finish (lease_client t) 0 0 0 0 (Inr ()) (get_sched p ?c1) = (r, sd', sample_handle, s)"
    by (simp add: get_sched_def tick_finish_def set_next_def)
  have "cl_pending ?c1 p = Some t" "cl_now ?c1 \<le> t" by simp_all
  note two = success [where client = lease_client, OF this fin]
  from one two have "cluster_reach lease_client c ((put_sched p t (sd', sample_handle, s) ?c1)\<lparr>
      cl_pending := (cl_pending ?c1)(p := None), cl_done := (p, t) # cl_done ?c1\<rparr>)"
    by (meson start step)
  moreover have "(cl_pending c)(p := None) = cl_pending c" using assms(3) by auto
  ultimately show ?thesis using s by fastforce
qed

lemma cluster_reach_trans: "cluster_reach client c1 c2 \<Longrightarrow> cluster_reach client c0 c1 \<Longrightarrow> cluster_reach client c0 c2"
  by (induction rule: cluster_reach.induct) (auto intro: cluster_reach.step)

lemma sample_run:
  "\<exists>c. cluster_reach lease_client sample_cluster c \<and> cl_done c = [(1, seconds 60), (0, 0)]"
proof -
  from sample_cluster_step [of sample_cluster 0 0]
  obtain c1 where c1: "cluster_reach lease_client sample_cluster c1" "cl_now c1 = 0" "cl_pending c1 = (\<lambda>_. None)"
    "cl_done c1 = [(0, 0)]" "\<forall>q. q \<noteq> 0 \<longrightarrow> cl_scheds c1 q = (sample_scheduler q, sample_handle)"
    "cl_server c1 (cleanup_lease_key sample_handle) = Some (show_nat 0, seconds 60)"
    by (auto simp: sample_cluster_def live_def)
  from sample_cluster_step [of c1 1 "seconds 60"] c1
  obtain c2 where "cluster_reach lease_client c1 c2" "cl_done c2 = [(1, seconds 60), (0, 0)]"
    by (auto simp: live_def seconds_def sec_def)
  with cluster_reach_trans c1(1) show ?thesis by blast
qed

theorem one_cleanup_per_lease_witness:
  "\<exists>c. cluster_reach lease_client sample_cluster c \<and> cl_done c = [(1, seconds 60), (0, 0)]
    \<and> distinct (cl_done c) \<and> (\<forall>x y. x \<in> set (cl_done c) \<longrightarrow> y \<in> set (cl_done c) \<longrightarrow> x \<noteq> y \<longrightarrow>
         snd x + seconds 60 \<le> snd y \<or> snd y + seconds 60 \<le> snd x)"
proof -
  obtain c where c: "cluster_reach lease_client sample_cluster c" "cl_done c = [(1, seconds 60), (0, 0)]"
    using sample_run by blast
  have inj: "inj show_nat" by (simp add: inj_def)
  have set: "\<forall>p. settings_of (cl_scheds sample_cluster p) = (show_nat p, 60, True, cleanup_lease_key sample_handle)"
    by (simp add: settings_of_def sample_cluster_def sample_scheduler_def effective_lease_seconds_def sample_handle_def handle_enabled_def)
  have init: "cl_pending sample_cluster = (\<lambda>_. None)" "cl_held sample_cluster = []" "cl_done sample_cluster = []"
    by (simp_all add: sample_cluster_def)
  have pos: "(0::int) < 60" by simp
  show ?thesis using one_cleanup_per_lease [OF lease_client_law inj pos set init c(1)] c by blast
qed

end
