(* ===== verification/Paths.thy ===== *)
theory Paths
  imports Models
begin

text \<open>
  The parts of \<^verbatim>\<open>pathlib\<close> that the program uses on names the clients send: \<^verbatim>\<open>PurePosixPath.name\<close>,
  \<^verbatim>\<open>.stem\<close> and \<^verbatim>\<open>.suffix\<close>. Empty components and \<open>''.''\<close> are dropped when a path is parsed; a name that
  begins with dots and has no other dot has no suffix.
\<close>

definition path_name :: "string \<Rightarrow> string" where
  "path_name p = (case filter (\<lambda>c. c \<noteq> [] \<and> c \<noteq> ''.'') (split_at (CHR ''/'') p) of [] \<Rightarrow> [] | cs \<Rightarrow> last cs)"

definition strip_dots :: "string \<Rightarrow> string" where
  "strip_dots = lstrip_on (\<lambda>c. c = CHR ''.'')"

definition path_suffix :: "string \<Rightarrow> string" where
  "path_suffix p = (case rsplit_last (CHR ''.'') (strip_dots (path_name p)) of
     Some (_, e) \<Rightarrow> CHR ''.'' # e | None \<Rightarrow> [])"

definition path_stem :: "string \<Rightarrow> string" where
  "path_stem p = (case rsplit_last (CHR ''.'') (path_name p) of
     Some (s, _) \<Rightarrow> if strip_dots s \<noteq> [] then s else path_name p | None \<Rightarrow> path_name p)"

lemma path_name_no_slash: "c \<in> set (path_name p) \<Longrightarrow> c \<noteq> CHR ''/''"
proof -
  assume c: "c \<in> set (path_name p)"
  let ?cs = "filter (\<lambda>c. c \<noteq> [] \<and> c \<noteq> ''.'') (split_at (CHR ''/'') p)"
  from c have "?cs \<noteq> []" "path_name p = last ?cs" by (auto simp: path_name_def split: list.splits)
  then have "path_name p \<in> set ?cs" by (metis last_in_set)
  then have "path_name p \<in> set (split_at (CHR ''/'') p)" by simp
  from split_at_no_sep [OF this] c show ?thesis by auto
qed

lemma rsplit_last_Some:
  assumes "rsplit_last c s = Some (a, b)"
  shows "s = a @ c # b \<and> c \<notin> set b"
proof -
  have part: "partition_at c t = (x, True, y) \<Longrightarrow> t = x @ c # y" for t x y
    by (induction t arbitrary: x y) (auto split: prod.splits if_splits)
  obtain x y where p: "partition_at c (rev s) = (x, True, y)" "a = rev y" "b = rev x"
    using assms by (auto simp: rsplit_last_def split: prod.splits if_splits)
  from part [OF p(1)] have "rev (rev s) = rev (x @ c # y)" by simp
  with p(2,3) partition_at_fst [OF p(1)] show ?thesis by simp
qed

lemma set_path_stem: "set (path_stem p) \<subseteq> set (path_name p)"
  by (auto simp: path_stem_def dest: rsplit_last_Some split: option.splits if_splits)

lemma set_path_suffix: "set (path_suffix p) \<subseteq> set (path_name p) \<union> {CHR ''.''}"
proof
  fix c assume "c \<in> set (path_suffix p)"
  then obtain a e where r: "rsplit_last (CHR ''.'') (strip_dots (path_name p)) = Some (a, e)" "c \<in> set (CHR ''.'' # e)"
    by (cases "rsplit_last (CHR ''.'') (strip_dots (path_name p))") (auto simp: path_suffix_def)
  from rsplit_last_Some [OF r(1)] have "set e \<subseteq> set (strip_dots (path_name p))" by auto
  with r(2) set_lstrip_on [of "\<lambda>c. c = CHR ''.''" "path_name p"]
  show "c \<in> set (path_name p) \<union> {CHR ''.''}" by (auto simp: strip_dots_def)
qed

end
