(* ===== verification/Uploads.thy ===== *)
theory Uploads
  imports Albums Task_Queue Paths
begin

text \<open>
  \<^verbatim>\<open>UploadService.upload\<close> and \<^verbatim>\<open>generate_thumbnail\<close> of \<^verbatim>\<open>src/imghost/service.py\<close>, and the registry of
  \<^verbatim>\<open>src/imghost/processors.py\<close>. Outside the program, and so parameters: what Pillow and ffmpeg make of
  a file (a \<open>processor\<close> is a record of functions on its bytes), the tables of \<^verbatim>\<open>mimetypes\<close>, the settings
  (\<open>cfg key\<close> is \<^verbatim>\<open>int(await runtime_config.get_value(key))\<close>), the generated identifiers and the clock's
  readings (\<open>upload_inputs\<close>). The limiter and the listener to \<^verbatim>\<open>MediaUploaded\<close> are interfaces of the
  program: their operation is an argument.
\<close>

section \<open>Processors\<close>

record media_metadata =
  mm_width :: "int option"
  mm_height :: "int option"
  mm_duration_secs :: "int option"
  mm_codec_hint :: "string option"
  mm_is_animated :: bool
  mm_mime_type :: string
  mm_format :: string
  mm_rotation_degrees :: int

record validation_result =
  vr_ok :: bool
  vr_rejection_reason :: "string option"

record sanitized_file =
  sf_data :: bytes
  sf_mime_type :: string
  sf_format :: string

record thumbnail_result =
  th_data :: "bytes option"
  th_thumb_is_orig :: bool
  th_format :: string
  th_size :: int

text \<open>A video processor has the attribute \<^verbatim>\<open>thumb_frames\<close>, which is set before each use.\<close>

record processor =
  pc_supported_formats :: "string list"
  pc_has_thumb_frames :: bool
  pc_validate :: "bytes \<Rightarrow> err + validation_result"
  pc_extract_metadata :: "bytes \<Rightarrow> string \<Rightarrow> err + media_metadata"
  pc_sanitize :: "bytes \<Rightarrow> media_metadata \<Rightarrow> err + sanitized_file"
  pc_generate_thumbnail :: "int option \<Rightarrow> bytes \<Rightarrow> media_metadata \<Rightarrow> err + thumbnail_result"

type_synonym processors = "string \<rightharpoonup> processor"

definition register_processor :: "processor \<Rightarrow> processors \<Rightarrow> processors" where
  "register_processor p reg = fold (\<lambda>f r. r(f \<mapsto> p)) (pc_supported_formats p) reg"

definition get_processor :: "processors \<Rightarrow> string \<Rightarrow> processor option" where
  "get_processor reg format_name = reg (py_lower format_name)"

section \<open>What the client sends\<close>

text \<open>\<open>uf_reads\<close>: what the successive calls of \<^verbatim>\<open>file.read\<close> return, until one returns nothing.\<close>

record upload_file =
  uf_filename :: "string option"
  uf_content_type :: "string option"
  uf_reads :: "bytes list"

record current_actor =
  ca_user :: "user option"
  ca_source :: string

record mime_tables =
  mt_guess_type :: "string \<Rightarrow> string option"
  mt_guess_extension :: "string \<Rightarrow> string option"

record upload_inputs =
  ui_album_id :: string
  ui_delete_token :: string
  ui_media_id :: string
  ui_expiry_check :: time
  ui_access_check :: time
  ui_album_created :: time
  ui_media_created :: time
  ui_dbnow :: time

fun read_chunks_bounded :: "int \<Rightarrow> int \<Rightarrow> bytes \<Rightarrow> bytes list \<Rightarrow> err + bytes" where
  "read_chunks_bounded max_bytes received acc [] = Inr acc"
| "read_chunks_bounded max_bytes received acc (chunk # rest) =
     (if chunk = [] then Inr acc
      else let received' = received + int (length chunk) in
        if max_bytes < received' then Inl (HTTPException 413 ''Upload exceeds V1 size limit.'')
        else read_chunks_bounded max_bytes received' (acc @ chunk) rest)"

definition read_bounded_upload :: "(string \<Rightarrow> err + int) \<Rightarrow> upload_file \<Rightarrow> err + bytes" where
  "read_bounded_upload cfg f =
     and_then (cfg ''max_upload_bytes'') (\<lambda>max_bytes. read_chunks_bounded max_bytes 0 [] (uf_reads f))"

definition video_formats :: "string list" where
  "video_formats = [''mp4'', ''mov'', ''webm'']"

definition upload_content_type :: "mime_tables \<Rightarrow> upload_file \<Rightarrow> string" where
  "upload_content_type mt f = or_str (uf_content_type f)
     (or_str (mt_guess_type mt (or_str (uf_filename f) [])) ''application/octet-stream'')"

definition upload_suffix :: "upload_file \<Rightarrow> string" where
  "upload_suffix f = py_lower (path_suffix (or_str (uf_filename f) ''upload.bin''))"

definition format_of :: "string \<Rightarrow> string \<Rightarrow> string" where
  "format_of suffix content_type =
     (if strip_dots suffix \<noteq> [] then strip_dots suffix else last (split_at (CHR ''/'') content_type))"

definition infer_upload_media_type :: "mime_tables \<Rightarrow> upload_file \<Rightarrow> string" where
  "infer_upload_media_type mt f =
     (let ct = upload_content_type mt f; fmt = format_of (upload_suffix f) ct in
      if starts_with ''video/'' ct \<or> py_lower fmt \<in> set video_formats then ''video''
      else if starts_with ''image/'' ct then ''image'' else ''unknown'')"

section \<open>Uploading\<close>

definition enforce_storage_quotas :: "(string \<Rightarrow> err + int) \<Rightarrow> user option \<Rightarrow> int \<Rightarrow> db \<Rightarrow> err + unit" where
  "enforce_storage_quotas cfg actor incoming d =
     (let all_media = list_all_media d; stored = storage_bytes_for_media all_media in
      and_then (cfg ''server_quota_bytes'') (\<lambda>server_quota.
        if 0 < server_quota \<and> server_quota < stored + incoming
          then Inl (HTTPException 507 ''Server storage quota reached.'')
        else (case actor of
            None \<Rightarrow> Inr ()
          | Some u \<Rightarrow>
              let used = storage_bytes_for_media (filter (\<lambda>m. md_user_id m = Some (us_id u)) all_media) in
              and_then (cfg ''default_user_quota_bytes'') (\<lambda>default_quota.
                let quota = (case us_quota_bytes u of Some q \<Rightarrow> q | None \<Rightarrow> default_quota) in
                if 0 < quota \<and> quota < used + incoming
                  then Inl (HTTPException 413 ''User storage quota reached.'') else Inr ()))))"

definition existing_album ::
  "upload_inputs \<Rightarrow> string \<Rightarrow> current_actor \<Rightarrow> string option \<Rightarrow> db \<Rightarrow> err + album" where
  "existing_album ui aid actor tok d =
     (case get_album aid d of
        None \<Rightarrow> Inl album_not_found
      | Some a \<Rightarrow>
          if is_expired (ui_expiry_check ui) (al_expires_at a) then Inl album_not_found
          else (case ca_user actor of
              Some u \<Rightarrow>
                if al_user_id a \<noteq> Some (us_id u)
                  then Inl (HTTPException 403 ''Album does not belong to authenticated user.'') else Inr a
            | None \<Rightarrow> and_then (require_album_access (ui_access_check ui) a tok None False) (\<lambda>_. Inr a)))"

definition new_album :: "(string \<Rightarrow> err + int) \<Rightarrow> upload_inputs \<Rightarrow> string option \<Rightarrow> user option \<Rightarrow> err + album" where
  "new_album cfg ui title actor =
     and_then (case actor of Some _ \<Rightarrow> Inr None
         | None \<Rightarrow> and_then (cfg ''anon_expiry_hours'') (\<lambda>n.
             and_then (datetime_add (ui_album_created ui) (hours n)) (\<lambda>t. Inr (Some t)))) (\<lambda>expiry.
       Inr \<lparr>al_id = ui_album_id ui, al_title = title, al_user_id = map_option us_id actor,
         al_cover_media_id = None,
         al_delete_token = (case actor of Some _ \<Rightarrow> None | None \<Rightarrow> Some (ui_delete_token ui)),
         al_created_at = ui_album_created ui, al_updated_at = ui_album_created ui, al_expires_at = expiry\<rparr>)"

definition get_or_create_album ::
  "(string \<Rightarrow> err + int) \<Rightarrow> upload_inputs \<Rightarrow> string option \<Rightarrow> string option \<Rightarrow> string \<Rightarrow> current_actor
     \<Rightarrow> string option \<Rightarrow> world \<Rightarrow> (err + album) \<times> world" where
  "get_or_create_album cfg ui album_id title cid actor tok w =
     (if truthy album_id then (existing_album ui (the album_id) actor tok (w_db w), w)
      else (case new_album cfg ui title (ca_user actor) of
          Inl e \<Rightarrow> (Inl e, w)
        | Inr a \<Rightarrow>
            (case create_album a (w_db w) of
               Inl e \<Rightarrow> (Inl e, w)
             | Inr (_, d) \<Rightarrow>
                 (Inr a, emit (AlbumCreated (al_id a) (map_option us_id (ca_user actor)) 0
                    (actor_kind (ca_user actor) tok False) (ca_source actor) cid) (with_db w d)))))"

text \<open>The part of \<^verbatim>\<open>_create_media\<close> before anything is stored: the media type, the metadata, the clean file.\<close>

definition run_processor :: "processor \<Rightarrow> string \<Rightarrow> bytes \<Rightarrow> err + media_metadata \<times> sanitized_file" where
  "run_processor p fmt payload =
     and_then (pc_validate p payload) (\<lambda>v.
       if \<not> vr_ok v
         then Inl (HTTPException 415 (case vr_rejection_reason v of Some r \<Rightarrow> r | None \<Rightarrow> ''Unsupported Media Type''))
       else and_then (pc_extract_metadata p payload fmt) (\<lambda>md.
         and_then (pc_sanitize p payload md) (\<lambda>sf. Inr (md, sf))))"

definition process_upload ::
  "processors \<Rightarrow> mime_tables \<Rightarrow> upload_file \<Rightarrow> bytes \<Rightarrow> err + string \<times> media_metadata \<times> sanitized_file" where
  "process_upload procs mt f payload =
     (let ct = upload_content_type mt f;
          suffix = (if upload_suffix f \<noteq> [] then upload_suffix f else or_str (mt_guess_extension mt ct) []);
          fmt = format_of suffix ct;
          media_type = (if starts_with ''video/'' ct \<or> py_lower fmt \<in> set video_formats then ''video'' else ''image'') in
      case get_processor procs fmt of
        None \<Rightarrow> Inl (HTTPException 415 (if media_type = ''image'' then ''Unsupported image format.'' else ''Unsupported video format.''))
      | Some p \<Rightarrow>
          (case run_processor p fmt payload of
             Inl (VideoProcessingError _) \<Rightarrow>
               Inl (HTTPException 415 (if media_type = ''image'' then ''Unsupported or invalid image file.''
                 else ''Unsupported or invalid video file.''))
           | Inl e \<Rightarrow> Inl e
           | Inr (md, sf) \<Rightarrow> Inr (media_type, md, sf)))"

definition upload_storage_key :: "user option \<Rightarrow> string \<Rightarrow> string \<Rightarrow> string" where
  "upload_storage_key actor media_id fmt =
     ''originals/'' @ (case actor of Some u \<Rightarrow> us_id u | None \<Rightarrow> ''anon'') @ ''/'' @ media_id @ ''.''
       @ (if fmt \<noteq> ''jpeg'' then fmt else ''jpg'')"

definition new_media ::
  "upload_inputs \<Rightarrow> string \<Rightarrow> upload_file \<Rightarrow> user option \<Rightarrow> string \<Rightarrow> media_metadata \<Rightarrow> sanitized_file \<Rightarrow> media" where
  "new_media ui aid f actor media_type md sf =
     \<lparr>md_id = ui_media_id ui, md_album_id = aid, md_user_id = map_option us_id actor,
      md_filename_orig = or_str (uf_filename f) (ui_media_id ui), md_media_type = media_type,
      md_format = sf_format sf, md_mime_type = sf_mime_type sf,
      md_storage_key = upload_storage_key actor (ui_media_id ui) (sf_format sf), md_thumb_key = None,
      md_thumb_is_orig = False, md_thumb_status = ''pending'', md_file_size = int (length (sf_data sf)),
      md_thumb_size = None, md_width = mm_width md, md_height = mm_height md,
      md_duration_secs = mm_duration_secs md, md_is_animated = mm_is_animated md,
      md_codec_hint = mm_codec_hint md, md_position = 0, md_created_at = ui_media_created ui\<rparr>"

text \<open>\<open>listen ev\<close>: what the subscribers to \<^verbatim>\<open>MediaUploaded\<close> do to the state before \<^verbatim>\<open>emit\<close> returns.\<close>

definition create_media ::
  "processors \<Rightarrow> mime_tables \<Rightarrow> (event \<Rightarrow> world \<Rightarrow> world) \<Rightarrow> upload_inputs \<Rightarrow> string \<Rightarrow> upload_file \<Rightarrow> bytes \<Rightarrow> string
     \<Rightarrow> current_actor \<Rightarrow> world \<Rightarrow> (err + media) \<times> world" where
  "create_media procs mt listen ui aid f payload cid actor w =
     (case process_upload procs mt f payload of
        Inl e \<Rightarrow> (Inl e, w)
      | Inr (media_type, md, sf) \<Rightarrow>
          let m = new_media ui aid f (ca_user actor) media_type md sf; key = md_storage_key m in
          (case st_put key (sf_data sf) (w_store w) of
             (Inl e, s) \<Rightarrow> (Inl e, with_store w s)
           | (Inr _, s) \<Rightarrow>
               (case create_media_with_next_position m (w_db w) of
                  Inl e \<Rightarrow> (Inl e, with_store w (snd (st_delete key s)))
                | Inr (m', d) \<Rightarrow>
                    let ev = MediaUploaded (md_id m') (md_album_id m') (map_option us_id (ca_user actor))
                          (md_file_size m') (md_media_type m') (md_format m')
                          (actor_kind (ca_user actor) None False) (ca_source actor) cid;
                        w1 = listen ev (emit ev (with_db (with_store w s) d)) in
                    (Inr (case get_media (md_id m') (w_db w1) of Some r \<Rightarrow> r | None \<Rightarrow> m'), w1))))"

definition max_album_items :: nat where
  "max_album_items = 1000"

text \<open>
  The body of the \<^verbatim>\<open>try\<close>: it ends with an exception and the album found or created by then, if any, or
  with the album and the new media row. \<open>limit\<close> is \<^verbatim>\<open>rate_limiter.enforce_upload_limits\<close> on its own state.
\<close>

definition upload_body ::
  "(string \<Rightarrow> err + int) \<Rightarrow> processors \<Rightarrow> mime_tables \<Rightarrow> (event \<Rightarrow> world \<Rightarrow> world)
     \<Rightarrow> (string \<Rightarrow> int \<Rightarrow> user option \<Rightarrow> 'r \<Rightarrow> (err + unit) \<times> 'r)
     \<Rightarrow> upload_inputs \<Rightarrow> upload_file \<Rightarrow> string option \<Rightarrow> string option \<Rightarrow> string \<Rightarrow> current_actor \<Rightarrow> string option
     \<Rightarrow> string option \<Rightarrow> world \<times> 'r \<Rightarrow> (err \<times> album option + album \<times> media) \<times> world \<times> 'r" where
  "upload_body cfg procs mt listen limit ui f album_id title cid actor tok limit_key st =
     (case st of (w, r) \<Rightarrow>
      (case read_bounded_upload cfg f of
         Inl e \<Rightarrow> (Inl (e, None), w, r)
       | Inr payload \<Rightarrow>
           if payload = [] then (Inl (HTTPException 400 ''Empty file upload.'', None), w, r)
           else
             (case (if truthy limit_key then limit (the limit_key) (int (length payload)) (ca_user actor) r
                    else (Inr (), r)) of
                (Inl e, r1) \<Rightarrow> (Inl (e, None), w, r1)
              | (Inr _, r1) \<Rightarrow>
                  (case enforce_storage_quotas cfg (ca_user actor) (int (length payload)) (w_db w) of
                     Inl e \<Rightarrow> (Inl (e, None), w, r1)
                   | Inr _ \<Rightarrow>
                       (case get_or_create_album cfg ui album_id title cid actor tok w of
                          (Inl e, w1) \<Rightarrow> (Inl (e, None), w1, r1)
                        | (Inr a, w1) \<Rightarrow>
                            if max_album_items \<le> length (list_album_media (al_id a) (w_db w1))
                              then (Inl (HTTPException 413 ''Album item limit reached.'', Some a), w1, r1)
                            else
                              (case create_media procs mt listen ui (al_id a) f payload cid actor w1 of
                                 (Inl e, w2) \<Rightarrow> (Inl (e, Some a), w2, r1)
                               | (Inr m, w2) \<Rightarrow> (Inr (a, m), w2, r1)))))))"

text \<open>The handler of the \<^verbatim>\<open>try\<close>: an album created for this upload goes again if it is still empty.\<close>

definition drop_empty_album :: "string option \<Rightarrow> album option \<Rightarrow> world \<Rightarrow> world" where
  "drop_empty_album album_id alb w =
     (case alb of
        Some a \<Rightarrow>
          if album_id = None \<and> list_album_media (al_id a) (w_db w) = []
          then with_db w (snd (repo_delete_album (al_id a) (w_db w))) else w
      | None \<Rightarrow> w)"

definition upload ::
  "(string \<Rightarrow> err + int) \<Rightarrow> processors \<Rightarrow> mime_tables \<Rightarrow> (event \<Rightarrow> world \<Rightarrow> world)
     \<Rightarrow> (string \<Rightarrow> int \<Rightarrow> user option \<Rightarrow> 'r \<Rightarrow> (err + unit) \<times> 'r)
     \<Rightarrow> upload_inputs \<Rightarrow> upload_file \<Rightarrow> string option \<Rightarrow> string option \<Rightarrow> string \<Rightarrow> current_actor \<Rightarrow> string option
     \<Rightarrow> string option \<Rightarrow> world \<times> 'r \<Rightarrow> (err + album \<times> media) \<times> world \<times> 'r" where
  "upload cfg procs mt listen limit ui f album_id title cid actor tok limit_key st =
     (let media_type = infer_upload_media_type mt f;
          kind = (case ca_user actor of Some _ \<Rightarrow> ''user'' | None \<Rightarrow> ''anonymous'') in
      case upload_body cfg procs mt listen limit ui f album_id title cid actor tok limit_key st of
        (Inl (e, alb), w, r) \<Rightarrow>
          (Inl e, drop_empty_album album_id alb
             (tally (UploadMetric (if is_http e then ''rejected'' else ''failed'') media_type kind (ca_source actor) None) w), r)
      | (Inr (a, m), w, r) \<Rightarrow>
          let a' = (if \<not> truthy (al_title a) \<and> truthy title then a\<lparr>al_title := title\<rparr> else a) in
          (case save_album (ui_dbnow ui) a' w of
             (Inl e, w1) \<Rightarrow> (Inl e, w1, r)
           | (Inr _, w1) \<Rightarrow>
               (Inr (a', m), tally (UploadMetric ''success'' (md_media_type m) kind (ca_source actor)
                  (Some (md_file_size m))) w1, r)))"

end
