(* ===== verification/Thumbnails.thy ===== *)
theory Thumbnails
  imports Uploads
begin

text \<open>
  \<^verbatim>\<open>UploadService.generate_thumbnail\<close> (\<^verbatim>\<open>src/imghost/service.py\<close>) and \<^verbatim>\<open>AppState.recover_thumbnails\<close>
  (\<^verbatim>\<open>src/imghost/app_state.py\<close>): the life of a thumbnail, from \<^verbatim>\<open>pending\<close> over \<^verbatim>\<open>processing\<close> to \<^verbatim>\<open>done\<close>,
  \<^verbatim>\<open>failed\<close>, or \<^verbatim>\<open>pending\<close> again for a retry.
\<close>

section \<open>One attempt\<close>

definition thumbnail_failure_reason :: "err \<Rightarrow> string" where
  "thumbnail_failure_reason e =
     (if e = ValueError ''processor_missing'' then ''processor_missing''
      else let message = py_lower (err_str e) in
        if contains ''extract'' message \<and> contains ''metadata'' message then ''metadata_extract_failed''
        else if contains ''thumbnail'' message \<and> \<not> contains ''cleanup'' message then ''thumbnail_generate_failed''
        else if contains ''store'' message \<or> contains ''write thumb'' message \<or> contains ''thumbnail_store'' message
          then ''thumbnail_store_failed''
        else if contains ''read source'' message \<or> contains ''storage read'' message \<or> contains ''get_bytes'' message
          then ''storage_read_failed''
        else if contains ''update media'' message \<or> contains ''repository update'' message
          then ''repository_update_failed''
        else ''thumbnail_generate_failed'')"

definition thumbnail_failure_is_retryable :: "string \<Rightarrow> bool" where
  "thumbnail_failure_is_retryable reason = (reason \<in> set
     [''storage_read_failed'', ''thumbnail_store_failed'', ''repository_update_failed'', ''thumbnail_generate_failed''])"

text \<open>\<^verbatim>\<open>repository.update_media_thumbnail_state(media.id, thumb_key=media.thumb_key, ...)\<close>\<close>

definition save_thumb_state :: "media \<Rightarrow> world \<Rightarrow> err + world" where
  "save_thumb_state m w =
     and_then (update_media_thumbnail_state (md_id m) (md_thumb_key m) (md_thumb_is_orig m) (md_thumb_status m)
        (md_thumb_size m) (w_db w)) (\<lambda>(_, d). Inr (with_db w d))"

definition thumb_storage_key :: "media \<Rightarrow> string \<Rightarrow> string" where
  "thumb_storage_key m fmt = ''thumbnails/'' @ md_id m @ ''.'' @ (if fmt \<noteq> ''jpeg'' then fmt else ''jpg'')"

text \<open>The thumbnail of the stored original, before anything is written.\<close>

definition render_thumbnail :: "(string \<Rightarrow> err + int) \<Rightarrow> processors \<Rightarrow> media \<Rightarrow> store \<Rightarrow> err + thumbnail_result" where
  "render_thumbnail cfg procs m s =
     (case get_processor procs (md_format m) of
        None \<Rightarrow> Inl (ValueError ''processor_missing'')
      | Some p \<Rightarrow>
          and_then (if pc_has_thumb_frames p
              then and_then (cfg ''video_thumb_frames'') (\<lambda>n. Inr (Some (max 1 n))) else Inr None) (\<lambda>frames.
          and_then (st_get_bytes (md_storage_key m) s) (\<lambda>payload.
          and_then (pc_extract_metadata p payload (md_format m)) (\<lambda>md.
            pc_generate_thumbnail p frames payload md))))"

text \<open>
  The body of the \<^verbatim>\<open>try\<close>: its outcome, \<^verbatim>\<open>written_thumb_key\<close>, and the state.
\<close>

definition store_thumbnail ::
  "(string \<Rightarrow> err + int) \<Rightarrow> processors \<Rightarrow> media \<Rightarrow> world \<Rightarrow> (err + unit) \<times> string option \<times> world" where
  "store_thumbnail cfg procs m w =
     (case render_thumbnail cfg procs m (w_store w) of
        Inl e \<Rightarrow> (Inl e, None, w)
      | Inr t \<Rightarrow>
          if th_thumb_is_orig t then
            (case save_thumb_state (set_thumb None True ''done'' (Some (md_file_size m)) m) w of
               Inl e \<Rightarrow> (Inl e, None, w) | Inr w' \<Rightarrow> (Inr (), None, w'))
          else let key = thumb_storage_key m (th_format t) in
            (case st_put key (case th_data t of Some b \<Rightarrow> b | None \<Rightarrow> []) (w_store w) of
               (Inl e, s) \<Rightarrow> (Inl e, None, with_store w s)
             | (Inr _, s) \<Rightarrow>
                 (case save_thumb_state (set_thumb (Some key) False ''done'' (Some (th_size t)) m) (with_store w s) of
                    Inl e \<Rightarrow> (Inl e, Some key, with_store w s) | Inr w' \<Rightarrow> (Inr (), Some key, w'))))"

definition delete_written :: "string option \<Rightarrow> store \<Rightarrow> (err + unit) \<times> store" where
  "delete_written written s = (case written of Some key \<Rightarrow> st_delete key s | None \<Rightarrow> (Inr (), s))"

definition reset_thumb :: "string \<Rightarrow> media \<Rightarrow> media" where
  "reset_thumb status m = set_thumb None False status None m"

text \<open>The two ends of the \<^verbatim>\<open>except\<close> block.\<close>

definition thumbnail_retry :: "string \<Rightarrow> media \<Rightarrow> string option \<Rightarrow> world \<Rightarrow> (err + task_run_result) \<times> world" where
  "thumbnail_retry reason m written w =
     (let w1 = with_store w (snd (delete_written written (w_store w))) in
      case save_thumb_state (reset_thumb ''pending'' m) w1 of
        Inl e \<Rightarrow> (Inl e, w1)
      | Inr w2 \<Rightarrow>
          (Inr \<lparr>tr_state = RetryScheduled, tr_reason = Some reason, tr_retryable = True\<rparr>,
           tally (ThumbMetric ''retry'' (md_media_type m) (Some reason)) w2))"

definition discard_written :: "string \<Rightarrow> media \<Rightarrow> string option \<Rightarrow> world \<Rightarrow> world" where
  "discard_written cid m written w =
     (case delete_written written (w_store w) of
        (Inl e, s) \<Rightarrow> tally (ThumbFailure (md_id m) cid ''thumbnail_cleanup_failed'' e) (with_store w s)
      | (Inr _, s) \<Rightarrow> with_store w s)"

definition mark_failed :: "string \<Rightarrow> string \<Rightarrow> media \<Rightarrow> world \<Rightarrow> world" where
  "mark_failed reason cid m w =
     (case save_thumb_state (reset_thumb ''failed'' m) w of
        Inl e \<Rightarrow> if reason \<noteq> ''repository_update_failed''
          then tally (ThumbFailure (md_id m) cid ''repository_update_failed'' e) w else w
      | Inr w' \<Rightarrow> w')"

definition thumbnail_failed ::
  "string \<Rightarrow> bool \<Rightarrow> err \<Rightarrow> string \<Rightarrow> media \<Rightarrow> string option \<Rightarrow> world \<Rightarrow> task_run_result \<times> world" where
  "thumbnail_failed reason retryable e cid m written w =
     (\<lparr>tr_state = (if retryable then FailedExhausted else FailedPermanent), tr_reason = Some reason, tr_retryable = False\<rparr>,
      mark_failed reason cid m (discard_written cid m written
        (tally (ThumbFailure (md_id m) cid reason e) (tally (ThumbMetric ''failed'' (md_media_type m) (Some reason)) w))))"

definition skipped :: "string \<Rightarrow> task_run_result" where
  "skipped reason = \<lparr>tr_state = Skipped, tr_reason = Some reason, tr_retryable = False\<rparr>"

definition generate_thumbnail ::
  "(string \<Rightarrow> err + int) \<Rightarrow> processors \<Rightarrow> string \<Rightarrow> string \<Rightarrow> int \<Rightarrow> int \<Rightarrow> world \<Rightarrow> (err + task_run_result) \<times> world" where
  "generate_thumbnail cfg procs mid cid attempt max_attempts w =
     (case get_media mid (w_db w) of
        None \<Rightarrow> (Inr (skipped ''missing_media''), w)
      | Some m \<Rightarrow>
          if md_thumb_status m = ''done''
            then (Inr (skipped ''already_done''), tally (ThumbMetric ''skipped'' (md_media_type m) (Some ''already_done'')) w)
          else let m = m\<lparr>md_thumb_status := ''processing''\<rparr> in
            (case save_thumb_state m w of
               Inl e \<Rightarrow> (Inl e, w)
             | Inr w1 \<Rightarrow>
                 (case store_thumbnail cfg procs m w1 of
                    (Inr _, _, w2) \<Rightarrow>
                      (Inr \<lparr>tr_state = Succeeded, tr_reason = None, tr_retryable = False\<rparr>,
                       tally (ThumbMetric ''success'' (md_media_type m) None) w2)
                  | (Inl e, written, w2) \<Rightarrow>
                      let reason = thumbnail_failure_reason e; retryable = thumbnail_failure_is_retryable reason in
                      if retryable \<and> attempt < max_attempts then thumbnail_retry reason m written w2
                      else (case thumbnail_failed reason retryable e cid m written w2 of (r, w3) \<Rightarrow> (Inr r, w3)))))"

section \<open>As a task\<close>

text \<open>
  \<^verbatim>\<open>uploads.generate_thumbnail\<close> called with a task's keyword arguments (with others, Python raises
  \<^verbatim>\<open>TypeError\<close>), and \<^verbatim>\<open>AppState._enqueue_thumbnail\<close>, the listener to \<^verbatim>\<open>MediaUploaded\<close>, on the inline
  queue: the task has run when \<^verbatim>\<open>emit\<close> returns.
\<close>

definition thumbnail_handler :: "(string \<Rightarrow> err + int) \<Rightarrow> processors \<Rightarrow> world handler" where
  "thumbnail_handler cfg procs kw st =
     (case (map_of kw ''media_id'', map_of kw ''correlation_id'', map_of kw ''attempt'', map_of kw ''max_attempts'') of
        (Some (AStr mid), Some (AStr cid), Some (AInt a), Some (AInt n)) \<Rightarrow>
          (case generate_thumbnail cfg procs mid cid a n (qs_world st) of
             (Inl e, w) \<Rightarrow> (Inl e, st\<lparr>qs_world := w\<rparr>) | (Inr r, w) \<Rightarrow> (Inr (Result r), st\<lparr>qs_world := w\<rparr>))
      | _ \<Rightarrow> (Inl (TypeError ''arguments''), st))"

definition enqueue_thumbnail :: "world registry \<Rightarrow> event \<Rightarrow> world \<Rightarrow> world" where
  "enqueue_thumbnail reg ev w =
     (case ev of
        MediaUploaded mid _ _ _ _ _ _ _ cid \<Rightarrow>
          qs_world (snd (sync_enqueue reg (ts_name generate_thumbnail_task) None
            [(''media_id'', AStr mid), (''correlation_id'', AStr cid)]
            \<lparr>qs_queue = [], qs_notes = [], qs_world = w\<rparr>))
      | _ \<Rightarrow> w)"

section \<open>Recovery at start-up\<close>

text \<open>
  \<^verbatim>\<open>recover_thumbnails\<close>. \<open>enqueue mid cid\<close> is \<^verbatim>\<open>tasks.enqueue(GENERATE_THUMBNAIL_TASK.name, ...)\<close>: with the
  inline queue it runs the task before it returns. The loop's rows are those read before it, so
  \<^verbatim>\<open>update_media\<close> writes an old row back whole.
\<close>

fun recover_loop ::
  "(string \<Rightarrow> string \<Rightarrow> 's \<times> world \<Rightarrow> (err + unit) \<times> 's \<times> world) \<Rightarrow> bool \<Rightarrow> media list \<Rightarrow> string list \<Rightarrow> int
     \<Rightarrow> 's \<times> world \<Rightarrow> (err + int) \<times> 's \<times> world" where
  "recover_loop enqueue include_failed [] seen enqueued st = (Inr enqueued, st)"
| "recover_loop enqueue include_failed (m # rest) seen enqueued st =
     (if md_id m \<in> set seen then recover_loop enqueue include_failed rest seen enqueued st
      else (case (if include_failed \<and> md_thumb_status m = ''failed''
              then and_then (update_media_row (m\<lparr>md_thumb_status := ''pending''\<rparr>) (w_db (snd st))) (\<lambda>(_, d). Inr (with_db (snd st) d))
              else Inr (snd st)) of
          Inl e \<Rightarrow> (Inl e, st)
        | Inr w \<Rightarrow>
            (case enqueue (md_id m) (''recovery-'' @ md_id m) (fst st, w) of
               (Inl e, st1) \<Rightarrow> (Inl e, st1)
             | (Inr _, st1) \<Rightarrow> recover_loop enqueue include_failed rest (md_id m # seen) (enqueued + 1) st1)))"

definition recover_thumbnails ::
  "(string \<Rightarrow> string \<Rightarrow> 's \<times> world \<Rightarrow> (err + unit) \<times> 's \<times> world) \<Rightarrow> bool \<Rightarrow> 's \<times> world \<Rightarrow> (err + int) \<times> 's \<times> world" where
  "recover_thumbnails enqueue include_failed st =
     recover_loop enqueue include_failed
       (find_pending_thumbnails (w_db (snd st)) @ (if include_failed then find_failed_thumbnails (w_db (snd st)) else []))
       [] 0 st"

end
