(* ===== verification/Thumb_Facts.thy ===== *)
theory Thumb_Facts
  imports Thumbnails Samples
begin

text \<open>
  What an attempt at a thumbnail changes, and the interface of the listener to \<^verbatim>\<open>MediaUploaded\<close> that
  uploads rely on, with its two providers: a queue that keeps the task for later, and the inline queue.
\<close>

section \<open>Changes to thumbnails only\<close>

definition rethumbed :: "media \<Rightarrow> media \<Rightarrow> bool" where
  "rethumbed m m' = (m' = set_thumb (md_thumb_key m') (md_thumb_is_orig m') (md_thumb_status m') (md_thumb_size m') m)"

text \<open>
  From \<open>w\<close> to \<open>w'\<close> only thumbnails changed: their columns, objects whose key begins with \<^verbatim>\<open>thumbnails/\<close>,
  and the log.
\<close>

definition thumbs_only :: "world \<Rightarrow> world \<Rightarrow> bool" where
  "thumbs_only w w' \<longleftrightarrow>
     (\<exists>ms. w_db w' = (w_db w)\<lparr>db_media := ms\<rparr> \<and> list_all2 rethumbed (db_media (w_db w)) ms)
     \<and> st_faulty (w_store w') = st_faulty (w_store w) \<and> st_torn (w_store w') = st_torn (w_store w)
     \<and> (\<forall>k. \<not> starts_with ''thumbnails/'' k \<longrightarrow> st_objects (w_store w') k = st_objects (w_store w) k)
     \<and> w_audit w' = w_audit w"

lemma rethumbed_refl [simp]: "rethumbed m m"
  by (simp add: rethumbed_def set_thumb_def)

lemma rethumbed_set_thumb [simp]: "rethumbed m (set_thumb tk og st sz m)"
  by (simp add: rethumbed_def set_thumb_def)

lemma rethumbed_sel:
  assumes "rethumbed m m'"
  shows "md_id m' = md_id m" "md_album_id m' = md_album_id m" "md_user_id m' = md_user_id m"
    "md_storage_key m' = md_storage_key m" "md_position m' = md_position m" "md_file_size m' = md_file_size m"
    "md_format m' = md_format m" "md_media_type m' = md_media_type m"
  using assms by (cases m, simp add: rethumbed_def set_thumb_def, metis media.select_convs)+

lemma rethumbed_trans:
  assumes "rethumbed a b" "rethumbed b c"
  shows "rethumbed a c"
proof -
  have "set_thumb tk og st sz (set_thumb tk' og' st' sz' m) = set_thumb tk og st sz m" for tk og st sz tk' og' st' sz' m
    by (simp add: set_thumb_def)
  with assms show ?thesis unfolding rethumbed_def by metis
qed

lemma thumbs_only_refl [simp]: "thumbs_only w w"
  unfolding thumbs_only_def by (auto intro!: exI [of _ "db_media (w_db w)"] list_all2_refl)

lemma thumbs_only_trans: "thumbs_only a b \<Longrightarrow> thumbs_only b c \<Longrightarrow> thumbs_only a c"
  unfolding thumbs_only_def
  by (fastforce elim: list_all2_trans [rotated] intro: rethumbed_trans)

lemma thumbs_only_sel:
  assumes "thumbs_only w w'"
  shows "db_albums (w_db w') = db_albums (w_db w)" "db_users (w_db w') = db_users (w_db w)"
    "db_sharex (w_db w') = db_sharex (w_db w)" "st_faulty (w_store w') = st_faulty (w_store w)"
  using assms by (auto simp: thumbs_only_def)

lemma thumbs_only_log [simp]: "thumbs_only w w' \<Longrightarrow> thumbs_only w (w'\<lparr>w_log := l\<rparr>)"
  by (simp add: thumbs_only_def)

lemma list_all2_update_where:
  "(\<And>m. P m \<Longrightarrow> R m (f m)) \<Longrightarrow> (\<And>m. R m m) \<Longrightarrow> list_all2 R ms (update_where P f ms)"
  by (induction ms) (auto simp: update_where_def)

lemma save_thumb_state_only: "save_thumb_state m w = Inr w' \<Longrightarrow> thumbs_only w w'"
  by (auto simp: save_thumb_state_def update_media_thumbnail_state_def thumbs_only_def with_db_def
      intro!: list_all2_update_where split: if_splits option.splits)

lemma starts_with_append [simp]: "starts_with p (p @ s)"
  by (simp add: starts_with_def)

lemma thumb_key_prefix [simp]: "starts_with ''thumbnails/'' (thumb_storage_key m fmt)"
  by (simp add: thumb_storage_key_def starts_with_def)

lemma put_thumb_only:
  "st_put (thumb_storage_key m fmt) d (w_store w) = (r, s) \<Longrightarrow> thumbs_only w (with_store w s)"
  by (auto simp: st_put_def thumbs_only_def with_store_def split: if_splits intro!: exI [of _ "db_media (w_db w)"] list_all2_refl)

lemma delete_thumb_only:
  "st_delete (thumb_storage_key m fmt) (w_store w) = (r, s) \<Longrightarrow> thumbs_only w (with_store w s)"
  by (auto simp: st_delete_def thumbs_only_def with_store_def split: if_splits intro!: exI [of _ "db_media (w_db w)"] list_all2_refl)

lemma save_thumb_state_with: "save_thumb_state m (with_store w s) = Inr w' \<Longrightarrow> thumbs_only w (with_store w s) \<Longrightarrow> thumbs_only w w'"
  by (blast intro: thumbs_only_trans save_thumb_state_only)

lemma thumbs_only_tally [simp]: "thumbs_only w w' \<Longrightarrow> thumbs_only w (tally e w')"
  by (simp add: tally_def)

lemma store_thumbnail_only:
  assumes "store_thumbnail cfg procs m w = (r, written, w')"
  shows "thumbs_only w w' \<and> (\<forall>k. written = Some k \<longrightarrow> (\<exists>fmt. k = thumb_storage_key m fmt))"
  using assms
  by (auto simp: store_thumbnail_def Let_def split: sum.splits prod.splits if_splits
      dest: save_thumb_state_only save_thumb_state_with put_thumb_only)

lemma delete_written_only:
  assumes "\<forall>k. written = Some k \<longrightarrow> (\<exists>fmt. k = thumb_storage_key m fmt)" "delete_written written (w_store w) = (r, s)"
  shows "thumbs_only w (with_store w s)"
  using assms delete_thumb_only
  by (cases written) (auto simp: delete_written_def with_store_def)

lemma thumbnail_retry_only:
  assumes "\<forall>k. written = Some k \<longrightarrow> (\<exists>fmt. k = thumb_storage_key m fmt)" "thumbnail_retry reason m written w = (r, w')"
  shows "thumbs_only w w'"
proof -
  obtain r1 s where d: "delete_written written (w_store w) = (r1, s)" by fastforce
  note o = delete_written_only [OF assms(1) d]
  from assms(2) d o show ?thesis
    by (auto simp: thumbnail_retry_def Let_def split: sum.splits dest: save_thumb_state_with)
qed

lemma discard_written_sel [simp]:
  "w_db (discard_written cid m written w) = w_db w"
  "w_store (discard_written cid m written w) = snd (delete_written written (w_store w))"
  by (cases "delete_written written (w_store w)"; cases "fst (delete_written written (w_store w))";
      simp add: discard_written_def)+

lemma discard_written_only:
  assumes "\<forall>k. written = Some k \<longrightarrow> (\<exists>fmt. k = thumb_storage_key m fmt)"
  shows "thumbs_only w (discard_written cid m written w)"
  using delete_written_only [OF assms]
  by (auto simp: discard_written_def split: prod.split sum.split)

lemma mark_failed_only: "thumbs_only w (mark_failed reason cid m w)"
  by (auto simp: mark_failed_def split: sum.split dest: save_thumb_state_only)

lemma thumbnail_failed_only:
  assumes "\<forall>k. written = Some k \<longrightarrow> (\<exists>fmt. k = thumb_storage_key m fmt)"
    "thumbnail_failed reason retryable e cid m written w = (r, w')"
  shows "thumbs_only w w'"
proof -
  let ?w1 = "tally (ThumbFailure (md_id m) cid reason e) (tally (ThumbMetric ''failed'' (md_media_type m) (Some reason)) w)"
  have "thumbs_only w ?w1" by simp
  from thumbs_only_trans [OF thumbs_only_trans [OF this discard_written_only [OF assms(1)]] mark_failed_only]
  show ?thesis using assms(2) by (auto simp: thumbnail_failed_def)
qed

lemma thumb_storage_key_status [simp]: "thumb_storage_key (m\<lparr>md_thumb_status := st\<rparr>) fmt = thumb_storage_key m fmt"
  by (simp add: thumb_storage_key_def)

lemma generate_thumbnail_only:
  assumes "generate_thumbnail cfg procs mid cid a n w = (r, w')"
  shows "thumbs_only w w'"
proof (cases "get_media mid (w_db w)")
  case None
  with assms show ?thesis by (simp add: generate_thumbnail_def)
next
  case (Some m)
  let ?m = "m\<lparr>md_thumb_status := ''processing''\<rparr>"
  show ?thesis
  proof (cases "md_thumb_status m = ''done''")
    case True
    with assms Some show ?thesis by (auto simp: generate_thumbnail_def)
  next
    case False
    note gen = assms [unfolded generate_thumbnail_def Some option.case if_not_P [OF False] Let_def]
    show ?thesis
    proof (cases "save_thumb_state ?m w")
      case (Inl e)
      with gen show ?thesis by simp
    next
      case (Inr w1)
      note o1 = save_thumb_state_only [OF Inr]
      obtain r2 written w2 where st: "store_thumbnail cfg procs ?m w1 = (r2, written, w2)" by (metis prod_cases3)
      from store_thumbnail_only [OF st] o1
      have o2: "thumbs_only w w2" and k: "\<forall>k. written = Some k \<longrightarrow> (\<exists>fmt. k = thumb_storage_key ?m fmt)"
        by (blast intro: thumbs_only_trans)+
      show ?thesis
      proof (cases r2)
        case (Inr u)
        with gen \<open>save_thumb_state ?m w = Inr w1\<close> st o2 show ?thesis by auto
      next
        case (Inl e)
        note gen' = gen [unfolded \<open>save_thumb_state ?m w = Inr w1\<close> sum.case st prod.case Inl]
        from gen' thumbnail_retry_only [OF k] thumbnail_failed_only [OF k] o2 show ?thesis
          by (fastforce split: if_splits prod.splits intro: thumbs_only_trans)
      qed
    qed
  qed
qed

text \<open>Rows are found where they were.\<close>

lemma find_row_rethumbed:
  "list_all2 rethumbed ms ms' \<Longrightarrow> rel_option rethumbed (find_row md_id i ms) (find_row md_id i ms')"
  by (induction rule: list_all2_induct) (auto simp: find_row_Cons rethumbed_sel)

lemma get_media_thumbs_only: "thumbs_only w w' \<Longrightarrow> rel_option rethumbed (get_media i (w_db w)) (get_media i (w_db w'))"
  by (auto simp: thumbs_only_def get_media_def find_row_rethumbed)

lemma rethumbed_rows:
  assumes "list_all2 rethumbed ms ms'"
  shows "map md_id ms' = map md_id ms" "m' \<in> set ms' \<Longrightarrow> \<exists>m\<in>set ms. rethumbed m m'" "m \<in> set ms \<Longrightarrow> \<exists>m'\<in>set ms'. rethumbed m m'"
  using assms by (induction rule: list_all2_induct) (auto simp: rethumbed_sel)

lemma db_wf_thumbs_only:
  assumes "db_wf (w_db w)" "thumbs_only w w'"
  shows "db_wf (w_db w')"
proof -
  from assms(2) obtain ms where ms: "w_db w' = (w_db w)\<lparr>db_media := ms\<rparr>" "list_all2 rethumbed (db_media (w_db w)) ms"
    by (auto simp: thumbs_only_def)
  have "db_wf ((w_db w)\<lparr>db_media := ms\<rparr>)"
  proof (rule db_wf_media_upd [OF assms(1)])
    show "keys_distinct md_id ms"
      using rethumbed_rows(1) [OF ms(2)] db_wf_keys(2) [OF assms(1)] by (simp add: keys_distinct_def)
    show "m \<in> set ms \<Longrightarrow> album_exists (w_db w) (md_album_id m) \<and> opt_user_exists (w_db w) (md_user_id m)" for m
      using rethumbed_rows(2) [OF ms(2), of m] db_wf_fk_media [OF assms(1)] by (auto simp: rethumbed_sel)
  qed
  with ms show ?thesis by simp
qed

lemma insort_rethumbed:
  "rethumbed m m' \<Longrightarrow> list_all2 rethumbed ms ms' \<Longrightarrow>
     list_all2 rethumbed (insort_key md_position m ms) (insort_key md_position m' ms')"
  by (rotate_tac 1, induction rule: list_all2_induct) (auto simp: rethumbed_sel)

lemma listing_rethumbed:
  assumes "thumbs_only w w'"
  shows "list_all2 rethumbed (list_album_media aid (w_db w)) (list_album_media aid (w_db w'))"
proof -
  have "list_all2 rethumbed (sort_key md_position (filter (\<lambda>m. md_album_id m = aid) ms))
      (sort_key md_position (filter (\<lambda>m. md_album_id m = aid) ms'))" if "list_all2 rethumbed ms ms'" for ms ms'
    using that by (induction rule: list_all2_induct) (auto simp: rethumbed_sel insort_rethumbed)
  with assms show ?thesis by (auto simp: thumbs_only_def list_album_media_def)
qed

lemma map_id_rethumbed: "list_all2 rethumbed ms ms' \<Longrightarrow> map md_id ms' = map md_id ms"
  by (rule rethumbed_rows(1))

section \<open>The listener to uploads\<close>

text \<open>What \<^verbatim>\<open>upload\<close> relies on of the subscribers to its event: they work on thumbnails only.\<close>

locale upload_listener =
  fixes listen :: "event \<Rightarrow> world \<Rightarrow> world"
  assumes listens: "thumbs_only w (listen ev w)"
begin

lemma tables: "db_albums (w_db (listen ev w)) = db_albums (w_db w)" "db_users (w_db (listen ev w)) = db_users (w_db w)"
  using thumbs_only_sel [OF listens] by auto

lemma after_emit: "thumbs_only w (listen ev (emit e w))"
  by (rule thumbs_only_trans [OF _ listens]) (simp add: emit_def)

end

lemma sync_loop_keeps:
  assumes "\<And>kw st r st'. rt_handler task kw st = (r, st') \<Longrightarrow> thumbs_only (qs_world st) (qs_world st')"
  shows "thumbs_only (qs_world st) (qs_world (sync_loop task name q a n kw st))"
  using assms
proof (induction task name q a n kw st rule: sync_loop.induct)
  case (1 task name q a n kw st)
  obtain r st1 where run: "run_handler task name q a n kw st = (r, st1)" by fastforce
  have o: "thumbs_only (qs_world st) (qs_world st1)"
    using 1(2) [OF run [unfolded run_handler_def]] by (simp add: tell_def)
  show ?case
  proof (cases "\<exists>tr. r = Inr (Result tr) \<and> wants_retry tr a n")
    case True
    then obtain tr where tr: "r = Inr (Result tr)" "wants_retry tr a n" by blast
    have eq: "(Inr (Result tr), st1) = run_handler task name q a n kw st" using run tr by simp
    from 1(1) [OF eq [symmetric, THEN sym] refl refl tr(2) 1(2)] o tr run show ?thesis
      by (subst sync_loop.simps) (auto simp: tell_def intro: thumbs_only_trans)
  next
    case False
    with o run show ?thesis
      by (subst sync_loop.simps) (auto simp: tell_def split: sum.splits outcome.splits)
  qed
qed

lemma thumbnail_handler_only:
  "thumbnail_handler cfg procs kw st = (r, st') \<Longrightarrow> thumbs_only (qs_world st) (qs_world st')"
  unfolding thumbnail_handler_def
  by (auto split: option.splits arg.splits prod.splits sum.splits dest: generate_thumbnail_only)

text \<open>The queues that only put the task down for later, and the inline queue.\<close>

interpretation queued: upload_listener "\<lambda>_ w. w"
  by unfold_locales simp

interpretation inline: upload_listener "enqueue_thumbnail (register_core_tasks (thumbnail_handler cfg procs) rec pr Map.empty)" for cfg procs rec pr
proof
  fix ev :: event and w :: world
  let ?reg = "register_core_tasks (thumbnail_handler cfg procs) rec pr Map.empty"
  let ?st = "\<lparr>qs_queue = [], qs_notes = [], qs_world = w\<rparr>"
  have task: "?reg ''generate_thumbnail'' = Some \<lparr>rt_handler = thumbnail_handler cfg procs, rt_default_queue = ''thumbnails'',
      rt_max_attempts = 3, rt_pass_retry_metadata = True\<rparr>"
    by (simp add: register_core_tasks_def register_def generate_thumbnail_task_def recover_thumbnails_task_def prune_expired_albums_task_def)
  have "thumbs_only w (qs_world (snd (sync_enqueue ?reg ''generate_thumbnail'' None kw ?st)))" for kw
  proof (cases "attempt_metadata \<lparr>rt_handler = thumbnail_handler cfg procs, rt_default_queue = ''thumbnails'',
      rt_max_attempts = 3, rt_pass_retry_metadata = True\<rparr> kw")
    case (Inl e)
    then show ?thesis by (simp add: sync_enqueue_def task)
  next
    case (Inr amk)
    obtain a n kw' where amk: "amk = (a, n, kw')" by (cases amk)
    let ?task = "\<lparr>rt_handler = thumbnail_handler cfg procs, rt_default_queue = ''thumbnails'', rt_max_attempts = 3, rt_pass_retry_metadata = True\<rparr>"
    have "thumbs_only (qs_world st0) (qs_world (sync_loop ?task ''generate_thumbnail'' ''thumbnails'' a n kw' st0))" for st0
      by (rule sync_loop_keeps) (auto dest: thumbnail_handler_only)
    from this [of "tell [Enqueued ''thumbnails'' ''generate_thumbnail'',
        State ''generate_thumbnail'' Queued (mk_details ''thumbnails'' a n None kw')] ?st"]
    show ?thesis by (simp add: sync_enqueue_def task Inr amk Let_def tell_def)
  qed
  then show "thumbs_only w (enqueue_thumbnail ?reg ev w)"
    by (cases ev) (simp_all add: enqueue_thumbnail_def generate_thumbnail_task_def)
qed

section \<open>Samples\<close>

definition sample_processor :: processor where
  "sample_processor = \<lparr>pc_supported_formats = [''png'', ''jpg''], pc_has_thumb_frames = False,
     pc_validate = (\<lambda>b. Inr \<lparr>vr_ok = (b \<noteq> ''bad''), vr_rejection_reason = None\<rparr>),
     pc_extract_metadata = (\<lambda>b f. Inr \<lparr>mm_width = Some 4, mm_height = Some 4, mm_duration_secs = None, mm_codec_hint = None,
       mm_is_animated = False, mm_mime_type = ''image/png'', mm_format = f, mm_rotation_degrees = 0\<rparr>),
     pc_sanitize = (\<lambda>b md. Inr \<lparr>sf_data = ''clean'', sf_mime_type = ''image/png'', sf_format = ''png''\<rparr>),
     pc_generate_thumbnail = (\<lambda>n b md. Inr \<lparr>th_data = Some ''th'', th_thumb_is_orig = False, th_format = ''webp'', th_size = 2\<rparr>)\<rparr>"

definition sample_procs :: processors where
  "sample_procs = register_processor sample_processor Map.empty"

definition sample_cfg :: "string \<Rightarrow> err + int" where
  "sample_cfg k = Inr (if k = ''max_upload_bytes'' then 100 else if k = ''anon_expiry_hours'' then 24 else 0)"

definition pending_world :: world where
  "pending_world = with_db (sample_world []) (sample_db\<lparr>db_media :=
     update_where (\<lambda>m. md_id m = ''m1'') (set_thumb None False ''pending'' None) (db_media sample_db)\<rparr>)"

end
