(* ===== verification/Upload_Props.thy ===== *)
theory Upload_Props
  imports Thumb_Facts
begin

text \<open>
  What an upload does to the tables and the store: facts on its parts, then the properties of the whole.
\<close>

section \<open>The parts\<close>

lemma existing_album_ok:
  assumes "existing_album ui aid actor tok d = Inr a"
  shows "get_album aid d = Some a \<and> al_id a = aid
    \<and> (case ca_user actor of Some u \<Rightarrow> al_user_id a = Some (us_id u) | None \<Rightarrow> al_delete_token a \<noteq> None)"
  using assms
  by (auto simp: existing_album_def get_album_def require_album_access_def dest: find_row_SomeD split: option.splits if_splits)

lemma new_album_ok:
  assumes "new_album cfg ui title actor = Inr a"
  shows "al_id a = ui_album_id ui" "al_title a = title" "al_user_id a = map_option us_id actor"
    "al_delete_token a = (case actor of Some _ \<Rightarrow> None | None \<Rightarrow> Some (ui_delete_token ui))"
  using assms by (auto simp: new_album_def)

lemma create_album_ok:
  assumes "create_album a d = Inr (a', d')"
  shows "a' = a" "d' = d\<lparr>db_albums := db_albums d @ [a]\<rparr>" "get_album (al_id a) d = None" "opt_user_exists d (al_user_id a)"
  using assms by (auto simp: create_album_def split: if_splits)

text \<open>The two ways to an album: one that is there and that the client may add to, or a new one.\<close>

lemma get_or_create_album_cases:
  assumes "get_or_create_album cfg ui album_id title cid actor tok w = (r, w')"
  obtains (error) e where "r = Inl e" "w' = w"
  | (found) a where "r = Inr a" "w' = w" "truthy album_id" "existing_album ui (the album_id) actor tok (w_db w) = Inr a"
  | (created) a where "r = Inr a" "\<not> truthy album_id" "new_album cfg ui title (ca_user actor) = Inr a"
      "w_db w' = (w_db w)\<lparr>db_albums := db_albums (w_db w) @ [a]\<rparr>" "get_album (al_id a) (w_db w) = None"
      "opt_user_exists (w_db w) (al_user_id a)" "w_store w' = w_store w" "w_audit w' = w_audit w"
proof (cases "truthy album_id")
  case True
  with assms have "r = existing_album ui (the album_id) actor tok (w_db w)" "w' = w" by (auto simp: get_or_create_album_def)
  with True show thesis using error found by (metis sum.exhaust)
next
  case False
  note run = assms [unfolded get_or_create_album_def if_not_P [OF False]]
  show thesis
  proof (cases "new_album cfg ui title (ca_user actor)")
    case (Inl e)
    with run error [of e] show thesis by auto
  next
    case new: (Inr a)
    show thesis
    proof (cases "create_album a (w_db w)")
      case (Inl e)
      with run new error [of e] show thesis by auto
    next
      case (Inr ad)
      obtain a' d where ad: "ad = (a', d)" by (cases ad)
      note c = create_album_ok [OF Inr [unfolded ad]]
      from run new Inr ad have "r = Inr a" "w_db w' = d" "w_store w' = w_store w" "w_audit w' = w_audit w" by auto
      with c False new created [of a] show thesis by auto
    qed
  qed
qed

lemma next_position_above:
  assumes "next_position aid d = Inr p" "m \<in> set (db_media d)" "md_album_id m = aid"
  shows "md_position m < p"
proof -
  let ?ps = "map md_position (filter (\<lambda>m. md_album_id m = aid) (db_media d))"
  have mem: "md_position m \<in> set ?ps" using assms(2,3) by auto
  then obtain q qs where ps: "?ps = q # qs" by (cases ?ps) auto
  have le: "x \<in> set (y # ys) \<Longrightarrow> x \<le> fold max ys y" for x y :: int and ys
    by (metis Max.set_eq_fold Max_ge List.finite_set)
  from assms(1) ps have "p = fold max qs q + 1000" by (auto simp: next_position_def Let_def split: if_splits)
  with le [of "md_position m" q qs] mem ps show ?thesis by auto
qed

lemma create_media_with_next_position_ok:
  assumes "create_media_with_next_position m d = Inr (m', d')"
  obtains p where "next_position (md_album_id m) d = Inr p" "m' = m\<lparr>md_position := p\<rparr>"
    "d' = d\<lparr>db_media := db_media d @ [m']\<rparr>" "get_media (md_id m) d = None" "album_exists d (md_album_id m)"
    "opt_user_exists d (md_user_id m)" "media_encodable m'"
  using assms by (auto simp: create_media_with_next_position_def create_media_row_def split: sum.splits if_splits)

text \<open>\<open>fresh_key\<close>: the store has nothing under a key made from the generated identifier.\<close>

definition fresh_key :: "upload_inputs \<Rightarrow> current_actor \<Rightarrow> store \<Rightarrow> bool" where
  "fresh_key ui actor s \<longleftrightarrow> (\<forall>fmt. st_objects s (upload_storage_key (ca_user actor) (ui_media_id ui) fmt) = None)"

lemma create_media_cases:
  assumes "create_media procs mt listen ui aid f payload cid actor w = (r, w')"
  obtains (error) e where "r = Inl e" "w_db w' = w_db w" "w_audit w' = w_audit w" "w_log w' = w_log w"
      "st_faulty (w_store w') = st_faulty (w_store w)" "st_torn (w_store w') = st_torn (w_store w)"
      "\<And>k. st_objects (w_store w') k = st_objects (w_store w) k
         \<or> (\<exists>fmt. k = upload_storage_key (ca_user actor) (ui_media_id ui) fmt)
           \<and> (st_objects (w_store w') k = None \<or> st_faulty (w_store w) (SPut k) \<or> st_faulty (w_store w) (SDelete k))"
  | (ok) mtype md sf m d w1 where "process_upload procs mt f payload = Inr (mtype, md, sf)"
      "create_media_with_next_position (new_media ui aid f (ca_user actor) mtype md sf) (w_db w) = Inr (m, d)"
      "w_db w1 = d" "w_audit w1 = w_audit w" "\<not> st_faulty (w_store w) (SPut (md_storage_key m))"
      "w_store w1 = (w_store w)\<lparr>st_objects := (st_objects (w_store w))(md_storage_key m \<mapsto> sf_data sf)\<rparr>"
      "w' = listen (MediaUploaded (md_id m) (md_album_id m) (map_option us_id (ca_user actor)) (md_file_size m)
         (md_media_type m) (md_format m) (actor_kind (ca_user actor) None False) (ca_source actor) cid) w1"
      "r = Inr (case get_media (md_id m) (w_db w') of Some x \<Rightarrow> x | None \<Rightarrow> m)"
proof (cases "process_upload procs mt f payload")
  case (Inl e)
  with assms show thesis by (intro error) (auto simp: create_media_def)
next
  case (Inr x)
  obtain mtype md sf where x: "x = (mtype, md, sf)" by (cases x)
  let ?m = "new_media ui aid f (ca_user actor) mtype md sf"
  let ?k = "md_storage_key ?m"
  have key: "?k = upload_storage_key (ca_user actor) (ui_media_id ui) (sf_format sf)" by (simp add: new_media_def)
  note run = assms [unfolded create_media_def Inr x sum.case prod.case Let_def]
  show thesis
  proof (cases "st_faulty (w_store w) (SPut ?k)")
    case True
    with run show thesis by (intro error) (auto simp: st_put_def key split: if_splits)
  next
    case nf: False
    show thesis
    proof (cases "create_media_with_next_position ?m (w_db w)")
      case (Inl e)
      with run nf show thesis by (intro error) (auto simp: st_put_def st_delete_def key split: if_splits)
    next
      case new: (Inr md')
      obtain m d where md': "md' = (m, d)" by (cases md')
      have mk: "md_storage_key m = ?k"
        using new md' by (auto elim: create_media_with_next_position_ok)
      let ?ev = "MediaUploaded (md_id m) (md_album_id m) (map_option us_id (ca_user actor)) (md_file_size m)
         (md_media_type m) (md_format m) (actor_kind (ca_user actor) None False) (ca_source actor) cid"
      let ?w1 = "emit ?ev (with_db (with_store w ((w_store w)\<lparr>st_objects := (st_objects (w_store w))(?k \<mapsto> sf_data sf)\<rparr>)) d)"
      from run nf new md'
      have "w' = listen ?ev ?w1" "r = Inr (case get_media (md_id m) (w_db w') of Some x \<Rightarrow> x | None \<Rightarrow> m)"
        by (auto simp: st_put_def)
      with Inr x new md' nf mk show thesis by (intro ok [of mtype md sf m d ?w1]) auto
    qed
  qed
qed

text \<open>An album that was just appended goes again without a trace.\<close>

lemma drop_appended_album:
  assumes "db_wf d" "get_album (al_id a) d = None"
  shows "list_album_media (al_id a) (d\<lparr>db_albums := db_albums d @ [a]\<rparr>) = []"
    and "snd (repo_delete_album (al_id a) (d\<lparr>db_albums := db_albums d @ [a]\<rparr>)) = d"
proof -
  have none: "r \<in> set (db_albums d) \<Longrightarrow> al_id r \<noteq> al_id a" for r
    using assms(2) by (auto simp: get_album_def find_row_None_iff)
  have nm: "md_album_id m \<noteq> al_id a" if "m \<in> set (db_media d)" for m
    using db_wf_fk_media [OF assms(1) that] none by (auto simp: album_exists_def)
  have ns: "sc_album_id c \<noteq> al_id a" if "c \<in> set (db_sharex d)" for c
    using db_wf_fk_sharex [OF assms(1) that] none by (auto simp: album_exists_def)
  show "list_album_media (al_id a) (d\<lparr>db_albums := db_albums d @ [a]\<rparr>) = []"
    using nm by (simp add: list_album_media_def)
  have get: "get_album (al_id a) (d\<lparr>db_albums := db_albums d @ [a]\<rparr>) = Some a"
    using assms(2) by (simp add: get_album_def find_row_append find_row_Cons)
  have gone: "filter (\<lambda>r. al_id r = al_id a) (db_albums d @ [a]) = [a]" using none by (auto simp: filter_empty_conv)
  have sel: "db_albums (d\<lparr>db_albums := x\<rparr>) = x" "db_media (d\<lparr>db_albums := x\<rparr>) = db_media d"
    "db_sharex (d\<lparr>db_albums := x\<rparr>) = db_sharex d" for x by simp_all
  have ids: "set (map al_id (filter (\<lambda>r. al_id r = al_id a) (db_albums d @ [a]))) = {al_id a}"
    unfolding gone by simp
  have "delete_where (\<lambda>r. al_id r = al_id a) (db_albums d @ [a]) = db_albums d"
    using none by (simp add: delete_where_def filter_id_conv)
  moreover have "delete_where (\<lambda>m. md_album_id m = al_id a) (db_media d) = db_media d"
    using nm by (simp add: delete_where_none)
  moreover have "delete_where (\<lambda>c. sc_album_id c = al_id a) (db_sharex d) = db_sharex d"
    using ns by (simp add: delete_where_none)
  ultimately show "snd (repo_delete_album (al_id a) (d\<lparr>db_albums := db_albums d @ [a]\<rparr>)) = d"
    unfolding repo_delete_album_def get option.case snd_conv cascade_album_def Let_def sel ids by simp
qed

text \<open>The body of the \<^verbatim>\<open>try\<close>.\<close>

lemma upload_body_cases:
  assumes "upload_body cfg procs mt listen limit ui f album_id title cid actor tok lk (w, r) = (res, w', r')"
  obtains (early) e where "res = Inl (e, None)" "w' = w"
  | (full) e a where "res = Inl (e, Some a)" "get_or_create_album cfg ui album_id title cid actor tok w = (Inr a, w')"
  | (media) e a w1 payload where "res = Inl (e, Some a)"
      "get_or_create_album cfg ui album_id title cid actor tok w = (Inr a, w1)"
      "create_media procs mt listen ui (al_id a) f payload cid actor w1 = (Inl e, w')"
  | (ok) a m w1 payload where "res = Inr (a, m)" "read_bounded_upload cfg f = Inr payload" "payload \<noteq> []"
      "enforce_storage_quotas cfg (ca_user actor) (int (length payload)) (w_db w) = Inr ()"
      "get_or_create_album cfg ui album_id title cid actor tok w = (Inr a, w1)"
      "length (list_album_media (al_id a) (w_db w1)) < max_album_items"
      "create_media procs mt listen ui (al_id a) f payload cid actor w1 = (Inr m, w')"
proof -
  have frame: "w1 = w" if "get_or_create_album cfg ui album_id title cid actor tok w = (Inl e, w1)" for e w1
    using that by (rule get_or_create_album_cases) auto
  note run = assms [unfolded upload_body_def prod.case]
  show thesis
  proof (cases "read_bounded_upload cfg f")
    case (Inl e)
    with run show thesis by (intro early) auto
  next
    case rd: (Inr payload)
    show thesis
    proof (cases "payload = []")
      case True
      with run rd show thesis by (intro early) auto
    next
      case ne: False
      define lim where "lim = (if truthy lk then limit (the lk) (int (length payload)) (ca_user actor) r else (Inr (), r))"
      note run = run [unfolded rd sum.case if_not_P [OF ne], folded lim_def]
      obtain l r1 where lim: "lim = (l, r1)" by fastforce
      show thesis
      proof (cases l)
        case (Inl e)
        with run lim show thesis by (intro early) auto
      next
        case lo: (Inr u)
        show thesis
        proof (cases "enforce_storage_quotas cfg (ca_user actor) (int (length payload)) (w_db w)")
          case (Inl e)
          with run lim lo show thesis by (intro early) auto
        next
          case q: (Inr v)
          obtain ra w1 where ga: "get_or_create_album cfg ui album_id title cid actor tok w = (ra, w1)" by fastforce
          show thesis
          proof (cases ra)
            case (Inl e)
            with run lim lo q ga frame show thesis by (intro early) auto
          next
            case a: (Inr a)
            note run = run [unfolded lim lo q ga a prod.case sum.case]
            show thesis
            proof (cases "max_album_items \<le> length (list_album_media (al_id a) (w_db w1))")
              case True
              with run ga a show thesis by (intro full) auto
            next
              case nl: False
              obtain rm w2 where cm: "create_media procs mt listen ui (al_id a) f payload cid actor w1 = (rm, w2)" by fastforce
              note run = run [unfolded if_not_P [OF nl] cm prod.case]
              show thesis
              proof (cases rm)
                case (Inl e)
                with run ga a cm show thesis by (intro media) auto
              next
                case (Inr m)
                with run ga a cm rd ne q nl show thesis by (intro ok) auto
              qed
            qed
          qed
        qed
      qed
    qed
  qed
qed

lemma save_album_saves:
  assumes "get_album (al_id a) (w_db w) \<noteq> None" "opt_user_exists (w_db w) (al_user_id a)"
  shows "save_album t a w = (Inr (), with_db w ((w_db w)\<lparr>db_albums :=
    update_where (\<lambda>r. al_id r = al_id a) (album_row_update t a) (db_albums (w_db w))\<rparr>))"
  using assms by (auto simp: save_album_def update_album_row_def)

lemma opt_user_exists_users: "db_users d = db_users d' \<Longrightarrow> opt_user_exists d u = opt_user_exists d' u"
  by (cases u) (simp_all add: user_exists_def)

text \<open>The album found or created is in the tables, with its owner, and a new row is the album's.\<close>

lemma got_album:
  assumes "db_wf (w_db w)" "get_or_create_album cfg ui album_id title cid actor tok w = (Inr a, w1)"
  shows "get_album (al_id a) (w_db w1) = Some a" "opt_user_exists (w_db w1) (al_user_id a)" "db_wf (w_db w1)"
    "w_store w1 = w_store w" "db_media (w_db w1) = db_media (w_db w)" "db_users (w_db w1) = db_users (w_db w)"
proof -
  have "get_album (al_id a) (w_db w1) = Some a \<and> opt_user_exists (w_db w1) (al_user_id a) \<and> db_wf (w_db w1)
      \<and> w_store w1 = w_store w \<and> db_media (w_db w1) = db_media (w_db w) \<and> db_users (w_db w1) = db_users (w_db w)"
  proof (rule get_or_create_album_cases [OF assms(2)])
    fix b assume b: "(Inr a :: err + album) = Inr b" "w1 = w" "existing_album ui (the album_id) actor tok (w_db w) = Inr b"
    note e = existing_album_ok [OF b(3)]
    then have "b \<in> set (db_albums (w_db w))" by (auto simp: get_album_def dest: find_row_SomeD)
    with e b assms(1) db_wf_fk_album [OF assms(1)] show ?thesis by auto
  next
    fix b assume b: "(Inr a :: err + album) = Inr b" "w_db w1 = (w_db w)\<lparr>db_albums := db_albums (w_db w) @ [b]\<rparr>"
      "get_album (al_id b) (w_db w) = None" "opt_user_exists (w_db w) (al_user_id b)" "w_store w1 = w_store w"
    then have "create_album b (w_db w) = Inr (b, w_db w1)" by (simp add: create_album_def)
    with b assms(1) show ?thesis
      by (auto simp: get_album_def find_row_append find_row_Cons intro: db_wf_create_album)
  qed auto
  then show "get_album (al_id a) (w_db w1) = Some a" "opt_user_exists (w_db w1) (al_user_id a)" "db_wf (w_db w1)"
    "w_store w1 = w_store w" "db_media (w_db w1) = db_media (w_db w)" "db_users (w_db w1) = db_users (w_db w)"
    by auto
qed

lemma got_album_rest:
  assumes "db_wf (w_db w)" "get_or_create_album cfg ui album_id title cid actor tok w = (Inr a, w1)"
  shows "w_db w1 = (w_db w)\<lparr>db_albums := db_albums (w_db w1)\<rparr> \<and> (\<forall>b. b \<noteq> al_id a \<longrightarrow> get_album b (w_db w1) = get_album b (w_db w))"
  by (rule get_or_create_album_cases [OF assms(2)]) (auto simp: get_album_def find_row_append find_row_Cons split: option.splits)

section \<open>The whole\<close>

lemma upload_cases:
  assumes "upload cfg procs mt listen limit ui f album_id title cid actor tok lk (w, r) = (res, w', r')"
    and "db_wf (w_db w)" "album_id \<noteq> Some []" "upload_listener listen"
  obtains (refused) e where "res = Inl e" "w_db w' = w_db w" "w_audit w' = w_audit w" "st_faulty (w_store w') = st_faulty (w_store w)"
      "st_torn (w_store w') = st_torn (w_store w)"
      "\<And>k. st_objects (w_store w') k = st_objects (w_store w) k
         \<or> (\<exists>fmt. k = upload_storage_key (ca_user actor) (ui_media_id ui) fmt)
           \<and> (st_objects (w_store w') k = None \<or> st_faulty (w_store w) (SPut k) \<or> st_faulty (w_store w) (SDelete k))"
  | (accepted) a w1 payload mtype md sf m w2 ev x where
      "read_bounded_upload cfg f = Inr payload" "payload \<noteq> []"
      "enforce_storage_quotas cfg (ca_user actor) (int (length payload)) (w_db w) = Inr ()"
      "get_or_create_album cfg ui album_id title cid actor tok w = (Inr a, w1)"
      "length (list_album_media (al_id a) (w_db w1)) < max_album_items"
      "process_upload procs mt f payload = Inr (mtype, md, sf)"
      "create_media_with_next_position (new_media ui (al_id a) f (ca_user actor) mtype md sf) (w_db w1) = Inr (m, w_db w2)"
      "\<not> st_faulty (w_store w) (SPut (md_storage_key m))"
      "w_store w2 = (w_store w)\<lparr>st_objects := (st_objects (w_store w))(md_storage_key m \<mapsto> sf_data sf)\<rparr>"
      "w_db w' = (w_db (listen ev w2))\<lparr>db_albums := update_where (\<lambda>r. al_id r = al_id a)
         (album_row_update (ui_dbnow ui) (if \<not> truthy (al_title a) \<and> truthy title then a\<lparr>al_title := title\<rparr> else a))
         (db_albums (w_db (listen ev w2)))\<rparr>"
      "w_store w' = w_store (listen ev w2)" "thumbs_only w2 (listen ev w2)" "rethumbed m x"
      "get_media (md_id m) (w_db (listen ev w2)) = Some x"
      "res = Inr (if \<not> truthy (al_title a) \<and> truthy title then a\<lparr>al_title := title\<rparr> else a, x)"
proof -
  obtain rb wb rb' where body: "upload_body cfg procs mt listen limit ui f album_id title cid actor tok lk (w, r) = (rb, wb, rb')"
    by (metis prod_cases3)
  let ?reject = "\<lambda>e. UploadMetric (if is_http e then ''rejected'' else ''failed'') (infer_upload_media_type mt f)
    (case ca_user actor of Some _ \<Rightarrow> ''user'' | None \<Rightarrow> ''anonymous'') (ca_source actor) None"
  note run = assms(1) [unfolded upload_def Let_def body]
  have dropped: "w_db (drop_empty_album album_id (Some a) (tally t wb)) = w_db w
      \<and> w_audit (drop_empty_album album_id (Some a) (tally t wb)) = w_audit wb
      \<and> w_store (drop_empty_album album_id (Some a) (tally t wb)) = w_store wb"
    if got: "get_or_create_album cfg ui album_id title cid actor tok w = (Inr a, w1)" "w_db wb = w_db w1" for a w1 t
  proof (rule get_or_create_album_cases [OF got(1)])
    fix b assume "(Inr a :: err + album) = Inr b" "w1 = w" "truthy album_id"
    then show ?thesis using got(2) by (cases album_id) (auto simp: drop_empty_album_def)
  next
    fix b assume b: "(Inr a :: err + album) = Inr b" "\<not> truthy album_id"
      "w_db w1 = (w_db w)\<lparr>db_albums := db_albums (w_db w) @ [b]\<rparr>" "get_album (al_id b) (w_db w) = None"
    then have none: "album_id = None" using assms(3) by (cases album_id) auto
    from drop_appended_album [OF assms(2) b(4)] b(1,3) got(2) show ?thesis
      by (simp add: drop_empty_album_def none)
  qed auto
  from body show thesis
  proof (rule upload_body_cases)
    fix e assume "rb = Inl (e, None)" "wb = w"
    with run show thesis by (intro refused [of e]) (auto simp: drop_empty_album_def)
  next
    fix e a assume h: "rb = Inl (e, Some a)" "get_or_create_album cfg ui album_id title cid actor tok w = (Inr a, wb)"
    have "w_audit wb = w_audit w" using h(2) by (rule get_or_create_album_cases) auto
    with run h dropped [OF h(2) refl, of "?reject e"] got_album(4) [OF assms(2) h(2)] show thesis
      by (intro refused [of e]) auto
  next
    fix e a w1 payload assume h: "rb = Inl (e, Some a)" "get_or_create_album cfg ui album_id title cid actor tok w = (Inr a, w1)"
      "create_media procs mt listen ui (al_id a) f payload cid actor w1 = (Inl e, wb)"
    have au: "w_audit w1 = w_audit w" using h(2) by (rule get_or_create_album_cases) auto
    from h(3) show thesis
    proof (rule create_media_cases)
      assume m: "w_db wb = w_db w1" "w_audit wb = w_audit w1" "st_faulty (w_store wb) = st_faulty (w_store w1)"
        "st_torn (w_store wb) = st_torn (w_store w1)"
        "\<And>k. st_objects (w_store wb) k = st_objects (w_store w1) k
         \<or> (\<exists>fmt. k = upload_storage_key (ca_user actor) (ui_media_id ui) fmt)
           \<and> (st_objects (w_store wb) k = None \<or> st_faulty (w_store w1) (SPut k) \<or> st_faulty (w_store w1) (SDelete k))"
      from run h(1) dropped [OF h(2) m(1), of "?reject e"] got_album(4) [OF assms(2) h(2)] m au show thesis
        by (intro refused [of e]) auto
    qed auto
  next
    fix a x w1 payload assume h: "rb = Inr (a, x)" "read_bounded_upload cfg f = Inr payload" "payload \<noteq> []"
      "enforce_storage_quotas cfg (ca_user actor) (int (length payload)) (w_db w) = Inr ()"
      "get_or_create_album cfg ui album_id title cid actor tok w = (Inr a, w1)"
      "length (list_album_media (al_id a) (w_db w1)) < max_album_items"
      "create_media procs mt listen ui (al_id a) f payload cid actor w1 = (Inr x, wb)"
    note got = got_album [OF assms(2) h(5)]
    from h(7) show thesis
    proof (rule create_media_cases)
      fix mtype md sf m d w2
      assume c: "process_upload procs mt f payload = Inr (mtype, md, sf)"
        "create_media_with_next_position (new_media ui (al_id a) f (ca_user actor) mtype md sf) (w_db w1) = Inr (m, d)"
        "w_db w2 = d" "\<not> st_faulty (w_store w1) (SPut (md_storage_key m))"
        "w_store w2 = (w_store w1)\<lparr>st_objects := (st_objects (w_store w1))(md_storage_key m \<mapsto> sf_data sf)\<rparr>"
        "wb = listen (MediaUploaded (md_id m) (md_album_id m) (map_option us_id (ca_user actor)) (md_file_size m)
           (md_media_type m) (md_format m) (actor_kind (ca_user actor) None False) (ca_source actor) cid) w2"
        "(Inr x :: err + media) = Inr (case get_media (md_id m) (w_db wb) of Some x \<Rightarrow> x | None \<Rightarrow> m)"
      define ev where "ev = MediaUploaded (md_id m) (md_album_id m) (map_option us_id (ca_user actor)) (md_file_size m)
           (md_media_type m) (md_format m) (actor_kind (ca_user actor) None False) (ca_source actor) cid"
      have wb: "wb = listen ev w2" using c(6) by (simp add: ev_def)
      have only: "thumbs_only w2 wb" using assms(4) wb by (simp add: upload_listener_def)
      from c(2) have d: "db_media d = db_media (w_db w1) @ [m]" "db_albums d = db_albums (w_db w1)" "db_users d = db_users (w_db w1)"
        "get_media (md_id m) (w_db w1) = None"
        by (rule create_media_with_next_position_ok, simp)+
      have row: "get_media (md_id m) (w_db w2) = Some m"
        using d c(3) by (auto simp: get_media_def find_row_append find_row_Cons)
      with get_media_thumbs_only [OF only, of "md_id m"] obtain m' where
        m': "get_media (md_id m) (w_db wb) = Some m'" "rethumbed m m'" by (auto elim: option.rel_cases)
      with c(7) have x: "x = m'" by simp
      let ?a = "if \<not> truthy (al_title a) \<and> truthy title then a\<lparr>al_title := title\<rparr> else a"
      have al: "get_album (al_id ?a) (w_db wb) = Some a" "opt_user_exists (w_db wb) (al_user_id ?a)"
        using got(1,2) d c(3) thumbs_only_sel [OF only] opt_user_exists_users [of "w_db wb" "w_db w1"]
        by (auto simp: get_album_def)
      then have "get_album (al_id ?a) (w_db wb) \<noteq> None" by simp
      from run [unfolded h(1) prod.case sum.case save_album_saves [OF this al(2)]]
      have fin: "res = Inr (?a, x)" "w_store w' = w_store wb"
        "w_db w' = (w_db wb)\<lparr>db_albums := update_where (\<lambda>r. al_id r = al_id ?a) (album_row_update (ui_dbnow ui) ?a) (db_albums (w_db wb))\<rparr>"
        by auto
      have "al_id ?a = al_id a" by simp
      with fin accepted [of payload a w1 mtype md sf m w2 ev x] h c got m' x wb only show thesis by auto
    qed auto
  qed
qed

text \<open>C22: An upload that ends with an exception, on whatever path (too large, empty, over a limit or a quota, an
  album that is full or not the client's, a file no processor takes, a failing store or table), leaves the
  tables as they were, an album created for it included, and leaves no object, except where a write or the
  deletion of what was written failed itself.\<close>

theorem refused_upload_leaves_no_trace:
  assumes "db_wf (w_db w)" "upload_listener listen" "album_id \<noteq> Some []" "fresh_key ui actor (w_store w)"
    and "upload cfg procs mt listen limit ui f album_id title cid actor tok lk (w, r) = (Inl e, w', r')"
  shows "w_db w' = w_db w
    \<and> (\<forall>k. st_objects (w_store w') k = st_objects (w_store w) k
         \<or> (\<exists>fmt. k = upload_storage_key (ca_user actor) (ui_media_id ui) fmt)
           \<and> (st_faulty (w_store w) (SPut k) \<or> st_faulty (w_store w) (SDelete k)))"
  using assms(5,1,3,2)
proof (rule upload_cases)
  assume "w_db w' = w_db w"
    and k: "\<And>k. st_objects (w_store w') k = st_objects (w_store w) k
       \<or> (\<exists>fmt. k = upload_storage_key (ca_user actor) (ui_media_id ui) fmt)
         \<and> (st_objects (w_store w') k = None \<or> st_faulty (w_store w) (SPut k) \<or> st_faulty (w_store w) (SDelete k))"
  with assms(4) show ?thesis unfolding fresh_key_def by metis
qed simp

lemma insort_last: "key x \<le> key m \<Longrightarrow> insort_key key x (ys @ [m]) = insort_key key x ys @ [m]"
  by (induction ys) auto

lemma sort_key_append_last: "(\<And>x. x \<in> set xs \<Longrightarrow> key x \<le> key m) \<Longrightarrow> sort_key key (xs @ [m]) = sort_key key xs @ [m]"
  by (induction xs) (auto simp: insort_last)

lemma listing_append:
  assumes "\<And>x. x \<in> set (db_media d) \<Longrightarrow> md_album_id x = md_album_id m \<Longrightarrow> md_position x < md_position m"
  shows "list_album_media aid (d\<lparr>db_media := db_media d @ [m]\<rparr>) =
    list_album_media aid d @ (if md_album_id m = aid then [m] else [])"
proof (cases "md_album_id m = aid")
  case True
  have "sort_key md_position (filter (\<lambda>m. md_album_id m = aid) (db_media d) @ [m])
      = sort_key md_position (filter (\<lambda>m. md_album_id m = aid) (db_media d)) @ [m]"
    by (rule sort_key_append_last) (use assms True in fastforce)
  with True show ?thesis by (simp add: list_album_media_def)
qed (simp add: list_album_media_def)

lemma listing_cong: "db_media d = db_media d' \<Longrightarrow> list_album_media aid d = list_album_media aid d'"
  by (simp add: list_album_media_def)

text \<open>What is left of \<open>accepted\<close> when one looks at the rows and the store only.\<close>

lemma accepted_effect:
  assumes "upload cfg procs mt listen limit ui f album_id title cid actor tok lk (w, r) = (Inr (a, x), w', r')"
    and "db_wf (w_db w)" "album_id \<noteq> Some []" "upload_listener listen"
  obtains payload mtype md sf m where "read_bounded_upload cfg f = Inr payload"
    "enforce_storage_quotas cfg (ca_user actor) (int (length payload)) (w_db w) = Inr ()"
    "process_upload procs mt f payload = Inr (mtype, md, sf)" "rethumbed m x"
    "md_album_id m = al_id a" "md_id m = ui_media_id ui" "md_user_id m = map_option us_id (ca_user actor)"
    "md_storage_key m = upload_storage_key (ca_user actor) (ui_media_id ui) (sf_format sf)"
    "md_file_size m = int (length (sf_data sf))" "get_media (md_id m) (w_db w) = None"
    "m = (new_media ui (al_id a) f (ca_user actor) mtype md sf)\<lparr>md_position := md_position m\<rparr>"
    "w_db w' = (w_db w)\<lparr>db_albums := db_albums (w_db w'), db_media := db_media (w_db w')\<rparr>"
    "\<And>b. b \<noteq> al_id a \<Longrightarrow> get_album b (w_db w') = get_album b (w_db w)"
    "\<And>aid. list_all2 rethumbed (list_album_media aid (w_db w) @ (if aid = al_id a then [m] else [])) (list_album_media aid (w_db w'))"
    "length (list_album_media (al_id a) (w_db w)) < max_album_items"
    "\<And>k. \<not> starts_with ''thumbnails/'' k \<Longrightarrow> st_objects (w_store w') k = (if k = md_storage_key m then Some (sf_data sf) else st_objects (w_store w) k)"
proof -
  from assms show thesis
  proof (rule upload_cases)
    fix a0 w1 payload mtype md sf m w2 ev x0
    assume h: "read_bounded_upload cfg f = Inr payload"
      "enforce_storage_quotas cfg (ca_user actor) (int (length payload)) (w_db w) = Inr ()"
      "get_or_create_album cfg ui album_id title cid actor tok w = (Inr a0, w1)"
      "length (list_album_media (al_id a0) (w_db w1)) < max_album_items"
      "process_upload procs mt f payload = Inr (mtype, md, sf)"
      "create_media_with_next_position (new_media ui (al_id a0) f (ca_user actor) mtype md sf) (w_db w1) = Inr (m, w_db w2)"
      "w_store w2 = (w_store w)\<lparr>st_objects := (st_objects (w_store w))(md_storage_key m \<mapsto> sf_data sf)\<rparr>"
      "w_db w' = (w_db (listen ev w2))\<lparr>db_albums := update_where (\<lambda>r. al_id r = al_id a0)
         (album_row_update (ui_dbnow ui) (if \<not> truthy (al_title a0) \<and> truthy title then a0\<lparr>al_title := title\<rparr> else a0))
         (db_albums (w_db (listen ev w2)))\<rparr>"
      "w_store w' = w_store (listen ev w2)" "thumbs_only w2 (listen ev w2)" "rethumbed m x0"
      "(Inr (a, x) :: err + album \<times> media) = Inr (if \<not> truthy (al_title a0) \<and> truthy title then a0\<lparr>al_title := title\<rparr> else a0, x0)"
    have a: "al_id a = al_id a0" "x0 = x" using h(12) by auto
    have med: "db_media (w_db w1) = db_media (w_db w)" using got_album(5) [OF assms(2) h(3)] .
    obtain p where p: "next_position (al_id a0) (w_db w1) = Inr p" "m = (new_media ui (al_id a0) f (ca_user actor) mtype md sf)\<lparr>md_position := p\<rparr>"
      "w_db w2 = (w_db w1)\<lparr>db_media := db_media (w_db w1) @ [m]\<rparr>" "get_media (md_id m) (w_db w1) = None"
      using h(6) by (rule create_media_with_next_position_ok) (simp add: new_media_def)
    have sel: "md_album_id m = al_id a" "md_id m = ui_media_id ui" "md_user_id m = map_option us_id (ca_user actor)"
      "md_storage_key m = upload_storage_key (ca_user actor) (ui_media_id ui) (sf_format sf)"
      "md_file_size m = int (length (sf_data sf))" "md_position m = p"
      by (simp_all add: p(2) new_media_def a)
    have pos: "md_position y < md_position m" if "y \<in> set (db_media (w_db w1))" "md_album_id y = md_album_id m" for y
      using next_position_above [OF p(1) that(1)] that(2) sel by (simp add: a)
    have "list_album_media aid (w_db w2) = list_album_media aid (w_db w) @ (if aid = al_id a then [m] else [])" for aid
      using listing_append [of "w_db w1" m aid, OF pos] listing_cong [OF med] sel(1) p(3) by auto
    then have rows: "list_all2 rethumbed (list_album_media aid (w_db w) @ (if aid = al_id a then [m] else [])) (list_album_media aid (w_db w'))" for aid
      using listing_rethumbed [OF h(10), of aid] listing_cong [of "w_db w'" "w_db (listen ev w2)" aid] h(8) by simp
    have objs: "st_objects (w_store w') k = (if k = md_storage_key m then Some (sf_data sf) else st_objects (w_store w) k)"
      if "\<not> starts_with ''thumbnails/'' k" for k
      using h(7,9,10) that by (auto simp: thumbs_only_def)
    have "get_media (md_id m) (w_db w) = None" using p(4) med by (simp add: get_media_def)
    moreover have "length (list_album_media (al_id a) (w_db w)) < max_album_items"
      using h(4) listing_cong [OF med] a by simp
    moreover have "m = (new_media ui (al_id a) f (ca_user actor) mtype md sf)\<lparr>md_position := md_position m\<rparr>"
      using p(2) by (simp add: a)
    moreover note rest = got_album_rest [OF assms(2) h(3)]
    obtain ms where ms: "w_db (listen ev w2) = (w_db w2)\<lparr>db_media := ms\<rparr>" using h(10) by (auto simp: thumbs_only_def)
    have "w_db w' = (w_db w)\<lparr>db_albums := db_albums (w_db w'), db_media := db_media (w_db w')\<rparr>"
      unfolding h(8) ms p(3) by (subst (1) rest [THEN conjunct1]) simp
    moreover have "get_album b (w_db w') = get_album b (w_db w)" if "b \<noteq> al_id a" for b
    proof -
      have "get_album b (w_db w') = get_album b (w_db (listen ev w2))"
        using that a by (auto simp: h(8) get_album_def album_row_update_def intro!: find_row_update_other)
      also have "\<dots> = get_album b (w_db w1)" using p(3) by (simp add: get_album_def thumbs_only_sel(1) [OF h(10)])
      also have "\<dots> = get_album b (w_db w)" using that a by (simp add: rest [THEN conjunct2, rule_format])
      finally show ?thesis .
    qed
    ultimately show thesis using that [of payload mtype md sf m] h(1,2,5,11) a sel rows objs by blast
  qed auto
qed

lemma upload_key_no_thumb: "\<not> starts_with ''thumbnails/'' (upload_storage_key actor mid fmt)"
  by (simp add: upload_storage_key_def starts_with_def)

text \<open>C21: An accepted upload adds exactly one item. Its file was read within the limits, made by the processors into a
  sanitised file, and its row, thumbnail columns apart, is the one built from the generated identifier, the client, the metadata and the
  sanitised file, its size included; no row had the identifier. The row stands at the end of its album, which
  holds at most a thousand items then. The store holds the bytes of the sanitised file under the row's key, and every other
  object is as it was, thumbnails apart. Every other item keeps its whole row, thumbnail columns apart, and its place, every
  other album is as it was, and no other table changes.\<close>

theorem upload_adds_one_item:
  assumes "db_wf (w_db w)" "upload_listener listen" "album_id \<noteq> Some []"
    and "upload cfg procs mt listen limit ui f album_id title cid actor tok lk (w, r) = (Inr (a, x), w', r')"
  shows "\<exists>payload mtype md sf m. read_bounded_upload cfg f = Inr payload \<and> process_upload procs mt f payload = Inr (mtype, md, sf)
    \<and> m = (new_media ui (al_id a) f (ca_user actor) mtype md sf)\<lparr>md_position := md_position x\<rparr> \<and> rethumbed m x
    \<and> md_id x = ui_media_id ui \<and> md_album_id x = al_id a \<and> md_user_id x = map_option us_id (ca_user actor)
    \<and> md_file_size x = int (length (sf_data sf)) \<and> get_media (md_id x) (w_db w) = None
    \<and> (\<forall>aid. list_all2 rethumbed (list_album_media aid (w_db w) @ (if aid = al_id a then [m] else [])) (list_album_media aid (w_db w')))
    \<and> length (list_album_media (al_id a) (w_db w')) \<le> max_album_items
    \<and> (\<forall>b. b \<noteq> al_id a \<longrightarrow> get_album b (w_db w') = get_album b (w_db w))
    \<and> w_db w' = (w_db w)\<lparr>db_albums := db_albums (w_db w'), db_media := db_media (w_db w')\<rparr>
    \<and> st_objects (w_store w') (md_storage_key x) = Some (sf_data sf)
    \<and> (\<forall>k. k \<noteq> md_storage_key x \<longrightarrow> \<not> starts_with ''thumbnails/'' k \<longrightarrow>
         st_objects (w_store w') k = st_objects (w_store w) k)"
  using assms(4,1,3,2)
proof (rule accepted_effect)
  fix payload mtype md sf m
  assume run: "read_bounded_upload cfg f = Inr payload" "process_upload procs mt f payload = Inr (mtype, md, sf)"
    and m: "rethumbed m x" "md_album_id m = al_id a" "md_id m = ui_media_id ui" "md_user_id m = map_option us_id (ca_user actor)"
    "md_storage_key m = upload_storage_key (ca_user actor) (ui_media_id ui) (sf_format sf)"
    "md_file_size m = int (length (sf_data sf))" "get_media (md_id m) (w_db w) = None"
    "m = (new_media ui (al_id a) f (ca_user actor) mtype md sf)\<lparr>md_position := md_position m\<rparr>"
    and rest: "w_db w' = (w_db w)\<lparr>db_albums := db_albums (w_db w'), db_media := db_media (w_db w')\<rparr>"
    "\<And>b. b \<noteq> al_id a \<Longrightarrow> get_album b (w_db w') = get_album b (w_db w)"
    and rows: "\<And>aid. list_all2 rethumbed (list_album_media aid (w_db w) @ (if aid = al_id a then [m] else [])) (list_album_media aid (w_db w'))"
    and len: "length (list_album_media (al_id a) (w_db w)) < max_album_items"
    and objs: "\<And>k. \<not> starts_with ''thumbnails/'' k \<Longrightarrow> st_objects (w_store w') k = (if k = md_storage_key m then Some (sf_data sf) else st_objects (w_store w) k)"
  note x = rethumbed_sel [OF m(1)]
  have "length (list_album_media (al_id a) (w_db w')) \<le> max_album_items"
    using list_all2_lengthD [OF rows [of "al_id a"]] len by simp
  moreover have "st_objects (w_store w') (md_storage_key x) = Some (sf_data sf)"
    using objs [of "md_storage_key x"] x(4) m(5) upload_key_no_thumb by simp
  moreover have "\<forall>k. k \<noteq> md_storage_key x \<longrightarrow> \<not> starts_with ''thumbnails/'' k \<longrightarrow> st_objects (w_store w') k = st_objects (w_store w) k"
    using objs x(4) by auto
  ultimately show ?thesis
    using run m rest rows x by (intro exI [of _ payload] exI [of _ mtype] exI [of _ md] exI [of _ sf] exI [of _ m]) simp
qed

lemma read_chunks_bound:
  assumes "read_chunks_bounded n received acc cs = Inr p" "received = int (length acc)" "acc = [] \<or> received \<le> n"
  shows "p = [] \<or> int (length p) \<le> n"
  using assms
proof (induction cs arbitrary: received acc)
  case (Cons c cs)
  show ?case
  proof (cases "c = []")
    case False
    let ?r = "received + int (length c)"
    from Cons.prems(1) False have le: "?r \<le> n" and run: "read_chunks_bounded n ?r (acc @ c) cs = Inr p"
      by (auto simp: Let_def split: if_splits)
    show ?thesis by (rule Cons.IH [OF run]) (use le Cons.prems(2) in simp_all)
  qed (use Cons.prems in auto)
qed auto

definition user_quota :: "user \<Rightarrow> int \<Rightarrow> int" where
  "user_quota u default_quota = (case us_quota_bytes u of Some q \<Rightarrow> q | None \<Rightarrow> default_quota)"

lemma quotas_respected:
  assumes "enforce_storage_quotas cfg actor n d = Inr ()"
  obtains q where "cfg ''server_quota_bytes'' = Inr q"
    "0 < q \<Longrightarrow> storage_bytes_for_media (list_all_media d) + n \<le> q"
    "\<And>u. actor = Some u \<Longrightarrow> \<exists>dq. cfg ''default_user_quota_bytes'' = Inr dq \<and> (0 < user_quota u dq \<longrightarrow>
       storage_bytes_for_media (filter (\<lambda>m. md_user_id m = Some (us_id u)) (list_all_media d)) + n \<le> user_quota u dq)"
proof -
  from assms obtain q where q: "cfg ''server_quota_bytes'' = Inr q" by (auto simp: enforce_storage_quotas_def Let_def)
  show thesis
  proof (rule that [OF q])
    show "0 < q \<Longrightarrow> storage_bytes_for_media (list_all_media d) + n \<le> q"
      using assms q by (simp add: enforce_storage_quotas_def Let_def split: if_splits)
    show "actor = Some u \<Longrightarrow> \<exists>dq. cfg ''default_user_quota_bytes'' = Inr dq \<and> (0 < user_quota u dq \<longrightarrow>
       storage_bytes_for_media (filter (\<lambda>m. md_user_id m = Some (us_id u)) (list_all_media d)) + n \<le> user_quota u dq)" for u
      using assms q by (auto simp: enforce_storage_quotas_def Let_def user_quota_def split: if_splits)
  qed
qed

text \<open>C23: No upload is accepted whose file, as it was received, is larger than allowed or, on top of what the
  tables account for, takes the server or the client over a quota.\<close>

theorem upload_within_limits:
  assumes "db_wf (w_db w)" "upload_listener listen" "album_id \<noteq> Some []"
    and "upload cfg procs mt listen limit ui f album_id title cid actor tok lk (w, r) = (Inr (a, x), w', r')"
  shows "\<exists>payload max_bytes server_quota. read_bounded_upload cfg f = Inr payload
    \<and> cfg ''max_upload_bytes'' = Inr max_bytes \<and> (payload \<noteq> [] \<longrightarrow> int (length payload) \<le> max_bytes)
    \<and> cfg ''server_quota_bytes'' = Inr server_quota
    \<and> (0 < server_quota \<longrightarrow> storage_bytes_for_media (list_all_media (w_db w)) + int (length payload) \<le> server_quota)
    \<and> (\<forall>u. ca_user actor = Some u \<longrightarrow> (\<exists>dq. cfg ''default_user_quota_bytes'' = Inr dq \<and> (0 < user_quota u dq \<longrightarrow>
         storage_bytes_for_media (filter (\<lambda>m. md_user_id m = Some (us_id u)) (list_all_media (w_db w))) + int (length payload)
           \<le> user_quota u dq)))"
  using assms(4,1,3,2)
proof (rule accepted_effect)
  fix payload assume h: "read_bounded_upload cfg f = Inr payload"
    "enforce_storage_quotas cfg (ca_user actor) (int (length payload)) (w_db w) = Inr ()"
  from h(1) obtain n where n: "cfg ''max_upload_bytes'' = Inr n" "read_chunks_bounded n 0 [] (uf_reads f) = Inr payload"
    by (auto simp: read_bounded_upload_def)
  from h(2) obtain q where "cfg ''server_quota_bytes'' = Inr q"
    "0 < q \<longrightarrow> storage_bytes_for_media (list_all_media (w_db w)) + int (length payload) \<le> q"
    "\<forall>u. ca_user actor = Some u \<longrightarrow> (\<exists>dq. cfg ''default_user_quota_bytes'' = Inr dq \<and> (0 < user_quota u dq \<longrightarrow>
         storage_bytes_for_media (filter (\<lambda>m. md_user_id m = Some (us_id u)) (list_all_media (w_db w))) + int (length payload)
           \<le> user_quota u dq))"
    by (rule quotas_respected) blast
  with h(1) n read_chunks_bound [OF n(2)] show ?thesis by auto
qed

section \<open>Instances\<close>

definition sample_inputs :: upload_inputs where
  "sample_inputs = \<lparr>ui_album_id = ''n'', ui_delete_token = ''tok'', ui_media_id = ''mm'', ui_expiry_check = 10,
     ui_access_check = 10, ui_album_created = 10, ui_media_created = 10, ui_dbnow = 11\<rparr>"

definition sample_file :: "bytes \<Rightarrow> upload_file" where
  "sample_file b = \<lparr>uf_filename = Some ''pic.PNG'', uf_content_type = Some ''image/png'', uf_reads = [b]\<rparr>"

definition sample_upload ::
  "(string \<Rightarrow> err + int) \<Rightarrow> bytes \<Rightarrow> string option \<Rightarrow> user option \<Rightarrow> (err + album \<times> media) \<times> world \<times> unit" where
  "sample_upload cfg b album_id u = upload cfg sample_procs \<lparr>mt_guess_type = (\<lambda>_. None), mt_guess_extension = (\<lambda>_. None)\<rparr>
     (\<lambda>_ w. w) (\<lambda>_ _ _ r. (Inr (), r)) sample_inputs (sample_file b) album_id (Some ''T'') ''c''
     \<lparr>ca_user = u, ca_source = ''web''\<rparr> None None (sample_world [], ())"

lemma sample_fresh: "fresh_key sample_inputs \<lparr>ca_user = None, ca_source = ''web''\<rparr> (w_store (sample_world []))"
  by (simp add: fresh_key_def upload_storage_key_def sample_inputs_def sample_store_def)

lemma split_result: "x = (fst x, fst (snd x), snd (snd x))"
  by simp

theorem refused_upload_leaves_no_trace_witness:
  "\<exists>e. fst (sample_upload sample_cfg ''bad'' None None) = Inl e
     \<and> w_db (fst (snd (sample_upload sample_cfg ''bad'' None None))) = sample_db"
proof -
  have "isl (fst (sample_upload sample_cfg ''bad'' None None))" by code_simp
  then obtain e where e: "fst (sample_upload sample_cfg ''bad'' None None) = Inl e" by (auto simp: isl_def)
  have "upload sample_cfg sample_procs \<lparr>mt_guess_type = (\<lambda>_. None), mt_guess_extension = (\<lambda>_. None)\<rparr>
     (\<lambda>_ w. w) (\<lambda>_ _ _ r. (Inr (), r)) sample_inputs (sample_file ''bad'') None (Some ''T'') ''c''
     \<lparr>ca_user = None, ca_source = ''web''\<rparr> None None (sample_world [], ()) =
     (Inl e, fst (snd (sample_upload sample_cfg ''bad'' None None)), ())"
    using e split_result [of "sample_upload sample_cfg ''bad'' None None"] by (simp add: sample_upload_def)
  from refused_upload_leaves_no_trace [OF _ queued.upload_listener_axioms _ sample_fresh this] e
  show ?thesis by (simp add: sample_db_wf)
qed

lemma sample_accepted:
  "\<exists>a x w'. sample_upload sample_cfg ''good'' (Some ''a'') (Some (sample_user ''u'' False)) = (Inr (a, x), w', ()) \<and> al_id a = ''a''"
proof -
  let ?up = "sample_upload sample_cfg ''good'' (Some ''a'') (Some (sample_user ''u'' False))"
  have "\<not> isl (fst ?up)" by code_simp
  then obtain a x where ax: "fst ?up = Inr (a, x)" by (cases "fst ?up") auto
  have "case fst ?up of Inr (a, x) \<Rightarrow> al_id a = ''a'' | Inl e \<Rightarrow> False" by code_simp
  with ax have "al_id a = ''a''" by simp
  with ax split_result [of ?up] show ?thesis by auto
qed

theorem upload_adds_one_item_witness:
  "\<exists>a x w'. sample_upload sample_cfg ''good'' (Some ''a'') (Some (sample_user ''u'' False)) = (Inr (a, x), w', ())
     \<and> map md_id (list_album_media ''a'' (w_db w')) = [''m1'', ''m2'', ''m3'', ''mm'']"
proof -
  obtain a x w' where up: "sample_upload sample_cfg ''good'' (Some ''a'') (Some (sample_user ''u'' False)) = (Inr (a, x), w', ())"
    and a: "al_id a = ''a''" using sample_accepted by blast
  have l: "map md_id (list_album_media ''a'' sample_db) = [''m1'', ''m2'', ''m3'']" by code_simp
  have i: "ui_media_id sample_inputs = ''mm''" by (simp add: sample_inputs_def)
  have wf: "db_wf (w_db (sample_world []))" by (simp add: sample_db_wf)
  obtain m where m: "rethumbed m x" "md_id x = ui_media_id sample_inputs"
    and rows: "\<forall>aid. list_all2 rethumbed (list_album_media aid (w_db (sample_world [])) @ (if aid = al_id a then [m] else []))
      (list_album_media aid (w_db w'))"
    using upload_adds_one_item [OF wf queued.upload_listener_axioms _ up [unfolded sample_upload_def]] by fast
  from map_id_rethumbed [OF rows [rule_format, of "''a''"]] m a i up l show ?thesis by (auto simp: rethumbed_sel)
qed

theorem upload_within_limits_witness:
  "\<exists>payload. read_bounded_upload sample_cfg (sample_file ''good'') = Inr payload \<and> int (length payload) \<le> 100 \<and> payload \<noteq> []"
proof -
  obtain a x w' where up: "sample_upload sample_cfg ''good'' (Some ''a'') (Some (sample_user ''u'' False)) = (Inr (a, x), w', ())"
    using sample_accepted by blast
  have c: "sample_cfg ''max_upload_bytes'' = Inr 100" by (simp add: sample_cfg_def)
  have "read_bounded_upload sample_cfg (sample_file ''good'') = Inr ''good''"
    by (simp add: read_bounded_upload_def sample_file_def sample_cfg_def Let_def)
  with upload_within_limits [OF _ queued.upload_listener_axioms _ up [unfolded sample_upload_def]] c
  show ?thesis by (auto simp: sample_db_wf)
qed

text \<open>The quotas are checked against the file as it was received, but it is the sanitised file that is stored:
  an upload of one byte is accepted under a server quota of 47 bytes with 46 in use, and 51 are in use
  afterwards.\<close>

theorem quota_checked_on_received_size:
  "\<exists>cfg a x w'. cfg ''server_quota_bytes'' = Inr 47
     \<and> storage_bytes_for_media (list_all_media sample_db) = 46
     \<and> sample_upload cfg ''g'' (Some ''a'') (Some (sample_user ''u'' False)) = (Inr (a, x), w', ())
     \<and> storage_bytes_for_media (list_all_media (w_db w')) = 51"
proof -
  define cfg :: "string \<Rightarrow> err + int" where
    "cfg = (\<lambda>k. Inr (if k = ''max_upload_bytes'' then 100 else if k = ''server_quota_bytes'' then 47 else 0))"
  let ?up = "sample_upload cfg ''g'' (Some ''a'') (Some (sample_user ''u'' False))"
  have "\<not> isl (fst ?up)" unfolding cfg_def by code_simp
  then obtain a x where ax: "fst ?up = Inr (a, x)" by (cases "fst ?up") auto
  have "storage_bytes_for_media (list_all_media (w_db (fst (snd ?up)))) = 51" unfolding cfg_def by code_simp
  moreover have "storage_bytes_for_media (list_all_media sample_db) = 46" by code_simp
  moreover have "cfg ''server_quota_bytes'' = Inr 47" by (simp add: cfg_def)
  ultimately show ?thesis using ax split_result [of ?up] by (intro exI [of _ cfg]) auto
qed

end
