(* ===== verification/Thumbnail_Props.thy ===== *)
theory Thumbnail_Props
  imports Thumb_Facts
begin

text \<open>
  The outcome of an attempt at a thumbnail, on every path of \<^verbatim>\<open>generate_thumbnail\<close>.
\<close>

text \<open>\<open>w'\<close> has row \<open>m'\<close> under \<open>mid\<close> and every other row as in \<open>w\<close>.\<close>

definition row_becomes :: "string \<Rightarrow> media \<Rightarrow> world \<Rightarrow> world \<Rightarrow> bool" where
  "row_becomes mid m' w w' \<longleftrightarrow> get_media mid (w_db w') = Some m'
     \<and> (\<forall>i. i \<noteq> mid \<longrightarrow> get_media i (w_db w') = get_media i (w_db w))"

lemma row_becomes_trans: "row_becomes mid m1 w w1 \<Longrightarrow> row_becomes mid m2 w1 w2 \<Longrightarrow> row_becomes mid m2 w w2"
  by (simp add: row_becomes_def)

lemma row_becomes_keep: "row_becomes mid m w w1 \<Longrightarrow> w_db w2 = w_db w1 \<Longrightarrow> row_becomes mid m w w2"
  by (simp add: row_becomes_def)

lemma save_thumb_state_ok:
  assumes "get_media (md_id m) (w_db w) = Some m0" "opt_in in_int8 (md_thumb_size m)" "rethumbed m0 m"
  shows "\<exists>w'. save_thumb_state m w = Inr w' \<and> row_becomes (md_id m) m w w' \<and> w_store w' = w_store w"
proof -
  let ?st = "set_thumb (md_thumb_key m) (md_thumb_is_orig m) (md_thumb_status m) (md_thumb_size m)"
  have m: "?st m0 = m" using assms(3) by (simp add: rethumbed_def)
  have id: "md_id m0 = md_id m" using assms(1) by (auto simp: get_media_def dest: find_row_SomeD)
  let ?ms = "update_where (\<lambda>r. md_id r = md_id m) ?st (db_media (w_db w))"
  have rows: "find_row md_id i ?ms = map_option (\<lambda>r. if md_id r = md_id m then ?st r else r) (find_row md_id i (db_media (w_db w)))" for i
    by (rule find_row_update_where) simp
  have "i \<noteq> md_id m \<Longrightarrow> get_media i ((w_db w)\<lparr>db_media := ?ms\<rparr>) = get_media i (w_db w)" for i
    using rows [of i] by (cases "find_row md_id i (db_media (w_db w))") (auto simp: get_media_def dest: find_row_SomeD)
  moreover have "get_media (md_id m) ((w_db w)\<lparr>db_media := ?ms\<rparr>) = Some m"
    using rows assms(1) m id by (simp add: get_media_def)
  ultimately show ?thesis
    using assms(1,2) by (simp add: save_thumb_state_def update_media_thumbnail_state_def row_becomes_def)
qed

text \<open>What an attempt leaves in the store under a key it used: nothing, unless a call on that key failed.\<close>

definition no_orphans :: "world \<Rightarrow> world \<Rightarrow> bool" where
  "no_orphans w w' \<longleftrightarrow> (\<forall>k. st_objects (w_store w') k = st_objects (w_store w) k \<or> st_objects (w_store w') k = None
     \<or> st_faulty (w_store w) (SPut k) \<or> st_faulty (w_store w) (SDelete k))"

lemma delete_written_clean:
  assumes "\<forall>k. st_objects s k = st_objects (w_store w) k \<or> written = Some k \<or> st_faulty (w_store w) (SPut k)"
    "st_faulty s = st_faulty (w_store w)" "w_store w' = snd (delete_written written s)"
  shows "no_orphans w w'"
  using assms by (cases written) (auto simp: delete_written_def st_delete_def no_orphans_def)

lemma store_thumbnail_outcome:
  assumes "get_media (md_id m) (w_db w) = Some m" "store_thumbnail cfg procs m w = (r, written, w')"
    "opt_in in_int8 (Some (md_file_size m))"
  shows "(\<forall>k. st_objects (w_store w') k = st_objects (w_store w) k \<or> written = Some k \<or> st_faulty (w_store w) (SPut k))
    \<and> st_faulty (w_store w') = st_faulty (w_store w)
    \<and> (case r of Inl e \<Rightarrow> w_db w' = w_db w
       | Inr _ \<Rightarrow> row_becomes (md_id m) (set_thumb None True ''done'' (Some (md_file_size m)) m) w w' \<and> written = None
         \<or> (\<exists>fmt n b. row_becomes (md_id m) (set_thumb (Some (thumb_storage_key m fmt)) False ''done'' (Some n) m) w w'
              \<and> st_objects (w_store w') (thumb_storage_key m fmt) = Some b))"
proof (cases "render_thumbnail cfg procs m (w_store w)")
  case (Inl e)
  with assms(2) show ?thesis by (auto simp: store_thumbnail_def)
next
  case (Inr t)
  show ?thesis
  proof (cases "th_thumb_is_orig t")
    case True
    from save_thumb_state_ok [of "set_thumb None True ''done'' (Some (md_file_size m)) m" w m] assms(1,3)
    show ?thesis using assms(2) Inr True by (auto simp: store_thumbnail_def)
  next
    case False
    let ?k = "thumb_storage_key m (th_format t)" and ?b = "case th_data t of Some b \<Rightarrow> b | None \<Rightarrow> []"
    let ?m = "set_thumb (Some ?k) False ''done'' (Some (th_size t)) m"
    note run = assms(2) [unfolded store_thumbnail_def Inr sum.case if_not_P [OF False] Let_def]
    show ?thesis
    proof (cases "st_faulty (w_store w) (SPut ?k)")
      case True
      with run show ?thesis by (auto simp: st_put_def)
    next
      case nf: False
      let ?w1 = "with_store w ((w_store w)\<lparr>st_objects := (st_objects (w_store w))(?k \<mapsto> ?b)\<rparr>)"
      show ?thesis
      proof (cases "save_thumb_state ?m ?w1")
        case e: (Inl e)
        with run nf show ?thesis by (auto simp: st_put_def split: if_splits)
      next
        case o: (Inr w2)
        have "opt_in in_int8 (Some (th_size t))"
          using o by (simp add: save_thumb_state_def update_media_thumbnail_state_def split: if_splits)
        with save_thumb_state_ok [of ?m ?w1 m] assms(1) o
        have row: "row_becomes (md_id m) ?m ?w1 w2" "w_store w2 = w_store ?w1" by auto
        then have row': "row_becomes (md_id m) ?m w w2" by (simp add: row_becomes_def)
        from run nf o have "w' = w2" "r = Inr ()" "written = Some ?k" by (auto simp: st_put_def)
        moreover have "st_objects (w_store w2) = (st_objects (w_store w))(?k \<mapsto> ?b)" "st_faulty (w_store w2) = st_faulty (w_store w)"
          using row(2) by simp_all
        ultimately show ?thesis using row' by (auto intro!: exI [of _ "th_format t"] exI [of _ "th_size t"])
      qed
    qed
  qed
qed

text \<open>The two ends of an attempt that failed: the row is reset and saved, and what was written is deleted again.\<close>

lemma reset_thumb_sel [simp]:
  "md_id (reset_thumb status m) = md_id m" "md_thumb_key (reset_thumb status m) = None" "md_thumb_size (reset_thumb status m) = None"
  "md_thumb_status (reset_thumb status m) = status" "rethumbed m (reset_thumb status m)"
  by (simp_all add: reset_thumb_def)

lemma reset_saved:
  assumes "get_media (md_id m) (w_db w) = Some m"
  obtains w' where "save_thumb_state (reset_thumb status m) w = Inr w'" "row_becomes (md_id m) (reset_thumb status m) w w'" "w_store w' = w_store w"
  using save_thumb_state_ok [of "reset_thumb status m" w m] assms by auto

lemma retry_outcome:
  assumes "get_media (md_id m) (w_db w) = Some m" "thumbnail_retry reason m written w = (r, w')"
  shows "r = Inr \<lparr>tr_state = RetryScheduled, tr_reason = Some reason, tr_retryable = True\<rparr>"
    "row_becomes (md_id m) (reset_thumb ''pending'' m) w w'" "w_store w' = snd (delete_written written (w_store w))"
proof -
  let ?w = "with_store w (snd (delete_written written (w_store w)))"
  have "get_media (md_id m) (w_db ?w) = Some m" using assms(1) by simp
  then obtain w3 where w3: "save_thumb_state (reset_thumb ''pending'' m) ?w = Inr w3"
      "row_becomes (md_id m) (reset_thumb ''pending'' m) ?w w3" "w_store w3 = w_store ?w" by (rule reset_saved)
  with assms(2) show "r = Inr \<lparr>tr_state = RetryScheduled, tr_reason = Some reason, tr_retryable = True\<rparr>"
    "row_becomes (md_id m) (reset_thumb ''pending'' m) w w'" "w_store w' = snd (delete_written written (w_store w))"
    by (auto simp: thumbnail_retry_def Let_def row_becomes_def)
qed

lemma failed_outcome:
  assumes "get_media (md_id m) (w_db w) = Some m" "thumbnail_failed reason retryable e cid m written w = (res, w')"
  shows "tr_state res = (if retryable then FailedExhausted else FailedPermanent)"
    "row_becomes (md_id m) (reset_thumb ''failed'' m) w w'" "w_store w' = snd (delete_written written (w_store w))"
proof -
  let ?w = "discard_written cid m written (tally (ThumbFailure (md_id m) cid reason e) (tally (ThumbMetric ''failed'' (md_media_type m) (Some reason)) w))"
  have "get_media (md_id m) (w_db ?w) = Some m" using assms(1) by simp
  then obtain w3 where w3: "save_thumb_state (reset_thumb ''failed'' m) ?w = Inr w3"
      "row_becomes (md_id m) (reset_thumb ''failed'' m) ?w w3" "w_store w3 = w_store ?w" by (rule reset_saved)
  with assms(2) show "tr_state res = (if retryable then FailedExhausted else FailedPermanent)"
    "row_becomes (md_id m) (reset_thumb ''failed'' m) w w'" "w_store w' = snd (delete_written written (w_store w))"
    by (auto simp: thumbnail_failed_def mark_failed_def row_becomes_def)
qed

text \<open>The end of an attempt that succeeded.\<close>

lemma success_outcome:
  assumes "row_becomes mid (set_thumb None True ''done'' (Some (md_file_size m)) m) w w' \<and> written = None
      \<or> (\<exists>fmt n b. row_becomes mid (set_thumb (Some (thumb_storage_key m fmt)) False ''done'' (Some n) m) w w'
           \<and> st_objects (w_store w') (thumb_storage_key m fmt) = Some b)"
  obtains m' where "row_becomes mid m' w w'" "rethumbed m m'" "md_thumb_status m' = ''done''"
    "md_thumb_is_orig m' \<and> md_thumb_key m' = None \<and> md_thumb_size m' = Some (md_file_size m)
     \<or> \<not> md_thumb_is_orig m' \<and> (\<exists>fmt. md_thumb_key m' = Some (thumb_storage_key m fmt)
          \<and> st_objects (w_store w') (thumb_storage_key m fmt) \<noteq> None)"
  using assms
proof (elim disjE exE conjE)
  assume "row_becomes mid (set_thumb None True ''done'' (Some (md_file_size m)) m) w w'"
  then show thesis by (rule that) simp_all
next
  fix fmt n b
  assume "row_becomes mid (set_thumb (Some (thumb_storage_key m fmt)) False ''done'' (Some n) m) w w'"
    and "st_objects (w_store w') (thumb_storage_key m fmt) = Some b"
  then show thesis by (intro that) auto
qed

text \<open>C24: Every attempt at a thumbnail of an item that is not done ends in a result, and the item's row agrees
  with it: done with a stored thumbnail (or with the original as its own), pending again when a retry is
  asked for, which happens only while attempts remain, or failed. The row is never left processing, no
  other row changes, and an attempt that does not succeed leaves no object behind unless a storage call
  failed.\<close>

theorem thumbnail_attempt_outcomes:
  assumes "get_media mid (w_db w) = Some m" "md_thumb_status m \<noteq> ''done''" "media_encodable m"
    and "generate_thumbnail cfg procs mid cid attempt max_attempts w = (r, w')"
  shows "\<exists>res m'. r = Inr res \<and> rethumbed m m' \<and> row_becomes mid m' w w'
    \<and> (tr_state res = Succeeded \<and> md_thumb_status m' = ''done''
         \<and> (md_thumb_is_orig m' \<and> md_thumb_key m' = None \<and> md_thumb_size m' = Some (md_file_size m)
            \<or> \<not> md_thumb_is_orig m' \<and> (\<exists>fmt. md_thumb_key m' = Some (thumb_storage_key m fmt)
                 \<and> st_objects (w_store w') (thumb_storage_key m fmt) \<noteq> None))
       \<or> md_thumb_key m' = None \<and> md_thumb_size m' = None \<and> no_orphans w w'
         \<and> (tr_state res = RetryScheduled \<and> tr_retryable res \<and> attempt < max_attempts \<and> md_thumb_status m' = ''pending''
            \<or> tr_state res \<in> {FailedPermanent, FailedExhausted} \<and> md_thumb_status m' = ''failed''))"
proof -
  let ?m = "m\<lparr>md_thumb_status := ''processing''\<rparr>"
  have id: "md_id m = mid" using assms(1) by (auto simp: get_media_def dest: find_row_SomeD)
  have size: "opt_in in_int8 (md_thumb_size m)" "opt_in in_int8 (Some (md_file_size m))"
    using assms(3) by (auto simp: media_encodable_def)
  have rm: "rethumbed m ?m" by (simp add: rethumbed_def set_thumb_def)
  from save_thumb_state_ok [of ?m w m] assms(1) id size(1) rm
  obtain w1 where w1: "save_thumb_state ?m w = Inr w1" "row_becomes mid ?m w w1" "w_store w1 = w_store w" by auto
  have row1: "get_media (md_id ?m) (w_db w1) = Some ?m" using w1(2) id by (simp add: row_becomes_def)
  obtain r2 written w2 where st: "store_thumbnail cfg procs ?m w1 = (r2, written, w2)" by (metis prod_cases3)
  have "opt_in in_int8 (Some (md_file_size ?m))" using size(2) by simp
  note out = store_thumbnail_outcome [OF row1 st this]
  note gen = assms(4) [unfolded generate_thumbnail_def assms(1) option.case if_not_P [OF assms(2)] Let_def w1(1) sum.case st prod.case]
  show ?thesis
  proof (cases r2)
    case (Inr u)
    let ?w = "tally (ThumbMetric ''success'' (md_media_type ?m) None) w2"
    from gen Inr have res: "r = Inr \<lparr>tr_state = Succeeded, tr_reason = None, tr_retryable = False\<rparr>" "w' = ?w" by auto
    have "row_becomes mid (set_thumb None True ''done'' (Some (md_file_size ?m)) ?m) w1 w2 \<and> written = None
      \<or> (\<exists>fmt n b. row_becomes mid (set_thumb (Some (thumb_storage_key ?m fmt)) False ''done'' (Some n) ?m) w1 w2
           \<and> st_objects (w_store w2) (thumb_storage_key ?m fmt) = Some b)"
      using out id unfolding Inr by simp
    then obtain m' where m': "row_becomes mid m' w1 w2" "rethumbed ?m m'" "md_thumb_status m' = ''done''"
      "md_thumb_is_orig m' \<and> md_thumb_key m' = None \<and> md_thumb_size m' = Some (md_file_size ?m)
       \<or> \<not> md_thumb_is_orig m' \<and> (\<exists>fmt. md_thumb_key m' = Some (thumb_storage_key ?m fmt)
          \<and> st_objects (w_store w2) (thumb_storage_key ?m fmt) \<noteq> None)" by (rule success_outcome)
    have "row_becomes mid m' w ?w" using row_becomes_keep [OF row_becomes_trans [OF w1(2) m'(1)]] by simp
    with res m'(3,4) rethumbed_trans [OF rm m'(2)] show ?thesis
      by (intro exI [of _ "projr r"] exI [of _ m']) (simp add: thumb_storage_key_def)
  next
    case (Inl e)
    let ?reason = "thumbnail_failure_reason e"
    let ?retryable = "thumbnail_failure_is_retryable ?reason"
    have db2: "w_db w2 = w_db w1" using out Inl by simp
    have clean: "\<forall>k. st_objects (w_store w2) k = st_objects (w_store w) k \<or> written = Some k \<or> st_faulty (w_store w) (SPut k)"
      "st_faulty (w_store w2) = st_faulty (w_store w)" using out w1(3) by auto
    have row2: "get_media (md_id ?m) (w_db w2) = Some ?m" using row1 db2 by simp
    have row3: "row_becomes mid m3 w w3" if "row_becomes (md_id ?m) m3 w2 w3" for m3 w3
      using row_becomes_trans [OF row_becomes_keep [OF w1(2) db2]] that id by simp
    have rt: "rethumbed m (reset_thumb status ?m)" for status by (rule rethumbed_trans [OF rm]) simp
    show ?thesis
    proof (cases "?retryable \<and> attempt < max_attempts")
      case True
      with gen Inl have run: "thumbnail_retry ?reason ?m written w2 = (r, w')" by simp
      note out = retry_outcome [OF row2 run]
      from out(1) row3 [OF out(2)] rt delete_written_clean [OF clean out(3)] True show ?thesis
        by (intro exI [of _ "projr r"] exI [of _ "reset_thumb ''pending'' ?m"]) simp
    next
      case False
      obtain res w3 where run: "thumbnail_failed ?reason ?retryable e cid ?m written w2 = (res, w3)" by fastforce
      with gen Inl False have res: "r = Inr res" "w' = w3" by auto
      note out = failed_outcome [OF row2 run, folded res(2)]
      from res(1) out(1) row3 [OF out(2)] rt delete_written_clean [OF clean out(3)] show ?thesis
        by (intro exI [of _ res] exI [of _ "reset_thumb ''failed'' ?m"]) simp
    qed
  qed
qed

theorem thumbnail_attempt_outcomes_witness:
  "\<exists>res m'. fst (generate_thumbnail sample_cfg sample_procs ''m1'' ''c'' 1 3 pending_world) = Inr res
     \<and> row_becomes ''m1'' m' pending_world (snd (generate_thumbnail sample_cfg sample_procs ''m1'' ''c'' 1 3 pending_world))
     \<and> md_thumb_status m' \<in> {''done'', ''pending'', ''failed''}"
proof -
  let ?m = "set_thumb None False ''pending'' None (sample_media ''m1'' ''a'' (Some ''u'') ''k1'' (Some ''t1'') 1000)"
  have m: "get_media ''m1'' (w_db pending_world) = Some ?m"
    by (simp add: pending_world_def sample_defs get_media_def find_row_def update_where_def set_thumb_def)
  have s: "md_thumb_status ?m \<noteq> ''done''" by simp
  have e: "media_encodable ?m" by (simp add: media_encodable_def sample_media_def set_thumb_def in_int8_def in_int4_def)
  from thumbnail_attempt_outcomes [OF m s e, of sample_cfg sample_procs "''c''" 1 3
      "fst (generate_thumbnail sample_cfg sample_procs ''m1'' ''c'' 1 3 pending_world)"
      "snd (generate_thumbnail sample_cfg sample_procs ''m1'' ''c'' 1 3 pending_world)"]
  show ?thesis by (simp, blast)
qed

end
