(* ===== verification/User_Repo.thy ===== *)
theory User_Repo
  imports Db_Facts
begin

text \<open>
  The queries of \<^verbatim>\<open>src/imghost/repository_users.py\<close> over the tables of \<^verbatim>\<open>Database\<close>, and \<^verbatim>\<open>row_to_user\<close> of
  \<^verbatim>\<open>repository_mapping.py\<close>: users with their rate limits, API keys, links to OAuth accounts and the nonces
  of an OAuth login. An identifier stands for a well-formed UUID; sums of sizes stay below \<^verbatim>\<open>BIGINT\<close>.
\<close>

section \<open>Users\<close>

text \<open>\<^verbatim>\<open>USER_SELECT\<close> joins the row of \<^verbatim>\<open>user_rate_limits\<close>, if there is one.\<close>

definition row_to_user :: "db \<Rightarrow> user_row \<Rightarrow> user" where
  "row_to_user d r =
     (let l = find_row rl_user_id (ur_id r) (db_rate_limits d) in
      \<lparr>us_id = ur_id r, us_username = ur_username r, us_email = ur_email r, us_password_hash = ur_password_hash r,
       us_is_admin = ur_is_admin r, us_suspended = ur_is_suspended r, us_quota_bytes = ur_quota_bytes r,
       us_rate_limit_rpm = (case l of Some x \<Rightarrow> rl_rpm x | None \<Rightarrow> None),
       us_rate_limit_bph = (case l of Some x \<Rightarrow> rl_bph x | None \<Rightarrow> None),
       us_created_at = ur_created_at r, us_updated_at = ur_updated_at r\<rparr>)"

definition get_user :: "string \<Rightarrow> db \<Rightarrow> user option" where
  "get_user uid d = map_option (row_to_user d) (find_row ur_id uid (db_users d))"

definition get_user_by_email :: "string \<Rightarrow> db \<Rightarrow> user option" where
  "get_user_by_email email d = map_option (row_to_user d) (find_row ur_email email (db_users d))"

definition get_user_by_username :: "string \<Rightarrow> db \<Rightarrow> user option" where
  "get_user_by_username name d = map_option (row_to_user d) (find_row ur_username name (db_users d))"

definition set_rate_limit_overrides :: "string \<Rightarrow> int option \<Rightarrow> int option \<Rightarrow> db \<Rightarrow> err + db" where
  "set_rate_limit_overrides uid rpm bph d =
     (if rpm = None \<and> bph = None
        then Inr (d\<lparr>db_rate_limits := delete_where (\<lambda>l. rl_user_id l = uid) (db_rate_limits d)\<rparr>)
      else if \<not> (opt_in in_int4 rpm \<and> opt_in in_int8 bph) then Inl (DataError ''value out of range'')
      else if find_row rl_user_id uid (db_rate_limits d) \<noteq> None
        then Inr (d\<lparr>db_rate_limits := update_where (\<lambda>l. rl_user_id l = uid) (\<lambda>l. l\<lparr>rl_rpm := rpm, rl_bph := bph\<rparr>) (db_rate_limits d)\<rparr>)
      else if \<not> user_exists d uid then Inl (ForeignKeyViolation ''user_rate_limits_user_id_fkey'')
      else Inr (d\<lparr>db_rate_limits := db_rate_limits d @ [\<lparr>rl_user_id = uid, rl_rpm = rpm, rl_bph = bph\<rparr>]\<rparr>))"

text \<open>\<^verbatim>\<open>row_to_user\<close> of the row read back; of no row, Python raises \<^verbatim>\<open>TypeError\<close>.\<close>

definition user_read_back :: "string \<Rightarrow> db \<Rightarrow> err + user" where
  "user_read_back uid d = (case get_user uid d of Some u \<Rightarrow> Inr u | None \<Rightarrow> Inl (TypeError ''NoneType''))"

definition new_user_row :: "user \<Rightarrow> user_row" where
  "new_user_row u = \<lparr>ur_id = us_id u, ur_username = us_username u, ur_email = us_email u,
     ur_password_hash = us_password_hash u, ur_is_admin = us_is_admin u, ur_is_suspended = us_suspended u,
     ur_quota_bytes = us_quota_bytes u, ur_created_at = us_created_at u, ur_updated_at = us_updated_at u\<rparr>"

definition repo_create_user :: "user \<Rightarrow> db \<Rightarrow> err + (user \<times> db)" where
  "repo_create_user u d =
     (if \<not> opt_in in_int8 (us_quota_bytes u) then Inl (DataError ''value out of range'')
      else if user_exists d (us_id u) then Inl (UniqueViolation ''users_pkey'')
      else if find_row ur_username (us_username u) (db_users d) \<noteq> None then Inl (UniqueViolation ''users_username_key'')
      else if find_row ur_email (us_email u) (db_users d) \<noteq> None then Inl (UniqueViolation ''users_email_key'')
      else and_then (set_rate_limit_overrides (us_id u) (us_rate_limit_rpm u) (us_rate_limit_bph u)
             (d\<lparr>db_users := db_users d @ [new_user_row u]\<rparr>)) (\<lambda>d'.
        and_then (user_read_back (us_id u) d') (\<lambda>u'. Inr (u', d'))))"

definition user_row_update :: "time \<Rightarrow> user \<Rightarrow> user_row \<Rightarrow> user_row" where
  "user_row_update now u r =
     r\<lparr>ur_username := us_username u, ur_email := us_email u, ur_password_hash := us_password_hash u,
       ur_is_admin := us_is_admin u, ur_is_suspended := us_suspended u, ur_quota_bytes := us_quota_bytes u,
       ur_updated_at := now\<rparr>"

text \<open>
  \<^verbatim>\<open>update_user\<close>: the transaction is over when the row that was read back is converted, so its result and
  the tables are a pair.
\<close>

definition taken_by_other :: "(user_row \<Rightarrow> string) \<Rightarrow> string \<Rightarrow> string \<Rightarrow> db \<Rightarrow> bool" where
  "taken_by_other field uid v d = (\<exists>r\<in>set (db_users d). field r = v \<and> ur_id r \<noteq> uid)"

definition repo_update_user :: "time \<Rightarrow> user \<Rightarrow> db \<Rightarrow> (err + user) \<times> db" where
  "repo_update_user now u d =
     (if \<not> opt_in in_int8 (us_quota_bytes u) then (Inl (DataError ''value out of range''), d)
      else if user_exists d (us_id u) \<and> taken_by_other ur_username (us_id u) (us_username u) d
        then (Inl (UniqueViolation ''users_username_key''), d)
      else if user_exists d (us_id u) \<and> taken_by_other ur_email (us_id u) (us_email u) d
        then (Inl (UniqueViolation ''users_email_key''), d)
      else (case set_rate_limit_overrides (us_id u) (us_rate_limit_rpm u) (us_rate_limit_bph u)
             (d\<lparr>db_users := update_where (\<lambda>r. ur_id r = us_id u) (user_row_update now u) (db_users d)\<rparr>) of
          Inl e \<Rightarrow> (Inl e, d)
        | Inr d' \<Rightarrow> (user_read_back (us_id u) d', d')))"

definition list_users :: "db \<Rightarrow> user list" where
  "list_users d = map (row_to_user d) (sort_key ur_created_at (db_users d))"

definition user_matches :: "string option \<Rightarrow> bool option \<Rightarrow> bool option \<Rightarrow> user_row \<Rightarrow> bool" where
  "user_matches q is_admin suspended r =
     ((truthy q \<longrightarrow> (let p = contains_pattern (the q) in
         like_match p (py_lower (ur_username r)) \<or> like_match p (py_lower (ur_email r)) \<or> like_match p (ur_id r)))
      \<and> (case is_admin of None \<Rightarrow> True | Some b \<Rightarrow> ur_is_admin r = b)
      \<and> (case suspended of None \<Rightarrow> True | Some b \<Rightarrow> ur_is_suspended r = b))"

definition list_users_filtered ::
  "string option \<Rightarrow> bool option \<Rightarrow> bool option \<Rightarrow> int \<Rightarrow> int \<Rightarrow> db \<Rightarrow> user list \<times> int" where
  "list_users_filtered q is_admin suspended lim ofs d =
     (let rows = filter (user_matches q is_admin suspended) (db_users d) in
      (map (row_to_user d) (page lim ofs (order_desc (\<lambda>r. (ur_created_at r, ur_id r)) rows)), int (length rows)))"

section \<open>API keys\<close>

definition upsert_api_key :: "api_key \<Rightarrow> db \<Rightarrow> err + (api_key \<times> db)" where
  "upsert_api_key k d =
     (let others = filter (\<lambda>r. ak_user_id r \<noteq> ak_user_id k) (db_api_keys d) in
      if ak_id k \<in> ak_id ` set others then Inl (UniqueViolation ''api_keys_pkey'')
      else if ak_key_hash k \<in> ak_key_hash ` set others then Inl (UniqueViolation ''api_keys_key_hash_key'')
      else if find_row ak_user_id (ak_user_id k) (db_api_keys d) \<noteq> None
        then Inr (k, d\<lparr>db_api_keys := update_where (\<lambda>r. ak_user_id r = ak_user_id k) (\<lambda>_. k) (db_api_keys d)\<rparr>)
      else if \<not> user_exists d (ak_user_id k) then Inl (ForeignKeyViolation ''api_keys_user_id_fkey'')
      else Inr (k, d\<lparr>db_api_keys := db_api_keys d @ [k]\<rparr>))"

definition get_api_key_by_hash :: "string \<Rightarrow> db \<Rightarrow> api_key option" where
  "get_api_key_by_hash h d = find_row ak_key_hash h (db_api_keys d)"

definition get_api_key_for_user :: "string \<Rightarrow> db \<Rightarrow> api_key option" where
  "get_api_key_for_user uid d = find_row ak_user_id uid (db_api_keys d)"

definition update_api_key :: "api_key \<Rightarrow> db \<Rightarrow> err + (api_key \<times> db)" where
  "update_api_key k d =
     (let others = filter (\<lambda>r. ak_id r \<noteq> ak_id k) (db_api_keys d) in
      if find_row ak_id (ak_id k) (db_api_keys d) = None then Inl (TypeError ''NoneType'')
      else if ak_key_hash k \<in> ak_key_hash ` set others then Inl (UniqueViolation ''api_keys_key_hash_key'')
      else if ak_user_id k \<in> ak_user_id ` set others then Inl (UniqueViolation ''idx_api_keys_user_id_unique'')
      else if \<not> user_exists d (ak_user_id k) then Inl (ForeignKeyViolation ''api_keys_user_id_fkey'')
      else Inr (k, d\<lparr>db_api_keys := update_where (\<lambda>r. ak_id r = ak_id k) (\<lambda>_. k) (db_api_keys d)\<rparr>))"

section \<open>Links to OAuth accounts\<close>

definition create_user_sso_link :: "user_sso_link \<Rightarrow> db \<Rightarrow> err + (user_sso_link \<times> db)" where
  "create_user_sso_link l d =
     (if find_row sl_id (sl_id l) (db_sso_links d) \<noteq> None then Inl (UniqueViolation ''user_sso_links_pkey'')
      else if find_row (\<lambda>l. (sl_provider l, sl_provider_uid l)) (sl_provider l, sl_provider_uid l) (db_sso_links d) \<noteq> None
        then Inl (UniqueViolation ''user_sso_links_provider_provider_uid_key'')
      else if \<not> user_exists d (sl_user_id l) then Inl (ForeignKeyViolation ''user_sso_links_user_id_fkey'')
      else Inr (l, d\<lparr>db_sso_links := db_sso_links d @ [l]\<rparr>))"

definition get_user_sso_link :: "string \<Rightarrow> string \<Rightarrow> db \<Rightarrow> user_sso_link option" where
  "get_user_sso_link provider provider_uid d =
     find_row (\<lambda>l. (sl_provider l, sl_provider_uid l)) (provider, provider_uid) (db_sso_links d)"

definition list_user_sso_links :: "string \<Rightarrow> db \<Rightarrow> user_sso_link list" where
  "list_user_sso_links uid d =
     sort_key (\<lambda>l. (sl_provider l, sl_linked_at l)) (filter (\<lambda>l. sl_user_id l = uid) (db_sso_links d))"

definition delete_user_sso_link :: "string \<Rightarrow> string \<Rightarrow> db \<Rightarrow> user_sso_link option \<times> db" where
  "delete_user_sso_link uid provider d =
     (let P = (\<lambda>l. sl_user_id l = uid \<and> sl_provider l = provider) in
      (find P (db_sso_links d), d\<lparr>db_sso_links := delete_where P (db_sso_links d)\<rparr>))"

section \<open>Nonces\<close>

definition create_oauth_state_nonce :: "oauth_state_nonce \<Rightarrow> db \<Rightarrow> err + (oauth_state_nonce \<times> db)" where
  "create_oauth_state_nonce n d =
     (if find_row on_jti (on_jti n) (db_nonces d) \<noteq> None then Inl (UniqueViolation ''oauth_state_nonces_pkey'')
      else if \<not> opt_user_exists d (on_user_id n) then Inl (ForeignKeyViolation ''oauth_state_nonces_user_id_fkey'')
      else Inr (n, d\<lparr>db_nonces := db_nonces d @ [n]\<rparr>))"

definition consume_oauth_state_nonce :: "time \<Rightarrow> string \<Rightarrow> db \<Rightarrow> oauth_state_nonce option \<times> db" where
  "consume_oauth_state_nonce now jti d =
     (let P = (\<lambda>n. on_jti n = jti \<and> now < on_expires_at n) in
      (find P (db_nonces d), d\<lparr>db_nonces := delete_where P (db_nonces d)\<rparr>))"

definition delete_expired_oauth_state_nonces :: "time \<Rightarrow> db \<Rightarrow> db" where
  "delete_expired_oauth_state_nonces now d =
     d\<lparr>db_nonces := delete_where (\<lambda>n. on_expires_at n \<le> now) (db_nonces d)\<rparr>"

definition get_oauth_state_nonce :: "string \<Rightarrow> db \<Rightarrow> oauth_state_nonce option" where
  "get_oauth_state_nonce jti d = find_row on_jti jti (db_nonces d)"

section \<open>What a user has\<close>

definition list_user_media :: "string \<Rightarrow> db \<Rightarrow> media list" where
  "list_user_media uid d = sort_key md_created_at (filter (\<lambda>m. md_user_id m = Some uid) (db_media d))"

definition list_user_albums :: "string \<Rightarrow> db \<Rightarrow> album list" where
  "list_user_albums uid d = sort_key al_created_at (filter (\<lambda>a. al_user_id a = Some uid) (db_albums d))"

definition list_user_albums_page :: "string \<Rightarrow> int \<Rightarrow> int \<Rightarrow> db \<Rightarrow> album list \<times> int" where
  "list_user_albums_page uid lim ofs d =
     (let rows = filter (\<lambda>a. al_user_id a = Some uid) (db_albums d) in
      (page lim ofs (order_desc (\<lambda>a. (al_updated_at a, al_id a)) rows), int (length rows)))"

text \<open>\<^verbatim>\<open>summarize_users\<close>: per user the albums, the items and the bytes, these by SQL's own rule.\<close>

record usage =
  ug_album_count :: int
  ug_media_count :: int
  ug_storage_used_bytes :: int

definition sql_media_bytes :: "media \<Rightarrow> int" where
  "sql_media_bytes m = md_file_size m +
     (if md_thumb_key m \<noteq> None \<and> md_thumb_key m \<noteq> Some (md_storage_key m) then or_zero (md_thumb_size m) else 0)"

definition summarize_users :: "string list \<Rightarrow> db \<Rightarrow> (string \<times> usage) list" where
  "summarize_users ids d =
     map (\<lambda>uid. let items = filter (\<lambda>m. md_user_id m = Some uid) (db_media d) in
       (uid, \<lparr>ug_album_count = int (length (filter (\<lambda>a. al_user_id a = Some uid) (db_albums d))),
              ug_media_count = int (length items), ug_storage_used_bytes = sum_list (map sql_media_bytes items)\<rparr>))
     (remdups ids)"

definition repo_delete_user :: "string \<Rightarrow> db \<Rightarrow> (user option \<times> album list \<times> media list) \<times> db" where
  "repo_delete_user uid d =
     (case get_user uid d of
        None \<Rightarrow> ((None, [], []), d)
      | Some u \<Rightarrow>
          let owned = map al_id (filter (\<lambda>a. al_user_id a = Some uid) (db_albums d)) in
          ((Some u, list_user_albums uid d,
            sort_key md_created_at (filter (\<lambda>m. md_user_id m = Some uid \<or> md_album_id m \<in> set owned) (db_media d))),
           cascade_user uid d))"

section \<open>Keeping the constraints\<close>

lemma user_exists_users: "map ur_id (db_users d') = map ur_id (db_users d) \<Longrightarrow> user_exists d' u = user_exists d u"
  unfolding user_exists_def by (metis (mono_tags, lifting) image_iff list.set_map)

lemma user_exists_iff: "user_exists d u \<longleftrightarrow> u \<in> set (map ur_id (db_users d))"
  by (auto simp: user_exists_def)

lemma get_user_SomeD: "get_user uid d = Some u \<Longrightarrow> us_id u = uid \<and> user_exists d uid"
  by (auto simp: get_user_def row_to_user_def Let_def user_exists_def dest: find_row_SomeD)

lemma db_wf_users_upd:
  assumes "db_wf d" "keys_distinct ur_id us" "keys_distinct ur_username us" "keys_distinct ur_email us"
    and "set (map ur_id (db_users d)) \<subseteq> set (map ur_id us)"
  shows "db_wf (d\<lparr>db_users := us\<rparr>)"
proof -
  have ue: "user_exists d u \<Longrightarrow> user_exists (d\<lparr>db_users := us\<rparr>) u" for u
    using assms(5) unfolding user_exists_iff by auto
  have oue: "opt_user_exists d v \<Longrightarrow> opt_user_exists (d\<lparr>db_users := us\<rparr>) v" for v
    by (cases v) (auto simp: ue)
  have ae: "album_exists (d\<lparr>db_users := us\<rparr>) a = album_exists d a" for a by (simp add: album_exists_def)
  show ?thesis
    using assms by (simp add: db_wf_def keys_ok_def fks_ok_def ue oue ae)
qed

lemma db_wf_rate_limits_upd:
  assumes "db_wf d" "keys_distinct rl_user_id ls" "\<And>l. l \<in> set ls \<Longrightarrow> user_exists d (rl_user_id l)"
  shows "db_wf (d\<lparr>db_rate_limits := ls\<rparr>)"
proof -
  have u: "user_exists (d\<lparr>db_rate_limits := ls\<rparr>) = user_exists d" "album_exists (d\<lparr>db_rate_limits := ls\<rparr>) = album_exists d"
    by (auto simp: user_exists_def album_exists_def fun_eq_iff)
  have o: "opt_user_exists (d\<lparr>db_rate_limits := ls\<rparr>) = opt_user_exists d"
  proof
    fix v show "opt_user_exists (d\<lparr>db_rate_limits := ls\<rparr>) v = opt_user_exists d v" by (cases v) (simp_all add: u)
  qed
  show ?thesis using assms by (simp add: db_wf_def keys_ok_def fks_ok_def u o)
qed

lemma db_wf_set_rate_limit_overrides:
  assumes "db_wf d" "set_rate_limit_overrides uid rpm bph d = Inr d'"
  shows "db_wf d'"
proof -
  have keys: "keys_distinct rl_user_id (db_rate_limits d)" and fk: "\<And>l. l \<in> set (db_rate_limits d) \<Longrightarrow> user_exists d (rl_user_id l)"
    using assms(1) by (auto simp: db_wf_def keys_ok_def fks_ok_def)
  from assms(2) show ?thesis
    by (auto simp: set_rate_limit_overrides_def set_update_where keys_distinct_delete_where keys_distinct_update_where keys
        keys_distinct_snoc fk split: if_splits intro!: db_wf_rate_limits_upd [OF assms(1)])
qed

lemma set_rate_limit_overrides_frame:
  "set_rate_limit_overrides uid rpm bph d = Inr d' \<Longrightarrow>
     db_users d' = db_users d \<and> db_albums d' = db_albums d \<and> db_media d' = db_media d \<and> db_sharex d' = db_sharex d
     \<and> db_sso_links d' = db_sso_links d \<and> db_api_keys d' = db_api_keys d \<and> db_nonces d' = db_nonces d"
  by (auto simp: set_rate_limit_overrides_def split: if_splits)

lemma db_wf_repo_create_user:
  assumes "db_wf d" "repo_create_user u d = Inr (u', d')"
  shows "db_wf d'"
proof -
  let ?d = "d\<lparr>db_users := db_users d @ [new_user_row u]\<rparr>"
  from assms(2) have n: "\<not> user_exists d (us_id u)" "find_row ur_username (us_username u) (db_users d) = None"
    "find_row ur_email (us_email u) (db_users d) = None"
    and s: "set_rate_limit_overrides (us_id u) (us_rate_limit_rpm u) (us_rate_limit_bph u) ?d = Inr d'"
    by (auto simp: repo_create_user_def split: if_splits)
  have "db_wf ?d"
    using assms(1) n
    by (intro db_wf_users_upd) (auto simp: keys_distinct_snoc new_user_row_def user_exists_find db_wf_def keys_ok_def)
  from db_wf_set_rate_limit_overrides [OF this s] show ?thesis .
qed

lemma ur_id_row_update [simp]: "ur_id (user_row_update now u r) = ur_id r"
  by (simp add: user_row_update_def)

lemma keys_distinct_update_one:
  assumes "keys_distinct key rows" "keys_distinct f rows" "\<forall>r\<in>set rows. f r = v \<longrightarrow> key r = k" "\<And>r. f (g r) = v"
  shows "keys_distinct f (update_where (\<lambda>r. key r = k) g rows)"
  using assms
proof (induction rows)
  case (Cons r rows)
  then have ih: "keys_distinct f (update_where (\<lambda>r. key r = k) g rows)" by (auto simp: keys_distinct_def)
  have rest: "\<forall>x\<in>set rows. key x \<noteq> key r \<and> f x \<noteq> f r"
    using Cons.prems(1,2) unfolding keys_distinct_def by (auto simp: image_iff)
  have "f (if key r = k then g r else r) \<notin> f ` set (update_where (\<lambda>r. key r = k) g rows)"
  proof (cases "key r = k")
    case True
    with rest have "update_where (\<lambda>r. key r = k) g rows = rows" by (intro update_where_none) auto
    moreover have "f x \<noteq> v" if "x \<in> set rows" for x
      using that rest True Cons.prems(3) by auto
    ultimately show ?thesis using True Cons.prems(4) by auto
  next
    case False
    with Cons.prems(3) have "f r \<noteq> v" by auto
    with False rest Cons.prems(4) show ?thesis by (auto simp: set_update_where)
  qed
  moreover have "update_where (\<lambda>r. key r = k) g (r # rows)
      = (if key r = k then g r else r) # update_where (\<lambda>r. key r = k) g rows"
    by (simp add: update_where_def)
  ultimately show ?case using ih by (simp add: keys_distinct_def)
qed (simp add: update_where_def)

lemma db_wf_repo_update_user:
  assumes "db_wf d"
  shows "db_wf (snd (repo_update_user now u d))"
proof (cases "snd (repo_update_user now u d) = d")
  case True
  with assms show ?thesis by simp
next
  case False
  let ?us = "update_where (\<lambda>r. ur_id r = us_id u) (user_row_update now u) (db_users d)"
  note run = False [unfolded repo_update_user_def]
  from run obtain d' where d': "set_rate_limit_overrides (us_id u) (us_rate_limit_rpm u) (us_rate_limit_bph u) (d\<lparr>db_users := ?us\<rparr>) = Inr d'"
    "snd (repo_update_user now u d) = d'"
    and free: "user_exists d (us_id u) \<longrightarrow> \<not> taken_by_other ur_username (us_id u) (us_username u) d"
      "user_exists d (us_id u) \<longrightarrow> \<not> taken_by_other ur_email (us_id u) (us_email u) d"
    by (auto simp: repo_update_user_def split: if_splits sum.splits)
  have k: "keys_distinct ur_id (db_users d)" "keys_distinct ur_username (db_users d)" "keys_distinct ur_email (db_users d)"
    using assms by (auto simp: db_wf_def keys_ok_def)
  have "db_wf (d\<lparr>db_users := ?us\<rparr>)"
  proof (rule db_wf_users_upd [OF assms])
    show "keys_distinct ur_id ?us" by (rule keys_distinct_update_where [OF _ k(1)]) simp
    show "set (map ur_id (db_users d)) \<subseteq> set (map ur_id ?us)" by (subst map_key_update_where) auto
    show "keys_distinct ur_username ?us"
    proof (cases "user_exists d (us_id u)")
      case True
      with free(1) show ?thesis
        by (intro keys_distinct_update_one [OF k(1,2), of "us_username u"]) (auto simp: taken_by_other_def user_row_update_def)
    next
      case False
      then have "?us = db_users d" by (intro update_where_none) (auto simp: user_exists_def)
      with k show ?thesis by simp
    qed
    show "keys_distinct ur_email ?us"
    proof (cases "user_exists d (us_id u)")
      case True
      with free(2) show ?thesis
        by (intro keys_distinct_update_one [OF k(1,3), of "us_email u"]) (auto simp: taken_by_other_def user_row_update_def)
    next
      case False
      then have "?us = db_users d" by (intro update_where_none) (auto simp: user_exists_def)
      with k show ?thesis by simp
    qed
  qed
  from db_wf_set_rate_limit_overrides [OF this d'(1)] d'(2) show ?thesis by simp
qed

end
