(* ===== verification/Accounts.thy ===== *)
theory Accounts
  imports Albums User_Repo
begin

text \<open>
  \<^verbatim>\<open>AccountService\<close> of \<^verbatim>\<open>src/imghost/account_service.py\<close>, and the promotion of the bootstrap administrator in
  \<^verbatim>\<open>app_state.py\<close>. Outside the program, and so parameters: bcrypt and SHA-256 (\<open>crypto\<close>), the settings
  (\<open>cfg key\<close> is \<^verbatim>\<open>int(await runtime_config.get_value(key))\<close>), the generated identifiers and the clock's
  readings. Each operation returns its result or the exception it raises, and the state it leaves.
  \<open>dbnow\<close> is the database's clock at the update.
\<close>

section \<open>Passwords and keys\<close>

text \<open>
  \<open>cr_hashpw pw salt\<close>: \<^verbatim>\<open>bcrypt.hashpw(pw, salt)\<close>, which is ASCII, so that decoding it is the identity.
  Both functions of bcrypt raise \<^verbatim>\<open>ValueError\<close> on input they refuse.
\<close>

record crypto =
  cr_hashpw :: "bytes \<Rightarrow> bytes \<Rightarrow> err + string"
  cr_checkpw :: "bytes \<Rightarrow> bytes \<Rightarrow> err + bool"
  cr_sha256_hex :: "bytes \<Rightarrow> string"

definition min_password_length :: nat where
  "min_password_length = 8"

definition max_password_bytes :: nat where
  "max_password_bytes = 72"

definition require_password_value :: "string \<Rightarrow> string \<Rightarrow> err + string" where
  "require_password_value password label =
     (if py_strip password = [] then Inl (HTTPException 400 (label @ '' is required.''))
      else if length password < min_password_length
        then Inl (HTTPException 400 (label @ '' must be at least 8 characters.''))
      else Inr password)"

definition hash_password :: "crypto \<Rightarrow> bytes \<Rightarrow> string \<Rightarrow> err + string" where
  "hash_password cr salt password =
     (let encoded = utf8_encode password in
      if max_password_bytes < length encoded
        then Inl (HTTPException 400 ''Password must be at most 72 UTF-8 bytes.'')
      else cr_hashpw cr encoded salt)"

definition verify_password :: "crypto \<Rightarrow> string \<Rightarrow> string \<Rightarrow> err + bool" where
  "verify_password cr password password_hash =
     (case cr_checkpw cr (take max_password_bytes (utf8_encode password)) (utf8_encode password_hash) of
        Inl (ValueError _) \<Rightarrow> Inr False
      | r \<Rightarrow> r)"

definition hash_api_key :: "crypto \<Rightarrow> string \<Rightarrow> string" where
  "hash_api_key cr raw_key = cr_sha256_hex cr (utf8_encode raw_key)"

text \<open>
  \<^verbatim>\<open>str.capitalize\<close>; the two letters of the range whose capital is outside it, 181 and 255, are kept.
\<close>

definition capitalize_first :: "char \<Rightarrow> string" where
  "capitalize_first c = (let n = (of_char c :: nat) in
     if (97 \<le> n \<and> n \<le> 122) \<or> (224 \<le> n \<and> n \<le> 254 \<and> n \<noteq> 247) then [char_of (n - 32)]
     else if n = 223 then ''Ss'' else [c])"

fun py_capitalize :: "string \<Rightarrow> string" where
  "py_capitalize [] = []"
| "py_capitalize (c # s) = capitalize_first c @ py_lower s"

definition provider_label :: "string \<Rightarrow> string" where
  "provider_label provider =
     (let n = py_lower (py_strip provider) in
      if n = ''google'' then ''Google'' else if n = ''github'' then ''GitHub''
      else if py_capitalize n \<noteq> [] then py_capitalize n else ''OAuth'')"

section \<open>Quotas and usage\<close>

text \<open>The float \<^verbatim>\<open>used / quota * 100\<close> is kept as its two integers; \<open>Full\<close> is \<^verbatim>\<open>100.0\<close>.\<close>

datatype percent = Quotient int int | Full

record quota_view =
  qv_unlimited :: bool
  qv_percent :: "percent option"
  qv_remaining_bytes :: "int option"

definition quota_metrics :: "int \<Rightarrow> int option \<Rightarrow> quota_view" where
  "quota_metrics used_bytes quota_bytes =
     (case quota_bytes of
        None \<Rightarrow> \<lparr>qv_unlimited = True, qv_percent = None, qv_remaining_bytes = None\<rparr>
      | Some q \<Rightarrow> \<lparr>qv_unlimited = False,
          qv_percent = Some (if 0 < q then Quotient used_bytes q else Full),
          qv_remaining_bytes = Some (max (q - used_bytes) 0)\<rparr>)"

definition effective_quota :: "(string \<Rightarrow> err + int) \<Rightarrow> user \<Rightarrow> err + int" where
  "effective_quota cfg u = (case us_quota_bytes u of Some q \<Rightarrow> Inr q | None \<Rightarrow> cfg ''default_user_quota_bytes'')"

record user_usage =
  uu_user :: user
  uu_quota_bytes :: int
  uu_usage :: usage
  uu_quota :: quota_view

text \<open>The entry of a listing: the fields of the user that it copies are read off \<open>uu_user\<close>.\<close>

definition user_item :: "user \<Rightarrow> int \<Rightarrow> usage \<Rightarrow> user_usage" where
  "user_item u quota ug = \<lparr>uu_user = u, uu_quota_bytes = quota, uu_usage = ug,
     uu_quota = quota_metrics (ug_storage_used_bytes ug) (Some quota)\<rparr>"

fun map_results :: "('a \<Rightarrow> err + 'b) \<Rightarrow> 'a list \<Rightarrow> err + 'b list" where
  "map_results f [] = Inr []"
| "map_results f (x # xs) = and_then (f x) (\<lambda>y. and_then (map_results f xs) (\<lambda>ys. Inr (y # ys)))"

definition get_or_zero :: "(string \<rightharpoonup> int) \<Rightarrow> string \<Rightarrow> int" where
  "get_or_zero m k = (case m k of Some n \<Rightarrow> n | None \<Rightarrow> 0)"

definition add_at :: "string \<Rightarrow> int \<Rightarrow> (string \<rightharpoonup> int) \<Rightarrow> (string \<rightharpoonup> int)" where
  "add_at k n m = m(k \<mapsto> get_or_zero m k + n)"

text \<open>\<^verbatim>\<open>list_users_with_usage\<close> adds up in three dictionaries, in one pass over the albums and one over the items.\<close>

definition count_albums :: "album list \<Rightarrow> (string \<rightharpoonup> int)" where
  "count_albums albums = fold (\<lambda>a c. case al_user_id a of None \<Rightarrow> c | Some u \<Rightarrow> add_at u 1 c) albums Map.empty"

definition count_media :: "media list \<Rightarrow> (string \<rightharpoonup> int) \<times> (string \<rightharpoonup> int)" where
  "count_media items =
     fold (\<lambda>m (used, n). case md_user_id m of None \<Rightarrow> (used, n)
       | Some u \<Rightarrow>
           let used1 = add_at u (md_file_size m) used;
               used2 = (if truthy (md_thumb_key m) \<and> md_thumb_key m \<noteq> Some (md_storage_key m)
                        then add_at u (or_zero (md_thumb_size m)) used1 else used1)
           in (used2, add_at u 1 n)) items (Map.empty, Map.empty)"

definition list_users_with_usage :: "(string \<Rightarrow> err + int) \<Rightarrow> db \<Rightarrow> err + user_usage list" where
  "list_users_with_usage cfg d =
     (let album_counts = count_albums (list_albums d); (used, n) = count_media (list_all_media d) in
      map_results (\<lambda>u. and_then (effective_quota cfg u) (\<lambda>quota.
        Inr (user_item u quota \<lparr>ug_album_count = get_or_zero album_counts (us_id u),
          ug_media_count = get_or_zero n (us_id u), ug_storage_used_bytes = get_or_zero used (us_id u)\<rparr>))) (list_users d))"

definition no_usage :: usage where
  "no_usage = \<lparr>ug_album_count = 0, ug_media_count = 0, ug_storage_used_bytes = 0\<rparr>"

record usage_page =
  up_items :: "user_usage list"
  up_total :: int
  up_limit :: int
  up_offset :: int
  up_has_more :: bool

definition list_users_with_usage_page ::
  "(string \<Rightarrow> err + int) \<Rightarrow> string option \<Rightarrow> bool option \<Rightarrow> bool option \<Rightarrow> int \<Rightarrow> int \<Rightarrow> db \<Rightarrow> err + usage_page" where
  "list_users_with_usage_page cfg q is_admin suspended lim ofs d =
     (let (users, total_rows) = list_users_filtered q is_admin suspended lim ofs d;
          summaries = summarize_users (map us_id users) d in
      and_then (map_results (\<lambda>u. and_then (effective_quota cfg u) (\<lambda>quota.
          Inr (user_item u quota (case map_of summaries (us_id u) of Some s \<Rightarrow> s | None \<Rightarrow> no_usage)))) users)
        (\<lambda>items. Inr \<lparr>up_items = items, up_total = total_rows, up_limit = lim, up_offset = ofs,
           up_has_more = (ofs + int (length items) < total_rows)\<rparr>))"

definition user_not_found :: err where
  "user_not_found = HTTPException 404 ''User not found.''"

definition user_usage_of :: "user \<Rightarrow> db \<Rightarrow> usage" where
  "user_usage_of u d =
     (let items = list_user_media (us_id u) d in
      \<lparr>ug_album_count = int (length (list_user_albums (us_id u) d)), ug_media_count = int (length items),
       ug_storage_used_bytes = storage_bytes_for_media items\<rparr>)"

definition get_user_with_usage_for_admin :: "(string \<Rightarrow> err + int) \<Rightarrow> string \<Rightarrow> db \<Rightarrow> err + user_usage" where
  "get_user_with_usage_for_admin cfg uid d =
     (case get_user uid d of
        None \<Rightarrow> Inl user_not_found
      | Some u \<Rightarrow> and_then (effective_quota cfg u) (\<lambda>quota. Inr (user_item u quota (user_usage_of u d))))"

text \<open>\<^verbatim>\<open>get_user_storage_stats_for_admin\<close> gives fewer fields of the same entry.\<close>

definition get_user_storage_stats_for_admin ::
  "(string \<Rightarrow> err + int) \<Rightarrow> string \<Rightarrow> db \<Rightarrow> err + (string \<times> string \<times> int \<times> usage \<times> quota_view)" where
  "get_user_storage_stats_for_admin cfg uid d =
     (case get_user uid d of
        None \<Rightarrow> Inl user_not_found
      | Some u \<Rightarrow> and_then (effective_quota cfg u) (\<lambda>quota.
          let ug = user_usage_of u d in
          Inr (us_id u, us_username u, quota, ug, quota_metrics (ug_storage_used_bytes ug) (Some quota))))"

record storage_overview =
  so_server_quota_bytes :: int
  so_total_storage_used_bytes :: int
  so_anonymous_storage_used_bytes :: int
  so_user_count :: int
  so_users :: "user_usage list"
  so_quota :: quota_view

definition global_storage_stats :: "(string \<Rightarrow> err + int) \<Rightarrow> db \<Rightarrow> err + storage_overview" where
  "global_storage_stats cfg d =
     (let all_media = list_all_media d; stored = storage_bytes_for_media all_media in
      and_then (list_users_with_usage cfg d) (\<lambda>users.
      and_then (cfg ''server_quota_bytes'') (\<lambda>server_quota.
        Inr \<lparr>so_server_quota_bytes = server_quota, so_total_storage_used_bytes = stored,
             so_anonymous_storage_used_bytes = storage_bytes_for_media (filter (\<lambda>m. md_user_id m = None) all_media),
             so_user_count = int (length (list_users d)),
             so_users = sort_key (\<lambda>x. - ug_storage_used_bytes (uu_usage x)) users,
             so_quota = quota_metrics stored (Some server_quota)\<rparr>)))"

record user_summary =
  sm_user :: user
  sm_has_password :: bool
  sm_quota_bytes :: int
  sm_usage :: usage
  sm_has_api_key :: bool
  sm_api_key_created_at :: "time option"
  sm_api_key_last_used_at :: "time option"
  sm_sso_providers :: "(string \<times> time) list"

definition get_current_user_summary :: "(string \<Rightarrow> err + int) \<Rightarrow> user \<Rightarrow> db \<Rightarrow> err + user_summary" where
  "get_current_user_summary cfg u d =
     (let key = get_api_key_for_user (us_id u) d in
      and_then (cfg ''default_user_quota_bytes'') (\<lambda>default_quota.
        Inr \<lparr>sm_user = u, sm_has_password = (us_password_hash u \<noteq> None),
             sm_quota_bytes = (case us_quota_bytes u of Some q \<Rightarrow> q | None \<Rightarrow> default_quota),
             sm_usage = user_usage_of u d, sm_has_api_key = (key \<noteq> None),
             sm_api_key_created_at = map_option ak_created_at key,
             sm_api_key_last_used_at = (case key of Some k \<Rightarrow> ak_last_used_at k | None \<Rightarrow> None),
             sm_sso_providers = map (\<lambda>l. (sl_provider l, sl_linked_at l)) (list_user_sso_links (us_id u) d)\<rparr>))"

section \<open>Creating and changing users\<close>

text \<open>What an operation draws: identifiers, salts, keys and readings of the clocks.\<close>

record account_inputs =
  ai_id :: string
  ai_salt :: bytes
  ai_raw_key :: string
  ai_now :: time
  ai_link_id :: string
  ai_linked_at :: time
  ai_dbnow :: time

definition emit_if :: "string option \<Rightarrow> (string \<Rightarrow> event) \<Rightarrow> world \<Rightarrow> world" where
  "emit_if cid ev w = (case cid of Some c \<Rightarrow> emit (ev c) w | None \<Rightarrow> w)"

definition issue_api_key ::
  "crypto \<Rightarrow> account_inputs \<Rightarrow> user \<Rightarrow> string option \<Rightarrow> string option \<Rightarrow> string \<Rightarrow> world \<Rightarrow> (err + api_key \<times> string) \<times> world" where
  "issue_api_key cr ai u cid actor source w =
     (let replaced = get_api_key_for_user (us_id u) (w_db w) \<noteq> None;
          k = \<lparr>ak_id = ai_id ai, ak_user_id = us_id u, ak_key_hash = hash_api_key cr (ai_raw_key ai),
               ak_created_at = ai_now ai, ak_last_used_at = None\<rparr> in
      case upsert_api_key k (w_db w) of
        Inl e \<Rightarrow> (Inl e, w)
      | Inr (_, d) \<Rightarrow>
          (Inr (k, ai_raw_key ai),
           emit_if cid (ApiKeyIssued (us_id u) (case actor of Some a \<Rightarrow> Some a | None \<Rightarrow> Some (us_id u)) replaced source)
             (with_db w d)))"

record user_create_input =
  uc_username :: string
  uc_email :: string
  uc_password :: "string option"
  uc_is_admin :: bool
  uc_quota_bytes :: "int option"
  uc_rate_limit_rpm :: "int option"
  uc_rate_limit_bph :: "int option"

text \<open>The checks of \<^verbatim>\<open>create_user\<close>, in their order, give the row to insert.\<close>

definition validate_new_user :: "crypto \<Rightarrow> account_inputs \<Rightarrow> user_create_input \<Rightarrow> db \<Rightarrow> err + user" where
  "validate_new_user cr ai p d =
     (let username = py_strip (uc_username p); email = py_lower (py_strip (uc_email p)) in
      if username = [] then Inl (HTTPException 400 ''Username is required.'')
      else if email = [] then Inl (HTTPException 400 ''Email is required.'')
      else and_then (case uc_password p of Some pw \<Rightarrow> require_password_value pw ''Password'' | None \<Rightarrow> Inr []) (\<lambda>_.
        if get_user_by_username username d \<noteq> None then Inl (HTTPException 409 ''Username already exists.'')
        else if get_user_by_email email d \<noteq> None then Inl (HTTPException 409 ''Email already exists.'')
        else and_then (if truthy (uc_password p) then and_then (hash_password cr (ai_salt ai) (the (uc_password p))) (\<lambda>h. Inr (Some h))
                       else Inr None) (\<lambda>h.
          Inr \<lparr>us_id = ai_id ai, us_username = username, us_email = email, us_password_hash = h,
               us_is_admin = uc_is_admin p, us_suspended = False, us_quota_bytes = uc_quota_bytes p,
               us_rate_limit_rpm = uc_rate_limit_rpm p, us_rate_limit_bph = uc_rate_limit_bph p,
               us_created_at = ai_now ai, us_updated_at = ai_now ai\<rparr>)))"

definition create_user ::
  "crypto \<Rightarrow> account_inputs \<Rightarrow> user_create_input \<Rightarrow> string \<Rightarrow> string option \<Rightarrow> string option \<Rightarrow> string \<Rightarrow> world \<Rightarrow> (err + user) \<times> world" where
  "create_user cr ai p meth cid actor source w =
     (case validate_new_user cr ai p (w_db w) of
        Inl e \<Rightarrow> (Inl e, w)
      | Inr u \<Rightarrow>
          (case repo_create_user u (w_db w) of
             Inl e \<Rightarrow> (Inl e, w)
           | Inr (_, d) \<Rightarrow>
               (Inr u, emit_if cid (UserRegistered (us_id u)
                  (case actor of Some a \<Rightarrow> Some a | None \<Rightarrow> if meth = ''registration'' then Some (us_id u) else None) meth source)
                  (with_db w d))))"

record user_update_input =
  ud_is_admin :: "bool patch"
  ud_suspended :: "bool option"
  ud_quota_bytes :: "int option patch"
  ud_rate_limit_rpm :: "int option patch"
  ud_rate_limit_bph :: "int option patch"
  ud_password :: "string option"

definition patched :: "'a patch \<Rightarrow> 'a \<Rightarrow> 'a" where
  "patched p x = (case p of Given y \<Rightarrow> y | UNSET \<Rightarrow> x)"

definition limit_change :: "string \<Rightarrow> int option patch \<Rightarrow> int option \<Rightarrow> (string \<times> int option \<times> int option) list" where
  "limit_change name p old = (if patched p old \<noteq> old then [(name, old, patched p old)] else [])"

definition change_admin :: "user_update_input \<Rightarrow> string \<Rightarrow> string option \<Rightarrow> user \<Rightarrow> world \<Rightarrow> world" where
  "change_admin p cid actor u w =
     (let b = patched (ud_is_admin p) (us_is_admin u) in
      if b \<noteq> us_is_admin u then emit (UserAdminStatusChanged (us_id u) actor (us_is_admin u) b ''api'' cid) w else w)"

definition change_suspension :: "time \<Rightarrow> user_update_input \<Rightarrow> string \<Rightarrow> string option \<Rightarrow> user \<Rightarrow> world \<Rightarrow> world" where
  "change_suspension dbnow p cid actor u w =
     (case ud_suspended p of
        None \<Rightarrow> w
      | Some s \<Rightarrow>
          if s = us_suspended u then w
          else emit (UserSuspended (us_id u) actor s ''api'' cid)
            (if s then with_db w (snd (revoke_sharex_delete_capabilities_for_user dbnow (us_id u) (w_db w))) else w))"

definition updated_user :: "user_update_input \<Rightarrow> user \<Rightarrow> user" where
  "updated_user p u = u\<lparr>us_is_admin := patched (ud_is_admin p) (us_is_admin u),
     us_suspended := (case ud_suspended p of Some s \<Rightarrow> s | None \<Rightarrow> us_suspended u),
     us_quota_bytes := patched (ud_quota_bytes p) (us_quota_bytes u),
     us_rate_limit_rpm := patched (ud_rate_limit_rpm p) (us_rate_limit_rpm u),
     us_rate_limit_bph := patched (ud_rate_limit_bph p) (us_rate_limit_bph u)\<rparr>"

definition limits_changes :: "user_update_input \<Rightarrow> user \<Rightarrow> (string \<times> int option \<times> int option) list" where
  "limits_changes p u = limit_change ''quota_bytes'' (ud_quota_bytes p) (us_quota_bytes u)
     @ limit_change ''rate_limit_rpm'' (ud_rate_limit_rpm p) (us_rate_limit_rpm u)
     @ limit_change ''rate_limit_bph'' (ud_rate_limit_bph p) (us_rate_limit_bph u)"

definition new_password_hash :: "crypto \<Rightarrow> bytes \<Rightarrow> string \<Rightarrow> string \<Rightarrow> err + string" where
  "new_password_hash cr salt password label = and_then (require_password_value password label) (hash_password cr salt)"

definition save_user :: "time \<Rightarrow> user \<Rightarrow> world \<Rightarrow> (err + user) \<times> world" where
  "save_user dbnow u w = (let (r, d) = repo_update_user dbnow u (w_db w) in (and_then r (\<lambda>_. Inr u), with_db w d))"

definition update_user ::
  "crypto \<Rightarrow> account_inputs \<Rightarrow> string \<Rightarrow> user_update_input \<Rightarrow> string \<Rightarrow> string option \<Rightarrow> world \<Rightarrow> (err + user) \<times> world" where
  "update_user cr ai uid p cid actor w =
     (case get_user uid (w_db w) of
        None \<Rightarrow> (Inl user_not_found, w)
      | Some u \<Rightarrow>
          let w1 = change_suspension (ai_dbnow ai) p cid actor u (change_admin p cid actor u w);
              u1 = updated_user p u in
          (case (case ud_password p of None \<Rightarrow> Inr (us_password_hash u1)
                 | Some pw \<Rightarrow> and_then (new_password_hash cr (ai_salt ai) pw ''Password'') (\<lambda>h. Inr (Some h))) of
             Inl e \<Rightarrow> (Inl e, w1)
           | Inr h \<Rightarrow>
               let changes = limits_changes p u;
                   w2 = (if changes \<noteq> [] then emit (UserLimitsChanged (us_id u1) actor changes ''api'' cid) w1 else w1)
               in save_user (ai_dbnow ai) (u1\<lparr>us_password_hash := h\<rparr>) w2))"

text \<open>The pattern of the three operations below: save the changed user, then tell.\<close>

definition save_then_emit :: "time \<Rightarrow> user \<Rightarrow> (world \<Rightarrow> world) \<Rightarrow> world \<Rightarrow> (err + user) \<times> world" where
  "save_then_emit dbnow u tell w =
     (case save_user dbnow u w of (Inl e, w1) \<Rightarrow> (Inl e, w1) | (Inr u', w1) \<Rightarrow> (Inr u', tell w1))"

definition set_user_admin_status ::
  "time \<Rightarrow> string \<Rightarrow> bool \<Rightarrow> string \<Rightarrow> string option \<Rightarrow> string \<Rightarrow> world \<Rightarrow> (err + user) \<times> world" where
  "set_user_admin_status dbnow uid is_admin cid actor source w =
     (case get_user uid (w_db w) of
        None \<Rightarrow> (Inl user_not_found, w)
      | Some u \<Rightarrow>
          if us_is_admin u = is_admin then (Inr u, w)
          else save_then_emit dbnow (u\<lparr>us_is_admin := is_admin\<rparr>)
            (emit (UserAdminStatusChanged (us_id u) actor (us_is_admin u) is_admin source cid)) w)"

definition reset_user_password ::
  "crypto \<Rightarrow> account_inputs \<Rightarrow> string \<Rightarrow> string \<Rightarrow> string \<Rightarrow> string option \<Rightarrow> world \<Rightarrow> (err + user) \<times> world" where
  "reset_user_password cr ai uid new_password cid actor w =
     (case get_user uid (w_db w) of
        None \<Rightarrow> (Inl user_not_found, w)
      | Some u \<Rightarrow>
          (case new_password_hash cr (ai_salt ai) new_password ''New password'' of
             Inl e \<Rightarrow> (Inl e, w)
           | Inr h \<Rightarrow> save_then_emit (ai_dbnow ai) (u\<lparr>us_password_hash := Some h\<rparr>)
                (emit (UserPasswordReset (us_id u) actor ''api'' cid)) w))"

definition check_current_password :: "crypto \<Rightarrow> user \<Rightarrow> string \<Rightarrow> err + unit" where
  "check_current_password cr u current_password =
     (case us_password_hash u of
        None \<Rightarrow> Inr ()
      | Some h \<Rightarrow> and_then (verify_password cr current_password h) (\<lambda>ok.
          if ok then Inr () else Inl (HTTPException 403 ''Current password is incorrect.'')))"

definition change_password ::
  "crypto \<Rightarrow> account_inputs \<Rightarrow> user \<Rightarrow> string \<Rightarrow> string \<Rightarrow> string option \<Rightarrow> string \<Rightarrow> world \<Rightarrow> (err + user) \<times> world" where
  "change_password cr ai u current_password new_password cid source w =
     (case and_then (check_current_password cr u current_password)
            (\<lambda>_. new_password_hash cr (ai_salt ai) new_password ''New password'') of
        Inl e \<Rightarrow> (Inl e, w)
      | Inr h \<Rightarrow> save_then_emit (ai_dbnow ai) (u\<lparr>us_password_hash := Some h\<rparr>)
           (emit_if cid (UserPasswordChanged (us_id u) (Some (us_id u)) source)) w)"

definition authenticate_local_user :: "crypto \<Rightarrow> string \<Rightarrow> string \<Rightarrow> db \<Rightarrow> err + user" where
  "authenticate_local_user cr login_text password d =
     (let login = py_strip login_text in
      if login = [] \<or> password = [] then Inl (HTTPException 400 ''Login and password are required.'')
      else
        (case (case get_user_by_email (py_lower login) d of Some u \<Rightarrow> Some u | None \<Rightarrow> get_user_by_username login d) of
           None \<Rightarrow> Inl (HTTPException 401 ''Invalid credentials.'')
         | Some u \<Rightarrow>
             (case us_password_hash u of
                None \<Rightarrow> Inl (HTTPException 401 ''Invalid credentials.'')
              | Some h \<Rightarrow>
                  if us_suspended u then Inl (HTTPException 403 ''User is not allowed to authenticate.'')
                  else and_then (verify_password cr password h) (\<lambda>ok.
                    if ok then Inr u else Inl (HTTPException 401 ''Invalid credentials.'')))))"

text \<open>\<^verbatim>\<open>AppState._apply_bootstrap_admin_promotion\<close>: the status it records, and the state.\<close>

record bootstrap_status =
  bs_enabled :: bool
  bs_configured_username :: "string option"
  bs_matched :: bool
  bs_already_admin :: bool
  bs_promoted :: bool
  bs_user_id :: "string option"

definition apply_bootstrap_admin_promotion ::
  "time \<Rightarrow> string option \<Rightarrow> world \<Rightarrow> (err + bootstrap_status) \<times> world" where
  "apply_bootstrap_admin_promotion dbnow promote w =
     (let st = \<lparr>bs_enabled = truthy promote, bs_configured_username = promote, bs_matched = False,
                bs_already_admin = False, bs_promoted = False, bs_user_id = None\<rparr> in
      if \<not> truthy promote then (Inr st, w)
      else
        (case get_user_by_username (the promote) (w_db w) of
           None \<Rightarrow> (Inr st, w)
         | Some u \<Rightarrow>
             let st1 = st\<lparr>bs_matched := True, bs_already_admin := us_is_admin u, bs_user_id := Some (us_id u)\<rparr> in
             if us_is_admin u then (Inr st1, w)
             else
               (case save_user dbnow (u\<lparr>us_is_admin := True\<rparr>) w of
                  (Inl e, w1) \<Rightarrow> (Inl e, w1)
                | (Inr _, w1) \<Rightarrow> (Inr (st1\<lparr>bs_promoted := True\<rparr>), w1))))"

section \<open>Deleting a user\<close>

text \<open>The loop over \<^verbatim>\<open>storage.delete\<close> is \<open>del_until\<close>: the first call that raises ends it.\<close>

definition delete_user_by_id ::
  "time \<Rightarrow> string \<Rightarrow> string \<Rightarrow> string \<Rightarrow> string option \<Rightarrow> world \<Rightarrow> (err + int \<times> int) \<times> world" where
  "delete_user_by_id dbnow uid cid deleted_by actor w =
     (case get_user uid (w_db w) of
        None \<Rightarrow> (Inl user_not_found, w)
      | Some u \<Rightarrow>
          let w1 = with_db w (snd (revoke_sharex_delete_capabilities_for_user dbnow (us_id u) (w_db w)));
              albums = list_user_albums (us_id u) (w_db w1);
              items = list_user_media (us_id u) (w_db w1) in
          (case del_until st_delete (storage_keys_for_media items) (w_store w1) of
             (Inl e, s) \<Rightarrow> (Inl e, with_store w1 s)
           | (Inr _, s) \<Rightarrow>
               (case repo_delete_user (us_id u) (w_db w1) of
                  ((None, _, _), d) \<Rightarrow> (Inl user_not_found, with_db (with_store w1 s) d)
                | ((Some gone, gone_albums, gone_media), d) \<Rightarrow>
                    (Inr (int (length albums), int (length items)),
                     emit (UserDeleted (us_id gone) actor
                       (if deleted_by = ''admin'' then ''admin'' else if deleted_by = ''self'' then ''user'' else ''system'')
                       deleted_by (int (length gone_albums)) (int (length gone_media)) ''api'' cid)
                       (with_db (with_store w1 s) d)))))"

definition delete_user_account :: "time \<Rightarrow> user \<Rightarrow> string \<Rightarrow> world \<Rightarrow> (err + int \<times> int) \<times> world" where
  "delete_user_account dbnow u cid w = delete_user_by_id dbnow (us_id u) cid ''self'' (Some (us_id u)) w"

text \<open>
  The confirmation. \<open>dumps\<close> and \<open>loads\<close> are those of \<^verbatim>\<open>AccountDeleteReauthTokenManager\<close> with the secret
  key and the clock applied.
\<close>

record reauth =
  ra_user_id :: string
  ra_provider :: string
  ra_provider_uid :: string

definition issue_account_delete_reauth_token ::
  "(reauth \<Rightarrow> string) \<Rightarrow> user \<Rightarrow> string \<Rightarrow> string \<Rightarrow> db \<Rightarrow> err + string" where
  "issue_account_delete_reauth_token dumps u provider provider_uid d =
     (case get_user_sso_link provider provider_uid d of
        Some l \<Rightarrow> if sl_user_id l \<noteq> us_id u
                  then Inl (HTTPException 403 ''The selected OAuth account is not linked to this user.'')
                  else Inr (dumps \<lparr>ra_user_id = us_id u, ra_provider = provider, ra_provider_uid = provider_uid\<rparr>)
      | None \<Rightarrow> Inl (HTTPException 403 ''The selected OAuth account is not linked to this user.''))"

record deletion_confirmation =
  dc_method :: string
  dc_current_password :: "string option"
  dc_reauth_token :: "string option"

definition reauth_invalid :: err where
  "reauth_invalid = HTTPException 403 ''OAuth re-authentication has expired or is invalid.''"

definition confirm_by_password :: "crypto \<Rightarrow> user \<Rightarrow> string option \<Rightarrow> err + unit" where
  "confirm_by_password cr u pw =
     (if us_password_hash u = None then Inl (HTTPException 400 ''This account does not have a local password.'')
      else
        let current = py_strip (or_str pw []) in
        if current = [] then Inl (HTTPException 400 ''Current password is required.'')
        else check_current_password cr u current)"

definition confirm_by_reauth :: "(string \<Rightarrow> err + reauth) \<Rightarrow> user \<Rightarrow> string option \<Rightarrow> db \<Rightarrow> err + unit" where
  "confirm_by_reauth loads u tok d =
     (let t = py_strip (or_str tok []) in
      if t = [] then Inl (HTTPException 400 ''OAuth re-authentication is required.'')
      else
        (case loads t of
           Inl (ValueError _) \<Rightarrow> Inl reauth_invalid
         | Inl e \<Rightarrow> Inl e
         | Inr r \<Rightarrow>
             if ra_user_id r \<noteq> us_id u then Inl reauth_invalid
             else if \<not> (\<exists>l\<in>set (list_user_sso_links (us_id u) d). sl_provider l = ra_provider r \<and> sl_provider_uid l = ra_provider_uid r)
               then Inl reauth_invalid
             else Inr ()))"

definition validate_account_deletion_confirmation ::
  "crypto \<Rightarrow> (string \<Rightarrow> err + reauth) \<Rightarrow> user \<Rightarrow> deletion_confirmation \<Rightarrow> db \<Rightarrow> err + unit" where
  "validate_account_deletion_confirmation cr loads u c d =
     (let m = py_lower (py_strip (dc_method c)) in
      if m = ''password'' then confirm_by_password cr u (dc_current_password c)
      else if m = ''oauth_reauth'' then confirm_by_reauth loads u (dc_reauth_token c) d
      else Inl (HTTPException 400 ''Unsupported account deletion confirmation method.''))"

section \<open>Signing in with an OAuth account\<close>

record oauth_identity =
  oi_provider :: string
  oi_provider_uid :: string
  oi_email :: string
  oi_email_verified :: bool
  oi_display_name :: "string option"

definition is_lower_alnum :: "char \<Rightarrow> bool" where
  "is_lower_alnum c = (let n = (of_char c :: nat) in (97 \<le> n \<and> n \<le> 122) \<or> (48 \<le> n \<and> n \<le> 57))"

definition username_seed :: "oauth_identity \<Rightarrow> string" where
  "username_seed i =
     (let from_email = fst (partition_at (CHR 0x40) (oi_email i));
          from_name = filter is_lower_alnum (py_lower (or_str (oi_display_name i) [])) in
      if truthy (oi_display_name i) \<and> from_name \<noteq> [] then from_name else from_email)"

definition username_candidate :: "oauth_identity \<Rightarrow> string" where
  "username_candidate i =
     (let n = take 20 (filter is_lower_alnum (py_lower (username_seed i))) in if n \<noteq> [] then n else ''user'')"

text \<open>The loop over \<^verbatim>\<open>range(2, 1000)\<close>.\<close>

function first_free_username :: "string \<Rightarrow> nat \<Rightarrow> db \<Rightarrow> err + string" where
  "first_free_username candidate i d =
     (if 1000 \<le> i then Inl (HTTPException 409 ''Unable to generate a unique username for this OAuth account.'')
      else if get_user_by_username (take 16 candidate @ show_nat i) d = None then Inr (take 16 candidate @ show_nat i)
      else first_free_username candidate (i + 1) d)"
  by pat_completeness auto
termination
  by (relation "measure (\<lambda>(_, i, _). 1000 - i)") auto

declare first_free_username.simps [simp del]

definition generate_unique_username :: "oauth_identity \<Rightarrow> db \<Rightarrow> err + string" where
  "generate_unique_username i d =
     (let candidate = username_candidate i in
      if get_user_by_username candidate d = None then Inr candidate
      else first_free_username candidate 2 d)"

definition build_user_sso_link :: "account_inputs \<Rightarrow> string \<Rightarrow> string \<Rightarrow> string \<Rightarrow> user_sso_link" where
  "build_user_sso_link ai uid provider provider_uid =
     \<lparr>sl_id = ai_link_id ai, sl_user_id = uid, sl_provider = provider, sl_provider_uid = provider_uid,
      sl_linked_at = ai_linked_at ai\<rparr>"

definition add_link :: "account_inputs \<Rightarrow> oauth_identity \<Rightarrow> user \<Rightarrow> string \<Rightarrow> world \<Rightarrow> (err + user \<times> string) \<times> world" where
  "add_link ai i u outcome w =
     (case create_user_sso_link (build_user_sso_link ai (us_id u) (oi_provider i) (oi_provider_uid i)) (w_db w) of
        Inl e \<Rightarrow> (Inl e, w)
      | Inr (_, d) \<Rightarrow> (Inr (u, outcome), with_db w d))"

text \<open>With a link already there, its user signs in.\<close>

definition existing_link_login :: "oauth_identity \<Rightarrow> user option \<Rightarrow> user_sso_link \<Rightarrow> db \<Rightarrow> err + user \<times> string" where
  "existing_link_login i current l d =
     (case get_user (sl_user_id l) d of
        None \<Rightarrow> Inl (HTTPException 403 ''Linked account is no longer available.'')
      | Some u \<Rightarrow>
          if us_suspended u then Inl (HTTPException 403 ''User is not allowed to authenticate.'')
          else if (case current of Some c \<Rightarrow> us_id c \<noteq> us_id u | None \<Rightarrow> False)
            then Inl (HTTPException 409 (''This '' @ provider_label (oi_provider i) @ '' account is already linked to a different user.''))
          else Inr (u, ''existing_link''))"

definition register_by_oauth ::
  "crypto \<Rightarrow> account_inputs \<Rightarrow> oauth_identity \<Rightarrow> string option \<Rightarrow> string \<Rightarrow> world \<Rightarrow> (err + user \<times> string) \<times> world" where
  "register_by_oauth cr ai i cid source w =
     (if get_user_by_email (oi_email i) (w_db w) \<noteq> None
        then (Inl (HTTPException 409 (''An account with this email already exists. Sign in locally first, then connect ''
                @ provider_label (oi_provider i) @ '' from Settings.'')), w)
      else
        (case generate_unique_username i (w_db w) of
           Inl e \<Rightarrow> (Inl e, w)
         | Inr name \<Rightarrow>
             (case create_user cr ai \<lparr>uc_username = name, uc_email = oi_email i, uc_password = None, uc_is_admin = False,
                     uc_quota_bytes = None, uc_rate_limit_rpm = None, uc_rate_limit_bph = None\<rparr>
                     ''oauth'' cid None source w of
                (Inl e, w1) \<Rightarrow> (Inl e, w1)
              | (Inr u, w1) \<Rightarrow> add_link ai i u ''created'' w1)))"

definition complete_oauth_login ::
  "crypto \<Rightarrow> account_inputs \<Rightarrow> oauth_identity \<Rightarrow> user option \<Rightarrow> bool \<Rightarrow> string option \<Rightarrow> string \<Rightarrow> world
     \<Rightarrow> (err + user \<times> string) \<times> world" where
  "complete_oauth_login cr ai i current allow_registration cid source w =
     (if py_strip (oi_provider_uid i) = [] \<or> py_strip (oi_email i) = []
        then (Inl (HTTPException 403 (provider_label (oi_provider i) @ '' sign-in could not be verified.'')), w)
      else if \<not> oi_email_verified i
        then (Inl (HTTPException 403 (''Your '' @ provider_label (oi_provider i) @ '' account must have a verified email address.'')), w)
      else
        (case get_user_sso_link (oi_provider i) (oi_provider_uid i) (w_db w) of
           Some l \<Rightarrow> (existing_link_login i current l (w_db w), w)
         | None \<Rightarrow>
             (case current of
                Some u \<Rightarrow> add_link ai i u ''linked'' w
              | None \<Rightarrow>
                  if \<not> allow_registration then (Inl (HTTPException 403 ''Registration is disabled.''), w)
                  else register_by_oauth cr ai i cid source w)))"

definition disconnect_oauth_provider :: "user \<Rightarrow> string \<Rightarrow> world \<Rightarrow> (err + unit) \<times> world" where
  "disconnect_oauth_provider u provider w =
     (let links = list_user_sso_links (us_id u) (w_db w);
          remaining = filter (\<lambda>l. sl_provider l \<noteq> provider) links in
      if length remaining = length links then (Inl (HTTPException 404 ''OAuth provider is not linked.''), w)
      else if us_password_hash u = None \<and> remaining = []
        then (Inl (HTTPException 400 (''You must keep at least one login method. Set a password before disconnecting ''
                @ provider_label provider @ ''.'')), w)
      else (Inr (), with_db w (snd (delete_user_sso_link (us_id u) provider (w_db w)))))"

end
