(* ===== verification/Account_Facts.thy ===== *)
theory Account_Facts
  imports Accounts Samples
begin

text \<open>
  Facts shared by the theorems on accounts: what a saved row reads back as, how a password set by one
  operation meets the check of another, and sample accounts.
\<close>

section \<open>Reading a user back\<close>

lemma row_to_user_sel [simp]:
  "us_id (row_to_user d r) = ur_id r" "us_username (row_to_user d r) = ur_username r"
  "us_email (row_to_user d r) = ur_email r" "us_password_hash (row_to_user d r) = ur_password_hash r"
  "us_is_admin (row_to_user d r) = ur_is_admin r" "us_suspended (row_to_user d r) = ur_is_suspended r"
  "us_quota_bytes (row_to_user d r) = ur_quota_bytes r"
  by (simp_all add: row_to_user_def Let_def)

lemma row_to_user_cong: "db_rate_limits d' = db_rate_limits d \<Longrightarrow> row_to_user d' r = row_to_user d r"
  by (simp add: row_to_user_def)

lemma user_keys: "db_wf d \<Longrightarrow> keys_distinct ur_id (db_users d) \<and> keys_distinct ur_username (db_users d) \<and> keys_distinct ur_email (db_users d)"
  by (simp add: db_wf_def keys_ok_def)

lemma get_user_row: "db_wf d \<Longrightarrow> r \<in> set (db_users d) \<Longrightarrow> get_user (ur_id r) d = Some (row_to_user d r)"
  using find_row_unique [of ur_id "db_users d" r] by (simp add: get_user_def user_keys)

lemma get_user_by_email_row: "db_wf d \<Longrightarrow> r \<in> set (db_users d) \<Longrightarrow> get_user_by_email (ur_email r) d = Some (row_to_user d r)"
  using find_row_unique [of ur_email "db_users d" r] by (simp add: get_user_by_email_def user_keys)

lemma get_user_by_username_row:
  "db_wf d \<Longrightarrow> r \<in> set (db_users d) \<Longrightarrow> get_user_by_username (ur_username r) d = Some (row_to_user d r)"
  using find_row_unique [of ur_username "db_users d" r] by (simp add: get_user_by_username_def user_keys)

lemma get_user_SomeE:
  assumes "get_user uid d = Some u"
  obtains r where "r \<in> set (db_users d)" "ur_id r = uid" "u = row_to_user d r"
  using assms by (auto simp: get_user_def dest: find_row_SomeD)

lemma rate_limits_read_back:
  assumes "set_rate_limit_overrides uid rpm bph d = Inr d'"
  shows "find_row rl_user_id uid (db_rate_limits d') =
    (if rpm = None \<and> bph = None then None else Some \<lparr>rl_user_id = uid, rl_rpm = rpm, rl_bph = bph\<rparr>)"
proof (cases "rpm = None \<and> bph = None")
  case True
  with assms show ?thesis by (auto simp: set_rate_limit_overrides_def find_row_None_iff)
next
  case False
  show ?thesis
  proof (cases "find_row rl_user_id uid (db_rate_limits d)")
    case None
    with False assms show ?thesis
      by (auto simp: set_rate_limit_overrides_def find_row_append find_row_Cons split: if_splits)
  next
    case (Some l)
    then have "rl_user_id l = uid" by (auto dest: find_row_SomeD)
    with False assms Some show ?thesis
      by (auto simp: set_rate_limit_overrides_def find_row_update_where split: if_splits)
  qed
qed

lemma find_rate_limits_other:
  assumes "set_rate_limit_overrides uid rpm bph d = Inr d'" "keys_distinct rl_user_id (db_rate_limits d)" "v \<noteq> uid"
  shows "find_row rl_user_id v (db_rate_limits d') = find_row rl_user_id v (db_rate_limits d)"
  using assms
  by (cases "find_row rl_user_id v (db_rate_limits d)")
    (auto simp: set_rate_limit_overrides_def find_row_append find_row_Cons find_row_update_where find_row_delete_where
      split: if_splits dest: find_row_SomeD)

text \<open>A created user is in the tables exactly as it was built.\<close>

lemma repo_create_user_row:
  assumes "repo_create_user u d = Inr (u', d')"
  shows "db_users d' = db_users d @ [new_user_row u]" "row_to_user d' (new_user_row u) = u"
    "db_media d' = db_media d" "db_albums d' = db_albums d" "db_sso_links d' = db_sso_links d"
proof -
  let ?d = "d\<lparr>db_users := db_users d @ [new_user_row u]\<rparr>"
  from assms have s: "set_rate_limit_overrides (us_id u) (us_rate_limit_rpm u) (us_rate_limit_bph u) ?d = Inr d'"
    by (auto simp: repo_create_user_def split: if_splits)
  from set_rate_limit_overrides_frame [OF this]
  show "db_users d' = db_users d @ [new_user_row u]" "db_media d' = db_media d" "db_albums d' = db_albums d"
    "db_sso_links d' = db_sso_links d" by auto
  from rate_limits_read_back [OF s] show "row_to_user d' (new_user_row u) = u"
    by (simp add: row_to_user_def new_user_row_def Let_def)
qed

text \<open>A saved user reads back with the database's time of the update.\<close>

lemma repo_update_user_ok:
  assumes "repo_update_user now u d = (Inr u', d')" "get_user (us_id u) d = Some u0" "db_wf d"
    and "us_created_at u0 = us_created_at u"
  shows "u' = u\<lparr>us_updated_at := now\<rparr>" "get_user (us_id u) d' = Some u'" "db_wf d'"
    "db_users d' = update_where (\<lambda>r. ur_id r = us_id u) (user_row_update now u) (db_users d)"
    "db_media d' = db_media d" "db_albums d' = db_albums d" "db_sso_links d' = db_sso_links d" "db_sharex d' = db_sharex d"
proof -
  let ?us = "update_where (\<lambda>r. ur_id r = us_id u) (user_row_update now u) (db_users d)"
  from assms(1) have s: "set_rate_limit_overrides (us_id u) (us_rate_limit_rpm u) (us_rate_limit_bph u) (d\<lparr>db_users := ?us\<rparr>) = Inr d'"
    and u': "user_read_back (us_id u) d' = Inr u'"
    by (auto simp: repo_update_user_def split: if_splits sum.splits)
  show us: "db_users d' = ?us" and "db_media d' = db_media d" "db_albums d' = db_albums d" "db_sso_links d' = db_sso_links d"
    "db_sharex d' = db_sharex d"
    using set_rate_limit_overrides_frame [OF s] by auto
  show g: "get_user (us_id u) d' = Some u'" using u' by (auto simp: user_read_back_def split: option.splits)
  show "db_wf d'" using db_wf_repo_update_user [OF assms(3), of now u] assms(1) by simp
  from assms(2) obtain r where r: "find_row ur_id (us_id u) (db_users d) = Some r" and u0: "u0 = row_to_user d r"
    by (auto simp: get_user_def)
  then have rid: "ur_id r = us_id u" by (auto dest: find_row_SomeD)
  have "u' = row_to_user d' (user_row_update now u r)"
    using g r rid by (simp add: get_user_def us find_row_update_where)
  moreover have "ur_created_at r = us_created_at u"
    using assms(4) u0 by (simp add: row_to_user_def Let_def)
  ultimately show "u' = u\<lparr>us_updated_at := now\<rparr>"
    using rate_limits_read_back [OF s] rid by (simp add: row_to_user_def user_row_update_def Let_def)
qed

lemma repo_update_user_other:
  assumes "repo_update_user now u d = (r, d')" "db_wf d" "v \<noteq> us_id u"
  shows "get_user v d' = get_user v d"
proof (cases "d' = d")
  case False
  let ?us = "update_where (\<lambda>r. ur_id r = us_id u) (user_row_update now u) (db_users d)"
  from assms(1) False have s: "set_rate_limit_overrides (us_id u) (us_rate_limit_rpm u) (us_rate_limit_bph u) (d\<lparr>db_users := ?us\<rparr>) = Inr d'"
    by (auto simp: repo_update_user_def split: if_splits sum.splits)
  have "keys_distinct rl_user_id (db_rate_limits (d\<lparr>db_users := ?us\<rparr>))" using assms(2) by (simp add: db_wf_def keys_ok_def)
  from find_rate_limits_other [OF s this assms(3)]
  have rl: "find_row rl_user_id v (db_rate_limits d') = find_row rl_user_id v (db_rate_limits d)" by simp
  have "find_row ur_id v (db_users d') = find_row ur_id v (db_users d)"
    using set_rate_limit_overrides_frame [OF s] assms(3)
    by (cases "find_row ur_id v (db_users d)") (auto simp: find_row_update_where dest: find_row_SomeD)
  then show ?thesis
    using rl by (cases "find_row ur_id v (db_users d)") (auto simp: get_user_def row_to_user_def dest: find_row_SomeD)
qed simp

text \<open>A refused save changes nothing, a row that is there.\<close>

lemma repo_update_user_refused:
  assumes "repo_update_user now u d = (Inl e, d')" "user_exists d (us_id u)"
  shows "d' = d"
proof (rule ccontr)
  assume ne: "d' \<noteq> d"
  let ?us = "update_where (\<lambda>r. ur_id r = us_id u) (user_row_update now u) (db_users d)"
  from assms(1) ne have s: "set_rate_limit_overrides (us_id u) (us_rate_limit_rpm u) (us_rate_limit_bph u) (d\<lparr>db_users := ?us\<rparr>) = Inr d'"
    and g: "get_user (us_id u) d' = None"
    by (auto simp: repo_update_user_def user_read_back_def split: if_splits sum.splits option.splits)
  from assms(2) obtain r where "r \<in> set (db_users d)" "ur_id r = us_id u" by (auto simp: user_exists_def)
  then have "user_row_update now u r \<in> set ?us" by (force simp: set_update_where)
  with g \<open>ur_id r = us_id u\<close> show False
    using set_rate_limit_overrides_frame [OF s] by (auto simp: get_user_def find_row_None_iff)
qed

lemma db_wf_sso_upd:
  assumes "db_wf d" "keys_distinct sl_id ls" "keys_distinct (\<lambda>l. (sl_provider l, sl_provider_uid l)) ls"
    "\<And>l. l \<in> set ls \<Longrightarrow> user_exists d (sl_user_id l)"
  shows "db_wf (d\<lparr>db_sso_links := ls\<rparr>)"
proof -
  have u: "user_exists (d\<lparr>db_sso_links := ls\<rparr>) = user_exists d" "album_exists (d\<lparr>db_sso_links := ls\<rparr>) = album_exists d"
    by (auto simp: user_exists_def album_exists_def fun_eq_iff)
  have o: "opt_user_exists (d\<lparr>db_sso_links := ls\<rparr>) = opt_user_exists d"
  proof
    fix v show "opt_user_exists (d\<lparr>db_sso_links := ls\<rparr>) v = opt_user_exists d v" by (cases v) (simp_all add: u)
  qed
  show ?thesis using assms by (simp add: db_wf_def keys_ok_def fks_ok_def u o)
qed

section \<open>Passwords\<close>

text \<open>What \<^verbatim>\<open>bcrypt\<close> documents: a hash it made is ASCII text and accepts the password it was made from.\<close>

definition bcrypt_ok :: "crypto \<Rightarrow> bool" where
  "bcrypt_ok cr = (\<forall>pw salt h. cr_hashpw cr pw salt = Inr h \<longrightarrow> utf8_encode h = h \<and> cr_checkpw cr pw h = Inr True)"

lemma hashed_password_verifies:
  assumes "bcrypt_ok cr" "hash_password cr salt pw = Inr h"
  shows "verify_password cr pw h = Inr True"
  using assms by (auto simp: bcrypt_ok_def hash_password_def verify_password_def Let_def max_password_bytes_def split: if_splits)

lemma new_password_hash_verifies:
  assumes "bcrypt_ok cr" "new_password_hash cr salt pw label = Inr h"
  shows "verify_password cr pw h = Inr True" "py_strip pw \<noteq> []" "8 \<le> length pw" "length (utf8_encode pw) \<le> 72"
  using assms hashed_password_verifies [OF assms(1), of salt pw h]
  by (auto simp: new_password_hash_def require_password_value_def min_password_length_def hash_password_def
      max_password_bytes_def Let_def split: if_splits)

lemma password_nonempty: "8 \<le> length pw \<Longrightarrow> pw \<noteq> ([] :: string)"
  by auto

text \<open>Signing in as the user a login names.\<close>

definition named_by :: "string \<Rightarrow> db \<Rightarrow> user option" where
  "named_by login d =
     (case get_user_by_email (py_lower (py_strip login)) d of Some u \<Rightarrow> Some u | None \<Rightarrow> get_user_by_username (py_strip login) d)"

lemma authenticate_ok_iff:
  "authenticate_local_user cr login pw d = Inr u \<longleftrightarrow>
     py_strip login \<noteq> [] \<and> pw \<noteq> [] \<and> named_by login d = Some u \<and> \<not> us_suspended u
     \<and> (\<exists>h. us_password_hash u = Some h \<and> verify_password cr pw h = Inr True)"
proof (cases "py_strip login = [] \<or> pw = [] \<or> named_by login d = None")
  case True
  then show ?thesis by (elim disjE) (simp_all add: authenticate_local_user_def Let_def named_by_def [symmetric])
next
  case False
  then obtain v where v: "named_by login d = Some v" by auto
  have "authenticate_local_user cr login pw d =
    (case us_password_hash v of
       None \<Rightarrow> Inl (HTTPException 401 ''Invalid credentials.'')
     | Some h \<Rightarrow>
         if us_suspended v then Inl (HTTPException 403 ''User is not allowed to authenticate.'')
         else and_then (verify_password cr pw h) (\<lambda>ok.
           if ok then Inr v else Inl (HTTPException 401 ''Invalid credentials.'')))"
    using False v by (simp add: authenticate_local_user_def Let_def named_by_def [symmetric])
  note run = this
  show ?thesis
  proof (cases "us_password_hash v")
    case None
    with run v show ?thesis by (simp add: conj_commute) (metis option.inject option.distinct(1))
  next
    case (Some h)
    have "authenticate_local_user cr login pw d = Inr u \<longleftrightarrow> \<not> us_suspended v \<and> verify_password cr pw h = Inr True \<and> v = u"
      using run Some by (cases "verify_password cr pw h") simp_all
    with False v Some show ?thesis by (metis option.inject)
  qed
qed

section \<open>Samples\<close>

definition sample_crypto :: crypto where
  "sample_crypto = \<lparr>cr_hashpw = (\<lambda>pw salt. Inr (concat (map (\<lambda>c. show_nat (of_char c) @ '','') pw))),
     cr_checkpw = (\<lambda>pw h. Inr (concat (map (\<lambda>c. show_nat (of_char c) @ '','') pw) = h)), cr_sha256_hex = (\<lambda>b. b)\<rparr>"

lemma bcrypt_ok_sample: "bcrypt_ok sample_crypto"
proof -
  have d: "(of_char c :: nat) < 128" if "c \<in> set (show_nat n)" for c n
    using show_nat_decimal [OF that] by (simp add: is_decimal_def Let_def)
  have "utf8_encode (concat (map (\<lambda>c. show_nat (of_char c) @ '','') pw)) = concat (map (\<lambda>c. show_nat (of_char c) @ '','') pw)" for pw :: string
    by (rule utf8_ascii) (auto simp: list_all_iff dest!: d)
  then show ?thesis by (simp add: bcrypt_ok_def sample_crypto_def)
qed

definition sample_account_inputs :: account_inputs where
  "sample_account_inputs = \<lparr>ai_id = ''new'', ai_salt = ''salt'', ai_raw_key = ''key'', ai_now = 7, ai_link_id = ''l2'',
     ai_linked_at = 8, ai_dbnow = 9\<rparr>"

definition sample_link :: user_sso_link where
  "sample_link = \<lparr>sl_id = ''l1'', sl_user_id = ''u'', sl_provider = ''google'', sl_provider_uid = ''g1'', sl_linked_at = 1\<rparr>"

definition linked_world :: "store_op list \<Rightarrow> world" where
  "linked_world faults = with_db (sample_world faults) (sample_db\<lparr>db_sso_links := [sample_link]\<rparr>)"

lemma linked_world_sel [simp]:
  "w_db (linked_world f) = sample_db\<lparr>db_sso_links := [sample_link]\<rparr>" "w_store (linked_world f) = sample_store f"
  by (simp_all add: linked_world_def)

lemma linked_world_wf: "db_wf (sample_db\<lparr>db_sso_links := [sample_link]\<rparr>)"
  by (rule db_wf_sso_upd [OF sample_db_wf])
    (simp_all add: keys_distinct_def sample_link_def user_exists_def sample_defs)

end
