(* ===== verification/Account_Props.thy ===== *)
theory Account_Props
  imports Account_Facts
begin

text \<open>
  What the account operations promise: who can sign in, that a refused change leaves the rows alone (and
  what it does not take back), that a login method always remains, which names an OAuth registration
  draws, to whom an OAuth account belongs, and what deleting a user removes.
\<close>

section \<open>Signing in\<close>

lemma create_user_ok:
  assumes "create_user cr ai p meth cid actor source w = (Inr u, w')"
  shows "validate_new_user cr ai p (w_db w) = Inr u"
    "db_users (w_db w') = db_users (w_db w) @ [new_user_row u]" "row_to_user (w_db w') (new_user_row u) = u"
    "db_sso_links (w_db w') = db_sso_links (w_db w)"
    "db_media (w_db w') = db_media (w_db w)" "db_albums (w_db w') = db_albums (w_db w)"
    "db_wf (w_db w) \<Longrightarrow> db_wf (w_db w')" "w_store w' = w_store w"
proof -
  from assms obtain u' d where v: "validate_new_user cr ai p (w_db w) = Inr u" and r: "repo_create_user u (w_db w) = Inr (u', d)"
    and d: "w_db w' = d \<and> w_store w' = w_store w"
    by (auto simp: create_user_def emit_if_def split: sum.splits prod.splits option.splits)
  from v show "validate_new_user cr ai p (w_db w) = Inr u" .
  from repo_create_user_row [OF r] d
  show "db_users (w_db w') = db_users (w_db w) @ [new_user_row u]" "row_to_user (w_db w') (new_user_row u) = u"
    "db_sso_links (w_db w') = db_sso_links (w_db w)" "db_media (w_db w') = db_media (w_db w)"
    "db_albums (w_db w') = db_albums (w_db w)" "w_store w' = w_store w" by auto
  show "db_wf (w_db w) \<Longrightarrow> db_wf (w_db w')" using db_wf_repo_create_user [OF _ r] d by simp
qed

lemma validate_new_user_ok:
  assumes "validate_new_user cr ai p d = Inr u"
  shows "us_username u = py_strip (uc_username p)" "us_email u = py_lower (py_strip (uc_email p))"
    "us_username u \<noteq> []" "us_email u \<noteq> []" "us_id u = ai_id ai" "\<not> us_suspended u" "us_is_admin u = uc_is_admin p"
    "uc_password p = None \<Longrightarrow> us_password_hash u = None"
    "uc_password p = Some pw \<Longrightarrow> pw \<noteq> [] \<and> (\<exists>h. us_password_hash u = Some h \<and> hash_password cr (ai_salt ai) pw = Inr h)"
    "get_user_by_username (us_username u) d = None" "get_user_by_email (us_email u) d = None"
  using assms by (auto simp: validate_new_user_def Let_def require_password_value_def split: if_splits option.splits)

lemma registered_user_can_sign_in_parts:
  assumes "create_user cr ai p meth cid actor source w = (Inr u, w')" "uc_password p = Some pw"
    and "bcrypt_ok cr" "db_wf (w_db w)"
  shows "get_user (us_id u) (w_db w') = Some u"
    and "authenticate_local_user cr (uc_email p) pw (w_db w') = Inr u"
    and "get_user_by_email (py_lower (us_username u)) (w_db w') \<in> {None, Some u}
           \<Longrightarrow> authenticate_local_user cr (uc_username p) pw (w_db w') = Inr u"
    and "get_user_by_email (py_lower (us_username u)) (w_db w') = Some v \<Longrightarrow> v \<noteq> u
           \<Longrightarrow> authenticate_local_user cr (uc_username p) pw (w_db w') \<noteq> Inr u"
proof -
  note c = create_user_ok [OF assms(1)]
  note v = validate_new_user_ok [OF c(1)]
  have wf: "db_wf (w_db w')" using c(7) assms(4) by simp
  have row: "new_user_row u \<in> set (db_users (w_db w'))" using c(2) by simp
  have sel: "ur_id (new_user_row u) = us_id u" "ur_email (new_user_row u) = us_email u" "ur_username (new_user_row u) = us_username u"
    by (simp_all add: new_user_row_def)
  show "get_user (us_id u) (w_db w') = Some u" using get_user_row [OF wf row] c(3) sel by simp
  have e: "get_user_by_email (us_email u) (w_db w') = Some u" using get_user_by_email_row [OF wf row] c(3) sel by simp
  have n: "get_user_by_username (us_username u) (w_db w') = Some u" using get_user_by_username_row [OF wf row] c(3) sel by simp
  from v(9) [OF assms(2)] obtain h where h: "pw \<noteq> []" "us_password_hash u = Some h" "hash_password cr (ai_salt ai) pw = Inr h" by auto
  have pw: "verify_password cr pw h = Inr True" by (rule hashed_password_verifies [OF assms(3) h(3)])
  have ne: "py_strip (uc_email p) \<noteq> []" using v(2,4) by (auto simp: py_lower_def)
  show "authenticate_local_user cr (uc_email p) pw (w_db w') = Inr u"
    using e v(2,6) h(1,2) pw ne by (simp add: authenticate_ok_iff named_by_def)
  show "authenticate_local_user cr (uc_username p) pw (w_db w') = Inr u"
    if "get_user_by_email (py_lower (us_username u)) (w_db w') \<in> {None, Some u}"
    using that n v(1,3,6) h(1,2) pw by (auto simp: authenticate_ok_iff named_by_def)
  show "authenticate_local_user cr (uc_username p) pw (w_db w') \<noteq> Inr u"
    if "get_user_by_email (py_lower (us_username u)) (w_db w') = Some v" "v \<noteq> u"
    using that v(1) by (auto simp: authenticate_ok_iff named_by_def)
qed

text \<open>C25: Who registers can sign in. A created account with a password is in the tables exactly as returned,
  and signing in with the address it was created with and that password gives this user. Signing in with
  its name works too, unless another account's e-mail address is that name: addresses are looked up
  first, and neither is checked for its form, so such an account shuts the name out.\<close>

theorem registered_user_can_sign_in:
  assumes "create_user cr ai p meth cid actor source w = (Inr u, w')" "uc_password p = Some pw"
    and "bcrypt_ok cr" "db_wf (w_db w)"
  shows "get_user (us_id u) (w_db w') = Some u
    \<and> authenticate_local_user cr (uc_email p) pw (w_db w') = Inr u
    \<and> (authenticate_local_user cr (uc_username p) pw (w_db w') = Inr u
        \<longleftrightarrow> get_user_by_email (py_lower (us_username u)) (w_db w') \<in> {None, Some u})"
  using registered_user_can_sign_in_parts [OF assms] by (cases "get_user_by_email (py_lower (us_username u)) (w_db w')") auto

definition sample_registration :: user_create_input where
  "sample_registration = \<lparr>uc_username = '' Zoe'', uc_email = ''Zoe@X '', uc_password = Some ''12345678'', uc_is_admin = False,
     uc_quota_bytes = None, uc_rate_limit_rpm = None, uc_rate_limit_bph = None\<rparr>"

text \<open>What the sample registration returns.\<close>

definition registered :: "user \<times> world" where
  "registered = (let (r, w) = create_user sample_crypto sample_account_inputs sample_registration ''registration'' None None
     ''web'' (sample_world []) in (projr r, w))"

lemma registered_run:
  "create_user sample_crypto sample_account_inputs sample_registration ''registration'' None None ''web'' (sample_world [])
     = (Inr (fst registered), snd registered)"
proof -
  have "isl (fst (create_user sample_crypto sample_account_inputs sample_registration ''registration'' None None ''web''
      (sample_world []))) = False"
    by code_simp
  then show ?thesis by (auto simp: registered_def split: prod.splits sum.splits)
qed

theorem registered_user_can_sign_in_witness:
  "authenticate_local_user sample_crypto ''Zoe@X '' ''12345678'' (w_db (snd registered)) = Inr (fst registered)"
  using registered_user_can_sign_in [OF registered_run, of "''12345678''"] sample_db_wf bcrypt_ok_sample
  by (simp add: sample_registration_def)

section \<open>Changing a user\<close>

text \<open>Giving up capabilities touches no other table.\<close>

lemma revoke_sharex_sel [simp]:
  "db_users (snd (revoke_sharex_where now P d)) = db_users d" "db_rate_limits (snd (revoke_sharex_where now P d)) = db_rate_limits d"
  "db_albums (snd (revoke_sharex_where now P d)) = db_albums d" "db_media (snd (revoke_sharex_where now P d)) = db_media d"
  "db_sso_links (snd (revoke_sharex_where now P d)) = db_sso_links d"
  by (simp_all add: revoke_sharex_where_def update_sharex_where_def Let_def)

lemma get_user_cong: "db_users d' = db_users d \<Longrightarrow> db_rate_limits d' = db_rate_limits d \<Longrightarrow> get_user v d' = get_user v d"
proof -
  assume "db_users d' = db_users d" and "db_rate_limits d' = db_rate_limits d"
  then have "row_to_user d' = row_to_user d" by (intro ext row_to_user_cong) simp
  with \<open>db_users d' = db_users d\<close> show ?thesis by (simp add: get_user_def)
qed

lemma change_suspension_sel [simp]:
  "db_users (w_db (change_suspension now p cid actor u w)) = db_users (w_db w)"
  "db_rate_limits (w_db (change_suspension now p cid actor u w)) = db_rate_limits (w_db w)"
  "db_albums (w_db (change_suspension now p cid actor u w)) = db_albums (w_db w)"
  "db_media (w_db (change_suspension now p cid actor u w)) = db_media (w_db w)"
  "w_store (change_suspension now p cid actor u w) = w_store w"
  by (simp_all add: change_suspension_def revoke_sharex_delete_capabilities_for_user_def split: option.splits)

lemma change_admin_sel [simp]:
  "w_db (change_admin p cid actor u w) = w_db w" "w_store (change_admin p cid actor u w) = w_store w"
  by (simp_all add: change_admin_def Let_def)

lemma db_wf_change_suspension: "db_wf (w_db w) \<Longrightarrow> db_wf (w_db (change_suspension now p cid actor u w))"
  by (auto simp: change_suspension_def revoke_sharex_delete_capabilities_for_user_def db_wf_revoke split: option.splits)

lemma updated_user_sel [simp]:
  "us_id (updated_user p u) = us_id u" "us_created_at (updated_user p u) = us_created_at u"
  by (simp_all add: updated_user_def)

lemma save_user_cases:
  assumes "save_user now u w = (r, w')" "get_user (us_id u) (w_db w) = Some u0" "us_created_at u0 = us_created_at u" "db_wf (w_db w)"
  obtains (refused) e where "r = Inl e" "w' = w"
    | (saved) "r = Inr u" "get_user (us_id u) (w_db w') = Some (u\<lparr>us_updated_at := now\<rparr>)" "w_log w' = w_log w" "w_store w' = w_store w"
        "\<And>v. v \<noteq> us_id u \<Longrightarrow> get_user v (w_db w') = get_user v (w_db w)" "db_wf (w_db w')"
proof -
  obtain q d where q: "repo_update_user now u (w_db w) = (q, d)" by force
  with assms(1) have r: "r = and_then q (\<lambda>_. Inr u)" "w' = with_db w d" by (auto simp: save_user_def)
  show thesis
  proof (cases q)
    case (Inl e)
    with q get_user_SomeD [OF assms(2)] have "d = w_db w" using repo_update_user_refused by blast
    then have "w' = w" using r by (simp add: with_db_def)
    with r Inl refused show thesis by simp
  next
    case (Inr u')
    note ok = repo_update_user_ok [OF q [unfolded Inr] assms(2,4,3)]
    show thesis
      by (rule saved) (use r Inr ok repo_update_user_other [OF q assms(4)] in simp_all)
  qed
qed

text \<open>The change an administrator asks for, as it reads in the user afterwards.\<close>

definition carries_out :: "crypto \<Rightarrow> bytes \<Rightarrow> user_update_input \<Rightarrow> user \<Rightarrow> user \<Rightarrow> bool" where
  "carries_out cr salt p u u' =
     (us_id u' = us_id u \<and> us_username u' = us_username u \<and> us_email u' = us_email u
      \<and> us_is_admin u' = patched (ud_is_admin p) (us_is_admin u)
      \<and> us_suspended u' = (case ud_suspended p of Some s \<Rightarrow> s | None \<Rightarrow> us_suspended u)
      \<and> us_quota_bytes u' = patched (ud_quota_bytes p) (us_quota_bytes u)
      \<and> us_rate_limit_rpm u' = patched (ud_rate_limit_rpm p) (us_rate_limit_rpm u)
      \<and> us_rate_limit_bph u' = patched (ud_rate_limit_bph p) (us_rate_limit_bph u)
      \<and> (case ud_password p of None \<Rightarrow> us_password_hash u' = us_password_hash u
         | Some pw \<Rightarrow> \<exists>h. us_password_hash u' = Some h \<and> new_password_hash cr salt pw ''Password'' = Inr h))"

text \<open>The state after the first two changes: told, the capabilities revoked, nothing saved.\<close>

abbreviation after_flags :: "time \<Rightarrow> user_update_input \<Rightarrow> string \<Rightarrow> string option \<Rightarrow> user \<Rightarrow> world \<Rightarrow> world" where
  "after_flags now p cid actor u w \<equiv> change_suspension now p cid actor u (change_admin p cid actor u w)"

lemma after_flags_told:
  "patched (ud_is_admin p) (us_is_admin u) \<noteq> us_is_admin u \<Longrightarrow>
     Emitted (UserAdminStatusChanged (us_id u) actor (us_is_admin u) (\<not> us_is_admin u) ''api'' cid)
       \<in> set (w_log (after_flags now p cid actor u w))"
  by (cases "patched (ud_is_admin p) (us_is_admin u)"; cases "us_is_admin u")
    (auto simp: change_suspension_def change_admin_def Let_def split: option.splits)

lemma after_flags_suspended:
  "ud_suspended p = Some True \<Longrightarrow> \<not> us_suspended u \<Longrightarrow>
     Emitted (UserSuspended (us_id u) actor True ''api'' cid) \<in> set (w_log (after_flags now p cid actor u w))
     \<and> db_sharex (w_db (after_flags now p cid actor u w)) = db_sharex (snd (revoke_sharex_delete_capabilities_for_user now (us_id u) (w_db w)))"
  by (simp add: change_suspension_def)

lemma update_user_cases:
  assumes "get_user uid (w_db w) = Some u" "db_wf (w_db w)" "update_user cr ai uid p cid actor w = (r, w')"
  obtains (refused) e where "r = Inl e" "w_db w' = w_db (after_flags (ai_dbnow ai) p cid actor u w)" "w_store w' = w_store w"
        "set (w_log (after_flags (ai_dbnow ai) p cid actor u w)) \<subseteq> set (w_log w')"
    | (saved) u' where "r = Inr u'" "carries_out cr (ai_salt ai) p u u'"
        "get_user uid (w_db w') = Some (u'\<lparr>us_updated_at := ai_dbnow ai\<rparr>)"
        "\<And>v. v \<noteq> uid \<Longrightarrow> get_user v (w_db w') = get_user v (w_db w)"
proof -
  let ?w1 = "after_flags (ai_dbnow ai) p cid actor u w"
  let ?u1 = "updated_user p u"
  let ?pw = "case ud_password p of None \<Rightarrow> Inr (us_password_hash ?u1)
    | Some pw \<Rightarrow> and_then (new_password_hash cr (ai_salt ai) pw ''Password'') (\<lambda>h. Inr (Some h))"
  let ?w2 = "if limits_changes p u \<noteq> [] then emit (UserLimitsChanged (us_id ?u1) actor (limits_changes p u) ''api'' cid) ?w1 else ?w1"
  have uid: "us_id u = uid" using get_user_SomeD [OF assms(1)] by simp
  have wf: "db_wf (w_db ?w2)" using assms(2) by (auto intro: db_wf_change_suspension)
  have g2: "get_user v (w_db ?w2) = get_user v (w_db w)" for v by (rule get_user_cong) simp_all
  have run: "update_user cr ai uid p cid actor w = (case ?pw of Inl e \<Rightarrow> (Inl e, ?w1)
      | Inr h \<Rightarrow> save_user (ai_dbnow ai) (?u1\<lparr>us_password_hash := h\<rparr>) ?w2)"
    unfolding update_user_def assms(1) option.case Let_def by (rule refl)
  show thesis
  proof (cases ?pw)
    case (Inl e)
    with run assms(3) show thesis by (intro refused [of e]) auto
  next
    case (Inr h)
    with run assms(3) have "save_user (ai_dbnow ai) (?u1\<lparr>us_password_hash := h\<rparr>) ?w2 = (r, w')" by simp
    moreover have "get_user (us_id (?u1\<lparr>us_password_hash := h\<rparr>)) (w_db ?w2) = Some u" using assms(1) uid g2 by simp
    moreover have "carries_out cr (ai_salt ai) p u (?u1\<lparr>us_password_hash := h\<rparr>)"
      using Inr by (auto simp: carries_out_def updated_user_def split: option.splits)
    ultimately show thesis
      using wf g2 uid
      by (elim save_user_cases) (auto intro: refused saved)
  qed
qed

lemma user_update_outcomes_parts:
  assumes "get_user uid (w_db w) = Some u" "db_wf (w_db w)" "update_user cr ai uid p cid actor w = (r, w')"
  shows "r = Inr u' \<Longrightarrow>
      carries_out cr (ai_salt ai) p u u' \<and> get_user uid (w_db w') = Some (u'\<lparr>us_updated_at := ai_dbnow ai\<rparr>)
      \<and> (\<forall>v. v \<noteq> uid \<longrightarrow> get_user v (w_db w') = get_user v (w_db w))"
    and "r = Inl e \<Longrightarrow>
      db_users (w_db w') = db_users (w_db w) \<and> db_rate_limits (w_db w') = db_rate_limits (w_db w)
      \<and> db_albums (w_db w') = db_albums (w_db w) \<and> db_media (w_db w') = db_media (w_db w) \<and> w_store w' = w_store w"
    and "r = Inl e \<Longrightarrow> patched (ud_is_admin p) (us_is_admin u) \<noteq> us_is_admin u \<Longrightarrow>
      Emitted (UserAdminStatusChanged uid actor (us_is_admin u) (\<not> us_is_admin u) ''api'' cid) \<in> set (w_log w')"
    and "r = Inl e \<Longrightarrow> ud_suspended p = Some True \<Longrightarrow> \<not> us_suspended u \<Longrightarrow>
      Emitted (UserSuspended uid actor True ''api'' cid) \<in> set (w_log w')
      \<and> db_sharex (w_db w') = db_sharex (snd (revoke_sharex_delete_capabilities_for_user (ai_dbnow ai) uid (w_db w)))"
proof -
  have uid: "us_id u = uid" using get_user_SomeD [OF assms(1)] by simp
  note c = update_user_cases [OF assms]
  show "r = Inr u' \<Longrightarrow>
      carries_out cr (ai_salt ai) p u u' \<and> get_user uid (w_db w') = Some (u'\<lparr>us_updated_at := ai_dbnow ai\<rparr>)
      \<and> (\<forall>v. v \<noteq> uid \<longrightarrow> get_user v (w_db w') = get_user v (w_db w))"
    using c by (cases rule: c) auto
  assume e: "r = Inl e"
  then have w': "w_db w' = w_db (after_flags (ai_dbnow ai) p cid actor u w)" "w_store w' = w_store w"
    "set (w_log (after_flags (ai_dbnow ai) p cid actor u w)) \<subseteq> set (w_log w')"
    by (cases rule: c; simp)+
  then show "db_users (w_db w') = db_users (w_db w) \<and> db_rate_limits (w_db w') = db_rate_limits (w_db w)
      \<and> db_albums (w_db w') = db_albums (w_db w) \<and> db_media (w_db w') = db_media (w_db w) \<and> w_store w' = w_store w" by simp
  show "patched (ud_is_admin p) (us_is_admin u) \<noteq> us_is_admin u \<Longrightarrow>
      Emitted (UserAdminStatusChanged uid actor (us_is_admin u) (\<not> us_is_admin u) ''api'' cid) \<in> set (w_log w')"
    using w'(3) after_flags_told [of p u] uid by blast
  show "ud_suspended p = Some True \<Longrightarrow> \<not> us_suspended u \<Longrightarrow>
      Emitted (UserSuspended uid actor True ''api'' cid) \<in> set (w_log w')
      \<and> db_sharex (w_db w') = db_sharex (snd (revoke_sharex_delete_capabilities_for_user (ai_dbnow ai) uid (w_db w)))"
    using w'(1,3) after_flags_suspended [of p u] uid by auto
qed

text \<open>C26: Changing a user, as an administrator does. A change that is carried out gives the user the new
  values, field by field, as the database then reads them, and leaves every other user as it was. A change
  that is refused (a password too short or too long, a limit out of range) leaves all users, albums, items
  and objects as they were. But the change of the administrator flag and of the suspension has been told to
  the listeners by then, and the delete capabilities of a user who was to be suspended are revoked.\<close>

theorem user_update_outcomes:
  assumes "get_user uid (w_db w) = Some u" "db_wf (w_db w)" "update_user cr ai uid p cid actor w = (r, w')"
  shows "(\<forall>u'. r = Inr u' \<longrightarrow>
      carries_out cr (ai_salt ai) p u u' \<and> get_user uid (w_db w') = Some (u'\<lparr>us_updated_at := ai_dbnow ai\<rparr>)
      \<and> (\<forall>v. v \<noteq> uid \<longrightarrow> get_user v (w_db w') = get_user v (w_db w)))
    \<and> (\<forall>e. r = Inl e \<longrightarrow>
      db_users (w_db w') = db_users (w_db w) \<and> db_rate_limits (w_db w') = db_rate_limits (w_db w)
      \<and> db_albums (w_db w') = db_albums (w_db w) \<and> db_media (w_db w') = db_media (w_db w) \<and> w_store w' = w_store w
      \<and> (patched (ud_is_admin p) (us_is_admin u) \<noteq> us_is_admin u \<longrightarrow>
           Emitted (UserAdminStatusChanged uid actor (us_is_admin u) (\<not> us_is_admin u) ''api'' cid) \<in> set (w_log w'))
      \<and> (ud_suspended p = Some True \<and> \<not> us_suspended u \<longrightarrow>
           Emitted (UserSuspended uid actor True ''api'' cid) \<in> set (w_log w')
           \<and> db_sharex (w_db w') = db_sharex (snd (revoke_sharex_delete_capabilities_for_user (ai_dbnow ai) uid (w_db w)))))"
  using user_update_outcomes_parts [OF assms] by blast

definition sample_change :: "string \<Rightarrow> user_update_input" where
  "sample_change pw = \<lparr>ud_is_admin = Given True, ud_suspended = Some True, ud_quota_bytes = Given (Some 5),
     ud_rate_limit_rpm = UNSET, ud_rate_limit_bph = UNSET, ud_password = Some pw\<rparr>"

text \<open>A refused and an accepted change of the same user.\<close>

theorem user_update_outcomes_witness:
  "(let (r, w) = update_user sample_crypto sample_account_inputs ''u'' (sample_change ''short'') ''c'' None (sample_world [])
    in isl r \<and> db_users (w_db w) = db_users sample_db
       \<and> Emitted (UserAdminStatusChanged ''u'' None False True ''api'' ''c'') \<in> set (w_log w)
       \<and> Emitted (UserSuspended ''u'' None True ''api'' ''c'') \<in> set (w_log w))
   \<and> (let (r, w) = update_user sample_crypto sample_account_inputs ''u'' (sample_change ''long enough'') ''c'' None (sample_world [])
      in \<not> isl r \<and> carries_out sample_crypto ''salt'' (sample_change ''long enough'') (row_to_user sample_db (sample_user_row ''u'' False)) (projr r))"
proof -
  let ?run = "\<lambda>pw. update_user sample_crypto sample_account_inputs ''u'' (sample_change pw) ''c'' None (sample_world [])"
  let ?u = "row_to_user sample_db (sample_user_row ''u'' False)"
  have u: "get_user ''u'' (w_db (sample_world [])) = Some ?u"
    by (simp add: get_user_def find_row_Cons sample_defs)
  have wf: "db_wf (w_db (sample_world []))" using sample_db_wf by simp
  have sel: "\<not> us_is_admin ?u" "\<not> us_suspended ?u" "us_is_admin ?u = False" "ai_salt sample_account_inputs = ''salt''"
    by (simp_all add: sample_user_row_def sample_account_inputs_def)
  have chg: "patched (ud_is_admin (sample_change pw)) (us_is_admin ?u) \<noteq> us_is_admin ?u" "ud_suspended (sample_change pw) = Some True" for pw
    using sel by (simp_all add: sample_change_def patched_def)
  have "isl (fst (?run ''short''))" by code_simp
  then obtain e where e: "?run ''short'' = (Inl e, snd (?run ''short''))" by (metis isl_def prod.collapse)
  have "\<not> isl (fst (?run ''long enough''))" by code_simp
  then obtain u' where u': "?run ''long enough'' = (Inr u', snd (?run ''long enough''))" by (metis isl_def prod.collapse sum.exhaust)
  show ?thesis
    using user_update_outcomes [OF u wf e] user_update_outcomes [OF u wf u'] chg sel e u'
    by (auto split: prod.splits)
qed

end
