(* ===== verification/Oauth_Props.thy ===== *)
theory Oauth_Props
  imports Account_Props
begin

text \<open>
  Signing in with an OAuth account: the names drawn for new users, to whom an OAuth account belongs, and
  the login method that disconnecting leaves.
\<close>

section \<open>The name of a new user\<close>

lemma is_lower_alnum_lower: "is_lower_alnum c \<Longrightarrow> \<not> py_isspace c"
  by (auto simp: is_lower_alnum_def py_isspace_def Let_def)

lemma show_nat_alnum: "c \<in> set (show_nat n) \<Longrightarrow> is_lower_alnum c"
  using show_nat_decimal [of c n] by (auto simp: is_lower_alnum_def is_decimal_def Let_def)

lemma short_number: "n < 1000 \<Longrightarrow> length (show_nat n) \<le> 3"
  by (subst show_nat.simps, subst show_nat.simps, subst show_nat.simps) auto

lemma candidate_shape: "username_candidate i \<noteq> []" "length (username_candidate i) \<le> 20" "\<forall>c\<in>set (username_candidate i). is_lower_alnum c"
proof -
  show "username_candidate i \<noteq> []" "length (username_candidate i) \<le> 20"
    by (auto simp: username_candidate_def Let_def)
  have "\<forall>c\<in>set (''user'' :: string). is_lower_alnum c" by (simp add: is_lower_alnum_def)
  then show "\<forall>c\<in>set (username_candidate i). is_lower_alnum c"
    by (auto simp: username_candidate_def Let_def dest: in_set_takeD)
qed

lemma first_free_Inr:
  "first_free_username cand i d = Inr name \<Longrightarrow>
     get_user_by_username name d = None \<and> (\<exists>n<1000. name = take 16 cand @ show_nat n)"
proof (induction cand i d rule: first_free_username.induct)
  case (1 cand i d)
  then show ?case by (subst (asm) (2) first_free_username.simps) (auto split: if_splits)
qed

lemma first_free_Inl:
  "first_free_username cand i d = Inl e \<Longrightarrow> i \<le> n \<Longrightarrow> n < 1000 \<Longrightarrow>
     get_user_by_username (take 16 cand @ show_nat n) d \<noteq> None"
proof (induction cand i d rule: first_free_username.induct)
  case (1 cand i d)
  then have "get_user_by_username (take 16 cand @ show_nat i) d \<noteq> None" "first_free_username cand (i + 1) d = Inl e"
    by (subst (asm) (2) first_free_username.simps; simp split: if_splits)+
  with 1 show ?case by (cases "i = n") auto
qed

lemma username_taken: "get_user_by_username name d \<noteq> None \<Longrightarrow> name \<in> ur_username ` set (db_users d)"
  by (auto simp: get_user_by_username_def dest: find_row_SomeD)

lemma drawn_username_is_free_parts:
  "generate_unique_username i d = Inr name \<Longrightarrow>
     get_user_by_username name d = None \<and> 0 < length name \<and> length name \<le> 20
     \<and> list_all is_lower_alnum name \<and> py_strip name = name"
  "generate_unique_username i d = Inl e \<Longrightarrow> 998 \<le> length (db_users d)"
proof -
  let ?c = "username_candidate i"
  note c = candidate_shape [of i]
  { assume r: "generate_unique_username i d = Inr name"
    have "get_user_by_username name d = None \<and> 0 < length name \<and> length name \<le> 20 \<and> (\<forall>x\<in>set name. is_lower_alnum x)"
    proof (cases "get_user_by_username ?c d = None")
      case True
      with r c show ?thesis by (simp add: generate_unique_username_def Let_def)
    next
      case False
      with r have "first_free_username ?c 2 d = Inr name" by (simp add: generate_unique_username_def Let_def)
      then obtain n where "get_user_by_username name d = None" "n < 1000" "name = take 16 ?c @ show_nat n"
        using first_free_Inr by blast
      with short_number [of n] c(3) show ?thesis by (auto dest: in_set_takeD show_nat_alnum)
    qed
    then show "get_user_by_username name d = None \<and> 0 < length name \<and> length name \<le> 20
        \<and> list_all is_lower_alnum name \<and> py_strip name = name"
      by (auto simp: list_all_iff is_lower_alnum_lower intro: py_strip_none) }
  { assume "generate_unique_username i d = Inl e"
    then have f: "first_free_username ?c 2 d = Inl e" by (auto simp: generate_unique_username_def Let_def split: if_splits)
    have "(\<lambda>n. take 16 ?c @ show_nat n) ` {2..<1000} \<subseteq> ur_username ` set (db_users d)"
    proof
      fix x assume "x \<in> (\<lambda>n. take 16 ?c @ show_nat n) ` {2..<1000}"
      then obtain n where "2 \<le> n" "n < 1000" "x = take 16 ?c @ show_nat n" by auto
      with first_free_Inl [OF f] show "x \<in> ur_username ` set (db_users d)" by (auto intro: username_taken)
    qed
    then have "card ((\<lambda>n. take 16 ?c @ show_nat n) ` {2..<1000}) \<le> card (ur_username ` set (db_users d))"
      by (intro card_mono) auto
    also have "\<dots> \<le> length (db_users d)"
      using card_image_le [of "set (db_users d)" ur_username] card_length [of "db_users d"] by simp
    finally show "998 \<le> length (db_users d)" by (simp add: card_image inj_on_def) }
qed

text \<open>The name drawn for who registers with an OAuth account is free, has one to twenty characters, all
  lower-case letters and digits (so that it is stored as drawn), and it is found unless the installation
  has at least 998 users.\<close>

theorem drawn_username_is_free:
  "case generate_unique_username i d of
     Inr name \<Rightarrow> get_user_by_username name d = None \<and> 0 < length name \<and> length name \<le> 20
       \<and> list_all is_lower_alnum name \<and> py_strip name = name
   | Inl e \<Rightarrow> 998 \<le> length (db_users d)"
  using drawn_username_is_free_parts [of i d] by (cases "generate_unique_username i d") auto

definition sample_identity :: "string \<Rightarrow> string \<Rightarrow> oauth_identity" where
  "sample_identity puid name = \<lparr>oi_provider = ''google'', oi_provider_uid = puid, oi_email = ''u@mail'', oi_email_verified = True,
     oi_display_name = Some name\<rparr>"

theorem drawn_username_is_free_witness:
  "generate_unique_username (sample_identity ''g2'' ''U !'') sample_db = Inr ''u2'' \<and> length ''u2'' \<le> 20"
proof -
  have r: "generate_unique_username (sample_identity ''g2'' ''U !'') sample_db = Inr ''u2''" by code_simp
  from drawn_username_is_free [where i = "sample_identity ''g2'' ''U !''" and d = sample_db] r show ?thesis by simp
qed

section \<open>To whom an OAuth account belongs\<close>

definition link_owner :: "string \<Rightarrow> string \<Rightarrow> db \<Rightarrow> string option" where
  "link_owner provider puid d = map_option sl_user_id (get_user_sso_link provider puid d)"

lemma create_user_sso_link_ok:
  assumes "create_user_sso_link l d = Inr (l', d')"
  shows "d' = d\<lparr>db_sso_links := db_sso_links d @ [l]\<rparr>"
    "get_user_sso_link (sl_provider l) (sl_provider_uid l) d = None"
  using assms by (auto simp: create_user_sso_link_def get_user_sso_link_def split: if_splits)

lemma link_owner_snoc:
  "link_owner p q (d\<lparr>db_sso_links := db_sso_links d @ [l]\<rparr>) =
     (case link_owner p q d of Some u \<Rightarrow> Some u
      | None \<Rightarrow> if sl_provider l = p \<and> sl_provider_uid l = q then Some (sl_user_id l) else None)"
  by (auto simp: link_owner_def get_user_sso_link_def find_row_append find_row_Cons split: option.splits)

lemma db_wf_create_link: "db_wf d \<Longrightarrow> create_user_sso_link l d = Inr (l', d') \<Longrightarrow> db_wf d'"
  by (auto simp: create_user_sso_link_def keys_distinct_snoc db_wf_def [of d] keys_ok_def fks_ok_def split: if_splits
      intro!: db_wf_sso_upd)

lemma add_link_ok:
  assumes "add_link ai i u how w = (Inr (v, how'), w')"
  shows "v = u" "how' = how" "link_owner (oi_provider i) (oi_provider_uid i) (w_db w') = Some (us_id u)"
    "\<And>p q own. link_owner p q (w_db w) = Some own \<Longrightarrow> link_owner p q (w_db w') = Some own"
    "db_users (w_db w') = db_users (w_db w)" "db_rate_limits (w_db w') = db_rate_limits (w_db w)"
    "db_wf (w_db w) \<Longrightarrow> db_wf (w_db w')"
proof -
  let ?l = "build_user_sso_link ai (us_id u) (oi_provider i) (oi_provider_uid i)"
  from assms obtain d l' where c: "create_user_sso_link ?l (w_db w) = Inr (l', d)" and e: "v = u" "how' = how" "w_db w' = d"
    by (auto simp: add_link_def split: sum.splits)
  have sel: "sl_user_id ?l = us_id u" "sl_provider ?l = oi_provider i" "sl_provider_uid ?l = oi_provider_uid i"
    by (simp_all add: build_user_sso_link_def)
  note ok = create_user_sso_link_ok [OF c, unfolded sel]
  show "v = u" "how' = how" by (rule e)+
  show "link_owner (oi_provider i) (oi_provider_uid i) (w_db w') = Some (us_id u)"
    using ok(2) by (simp add: e ok(1) link_owner_snoc sel) (simp add: link_owner_def sel)
  show "link_owner p q (w_db w') = Some own" if "link_owner p q (w_db w) = Some own" for p q own
    using that by (simp add: e ok(1) link_owner_snoc)
  show "db_users (w_db w') = db_users (w_db w)" "db_rate_limits (w_db w') = db_rate_limits (w_db w)" by (simp_all add: e ok(1))
  show "db_wf (w_db w) \<Longrightarrow> db_wf (w_db w')" using db_wf_create_link [OF _ c] e by simp
qed

lemma existing_link_login_ok:
  assumes "existing_link_login i current l d = Inr (u, how)"
  shows "how = ''existing_link''" "get_user (sl_user_id l) d = Some u" "\<not> us_suspended u"
    "current = Some c \<Longrightarrow> us_id c = us_id u"
  using assms by (auto simp: existing_link_login_def split: option.splits if_splits)

lemma register_by_oauth_ok:
  assumes "register_by_oauth cr ai i cid source w = (Inr (u, how), w')" "db_wf (w_db w)"
  shows "how = ''created''" "link_owner (oi_provider i) (oi_provider_uid i) (w_db w') = Some (us_id u)"
    "\<And>p q own. link_owner p q (w_db w) = Some own \<Longrightarrow> link_owner p q (w_db w') = Some own"
    "get_user (us_id u) (w_db w) = None" "get_user (us_id u) (w_db w') = Some u" "get_user_by_email (us_email u) (w_db w) = None"
    "\<not> us_is_admin u" "us_password_hash u = None" "db_wf (w_db w')"
proof -
  let ?p = "\<lambda>name. \<lparr>uc_username = name, uc_email = oi_email i, uc_password = None, uc_is_admin = False, uc_quota_bytes = None,
     uc_rate_limit_rpm = None, uc_rate_limit_bph = None\<rparr>"
  from assms(1) obtain name v w1 where c: "create_user cr ai (?p name) ''oauth'' cid None source w = (Inr v, w1)"
    and a: "add_link ai i v ''created'' w1 = (Inr (u, how), w')"
    by (auto simp: register_by_oauth_def split: if_splits sum.splits prod.splits)
  note cu = create_user_ok [OF c] and al = add_link_ok [OF a]
  note v = validate_new_user_ok [OF cu(1)]
  have lo: "link_owner p q (w_db w1) = link_owner p q (w_db w)" for p q
    by (simp add: link_owner_def get_user_sso_link_def cu(4))
  show "how = ''created''" "link_owner (oi_provider i) (oi_provider_uid i) (w_db w') = Some (us_id u)" using al(1-3) by auto
  show "link_owner p q (w_db w') = Some own" if "link_owner p q (w_db w) = Some own" for p q own using al(4) that lo by simp
  have wf1: "db_wf (w_db w1)" using cu(7) assms(2) .
  then show "db_wf (w_db w')" by (rule al(7))
  have row: "new_user_row v \<in> set (db_users (w_db w1))" using cu(2) by simp
  have "get_user (us_id u) (w_db w1) = Some u"
    using get_user_row [OF wf1 row] cu(3) al(1) by (simp add: new_user_row_def)
  then show "get_user (us_id u) (w_db w') = Some u" using get_user_cong al(5,6) by metis
  have "keys_distinct ur_id (db_users (w_db w) @ [new_user_row v])" using user_keys [OF wf1] cu(2) by simp
  then show "get_user (us_id u) (w_db w) = None"
    using al(1) by (simp add: keys_distinct_snoc get_user_def new_user_row_def)
  show "get_user_by_email (us_email u) (w_db w) = None" "\<not> us_is_admin u" "us_password_hash u = None"
    using v(7,8,11) al(1) by simp_all
qed

lemma oauth_login_respects_links_parts:
  assumes "complete_oauth_login cr ai i current allow cid source w = (Inr (u, how), w')" "db_wf (w_db w)"
  shows "oi_email_verified i" "link_owner (oi_provider i) (oi_provider_uid i) (w_db w') = Some (us_id u)"
    "\<And>p q owner. link_owner p q (w_db w) = Some owner \<Longrightarrow> link_owner p q (w_db w') = Some owner"
    "(how = ''existing_link'' \<and> w' = w \<and> get_user (us_id u) (w_db w) = Some u \<and> \<not> us_suspended u
        \<and> (\<forall>c. current = Some c \<longrightarrow> us_id c = us_id u))
     \<or> (how = ''linked'' \<and> current = Some u)
     \<or> (how = ''created'' \<and> current = None \<and> allow \<and> get_user (us_id u) (w_db w) = None \<and> get_user (us_id u) (w_db w') = Some u
        \<and> get_user_by_email (us_email u) (w_db w) = None \<and> \<not> us_is_admin u \<and> us_password_hash u = None)"
    "db_wf (w_db w')"
proof -
  let ?l = "get_user_sso_link (oi_provider i) (oi_provider_uid i) (w_db w)"
  from assms(1) have ver: "oi_email_verified i"
    and run: "(case ?l of Some l \<Rightarrow> (existing_link_login i current l (w_db w), w)
         | None \<Rightarrow> (case current of Some c \<Rightarrow> add_link ai i c ''linked'' w
             | None \<Rightarrow> if \<not> allow then (Inl (HTTPException 403 ''Registration is disabled.''), w)
                 else register_by_oauth cr ai i cid source w)) = (Inr (u, how), w')"
    by (auto simp: complete_oauth_login_def split: if_splits)
  show "oi_email_verified i" by (rule ver)
  have old: "existing_link_login i current l (w_db w) = Inr (u, how) \<and> w' = w" if "?l = Some l" for l
    using run that by auto
  have link: "add_link ai i c ''linked'' w = (Inr (u, how), w')" if "?l = None" "current = Some c" for c
    using run that by simp
  have new: "allow \<and> register_by_oauth cr ai i cid source w = (Inr (u, how), w')" if "?l = None" "current = None"
    using run that by (cases allow) simp_all
  have "link_owner (oi_provider i) (oi_provider_uid i) (w_db w') = Some (us_id u)
     \<and> (\<forall>p q owner. link_owner p q (w_db w) = Some owner \<longrightarrow> link_owner p q (w_db w') = Some owner)
     \<and> ((how = ''existing_link'' \<and> w' = w \<and> get_user (us_id u) (w_db w) = Some u \<and> \<not> us_suspended u
        \<and> (\<forall>c. current = Some c \<longrightarrow> us_id c = us_id u))
     \<or> (how = ''linked'' \<and> current = Some u)
     \<or> (how = ''created'' \<and> current = None \<and> allow \<and> get_user (us_id u) (w_db w) = None \<and> get_user (us_id u) (w_db w') = Some u
        \<and> get_user_by_email (us_email u) (w_db w) = None \<and> \<not> us_is_admin u \<and> us_password_hash u = None))
     \<and> db_wf (w_db w')"
  proof (cases ?l)
    case (Some l)
    note x = existing_link_login_ok [OF conjunct1 [OF old [OF Some]]]
    have "us_id u = sl_user_id l" using get_user_SomeD [OF x(2)] by simp
    with Some old [OF Some] x assms(2) show ?thesis by (auto simp: link_owner_def)
  next
    case None
    show ?thesis
    proof (cases current)
      case (Some c)
      note x = add_link_ok [OF link [OF None Some]]
      show ?thesis using x(1-4,7) Some assms(2) by simp
    next
      case no: None
      note x = register_by_oauth_ok [OF conjunct2 [OF new [OF None no]] assms(2)]
      show ?thesis using x new [OF None no] no by simp
    qed
  qed
  then show "link_owner (oi_provider i) (oi_provider_uid i) (w_db w') = Some (us_id u)"
    "\<And>p q owner. link_owner p q (w_db w) = Some owner \<Longrightarrow> link_owner p q (w_db w') = Some owner"
    "(how = ''existing_link'' \<and> w' = w \<and> get_user (us_id u) (w_db w) = Some u \<and> \<not> us_suspended u
        \<and> (\<forall>c. current = Some c \<longrightarrow> us_id c = us_id u))
     \<or> (how = ''linked'' \<and> current = Some u)
     \<or> (how = ''created'' \<and> current = None \<and> allow \<and> get_user (us_id u) (w_db w) = None \<and> get_user (us_id u) (w_db w') = Some u
        \<and> get_user_by_email (us_email u) (w_db w) = None \<and> \<not> us_is_admin u \<and> us_password_hash u = None)"
    "db_wf (w_db w')" by auto
qed

text \<open>Signing in with an OAuth account. Who gets in has a verified address and is the one user the OAuth
  account is linked to afterwards; no account that was linked changes hands. An account already linked
  signs its user in and changes nothing, unless that user is suspended or somebody else is signed in;
  somebody signed in gets the account linked to themselves; otherwise a new user is made, whose address no
  user had, who is no administrator and has no password.\<close>

theorem oauth_login_respects_links:
  assumes "complete_oauth_login cr ai i current allow cid source w = (Inr (u, how), w')" "db_wf (w_db w)"
  shows "oi_email_verified i \<and> link_owner (oi_provider i) (oi_provider_uid i) (w_db w') = Some (us_id u)
    \<and> (\<forall>p q owner. link_owner p q (w_db w) = Some owner \<longrightarrow> link_owner p q (w_db w') = Some owner)
    \<and> ((how = ''existing_link'' \<and> w' = w \<and> get_user (us_id u) (w_db w) = Some u \<and> \<not> us_suspended u
        \<and> (\<forall>c. current = Some c \<longrightarrow> us_id c = us_id u))
     \<or> (how = ''linked'' \<and> current = Some u)
     \<or> (how = ''created'' \<and> current = None \<and> allow \<and> get_user (us_id u) (w_db w) = None \<and> get_user (us_id u) (w_db w') = Some u
        \<and> get_user_by_email (us_email u) (w_db w) = None \<and> \<not> us_is_admin u \<and> us_password_hash u = None))
    \<and> db_wf (w_db w')"
  using oauth_login_respects_links_parts [OF assms] by blast

theorem oauth_login_respects_links_witness:
  "\<exists>u w'. complete_oauth_login sample_crypto sample_account_inputs (sample_identity ''g2'' ''U !'') None True None ''web'' (linked_world [])
       = (Inr (u, ''created''), w')
     \<and> link_owner ''google'' ''g2'' (w_db w') = Some (us_id u) \<and> link_owner ''google'' ''g1'' (w_db w') = Some ''u''"
proof -
  let ?run = "complete_oauth_login sample_crypto sample_account_inputs (sample_identity ''g2'' ''U !'') None True None ''web'' (linked_world [])"
  have ok: "\<not> isl (fst ?run) \<and> snd (projr (fst ?run)) = ''created''" by code_simp
  then obtain u w' where r: "?run = (Inr (u, ''created''), w')"
    by (metis Inr_projr prod.collapse)
  have wf: "db_wf (w_db (linked_world []))" using linked_world_wf by simp
  have old: "link_owner ''google'' ''g1'' (w_db (linked_world [])) = Some ''u''"
    by (simp add: link_owner_def get_user_sso_link_def find_row_Cons sample_link_def)
  have "oi_provider (sample_identity ''g2'' ''U !'') = ''google''" "oi_provider_uid (sample_identity ''g2'' ''U !'') = ''g2''"
    by (simp_all add: sample_identity_def)
  with oauth_login_respects_links [OF r wf] old r show ?thesis by auto
qed

section \<open>Disconnecting\<close>

definition has_login_method :: "string \<Rightarrow> db \<Rightarrow> bool" where
  "has_login_method uid d =
     (case get_user uid d of Some u \<Rightarrow> us_password_hash u \<noteq> None \<or> list_user_sso_links uid d \<noteq> [] | None \<Rightarrow> False)"

lemma list_user_sso_links_delete:
  "list_user_sso_links v (snd (delete_user_sso_link uid provider d)) =
     filter (\<lambda>l. v \<noteq> uid \<or> sl_provider l \<noteq> provider) (list_user_sso_links v d)"
proof -
  have "filter (\<lambda>l. sl_user_id l = v) (delete_where (\<lambda>l. sl_user_id l = uid \<and> sl_provider l = provider) ls)
      = filter (\<lambda>l. v \<noteq> uid \<or> sl_provider l \<noteq> provider) (filter (\<lambda>l. sl_user_id l = v) ls)" for ls
    by (induction ls) (auto simp: delete_where_def)
  from this [of "db_sso_links d"] show ?thesis
    by (simp add: list_user_sso_links_def delete_user_sso_link_def Let_def filter_sort del: filter_filter)
qed

lemma disconnecting_keeps_a_login_method_parts:
  assumes "get_user (us_id u) (w_db w) = Some u" "disconnect_oauth_provider u provider w = (r, w')"
  shows "r = Inl e \<Longrightarrow> w' = w"
    and "has_login_method v (w_db w) \<Longrightarrow> has_login_method v (w_db w')"
    and "r = Inr () \<Longrightarrow> list_user_sso_links v (w_db w') =
      (if v = us_id u then filter (\<lambda>l. sl_provider l \<noteq> provider) (list_user_sso_links v (w_db w)) else list_user_sso_links v (w_db w))"
    and "r = Inr () \<Longrightarrow> list_user_sso_links (us_id u) (w_db w') \<noteq> list_user_sso_links (us_id u) (w_db w)"
proof -
  let ?links = "list_user_sso_links (us_id u) (w_db w)"
  let ?rest = "filter (\<lambda>l. sl_provider l \<noteq> provider) ?links"
  let ?d = "snd (delete_user_sso_link (us_id u) provider (w_db w))"
  have ls: "list_user_sso_links v ?d = (if v = us_id u then filter (\<lambda>l. sl_provider l \<noteq> provider) (list_user_sso_links v (w_db w))
      else list_user_sso_links v (w_db w))" for v
    by (simp add: list_user_sso_links_delete)
  have gu: "get_user v ?d = get_user v (w_db w)" for v
    by (rule get_user_cong) (simp_all add: delete_user_sso_link_def Let_def)
  have c: "(\<exists>x. r = Inl x \<and> w' = w) \<or> (r = Inr () \<and> w' = with_db w ?d \<and> length ?rest \<noteq> length ?links
      \<and> (us_password_hash u \<noteq> None \<or> ?rest \<noteq> []))"
    using assms(2) unfolding disconnect_oauth_provider_def Let_def by (auto split: if_splits)
  then show "r = Inl e \<Longrightarrow> w' = w" by auto
  show "r = Inr () \<Longrightarrow> list_user_sso_links v (w_db w') =
      (if v = us_id u then filter (\<lambda>l. sl_provider l \<noteq> provider) (list_user_sso_links v (w_db w)) else list_user_sso_links v (w_db w))"
    using c ls by auto
  show "r = Inr () \<Longrightarrow> list_user_sso_links (us_id u) (w_db w') \<noteq> ?links" using c ls [of "us_id u"] by (metis Inr_Inl_False world_sel(9))
  show "has_login_method v (w_db w')" if "has_login_method v (w_db w)"
    using c
  proof
    assume "r = Inr () \<and> w' = with_db w ?d \<and> length ?rest \<noteq> length ?links \<and> (us_password_hash u \<noteq> None \<or> ?rest \<noteq> [])"
    with that assms(1) ls [of v] gu show ?thesis
      by (cases "v = us_id u") (auto simp: has_login_method_def split: option.splits)
  qed (use that in auto)
qed

text \<open>Disconnecting a provider removes exactly the links of this user to it and never takes the last login
  method from anybody; refused (the provider is not linked, or nothing would remain), it changes nothing.\<close>

theorem disconnecting_keeps_a_login_method:
  assumes "get_user (us_id u) (w_db w) = Some u" "disconnect_oauth_provider u provider w = (r, w')"
  shows "(\<forall>e. r = Inl e \<longrightarrow> w' = w)
    \<and> (\<forall>v. has_login_method v (w_db w) \<longrightarrow> has_login_method v (w_db w'))
    \<and> (r = Inr () \<longrightarrow> (\<forall>v. list_user_sso_links v (w_db w') =
      (if v = us_id u then filter (\<lambda>l. sl_provider l \<noteq> provider) (list_user_sso_links v (w_db w)) else list_user_sso_links v (w_db w)))
      \<and> list_user_sso_links (us_id u) (w_db w') \<noteq> list_user_sso_links (us_id u) (w_db w))"
  using disconnecting_keeps_a_login_method_parts [OF assms] by blast

definition sample_links :: "user_sso_link list" where
  "sample_links = [sample_link, sample_link\<lparr>sl_id := ''l2'', sl_provider := ''github''\<rparr>]"

theorem disconnecting_keeps_a_login_method_witness:
  "let w = with_db (sample_world []) (sample_db\<lparr>db_sso_links := sample_links\<rparr>);
       u = row_to_user sample_db (sample_user_row ''u'' False);
       w' = snd (disconnect_oauth_provider u ''google'' w)
   in has_login_method ''u'' (w_db w) \<and> has_login_method ''u'' (w_db w')
      \<and> isl (fst (disconnect_oauth_provider u ''github'' w'))"
proof -
  let ?w = "with_db (sample_world []) (sample_db\<lparr>db_sso_links := sample_links\<rparr>)"
  let ?u = "row_to_user sample_db (sample_user_row ''u'' False)"
  let ?run = "disconnect_oauth_provider ?u ''google'' ?w"
  have g: "get_user (us_id ?u) (w_db ?w) = Some ?u"
    by (simp add: get_user_def find_row_Cons sample_defs row_to_user_def empty_db_def)
  have h: "has_login_method ''u'' (w_db ?w)" by code_simp
  have l: "isl (fst (disconnect_oauth_provider ?u ''github'' (snd ?run)))" by code_simp
  have "has_login_method ''u'' (w_db (snd ?run))"
    using disconnecting_keeps_a_login_method [OF g prod.collapse [symmetric]] h by blast
  with h l show ?thesis by (simp add: Let_def)
qed

end
