(* ===== verification/Usage_Props.thy ===== *)
theory Usage_Props
  imports Account_Props
begin

text \<open>
  The accounts of storage: the listing of all users, the page of it, the view of one user and the totals
  are computed in four ways (dictionaries filled in one pass, SQL aggregates, sums over one user's rows)
  and agree. Then what deleting a user removes.
\<close>

section \<open>The three computations of a user's usage\<close>

definition usage_of :: "string \<Rightarrow> db \<Rightarrow> usage" where
  "usage_of uid d =
     \<lparr>ug_album_count = int (length (filter (\<lambda>a. al_user_id a = Some uid) (db_albums d))),
      ug_media_count = int (length (filter (\<lambda>m. md_user_id m = Some uid) (db_media d))),
      ug_storage_used_bytes = sum_list (map media_bytes (filter (\<lambda>m. md_user_id m = Some uid) (db_media d)))\<rparr>"

lemma sum_list_sort: "sum_list (map f (sort_key k xs)) = (sum_list (map f xs) :: int)"
  by (metis mset_map mset_sort sum_mset_sum_list)

lemma length_filter_sort: "length (filter P (sort_key k xs)) = length (filter P xs)"
  by (simp add: filter_sort)

lemma usage_of_user: "user_usage_of u d = usage_of (us_id u) d"
  by (simp add: user_usage_of_def usage_of_def list_user_media_def list_user_albums_def storage_bytes_sum sum_list_sort)

lemma get_or_zero_add: "get_or_zero (add_at k n m) x = get_or_zero m x + (if x = k then n else 0)"
  by (simp add: get_or_zero_def add_at_def)

lemma count_albums_fold:
  "get_or_zero (fold (\<lambda>a c. case al_user_id a of None \<Rightarrow> c | Some u \<Rightarrow> add_at u 1 c) as c) x =
     get_or_zero c x + int (length (filter (\<lambda>a. al_user_id a = Some x) as))"
  by (induction as arbitrary: c) (auto simp: get_or_zero_add split: option.splits)

definition count_step :: "media \<Rightarrow> (string \<rightharpoonup> int) \<times> (string \<rightharpoonup> int) \<Rightarrow> (string \<rightharpoonup> int) \<times> (string \<rightharpoonup> int)" where
  "count_step m c = (case c of (used, n) \<Rightarrow> case md_user_id m of None \<Rightarrow> (used, n)
       | Some u \<Rightarrow>
           let used1 = add_at u (md_file_size m) used;
               used2 = (if truthy (md_thumb_key m) \<and> md_thumb_key m \<noteq> Some (md_storage_key m)
                        then add_at u (or_zero (md_thumb_size m)) used1 else used1)
           in (used2, add_at u 1 n))"

lemma count_step_sel:
  "get_or_zero (fst (count_step m c)) x = get_or_zero (fst c) x + (if md_user_id m = Some x then media_bytes m else 0)"
  "get_or_zero (snd (count_step m c)) x = get_or_zero (snd c) x + (if md_user_id m = Some x then 1 else 0)"
  by (cases c; cases "md_user_id m"; simp add: count_step_def Let_def get_or_zero_add media_bytes_def)+

lemma count_media_fold:
  "get_or_zero (fst (fold count_step ms c)) x =
     get_or_zero (fst c) x + sum_list (map media_bytes (filter (\<lambda>m. md_user_id m = Some x) ms))"
  "get_or_zero (snd (fold count_step ms c)) x = get_or_zero (snd c) x + int (length (filter (\<lambda>m. md_user_id m = Some x) ms))"
  by (induction ms arbitrary: c) (auto simp: count_step_sel)

lemma count_media_steps: "count_media ms = fold count_step ms (Map.empty, Map.empty)"
  unfolding count_media_def by (intro arg_cong [where f = "\<lambda>f. fold f ms (Map.empty, Map.empty)"] ext) (simp add: count_step_def)

lemma dictionary_usage:
  "\<lparr>ug_album_count = get_or_zero (count_albums (list_albums d)) uid, ug_media_count = get_or_zero (snd (count_media (list_all_media d))) uid,
    ug_storage_used_bytes = get_or_zero (fst (count_media (list_all_media d))) uid\<rparr> = usage_of uid d"
  by (simp add: usage_of_def count_albums_def count_albums_fold count_media_steps count_media_fold list_albums_def list_all_media_def
      filter_sort sum_list_sort) (simp add: get_or_zero_def)

lemma sql_media_bytes_eq: "md_thumb_key m \<noteq> Some [] \<Longrightarrow> sql_media_bytes m = media_bytes m"
  by (cases "md_thumb_key m") (auto simp: sql_media_bytes_def media_bytes_def)

lemma summarize_usage:
  assumes "\<forall>m\<in>set (db_media d). md_thumb_key m \<noteq> Some []" "uid \<in> set ids"
  shows "map_of (summarize_users ids d) uid = Some (usage_of uid d)"
proof -
  have "sum_list (map sql_media_bytes (filter (\<lambda>m. md_user_id m = Some uid) (db_media d)))
      = sum_list (map media_bytes (filter (\<lambda>m. md_user_id m = Some uid) (db_media d)))"
    using assms(1) by (intro arg_cong [where f = sum_list] map_cong) (auto simp: sql_media_bytes_eq)
  then show ?thesis
    using assms(2) unfolding summarize_users_def Let_def usage_of_def
    by (subst map_of_map_restrict) (simp add: restrict_map_def)
qed

text \<open>The items fall to the users and to nobody.\<close>

lemma sum_one_user:
  assumes "distinct ids" "u \<in> set ids"
  shows "sum_list (map (\<lambda>i. if i = u then b else (0::int)) ids) = b"
proof -
  have "u \<notin> set xs \<Longrightarrow> sum_list (map (\<lambda>i. if i = u then b else 0) xs) = 0" for xs by (induction xs) auto
  with assms show ?thesis by (induction ids) auto
qed

lemma users_partition_items:
  assumes "distinct ids" "\<forall>m\<in>set ms. \<forall>u. md_user_id m = Some u \<longrightarrow> u \<in> set ids"
  shows "sum_list (map (\<lambda>i. sum_list (map media_bytes (filter (\<lambda>m. md_user_id m = Some i) ms))) ids)
      + sum_list (map media_bytes (filter (\<lambda>m. md_user_id m = None) ms)) = sum_list (map media_bytes ms)"
  using assms(2)
proof (induction ms)
  case (Cons m ms)
  show ?case
  proof (cases "md_user_id m")
    case None
    with Cons show ?thesis by simp
  next
    case (Some u)
    have "sum_list (map (\<lambda>i. sum_list (map media_bytes (filter (\<lambda>m. md_user_id m = Some i) (m # ms)))) ids)
        = sum_list (map (\<lambda>i. (if i = u then media_bytes m else 0) + sum_list (map media_bytes (filter (\<lambda>m. md_user_id m = Some i) ms))) ids)"
      using Some by (intro arg_cong [where f = sum_list] map_cong) auto
    also have "\<dots> = media_bytes m + sum_list (map (\<lambda>i. sum_list (map media_bytes (filter (\<lambda>m. md_user_id m = Some i) ms))) ids)"
      using sum_one_user [OF assms(1), of u "media_bytes m"] Cons.prems Some by (simp add: sum_list_addf)
    finally show ?thesis using Cons Some by simp
  qed
qed simp

lemma users_partition_media:
  assumes "db_wf d"
  shows "sum_list (map (\<lambda>r. sum_list (map media_bytes (filter (\<lambda>m. md_user_id m = Some (ur_id r)) (db_media d)))) (db_users d))
      + sum_list (map media_bytes (filter (\<lambda>m. md_user_id m = None) (db_media d))) = sum_list (map media_bytes (db_media d))"
proof -
  have "distinct (map ur_id (db_users d))" using user_keys [OF assms] by (simp add: keys_distinct_def)
  moreover have "\<forall>m\<in>set (db_media d). \<forall>u. md_user_id m = Some u \<longrightarrow> u \<in> set (map ur_id (db_users d))"
    using assms by (fastforce simp: db_wf_def fks_ok_def user_exists_def)
  ultimately show ?thesis using users_partition_items [of "map ur_id (db_users d)" "db_media d"] by (simp add: comp_def)
qed

section \<open>The listings agree\<close>

text \<open>The entry a user has in every listing.\<close>

definition user_entry :: "(string \<Rightarrow> err + int) \<Rightarrow> db \<Rightarrow> user \<Rightarrow> err + user_usage" where
  "user_entry cfg d u = and_then (effective_quota cfg u) (\<lambda>quota. Inr (user_item u quota (usage_of (us_id u) d)))"

lemma map_results_cong: "(\<And>x. x \<in> set xs \<Longrightarrow> f x = g x) \<Longrightarrow> map_results f xs = map_results g xs"
  by (induction xs) auto

lemma map_results_Inr: "map_results f xs = Inr ys \<longleftrightarrow> list_all2 (\<lambda>x y. f x = Inr y) xs ys"
  by (induction xs arbitrary: ys) (auto simp: list_all2_Cons1)

lemma list_users_with_usage_entries: "list_users_with_usage cfg d = map_results (user_entry cfg d) (list_users d)"
  unfolding list_users_with_usage_def Let_def user_entry_def dictionary_usage [symmetric] by (simp add: case_prod_beta)

lemma user_entry_SomeD: "user_entry cfg d u = Inr x \<Longrightarrow> uu_user x = u \<and> uu_usage x = usage_of (us_id u) d"
  by (auto simp: user_entry_def user_item_def)

lemma list_users_filtered_set: "fst (list_users_filtered q a s lim ofs d) = us \<Longrightarrow> set us \<subseteq> row_to_user d ` set (db_users d)"
  by (auto simp: list_users_filtered_def Let_def page_def order_desc_def dest!: in_set_takeD in_set_dropD)

lemma page_entries:
  assumes "\<forall>m\<in>set (db_media d). md_thumb_key m \<noteq> Some []"
    and "list_users_with_usage_page cfg q a s lim ofs d = Inr pg"
  shows "map_results (user_entry cfg d) (fst (list_users_filtered q a s lim ofs d)) = Inr (up_items pg)"
proof -
  obtain us n where us: "list_users_filtered q a s lim ofs d = (us, n)" by force
  have "map_results (\<lambda>u. and_then (effective_quota cfg u) (\<lambda>quota.
          Inr (user_item u quota (case map_of (summarize_users (map us_id us) d) (us_id u) of Some s \<Rightarrow> s | None \<Rightarrow> no_usage)))) us
      = map_results (user_entry cfg d) us"
    by (rule map_results_cong) (simp add: user_entry_def summarize_usage [OF assms(1)])
  with assms(2) us show ?thesis by (auto simp: list_users_with_usage_page_def Let_def)
qed

lemma usage_reports_agree_parts:
  assumes "db_wf d" "\<forall>m\<in>set (db_media d). md_thumb_key m \<noteq> Some []" "list_users_with_usage cfg d = Inr items"
  shows "map uu_user items = list_users d"
    and "x \<in> set items \<Longrightarrow> get_user_with_usage_for_admin cfg (us_id (uu_user x)) d = Inr x"
    and "list_users_with_usage_page cfg q a s lim ofs d = Inr pg \<Longrightarrow> set (up_items pg) \<subseteq> set items"
    and "global_storage_stats cfg d = Inr so \<Longrightarrow>
      so_total_storage_used_bytes so = sum_list (map (\<lambda>x. ug_storage_used_bytes (uu_usage x)) items) + so_anonymous_storage_used_bytes so"
proof -
  have all: "list_all2 (\<lambda>u x. user_entry cfg d u = Inr x) (list_users d) items"
    using assms(3) by (simp add: list_users_with_usage_entries map_results_Inr)
  show users: "map uu_user items = list_users d"
    using all by (induction) (auto dest: user_entry_SomeD)
  have entry: "user_entry cfg d (uu_user x) = Inr x" if "x \<in> set items" for x
    using all that by (induction) (auto dest: user_entry_SomeD)
  have from_row: "\<exists>r\<in>set (db_users d). uu_user x = row_to_user d r" if "x \<in> set items" for x
  proof -
    have "uu_user x \<in> set (list_users d)" using that users [symmetric] by simp
    then show ?thesis by (auto simp: list_users_def)
  qed
  show "get_user_with_usage_for_admin cfg (us_id (uu_user x)) d = Inr x" if "x \<in> set items"
  proof -
    from from_row [OF that] obtain r where "r \<in> set (db_users d)" "uu_user x = row_to_user d r" by auto
    with get_user_row [OF assms(1)] have "get_user (us_id (uu_user x)) d = Some (uu_user x)" by simp
    with entry [OF that] show ?thesis by (simp add: get_user_with_usage_for_admin_def user_entry_def usage_of_user)
  qed
  have ex: "\<exists>x\<in>set items. user_entry cfg d u = Inr x" if "u \<in> row_to_user d ` set (db_users d)" for u
  proof -
    from that have "u \<in> set (list_users d)" by (auto simp: list_users_def)
    with users obtain x where "x \<in> set items" "uu_user x = u" by (metis imageE list.set_map)
    with entry show ?thesis by auto
  qed
  show "set (up_items pg) \<subseteq> set items" if "list_users_with_usage_page cfg q a s lim ofs d = Inr pg"
  proof
    fix y assume y: "y \<in> set (up_items pg)"
    from page_entries [OF assms(2) that]
    have "list_all2 (\<lambda>u x. user_entry cfg d u = Inr x) (fst (list_users_filtered q a s lim ofs d)) (up_items pg)"
      by (simp add: map_results_Inr)
    moreover from y obtain i where "i < length (up_items pg)" "y = up_items pg ! i" by (auto simp: in_set_conv_nth)
    ultimately have "fst (list_users_filtered q a s lim ofs d) ! i \<in> set (fst (list_users_filtered q a s lim ofs d))"
      "user_entry cfg d (fst (list_users_filtered q a s lim ofs d) ! i) = Inr y"
      by (auto simp: list_all2_conv_all_nth)
    then obtain u where "u \<in> set (fst (list_users_filtered q a s lim ofs d))" "user_entry cfg d u = Inr y" by blast
    with list_users_filtered_set [OF refl] ex show "y \<in> set items" by fastforce
  qed
  show "so_total_storage_used_bytes so = sum_list (map (\<lambda>x. ug_storage_used_bytes (uu_usage x)) items) + so_anonymous_storage_used_bytes so"
    if "global_storage_stats cfg d = Inr so"
  proof -
    have "map (\<lambda>x. ug_storage_used_bytes (uu_usage x)) items = map (\<lambda>u. ug_storage_used_bytes (usage_of (us_id u) d)) (list_users d)"
      using all by (induction) (auto dest: user_entry_SomeD)
    then have "sum_list (map (\<lambda>x. ug_storage_used_bytes (uu_usage x)) items)
        = sum_list (map (\<lambda>r. ug_storage_used_bytes (usage_of (ur_id r) d)) (db_users d))"
      by (simp add: list_users_def comp_def sum_list_sort)
    moreover have "sum_list (map (\<lambda>r. ug_storage_used_bytes (usage_of (ur_id r) d)) (db_users d))
        + sum_list (map media_bytes (filter (\<lambda>m. md_user_id m = None) (db_media d))) = sum_list (map media_bytes (db_media d))"
      using users_partition_media assms(1) by (simp add: usage_of_def)
    ultimately show ?thesis
      using that by (auto simp: global_storage_stats_def Let_def storage_bytes_sum list_all_media_def filter_sort sum_list_sort)
  qed
qed

text \<open>C27: Every report gives the same figures. An entry of the full listing (dictionaries filled in one pass over
  all albums and items) is the entry the view of this user gives (sums over the user's own rows); the entries
  of any page (SQL aggregates) are entries of the full listing; and the entries' bytes with those of anonymous
  items add up to the total of the overview. Assumed: no item has an empty thumbnail key, which is what makes
  SQL's test \<^verbatim>\<open>IS NOT NULL\<close> and Python's truth value the same test.\<close>

theorem usage_reports_agree:
  assumes "db_wf d" "\<forall>m\<in>set (db_media d). md_thumb_key m \<noteq> Some []" "list_users_with_usage cfg d = Inr items"
  shows "map uu_user items = list_users d
    \<and> (\<forall>x\<in>set items. get_user_with_usage_for_admin cfg (us_id (uu_user x)) d = Inr x)
    \<and> (\<forall>q a s lim ofs pg. list_users_with_usage_page cfg q a s lim ofs d = Inr pg \<longrightarrow> set (up_items pg) \<subseteq> set items)
    \<and> (\<forall>so. global_storage_stats cfg d = Inr so \<longrightarrow>
      so_total_storage_used_bytes so = sum_list (map (\<lambda>x. ug_storage_used_bytes (uu_usage x)) items) + so_anonymous_storage_used_bytes so)"
  using usage_reports_agree_parts [OF assms] by blast

definition sample_cfg_int :: "string \<Rightarrow> err + int" where
  "sample_cfg_int k = Inr 100"

lemma sample_listing: "\<not> isl (list_users_with_usage sample_cfg_int sample_db)"
  by code_simp

theorem usage_reports_agree_witness:
  "\<exists>items. list_users_with_usage sample_cfg_int sample_db = Inr items
     \<and> (\<forall>x\<in>set items. get_user_with_usage_for_admin sample_cfg_int (us_id (uu_user x)) sample_db = Inr x)"
proof -
  from sample_listing obtain items where l: "list_users_with_usage sample_cfg_int sample_db = Inr items"
    by (cases "list_users_with_usage sample_cfg_int sample_db") auto
  have t: "\<forall>m\<in>set (db_media sample_db). md_thumb_key m \<noteq> Some []" by (simp add: sample_defs)
  show ?thesis using usage_reports_agree [OF sample_db_wf t l] l by blast
qed

section \<open>Deleting a user\<close>

lemma storage_keys_deleted:
  "st_objects (snd (del_until st_delete ks s)) k = st_objects s k \<or> (k \<in> set ks \<and> st_objects (snd (del_until st_delete ks s)) k = None)"
  by (rule fs.del_until_shrinks)

text \<open>
  Every item belongs to the owner of its album, as all uploads leave it: an upload into an album needs its
  owner signed in, or, for an album of nobody, its token.
\<close>

definition items_owned :: "db \<Rightarrow> bool" where
  "items_owned d = (\<forall>m\<in>set (db_media d). \<forall>a\<in>set (db_albums d). al_id a = md_album_id m \<longrightarrow> md_user_id m = al_user_id a)"

lemma in_albums_of:
  assumes "items_owned d" "db_wf d" "m \<in> set (db_media d)"
  shows "md_album_id m \<in> al_id ` {a \<in> set (db_albums d). al_user_id a = Some uid} \<longleftrightarrow> md_user_id m = Some uid"
proof
  assume "md_album_id m \<in> al_id ` {a \<in> set (db_albums d). al_user_id a = Some uid}"
  with assms(1,3) show "md_user_id m = Some uid" by (fastforce simp: items_owned_def)
next
  assume u: "md_user_id m = Some uid"
  from db_wf_fk_media [OF assms(2,3)] obtain a where "a \<in> set (db_albums d)" "al_id a = md_album_id m"
    by (auto simp: album_exists_def)
  with assms(1,3) u show "md_album_id m \<in> al_id ` {a \<in> set (db_albums d). al_user_id a = Some uid}"
    by (force simp: items_owned_def)
qed

lemma cascade_user_media:
  assumes "items_owned d" "db_wf d"
  shows "db_media (cascade_user uid d) = delete_where (\<lambda>m. md_user_id m = Some uid) (db_media d)"
proof -
  have "delete_where (\<lambda>m. md_album_id m \<in> set (map al_id (filter (\<lambda>a. al_user_id a = Some uid) (db_albums d)))) (db_media d)
      = delete_where (\<lambda>m. md_user_id m = Some uid) (db_media d)"
    unfolding delete_where_def using in_albums_of [OF assms] by (intro filter_cong) auto
  moreover have "update_where (\<lambda>m. md_user_id m = Some uid) (\<lambda>m. m\<lparr>md_user_id := None\<rparr>) (delete_where (\<lambda>m. md_user_id m = Some uid) ms)
      = delete_where (\<lambda>m. md_user_id m = Some uid) ms" for ms
    by (rule update_where_none) auto
  ultimately show ?thesis
    by (simp add: cascade_user_def cascade_album_def Let_def)
qed

lemma cascade_user_sel [simp]:
  "db_users (cascade_user uid d) = delete_where (\<lambda>r. ur_id r = uid) (db_users d)"
  "db_albums (cascade_user uid d) = delete_where (\<lambda>a. al_user_id a = Some uid) (db_albums d)"
  "db_rate_limits (cascade_user uid d) = delete_where (\<lambda>r. rl_user_id r = uid) (db_rate_limits d)"
  by (simp_all add: cascade_user_def cascade_album_def Let_def)

lemma get_user_cascade:
  assumes "db_wf d" "v \<noteq> uid"
  shows "get_user v (cascade_user uid d) = get_user v d"
proof -
  have k: "keys_distinct ur_id (db_users d)" "keys_distinct rl_user_id (db_rate_limits d)"
    using assms(1) by (auto simp: db_wf_def keys_ok_def)
  have "find_row ur_id v (db_users (cascade_user uid d)) = find_row ur_id v (db_users d)"
    using assms(2) by (auto simp: find_row_delete_where k split: option.splits dest: find_row_SomeD)
  moreover have "row_to_user (cascade_user uid d) r = row_to_user d r" if "ur_id r = v" for r
    using assms(2) that by (auto simp: row_to_user_def find_row_delete_where k Let_def split: option.splits dest: find_row_SomeD)
  ultimately show ?thesis
    by (cases "find_row ur_id v (db_users d)") (auto simp: get_user_def dest: find_row_SomeD)
qed

abbreviation revoked :: "time \<Rightarrow> string \<Rightarrow> db \<Rightarrow> db" where
  "revoked now uid d \<equiv> snd (revoke_sharex_delete_capabilities_for_user now uid d)"

lemma revoked_sel [simp]:
  "db_users (revoked now uid d) = db_users d" "db_rate_limits (revoked now uid d) = db_rate_limits d"
  "db_albums (revoked now uid d) = db_albums d" "db_media (revoked now uid d) = db_media d"
  by (simp_all add: revoke_sharex_delete_capabilities_for_user_def)

lemma db_wf_revoked: "db_wf d \<Longrightarrow> db_wf (revoked now uid d)"
  by (simp add: revoke_sharex_delete_capabilities_for_user_def db_wf_revoke)

definition user_keys_of :: "string \<Rightarrow> db \<Rightarrow> string list" where
  "user_keys_of uid d = storage_keys_for_media (list_user_media uid d)"

lemma delete_user_cases:
  assumes "get_user uid (w_db w) = Some u" "delete_user_by_id now uid cid by actor w = (r, w')"
  shows "(\<exists>e s. r = Inl e \<and> del_until st_delete (user_keys_of uid (w_db w)) (w_store w) = (Inl e, s)
            \<and> w' = with_store (with_db w (revoked now uid (w_db w))) s)
      \<or> (\<exists>n s. r = Inr n \<and> del_until st_delete (user_keys_of uid (w_db w)) (w_store w) = (Inr (), s)
            \<and> w_db w' = cascade_user uid (revoked now uid (w_db w)) \<and> w_store w' = s
            \<and> n = (int (length (list_user_albums uid (w_db w))), int (length (list_user_media uid (w_db w)))))"
proof -
  have uid: "us_id u = uid" using get_user_SomeD [OF assms(1)] by simp
  have same: "list_user_media uid (revoked now uid (w_db w)) = list_user_media uid (w_db w)"
    "list_user_albums uid (revoked now uid (w_db w)) = list_user_albums uid (w_db w)"
    "get_user uid (revoked now uid (w_db w)) = Some u"
    using assms(1) by (simp_all add: list_user_media_def list_user_albums_def get_user_cong [of "revoked now uid (w_db w)" "w_db w"])
  obtain q s where q: "del_until st_delete (user_keys_of uid (w_db w)) (w_store w) = (q, s)" by force
  show ?thesis
  proof (cases q)
    case (Inl e)
    with assms q show ?thesis by (simp add: delete_user_by_id_def uid same user_keys_of_def Let_def)
  next
    case (Inr x)
    with assms q show ?thesis by (auto simp: delete_user_by_id_def uid same user_keys_of_def Let_def repo_delete_user_def)
  qed
qed

lemma deleted_user_leaves_nothing_parts:
  assumes "get_user uid (w_db w) = Some u" "db_wf (w_db w)" "items_owned (w_db w)"
    and "delete_user_by_id now uid cid by actor w = (r, w')"
  shows "r = Inr n \<Longrightarrow> get_user uid (w_db w') = None
      \<and> db_media (w_db w') = filter (\<lambda>m. md_user_id m \<noteq> Some uid) (db_media (w_db w))
      \<and> db_albums (w_db w') = filter (\<lambda>a. al_user_id a \<noteq> Some uid) (db_albums (w_db w))"
    and "r = Inr n \<Longrightarrow> st_objects (w_store w') k = (if k \<in> set (user_keys_of uid (w_db w)) then None else st_objects (w_store w) k)"
    and "v \<noteq> uid \<Longrightarrow> get_user v (w_db w') = get_user v (w_db w)"
    and "db_wf (w_db w')"
    and "r = Inl e \<Longrightarrow> db_users (w_db w') = db_users (w_db w) \<and> db_albums (w_db w') = db_albums (w_db w)
      \<and> db_media (w_db w') = db_media (w_db w) \<and> w_db w' = revoked now uid (w_db w)
      \<and> (\<exists>k\<in>set (user_keys_of uid (w_db w)). st_faulty (w_store w) (SDelete k))
      \<and> (st_objects (w_store w') k = st_objects (w_store w) k \<or> k \<in> set (user_keys_of uid (w_db w)))"
proof -
  let ?d = "revoked now uid (w_db w)" and ?ks = "user_keys_of uid (w_db w)"
  have own: "items_owned ?d" using assms(3) by (simp add: items_owned_def)
  have wf: "db_wf ?d" using assms(2) by (rule db_wf_revoked)
  note c = delete_user_cases [OF assms(1,4)]
  have gone: "w_db w' = cascade_user uid ?d \<and> w_store w' = snd (del_until st_delete ?ks (w_store w))
      \<and> (\<forall>k\<in>set ?ks. \<not> st_faulty (w_store w) (SDelete k))" if "r = Inr n" for n
    using c that by (auto simp: fs.del_until_ok_iff [symmetric])
  have kept: "w_db w' = ?d \<and> w_store w' = snd (del_until st_delete ?ks (w_store w))
      \<and> (\<exists>k\<in>set ?ks. st_faulty (w_store w) (SDelete k))" if "r = Inl e" for e
    using c that fs.del_until_ok_iff [of ?ks "w_store w"] by auto
  show "get_user uid (w_db w') = None \<and> db_media (w_db w') = filter (\<lambda>m. md_user_id m \<noteq> Some uid) (db_media (w_db w))
      \<and> db_albums (w_db w') = filter (\<lambda>a. al_user_id a \<noteq> Some uid) (db_albums (w_db w))" if "r = Inr n"
    using gone [OF that] cascade_user_media [OF own wf] by (simp add: delete_where_def get_user_def find_row_None_iff)
  show "st_objects (w_store w') k = (if k \<in> set ?ks then None else st_objects (w_store w) k)" if "r = Inr n"
    using gone [OF that] by (simp add: fs.del_until_objs_ok)
  show "get_user v (w_db w') = get_user v (w_db w)" if "v \<noteq> uid"
  proof (cases r)
    case (Inl e)
    with kept show ?thesis by (simp add: get_user_cong [of ?d "w_db w"])
  next
    case (Inr n)
    with gone get_user_cascade [OF wf that] show ?thesis by (simp add: get_user_cong [of ?d "w_db w"])
  qed
  show "db_wf (w_db w')" using gone kept wf db_wf_cascade_user [OF wf] by (cases r) auto
  show "db_users (w_db w') = db_users (w_db w) \<and> db_albums (w_db w') = db_albums (w_db w)
      \<and> db_media (w_db w') = db_media (w_db w) \<and> w_db w' = ?d \<and> (\<exists>k\<in>set ?ks. st_faulty (w_store w) (SDelete k))
      \<and> (st_objects (w_store w') k = st_objects (w_store w) k \<or> k \<in> set ?ks)" if "r = Inl e"
    using kept [OF that] storage_keys_deleted [of ?ks "w_store w" k] by auto
qed

text \<open>C28: Deleting a user. When it succeeds the user is gone with exactly their albums and items, exactly the objects
  of those items are removed, and everybody else is as before. When storage refuses one of the objects, the user, the albums and
  the items are all still there, while objects may be missing already and the delete capabilities are revoked:
  rows then point at objects that are gone.\<close>

theorem deleted_user_leaves_nothing:
  assumes "get_user uid (w_db w) = Some u" "db_wf (w_db w)" "items_owned (w_db w)"
    and "delete_user_by_id now uid cid by actor w = (r, w')"
  shows "(\<forall>n. r = Inr n \<longrightarrow> get_user uid (w_db w') = None
      \<and> db_media (w_db w') = filter (\<lambda>m. md_user_id m \<noteq> Some uid) (db_media (w_db w))
      \<and> db_albums (w_db w') = filter (\<lambda>a. al_user_id a \<noteq> Some uid) (db_albums (w_db w))
      \<and> (\<forall>k. st_objects (w_store w') k = (if k \<in> set (user_keys_of uid (w_db w)) then None else st_objects (w_store w) k)))
    \<and> (\<forall>e. r = Inl e \<longrightarrow> w_db w' = revoked now uid (w_db w)
      \<and> db_users (w_db w') = db_users (w_db w) \<and> db_albums (w_db w') = db_albums (w_db w) \<and> db_media (w_db w') = db_media (w_db w)
      \<and> (\<exists>k\<in>set (user_keys_of uid (w_db w)). st_faulty (w_store w) (SDelete k))
      \<and> (\<forall>k. st_objects (w_store w') k = st_objects (w_store w) k \<or> k \<in> set (user_keys_of uid (w_db w))))
    \<and> (\<forall>v. v \<noteq> uid \<longrightarrow> get_user v (w_db w') = get_user v (w_db w)) \<and> db_wf (w_db w')"
  using deleted_user_leaves_nothing_parts [OF assms] by blast

text \<open>A deletion that succeeds, and one that the second object stops: the first is gone, its row is not.\<close>

theorem deleted_user_leaves_nothing_witness:
  "get_user ''u'' (w_db (snd (delete_user_by_id 0 ''u'' ''c'' ''admin'' None (sample_world [])))) = None
   \<and> (let (r, w) = delete_user_by_id 0 ''u'' ''c'' ''admin'' None (sample_world [SDelete ''k2''])
      in isl r \<and> db_media (w_db w) = db_media sample_db \<and> st_objects (w_store w) ''k1'' = None
         \<and> (\<exists>m\<in>set (db_media (w_db w)). md_storage_key m = ''k1''))"
proof -
  let ?run = "\<lambda>f. delete_user_by_id 0 ''u'' ''c'' ''admin'' None (sample_world f)"
  have u: "get_user ''u'' (w_db (sample_world f)) = Some (row_to_user sample_db (sample_user_row ''u'' False))" for f
    by (simp add: get_user_def find_row_Cons sample_defs)
  have o: "items_owned (w_db (sample_world f))" for f by (simp add: items_owned_def sample_defs)
  have wf: "db_wf (w_db (sample_world f))" for f using sample_db_wf by simp
  have "\<not> isl (fst (?run []))" by code_simp
  then obtain n where n: "?run [] = (Inr n, snd (?run []))" by (metis isl_def prod.collapse sum.exhaust)
  have isl: "isl (fst (?run [SDelete ''k2'']))" by code_simp
  then obtain e where e: "?run [SDelete ''k2''] = (Inl e, snd (?run [SDelete ''k2'']))" by (metis isl_def prod.collapse)
  have gone: "st_objects (w_store (snd (?run [SDelete ''k2'']))) ''k1'' = None" by code_simp
  have row: "\<exists>m\<in>set (db_media sample_db). md_storage_key m = ''k1''" by (simp add: sample_defs)
  show ?thesis
    using deleted_user_leaves_nothing [OF u wf o n] deleted_user_leaves_nothing [OF u wf o e] isl gone row
    by (auto simp: split_beta)
qed

end
