(* ===== verification/Tidying.thy ===== *)
theory Tidying
  imports Usage_Props Oauth_Props Upload_Props "HOL-Library.Sublist"
begin

text \<open>
  What every operation but an upload does to the albums and the items: it may drop some and change their
  other columns, but none changes hands, moves to another album or appears. The relation \<open>tidies\<close> says so,
  composes along calls, and is proved here operation by operation.
\<close>

section \<open>The relation\<close>

definition media_core :: "media \<Rightarrow> string \<times> string \<times> string option" where
  "media_core m = (md_id m, md_album_id m, md_user_id m)"

definition album_core :: "album \<Rightarrow> string \<times> string option \<times> string option" where
  "album_core a = (al_id a, al_user_id a, al_delete_token a)"

definition thins :: "db \<Rightarrow> db \<Rightarrow> bool" where
  "thins d d' = (subseq (map media_core (db_media d')) (map media_core (db_media d))
     \<and> subseq (map album_core (db_albums d')) (map album_core (db_albums d)))"

definition tidies :: "db \<Rightarrow> db \<Rightarrow> bool" where
  "tidies d d' = (db_wf d \<and> items_owned d \<longrightarrow> db_wf d' \<and> thins d d')"

named_theorems tidy_steps \<open>operations that tidy\<close>

lemma thins_refl [simp]: "thins d d"
  by (simp add: thins_def)

lemma thins_trans: "thins a b \<Longrightarrow> thins b c \<Longrightarrow> thins a c"
  unfolding thins_def by (blast intro: subseq_order.trans)

lemma subseq_set: "subseq xs ys \<Longrightarrow> x \<in> set xs \<Longrightarrow> x \<in> set ys"
  by (induction rule: list_emb.induct) auto

lemma thins_media: "thins d d' \<Longrightarrow> m' \<in> set (db_media d') \<Longrightarrow> \<exists>m\<in>set (db_media d). media_core m = media_core m'"
  unfolding thins_def using subseq_set by (metis imageE image_eqI list.set_map)

lemma thins_album: "thins d d' \<Longrightarrow> a' \<in> set (db_albums d') \<Longrightarrow> \<exists>a\<in>set (db_albums d). album_core a = album_core a'"
  unfolding thins_def using subseq_set by (metis imageE image_eqI list.set_map)

lemma items_owned_thins:
  assumes "thins d d'" "items_owned d"
  shows "items_owned d'"
  unfolding items_owned_def
proof (intro ballI impI)
  fix m' a' assume h: "m' \<in> set (db_media d')" "a' \<in> set (db_albums d')" "al_id a' = md_album_id m'"
  from thins_media [OF assms(1) h(1)] thins_album [OF assms(1) h(2)]
  obtain m a where "m \<in> set (db_media d)" "media_core m = media_core m'" "a \<in> set (db_albums d)" "album_core a = album_core a'"
    by auto
  with assms(2) h(3) show "md_user_id m' = al_user_id a'"
    unfolding items_owned_def media_core_def album_core_def by (metis prod.inject)
qed

lemma tidies_refl [simp]: "tidies d d"
  by (simp add: tidies_def)

lemma tidies_trans: "tidies a b \<Longrightarrow> tidies b c \<Longrightarrow> tidies a c"
  unfolding tidies_def using thins_trans items_owned_thins by blast

lemma tidiesI: "(db_wf d \<Longrightarrow> db_wf d') \<Longrightarrow> thins d d' \<Longrightarrow> tidies d d'"
  by (simp add: tidies_def)

text \<open>Tables other than the two may change freely, within the constraints.\<close>

lemma tidies_other:
  assumes "db_wf d \<Longrightarrow> db_wf d'" "db_media d' = db_media d" "db_albums d' = db_albums d"
  shows "tidies d d'"
  using assms by (simp add: tidies_def thins_def)

section \<open>Queries\<close>

lemma subseq_map_delete: "subseq (map f (delete_where P xs)) (map f xs)"
  by (simp add: delete_where_def subseq_map)

lemma thins_cascade: "thins d (cascade_album P d)"
  unfolding thins_def cascade_album_def Let_def by (simp add: subseq_map_delete)

lemma tidies_repo_delete_album [tidy_steps]: "repo_delete_album aid d = (r, d') \<Longrightarrow> tidies d d'"
  using db_wf_repo_delete_album [of d aid] thins_cascade
  by (intro tidiesI) (auto simp: repo_delete_album_def split: option.splits)

lemma tidies_repo_delete_media [tidy_steps]: "repo_delete_media mid d = (r, d') \<Longrightarrow> tidies d d'"
  using db_wf_repo_delete_media [of d mid]
  by (intro tidiesI) (auto simp: repo_delete_media_def thins_def subseq_map_delete)

lemma map_core_reposition: "map media_core (map (reposition aid ps) ms) = map media_core ms"
  by (simp add: media_core_def)

lemma fold_set_position_core: "map media_core (db_media (fold (set_position aid) ps d)) = map media_core (db_media d)"
proof (induction ps arbitrary: d)
  case (Cons p ps)
  have "map media_core (db_media (set_position aid p d)) = map media_core (db_media d)"
    by (auto simp: set_position_def update_where_def media_core_def)
  with Cons show ?case by simp
qed simp

lemma fold_set_position_albums: "db_albums (fold (set_position aid) ps d) = db_albums d"
  by (induction ps arbitrary: d) (simp_all add: set_position_def)

lemma tidies_update_media_positions [tidy_steps]: "update_media_positions aid ps d = Inr (ms, d') \<Longrightarrow> tidies d d'"
  using db_wf_update_media_positions [of d aid ps ms d']
  by (intro tidiesI)
    (auto simp: update_media_positions_def Let_def thins_def fold_set_position_core fold_set_position_albums split: if_splits)

lemma tidies_reorder_positions [tidy_steps]: "reorder_positions aid ps d = Inr (ms, d') \<Longrightarrow> tidies d d'"
  by (auto simp: reorder_positions_def split: sum.splits if_splits dest!: tidies_update_media_positions intro: tidies_trans)

text \<open>Writing an album back that was read before: its owner and its token stay.\<close>

lemma update_album_core:
  assumes "keys_distinct al_id as" "find_row al_id (al_id a) as = Some r" "al_user_id a = al_user_id r" "al_delete_token a = al_delete_token r"
  shows "map album_core (update_where (\<lambda>x. al_id x = al_id a) (album_row_update now a) as) = map album_core as"
proof -
  have "album_core (album_row_update now a x) = album_core x" if "x \<in> set as" "al_id x = al_id a" for x
  proof -
    from find_row_unique [OF assms(1) that(1)] that(2) assms(2) have "x = r" by simp
    with assms(3,4) show ?thesis by (simp add: album_core_def album_row_update_def)
  qed
  then show ?thesis by (auto simp: update_where_def)
qed

lemma tidies_update_album_row:
  assumes "update_album_row now a d = Inr (x, d')" "get_album (al_id a) d = Some r" "al_user_id a = al_user_id r"
    "al_delete_token a = al_delete_token r"
  shows "tidies d d'"
proof (unfold tidies_def, intro impI conjI)
  assume wf: "db_wf d \<and> items_owned d"
  then show "db_wf d'" using db_wf_update_album_row [OF _ assms(1)] by blast
  have "keys_distinct al_id (db_albums d)" using wf by (simp add: db_wf_def keys_ok_def)
  from update_album_core [OF this _ assms(3,4)] assms(1,2) show "thins d d'"
    by (auto simp: update_album_row_def thins_def get_album_def split: if_splits)
qed

lemma tidies_save_album:
  assumes "save_album now a w = (x, w')" "get_album (al_id a) (w_db w) = Some r" "al_user_id a = al_user_id r"
    "al_delete_token a = al_delete_token r"
  shows "tidies (w_db w) (w_db w')"
  using assms tidies_update_album_row [OF _ assms(2,3,4), of now]
  by (auto simp: save_album_def split: sum.splits err.splits)

section \<open>Album operations\<close>

lemma get_album_id: "get_album aid d = Some a \<Longrightarrow> al_id a = aid"
  by (auto simp: get_album_def dest: find_row_SomeD)

lemma tidies_delete_album [tidy_steps]: "delete_album now aid tok cid actor w = (r, w') \<Longrightarrow> tidies (w_db w) (w_db w')"
  by (auto simp: delete_album_def Let_def split: option.splits sum.splits prod.splits dest!: tidies_repo_delete_album)

lemma apply_title_patch_core:
  assumes "apply_title_patch title tok cid actor album w = (a, c, w1)"
  shows "al_id a = al_id album" "al_user_id a = al_user_id album" "al_delete_token a = al_delete_token album" "w_db w1 = w_db w"
  using assms by (auto simp: apply_title_patch_def Let_def split: patch.splits if_splits)

lemma apply_cover_patch_core:
  assumes "apply_cover_patch cover items tok cid actor album w = Inr (a, c, w1)"
  shows "al_id a = al_id album" "al_user_id a = al_user_id album" "al_delete_token a = al_delete_token album" "w_db w1 = w_db w"
  using assms by (auto simp: apply_cover_patch_def split: patch.splits if_splits sum.splits)

lemma tidies_update_album [tidy_steps]:
  assumes "update_album now dbnow aid tok cid actor title cover w = (r, w')"
  shows "tidies (w_db w) (w_db w')"
proof (cases "get_album aid (w_db w)")
  case None
  with assms show ?thesis by (simp add: update_album_def)
next
  case (Some album)
  obtain a1 c1 w1 where t: "apply_title_patch title tok cid actor album w = (a1, c1, w1)" by (metis prod_cases3)
  note t' = apply_title_patch_core [OF t]
  note run = assms [unfolded update_album_def Some option.case t prod.case Let_def]
  show ?thesis
  proof (cases "apply_cover_patch cover (list_album_media aid (w_db w)) tok cid actor a1 w1")
    case (Inl e)
    with run t'(4) show ?thesis by (auto split: sum.splits)
  next
    case (Inr x)
    obtain a2 c2 w2 where x: "x = (a2, c2, w2)" by (cases x)
    note c' = apply_cover_patch_core [OF Inr [unfolded x]]
    have g: "get_album (al_id a2) (w_db w2) = Some album" using Some get_album_id [OF Some] t' c' by simp
    have core: "al_user_id a2 = al_user_id album" "al_delete_token a2 = al_delete_token album" using t' c' by simp_all
    show ?thesis
      using run Inr x tidies_save_album [OF _ g core, of dbnow] t'(4) c'(4)
      by (auto split: sum.splits if_splits prod.splits)
  qed
qed

lemma tidies_reorder_album [tidy_steps]:
  assumes "reorder_album now dbnow aid tok order cid actor w = (r, w')"
  shows "tidies (w_db w) (w_db w')"
proof -
  have save: "tidies (w_db w) (w_db w1)" if "get_album aid (w_db w) = Some album" "reorder_positions aid ps (w_db w) = Inr (ms, d)"
    "save_album dbnow album (with_db w d) = (x, w1)" for album ps ms d x w1
  proof -
    have "db_albums d = db_albums (w_db w)"
      using that(2) by (auto simp: reorder_positions_def update_media_positions_def Let_def fold_set_position_albums split: sum.splits if_splits)
    with that(1) have "get_album (al_id album) (w_db (with_db w d)) = Some album" by (auto simp: get_album_def dest: find_row_SomeD)
    from tidies_trans [OF tidies_reorder_positions [OF that(2)]] tidies_save_album [OF that(3) this refl refl] show ?thesis by simp
  qed
  show ?thesis
    using assms
    by (auto simp: reorder_album_def Let_def split: option.splits sum.splits if_splits prod.splits dest: save)
qed

lemma tidies_delete_emptied_album: "tidies (w_db w) (w_db (delete_emptied_album aid tok cid actor w))"
  by (auto simp: delete_emptied_album_def split: prod.splits option.splits dest!: tidies_repo_delete_album)

lemma tidies_delete_media [tidy_steps]:
  assumes "delete_media now dbnow mid tok cid actor w = (r, w')"
  shows "tidies (w_db w) (w_db w')"
proof (cases "\<exists>m album. get_media mid (w_db w) = Some m \<and> get_album (md_album_id m) (w_db w) = Some album
    \<and> require_album_access now album tok actor False = Inr ()")
  case False
  with assms show ?thesis by (auto simp: delete_media_def split: option.splits sum.splits)
next
  case True
  then obtain m album where m: "get_media mid (w_db w) = Some m" and a: "get_album (md_album_id m) (w_db w) = Some album"
    and acc: "require_album_access now album tok actor False = Inr ()" by blast
  obtain d where d: "repo_delete_media mid (w_db w) = (Some m, d)" using m by (simp add: repo_delete_media_def)
  have al: "db_albums d = db_albums (w_db w)" using d by (auto simp: repo_delete_media_def)
  note t = tidies_repo_delete_media [OF d]
  have g: "get_album (al_id album) d = Some album" using a get_album_id [OF a] al by (simp add: get_album_def)
  have u1: "tidies (w_db w) d'" if "update_album_row dbnow (album\<lparr>al_cover_media_id := None\<rparr>) d = Inr (x, d')" for x d'
    by (rule tidies_trans [OF t tidies_update_album_row [OF that, of album]]) (use g in simp_all)
  have u2: "tidies (w_db w) d'" if "update_album_row dbnow album d = Inr (x, d')" for x d'
    by (rule tidies_trans [OF t tidies_update_album_row [OF that g refl refl]])
  have e: "tidies (w_db w) (w_db (delete_emptied_album i tok cid actor v))" if "w_db v = d" for i v
    using tidies_trans [OF t] tidies_delete_emptied_album [of v i] that by simp
  show ?thesis
    using assms unfolding delete_media_def m a acc d option.case prod.case sum.case Let_def
    by (auto split: if_splits sum.splits err.splits intro: e t dest: u1 u2)
qed

lemma tidies_admin_update_album [tidy_steps]:
  assumes "admin_update_album dbnow aid expires cid admin w = (r, w')"
  shows "tidies (w_db w) (w_db w')"
proof (cases "get_album aid (w_db w)")
  case None
  with assms show ?thesis by (simp add: admin_update_album_def)
next
  case (Some album)
  have "tidies (w_db w) d" if "update_album_row dbnow (album\<lparr>al_expires_at := e\<rparr>) (w_db w) = Inr (x, d)" for e x d
    by (rule tidies_update_album_row [OF that]) (use Some get_album_id [OF Some] in simp_all)
  with assms Some show ?thesis
    by (auto simp: admin_update_album_def Let_def split: patch.splits if_splits sum.splits)
qed

lemma tidies_prune_one: "prune_one dry a (t, w) = (t', w') \<Longrightarrow> tidies (w_db w) (w_db w')"
  by (cases t) (auto simp: prune_one_def Let_def split: if_splits prod.splits sum.splits option.splits dest!: tidies_repo_delete_album)

lemma tidies_prune_fold: "fold (prune_one dry) as (t, w) = (t', w') \<Longrightarrow> tidies (w_db w) (w_db w')"
proof (induction as arbitrary: t w)
  case (Cons a as)
  obtain t1 w1 where s: "prune_one dry a (t, w) = (t1, w1)" by (metis surj_pair)
  with Cons.prems have "fold (prune_one dry) as (t1, w1) = (t', w')" by simp
  from tidies_trans [OF tidies_prune_one [OF s] Cons.IH [OF this]] show ?case .
qed simp

lemma prune_capabilities_tables:
  "db_media (prune_capabilities now d) = db_media d" "db_albums (prune_capabilities now d) = db_albums d"
  "db_wf d \<Longrightarrow> db_wf (prune_capabilities now d)"
  by (simp_all add: prune_capabilities_def Let_def delete_expired_sharex_delete_capabilities_def
      delete_consumed_sharex_delete_capabilities_older_than_def delete_revoked_sharex_delete_capabilities_older_than_def
      db_wf_delete_sharex_where) (simp_all add: delete_sharex_where_def)

lemma tidies_prune [tidy_steps]:
  assumes "prune_expired_albums now audit_now retention dry w = (r, w')"
  shows "tidies (w_db w) (w_db w')"
proof -
  obtain t w1 where f: "fold (prune_one dry) (list_expired_albums now (w_db w)) (([], 0, 0), w) = (t, w1)" by (metis surj_pair)
  have "w_db w' = w_db w1 \<or> w_db w' = prune_capabilities now (w_db w1)"
    using assms f by (auto simp: prune_expired_albums_def Let_def split: prod.splits if_splits)
  moreover have "tidies (w_db w1) (prune_capabilities now (w_db w1))"
    by (rule tidies_other) (simp_all add: prune_capabilities_tables)
  ultimately show ?thesis using tidies_prune_fold [OF f] tidies_trans by metis
qed

section \<open>Thumbnails\<close>

lemma rethumbed_core: "rethumbed m m' \<Longrightarrow> media_core m' = media_core m"
  by (simp add: media_core_def rethumbed_sel)

lemma tidies_thumbs_only:
  assumes "thumbs_only w w'"
  shows "tidies (w_db w) (w_db w')"
proof (rule tidiesI)
  show "db_wf (w_db w) \<Longrightarrow> db_wf (w_db w')" using db_wf_thumbs_only assms by blast
  from assms obtain ms where ms: "w_db w' = (w_db w)\<lparr>db_media := ms\<rparr>" "list_all2 rethumbed (db_media (w_db w)) ms"
    by (auto simp: thumbs_only_def)
  from ms(2) have "map media_core ms = map media_core (db_media (w_db w))"
    by (induction rule: list_all2_induct) (auto simp: rethumbed_core)
  with ms(1) show "thins (w_db w) (w_db w')" by (simp add: thins_def)
qed

lemma tidies_generate_thumbnail [tidy_steps]: "generate_thumbnail cfg procs mid cid a n w = (r, w') \<Longrightarrow> tidies (w_db w) (w_db w')"
  using generate_thumbnail_only tidies_thumbs_only by blast

text \<open>Recovery writes old rows back: their identity, album and owner are those of the rows there are.\<close>

definition same_cores :: "db \<Rightarrow> db \<Rightarrow> bool" where
  "same_cores d d' = (db_wf d \<longrightarrow> db_wf d' \<and> map media_core (db_media d') = map media_core (db_media d) \<and> db_albums d' = db_albums d)"

lemma same_cores_refl: "same_cores d d"
  by (simp add: same_cores_def)

lemma same_cores_trans: "same_cores a b \<Longrightarrow> same_cores b c \<Longrightarrow> same_cores a c"
  by (simp add: same_cores_def)

lemma same_cores_thumbs: "thumbs_only w w' \<Longrightarrow> same_cores (w_db w) (w_db w')"
proof -
  assume t: "thumbs_only w w'"
  then obtain ms where ms: "w_db w' = (w_db w)\<lparr>db_media := ms\<rparr>" "list_all2 rethumbed (db_media (w_db w)) ms"
    by (auto simp: thumbs_only_def)
  from ms(2) have "map media_core ms = map media_core (db_media (w_db w))"
    by (induction rule: list_all2_induct) (auto simp: rethumbed_core)
  with ms(1) db_wf_thumbs_only [OF _ t] show ?thesis by (simp add: same_cores_def)
qed

lemma same_cores_update_media_row:
  assumes "update_media_row m d = Inr (m', d')" "media_core m \<in> media_core ` set (db_media d)"
  shows "same_cores d d'"
  unfolding same_cores_def
proof (intro impI conjI)
  assume wf: "db_wf d"
  then show "db_wf d'" using db_wf_update_media_row assms(1) by blast
  from assms(1) have d': "d' = d\<lparr>db_media := update_where (\<lambda>r. md_id r = md_id m) (\<lambda>_. m) (db_media d)\<rparr>"
    by (auto simp: update_media_row_def split: if_splits)
  from assms(2) obtain m0 where m0: "m0 \<in> set (db_media d)" "media_core m0 = media_core m" by auto
  have "media_core r = media_core m" if "r \<in> set (db_media d)" "md_id r = md_id m" for r
    using find_row_unique [OF db_wf_keys(2) [OF wf] that(1)] find_row_unique [OF db_wf_keys(2) [OF wf] m0(1)] m0(2) that(2)
    by (simp add: media_core_def)
  then show "map media_core (db_media d') = map media_core (db_media d)" "db_albums d' = db_albums d"
    by (auto simp: d' update_where_def)
qed

definition thumbs_enqueue :: "(string \<Rightarrow> string \<Rightarrow> 's \<times> world \<Rightarrow> (err + unit) \<times> 's \<times> world) \<Rightarrow> bool" where
  "thumbs_enqueue enqueue = (\<forall>mid cid st r st'. enqueue mid cid st = (r, st') \<longrightarrow> thumbs_only (snd st) (snd st'))"

lemma recover_loop_cores:
  assumes "thumbs_enqueue enqueue" "recover_loop enqueue inc ms seen n st = (r, st')"
    "\<forall>m\<in>set ms. media_core m \<in> media_core ` set (db_media (w_db (snd st)))" "db_wf (w_db (snd st))"
  shows "same_cores (w_db (snd st)) (w_db (snd st'))"
  using assms(2-)
proof (induction ms arbitrary: seen n st)
  case Nil
  then show ?case by (simp add: same_cores_refl)
next
  case (Cons m ms)
  show ?case
  proof (cases "md_id m \<in> set seen")
    case True
    with Cons show ?thesis by simp
  next
    case False
    let ?u = "if inc \<and> md_thumb_status m = ''failed''
      then and_then (update_media_row (m\<lparr>md_thumb_status := ''pending''\<rparr>) (w_db (snd st))) (\<lambda>(_, d). Inr (with_db (snd st) d)) else Inr (snd st)"
    note run = Cons.prems(1) [unfolded recover_loop.simps if_not_P [OF False]]
    show ?thesis
    proof (cases ?u)
      case (Inl e)
      with run show ?thesis by (simp add: same_cores_refl)
    next
      case (Inr w)
      have core: "media_core (m\<lparr>md_thumb_status := ''pending''\<rparr>) \<in> media_core ` set (db_media (w_db (snd st)))"
        using Cons.prems(2) by (simp add: media_core_def)
      have w: "same_cores (w_db (snd st)) (w_db w)"
        using Inr same_cores_update_media_row [OF _ core] by (auto simp: same_cores_refl split: if_splits)
      obtain r1 st1 where e: "enqueue (md_id m) (''recovery-'' @ md_id m) (fst st, w) = (r1, st1)" by (metis surj_pair)
      have "thumbs_only w (snd st1)" using assms(1) e unfolding thumbs_enqueue_def by (metis snd_conv)
      from same_cores_trans [OF w same_cores_thumbs [OF this]] have c1: "same_cores (w_db (snd st)) (w_db (snd st1))" .
      then have kept: "db_wf (w_db (snd st1))" "map media_core (db_media (w_db (snd st1))) = map media_core (db_media (w_db (snd st)))"
        using Cons.prems(3) by (auto simp: same_cores_def)
      show ?thesis
      proof (cases r1)
        case (Inl x)
        with run \<open>?u = Inr w\<close> e c1 show ?thesis by simp
      next
        case (Inr x)
        with run \<open>?u = Inr w\<close> e have "recover_loop enqueue inc ms (md_id m # seen) (n + 1) st1 = (r, st')" by simp
        from Cons.IH [OF this _ kept(1)] Cons.prems(2) kept(2) c1 show ?thesis
          by (metis list.set_intros(2) list.set_map same_cores_trans)
      qed
    qed
  qed
qed

lemma tidies_same_cores: "same_cores d d' \<Longrightarrow> tidies d d'"
  by (simp add: same_cores_def tidies_def thins_def)

lemma tidies_recover [tidy_steps]:
  assumes "thumbs_enqueue enqueue" "recover_thumbnails enqueue inc st = (r, st')"
  shows "tidies (w_db (snd st)) (w_db (snd st'))"
proof -
  have "\<forall>m\<in>set (find_pending_thumbnails (w_db (snd st)) @ (if inc then find_failed_thumbnails (w_db (snd st)) else [])).
      media_core m \<in> media_core ` set (db_media (w_db (snd st)))"
    by (auto simp: find_pending_thumbnails_def find_failed_thumbnails_def list_media_by_thumb_status_def)
  from recover_loop_cores [OF assms(1) _ this] assms(2) have "db_wf (w_db (snd st)) \<Longrightarrow> same_cores (w_db (snd st)) (w_db (snd st'))"
    unfolding recover_thumbnails_def by blast
  then show ?thesis using tidies_same_cores unfolding tidies_def by blast
qed

section \<open>Accounts\<close>

lemma tidies_create_user [tidy_steps]:
  assumes "create_user cr ai p meth cid actor source w = (r, w')"
  shows "tidies (w_db w) (w_db w')"
proof (cases r)
  case (Inl e)
  with assms have "w' = w" by (auto simp: create_user_def split: sum.splits prod.splits)
  then show ?thesis by simp
next
  case (Inr u)
  from create_user_ok [OF assms [unfolded Inr]] show ?thesis by (intro tidies_other) auto
qed

lemma repo_update_user_tables:
  "repo_update_user now u d = (r, d') \<Longrightarrow> db_media d' = db_media d \<and> db_albums d' = db_albums d"
  by (auto simp: repo_update_user_def split: if_splits sum.splits dest!: set_rate_limit_overrides_frame)

lemma tidies_save_user [tidy_steps]:
  assumes "save_user now u w = (r, w')"
  shows "tidies (w_db w) (w_db w')"
proof -
  obtain q d where q: "repo_update_user now u (w_db w) = (q, d)" by (metis surj_pair)
  with assms have "w_db w' = d" by (auto simp: save_user_def)
  with q db_wf_repo_update_user [of "w_db w" now u] repo_update_user_tables [OF q] show ?thesis
    by (intro tidies_other) auto
qed

lemma tidies_save_then_emit:
  assumes "save_then_emit now u say w = (r, w')" "\<And>w. w_db (say w) = w_db w"
  shows "tidies (w_db w) (w_db w')"
  using assms by (auto simp: save_then_emit_def split: prod.splits sum.splits dest: tidies_save_user)

lemma tidies_set_admin [tidy_steps]: "set_user_admin_status now uid b cid actor source w = (r, w') \<Longrightarrow> tidies (w_db w) (w_db w')"
  by (auto simp: set_user_admin_status_def split: option.splits if_splits intro: tidies_save_then_emit)

lemma tidies_reset_password [tidy_steps]: "reset_user_password cr ai uid pw cid actor w = (r, w') \<Longrightarrow> tidies (w_db w) (w_db w')"
  by (auto simp: reset_user_password_def split: option.splits sum.splits intro: tidies_save_then_emit)

lemma tidies_change_password [tidy_steps]: "change_password cr ai u cur pw cid source w = (r, w') \<Longrightarrow> tidies (w_db w) (w_db w')"
  by (auto simp: change_password_def emit_if_def split: sum.splits option.splits elim!: tidies_save_then_emit)

lemma tidies_update_user [tidy_steps]:
  assumes "update_user cr ai uid p cid actor w = (r, w')"
  shows "tidies (w_db w) (w_db w')"
proof (cases "get_user uid (w_db w)")
  case None
  with assms show ?thesis by (simp add: update_user_def)
next
  case (Some u)
  let ?w1 = "after_flags (ai_dbnow ai) p cid actor u w"
  have t1: "tidies (w_db w) (w_db ?w1)"
    by (rule tidies_other) (auto intro: db_wf_change_suspension)
  have t2: "tidies (w_db w) (w_db w2)" if "save_user now v x = (q, w2)" "w_db x = w_db ?w1" for now v x q w2
    using tidies_trans [OF t1] tidies_save_user [OF that(1)] that(2) by simp
  show ?thesis
    using assms unfolding update_user_def Some option.case Let_def
    by (auto split: sum.splits if_splits dest: t2 intro: t1)
qed

lemma tidies_delete_user [tidy_steps]:
  assumes "delete_user_by_id now uid cid by actor w = (r, w')"
  shows "tidies (w_db w) (w_db w')"
proof (cases "get_user uid (w_db w)")
  case None
  with assms show ?thesis by (simp add: delete_user_by_id_def)
next
  case (Some u)
  let ?d = "revoked now uid (w_db w)"
  have t: "tidies (w_db w) ?d" by (rule tidies_other) (simp_all add: db_wf_revoked)
  have "tidies ?d (cascade_user uid ?d)"
    unfolding tidies_def thins_def
    using cascade_user_media [of ?d uid] db_wf_cascade_user [of ?d uid] by (auto simp: subseq_map_delete)
  with t delete_user_cases [OF Some assms] show ?thesis by (auto intro: tidies_trans)
qed

lemma db_wf_api_keys_upd:
  assumes "db_wf d" "keys_distinct ak_id ks" "keys_distinct ak_user_id ks" "keys_distinct ak_key_hash ks"
    "\<And>k. k \<in> set ks \<Longrightarrow> user_exists d (ak_user_id k)"
  shows "db_wf (d\<lparr>db_api_keys := ks\<rparr>)"
proof -
  have u: "user_exists (d\<lparr>db_api_keys := ks\<rparr>) = user_exists d" "album_exists (d\<lparr>db_api_keys := ks\<rparr>) = album_exists d"
    by (auto simp: user_exists_def album_exists_def fun_eq_iff)
  have o: "opt_user_exists (d\<lparr>db_api_keys := ks\<rparr>) = opt_user_exists d"
  proof
    fix v show "opt_user_exists (d\<lparr>db_api_keys := ks\<rparr>) v = opt_user_exists d v" by (cases v) (simp_all add: u)
  qed
  show ?thesis using assms by (simp add: db_wf_def keys_ok_def fks_ok_def u o)
qed

lemma tidies_upsert_api_key:
  assumes "upsert_api_key k d = Inr (k', d')"
  shows "tidies d d'"
proof (rule tidies_other)
  assume wf: "db_wf d"
  have keys: "keys_distinct ak_id (db_api_keys d)" "keys_distinct ak_user_id (db_api_keys d)" "keys_distinct ak_key_hash (db_api_keys d)"
    and fk: "\<And>x. x \<in> set (db_api_keys d) \<Longrightarrow> user_exists d (ak_user_id x)"
    using wf by (auto simp: db_wf_def keys_ok_def fks_ok_def)
  have no: "ak_id x \<noteq> ak_id k" "ak_key_hash x \<noteq> ak_key_hash k" if "x \<in> set (db_api_keys d)" "ak_user_id x \<noteq> ak_user_id k" for x
    using assms that by (auto simp: upsert_api_key_def Let_def image_iff split: if_splits)
  show "db_wf d'"
  proof (cases "find_row ak_user_id (ak_user_id k) (db_api_keys d)")
    case None
    with assms have d': "d' = d\<lparr>db_api_keys := db_api_keys d @ [k]\<rparr>" "user_exists d (ak_user_id k)"
      by (auto simp: upsert_api_key_def Let_def split: if_splits)
    have "find_row ak_id (ak_id k) (db_api_keys d) = None" "find_row ak_key_hash (ak_key_hash k) (db_api_keys d) = None"
      using None no by (auto simp: find_row_None_iff)
    with None d' show ?thesis by (auto simp: keys_distinct_snoc keys intro!: db_wf_api_keys_upd [OF wf] dest: fk)
  next
    case (Some x)
    with assms have d': "d' = d\<lparr>db_api_keys := update_where (\<lambda>r. ak_user_id r = ak_user_id k) (\<lambda>_. k) (db_api_keys d)\<rparr>"
      by (auto simp: upsert_api_key_def Let_def split: if_splits)
    have "user_exists d (ak_user_id k)" using find_row_SomeD [OF Some] fk [of x] by simp
    then show ?thesis
      unfolding d' using no
      by (intro db_wf_api_keys_upd [OF wf] keys_distinct_update_one [OF keys(2) keys(1), of "ak_id k"]
          keys_distinct_update_one [OF keys(2) keys(2), of "ak_user_id k"] keys_distinct_update_one [OF keys(2) keys(3), of "ak_key_hash k"])
        (auto simp: set_update_where fk)
  qed
qed (use assms in \<open>auto simp: upsert_api_key_def Let_def split: if_splits\<close>)

lemma tidies_update_api_key [tidy_steps]:
  assumes "update_api_key k d = Inr (k', d')"
  shows "tidies d d'"
proof (rule tidies_other)
  assume wf: "db_wf d"
  have keys: "keys_distinct ak_id (db_api_keys d)" "keys_distinct ak_user_id (db_api_keys d)" "keys_distinct ak_key_hash (db_api_keys d)"
    and fk: "\<And>x. x \<in> set (db_api_keys d) \<Longrightarrow> user_exists d (ak_user_id x)"
    using wf by (auto simp: db_wf_def keys_ok_def fks_ok_def)
  have no: "ak_user_id x \<noteq> ak_user_id k" "ak_key_hash x \<noteq> ak_key_hash k" if "x \<in> set (db_api_keys d)" "ak_id x \<noteq> ak_id k" for x
    using assms that by (auto simp: update_api_key_def Let_def image_iff split: if_splits)
  have d': "d' = d\<lparr>db_api_keys := update_where (\<lambda>r. ak_id r = ak_id k) (\<lambda>_. k) (db_api_keys d)\<rparr>" "user_exists d (ak_user_id k)"
    using assms by (auto simp: update_api_key_def Let_def split: if_splits)
  show "db_wf d'"
    unfolding d'(1) using no d'(2)
    by (intro db_wf_api_keys_upd [OF wf] keys_distinct_update_one [OF keys(1) keys(1), of "ak_id k"]
        keys_distinct_update_one [OF keys(1) keys(2), of "ak_user_id k"] keys_distinct_update_one [OF keys(1) keys(3), of "ak_key_hash k"])
      (auto simp: set_update_where fk)
qed (use assms in \<open>auto simp: update_api_key_def Let_def split: if_splits\<close>)

lemma tidies_create_sharex [tidy_steps]: "create_sharex_delete_capability c d = Inr (c', d') \<Longrightarrow> tidies d d'"
  by (rule tidies_other) (auto simp: db_wf_create_sharex create_sharex_delete_capability_def split: if_splits)

lemma tidies_issue_api_key [tidy_steps]: "issue_api_key cr ai u cid actor source w = (r, w') \<Longrightarrow> tidies (w_db w) (w_db w')"
  by (auto simp: issue_api_key_def Let_def emit_if_def split: sum.splits option.splits dest!: tidies_upsert_api_key)

lemma tidies_add_link: "add_link ai i u how w = (r, w') \<Longrightarrow> tidies (w_db w) (w_db w')"
proof -
  have "tidies d d'" if "create_user_sso_link l d = Inr (l', d')" for l l' d d'
    by (rule tidies_other) (use create_user_sso_link_ok [OF that] db_wf_create_link [OF _ that] in auto)
  then show "add_link ai i u how w = (r, w') \<Longrightarrow> tidies (w_db w) (w_db w')"
    by (auto simp: add_link_def split: sum.splits)
qed

lemma tidies_oauth_login [tidy_steps]:
  assumes "complete_oauth_login cr ai i current allow cid source w = (r, w')"
  shows "tidies (w_db w) (w_db w')"
proof -
  have reg: "tidies (w_db w) (w_db w')" if "register_by_oauth cr ai i cid source w = (r, w')"
    using that by (auto simp: register_by_oauth_def split: if_splits sum.splits prod.splits
        dest!: tidies_create_user tidies_add_link intro: tidies_trans)
  show ?thesis
    using assms by (auto simp: complete_oauth_login_def split: if_splits option.splits dest: reg tidies_add_link)
qed

lemma tidies_disconnect [tidy_steps]:
  assumes "disconnect_oauth_provider u provider w = (r, w')"
  shows "tidies (w_db w) (w_db w')"
proof -
  let ?d = "snd (delete_user_sso_link (us_id u) provider (w_db w))"
  have wf: "db_wf ?d" if wf0: "db_wf (w_db w)"
    unfolding delete_user_sso_link_def Let_def snd_conv
    by (rule db_wf_sso_upd [OF wf0]) (use wf0 in \<open>auto simp: db_wf_def keys_ok_def fks_ok_def keys_distinct_delete_where\<close>)
  have "w' = w \<or> w_db w' = ?d" using assms by (auto simp: disconnect_oauth_provider_def Let_def split: if_splits)
  moreover have "tidies (w_db w) ?d" by (rule tidies_other [OF wf]) (simp_all add: delete_user_sso_link_def Let_def)
  ultimately show ?thesis by auto
qed

end
