(* ===== verification/Service.thy ===== *)
theory Service
  imports Tidying Album_Props
begin

text \<open>
  The service as a transition system: every handler of a client, of an administrator and of the background
  tasks is a transition of the state. What holds in every state that can be reached, and how the whole
  refines a gallery, a map from albums to their owner and their list of items.
\<close>

section \<open>Transitions\<close>

text \<open>What the process is built with: settings, processors, the listener to uploads, the task queue, bcrypt.\<close>

record services =
  sv_cfg :: "string \<Rightarrow> err + int"
  sv_procs :: processors
  sv_mime :: mime_tables
  sv_listen :: "event \<Rightarrow> world \<Rightarrow> world"
  sv_enqueue :: "string \<Rightarrow> string \<Rightarrow> unit \<times> world \<Rightarrow> (err + unit) \<times> unit \<times> world"
  sv_crypto :: crypto

definition services_ok :: "services \<Rightarrow> bool" where
  "services_ok E = (upload_listener (sv_listen E) \<and> thumbs_enqueue (sv_enqueue E))"

text \<open>
  A request of a client, who may be signed in and may show a delete token. The limiter's verdict on an
  upload is open; an empty album id of a form does not reach the service.
\<close>

inductive client_step :: "services \<Rightarrow> user option \<Rightarrow> string option \<Rightarrow> world \<Rightarrow> world \<Rightarrow> bool"
  for E :: services and actor :: "user option" and tok :: "string option" where
  uploads: "album_id \<noteq> Some [] \<Longrightarrow>
    upload (sv_cfg E) (sv_procs E) (sv_mime E) (sv_listen E) (\<lambda>_ _ _ r. (verdict, r)) ui f album_id title cid
      \<lparr>ca_user = actor, ca_source = source\<rparr> tok limit_key (w, ()) = (r, w', u) \<Longrightarrow> client_step E actor tok w w'"
| deletes_album: "delete_album now aid tok cid actor w = (r, w') \<Longrightarrow> client_step E actor tok w w'"
| updates_album: "update_album now dbnow aid tok cid actor title cover w = (r, w') \<Longrightarrow> client_step E actor tok w w'"
| reorders_album: "reorder_album now dbnow aid tok order cid actor w = (r, w') \<Longrightarrow> client_step E actor tok w w'"
| deletes_media: "delete_media now dbnow mid tok cid actor w = (r, w') \<Longrightarrow> client_step E actor tok w w'"

text \<open>Accounts, administration and background tasks.\<close>

inductive system_step :: "services \<Rightarrow> world \<Rightarrow> world \<Rightarrow> bool" for E :: services where
  registers: "create_user (sv_crypto E) ai p meth cid actor source w = (r, w') \<Longrightarrow> system_step E w w'"
| updates_user: "update_user (sv_crypto E) ai uid p cid actor w = (r, w') \<Longrightarrow> system_step E w w'"
| sets_admin: "set_user_admin_status now uid b cid actor source w = (r, w') \<Longrightarrow> system_step E w w'"
| resets_password: "reset_user_password (sv_crypto E) ai uid pw cid actor w = (r, w') \<Longrightarrow> system_step E w w'"
| changes_password: "change_password (sv_crypto E) ai v cur pw cid source w = (r, w') \<Longrightarrow> system_step E w w'"
| issues_key: "issue_api_key (sv_crypto E) ai v cid actor source w = (r, w') \<Longrightarrow> system_step E w w'"
| signs_in_by_oauth: "complete_oauth_login (sv_crypto E) ai i current allow cid source w = (r, w') \<Longrightarrow> system_step E w w'"
| disconnects: "disconnect_oauth_provider v provider w = (r, w') \<Longrightarrow> system_step E w w'"
| deletes_user: "delete_user_by_id now uid cid by actor w = (r, w') \<Longrightarrow> system_step E w w'"
| sets_expiry: "admin_update_album dbnow aid expires cid admin w = (r, w') \<Longrightarrow> system_step E w w'"
| prunes: "prune_expired_albums now audit_now retention dry w = (r, w') \<Longrightarrow> system_step E w w'"
| makes_thumbnail: "generate_thumbnail (sv_cfg E) (sv_procs E) mid cid a n w = (r, w') \<Longrightarrow> system_step E w w'"
| recovers: "recover_thumbnails (sv_enqueue E) inc ((), w) = (r, u, w') \<Longrightarrow> system_step E w w'"

definition service_step :: "services \<Rightarrow> world \<Rightarrow> world \<Rightarrow> bool" where
  "service_step E w w' = ((\<exists>actor tok. client_step E actor tok w w') \<or> system_step E w w')"

section \<open>The invariant\<close>

text \<open>An album that belongs to a user has no delete token; no album has more than a thousand items.\<close>

definition tokens_ok :: "db \<Rightarrow> bool" where
  "tokens_ok d = (\<forall>a\<in>set (db_albums d). al_user_id a \<noteq> None \<longrightarrow> al_delete_token a = None)"

definition within_limit :: "db \<Rightarrow> bool" where
  "within_limit d = (\<forall>aid. length (list_album_media aid d) \<le> max_album_items)"

definition service_ok :: "db \<Rightarrow> bool" where
  "service_ok d = (db_wf d \<and> items_owned d \<and> tokens_ok d \<and> within_limit d)"

lemma length_listing: "length (list_album_media aid d) = length (filter (\<lambda>c. fst (snd c) = aid) (map media_core (db_media d)))"
  by (simp add: list_album_media_def filter_map comp_def media_core_def)

lemma subseq_length_filter: "subseq xs ys \<Longrightarrow> length (filter P xs) \<le> length (filter P ys)"
  using list_emb_length subseq_filter by blast

lemma service_ok_tidies:
  assumes "service_ok d" "tidies d d'"
  shows "service_ok d'"
proof -
  from assms have wf: "db_wf d'" and t: "thins d d'" and own: "items_owned d'"
    by (auto simp: service_ok_def tidies_def intro: items_owned_thins)
  have "tokens_ok d'"
    unfolding tokens_ok_def
  proof (intro ballI impI)
    fix a' assume "a' \<in> set (db_albums d')" and o: "al_user_id a' \<noteq> None"
    with thins_album [OF t] obtain a where "a \<in> set (db_albums d)" "album_core a = album_core a'" by blast
    with o assms(1) show "al_delete_token a' = None" by (auto simp: service_ok_def tokens_ok_def album_core_def)
  qed
  moreover have "within_limit d'"
    unfolding within_limit_def
  proof
    fix aid
    have "length (list_album_media aid d') \<le> length (list_album_media aid d)"
      unfolding length_listing using t by (intro subseq_length_filter) (simp add: thins_def)
    with assms(1) show "length (list_album_media aid d') \<le> max_album_items"
      unfolding service_ok_def within_limit_def by (meson order_trans)
  qed
  ultimately show ?thesis using wf own by (simp add: service_ok_def)
qed

section \<open>Uploads\<close>

text \<open>What an accepted upload does to the identities of the rows.\<close>

lemma upload_cores:
  assumes "upload cfg procs mt listen limit ui f album_id title cid actor tok lk (w, r) = (Inr (a, x), w', r')"
    and "db_wf (w_db w)" "album_id \<noteq> Some []" "upload_listener listen"
  obtains m where "map media_core (db_media (w_db w')) = map media_core (db_media (w_db w)) @ [media_core m]"
    "md_album_id m = al_id a" "md_user_id m = map_option us_id (ca_user actor)" "get_media (md_id m) (w_db w) = None"
    "length (list_album_media (al_id a) (w_db w)) < max_album_items" "db_wf (w_db w')"
    "(map album_core (db_albums (w_db w')) = map album_core (db_albums (w_db w))
        \<and> (\<exists>b. get_album (al_id a) (w_db w) = Some b \<and> al_user_id b = al_user_id a
            \<and> (case ca_user actor of Some u \<Rightarrow> al_user_id b = Some (us_id u) | None \<Rightarrow> al_delete_token b \<noteq> None)))
     \<or> (map album_core (db_albums (w_db w')) = map album_core (db_albums (w_db w)) @ [album_core a]
        \<and> get_album (al_id a) (w_db w) = None \<and> al_user_id a = map_option us_id (ca_user actor)
        \<and> (al_user_id a \<noteq> None \<longrightarrow> al_delete_token a = None))"
    "\<And>aid. map md_id (list_album_media aid (w_db w')) = map md_id (list_album_media aid (w_db w)) @ (if aid = al_id a then [md_id m] else [])"
proof -
  from assms show thesis
  proof (rule upload_cases)
    fix b w1 payload mtype md sf m w2 ev x0
    assume h: "get_or_create_album cfg ui album_id title cid actor tok w = (Inr b, w1)"
      "length (list_album_media (al_id b) (w_db w1)) < max_album_items"
      "create_media_with_next_position (new_media ui (al_id b) f (ca_user actor) mtype md sf) (w_db w1) = Inr (m, w_db w2)"
      "w_db w' = (w_db (listen ev w2))\<lparr>db_albums := update_where (\<lambda>r. al_id r = al_id b)
         (album_row_update (ui_dbnow ui) (if \<not> truthy (al_title b) \<and> truthy title then b\<lparr>al_title := title\<rparr> else b))
         (db_albums (w_db (listen ev w2)))\<rparr>"
      "thumbs_only w2 (listen ev w2)"
      "(Inr (a, x) :: err + album \<times> media) = Inr (if \<not> truthy (al_title b) \<and> truthy title then b\<lparr>al_title := title\<rparr> else b, x0)"
    let ?b = "if \<not> truthy (al_title b) \<and> truthy title then b\<lparr>al_title := title\<rparr> else b"
    let ?wl = "listen ev w2"
    note got = got_album [OF assms(2) h(1)]
    obtain p where p: "m = (new_media ui (al_id b) f (ca_user actor) mtype md sf)\<lparr>md_position := p\<rparr>"
      "w_db w2 = (w_db w1)\<lparr>db_media := db_media (w_db w1) @ [m]\<rparr>" "get_media (md_id m) (w_db w1) = None"
      using h(3) by (rule create_media_with_next_position_ok) (simp add: new_media_def)
    have core_b: "al_id ?b = al_id b" "al_user_id ?b = al_user_id b" "al_delete_token ?b = al_delete_token b" "album_core ?b = album_core b"
      by (simp_all add: album_core_def)
    have a: "al_id a = al_id b" "al_user_id a = al_user_id b" "al_delete_token a = al_delete_token b" "album_core a = album_core b"
      using h(6) core_b by auto
    have wf2: "db_wf (w_db w2)" using db_wf_create_media_with_next_position [OF got(3) h(3)] .
    have wfl: "db_wf (w_db ?wl)" using db_wf_thumbs_only [OF wf2 h(5)] .
    have same: "same_cores (w_db w2) (w_db ?wl)" by (rule same_cores_thumbs [OF h(5)])
    have albums: "db_albums (w_db ?wl) = db_albums (w_db w1)" using same wf2 p(2) by (simp add: same_cores_def)
    have g: "get_album (al_id b) (w_db ?wl) = Some b" using got(1) albums by (simp add: get_album_def)
    have users: "opt_user_exists (w_db ?wl) (al_user_id b)"
      using got(2) thumbs_only_sel [OF h(5)] p(2) opt_user_exists_users [of "w_db ?wl" "w_db w1"] by simp
    have upd: "update_album_row (ui_dbnow ui) ?b (w_db ?wl) = Inr (album_row_update (ui_dbnow ui) ?b b, w_db w')"
      unfolding update_album_row_def core_b g option.case using users h(4) by simp
    have cores: "map album_core (db_albums (w_db w')) = map album_core (db_albums (w_db w1))"
    proof -
      have "keys_distinct al_id (db_albums (w_db ?wl))" using wfl by (simp add: db_wf_def keys_ok_def)
      from update_album_core [OF this, of ?b b] g albums h(4) core_b show ?thesis by (simp add: get_album_def)
    qed
    have med: "map media_core (db_media (w_db w')) = map media_core (db_media (w_db w)) @ [media_core m]"
      using h(4) same wf2 p(2) got(5) by (simp add: same_cores_def)
    have alt: "(map album_core (db_albums (w_db w')) = map album_core (db_albums (w_db w))
        \<and> (\<exists>c. get_album (al_id a) (w_db w) = Some c \<and> al_user_id c = al_user_id a
            \<and> (case ca_user actor of Some u \<Rightarrow> al_user_id c = Some (us_id u) | None \<Rightarrow> al_delete_token c \<noteq> None)))
     \<or> (map album_core (db_albums (w_db w')) = map album_core (db_albums (w_db w)) @ [album_core a]
        \<and> get_album (al_id a) (w_db w) = None \<and> al_user_id a = map_option us_id (ca_user actor)
        \<and> (al_user_id a \<noteq> None \<longrightarrow> al_delete_token a = None))"
    proof (rule get_or_create_album_cases [OF h(1)])
      fix c assume "(Inr b :: err + album) = Inr c" "w1 = w" "existing_album ui (the album_id) actor tok (w_db w) = Inr c"
      with existing_album_ok [of ui "the album_id" actor tok "w_db w" c] cores a show ?thesis by auto
    next
      fix c assume c: "(Inr b :: err + album) = Inr c" "new_album cfg ui title (ca_user actor) = Inr c"
        "w_db w1 = (w_db w)\<lparr>db_albums := db_albums (w_db w) @ [c]\<rparr>" "get_album (al_id c) (w_db w) = None"
      with new_album_ok [OF c(2)] cores a show ?thesis by (cases "ca_user actor") auto
    qed auto
    have pos: "md_position y < md_position m" if "y \<in> set (db_media (w_db w1))" "md_album_id y = md_album_id m" for y
    proof -
      from h(3) obtain q where "next_position (al_id b) (w_db w1) = Inr q" "m = (new_media ui (al_id b) f (ca_user actor) mtype md sf)\<lparr>md_position := q\<rparr>"
        by (rule create_media_with_next_position_ok) (simp add: new_media_def)
      with next_position_above [OF this(1) that(1)] that(2) show ?thesis by (simp add: new_media_def)
    qed
    have "map md_id (list_album_media aid (w_db w')) = map md_id (list_album_media aid (w_db w)) @ (if aid = al_id a then [md_id m] else [])" for aid
    proof -
      have "list_album_media aid (w_db w2) = list_album_media aid (w_db w) @ (if aid = al_id a then [m] else [])"
        using listing_append [of "w_db w1" m aid, OF pos] listing_cong [OF got(5)] p a by (auto simp: new_media_def)
      moreover have "list_album_media aid (w_db w') = list_album_media aid (w_db ?wl)" using h(4) by (simp add: list_album_media_def)
      ultimately show ?thesis using map_id_rethumbed [OF listing_rethumbed [OF h(5)], of aid] by simp
    qed
    moreover have "get_media (md_id m) (w_db w) = None" using p(3) got(5) by (simp add: get_media_def)
    moreover have "length (list_album_media (al_id a) (w_db w)) < max_album_items" using h(2) listing_cong [OF got(5)] a by simp
    moreover have "db_wf (w_db w')" using db_wf_update_album_row [OF wfl upd] .
    moreover have "md_album_id m = al_id a" "md_user_id m = map_option us_id (ca_user actor)" using p(1) a by (simp_all add: new_media_def)
    ultimately show thesis using that [of m] med alt by blast
  qed auto
qed


section \<open>Steps\<close>

text \<open>A step tidies, or is an accepted upload.\<close>

lemma tidies_client_step:
  assumes "client_step E actor tok w w'" "services_ok E" "db_wf (w_db w)"
  obtains (tidied) "tidies (w_db w) (w_db w')"
  | (published) verdict ui f album_id title cid source lk a x u where "album_id \<noteq> Some []"
      "upload (sv_cfg E) (sv_procs E) (sv_mime E) (sv_listen E) (\<lambda>_ _ _ r. (verdict, r)) ui f album_id title cid
         \<lparr>ca_user = actor, ca_source = source\<rparr> tok lk (w, ()) = (Inr (a, x), w', u)"
  using assms(1)
proof cases
  case (uploads album_id verdict ui f title cid source limit_key r u)
  show thesis
  proof (cases r)
    case (Inl e)
    from assms(2) have "upload_listener (sv_listen E)" by (simp add: services_ok_def)
    from uploads(2) assms(3) uploads(1) this show thesis by (rule upload_cases) (use Inl tidied in auto)
  next
    case (Inr ax)
    with published uploads show thesis by (cases ax) blast
  qed
qed (rule tidied, erule tidy_steps)+

lemma tidies_system_step: "system_step E w w' \<Longrightarrow> services_ok E \<Longrightarrow> tidies (w_db w) (w_db w')"
  by (cases rule: system_step.cases) (auto dest: tidy_steps tidies_recover [rotated] simp: services_ok_def)


lemma service_ok_parts: "service_ok d \<longleftrightarrow> db_wf d \<and> items_owned d \<and> tokens_ok d \<and> within_limit d"
  by (simp add: service_ok_def)

text \<open>The two conditions on owners, read off the identities of the rows alone.\<close>

definition cores_tokens :: "(string \<times> string option \<times> string option) list \<Rightarrow> bool" where
  "cores_tokens as = (\<forall>(i, ao, t)\<in>set as. ao \<noteq> None \<longrightarrow> t = None)"

definition cores_owned :: "(string \<times> string \<times> string option) list \<Rightarrow> (string \<times> string option \<times> string option) list \<Rightarrow> bool" where
  "cores_owned ms as = (\<forall>(i, aid, mo)\<in>set ms. \<forall>(aid', ao, t)\<in>set as. aid' = aid \<longrightarrow> mo = ao)"

lemma tokens_ok_cores: "tokens_ok d \<longleftrightarrow> cores_tokens (map album_core (db_albums d))"
  by (auto simp: tokens_ok_def cores_tokens_def album_core_def)

lemma items_owned_cores: "items_owned d \<longleftrightarrow> cores_owned (map media_core (db_media d)) (map album_core (db_albums d))"
  by (auto simp: items_owned_def cores_owned_def media_core_def album_core_def)

lemma cores_snoc:
  "cores_tokens (as @ [album_core a]) \<longleftrightarrow> cores_tokens as \<and> (al_user_id a \<noteq> None \<longrightarrow> al_delete_token a = None)"
  "cores_owned (ms @ [media_core m]) as \<longleftrightarrow> cores_owned ms as \<and> (\<forall>(i, ao, t)\<in>set as. i = md_album_id m \<longrightarrow> md_user_id m = ao)"
  "cores_owned ms (as @ [album_core a]) \<longleftrightarrow> cores_owned ms as \<and> (\<forall>(i, aid, mo)\<in>set ms. aid = al_id a \<longrightarrow> mo = al_user_id a)"
  by (auto simp: cores_tokens_def cores_owned_def media_core_def album_core_def)

lemma get_album_in: "get_album aid d = Some a \<Longrightarrow> a \<in> set (db_albums d) \<and> al_id a = aid"
  by (auto simp: get_album_def dest: find_row_SomeD)

lemma get_album_unique: "db_wf d \<Longrightarrow> a \<in> set (db_albums d) \<Longrightarrow> get_album (al_id a) d = Some a"
  by (simp add: get_album_def find_row_unique db_wf_def keys_ok_def)

lemma service_ok_upload:
  assumes "upload cfg procs mt listen limit ui f album_id title cid actor tok lk (w, r) = (Inr (a, x), w', r')"
    and "service_ok (w_db w)" "album_id \<noteq> Some []" "upload_listener listen"
  shows "service_ok (w_db w')"
proof -
  have wf: "db_wf (w_db w)" and own: "items_owned (w_db w)" and tok: "tokens_ok (w_db w)" and lim: "within_limit (w_db w)"
    using assms(2) by (simp_all add: service_ok_def)
  from assms(1) wf assms(3,4) show ?thesis
  proof (rule upload_cores)
    fix m
    assume med: "map media_core (db_media (w_db w')) = map media_core (db_media (w_db w)) @ [media_core m]"
      and m: "md_album_id m = al_id a" "md_user_id m = map_option us_id (ca_user actor)"
      and len: "length (list_album_media (al_id a) (w_db w)) < max_album_items" and wf': "db_wf (w_db w')"
      and alt: "(map album_core (db_albums (w_db w')) = map album_core (db_albums (w_db w))
        \<and> (\<exists>b. get_album (al_id a) (w_db w) = Some b \<and> al_user_id b = al_user_id a
            \<and> (case ca_user actor of Some u \<Rightarrow> al_user_id b = Some (us_id u) | None \<Rightarrow> al_delete_token b \<noteq> None)))
     \<or> (map album_core (db_albums (w_db w')) = map album_core (db_albums (w_db w)) @ [album_core a]
        \<and> get_album (al_id a) (w_db w) = None \<and> al_user_id a = map_option us_id (ca_user actor)
        \<and> (al_user_id a \<noteq> None \<longrightarrow> al_delete_token a = None))"
      and ids: "\<And>aid. map md_id (list_album_media aid (w_db w')) = map md_id (list_album_media aid (w_db w)) @ (if aid = al_id a then [md_id m] else [])"
    have "within_limit (w_db w')"
      unfolding within_limit_def
    proof
      fix aid
      from arg_cong [OF ids [of aid], of length] lim len show "length (list_album_media aid (w_db w')) \<le> max_album_items"
        by (auto simp: within_limit_def split: if_splits)
    qed
    moreover have "tokens_ok (w_db w')" using alt tok unfolding tokens_ok_cores by (auto simp: cores_snoc)
    moreover have "items_owned (w_db w')"
      using alt
    proof (elim disjE conjE exE)
      fix b assume al: "map album_core (db_albums (w_db w')) = map album_core (db_albums (w_db w))" "get_album (al_id a) (w_db w) = Some b"
        and c: "case ca_user actor of Some u \<Rightarrow> al_user_id b = Some (us_id u) | None \<Rightarrow> al_delete_token b \<noteq> None"
      have b: "al_user_id b = md_user_id m"
        using c m(2) tok get_album_in [OF al(2)] by (cases "ca_user actor") (auto simp: tokens_ok_def)
      have "al_user_id y = md_user_id m" if "y \<in> set (db_albums (w_db w))" "al_id y = al_id a" for y
        using get_album_unique [OF wf that(1)] al(2) that(2) b by simp
      then have "\<forall>(i, ao, t)\<in>set (map album_core (db_albums (w_db w))). i = md_album_id m \<longrightarrow> md_user_id m = ao"
        using m(1) by (auto simp: album_core_def)
      with own show "items_owned (w_db w')" unfolding items_owned_cores med al(1) cores_snoc by blast
    next
      assume al: "map album_core (db_albums (w_db w')) = map album_core (db_albums (w_db w)) @ [album_core a]"
        "get_album (al_id a) (w_db w) = None" "al_user_id a = map_option us_id (ca_user actor)"
      have "md_album_id y \<noteq> al_id a" if "y \<in> set (db_media (w_db w))" for y
        using db_wf_fk_media [OF wf that] al(2) by (auto simp: album_exists_def get_album_def find_row_None_iff)
      moreover have "al_id y \<noteq> al_id a" if "y \<in> set (db_albums (w_db w))" for y
        using al(2) that by (auto simp: get_album_def find_row_None_iff)
      ultimately have "\<forall>(i, aid, mo)\<in>set (map media_core (db_media (w_db w))). aid = al_id a \<longrightarrow> mo = al_user_id a"
        "\<forall>(i, ao, t)\<in>set (map album_core (db_albums (w_db w))). i = md_album_id m \<longrightarrow> md_user_id m = ao"
        using m(1) by (auto simp: media_core_def album_core_def)
      with own show "items_owned (w_db w')"
        unfolding items_owned_cores med al(1) cores_snoc using m al(3) by (auto simp: album_core_def cores_owned_def media_core_def)
    qed
    ultimately show ?thesis using wf' by (simp add: service_ok_def)
  qed
qed

lemma service_ok_step:
  assumes "service_step E w w'" "services_ok E" "service_ok (w_db w)"
  shows "service_ok (w_db w')"
proof -
  have wf: "db_wf (w_db w)" using assms(3) by (simp add: service_ok_def)
  from assms(1) show ?thesis
    unfolding service_step_def
  proof (elim disjE exE)
    fix actor tok assume "client_step E actor tok w w'"
    then show ?thesis
      by (rule tidies_client_step [OF _ assms(2) wf])
        (use assms(2,3) service_ok_upload service_ok_tidies in \<open>auto simp: services_ok_def\<close>)
  qed (use tidies_system_step [OF _ assms(2)] service_ok_tidies [OF assms(3)] in blast)
qed

end
