(* ===== verification/Service_Props.thy ===== *)
theory Service_Props
  imports Service
begin

text \<open>
  What holds of the service as a whole: the invariant of its reachable states, its refinement of a gallery,
  and that a client leaves the albums of others alone.
\<close>

section \<open>Reachable states\<close>

text \<open>Every state the service can reach satisfies the constraints of the schema, every item belongs to the owner
  of its album, no album of a user can be opened by a delete token, and no album exceeds a thousand items,
  whatever the order in which clients, administrators and background tasks act.\<close>

theorem reachable_states_ok:
  assumes "(service_step E)\<^sup>*\<^sup>* w w'" "services_ok E" "service_ok (w_db w)"
  shows "service_ok (w_db w')"
  using assms(1,3) by (induction rule: rtranclp_induct) (auto intro: service_ok_step [OF _ assms(2)])

definition sample_services :: services where
  "sample_services = \<lparr>sv_cfg = sample_cfg, sv_procs = sample_procs,
     sv_mime = \<lparr>mt_guess_type = (\<lambda>_. None), mt_guess_extension = (\<lambda>_. None)\<rparr>,
     sv_listen = (\<lambda>_ w. w), sv_enqueue = (\<lambda>_ _ st. (Inr (), st)), sv_crypto = sample_crypto\<rparr>"

lemma sample_services_ok: "services_ok sample_services"
  using queued.upload_listener_axioms by (auto simp: services_ok_def sample_services_def thumbs_enqueue_def)

lemma sample_service_ok: "service_ok sample_db"
proof -
  have "length (list_album_media aid sample_db) \<le> length (db_media sample_db)" for aid
    by (simp add: list_album_media_def)
  then have "within_limit sample_db"
    unfolding within_limit_def by (rule allI [OF order_trans]) (simp add: sample_db_def max_album_items_def)
  moreover have "items_owned sample_db" "tokens_ok sample_db" by (simp_all add: items_owned_def tokens_ok_def sample_defs)
  ultimately show ?thesis by (simp add: service_ok_def sample_db_wf)
qed

lemma sample_upload_step:
  obtains w' x where "client_step sample_services (Some (sample_user ''u'' False)) None (sample_world []) w'"
    "map md_id (list_album_media ''a'' (w_db w')) = [''m1'', ''m2'', ''m3'', ''mm'']"
proof -
  obtain a x w' where up: "sample_upload sample_cfg ''good'' (Some ''a'') (Some (sample_user ''u'' False)) = (Inr (a, x), w', ())"
    and a: "al_id a = ''a''" using sample_accepted by blast
  have "client_step sample_services (Some (sample_user ''u'' False)) None (sample_world []) w'"
    by (rule client_step.uploads [where verdict = "Inr ()" and album_id = "Some ''a''"])
      (use up in \<open>simp_all add: sample_services_def sample_upload_def\<close>)
  moreover have "map md_id (list_album_media ''a'' (w_db w')) = map md_id (list_album_media ''a'' sample_db) @ [''mm'']"
  proof (rule accepted_effect [OF up [unfolded sample_upload_def] _ _ queued.upload_listener_axioms])
    fix m assume m: "md_id m = ui_media_id sample_inputs"
      and r: "\<And>aid. list_all2 rethumbed (list_album_media aid (w_db (sample_world [])) @ (if aid = al_id a then [m] else [])) (list_album_media aid (w_db w'))"
    from map_id_rethumbed [OF r [of "''a''"]] m a show ?thesis by (simp add: sample_inputs_def)
  qed (simp_all add: sample_db_wf)
  moreover have "map md_id (list_album_media ''a'' sample_db) = [''m1'', ''m2'', ''m3'']" by code_simp
  ultimately show thesis using that by simp
qed


theorem reachable_states_ok_witness:
  "\<exists>w'. (service_step sample_services)\<^sup>*\<^sup>* (sample_world []) w' \<and> w' \<noteq> sample_world [] \<and> service_ok (w_db w')"
proof -
  obtain w' where c: "client_step sample_services (Some (sample_user ''u'' False)) None (sample_world []) w'"
    and l: "map md_id (list_album_media ''a'' (w_db w')) = [''m1'', ''m2'', ''m3'', ''mm'']" by (rule sample_upload_step)
  from c have "service_step sample_services (sample_world []) w'" by (auto simp: service_step_def)
  then have r: "(service_step sample_services)\<^sup>*\<^sup>* (sample_world []) w'" by (rule r_into_rtranclp)
  have "map md_id (list_album_media ''a'' (w_db (sample_world []))) = [''m1'', ''m2'', ''m3'']" by code_simp
  with l have "w' \<noteq> sample_world []" by auto
  with r reachable_states_ok [OF r sample_services_ok] show ?thesis by (auto simp: sample_service_ok)
qed

section \<open>The gallery\<close>

text \<open>
  The abstract state: for every album its owner and its items in order. A client may open an album of its
  own with one new item, or append a new item to an album of its own that is not full; anyone may tidy,
  which drops albums and items and changes the order, but adds nothing and changes no owner.
\<close>

type_synonym gallery = "string \<Rightarrow> (string option \<times> string list) option"

definition gallery :: "db \<Rightarrow> gallery" where
  "gallery d aid = map_option (\<lambda>a. (al_user_id a, map md_id (list_album_media aid d))) (get_album aid d)"

definition gallery_tidies :: "gallery \<Rightarrow> gallery \<Rightarrow> bool" where
  "gallery_tidies G G' = (\<forall>aid ow ys. G' aid = Some (ow, ys) \<longrightarrow> (\<exists>xs. G aid = Some (ow, xs) \<and> mset ys \<subseteq># mset xs))"

definition unused :: "string \<Rightarrow> gallery \<Rightarrow> bool" where
  "unused i G = (\<forall>aid ow xs. G aid = Some (ow, xs) \<longrightarrow> i \<notin> set xs)"

inductive gallery_step :: "string option \<Rightarrow> gallery \<Rightarrow> gallery \<Rightarrow> bool" for who :: "string option" where
  tidy: "gallery_tidies G G' \<Longrightarrow> gallery_step who G G'"
| publish: "G aid = None \<Longrightarrow> unused i G \<Longrightarrow> gallery_step who G (G(aid \<mapsto> (who, [i])))"
| append: "G aid = Some (who, xs) \<Longrightarrow> length xs < 1000 \<Longrightarrow> unused i G \<Longrightarrow> gallery_step who G (G(aid \<mapsto> (who, xs @ [i])))"

lemma map_of_cores: "map_of (map album_core as) aid = map_option (\<lambda>a. (al_user_id a, al_delete_token a)) (find_row al_id aid as)"
  by (induction as) (auto simp: find_row_Cons album_core_def)

lemma gallery_cores:
  "gallery d aid = map_option (\<lambda>ot. (fst ot, map md_id (list_album_media aid d))) (map_of (map album_core (db_albums d)) aid)"
  by (simp add: gallery_def map_of_cores get_album_def option.map_comp comp_def)

lemma mset_listing: "mset (map md_id (list_album_media aid d)) = image_mset fst (mset (filter (\<lambda>c. fst (snd c) = aid) (map media_core (db_media d))))"
  by (simp add: list_album_media_def filter_map comp_def media_core_def image_mset.compositionality)

lemma subseq_mset: "subseq xs ys \<Longrightarrow> mset xs \<subseteq># mset ys"
  by (induction rule: list_emb.induct) (auto intro: subset_mset.order_trans)

lemma subseq_map_of: "subseq xs ys \<Longrightarrow> distinct (map fst ys) \<Longrightarrow> map_of xs k = Some v \<Longrightarrow> map_of ys k = Some v"
  by (metis map_of_SomeD map_of_is_SomeI subseq_set)

lemma gallery_thins:
  assumes "thins d d'" "db_wf d"
  shows "gallery_tidies (gallery d) (gallery d')"
  unfolding gallery_tidies_def
proof (intro allI impI)
  fix aid ow ys assume g: "gallery d' aid = Some (ow, ys)"
  then obtain t where t: "map_of (map album_core (db_albums d')) aid = Some (ow, t)" "ys = map md_id (list_album_media aid d')"
    by (auto simp: gallery_cores)
  have "distinct (map fst (map album_core (db_albums d)))"
    using assms(2) by (simp add: db_wf_def keys_ok_def keys_distinct_def comp_def album_core_def)
  with assms(1) t(1) have "map_of (map album_core (db_albums d)) aid = Some (ow, t)"
    unfolding thins_def by (blast intro: subseq_map_of)
  moreover have "mset ys \<subseteq># mset (map md_id (list_album_media aid d))"
    unfolding t(2) mset_listing using assms(1) unfolding thins_def
    by (intro image_mset_subseteq_mono subseq_mset subseq_filter) blast
  ultimately show "\<exists>xs. gallery d aid = Some (ow, xs) \<and> mset ys \<subseteq># mset xs" by (simp add: gallery_cores)
qed


lemma gallery_upload:
  assumes "upload cfg procs mt listen limit ui f album_id title cid actor tok lk (w, r) = (Inr (a, x), w', r')"
    and "service_ok (w_db w)" "album_id \<noteq> Some []" "upload_listener listen"
  shows "gallery_step (map_option us_id (ca_user actor)) (gallery (w_db w)) (gallery (w_db w'))"
proof -
  let ?who = "map_option us_id (ca_user actor)" and ?G = "gallery (w_db w)"
  have wf: "db_wf (w_db w)" and tok: "tokens_ok (w_db w)" using assms(2) by (simp_all add: service_ok_def)
  from assms(1) wf assms(3,4) show ?thesis
  proof (rule upload_cores)
    fix m
    assume fresh: "get_media (md_id m) (w_db w) = None"
      and len: "length (list_album_media (al_id a) (w_db w)) < max_album_items"
      and alt: "(map album_core (db_albums (w_db w')) = map album_core (db_albums (w_db w))
        \<and> (\<exists>b. get_album (al_id a) (w_db w) = Some b \<and> al_user_id b = al_user_id a
            \<and> (case ca_user actor of Some u \<Rightarrow> al_user_id b = Some (us_id u) | None \<Rightarrow> al_delete_token b \<noteq> None)))
     \<or> (map album_core (db_albums (w_db w')) = map album_core (db_albums (w_db w)) @ [album_core a]
        \<and> get_album (al_id a) (w_db w) = None \<and> al_user_id a = map_option us_id (ca_user actor)
        \<and> (al_user_id a \<noteq> None \<longrightarrow> al_delete_token a = None))"
      and ids: "\<And>aid. map md_id (list_album_media aid (w_db w')) = map md_id (list_album_media aid (w_db w)) @ (if aid = al_id a then [md_id m] else [])"
    have unused: "unused (md_id m) ?G"
      using fresh by (fastforce simp: unused_def gallery_def get_media_def find_row_None_iff set_list_album_media)
    from alt show ?thesis
    proof (elim disjE conjE exE)
      fix b assume al: "map album_core (db_albums (w_db w')) = map album_core (db_albums (w_db w))" "get_album (al_id a) (w_db w) = Some b"
        and c: "case ca_user actor of Some u \<Rightarrow> al_user_id b = Some (us_id u) | None \<Rightarrow> al_delete_token b \<noteq> None"
      let ?xs = "map md_id (list_album_media (al_id a) (w_db w))"
      have b: "al_user_id b = ?who"
        using c tok get_album_in [OF al(2)] by (cases "ca_user actor") (auto simp: tokens_ok_def)
      then have old: "?G (al_id a) = Some (?who, ?xs)" using al(2) by (simp add: gallery_def)
      have "gallery (w_db w') = ?G(al_id a \<mapsto> (?who, ?xs @ [md_id m]))"
        using old by (auto simp: fun_eq_iff gallery_cores al(1) ids)
      with gallery_step.append [of ?G "al_id a" ?who ?xs, OF old _ unused] len show ?thesis by (simp add: max_album_items_def)
    next
      assume al: "map album_core (db_albums (w_db w')) = map album_core (db_albums (w_db w)) @ [album_core a]"
        "get_album (al_id a) (w_db w) = None" "al_user_id a = ?who"
      have none: "?G (al_id a) = None" using al(2) by (simp add: gallery_def)
      have "md_album_id y \<noteq> al_id a" if "y \<in> set (db_media (w_db w))" for y
        using db_wf_fk_media [OF wf that] al(2) by (auto simp: album_exists_def get_album_def find_row_None_iff)
      then have "list_album_media (al_id a) (w_db w) = []" by (simp add: list_album_media_def filter_False)
      with ids [of "al_id a"] have new: "map md_id (list_album_media (al_id a) (w_db w')) = [md_id m]" by simp
      have "map_of (map album_core (db_albums (w_db w))) (al_id a) = None" using al(2) by (simp add: map_of_cores get_album_def)
      then have "gallery (w_db w') = ?G(al_id a \<mapsto> (?who, [md_id m]))"
        using new by (auto simp: fun_eq_iff gallery_cores al(1,3) ids map_add_def album_core_def split: option.splits)
      with gallery_step.publish [OF none unused] show ?thesis by simp
    qed
  qed
qed

text \<open>C2: The service refines the gallery: every request of a client is a step of the gallery in the client's own name
  (one new item at the end of an own album, or in a new album of its own, or a tidying), and whatever
  accounts, administrators and background tasks do is a tidying.\<close>

theorem service_refines_gallery:
  assumes "services_ok E" "service_ok (w_db w)"
  shows "(client_step E actor tok w w' \<longrightarrow> gallery_step (map_option us_id actor) (gallery (w_db w)) (gallery (w_db w')))
    \<and> (system_step E w w' \<longrightarrow> gallery_tidies (gallery (w_db w)) (gallery (w_db w')))"
proof -
  have wf: "db_wf (w_db w)" and own: "items_owned (w_db w)" using assms(2) by (simp_all add: service_ok_def)
  have tidy: "gallery_tidies (gallery (w_db w)) (gallery (w_db w'))" if "tidies (w_db w) (w_db w')"
    using that wf own gallery_thins by (auto simp: tidies_def)
  have "gallery_step (map_option us_id actor) (gallery (w_db w)) (gallery (w_db w'))" if "client_step E actor tok w w'"
    using that assms(1) wf
  proof (rule tidies_client_step)
    fix verdict ui f album_id title cid source lk a x u
    assume "album_id \<noteq> Some []" "upload (sv_cfg E) (sv_procs E) (sv_mime E) (sv_listen E) (\<lambda>_ _ _ r. (verdict, r)) ui f album_id title cid
         \<lparr>ca_user = actor, ca_source = source\<rparr> tok lk (w, ()) = (Inr (a, x), w', u)"
    from gallery_upload [OF this(2) assms(2) this(1)] assms(1) show ?thesis by (simp add: services_ok_def)
  qed (simp add: tidy gallery_step.tidy)
  with tidies_system_step [OF _ assms(1)] tidy show ?thesis by blast
qed

theorem service_refines_gallery_witness:
  "\<exists>w'::world. gallery_step (Some ''u'') (gallery sample_db) (gallery (w_db w')) \<and> gallery sample_db \<noteq> gallery (w_db w')"
proof -
  obtain w' where c: "client_step sample_services (Some (sample_user ''u'' False)) None (sample_world []) w'"
    and l: "map md_id (list_album_media ''a'' (w_db w')) = [''m1'', ''m2'', ''m3'', ''mm'']" by (rule sample_upload_step)
  have "gallery_step (map_option us_id (Some (sample_user ''u'' False))) (gallery (w_db (sample_world []))) (gallery (w_db w'))"
    using service_refines_gallery [OF sample_services_ok] c sample_service_ok sample_world_sel(1) by metis
  then have s: "gallery_step (Some ''u'') (gallery sample_db) (gallery (w_db w'))"
    by (simp add: sample_user_def)
  have g: "gallery sample_db ''a'' = Some (Some ''u'', [''m1'', ''m2'', ''m3''])" by code_simp
  have "gallery sample_db \<noteq> gallery (w_db w')"
  proof
    assume "gallery sample_db = gallery (w_db w')"
    with g have "gallery (w_db w') ''a'' = Some (Some ''u'', [''m1'', ''m2'', ''m3''])" by simp
    with l show False by (auto simp: gallery_def)
  qed
  with s show ?thesis by blast
qed


section \<open>The albums of others\<close>

text \<open>An operation spares an album when it leaves its row and its listing alone.\<close>

definition spares :: "string \<Rightarrow> db \<Rightarrow> db \<Rightarrow> bool" where
  "spares aid d d' = (get_album aid d' = get_album aid d \<and> list_album_media aid d' = list_album_media aid d)"

named_theorems spare_steps \<open>queries that spare an album\<close>

lemma spares_refl [simp]: "spares aid d d"
  by (simp add: spares_def)

lemma spares_trans: "spares aid a b \<Longrightarrow> spares aid b c \<Longrightarrow> spares aid a c"
  by (simp add: spares_def)

lemma find_row_delete_other: "(\<And>x. key x = k \<Longrightarrow> \<not> P x) \<Longrightarrow> find_row key k (delete_where P xs) = find_row key k xs"
  by (induction xs) (auto simp: find_row_Cons delete_where_def)

lemma spares_cascade: "b \<noteq> aid \<Longrightarrow> spares aid d (cascade_album (\<lambda>a. al_id a = b) d)"
proof -
  assume b: "b \<noteq> aid"
  have "get_album aid (cascade_album (\<lambda>a. al_id a = b) d) = get_album aid d"
    using b by (auto simp: get_album_def cascade_album_def Let_def intro!: find_row_delete_other)
  with b show ?thesis unfolding spares_def by (auto intro!: list_album_media_cascade_other)
qed

lemma spares_repo_delete_album [spare_steps]: "repo_delete_album b d = (r, d') \<Longrightarrow> b \<noteq> aid \<Longrightarrow> spares aid d d'"
  by (auto simp: repo_delete_album_def spares_cascade split: option.splits)

lemma spares_update_album_row [spare_steps]: "update_album_row now a d = Inr (x, d') \<Longrightarrow> al_id a \<noteq> aid \<Longrightarrow> spares aid d d'"
  by (auto simp: update_album_row_def spares_def get_album_def list_album_media_def album_row_update_def
      intro!: find_row_update_other split: option.splits if_splits)

lemma filter_update_other: "(\<And>x. P x \<Longrightarrow> \<not> Q x \<and> \<not> Q (f x)) \<Longrightarrow> filter Q (update_where P f xs) = filter Q xs"
  unfolding update_where_def by (induction xs) simp_all

lemma spares_set_positions: "b \<noteq> aid \<Longrightarrow> spares aid d (fold (set_position b) ps d)"
proof (induction ps arbitrary: d)
  case (Cons p ps)
  from Cons.prems have "filter (\<lambda>m. md_album_id m = aid) (update_where (\<lambda>m. md_id m = fst p \<and> md_album_id m = b) (\<lambda>m. m\<lparr>md_position := snd p\<rparr>) ms)
      = filter (\<lambda>m. md_album_id m = aid) ms" for ms :: "media list"
    by (intro filter_update_other) simp
  then have "spares aid d (set_position b p d)" by (simp add: spares_def set_position_def get_album_def list_album_media_def)
  with Cons show ?case by (auto intro: spares_trans)
qed simp

lemma spares_update_media_positions: "update_media_positions b ps d = Inr (ms, d') \<Longrightarrow> b \<noteq> aid \<Longrightarrow> spares aid d d'"
  by (auto simp: update_media_positions_def Let_def split: if_splits intro: spares_set_positions)

lemma spares_reorder_positions [spare_steps]: "reorder_positions b ps d = Inr (ms, d') \<Longrightarrow> b \<noteq> aid \<Longrightarrow> spares aid d d'"
  unfolding reorder_positions_def
  by (auto split: if_splits sum.splits dest!: spares_update_media_positions [where aid = aid] intro: spares_trans)

lemma spares_repo_delete_media [spare_steps]:
  assumes "repo_delete_media mid d = (Some m, d')" "md_album_id m \<noteq> aid" "db_wf d"
  shows "spares aid d d'"
proof -
  from assms(1) have m: "get_media mid d = Some m" and d': "d' = d\<lparr>db_media := delete_where (\<lambda>m. md_id m = mid) (db_media d)\<rparr>"
    by (auto simp: repo_delete_media_def)
  have "md_album_id x \<noteq> aid" if "x \<in> set (db_media d)" "md_id x = mid" for x
    using find_row_unique [OF db_wf_keys(2) [OF assms(3)] that(1)] m that(2) assms(2) by (simp add: get_media_def)
  then have "filter (\<lambda>m. md_album_id m = aid) (delete_where (\<lambda>m. md_id m = mid) (db_media d)) = filter (\<lambda>m. md_album_id m = aid) (db_media d)"
    by (auto simp: delete_where_def intro: filter_cong)
  then show ?thesis by (simp add: d' spares_def get_album_def list_album_media_def)
qed

lemma spares_save_album [spare_steps]: "save_album now a w = (x, w') \<Longrightarrow> al_id a \<noteq> aid \<Longrightarrow> spares aid (w_db w) (w_db w')"
  by (auto simp: save_album_def split: sum.splits err.splits dest: spare_steps)


text \<open>Without the ownership, the token or the rights of an administrator no check lets a request through, at any time.\<close>

lemma locked_out:
  assumes "\<not> may_access t album tok actor True"
  obtains e where "require_album_access now album tok actor ae = Inl e"
proof -
  from assms have "\<not> may_access now album tok actor ae" by (auto simp: may_access_def)
  then show thesis using that by (metis require_album_access_Inr sum.exhaust)
qed

lemma spares_delete_album:
  assumes "delete_album now b tok cid actor w = (r, w')" "get_album aid (w_db w) = Some album" "\<not> may_access t album tok actor True"
  shows "spares aid (w_db w) (w_db w')"
proof (cases "b = aid")
  case True
  obtain e where "require_album_access now album tok actor (case actor of Some u \<Rightarrow> us_is_admin u | None \<Rightarrow> False) = Inl e"
    by (rule locked_out [OF assms(3)])
  with assms True show ?thesis by (simp add: delete_album_def)
next
  case False
  with assms(1) show ?thesis
    by (auto simp: delete_album_def Let_def split: option.splits sum.splits prod.splits dest!: spares_repo_delete_album [where aid = aid])
qed

lemma spares_update_album:
  assumes "update_album now dbnow b tok cid actor title cover w = (r, w')" "get_album aid (w_db w) = Some album" "\<not> may_access t album tok actor True"
  shows "spares aid (w_db w) (w_db w')"
proof (cases "get_album b (w_db w)")
  case None
  with assms(1) show ?thesis by (simp add: update_album_def)
next
  case (Some al)
  show ?thesis
  proof (cases "b = aid")
    case True
    obtain e where "require_album_access now album tok actor False = Inl e" by (rule locked_out [OF assms(3)])
    with assms True show ?thesis by (simp add: update_album_def)
  next
    case False
    have id: "al_id al = b" using get_album_id [OF Some] .
    obtain a1 c1 w1 where t: "apply_title_patch title tok cid actor al w = (a1, c1, w1)" by (metis prod_cases3)
    note t' = apply_title_patch_core [OF t]
    note run = assms(1) [unfolded update_album_def Some option.case t prod.case Let_def]
    show ?thesis
    proof (cases "apply_cover_patch cover (list_album_media b (w_db w)) tok cid actor a1 w1")
      case (Inl e)
      with run t'(4) show ?thesis by (auto split: sum.splits)
    next
      case (Inr x)
      obtain a2 c2 w2 where x: "x = (a2, c2, w2)" by (cases x)
      note c' = apply_cover_patch_core [OF Inr [unfolded x]]
      have "al_id a2 \<noteq> aid" using id t'(1) c'(1) False by simp
      then show ?thesis
        using run Inr x spares_save_album [of dbnow a2 w2 _ _ aid] t'(4) c'(4)
        by (auto split: sum.splits if_splits prod.splits)
    qed
  qed
qed

lemma spares_reorder_album:
  assumes "reorder_album now dbnow b tok order cid actor w = (r, w')" "get_album aid (w_db w) = Some album" "\<not> may_access t album tok actor True"
  shows "spares aid (w_db w) (w_db w')"
proof (cases "b = aid")
  case True
  obtain e where "require_album_access now album tok actor False = Inl e" by (rule locked_out [OF assms(3)])
  with assms True show ?thesis by (simp add: reorder_album_def)
next
  case False
  have save: "spares aid (w_db w) (w_db w1)" if "get_album b (w_db w) = Some al" "reorder_positions b ps (w_db w) = Inr (ms, d)"
    "save_album dbnow al (with_db w d) = (x, w1)" for al ps ms d x w1
    using spares_trans [OF spares_reorder_positions [OF that(2) False] spares_save_album [OF that(3), of aid, simplified]]
      get_album_id [OF that(1)] False by simp
  show ?thesis
    using assms(1)
    by (auto simp: reorder_album_def Let_def split: option.splits sum.splits if_splits prod.splits dest: save)
qed

lemma spares_delete_emptied_album: "b \<noteq> aid \<Longrightarrow> spares aid (w_db w) (w_db (delete_emptied_album b tok cid actor w))"
  by (auto simp: delete_emptied_album_def split: prod.splits option.splits dest!: spares_repo_delete_album [where aid = aid])

lemma spares_delete_media:
  assumes "delete_media now dbnow mid tok cid actor w = (r, w')" "get_album aid (w_db w) = Some album" "\<not> may_access t album tok actor True"
    "db_wf (w_db w)"
  shows "spares aid (w_db w) (w_db w')"
proof (cases "\<exists>m al. get_media mid (w_db w) = Some m \<and> get_album (md_album_id m) (w_db w) = Some al
    \<and> require_album_access now al tok actor False = Inr ()")
  case False
  with assms show ?thesis by (auto simp: delete_media_def split: option.splits sum.splits)
next
  case True
  then obtain m al where m: "get_media mid (w_db w) = Some m" and a: "get_album (md_album_id m) (w_db w) = Some al"
    and acc: "require_album_access now al tok actor False = Inr ()" by blast
  obtain e where "require_album_access now album tok actor False = Inl e" by (rule locked_out [OF assms(3)])
  with acc a assms(2) have other: "md_album_id m \<noteq> aid" by auto
  have id: "al_id al \<noteq> aid" using get_album_id [OF a] other by simp
  obtain d where d: "repo_delete_media mid (w_db w) = (Some m, d)" using m by (simp add: repo_delete_media_def)
  note t = spares_repo_delete_media [OF d other assms(4)]
  have u: "spares aid (w_db w) d'" if "update_album_row dbnow al' d = Inr (x, d')" "al_id al' = al_id al" for al' x d'
    using spares_trans [OF t spares_update_album_row [OF that(1)]] that(2) id by simp
  have e: "spares aid (w_db w) (w_db (delete_emptied_album (al_id al) tok cid actor v))" if "w_db v = d" for v
    using spares_trans [OF t] spares_delete_emptied_album [OF id, of v] that by simp
  show ?thesis
    using assms(1) unfolding delete_media_def m a acc d option.case prod.case sum.case Let_def
    by (auto split: if_splits sum.splits err.splits intro: e t dest: u)
qed


text \<open>An upload goes to an album of the client, or to a new one.\<close>

lemma upload_elsewhere:
  assumes "get_or_create_album cfg ui album_id title cid actor tok w = (Inr a, w1)" "get_album aid (w_db w) = Some album"
    "\<not> may_access t album tok (ca_user actor) True"
  shows "al_id a \<noteq> aid" "get_album aid (w_db w1) = Some album"
proof -
  have "al_id a \<noteq> aid \<and> get_album aid (w_db w1) = Some album"
  proof (rule get_or_create_album_cases [OF assms(1)])
    fix b assume b: "(Inr a :: err + album) = Inr b" "w1 = w" "existing_album ui (the album_id) actor tok (w_db w) = Inr b"
    have "False" if "al_id a = aid"
    proof -
      have "b = album" using existing_album_ok [OF b(3)] b(1) that assms(2) by auto
      with b(3) assms(3) show False
        by (auto simp: existing_album_def guard_simps may_access_def split: option.splits if_splits)
    qed
    with b(2) assms(2) show ?thesis by blast
  next
    fix b assume b: "(Inr a :: err + album) = Inr b" "w_db w1 = (w_db w)\<lparr>db_albums := db_albums (w_db w) @ [b]\<rparr>"
      "get_album (al_id b) (w_db w) = None"
    with assms(2) show ?thesis by (auto simp: get_album_def find_row_append)
  qed auto
  then show "al_id a \<noteq> aid" "get_album aid (w_db w1) = Some album" by simp_all
qed

lemma got_album_kept:
  assumes "get_or_create_album cfg ui album_id title cid actor tok w = (r, w1)" "get_album aid (w_db w) = Some album"
  shows "get_album aid (w_db w1) = Some album"
  using assms by (rule_tac get_or_create_album_cases [OF assms(1)]) (auto simp: get_album_def find_row_append)

lemma upload_spares_other:
  assumes "upload cfg procs mt listen limit ui f album_id title cid actor tok lk (w, r) = (Inr (a, x), w', r')"
    and "db_wf (w_db w)" "album_id \<noteq> Some []" "upload_listener listen"
    and "get_album aid (w_db w) = Some album" "al_id a \<noteq> aid"
  shows "get_album aid (w_db w') = Some album \<and> list_all2 rethumbed (list_album_media aid (w_db w)) (list_album_media aid (w_db w'))"
proof -
  have "get_album aid (w_db w') = Some album"
    using assms(1-4)
  proof (rule upload_cases)
    fix a0 w1 payload mtype md sf m w2 ev x0
    assume h: "get_or_create_album cfg ui album_id title cid actor tok w = (Inr a0, w1)"
      "create_media_with_next_position (new_media ui (al_id a0) f (ca_user actor) mtype md sf) (w_db w1) = Inr (m, w_db w2)"
      "w_db w' = (w_db (listen ev w2))\<lparr>db_albums := update_where (\<lambda>r. al_id r = al_id a0)
         (album_row_update (ui_dbnow ui) (if \<not> truthy (al_title a0) \<and> truthy title then a0\<lparr>al_title := title\<rparr> else a0))
         (db_albums (w_db (listen ev w2)))\<rparr>"
      "thumbs_only w2 (listen ev w2)"
      "(Inr (a, x) :: err + album \<times> media) = Inr (if \<not> truthy (al_title a0) \<and> truthy title then a0\<lparr>al_title := title\<rparr> else a0, x0)"
    have other: "al_id a0 \<noteq> aid" using assms(6) h(5) by (auto split: if_splits)
    have "w_db w2 = (w_db w1)\<lparr>db_media := db_media (w_db w1) @ [m]\<rparr>"
      using h(2) by (rule create_media_with_next_position_ok) (simp add: new_media_def)
    then have "get_album aid (w_db (listen ev w2)) = Some album"
      using got_album_kept [OF h(1) assms(5)] h(4) by (auto simp: thumbs_only_def get_album_def)
    moreover have "get_album aid (w_db w') = get_album aid (w_db (listen ev w2))"
      using other by (auto simp: h(3) get_album_def album_row_update_def intro!: find_row_update_other)
    ultimately show ?thesis by simp
  qed auto
  moreover have "list_all2 rethumbed (list_album_media aid (w_db w)) (list_album_media aid (w_db w'))"
  proof (rule accepted_effect [OF assms(1-4)])
    fix m assume "\<And>aid. list_all2 rethumbed (list_album_media aid (w_db w) @ (if aid = al_id a then [m] else [])) (list_album_media aid (w_db w'))"
    from this [of aid] assms(6) show ?thesis by auto
  qed
  ultimately show ?thesis by blast
qed

lemma upload_elsewhere_id:
  assumes "upload cfg procs mt listen limit ui f album_id title cid actor tok lk (w, r) = (Inr (a, x), w', r')"
    and "db_wf (w_db w)" "album_id \<noteq> Some []" "upload_listener listen"
    and "get_album aid (w_db w) = Some album" "\<not> may_access t album tok (ca_user actor) True"
  shows "al_id a \<noteq> aid"
  using assms(1-4)
proof (rule upload_cases)
  fix a0 w1 x0
  assume "get_or_create_album cfg ui album_id title cid actor tok w = (Inr a0, w1)"
    "(Inr (a, x) :: err + album \<times> media) = Inr (if \<not> truthy (al_title a0) \<and> truthy title then a0\<lparr>al_title := title\<rparr> else a0, x0)"
  with upload_elsewhere(1) [OF this(1) assms(5,6)] show ?thesis by (auto split: if_splits)
qed auto

text \<open>Whatever a client asks for, including uploads, an album it does not own, whose token it does not show and
  that it does not administer keeps its row and its items, in their order, save for the thumbnails that the
  listener to an upload may complete.\<close>

theorem clients_leave_other_albums_alone:
  assumes "client_step E actor tok w w'" "services_ok E" "db_wf (w_db w)"
    and "get_album aid (w_db w) = Some album" "\<not> may_access t album tok actor True"
  shows "get_album aid (w_db w') = Some album
    \<and> list_all2 rethumbed (list_album_media aid (w_db w)) (list_album_media aid (w_db w'))"
proof -
  have spared: ?thesis if "spares aid (w_db w) (w_db w')"
    using that assms(4) by (simp add: spares_def list_all2_refl)
  note away = assms(4,5)
  from assms(1) show ?thesis
  proof cases
    case (uploads album_id verdict ui f title cid source lk r u)
    from assms(2) have l: "upload_listener (sv_listen E)" by (simp add: services_ok_def)
    show ?thesis
    proof (cases r)
      case (Inl e)
      from uploads(2) assms(3) uploads(1) l have "w_db w' = w_db w" by (rule upload_cases) (use Inl in auto)
      then show ?thesis by (intro spared) simp
    next
      case (Inr ax)
      obtain a x where "ax = (a, x)" by (cases ax)
      from uploads(2) [unfolded Inr this] assms(3) uploads(1) l assms(4) have "al_id a \<noteq> aid"
        by (rule upload_elsewhere_id) (use assms(5) in simp)
      from upload_spares_other [OF uploads(2) [unfolded Inr \<open>ax = (a, x)\<close>] assms(3) uploads(1) l assms(4) this] show ?thesis .
    qed
  next
    case deletes_album
    then show ?thesis by (rule spared [OF spares_delete_album [OF _ away]])
  next
    case updates_album
    then show ?thesis by (rule spared [OF spares_update_album [OF _ away]])
  next
    case reorders_album
    then show ?thesis by (rule spared [OF spares_reorder_album [OF _ away]])
  next
    case deletes_media
    then show ?thesis by (rule spared [OF spares_delete_media [OF _ away assms(3)]])
  qed
qed

theorem clients_leave_other_albums_alone_witness:
  "\<exists>w'. w' \<noteq> sample_world [] \<and> get_album ''x'' (w_db w') = Some (sample_album ''x'' None (Some ''t'') (Some 5))
     \<and> client_step sample_services (Some (sample_user ''u'' False)) None (sample_world []) w'"
proof -
  obtain w' where c: "client_step sample_services (Some (sample_user ''u'' False)) None (sample_world []) w'"
    and l: "map md_id (list_album_media ''a'' (w_db w')) = [''m1'', ''m2'', ''m3'', ''mm'']" by (rule sample_upload_step)
  have x: "get_album ''x'' (w_db (sample_world [])) = Some (sample_album ''x'' None (Some ''t'') (Some 5))"
    "\<not> may_access 0 (sample_album ''x'' None (Some ''t'') (Some 5)) None (Some (sample_user ''u'' False)) True"
    by (simp_all add: may_access_def sample_defs get_album_def find_row_Cons)
  have "map md_id (list_album_media ''a'' (w_db (sample_world []))) = [''m1'', ''m2'', ''m3'']" by code_simp
  with l have "w' \<noteq> sample_world []" by auto
  with clients_leave_other_albums_alone [OF c sample_services_ok _ x] c sample_db_wf show ?thesis by auto
qed

end
