(* ===== verification/Encoding.thy ===== *)
theory Encoding
  imports Prelude
begin

text \<open>
  Bytes as text: the part of UTF-8 the model covers, and the URL-safe Base64 of \<^verbatim>\<open>_b64encode\<close> and \<^verbatim>\<open>_b64decode\<close>,
  which \<^verbatim>\<open>sessions.py\<close>, \<^verbatim>\<open>sharex_delete.py\<close>, \<^verbatim>\<open>account_delete_reauth.py\<close> and \<^verbatim>\<open>oauth/state.py\<close> each define alike.
\<close>

section \<open>UTF-8\<close>

text \<open>\<open>None\<close>: the bytes are malformed, or denote text outside the Latin-1 range, which no signed token holds.\<close>

fun utf8_decode :: "bytes \<Rightarrow> string option" where
  "utf8_decode [] = Some []"
| "utf8_decode (b # bs) =
     (let n = (of_char b :: nat) in
      if n < 128 then map_option (Cons b) (utf8_decode bs)
      else (case bs of
        [] \<Rightarrow> None
      | c # cs \<Rightarrow>
          let m = (of_char c :: nat) in
          if n \<in> {194, 195} \<and> 128 \<le> m \<and> m < 192
          then map_option (Cons (char_of (64 * (n - 192) + (m - 128)))) (utf8_decode cs) else None))"

lemma utf8_decode_ascii: "list_all (\<lambda>c. (of_char c :: nat) < 128) s \<Longrightarrow> utf8_decode s = Some s"
  by (induction s) auto

section \<open>Base64\<close>

definition b64_alphabet :: string where
  "b64_alphabet = ''ABCDEFGHIJKLMNOPQRSTUVWXYZabcdefghijklmnopqrstuvwxyz0123456789-_''"

fun b64_sextets :: "nat list \<Rightarrow> nat list" where
  "b64_sextets [] = []"
| "b64_sextets [a] = [a div 4, a mod 4 * 16]"
| "b64_sextets [a, b] = [a div 4, a mod 4 * 16 + b div 16, b mod 16 * 4]"
| "b64_sextets (a # b # c # r) = [a div 4, a mod 4 * 16 + b div 16, b mod 16 * 4 + c div 64, c mod 64] @ b64_sextets r"

text \<open>The padding that \<^verbatim>\<open>urlsafe_b64encode\<close> appends is what \<^verbatim>\<open>rstrip(b"=")\<close> removes again.\<close>

definition b64_encode :: "bytes \<Rightarrow> string" where
  "b64_encode data = map (\<lambda>n. b64_alphabet ! n) (b64_sextets (map of_char data))"

text \<open>Both alphabets are accepted: \<^verbatim>\<open>urlsafe_b64decode\<close> translates the one to the other.\<close>

definition b64_value :: "char \<Rightarrow> nat option" where
  "b64_value c = (let n = of_char c in
     if 65 \<le> n \<and> n \<le> 90 then Some (n - 65)
     else if 97 \<le> n \<and> n \<le> 122 then Some (n - 71)
     else if 48 \<le> n \<and> n \<le> 57 then Some (n + 4)
     else if c \<in> {CHR ''+'', CHR ''-''} then Some 62
     else if c \<in> {CHR ''/'', CHR ''_''} then Some 63 else None)"

text \<open>
  \<^verbatim>\<open>binascii.a2b_base64\<close>, not strict: \<open>q\<close> counts the digits of the group, \<open>l\<close> holds their bits that are left,
  \<open>p\<close> the pad characters since the last digit; characters outside the alphabet are skipped.
\<close>

fun a2b :: "nat \<Rightarrow> nat \<Rightarrow> nat \<Rightarrow> string \<Rightarrow> nat list option" where
  "a2b q l p [] = (if q = 0 \<or> q \<noteq> 1 \<and> 4 \<le> q + p then Some [] else None)"
| "a2b q l p (c # cs) =
     (if c = CHR ''='' then a2b q l (if 2 \<le> q then p + 1 else p) cs
      else (case b64_value c of
         None \<Rightarrow> a2b q l p cs
       | Some v \<Rightarrow>
           if q = 0 then a2b 1 v 0 cs
           else if q = 1 then map_option (Cons (l * 4 + v div 16)) (a2b 2 (v mod 16) 0 cs)
           else if q = 2 then map_option (Cons (l * 16 + v div 4)) (a2b 3 (v mod 4) 0 cs)
           else map_option (Cons (l * 64 + v)) (a2b 0 0 0 cs)))"

text \<open>A \<^verbatim>\<open>str\<close> with other than ASCII characters is refused; \<open>None\<close> is a \<^verbatim>\<open>ValueError\<close> or a \<^verbatim>\<open>binascii.Error\<close>.\<close>

definition b64_padding :: "nat \<Rightarrow> string" where
  "b64_padding n = replicate ((4 - n mod 4) mod 4) CHR ''=''"

definition b64_decode :: "string \<Rightarrow> bytes option" where
  "b64_decode data =
     (if list_all (\<lambda>c. (of_char c :: nat) < 128) data
      then map_option (map char_of) (a2b 0 0 0 (data @ b64_padding (length data)))
      else None)"

section \<open>What is encoded is decoded\<close>

lemma alphabet_nth:
  assumes "n < 64"
  shows "b64_value (b64_alphabet ! n) = Some n \<and> b64_alphabet ! n \<noteq> CHR ''='' \<and> b64_alphabet ! n \<noteq> CHR ''.''
    \<and> (of_char (b64_alphabet ! n) :: nat) < 128"
proof -
  have "list_all (\<lambda>n. b64_value (b64_alphabet ! n) = Some n \<and> b64_alphabet ! n \<noteq> CHR ''='' \<and> b64_alphabet ! n \<noteq> CHR ''.''
    \<and> (of_char (b64_alphabet ! n) :: nat) < 128) [0..<64]"
    by (simp add: upt_rec b64_alphabet_def b64_value_def)
  with assms show ?thesis by (simp add: list_all_iff)
qed

lemma sextets_small: "list_all (\<lambda>a. a < 256) bs \<Longrightarrow> list_all (\<lambda>s. s < 64) (b64_sextets bs)"
  by (induction bs rule: b64_sextets.induct) (auto simp: less_mult_imp_div_less)

lemma a2b_digit:
  assumes "n < 64"
  shows "a2b 0 l p (b64_alphabet ! n # cs) = a2b 1 n 0 cs"
    "a2b 1 l p (b64_alphabet ! n # cs) = map_option (Cons (l * 4 + n div 16)) (a2b 2 (n mod 16) 0 cs)"
    "a2b 2 l p (b64_alphabet ! n # cs) = map_option (Cons (l * 16 + n div 4)) (a2b 3 (n mod 4) 0 cs)"
    "a2b 3 l p (b64_alphabet ! n # cs) = map_option (Cons (l * 64 + n)) (a2b 0 0 0 cs)"
  using alphabet_nth [OF assms] by simp_all

lemma b64_padding_simps:
  "b64_padding 0 = []" "b64_padding 2 = ''==''" "b64_padding 3 = ''=''" "b64_padding (4 + n) = b64_padding n"
  by (simp_all add: b64_padding_def numeral_2_eq_2)

lemma a2b_group:
  assumes "v < 64" "w < 64" "x < 64" "y < 64"
  shows "a2b 0 0 0 (b64_alphabet ! v # b64_alphabet ! w # b64_alphabet ! x # b64_alphabet ! y # cs) =
    map_option (\<lambda>bs. (v * 4 + w div 16) # (w mod 16 * 16 + x div 4) # (x mod 4 * 64 + y) # bs) (a2b 0 0 0 cs)"
  using a2b_digit(1) [OF assms(1)] a2b_digit(2) [OF assms(2)] a2b_digit(3) [OF assms(3)] a2b_digit(4) [OF assms(4)]
  by (cases "a2b 0 0 0 cs") (simp_all del: a2b.simps)

lemma a2b_sextets:
  "list_all (\<lambda>a. a < 256) bs \<Longrightarrow>
   a2b 0 0 0 (map (\<lambda>n. b64_alphabet ! n) (b64_sextets bs) @ b64_padding (length (b64_sextets bs))) = Some bs"
proof (induction bs rule: b64_sextets.induct)
  case (2 a)
  then have small: "a div 4 < 64" "a mod 4 * 16 < 64" by (auto simp: less_mult_imp_div_less)
  have pad: "b64_padding (length (b64_sextets [a])) = ''==''"
    unfolding b64_padding_simps(2) [symmetric] by (simp add: numeral_2_eq_2)
  have bits: "a div 4 * 4 + a mod 4 * 16 div 16 = a" "a mod 4 * 16 mod 16 = 0" by simp_all
  have stop: "a2b 2 0 0 ''=='' = Some []" by simp
  show ?case
    unfolding pad unfolding b64_sextets.simps list.map append.simps a2b_digit(1) [OF small(1)] a2b_digit(2) [OF small(2)] bits stop
    by simp
next
  case (3 a b)
  then have small: "a div 4 < 64" "a mod 4 * 16 + b div 16 < 64" "b mod 16 * 4 < 64" by auto
  have pad: "b64_padding (length (b64_sextets [a, b])) = ''=''"
    unfolding b64_padding_simps(3) [symmetric] by (simp add: numeral_3_eq_3)
  have bits: "a div 4 * 4 + (a mod 4 * 16 + b div 16) div 16 = a"
    "(a mod 4 * 16 + b div 16) mod 16 * 16 + b mod 16 * 4 div 4 = b" "b mod 16 * 4 mod 4 = 0"
    using 3 by auto
  have stop: "a2b 3 0 0 ''='' = Some []" by simp
  show ?case
    unfolding pad unfolding b64_sextets.simps list.map append.simps a2b_digit(1) [OF small(1)] a2b_digit(2) [OF small(2)]
      a2b_digit(3) [OF small(3)] bits stop
    by simp
next
  case (4 a b c r)
  then have small: "a div 4 < 64" "a mod 4 * 16 + b div 16 < 64" "b mod 16 * 4 + c div 64 < 64" "c mod 64 < 64" by auto
  have bits: "a div 4 * 4 + (a mod 4 * 16 + b div 16) div 16 = a"
    "(a mod 4 * 16 + b div 16) mod 16 * 16 + (b mod 16 * 4 + c div 64) div 4 = b"
    "(b mod 16 * 4 + c div 64) mod 4 * 64 + c mod 64 = c"
    using 4(2) by auto
  have "length (b64_sextets (a # b # c # r)) = 4 + length (b64_sextets r)" by simp
  then have pad: "b64_padding (length (b64_sextets (a # b # c # r))) = b64_padding (length (b64_sextets r))"
    by (simp only: b64_padding_simps)
  have "a2b 0 0 0 (map (\<lambda>n. b64_alphabet ! n) (b64_sextets r) @ b64_padding (length (b64_sextets r))) = Some r"
    using 4 by simp
  then show ?case
    unfolding pad unfolding b64_sextets.simps map_append list.map append.simps append_assoc a2b_group [OF small] bits by simp
qed (simp add: b64_padding_simps)

lemma b64_round_trip: "b64_decode (b64_encode data) = Some data"
proof -
  let ?bs = "map of_char data :: nat list"
  have bs: "list_all (\<lambda>a. a < 256) ?bs" by (simp add: list_all_iff)
  have "list_all (\<lambda>c. (of_char c :: nat) < 128) (b64_encode data)"
    using sextets_small [OF bs] alphabet_nth by (auto simp: b64_encode_def list_all_iff)
  moreover have "map char_of ?bs = data" by (simp add: map_idI)
  ultimately show ?thesis
    using a2b_sextets [OF bs] by (simp add: b64_decode_def b64_encode_def)
qed

lemma b64_encode_no_dot: "CHR ''.'' \<notin> set (b64_encode data)"
proof
  assume "CHR ''.'' \<in> set (b64_encode data)"
  then obtain n where n: "n \<in> set (b64_sextets (map of_char data))" "b64_alphabet ! n = CHR ''.''" by (auto simp: b64_encode_def)
  have "list_all (\<lambda>a. a < 256) (map of_char data :: nat list)" by (simp add: list_all_iff)
  from sextets_small [OF this] n(1) have "n < 64" by (auto simp: list_all_iff)
  from alphabet_nth [OF this] n(2) show False by simp
qed

lemma b64_encode_Nil: "b64_encode data = [] \<longleftrightarrow> data = []"
  by (cases data; cases "tl data"; cases "tl (tl data)") (auto simp: b64_encode_def neq_Nil_conv)

end
