(* ===== verification/Tokens.thy ===== *)
theory Tokens
  imports Accounts Json Encoding
begin

text \<open>
  The signed tokens of \<^verbatim>\<open>sharex_delete.py\<close>, \<^verbatim>\<open>account_delete_reauth.py\<close> and \<^verbatim>\<open>oauth/state.py\<close>: a JSON object in
  Base64, a dot, and the hexadecimal HMAC-SHA256 of the object under the secret key. The four modules that sign
  repeat the same steps; they are one definition here. HMAC, and what \<^verbatim>\<open>isoformat\<close> writes and \<^verbatim>\<open>fromisoformat\<close>
  reads, are parameters.
\<close>

section \<open>Signing and opening\<close>

datatype iso_time = Aware time | Naive time

text \<open>
  \<open>tk_hmac\<close>: \<^verbatim>\<open>hmac.new(secret_key, payload, sha256).hexdigest()\<close>; \<open>tk_str\<close> and \<open>tk_truthy\<close>: \<^verbatim>\<open>str(v)\<close> and
  \<^verbatim>\<open>bool(v)\<close> of the JSON values that \<open>json\<close> does not tell apart.
\<close>

record token_env =
  tk_hmac :: "bytes \<Rightarrow> string"
  tk_isoformat :: "time \<Rightarrow> string"
  tk_fromisoformat :: "string \<Rightarrow> iso_time option"
  tk_str :: "json \<Rightarrow> string"
  tk_truthy :: "json \<Rightarrow> bool"

definition is_ascii :: "string \<Rightarrow> bool" where
  "is_ascii s = list_all (\<lambda>c. (of_char c :: nat) < 128) s"

text \<open>\<^verbatim>\<open>hmac.compare_digest\<close> of two texts.\<close>

definition compare_digest :: "string \<Rightarrow> string \<Rightarrow> err + bool" where
  "compare_digest a b =
     (if is_ascii a \<and> is_ascii b then Inr (a = b)
      else Inl (TypeError ''comparing strings with non-ASCII characters is not supported''))"

definition sign_values :: "token_env \<Rightarrow> (string \<times> string option) list \<Rightarrow> string" where
  "sign_values E values =
     (let payload = utf8_encode (json_dumps_object [] [] (sort_key fst values))
      in b64_encode payload @ CHR ''.'' # tk_hmac E payload)"

text \<open>\<open>bad\<close> is what the module raises (or returns) for a token it does not accept.\<close>

definition open_signed :: "token_env \<Rightarrow> err \<Rightarrow> string \<Rightarrow> err + (string option \<times> json) list" where
  "open_signed E bad token =
     (case partition_at CHR ''.'' token of (payload_b64, dot, signature) \<Rightarrow>
      if \<not> dot \<or> payload_b64 = [] \<or> signature = [] then Inl bad
      else (case b64_decode payload_b64 of
         None \<Rightarrow> Inl bad
       | Some payload \<Rightarrow>
           and_then (compare_digest signature (tk_hmac E payload)) (\<lambda>same.
             if \<not> same then Inl bad
             else (case utf8_decode payload of
                None \<Rightarrow> Inl (ValueError ''UnicodeDecodeError'')
              | Some data \<Rightarrow>
                  (case json_loads data of
                     Inl BadJson \<Rightarrow> Inl bad
                   | Inl _ \<Rightarrow> Inl (ValueError ''Exceeds the limit for integer string conversion'')
                   | Inr (JObject ms) \<Rightarrow> Inr ms
                   | Inr _ \<Rightarrow> Inl bad)))))"

section \<open>Fields\<close>

fun json_truthy :: "token_env \<Rightarrow> json \<Rightarrow> bool" where
  "json_truthy E JNull = False"
| "json_truthy E (JBool b) = b"
| "json_truthy E (JInt n) = (n \<noteq> 0)"
| "json_truthy E (JString s) = (s \<noteq> [])"
| "json_truthy E (JObject ms) = (ms \<noteq> [])"
| "json_truthy E (JOther t) = tk_truthy E (JOther t)"

fun json_str :: "token_env \<Rightarrow> json \<Rightarrow> string" where
  "json_str E (JString s) = s"
| "json_str E v = tk_str E v"

text \<open>\<^verbatim>\<open>str(data.get(key) or "").strip()\<close>\<close>

definition str_field :: "token_env \<Rightarrow> (string option \<times> json) list \<Rightarrow> string \<Rightarrow> string" where
  "str_field E ms k =
     (case obj_get ms k of
        Some v \<Rightarrow> if json_truthy E v then py_strip (json_str E v) else []
      | None \<Rightarrow> [])"

text \<open>\<^verbatim>\<open>values["created_at"] or utcnow().isoformat()\<close>, and the check of the age when a token comes back.\<close>

definition created_text :: "token_env \<Rightarrow> time \<Rightarrow> string option \<Rightarrow> string" where
  "created_text E now c = (if truthy c then the c else tk_isoformat E now)"

definition check_age :: "token_env \<Rightarrow> err \<Rightarrow> time \<Rightarrow> int \<Rightarrow> string \<Rightarrow> err + unit" where
  "check_age E bad now max_age created =
     (case tk_fromisoformat E created of
        None \<Rightarrow> Inl bad
      | Some (Naive _) \<Rightarrow> Inl (TypeError ''can't subtract offset-naive and offset-aware datetimes'')
      | Some (Aware t) \<Rightarrow> if now - t < 0 \<or> seconds max_age < now - t then Inl bad else Inr ())"

section \<open>The state of an OAuth flow\<close>

record oauth_state_payload =
  os_mode :: string
  os_next_path :: string
  os_jti :: string
  os_user_id :: "string option"
  os_created_at :: "string option"

definition oauth_state_dumps :: "token_env \<Rightarrow> time \<Rightarrow> oauth_state_payload \<Rightarrow> string" where
  "oauth_state_dumps E now p = sign_values E
     [(''mode'', Some (os_mode p)), (''next_path'', Some (os_next_path p)), (''jti'', Some (os_jti p)),
      (''user_id'', os_user_id p), (''created_at'', Some (created_text E now (os_created_at p)))]"

definition oauth_state_loads :: "token_env \<Rightarrow> time \<Rightarrow> int \<Rightarrow> string \<Rightarrow> err + oauth_state_payload" where
  "oauth_state_loads E now max_age token =
     (let bad = ValueError ''invalid_oauth_state'' in
      and_then (open_signed E bad token) (\<lambda>data.
        let created_at = str_field E data ''created_at'' in
        if created_at = [] then Inl bad
        else and_then (check_age E bad now max_age created_at) (\<lambda>_.
          Inr \<lparr>os_mode = str_field E data ''mode'', os_next_path = str_field E data ''next_path'',
            os_jti = str_field E data ''jti'',
            os_user_id = (case obj_get data ''user_id'' of
               Some v \<Rightarrow> if json_truthy E v then Some (py_strip (json_str E v)) else None | None \<Rightarrow> None),
            os_created_at = Some created_at\<rparr>)))"

section \<open>Re-authentication before an account is deleted\<close>

record reauth_payload = reauth +
  ra_created_at :: "string option"

definition reauth_dumps :: "token_env \<Rightarrow> time \<Rightarrow> reauth_payload \<Rightarrow> string" where
  "reauth_dumps E now p = sign_values E
     [(''user_id'', Some (ra_user_id p)), (''provider'', Some (ra_provider p)),
      (''provider_uid'', Some (ra_provider_uid p)), (''created_at'', Some (created_text E now (ra_created_at p)))]"

definition reauth_loads :: "token_env \<Rightarrow> time \<Rightarrow> int \<Rightarrow> string \<Rightarrow> err + reauth_payload" where
  "reauth_loads E now max_age token =
     (let bad = ValueError ''invalid_account_delete_reauth_token'' in
      and_then (open_signed E bad token) (\<lambda>data.
        let created_at = str_field E data ''created_at''; user_id = str_field E data ''user_id'';
            provider = py_lower (str_field E data ''provider''); provider_uid = str_field E data ''provider_uid'' in
        if created_at = [] \<or> user_id = [] \<or> provider = [] \<or> provider_uid = [] then Inl bad
        else and_then (check_age E bad now max_age created_at) (\<lambda>_.
          Inr \<lparr>ra_user_id = user_id, ra_provider = provider, ra_provider_uid = provider_uid,
            ra_created_at = Some created_at\<rparr>)))"

section \<open>Deletion links for ShareX\<close>

definition sharex_delete_capability_days :: int where
  "sharex_delete_capability_days = 90"

definition sharex_delete_confirm_seconds :: int where
  "sharex_delete_confirm_seconds = 300"

definition sharex_delete_purpose :: string where
  "sharex_delete_purpose = ''sharex_delete_album''"

text \<open>\<open>sel\<close> and \<open>sec_text\<close> are the two \<^verbatim>\<open>secrets.token_urlsafe\<close>.\<close>

definition issue_capability ::
  "crypto \<Rightarrow> time \<Rightarrow> string \<Rightarrow> string \<Rightarrow> string \<Rightarrow> string \<Rightarrow> err + sharex_capability \<times> string" where
  "issue_capability cr now sel sec_text album_id user_id =
     and_then (datetime_add now (days sharex_delete_capability_days)) (\<lambda>expires.
       Inr (\<lparr>sc_selector = sel, sc_purpose = sharex_delete_purpose, sc_album_id = album_id, sc_user_id = user_id,
             sc_secret_hash = cr_sha256_hex cr (utf8_encode sec_text), sc_created_at = now, sc_expires_at = expires,
             sc_consumed_at = None, sc_revoked_at = None, sc_last_seen_at = None\<rparr>,
            sel @ CHR ''.'' # sec_text))"

definition split_capability_token :: "string \<Rightarrow> err + string \<times> string" where
  "split_capability_token v =
     (case partition_at CHR ''.'' v of (sel, dot, sec_text) \<Rightarrow>
      if \<not> dot \<or> sel = [] \<or> sec_text = [] then Inl (ValueError ''invalid_sharex_delete_token'')
      else Inr (py_strip sel, py_strip sec_text))"

definition verify_capability_secret :: "crypto \<Rightarrow> sharex_capability \<Rightarrow> string \<Rightarrow> err + bool" where
  "verify_capability_secret cr c sec_text =
     compare_digest (cr_sha256_hex cr (utf8_encode sec_text)) (sc_secret_hash c)"

record sharex_confirmation =
  sx_selector :: string
  sx_album_id :: string
  sx_user_id :: string
  sx_created_at :: "string option"

definition dumps_confirmation :: "token_env \<Rightarrow> time \<Rightarrow> sharex_confirmation \<Rightarrow> string" where
  "dumps_confirmation E now p = sign_values E
     [(''selector'', Some (sx_selector p)), (''album_id'', Some (sx_album_id p)), (''user_id'', Some (sx_user_id p)),
      (''created_at'', Some (created_text E now (sx_created_at p)))]"

definition loads_confirmation :: "token_env \<Rightarrow> time \<Rightarrow> int \<Rightarrow> string \<Rightarrow> err + sharex_confirmation" where
  "loads_confirmation E now max_age token =
     (let bad = ValueError ''invalid_sharex_delete_confirmation'' in
      and_then (open_signed E bad token) (\<lambda>data.
        let created_at = str_field E data ''created_at''; sel = str_field E data ''selector'';
            album_id = str_field E data ''album_id''; user_id = str_field E data ''user_id'' in
        if created_at = [] \<or> sel = [] \<or> album_id = [] \<or> user_id = [] then Inl bad
        else and_then (check_age E bad now max_age created_at) (\<lambda>_.
          Inr \<lparr>sx_selector = sel, sx_album_id = album_id, sx_user_id = user_id, sx_created_at = Some created_at\<rparr>)))"

end
