(* ===== verification/Token_Props.thy ===== *)
theory Token_Props
  imports Tokens
begin

text \<open>
  What the signed tokens promise: what was signed is read back until it is too old, nothing that does not carry
  the HMAC of its own payload is accepted, and where the checks raise instead of refusing.
\<close>

section \<open>Laws of the standard library\<close>

text \<open>A digest is not empty and ASCII; \<^verbatim>\<open>fromisoformat\<close> reads what \<^verbatim>\<open>isoformat\<close> writes of an aware instant, without blanks around it.\<close>

definition token_env_ok :: "token_env \<Rightarrow> bool" where
  "token_env_ok E = ((\<forall>b. is_ascii (tk_hmac E b) \<and> tk_hmac E b \<noteq> [])
     \<and> (\<forall>t. in_datetime t \<longrightarrow> tk_fromisoformat E (tk_isoformat E t) = Some (Aware t)
          \<and> tk_isoformat E t \<noteq> [] \<and> py_strip (tk_isoformat E t) = tk_isoformat E t))"

section \<open>Opening what was signed\<close>

lemma partition_at_joins: "partition_at c s = (a, True, b) \<Longrightarrow> s = a @ c # b"
  by (induction s arbitrary: a) (auto split: prod.splits if_splits)


lemma hex_digit_ascii: "n < 16 \<Longrightarrow> (of_char (hex_digit n) :: nat) < 128"
  by (simp add: hex_digit_def)

lemma json_escape_ascii: "is_ascii (json_escape c)"
proof -
  have "(of_char c :: nat) div 16 < 16" "(of_char c :: nat) mod 16 < 16" by (simp_all add: less_mult_imp_div_less)
  from this [THEN hex_digit_ascii] show ?thesis
    unfolding json_escape_def Let_def is_ascii_def by (simp split: if_splits)
qed

lemma dumps_str_ascii: "is_ascii (json_dumps_str s)"
proof -
  have "is_ascii (concat (map json_escape s))"
    by (induction s) (use json_escape_ascii in \<open>auto simp: is_ascii_def\<close>)
  then show ?thesis by (simp add: json_dumps_str_def is_ascii_def)
qed

lemma dumps_object_ascii: "is_ascii (json_dumps_object [] [] ms)"
proof -
  have "is_ascii (json_dumps_opt v)" for v
    using dumps_str_ascii by (cases v) (simp_all add: json_dumps_opt_def, simp add: is_ascii_def)
  then have "is_ascii (json_fields isp ksp ms)" if "isp = []" "ksp = []" for isp ksp
    using that dumps_str_ascii
    by (induction isp ksp ms rule: json_fields.induct) (auto simp: is_ascii_def)
  then show ?thesis by (simp add: json_dumps_object_def is_ascii_def)
qed

lemma open_sign_values:
  assumes "token_env_ok E" "values \<noteq> []"
  shows "open_signed E bad (sign_values E values) = Inr (parsed_fields (sort_key fst values))"
proof -
  let ?p = "json_dumps_object [] [] (sort_key fst values)"
  have a: "is_ascii ?p" by (rule dumps_object_ascii)
  then have enc: "utf8_encode ?p = ?p" "utf8_decode ?p = Some ?p"
    by (simp_all add: utf8_ascii utf8_decode_ascii is_ascii_def)
  have ne: "?p \<noteq> []" by (simp add: json_dumps_object_def)
  have hm: "is_ascii (tk_hmac E ?p)" "tk_hmac E ?p \<noteq> []" using assms(1) by (auto simp: token_env_ok_def)
  have load: "json_loads ?p = Inr (JObject (parsed_fields (sort_key fst values)))"
  proof (rule loads_dumps_object)
    show "sort_key fst values \<noteq> []" using assms(2) by (metis length_0_conv length_sort)
  qed simp_all
  have "partition_at CHR ''.'' (sign_values E values) = (b64_encode ?p, True, tk_hmac E ?p)"
    by (simp add: sign_values_def Let_def enc partition_at_found b64_encode_no_dot)
  then show ?thesis
    unfolding open_signed_def
    using ne hm by (simp add: b64_encode_Nil b64_round_trip compare_digest_def enc load)
qed

lemma str_field_parsed:
  assumes "distinct (map fst vs)"
  shows "str_field E (parsed_fields vs) k = (case map_of vs k of Some (Some s) \<Rightarrow> py_strip s | _ \<Rightarrow> [])"
  unfolding str_field_def obj_get_parsed [OF assms] by (auto split: option.splits)

lemma check_age_created:
  assumes "token_env_ok E" "in_datetime now"
  shows "check_age E bad later m (tk_isoformat E now) = (if now \<le> later \<and> later \<le> now + seconds m then Inr () else Inl bad)"
  using assms by (auto simp: check_age_def token_env_ok_def)

lemma created_None [simp]: "created_text E now None = tk_isoformat E now"
  by (simp add: created_text_def)

lemma created_strip:
  assumes "token_env_ok E" "in_datetime now"
  shows "py_strip (tk_isoformat E now) = tk_isoformat E now" "tk_isoformat E now \<noteq> []"
  using assms by (auto simp: token_env_ok_def)

section \<open>Properties\<close>

lemma token_round_trip_parts:
  assumes "token_env_ok E" "in_datetime now" "os_created_at p = None" "ra_created_at q = None" "sx_created_at c = None"
  shows "(let young = (now \<le> later \<and> later \<le> now + seconds m); made = Some (tk_isoformat E now) in
    oauth_state_loads E later m (oauth_state_dumps E now p) =
      (if young then Inr \<lparr>os_mode = py_strip (os_mode p), os_next_path = py_strip (os_next_path p), os_jti = py_strip (os_jti p),
         os_user_id = (if truthy (os_user_id p) then map_option py_strip (os_user_id p) else None), os_created_at = made\<rparr>
       else Inl (ValueError ''invalid_oauth_state''))
    \<and> reauth_loads E later m (reauth_dumps E now q) =
      (if young \<and> py_strip (ra_user_id q) \<noteq> [] \<and> py_strip (ra_provider q) \<noteq> [] \<and> py_strip (ra_provider_uid q) \<noteq> []
       then Inr \<lparr>ra_user_id = py_strip (ra_user_id q), ra_provider = py_lower (py_strip (ra_provider q)),
         ra_provider_uid = py_strip (ra_provider_uid q), ra_created_at = made\<rparr>
       else Inl (ValueError ''invalid_account_delete_reauth_token''))
    \<and> loads_confirmation E later m (dumps_confirmation E now c) =
      (if young \<and> py_strip (sx_selector c) \<noteq> [] \<and> py_strip (sx_album_id c) \<noteq> [] \<and> py_strip (sx_user_id c) \<noteq> []
       then Inr \<lparr>sx_selector = py_strip (sx_selector c), sx_album_id = py_strip (sx_album_id c),
         sx_user_id = py_strip (sx_user_id c), sx_created_at = made\<rparr>
       else Inl (ValueError ''invalid_sharex_delete_confirmation'')))"
proof -
  note age = check_age_created [OF assms(1,2)] created_strip [OF assms(1,2)]
  have lower: "py_lower s = [] \<longleftrightarrow> s = []" for s by (simp add: py_lower_def)
  show ?thesis
    unfolding Let_def oauth_state_loads_def oauth_state_dumps_def reauth_loads_def reauth_dumps_def loads_confirmation_def
      dumps_confirmation_def
    by (intro conjI; simp add: open_sign_values [OF assms(1)] str_field_parsed obj_get_parsed age assms(3-5) lower split: option.splits)
qed

text \<open>C33: A token that was just signed is read back with its fields, stripped of surrounding blanks, for as long as
  its age is allowed and refused before and after; a confirmation with an empty field is never accepted.\<close>

theorem signed_tokens_round_trip:
  assumes "token_env_ok E" "in_datetime now" "os_created_at p = None" "ra_created_at q = None" "sx_created_at c = None"
  shows "(let young = (now \<le> later \<and> later \<le> now + seconds m); made = Some (tk_isoformat E now) in
    oauth_state_loads E later m (oauth_state_dumps E now p) =
      (if young then Inr \<lparr>os_mode = py_strip (os_mode p), os_next_path = py_strip (os_next_path p), os_jti = py_strip (os_jti p),
         os_user_id = (if truthy (os_user_id p) then map_option py_strip (os_user_id p) else None), os_created_at = made\<rparr>
       else Inl (ValueError ''invalid_oauth_state''))
    \<and> reauth_loads E later m (reauth_dumps E now q) =
      (if young \<and> py_strip (ra_user_id q) \<noteq> [] \<and> py_strip (ra_provider q) \<noteq> [] \<and> py_strip (ra_provider_uid q) \<noteq> []
       then Inr \<lparr>ra_user_id = py_strip (ra_user_id q), ra_provider = py_lower (py_strip (ra_provider q)),
         ra_provider_uid = py_strip (ra_provider_uid q), ra_created_at = made\<rparr>
       else Inl (ValueError ''invalid_account_delete_reauth_token''))
    \<and> loads_confirmation E later m (dumps_confirmation E now c) =
      (if young \<and> py_strip (sx_selector c) \<noteq> [] \<and> py_strip (sx_album_id c) \<noteq> [] \<and> py_strip (sx_user_id c) \<noteq> []
       then Inr \<lparr>sx_selector = py_strip (sx_selector c), sx_album_id = py_strip (sx_album_id c),
         sx_user_id = py_strip (sx_user_id c), sx_created_at = made\<rparr>
       else Inl (ValueError ''invalid_sharex_delete_confirmation'')))"
  using assms by (rule token_round_trip_parts)

text \<open>A concrete environment: the digest is the length of the payload, instants are written in decimal.\<close>

definition sample_token_env :: token_env where
  "sample_token_env = \<lparr>tk_hmac = (\<lambda>b. show_nat (length b)), tk_isoformat = show_int,
     tk_fromisoformat = (\<lambda>s. case s of c # r \<Rightarrow> if c = CHR ''-'' then Some (Aware (- decimal_value r)) else Some (Aware (decimal_value s)) | [] \<Rightarrow> None),
     tk_str = (\<lambda>_. ''?''), tk_truthy = (\<lambda>_. True)\<rparr>"

lemma show_int_plain: "py_strip (show_int t) = show_int t" "show_int t \<noteq> []"
proof -
  have "\<forall>c\<in>set (show_int t). \<not> py_isspace c"
    by (auto simp: show_int_def py_isspace_def is_decimal_def Let_def dest!: show_nat_decimal)
  then show "py_strip (show_int t) = show_int t"
    by (blast intro: py_strip_none)
  show "show_int t \<noteq> []" by (simp add: show_int_def)
qed

lemma sample_token_env_ok: "token_env_ok sample_token_env"
proof -
  have "is_ascii (show_nat n)" for n
    by (auto simp: is_ascii_def list_all_iff is_decimal_def Let_def dest!: show_nat_decimal)
  moreover have "tk_fromisoformat sample_token_env (show_int t) = Some (Aware t)" for t
  proof (cases "t < 0")
    case True
    then show ?thesis by (simp add: sample_token_env_def show_int_def)
  next
    case False
    obtain c r where cr: "show_nat (nat t) = c # r" by (cases "show_nat (nat t)") auto
    then have "c \<noteq> CHR ''-''" using show_nat_decimal [of c "nat t"] by (auto simp: is_decimal_def)
    moreover have "decimal_value (c # r) = t" using decimal_value_show_nat [of "nat t"] False by (simp add: cr)
    ultimately show ?thesis using False by (simp add: sample_token_env_def show_int_def cr)
  qed
  ultimately show ?thesis
    by (simp add: token_env_ok_def show_int_plain) (simp add: sample_token_env_def show_int_plain)
qed

theorem signed_tokens_round_trip_witness:
  "oauth_state_loads sample_token_env 7 600 (oauth_state_dumps sample_token_env 5
     \<lparr>os_mode = ''login'', os_next_path = '' /a'', os_jti = ''j'', os_user_id = None, os_created_at = None\<rparr>) =
   Inr \<lparr>os_mode = ''login'', os_next_path = ''/a'', os_jti = ''j'', os_user_id = None, os_created_at = Some ''5''\<rparr>"
proof -
  have "in_datetime 5" by (simp add: in_datetime_def)
  from signed_tokens_round_trip [OF sample_token_env_ok this,
      of "\<lparr>os_mode = ''login'', os_next_path = '' /a'', os_jti = ''j'', os_user_id = None, os_created_at = None\<rparr>"
        "\<lparr>ra_user_id = [], ra_provider = [], ra_provider_uid = [], ra_created_at = None\<rparr>"
        "\<lparr>sx_selector = [], sx_album_id = [], sx_user_id = [], sx_created_at = None\<rparr>" 7 600]
  have "oauth_state_loads sample_token_env 7 600 (oauth_state_dumps sample_token_env 5
     \<lparr>os_mode = ''login'', os_next_path = '' /a'', os_jti = ''j'', os_user_id = None, os_created_at = None\<rparr>) =
   Inr \<lparr>os_mode = py_strip ''login'', os_next_path = py_strip '' /a'', os_jti = py_strip ''j'', os_user_id = None,
     os_created_at = Some (show_int 5)\<rparr>"
    by (simp add: seconds_def sec_def Let_def) (simp add: sample_token_env_def)
  moreover have "py_strip ''login'' = ''login''" "py_strip '' /a'' = ''/a''" "py_strip ''j'' = ''j''" "show_int 5 = ''5''"
    by code_simp+
  ultimately show ?thesis by simp
qed

lemma open_signed_shape:
  assumes "open_signed E bad tok = Inr ms"
  shows "\<exists>body payload. tok = body @ CHR ''.'' # tk_hmac E payload \<and> b64_decode body = Some payload
    \<and> map_option json_loads (utf8_decode payload) = Some (Inr (JObject ms))"
proof -
  from assms obtain body sig payload data where tok: "partition_at CHR ''.'' tok = (body, True, sig)"
    "b64_decode body = Some payload" "sig = tk_hmac E payload" "utf8_decode payload = Some data" "json_loads data = Inr (JObject ms)"
    by (auto simp: open_signed_def compare_digest_def and_then_Inr split: prod.splits if_splits option.splits sum.splits json.splits scanned.splits)
  have "tok = body @ CHR ''.'' # sig" using tok(1) by (rule partition_at_joins)
  then show ?thesis using tok by auto
qed

text \<open>C34: Whatever is accepted, as a state of an OAuth flow, as a re-authentication or as a confirmation of a deletion,
  carries the HMAC of the very payload it is read from and names an instant of creation within the age allowed.\<close>

theorem accepted_tokens_are_signed:
  assumes "(\<exists>p. oauth_state_loads E now m tok = Inr p \<and> made = os_created_at p)
    \<or> (\<exists>q. reauth_loads E now m tok = Inr q \<and> made = ra_created_at q)
    \<or> (\<exists>c. loads_confirmation E now m tok = Inr c \<and> made = sx_created_at c)"
  shows "\<exists>body payload ms t. tok = body @ CHR ''.'' # tk_hmac E payload \<and> b64_decode body = Some payload
    \<and> map_option json_loads (utf8_decode payload) = Some (Inr (JObject ms))
    \<and> made = Some (str_field E ms ''created_at'') \<and> tk_fromisoformat E (the made) = Some (Aware t)
    \<and> t \<le> now \<and> now \<le> t + seconds m"
proof -
  from assms obtain bad ms where ms: "open_signed E bad tok = Inr ms" "made = Some (str_field E ms ''created_at'')"
    and age: "check_age E bad now m (str_field E ms ''created_at'') = Inr ()"
    by (auto simp: oauth_state_loads_def reauth_loads_def loads_confirmation_def Let_def and_then_Inr split: if_splits)
  from age obtain t where "tk_fromisoformat E (str_field E ms ''created_at'') = Some (Aware t)" "t \<le> now" "now \<le> t + seconds m"
    by (auto simp: check_age_def split: option.splits iso_time.splits if_splits)
  then show ?thesis using open_signed_shape [OF ms(1)] ms(2) by auto
qed

theorem accepted_tokens_are_signed_witness:
  "\<exists>body. \<exists>payload :: bytes. loads_confirmation sample_token_env 9 300
       (dumps_confirmation sample_token_env 5 \<lparr>sx_selector = ''s'', sx_album_id = ''a'', sx_user_id = ''u'', sx_created_at = None\<rparr>)
     = Inr \<lparr>sx_selector = ''s'', sx_album_id = ''a'', sx_user_id = ''u'', sx_created_at = Some (show_int 5)\<rparr>
   \<and> dumps_confirmation sample_token_env 5 \<lparr>sx_selector = ''s'', sx_album_id = ''a'', sx_user_id = ''u'', sx_created_at = None\<rparr>
     = body @ CHR ''.'' # show_nat (length payload)"
proof -
  let ?c = "\<lparr>sx_selector = ''s'', sx_album_id = ''a'', sx_user_id = ''u'', sx_created_at = None\<rparr>"
  have strip: "py_strip ''s'' = ''s''" "py_strip ''a'' = ''a''" "py_strip ''u'' = ''u''" by code_simp+
  have "in_datetime 5" by (simp add: in_datetime_def)
  from token_round_trip_parts [OF sample_token_env_ok this,
      of "\<lparr>os_mode = [], os_next_path = [], os_jti = [], os_user_id = None, os_created_at = None\<rparr>"
        "\<lparr>ra_user_id = [], ra_provider = [], ra_provider_uid = [], ra_created_at = None\<rparr>" ?c 9 300]
  have ok: "loads_confirmation sample_token_env 9 300 (dumps_confirmation sample_token_env 5 ?c) =
      Inr \<lparr>sx_selector = ''s'', sx_album_id = ''a'', sx_user_id = ''u'', sx_created_at = Some (show_int 5)\<rparr>"
    by (simp add: seconds_def sec_def Let_def strip) (simp add: sample_token_env_def)
  with accepted_tokens_are_signed [of sample_token_env 9 300 "dumps_confirmation sample_token_env 5 ?c" "Some (show_int 5)"]
  obtain body payload where b: "dumps_confirmation sample_token_env 5 ?c = body @ CHR ''.'' # tk_hmac sample_token_env payload"
    by force
  have "tk_hmac sample_token_env payload = show_nat (length payload)" by (simp add: sample_token_env_def)
  from b [unfolded this] ok show ?thesis by blast
qed

text \<open>A signature with a character outside ASCII is not refused but raises \<^verbatim>\<open>TypeError\<close> in every format, which no
  caller catches: the confirmation of an account deletion answers with that error instead of its 403.\<close>

theorem non_ascii_signature_raises:
  assumes "CHR ''.'' \<notin> set body" "body \<noteq> []" "b64_decode body = Some payload" "\<not> is_ascii sig"
  shows "\<exists>e. e = TypeError ''comparing strings with non-ASCII characters is not supported''
    \<and> oauth_state_loads E now m (body @ CHR ''.'' # sig) = Inl e
    \<and> reauth_loads E now m (body @ CHR ''.'' # sig) = Inl e
    \<and> loads_confirmation E now m (body @ CHR ''.'' # sig) = Inl e
    \<and> (py_strip (body @ CHR ''.'' # sig) = body @ CHR ''.'' # sig \<longrightarrow>
        confirm_by_reauth (\<lambda>t. map_sum id reauth.truncate (reauth_loads E now m t)) u (Some (body @ CHR ''.'' # sig)) d = Inl e)"
proof -
  have "sig \<noteq> []" using assms(4) by (auto simp: is_ascii_def)
  let ?tok = "body @ CHR ''.'' # sig" and ?e = "TypeError ''comparing strings with non-ASCII characters is not supported''"
  have o: "open_signed E bad ?tok = Inl ?e" for bad
    using assms \<open>sig \<noteq> []\<close> by (simp add: open_signed_def partition_at_found compare_digest_def)
  have r: "reauth_loads E now m ?tok = Inl ?e" by (simp add: reauth_loads_def o)
  have "oauth_state_loads E now m ?tok = Inl ?e" "loads_confirmation E now m ?tok = Inl ?e"
    by (simp_all add: oauth_state_loads_def loads_confirmation_def o)
  moreover have "confirm_by_reauth (\<lambda>t. map_sum id reauth.truncate (reauth_loads E now m t)) u (Some ?tok) d = Inl ?e" if "py_strip ?tok = ?tok"
    using that r by (simp add: confirm_by_reauth_def or_str_def)
  ultimately show ?thesis using r by blast
qed

theorem non_ascii_signature_raises_witness:
  "oauth_state_loads sample_token_env 0 600 (''e30.'' @ [CHR 0xE9]) = Inl (TypeError ''comparing strings with non-ASCII characters is not supported'')"
proof -
  have "CHR ''.'' \<notin> set ''e30''" "''e30'' \<noteq> []" by simp_all
  moreover have "b64_decode ''e30'' = Some ''{}''" by code_simp
  moreover have "\<not> is_ascii [CHR 0xE9]" by code_simp
  ultimately show ?thesis using non_ascii_signature_raises [of "''e30''" "''{}''" "[CHR 0xE9]"] by fastforce
qed

end
