(* ===== verification/Sessions.thy ===== *)
theory Sessions
  imports Tokens Redis_Support
begin

text \<open>
  \<^verbatim>\<open>src/imghost/sessions.py\<close>: a session is a signed token; with Redis configured, a token that was registered there
  is good only while the server holds its record. A clock is read wherever the code reads it. The telemetry calls
  and log lines are left out; \<^verbatim>\<open>total_seconds\<close> is taken as exact.
\<close>

section \<open>Tokens\<close>

record session_settings =
  ss_env :: token_env
  ss_remember_days :: int
  ss_fail_closed :: bool

record session_payload =
  se_session_id :: string
  se_user_id :: string
  se_created_at :: string
  se_expires_at :: "string option"
  se_store :: string

definition sign_session :: "token_env \<Rightarrow> session_payload \<Rightarrow> string \<Rightarrow> string" where
  "sign_session E p store = sign_values E
     [(''session_id'', Some (se_session_id p)), (''user_id'', Some (se_user_id p)),
      (''created_at'', Some (se_created_at p)), (''expires_at'', se_expires_at p), (''store'', Some store)]"

definition create_signed_token ::
  "session_settings \<Rightarrow> time \<Rightarrow> string \<Rightarrow> string \<Rightarrow> bool \<Rightarrow> string \<Rightarrow> err + string \<times> time option" where
  "create_signed_token ss now new_uuid user_id remember_me store =
     (let E = ss_env ss; created_at = now - now mod sec in
      and_then (if remember_me then map_sum id Some (datetime_add created_at (days (ss_remember_days ss))) else Inr None)
        (\<lambda>expires_at. Inr (sign_session E \<lparr>se_session_id = new_uuid, se_user_id = user_id,
           se_created_at = tk_isoformat E created_at, se_expires_at = map_option (tk_isoformat E) expires_at,
           se_store = store\<rparr> store, expires_at)))"

definition session_ttl_seconds :: "session_settings \<Rightarrow> time \<Rightarrow> time option \<Rightarrow> int" where
  "session_ttl_seconds ss now expires_at =
     (case expires_at of
        Some e \<Rightarrow> max 1 (if now \<le> e then (e - now) div sec else - ((now - e) div sec))
      | None \<Rightarrow> max 1 (ss_remember_days ss * 24 * 60 * 60))"

text \<open>Whether the token is still in force; what is not a text reaches \<^verbatim>\<open>fromisoformat\<close> all the same.\<close>

definition check_expiry :: "token_env \<Rightarrow> time \<Rightarrow> json option \<Rightarrow> err + bool" where
  "check_expiry E now raw =
     (case raw of
        None \<Rightarrow> Inr True
      | Some v \<Rightarrow>
          if \<not> json_truthy E v then Inr True
          else (case v of
             JString s \<Rightarrow> (case tk_fromisoformat E s of
                None \<Rightarrow> Inr False
              | Some (Naive _) \<Rightarrow> Inl (TypeError ''can't compare offset-naive and offset-aware datetimes'')
              | Some (Aware t) \<Rightarrow> Inr (now < t))
           | _ \<Rightarrow> Inl (TypeError ''fromisoformat: argument must be str'')))"

definition text_value :: "json option \<Rightarrow> string option" where
  "text_value v = (case v of Some (JString s) \<Rightarrow> Some s | _ \<Rightarrow> None)"

definition decode_fields :: "token_env \<Rightarrow> (string option \<times> json) list \<Rightarrow> session_payload option" where
  "decode_fields E ms =
     (let session_id = text_value (obj_get ms ''session_id''); user_id = text_value (obj_get ms ''user_id'');
          created_at = text_value (obj_get ms ''created_at'');
          store = (case obj_get ms ''store'' of
             Some v \<Rightarrow> if json_truthy E v then text_value (Some v) else Some ''cookie'' | None \<Rightarrow> Some ''cookie'') in
      if truthy session_id \<and> truthy user_id \<and> truthy created_at \<and> truthy store
      then Some \<lparr>se_session_id = the session_id, se_user_id = the user_id, se_created_at = the created_at,
        se_expires_at = text_value (obj_get ms ''expires_at''), se_store = the store\<rparr>
      else None)"

text \<open>\<open>open_signed\<close> never raises a \<open>LookupError\<close> of its own: here it stands for \<^verbatim>\<open>return None\<close>.\<close>

definition decode_signed_token :: "token_env \<Rightarrow> time \<Rightarrow> string \<Rightarrow> err + session_payload option" where
  "decode_signed_token E now token =
     (case open_signed E (LookupError []) token of
        Inl (LookupError _) \<Rightarrow> Inr None
      | Inl e \<Rightarrow> Inl e
      | Inr ms \<Rightarrow>
          and_then (check_expiry E now (obj_get ms ''expires_at'')) (\<lambda>in_force.
            Inr (if in_force then decode_fields E ms else None)))"

section \<open>The cookie backend\<close>

definition cookie_create_session ::
  "session_settings \<Rightarrow> time \<Rightarrow> string \<Rightarrow> string \<Rightarrow> bool \<Rightarrow> err + string \<times> time option" where
  "cookie_create_session ss now new_uuid user_id remember_me =
     create_signed_token ss now new_uuid user_id remember_me ''cookie''"

definition cookie_resolve_user :: "session_settings \<Rightarrow> time \<Rightarrow> string \<Rightarrow> err + string option" where
  "cookie_resolve_user ss now token = map_sum id (map_option se_user_id) (decode_signed_token (ss_env ss) now token)"

section \<open>The Redis backend\<close>

text \<open>\<open>now1\<close> to \<open>now3\<close>: the clock at the signing, at the check of the new token and at the computation of the time
  to live; \<open>m\<close> and \<open>m'\<close>: the monotonic clock of the breaker.\<close>

definition session_key :: "redis_handle \<Rightarrow> string \<Rightarrow> string" where
  "session_key h sid = prefixed h (''session:'' @ sid)"

definition session_record :: "string \<Rightarrow> string" where
  "session_record user_id = json_dumps_object '' '' '' '' [(''user_id'', Some user_id)]"

definition session_unavailable :: err where
  "session_unavailable = RuntimeError ''Redis-backed sessions are currently unavailable.''"

definition redis_create_session ::
  "'s redis_client \<Rightarrow> session_settings \<Rightarrow> time \<times> time \<times> time \<Rightarrow> time \<Rightarrow> time \<Rightarrow> string \<Rightarrow> string \<Rightarrow> bool
     \<Rightarrow> redis_handle \<times> 's \<Rightarrow> (err + string \<times> time option) \<times> redis_handle \<times> 's" where
  "redis_create_session client ss nows m m' new_uuid user_id remember_me st =
     (case (nows, st) of ((now1, now2, now3), h, s) \<Rightarrow>
      (case create_signed_token ss now1 new_uuid user_id remember_me ''cookie'' of
         Inl e \<Rightarrow> (Inl e, h, s)
       | Inr (token, expires_at) \<Rightarrow>
           (case decode_signed_token (ss_env ss) now2 token of
              Inl e \<Rightarrow> (Inl e, h, s)
            | Inr None \<Rightarrow> (Inl (RuntimeError ''Failed to create session token.''), h, s)
            | Inr (Some payload) \<Rightarrow>
                (let ttl = session_ttl_seconds ss now3 expires_at in
                 (case handle_execute m m'
                    (rc_set_ex client (session_key h (se_session_id payload)) (session_record user_id) ttl) h s of
                    (Inl (RedisUnavailable _), h', s') \<Rightarrow>
                      (if ss_fail_closed ss then Inl session_unavailable else Inr (token, expires_at), h', s')
                  | (Inl e, h', s') \<Rightarrow> (Inl e, h', s')
                  | (Inr _, h', s') \<Rightarrow> (Inr (sign_session (ss_env ss) payload ''redis'', expires_at), h', s'))))))"

text \<open>What the record in the server says of the payload.\<close>

definition record_user :: "session_payload \<Rightarrow> string option \<Rightarrow> err + string option" where
  "record_user payload raw =
     (case raw of
        None \<Rightarrow> Inr None
      | Some text \<Rightarrow>
          (case json_loads text of
             Inl BadJson \<Rightarrow> Inr None
           | Inl _ \<Rightarrow> Inl (ValueError ''Exceeds the limit for integer string conversion'')
           | Inr (JObject ms) \<Rightarrow>
               Inr (if obj_get ms ''user_id'' = Some (JString (se_user_id payload)) then Some (se_user_id payload) else None)
           | Inr _ \<Rightarrow> Inl (AttributeError ''object has no attribute get'')))"

definition redis_resolve_user ::
  "'s redis_client \<Rightarrow> session_settings \<Rightarrow> time \<Rightarrow> time \<Rightarrow> time \<Rightarrow> string
     \<Rightarrow> redis_handle \<times> 's \<Rightarrow> (err + string option) \<times> redis_handle \<times> 's" where
  "redis_resolve_user client ss now m m' token st =
     (case st of (h, s) \<Rightarrow>
      (case decode_signed_token (ss_env ss) now token of
         Inl e \<Rightarrow> (Inl e, h, s)
       | Inr None \<Rightarrow> (Inr None, h, s)
       | Inr (Some payload) \<Rightarrow>
           if se_store payload \<noteq> ''redis'' then (Inr (Some (se_user_id payload)), h, s)
           else (case handle_execute m m' (rc_get client (session_key h (se_session_id payload))) h s of
              (Inl (RedisUnavailable _), h', s') \<Rightarrow>
                (if ss_fail_closed ss then Inl session_unavailable else Inr (Some (se_user_id payload)), h', s')
            | (Inl e, h', s') \<Rightarrow> (Inl e, h', s')
            | (Inr raw, h', s') \<Rightarrow> (record_user payload raw, h', s'))))"

definition redis_clear_session ::
  "'s redis_client \<Rightarrow> session_settings \<Rightarrow> time \<Rightarrow> time \<Rightarrow> time \<Rightarrow> string option
     \<Rightarrow> redis_handle \<times> 's \<Rightarrow> (err + unit) \<times> redis_handle \<times> 's" where
  "redis_clear_session client ss now m m' token st =
     (case st of (h, s) \<Rightarrow>
      if \<not> truthy token then (Inr (), h, s)
      else (case decode_signed_token (ss_env ss) now (the token) of
         Inl e \<Rightarrow> (Inl e, h, s)
       | Inr None \<Rightarrow> (Inr (), h, s)
       | Inr (Some payload) \<Rightarrow>
           if se_store payload \<noteq> ''redis'' then (Inr (), h, s)
           else (case handle_execute m m' (rc_delete client (session_key h (se_session_id payload))) h s of
              (Inl (RedisUnavailable _), h', s') \<Rightarrow> (Inr (), h', s')
            | (Inl e, h', s') \<Rightarrow> (Inl e, h', s')
            | (Inr _, h', s') \<Rightarrow> (Inr (), h', s'))))"

section \<open>The backend in use\<close>

text \<open>\<^verbatim>\<open>build_session_backend\<close> picks the Redis backend when the handle is enabled.\<close>

definition create_session ::
  "'s redis_client \<Rightarrow> session_settings \<Rightarrow> time \<times> time \<times> time \<Rightarrow> time \<Rightarrow> time \<Rightarrow> string \<Rightarrow> string \<Rightarrow> bool
     \<Rightarrow> redis_handle \<times> 's \<Rightarrow> (err + string \<times> time option) \<times> redis_handle \<times> 's" where
  "create_session client ss nows m m' new_uuid user_id remember_me st =
     (if handle_enabled (fst st) then redis_create_session client ss nows m m' new_uuid user_id remember_me st
      else (cookie_create_session ss (fst nows) new_uuid user_id remember_me, st))"

definition resolve_user ::
  "'s redis_client \<Rightarrow> session_settings \<Rightarrow> time \<Rightarrow> time \<Rightarrow> time \<Rightarrow> string
     \<Rightarrow> redis_handle \<times> 's \<Rightarrow> (err + string option) \<times> redis_handle \<times> 's" where
  "resolve_user client ss now m m' token st =
     (if handle_enabled (fst st) then redis_resolve_user client ss now m m' token st
      else (cookie_resolve_user ss now token, st))"

definition clear_session ::
  "'s redis_client \<Rightarrow> session_settings \<Rightarrow> time \<Rightarrow> time \<Rightarrow> time \<Rightarrow> string option
     \<Rightarrow> redis_handle \<times> 's \<Rightarrow> (err + unit) \<times> redis_handle \<times> 's" where
  "clear_session client ss now m m' token st =
     (if handle_enabled (fst st) then redis_clear_session client ss now m m' token st else (Inr (), st))"

end
