(* ===== verification/Session_Props.thy ===== *)
theory Session_Props
  imports Sessions Token_Props
begin

text \<open>
  The life of a session: what is created resolves to its user until it expires or is cleared, and nothing else
  resolves; what the two backends do when the server is away.
\<close>

section \<open>A signed session\<close>

definition instant_text :: "token_env \<Rightarrow> time option \<Rightarrow> string option" where
  "instant_text E t = map_option (tk_isoformat E) t"

definition in_force :: "time option \<Rightarrow> time \<Rightarrow> bool" where
  "in_force expires now = (case expires of Some e \<Rightarrow> now < e | None \<Rightarrow> True)"

definition proper_session :: "session_payload \<Rightarrow> bool" where
  "proper_session p = (se_session_id p \<noteq> [] \<and> se_user_id p \<noteq> [] \<and> se_created_at p \<noteq> [])"

lemma decode_sign_session:
  assumes "token_env_ok E" "proper_session p" "store \<noteq> []" "se_expires_at p = instant_text E expires"
    and "\<And>e. expires = Some e \<Longrightarrow> in_datetime e"
  shows "decode_signed_token E now (sign_session E p store) =
     Inr (if in_force expires now then Some (p\<lparr>se_store := store\<rparr>) else None)"
proof -
  let ?vs = "[(''session_id'', Some (se_session_id p)), (''user_id'', Some (se_user_id p)),
      (''created_at'', Some (se_created_at p)), (''expires_at'', se_expires_at p), (''store'', Some store)]"
  let ?ms = "parsed_fields (sort_key fst ?vs)"
  have o: "open_signed E (LookupError []) (sign_session E p store) = Inr ?ms"
    unfolding sign_session_def by (rule open_sign_values [OF assms(1)]) simp
  have get: "obj_get ?ms ''session_id'' = Some (JString (se_session_id p))" "obj_get ?ms ''user_id'' = Some (JString (se_user_id p))"
    "obj_get ?ms ''created_at'' = Some (JString (se_created_at p))" "obj_get ?ms ''store'' = Some (JString store)"
    "obj_get ?ms ''expires_at'' = Some (case se_expires_at p of Some s \<Rightarrow> JString s | None \<Rightarrow> JNull)"
    by (simp_all add: obj_get_parsed)
  have "check_expiry E now (obj_get ?ms ''expires_at'') = Inr (in_force expires now)"
    unfolding get using assms(1,4,5) by (cases expires) (auto simp: check_expiry_def in_force_def instant_text_def token_env_ok_def)
  moreover have "decode_fields E ?ms = Some (p\<lparr>se_store := store\<rparr>)"
  proof -
    have "text_value (obj_get ?ms ''expires_at'') = se_expires_at p"
      unfolding get by (simp add: text_value_def split: option.split)
    moreover have "text_value (obj_get ?ms ''session_id'') = Some (se_session_id p)" "text_value (obj_get ?ms ''user_id'') = Some (se_user_id p)"
      "text_value (obj_get ?ms ''created_at'') = Some (se_created_at p)"
      "(case obj_get ?ms ''store'' of Some v \<Rightarrow> if json_truthy E v then text_value (Some v) else Some ''cookie'' | None \<Rightarrow> Some ''cookie'') = Some store"
      unfolding get using assms(3) by (simp_all add: text_value_def)
    ultimately show ?thesis
      using assms(2,3) by (cases p) (simp add: decode_fields_def Let_def proper_session_def)
  qed
  ultimately show ?thesis by (simp add: decode_signed_token_def o)
qed

section \<open>A server that works\<close>

text \<open>What is assumed of the server: \<open>vals\<close> reads from its state the value and the expiry of a key.\<close>

definition working_server :: "(time \<Rightarrow> 's redis_client) \<Rightarrow> ('s \<Rightarrow> string \<Rightarrow> (string \<times> time) option) \<Rightarrow> bool" where
  "working_server client vals \<longleftrightarrow>
     (\<forall>u k s. \<exists>s'. rc_get (client u) k s = (Inr (live u (vals s k)), s') \<and> vals s' = vals s)
     \<and> (\<forall>u k v ttl s. \<exists>s'. rc_set_ex (client u) k v ttl s = (Inr (), s') \<and> vals s' = (vals s)(k \<mapsto> (v, u + seconds ttl)))
     \<and> (\<forall>u k s. \<exists>s'. rc_delete (client u) k s = (Inr (), s') \<and> vals s' = (vals s)(k := None))"

lemma session_key_after_success [simp]: "session_key (after_success h) sid = session_key h sid"
  by (simp add: session_key_def)

lemma record_round_trip:
  "record_user p (Some (session_record user_id)) = Inr (if user_id = se_user_id p then Some user_id else None)"
proof -
  have "json_loads (session_record user_id) = Inr (JObject (parsed_fields [(''user_id'', Some user_id)]))"
    unfolding session_record_def by (rule loads_dumps_object) (simp_all add: json_ws_def)
  moreover have "obj_get (parsed_fields [(''user_id'', Some user_id)]) ''user_id'' = Some (JString user_id)"
    by (simp add: obj_get_parsed)
  ultimately show ?thesis by (simp add: record_user_def)
qed

lemma resolve_registered:
  assumes "working_server client vals" "handle_ready m h"
    and "decode_signed_token (ss_env ss) now tok = Inr (if alive then Some p else None)" "se_store p = ''redis''"
  shows "fst (resolve_user (client u) ss now m m' tok (h, s)) =
    (if alive then record_user p (live u (vals s (session_key h (se_session_id p)))) else Inr None)"
proof -
  obtain s' where "rc_get (client u) (session_key h (se_session_id p)) s = (Inr (live u (vals s (session_key h (se_session_id p)))), s')"
    using assms(1) unfolding working_server_def by blast
  from execute_ready [where callback = "rc_get (client u) (session_key h (se_session_id p))", OF assms(2) this]
  show ?thesis
    using ready_enabled [OF assms(2)] assms(3,4) by (simp add: resolve_user_def redis_resolve_user_def)
qed

lemma clear_registered:
  assumes "working_server client vals" "handle_ready m h" "tok \<noteq> []"
    and "decode_signed_token (ss_env ss) now tok = Inr (Some p)" "se_store p = ''redis''"
  shows "\<exists>s'. clear_session (client u) ss now m m' (Some tok) (h, s) = (Inr (), after_success h, s')
    \<and> vals s' = (vals s)(session_key h (se_session_id p) := None)"
proof -
  obtain s' where r: "rc_delete (client u) (session_key h (se_session_id p)) s = (Inr (), s')"
    "vals s' = (vals s)(session_key h (se_session_id p) := None)"
    using assms(1) unfolding working_server_def by blast
  from execute_ready [where callback = "rc_delete (client u) (session_key h (se_session_id p))", OF assms(2) r(1)]
  show ?thesis
    using ready_enabled [OF assms(2)] assms(3-5) r(2) by (simp add: clear_session_def redis_clear_session_def)
qed

section \<open>Creating a session\<close>

definition new_expiry :: "session_settings \<Rightarrow> time \<Rightarrow> bool \<Rightarrow> time option" where
  "new_expiry ss now remember_me = (if remember_me then Some (now - now mod sec + days (ss_remember_days ss)) else None)"

definition new_payload :: "session_settings \<Rightarrow> time \<Rightarrow> string \<Rightarrow> string \<Rightarrow> bool \<Rightarrow> string \<Rightarrow> session_payload" where
  "new_payload ss now new_uuid user_id remember_me store =
     \<lparr>se_session_id = new_uuid, se_user_id = user_id, se_created_at = tk_isoformat (ss_env ss) (now - now mod sec),
      se_expires_at = instant_text (ss_env ss) (new_expiry ss now remember_me), se_store = store\<rparr>"

text \<open>The instants a session names are within the range of \<^verbatim>\<open>datetime\<close>.\<close>

definition datable :: "session_settings \<Rightarrow> time \<Rightarrow> bool \<Rightarrow> bool" where
  "datable ss now remember_me = (in_datetime (now - now mod sec)
     \<and> (\<forall>e\<in>set_option (new_expiry ss now remember_me). in_datetime e))"

lemma create_signed:
  assumes "datable ss now remember_me"
  shows "create_signed_token ss now new_uuid user_id remember_me store =
    Inr (sign_session (ss_env ss) (new_payload ss now new_uuid user_id remember_me store) store, new_expiry ss now remember_me)"
  using assms by (simp add: create_signed_token_def datable_def new_expiry_def new_payload_def instant_text_def datetime_add_def Let_def)

lemma decode_created:
  assumes "token_env_ok (ss_env ss)" "datable ss now1 remember_me" "new_uuid \<noteq> []" "user_id \<noteq> []" "store \<noteq> []"
  shows "decode_signed_token (ss_env ss) now (sign_session (ss_env ss) (new_payload ss now1 new_uuid user_id remember_me st) store) =
    Inr (if in_force (new_expiry ss now1 remember_me) now then Some (new_payload ss now1 new_uuid user_id remember_me store) else None)"
proof -
  let ?p = "new_payload ss now1 new_uuid user_id remember_me st"
  have "proper_session ?p" using assms by (auto simp: proper_session_def new_payload_def token_env_ok_def datable_def)
  moreover have "?p\<lparr>se_store := store\<rparr> = new_payload ss now1 new_uuid user_id remember_me store" by (simp add: new_payload_def)
  moreover have "se_expires_at ?p = instant_text (ss_env ss) (new_expiry ss now1 remember_me)" by (simp add: new_payload_def)
  moreover have "in_datetime e" if "new_expiry ss now1 remember_me = Some e" for e using that assms(2) by (simp add: datable_def)
  ultimately show ?thesis using decode_sign_session [OF assms(1), of ?p store "new_expiry ss now1 remember_me"] assms(5) by simp
qed

lemma create_registered:
  assumes "token_env_ok (ss_env ss)" "datable ss now1 remember_me" "new_uuid \<noteq> []" "user_id \<noteq> []"
    and "in_force (new_expiry ss now1 remember_me) now2" "working_server client vals" "handle_ready m h"
  shows "\<exists>s'. create_session (client u) ss (now1, now2, now3) m m' new_uuid user_id remember_me (h, s) =
      (Inr (sign_session (ss_env ss) (new_payload ss now1 new_uuid user_id remember_me ''cookie'') ''redis'',
        new_expiry ss now1 remember_me), after_success h, s')
    \<and> vals s' = (vals s)(session_key h new_uuid \<mapsto>
        (session_record user_id, u + seconds (session_ttl_seconds ss now3 (new_expiry ss now1 remember_me))))"
proof -
  let ?ttl = "session_ttl_seconds ss now3 (new_expiry ss now1 remember_me)"
  obtain s' where r: "rc_set_ex (client u) (session_key h new_uuid) (session_record user_id) ?ttl s = (Inr (), s')"
    "vals s' = (vals s)(session_key h new_uuid \<mapsto> (session_record user_id, u + seconds ?ttl))"
    using assms(6) unfolding working_server_def by blast
  note x = execute_ready [where callback = "rc_set_ex (client u) (session_key h new_uuid) (session_record user_id) ?ttl", OF assms(7) r(1)]
  have d: "decode_signed_token (ss_env ss) now2 (sign_session (ss_env ss) (new_payload ss now1 new_uuid user_id remember_me ''cookie'') ''cookie'')
      = Inr (Some (new_payload ss now1 new_uuid user_id remember_me ''cookie''))"
    using decode_created [OF assms(1-4)] assms(5) by simp
  have "se_session_id (new_payload ss now1 new_uuid user_id remember_me ''cookie'') = new_uuid" by (simp add: new_payload_def)
  with x show ?thesis
    using ready_enabled [OF assms(7)] r(2)
    by (simp add: create_session_def redis_create_session_def create_signed [OF assms(2)] d Let_def)
qed

text \<open>C35: With a working Redis, a new session resolves to its user, at every later instant, until its own expiry or
  the time to live of its record has passed, and to nobody after; clearing it while it is in force makes it
  resolve to nobody for good and leaves every other record of the server as it was.\<close>

theorem session_lives_until_expired_or_cleared:
  assumes "token_env_ok (ss_env ss)" "datable ss now1 remember_me" "new_uuid \<noteq> []" "user_id \<noteq> []"
    and "in_force (new_expiry ss now1 remember_me) now2" "working_server client vals" "handle_ready m h"
  shows "\<exists>tok h' s'. create_session (client u) ss (now1, now2, now3) m m' new_uuid user_id remember_me (h, s)
        = (Inr (tok, new_expiry ss now1 remember_me), h', s')
    \<and> (\<forall>now u' n n'. 0 \<le> n \<longrightarrow> fst (resolve_user (client u') ss now n n' tok (h', s')) =
        Inr (if in_force (new_expiry ss now1 remember_me) now
               \<and> u' < u + seconds (session_ttl_seconds ss now3 (new_expiry ss now1 remember_me)) then Some user_id else None))
    \<and> (\<forall>now u' n n'. 0 \<le> n \<and> in_force (new_expiry ss now1 remember_me) now \<longrightarrow>
        (\<exists>h2 s2. clear_session (client u') ss now n n' (Some tok) (h', s') = (Inr (), h2, s2)
          \<and> (\<forall>now u' n n'. 0 \<le> n \<longrightarrow> fst (resolve_user (client u') ss now n n' tok (h2, s2)) = Inr None)
          \<and> (\<forall>k. k \<noteq> session_key h new_uuid \<longrightarrow> vals s2 k = vals s k)))"
proof -
  let ?p = "new_payload ss now1 new_uuid user_id remember_me ''redis''" and ?e = "new_expiry ss now1 remember_me"
  let ?tok = "sign_session (ss_env ss) (new_payload ss now1 new_uuid user_id remember_me ''cookie'') ''redis''"
  from create_registered [OF assms] obtain s' where c:
    "create_session (client u) ss (now1, now2, now3) m m' new_uuid user_id remember_me (h, s) = (Inr (?tok, ?e), after_success h, s')"
    "vals s' = (vals s)(session_key h new_uuid \<mapsto> (session_record user_id, u + seconds (session_ttl_seconds ss now3 ?e)))"
    by blast
  have d: "decode_signed_token (ss_env ss) now ?tok = Inr (if in_force ?e now then Some ?p else None)" for now
    by (rule decode_created [OF assms(1-4)]) simp
  have p: "se_store ?p = ''redis''" "se_session_id ?p = new_uuid" "se_user_id ?p = user_id" by (simp_all add: new_payload_def)
  have ready: "handle_ready n (after_success h)" if "0 \<le> n" for n using after_success_ready [OF assms(7) that] .
  have ne: "?tok \<noteq> []" by (simp add: sign_session_def sign_values_def Let_def)
  have "fst (resolve_user (client u') ss now n n' ?tok (after_success h, s')) =
      Inr (if in_force ?e now \<and> u' < u + seconds (session_ttl_seconds ss now3 ?e) then Some user_id else None)"
    if "0 \<le> n" for now u' n n'
    using resolve_registered [OF assms(6) ready [OF that] d p(1)] record_round_trip [of ?p user_id]
    by (simp add: c(2) live_def p) (simp add: record_user_def)
  moreover have "\<exists>h2 s2. clear_session (client u') ss now n n' (Some ?tok) (after_success h, s') = (Inr (), h2, s2)
      \<and> (\<forall>now u' n n'. 0 \<le> n \<longrightarrow> fst (resolve_user (client u') ss now n n' ?tok (h2, s2)) = Inr None)
      \<and> (\<forall>k. k \<noteq> session_key h new_uuid \<longrightarrow> vals s2 k = vals s k)"
    if n: "0 \<le> n" and f: "in_force ?e now" for now u' n n'
  proof -
    have "decode_signed_token (ss_env ss) now ?tok = Inr (Some ?p)" using d f by simp
    from clear_registered [OF assms(6) ready [OF n] ne this p(1), where u = u' and m' = n' and s = s'] obtain s2 where s2:
      "clear_session (client u') ss now n n' (Some ?tok) (after_success h, s') = (Inr (), after_success (after_success h), s2)"
      "vals s2 = (vals s')(session_key h new_uuid := None)" by (auto simp: p)
    have "fst (resolve_user (client u'') ss now' i i' ?tok (after_success (after_success h), s2)) = Inr None" if "0 \<le> i" for now' u'' i i'
      using resolve_registered [OF assms(6) after_success_ready [OF ready [OF n] that] d p(1)]
      by (simp add: s2(2) live_def p record_user_def)
    with s2 c(2) show ?thesis by auto
  qed
  ultimately show ?thesis using c(1) by blast
qed

definition sample_session_settings :: "bool \<Rightarrow> session_settings" where
  "sample_session_settings closed = \<lparr>ss_env = sample_token_env, ss_remember_days = 1, ss_fail_closed = closed\<rparr>"

lemma lease_client_works: "working_server lease_client (\<lambda>s. s)"
  by (simp add: working_server_def lease_client_def)

lemma sample_session:
  "token_env_ok (ss_env (sample_session_settings c))" "datable (sample_session_settings c) 0 r"
  "new_expiry (sample_session_settings c) 0 r = (if r then Some 86400000000 else None)"
  "handle_ready 0 sample_handle"
proof -
  show "token_env_ok (ss_env (sample_session_settings c))"
    using sample_token_env_ok by (simp add: sample_session_settings_def)
  show e: "new_expiry (sample_session_settings c) 0 r = (if r then Some 86400000000 else None)"
    by (simp add: new_expiry_def sample_session_settings_def days_def sec_def)
  show "datable (sample_session_settings c) 0 r" by (simp add: datable_def e in_datetime_def)
  show "handle_ready 0 sample_handle"
    by (simp add: handle_ready_def sample_handle_def handle_available_def handle_enabled_def)
qed

theorem session_lives_until_expired_or_cleared_witness:
  "\<exists>tok h' s'. create_session (lease_client 0) (sample_session_settings True) (0, 1, 1) 0 0 ''s'' ''u'' True (sample_handle, Map.empty)
      = (Inr (tok, Some 86400000000), h', s')
    \<and> fst (resolve_user (lease_client (seconds 86398)) (sample_session_settings True) (seconds 86399) 0 0 tok (h', s')) = Inr (Some ''u'')
    \<and> fst (resolve_user (lease_client (seconds 86399)) (sample_session_settings True) (seconds 86399) 0 0 tok (h', s')) = Inr None"
proof -
  have f: "in_force (new_expiry (sample_session_settings True) 0 True) 1"
      "in_force (Some 86400000000) (seconds 86399)"
    by (simp_all add: sample_session in_force_def seconds_def sec_def)
  have ttl: "session_ttl_seconds (sample_session_settings True) 1 (Some 86400000000) = 86399"
    by (simp add: session_ttl_seconds_def sec_def)
  from session_lives_until_expired_or_cleared [OF sample_session(1,2) _ _ f(1) lease_client_works sample_session(4),
      of "''s''" "''u''" 0 1 0 Map.empty]
  obtain tok h' s' where run: "create_session (lease_client 0) (sample_session_settings True) (0, 1, 1) 0 0 ''s'' ''u'' True (sample_handle, Map.empty)
      = (Inr (tok, Some 86400000000), h', s')"
    and res: "\<And>now u' n n'. 0 \<le> n \<Longrightarrow> fst (resolve_user (lease_client u') (sample_session_settings True) now n n' tok (h', s')) =
      Inr (if in_force (Some 86400000000) now \<and> u' < 0 + seconds 86399 then Some ''u'' else None)"
    by (auto simp: sample_session(3) ttl)
  have "seconds 86398 < seconds 86399" by (simp add: seconds_def sec_def)
  then show ?thesis using run res [of 0] f(2) by simp
qed

section \<open>Whom a token resolves to\<close>

lemma decode_signed_token_Some:
  assumes "decode_signed_token E now tok = Inr (Some p)"
  obtains body payload ms where "tok = body @ CHR ''.'' # tk_hmac E payload" "b64_decode body = Some payload"
    "map_option json_loads (utf8_decode payload) = Some (Inr (JObject ms))"
    "check_expiry E now (obj_get ms ''expires_at'') = Inr True" "decode_fields E ms = Some p"
proof -
  from assms obtain ms where ms: "open_signed E (LookupError []) tok = Inr ms"
    "check_expiry E now (obj_get ms ''expires_at'') = Inr True" "decode_fields E ms = Some p"
    by (auto simp: decode_signed_token_def split: sum.splits err.splits if_splits)
  with open_signed_shape [OF ms(1)] that show thesis by blast
qed

lemma decode_fields_user:
  "decode_fields E ms = Some p \<Longrightarrow> obj_get ms ''user_id'' = Some (JString (se_user_id p)) \<and> se_user_id p \<noteq> []
    \<and> obj_get ms ''session_id'' = Some (JString (se_session_id p))"
  by (auto simp: decode_fields_def text_value_def Let_def split: if_splits option.splits json.splits)

lemma check_expiry_True:
  assumes "check_expiry E now raw = Inr True"
  shows "(\<exists>v. raw = Some v \<and> json_truthy E v)
    \<longrightarrow> (\<exists>e t. raw = Some (JString e) \<and> tk_fromisoformat E e = Some (Aware t) \<and> now < t)"
  using assms by (auto simp: check_expiry_def split: option.splits if_splits json.splits iso_time.splits)

lemma record_user_Some:
  assumes "record_user p raw = Inr (Some u)"
  shows "\<exists>text fs. raw = Some text \<and> json_loads text = Inr (JObject fs) \<and> obj_get fs ''user_id'' = Some (JString u)"
  using assms by (auto simp: record_user_def split: option.splits sum.splits scanned.splits json.splits if_splits)

lemma resolve_user_cases:
  assumes "fst (resolve_user client ss now m m' tok (h, s)) = Inr (Some u)"
  obtains p where "decode_signed_token (ss_env ss) now tok = Inr (Some p)" "se_user_id p = u"
    "handle_enabled h \<and> se_store p = ''redis'' \<longrightarrow>
       (\<exists>x. fst (handle_execute m m' (rc_get client (session_key h (se_session_id p))) h s) = Inr x \<and> record_user p x = Inr (Some u))
       \<or> (\<not> ss_fail_closed ss \<and> (\<exists>e. fst (handle_execute m m' (rc_get client (session_key h (se_session_id p))) h s) = Inl (RedisUnavailable e)))"
proof (cases "handle_enabled h")
  case False
  with assms have "cookie_resolve_user ss now tok = Inr (Some u)" by (simp add: resolve_user_def)
  then have "\<exists>p. decode_signed_token (ss_env ss) now tok = Inr (Some p) \<and> se_user_id p = u"
    unfolding cookie_resolve_user_def by (cases "decode_signed_token (ss_env ss) now tok") auto
  with that False show thesis by blast
next
  case True
  note r = assms [unfolded resolve_user_def redis_resolve_user_def]
  from r True obtain p where p: "decode_signed_token (ss_env ss) now tok = Inr (Some p)"
    by (auto split: sum.splits option.splits)
  obtain x h' s' where x: "handle_execute m m' (rc_get client (session_key h (se_session_id p))) h s = (x, h', s')" by (metis prod_cases3)
  show thesis
  proof (rule that [OF p])
    show user: "se_user_id p = u"
      using r True by (auto simp: p x record_user_def split: if_splits sum.splits err.splits option.splits scanned.splits json.splits)
    show "handle_enabled h \<and> se_store p = ''redis'' \<longrightarrow>
       (\<exists>x. fst (handle_execute m m' (rc_get client (session_key h (se_session_id p))) h s) = Inr x \<and> record_user p x = Inr (Some u))
       \<or> (\<not> ss_fail_closed ss \<and> (\<exists>e. fst (handle_execute m m' (rc_get client (session_key h (se_session_id p))) h s) = Inl (RedisUnavailable e)))"
      using r True by (auto simp: p x split: if_splits sum.splits err.splits)
  qed
qed

text \<open>Whoever a token resolves to is named, as a non-empty text, in a payload that carries its own HMAC and whose
  expiry, if it has one, is to come; if the payload says that the session is kept in Redis and Redis is in use, then
  either the server just answered with a record of this very user, or it could not be reached and the
  configuration allows the signature alone to be trusted.\<close>

theorem resolved_users_are_signed:
  assumes "fst (resolve_user client ss now m m' tok (h, s)) = Inr (Some u)"
  shows "\<exists>body payload ms p. tok = body @ CHR ''.'' # tk_hmac (ss_env ss) payload \<and> b64_decode body = Some payload
    \<and> map_option json_loads (utf8_decode payload) = Some (Inr (JObject ms))
    \<and> decode_fields (ss_env ss) ms = Some p \<and> obj_get ms ''user_id'' = Some (JString u) \<and> u \<noteq> []
    \<and> ((\<exists>v. obj_get ms ''expires_at'' = Some v \<and> json_truthy (ss_env ss) v) \<longrightarrow>
        (\<exists>e t. obj_get ms ''expires_at'' = Some (JString e) \<and> tk_fromisoformat (ss_env ss) e = Some (Aware t) \<and> now < t))
    \<and> (handle_enabled h \<and> se_store p = ''redis'' \<longrightarrow>
        (let (reply, _) = handle_execute m m' (rc_get client (session_key h (se_session_id p))) h s in
         (\<exists>text fs. reply = Inr (Some text) \<and> json_loads text = Inr (JObject fs) \<and> obj_get fs ''user_id'' = Some (JString u))
         \<or> (\<not> ss_fail_closed ss \<and> (\<exists>e. reply = Inl (RedisUnavailable e)))))"
proof -
  from resolve_user_cases [OF assms] obtain p where p: "decode_signed_token (ss_env ss) now tok = Inr (Some p)" "se_user_id p = u"
    and r: "handle_enabled h \<and> se_store p = ''redis'' \<longrightarrow>
       (\<exists>x. fst (handle_execute m m' (rc_get client (session_key h (se_session_id p))) h s) = Inr x \<and> record_user p x = Inr (Some u))
       \<or> (\<not> ss_fail_closed ss \<and> (\<exists>e. fst (handle_execute m m' (rc_get client (session_key h (se_session_id p))) h s) = Inl (RedisUnavailable e)))" .
  from decode_signed_token_Some [OF p(1)] obtain body payload ms where t:
    "tok = body @ CHR ''.'' # tk_hmac (ss_env ss) payload" "b64_decode body = Some payload"
    "map_option json_loads (utf8_decode payload) = Some (Inr (JObject ms))"
    "check_expiry (ss_env ss) now (obj_get ms ''expires_at'') = Inr True" "decode_fields (ss_env ss) ms = Some p" .
  have "handle_enabled h \<and> se_store p = ''redis'' \<longrightarrow>
        (let (reply, _) = handle_execute m m' (rc_get client (session_key h (se_session_id p))) h s in
         (\<exists>text fs. reply = Inr (Some text) \<and> json_loads text = Inr (JObject fs) \<and> obj_get fs ''user_id'' = Some (JString u))
         \<or> (\<not> ss_fail_closed ss \<and> (\<exists>e. reply = Inl (RedisUnavailable e))))"
    using r record_user_Some by (fastforce simp: case_prod_beta Let_def)
  with t check_expiry_True [OF t(4)] decode_fields_user [OF t(5)] p(2) show ?thesis by blast
qed

definition sample_token :: string where
  "sample_token = sign_session sample_token_env (new_payload (sample_session_settings True) 0 ''s'' ''u'' False ''cookie'') ''redis''"

lemma sample_token_decodes:
  "decode_signed_token (ss_env (sample_session_settings c)) now sample_token =
     Inr (Some (new_payload (sample_session_settings True) 0 ''s'' ''u'' False ''redis''))"
  using decode_created [OF sample_session(1,2), of "''s''" "''u''" "''redis''" True now False "''cookie''"]
  by (simp add: sample_session(3) in_force_def sample_token_def) (simp add: sample_session_settings_def)

theorem resolved_users_are_signed_witness:
  "\<exists>body. \<exists>payload :: bytes. sample_token = body @ CHR ''.'' # show_nat (length payload) \<and> b64_decode body = Some payload"
proof -
  let ?h = "sample_handle\<lparr>rh_mode := ''disabled''\<rparr>"
  have "\<not> handle_enabled ?h" by (simp add: handle_enabled_def)
  then have "fst (resolve_user (lease_client 0) (sample_session_settings True) 5 0 0 sample_token (?h, Map.empty)) = Inr (Some ''u'')"
    by (simp add: resolve_user_def cookie_resolve_user_def sample_token_decodes) (simp add: new_payload_def)
  from resolved_users_are_signed [OF this]
  obtain body payload where "sample_token = body @ CHR ''.'' # tk_hmac (ss_env (sample_session_settings True)) payload"
    "b64_decode body = Some payload" by blast
  moreover have "tk_hmac (ss_env (sample_session_settings True)) payload = show_nat (length payload)"
    by (simp add: sample_session_settings_def sample_token_env_def)
  ultimately show ?thesis by metis
qed

section \<open>While Redis is away\<close>

lemma execute_unavailable:
  assumes "handle_enabled h" "\<not> handle_available m h"
  shows "handle_execute m m' callback h s = (Inl (RedisUnavailable ''Redis is temporarily unavailable.''), h, s)"
  using assms by (simp add: handle_execute_def get_client_def)

text \<open>While the breaker keeps Redis away, the configuration decides: failing closed, no session is created and no
  session that is kept in Redis resolves; otherwise a new session is a cookie session, and a token of either
  kind resolves by its signature alone. In both cases clearing a session that is kept in Redis answers as
  if it had worked and deletes nothing, so that the token is good again when Redis is back.\<close>

theorem outage_policy:
  assumes "handle_enabled h" "\<not> handle_available m h" "tok \<noteq> []"
    and "decode_signed_token (ss_env ss) now tok = Inr (Some p)" "se_store p = ''redis''"
    and "token_env_ok (ss_env ss)" "datable ss now1 remember_me" "new_uuid \<noteq> []" "user_id \<noteq> []"
    and "in_force (new_expiry ss now1 remember_me) now2"
    and "working_server srv vals" "handle_ready n h"
    and "live u (vals s (session_key h (se_session_id p))) = Some (session_record (se_user_id p))"
  shows "resolve_user client ss now m m' tok (h, s) =
      (if ss_fail_closed ss then Inl session_unavailable else Inr (Some (se_user_id p)), h, s)
    \<and> create_session client ss (now1, now2, now3) m m' new_uuid user_id remember_me (h, s) =
      (if ss_fail_closed ss then Inl session_unavailable
       else Inr (sign_session (ss_env ss) (new_payload ss now1 new_uuid user_id remember_me ''cookie'') ''cookie'',
         new_expiry ss now1 remember_me), h, s)
    \<and> clear_session client ss now m m' (Some tok) (h, s) = (Inr (), h, s)
    \<and> fst (resolve_user (srv u) ss now n n' tok (snd (clear_session client ss now m m' (Some tok) (h, s)))) = Inr (Some (se_user_id p))"
proof (intro conjI)
  show c: "clear_session client ss now m m' (Some tok) (h, s) = (Inr (), h, s)"
    using assms(1,3,4,5) by (simp add: clear_session_def redis_clear_session_def execute_unavailable [OF assms(1,2)])
  show "resolve_user client ss now m m' tok (h, s) =
      (if ss_fail_closed ss then Inl session_unavailable else Inr (Some (se_user_id p)), h, s)"
    using assms(1,4,5) by (simp add: resolve_user_def redis_resolve_user_def execute_unavailable [OF assms(1,2)])
  have "decode_signed_token (ss_env ss) now2 (sign_session (ss_env ss) (new_payload ss now1 new_uuid user_id remember_me ''cookie'') ''cookie'')
      = Inr (Some (new_payload ss now1 new_uuid user_id remember_me ''cookie''))"
    using decode_created [OF assms(6-9)] assms(10) by simp
  then show "create_session client ss (now1, now2, now3) m m' new_uuid user_id remember_me (h, s) =
      (if ss_fail_closed ss then Inl session_unavailable
       else Inr (sign_session (ss_env ss) (new_payload ss now1 new_uuid user_id remember_me ''cookie'') ''cookie'',
         new_expiry ss now1 remember_me), h, s)"
    using assms(1) by (simp add: create_session_def redis_create_session_def create_signed [OF assms(7)] execute_unavailable [OF assms(1,2)] Let_def)
  have "decode_signed_token (ss_env ss) now tok = Inr (if True then Some p else None)" using assms(4) by simp
  from resolve_registered [OF assms(11,12) this assms(5)] assms(13) record_round_trip [of p "se_user_id p"]
  show "fst (resolve_user (srv u) ss now n n' tok (snd (clear_session client ss now m m' (Some tok) (h, s)))) = Inr (Some (se_user_id p))"
    by (simp add: c)
qed

theorem outage_policy_witness:
  "clear_session (lease_client 0) (sample_session_settings True) 5 0 0 (Some sample_token)
     (mark_failure 0 sample_handle, [''img:session:s'' \<mapsto> (session_record ''u'', seconds 60)])
   = (Inr (), mark_failure 0 sample_handle, [''img:session:s'' \<mapsto> (session_record ''u'', seconds 60)])"
proof -
  let ?h = "mark_failure 0 sample_handle" and ?s = "[''img:session:s'' \<mapsto> (session_record ''u'', seconds 60)]"
  let ?p = "new_payload (sample_session_settings True) 0 ''s'' ''u'' False ''redis''"
  have h: "handle_enabled ?h" "\<not> handle_available 0 ?h" "handle_ready (seconds 5) ?h"
    by (simp_all add: mark_failure_def sample_handle_def handle_enabled_def handle_available_def handle_ready_def seconds_def sec_def)
  have p: "se_store ?p = ''redis''" "sample_token \<noteq> []"
    "live 5 (?s (session_key ?h (se_session_id ?p))) = Some (session_record (se_user_id ?p))"
    by (simp_all add: new_payload_def sample_token_def sign_session_def sign_values_def Let_def session_key_def prefixed_def
      mark_failure_def sample_handle_def live_def seconds_def sec_def)
  have f: "in_force (new_expiry (sample_session_settings True) 0 False) 0" by (simp add: sample_session in_force_def)
  note t = outage_policy [where srv = lease_client and vals = "\<lambda>s. s" and client = "lease_client 0" and s = ?s and u = 5 and p = ?p
      and h = ?h and ss = "sample_session_settings True" and tok = sample_token and now = 5 and new_uuid = "''n''" and user_id = "''u''"
      and ?now1.0 = 0 and ?now2.0 = 0 and remember_me = False and n = "seconds 5" and m = 0 and m' = 0]
  from t [OF h(1,2) p(2) sample_token_decodes p(1) sample_session(1,2) _ _ f lease_client_works h(3) p(3)]
  show ?thesis by blast
qed

end
