(* ===== verification/Json_Write.thy ===== *)
theory Json_Write
  imports Json
begin

text \<open>
  \<^verbatim>\<open>json.dumps\<close> with the compact separators, of nested values, and that \<^verbatim>\<open>json.loads\<close> reads them back: the messages
  of the task queue in Redis.
\<close>

section \<open>Writing\<close>

text \<open>A value that was parsed outside the modelled part of JSON is written as it was read.\<close>

fun json_write :: "json \<Rightarrow> string"
and json_write_fields :: "(string option \<times> json) list \<Rightarrow> string" where
  "json_write JNull = ''null''"
| "json_write (JBool b) = json_dumps_bool b"
| "json_write (JInt n) = show_int n"
| "json_write (JString s) = json_dumps_str s"
| "json_write (JObject ms) = CHR ''{'' # json_write_fields ms @ [CHR ''}'']"
| "json_write (JOther s) = s"
| "json_write_fields [] = []"
| "json_write_fields ((k, v) # ms) =
     json_dumps_str (case k of Some s \<Rightarrow> s | None \<Rightarrow> []) @ CHR '':'' # json_write v
       @ (if ms = [] then [] else CHR '','' # json_write_fields ms)"

text \<open>The values the program writes: texts of the Latin-1 range, and integers that \<^verbatim>\<open>str\<close> and \<^verbatim>\<open>int\<close> accept.\<close>

definition short_int :: "int \<Rightarrow> bool" where
  "short_int n = (length (show_nat (nat \<bar>n\<bar>)) \<le> 4300)"

fun json_plain :: "json \<Rightarrow> bool"
and plain_fields :: "(string option \<times> json) list \<Rightarrow> bool" where
  "json_plain (JInt n) = short_int n"
| "json_plain (JObject ms) = plain_fields ms"
| "json_plain (JOther s) = False"
| "json_plain _ = True"
| "plain_fields [] = True"
| "plain_fields ((k, v) # ms) = (k \<noteq> None \<and> json_plain v \<and> plain_fields ms)"

section \<open>Reading back\<close>

text \<open>A number ends where its text ends: what follows it in an object, or nothing.\<close>

definition delimited :: "string \<Rightarrow> bool" where
  "delimited r = (case r of [] \<Rightarrow> True | c # _ \<Rightarrow> c = CHR '','' \<or> c = CHR ''}'')"

lemma delimited_simps [simp]: "delimited []" "delimited (CHR '','' # r)" "delimited (CHR ''}'' # r)"
  by (simp_all add: delimited_def)

lemma scan_digits_delimited:
  assumes "delimited r"
  shows "scan_digits (show_nat n @ r) = Some (show_nat n, r)"
proof (cases "n = 0")
  case True
  moreover have "show_nat 0 = ''0''" by code_simp
  ultimately show ?thesis by (simp add: scan_digits_def)
next
  case False
  obtain c rest where cr: "show_nat n = c # rest" by (cases "show_nat n") auto
  have dec: "\<forall>x\<in>set (show_nat n). is_decimal x" using show_nat_decimal by blast
  have r: "takeWhile is_decimal r = []" "dropWhile is_decimal r = r"
    using assms by (auto simp: delimited_def is_decimal_def split: list.splits)
  have "takeWhile is_decimal (show_nat n @ r) = show_nat n" "dropWhile is_decimal (show_nat n @ r) = r"
    using dec r by (simp_all add: takeWhile_append dropWhile_append)
  moreover have "c \<noteq> CHR ''0''" using show_nat_hd_zero [of n] False cr by simp
  ultimately show ?thesis using dec by (simp add: scan_digits_def cr)
qed

lemma scan_int_delimited:
  assumes "delimited r" "short_int n"
  shows "scan_value (Suc m) (show_int n @ r) = Scanned (JInt n) r"
proof -
  let ?d = "show_nat (nat \<bar>n\<bar>)"
  obtain c rest where cr: "?d = c # rest" by (cases ?d) auto
  have dec: "list_all is_decimal ?d" using show_nat_decimal by (auto simp: list_all_iff)
  then have c: "is_decimal c" by (simp add: cr)
  have val: "py_int_of_digits ?d = Some \<bar>n\<bar>" using dec assms(2) by (simp add: py_int_of_digits_def short_int_def)
  have end_: "scan_fraction r = (False, r)" "scan_exponent r = (False, r)"
    using assms(1) by (auto simp: delimited_def scan_fraction_def scan_exponent_def split: list.splits)
  have dg: "scan_digits (c # rest @ r) = Some (c # rest, r)"
    using scan_digits_delimited [OF assms(1), of "nat \<bar>n\<bar>"] by (simp add: cr)
  have val': "py_int_of_digits (c # rest) = Some \<bar>n\<bar>" using val by (simp add: cr)
  show ?thesis
  proof (cases "n < 0")
    case True
    then have s: "show_int n @ r = CHR ''-'' # c # rest @ r" using cr by (simp add: show_int_def)
    have "scan_value (Suc m) (show_int n @ r) = scan_number (show_int n @ r)"
      unfolding s scan_value.simps using c by (auto simp: starts_with_def is_decimal_def)
    then show ?thesis using True by (simp add: s scan_number_def dg val' end_)
  next
    case False
    then have s: "show_int n @ r = c # rest @ r" using cr by (simp add: show_int_def)
    have "scan_value (Suc m) (show_int n @ r) = scan_number (show_int n @ r)"
      unfolding s using decimal_not [OF c] by (intro scan_value_number) auto
    then show ?thesis using False decimal_not [OF c] by (simp add: s scan_number_def dg val' end_)
  qed
qed

lemma skip_ws_value: "json_plain v \<Longrightarrow> skip_ws (json_write v @ r) = json_write v @ r"
proof (cases v)
  case (JInt n)
  obtain c rest where cr: "show_nat (nat \<bar>n\<bar>) = c # rest" by (cases "show_nat (nat \<bar>n\<bar>)") auto
  then have "is_decimal c" using show_nat_decimal [of c "nat \<bar>n\<bar>"] by simp
  from decimal_not [OF this] show ?thesis
    using JInt cr by (cases "n < 0") (simp_all add: show_int_def skip_ws_def json_ws_def)
qed (simp_all add: skip_ws_def json_ws_def json_dumps_bool_def json_dumps_str_def)

lemma write_not_Nil: "json_plain v \<Longrightarrow> json_write v \<noteq> []"
  by (cases v) (simp_all add: json_dumps_bool_def json_dumps_str_def show_int_def)

lemma skip_ws_fields: "skip_ws (json_write_fields ((k, v) # ms) @ r) = json_write_fields ((k, v) # ms) @ r"
  by (simp add: skip_ws_def json_dumps_str_def json_ws_def)

lemma scan_bool: "scan_value (Suc m) (json_dumps_bool b @ r) = Scanned (JBool b) r"
  by (cases b) (simp_all add: json_dumps_bool_def starts_with_def)

lemma scan_null: "scan_value (Suc m) (CHR ''n'' # CHR ''u'' # CHR ''l'' # CHR ''l'' # r) = Scanned JNull r"
  by (simp add: starts_with_def)

lemma scan_empty_object: "scan_value (Suc m) (CHR ''{'' # CHR ''}'' # r) = Scanned (JObject []) r"
  by (simp add: starts_with_def)

lemma scan_object:
  assumes "scan_members m (CHR 0x22 # t) = Scanned ms r"
  shows "scan_value (Suc m) (CHR ''{'' # CHR 0x22 # t) = Scanned (JObject ms) r"
proof -
  have "skip_ws (CHR 0x22 # t) = CHR 0x22 # t" by (simp add: skip_ws_def json_ws_def)
  with assms show ?thesis by (simp add: starts_with_def del: scan_members.simps)
qed

lemma scan_one_member:
  assumes "scan_value m (json_write v @ d # r) = Scanned v (d # r)" "json_plain v" "d = CHR ''}'' \<or> d = CHR '',''"
  shows "scan_members (Suc m) (json_dumps_str k @ CHR '':'' # json_write v @ d # r) =
    (if d = CHR ''}'' then Scanned [(Some k, v)] r
     else (case scan_members m (skip_ws r) of
        BadJson \<Rightarrow> BadJson | HugeInt \<Rightarrow> HugeInt | Scanned ms r' \<Rightarrow> Scanned ((Some k, v) # ms) r'))"
proof -
  have d: "skip_ws (d # r) = d # r" using assms(3) by auto
  have q: "json_dumps_str k @ CHR '':'' # json_write v @ d # r
      = CHR 0x22 # concat (map json_escape k) @ CHR 0x22 # CHR '':'' # json_write v @ d # r"
    by (simp add: json_dumps_str_def)
  show ?thesis
    unfolding q scan_members.simps(2) list.case scan_string_escaped option.case prod.case
      skip_ws_colon skip_ws_value [OF assms(2)] assms(1) scanned.case d Let_def
    using assms(3) by (auto simp del: scan_members.simps)
qed

lemma scan_write:
  "json_plain v \<Longrightarrow> delimited r \<Longrightarrow> length (json_write v) < n \<Longrightarrow> scan_value n (json_write v @ r) = Scanned v r"
  "plain_fields ms \<Longrightarrow> ms \<noteq> [] \<Longrightarrow> length (json_write_fields ms) < n
     \<Longrightarrow> scan_members n (json_write_fields ms @ CHR ''}'' # r) = Scanned ms r"
proof (induction v and ms arbitrary: n r and n r rule: json_write_json_write_fields.induct)
  case (1 n r)
  then show ?case by (cases n) (simp_all add: scan_null del: scan_value.simps)
next
  case (2 b n r)
  then show ?case by (cases n) (simp_all add: scan_bool del: scan_value.simps)
next
  case (3 i n r)
  then show ?case by (cases n) (simp_all add: scan_int_delimited del: scan_value.simps)
next
  case (4 s n r)
  then show ?case by (cases n) (simp_all add: scan_dumps_str del: scan_value.simps)
next
  case (5 ms n r)
  then obtain n' where n: "n = Suc n'" "length (json_write_fields ms) < n'" by (cases n) auto
  show ?case
  proof (cases ms)
    case Nil
    then show ?thesis by (simp add: n scan_empty_object del: scan_value.simps)
  next
    case (Cons m ms')
    obtain k v where m: "m = (k, v)" by (cases m)
    let ?t = "json_write_fields ms @ CHR ''}'' # r"
    obtain t where t: "?t = CHR 0x22 # t" by (simp add: Cons m json_dumps_str_def)
    have "scan_members n' ?t = Scanned ms r" using 5(1) [of n' r] 5(2) n(2) Cons by simp
    from scan_object [OF this [unfolded t]] show ?thesis by (simp add: n(1) t del: scan_value.simps)
  qed
next
  case (8 k v ms n r)
  then obtain n' s where n: "n = Suc n'" and s: "k = Some s" by (cases n) auto
  have pv: "json_plain v" and pm: "plain_fields ms" using 8(3) by auto
  show ?case
  proof (cases ms)
    case Nil
    have "scan_value n' (json_write v @ CHR ''}'' # r) = Scanned v (CHR ''}'' # r)"
      using 8(1) [of "CHR ''}'' # r" n'] pv 8(5) n by simp
    from scan_one_member [OF this pv] show ?thesis by (simp add: n s Nil del: scan_members.simps)
  next
    case (Cons m ms')
    obtain k' v' where m: "m = (k', v')" by (cases m)
    let ?t = "json_write_fields ms @ CHR ''}'' # r"
    have "scan_value n' (json_write v @ CHR '','' # ?t) = Scanned v (CHR '','' # ?t)"
      using 8(1) [of "CHR '','' # ?t" n'] pv 8(5) n by simp
    moreover have "scan_members n' ?t = Scanned ms r" using 8(2) [of n' r] pm 8(5) n Cons by simp
    moreover have "skip_ws ?t = ?t" unfolding Cons m by (rule skip_ws_fields)
    ultimately show ?thesis using scan_one_member [OF _ pv, of n' "CHR '',''" ?t s] by (simp add: n s Cons del: scan_members.simps)
  qed
qed simp_all

theorem loads_write: "json_plain v \<Longrightarrow> json_loads (json_write v) = Inr v"
  using scan_write(1) [of v "[]" "3 * length (json_write v) + 3"] skip_ws_value [of v "[]"]
  by (simp add: json_loads_def del: scan_value.simps) (simp add: skip_ws_def)

end
