(* ===== verification/Redis_Queue.thy ===== *)
theory Redis_Queue
  imports Task_Queue Redis_Support Json_Write "HOL-Library.AList"
begin

text \<open>
  \<^verbatim>\<open>RedisTaskQueue\<close> of \<^verbatim>\<open>src/imghost/tasks.py\<close>: tasks are JSON messages in lists of a Redis server, with the queue in
  process as the fallback. The fallback and the reports are the \<open>queue_state\<close> of \<open>Task_Queue\<close>; the handle, the server,
  the known queues and the count of active jobs are part of its world, so that a handler may enqueue there
  too. \<open>m\<close> and \<open>m'\<close> are the monotonic clock of the breaker. Starting, joining and cancelling the workers is left out.
\<close>

section \<open>State\<close>

record ('w, 'r) redis_queue_world =
  rq_handle :: redis_handle
  rq_server :: 'r
  rq_known :: "string list"
  rq_active :: int
  rq_app :: 'w

type_synonym ('w, 'r) redis_queue = "('w, 'r) redis_queue_world queue_state"

definition known_queues :: "string list" where
  "known_queues = [''default'', ''thumbnails'']"

definition initial_known :: "string list option \<Rightarrow> string list" where
  "initial_known worker_queues = remdups (known_queues @ (case worker_queues of Some qs \<Rightarrow> qs | None \<Rightarrow> []))"

definition dequeue_queue_names :: "string list option \<Rightarrow> string list \<Rightarrow> string list" where
  "dequeue_queue_names worker_queues known = (case worker_queues of None \<Rightarrow> sort known | Some qs \<Rightarrow> qs)"

definition join_queue_names :: "string list option \<Rightarrow> string list \<Rightarrow> string list" where
  "join_queue_names worker_queues known =
     (case worker_queues of None \<Rightarrow> sort known | Some qs \<Rightarrow> filter (\<lambda>q. q \<in> set known) qs)"

definition queue_key :: "redis_handle \<Rightarrow> string \<Rightarrow> string" where
  "queue_key h q = prefixed h (''queue:'' @ q)"

text \<open>A command of the server, through the handle.\<close>

definition redis_do ::
  "time \<Rightarrow> time \<Rightarrow> ('r \<Rightarrow> (err + 'a) \<times> 'r) \<Rightarrow> ('w, 'r) redis_queue \<Rightarrow> (err + 'a) \<times> ('w, 'r) redis_queue" where
  "redis_do m m' callback st =
     (let w = qs_world st in
      case handle_execute m m' callback (rq_handle w) (rq_server w) of
        (r, h, s) \<Rightarrow> (r, st\<lparr>qs_world := w\<lparr>rq_handle := h, rq_server := s\<rparr>\<rparr>))"

section \<open>Messages\<close>

fun json_of_arg :: "arg \<Rightarrow> json" where
  "json_of_arg (AStr s) = JString s"
| "json_of_arg (AInt n) = JInt n"
| "json_of_arg (ABool b) = JBool b"
| "json_of_arg ANone = JNull"
| "json_of_arg (AJson v) = v"

fun arg_of_json :: "json \<Rightarrow> arg" where
  "arg_of_json (JString s) = AStr s"
| "arg_of_json (JInt n) = AInt n"
| "arg_of_json (JBool b) = ABool b"
| "arg_of_json JNull = ANone"
| "arg_of_json v = AJson v"

fun json_writable :: "json \<Rightarrow> bool"
and writable_fields :: "(string option \<times> json) list \<Rightarrow> bool" where
  "json_writable (JInt n) = short_int n"
| "json_writable (JObject ms) = writable_fields ms"
| "json_writable _ = True"
| "writable_fields [] = True"
| "writable_fields ((k, v) # ms) = (json_writable v \<and> writable_fields ms)"

definition message_value :: "string \<Rightarrow> kwargs \<Rightarrow> int \<Rightarrow> int \<Rightarrow> json" where
  "message_value name kw attempt max_attempts = JObject
     [(Some ''task_name'', JString name), (Some ''kwargs'', JObject (map (\<lambda>(k, a). (Some k, json_of_arg a)) kw)),
      (Some ''attempt'', JInt attempt), (Some ''max_attempts'', JInt max_attempts)]"

definition queue_message :: "string \<Rightarrow> kwargs \<Rightarrow> int \<Rightarrow> int \<Rightarrow> err + string" where
  "queue_message name kw attempt max_attempts =
     (let v = message_value name kw attempt max_attempts in
      if json_writable v then Inr (json_write v)
      else Inl (ValueError ''Exceeds the limit for integer string conversion''))"

text \<open>The part of a message that may raise before a job counts as active; every exception has the same effect.\<close>

definition int_member :: "(string option \<times> json) list \<Rightarrow> string \<Rightarrow> int \<Rightarrow> int option" where
  "int_member ms k dflt =
     (case obj_get ms k of
        None \<Rightarrow> Some dflt
      | Some v \<Rightarrow> (case arg_int (arg_of_json v) of Inr n \<Rightarrow> Some n | Inl _ \<Rightarrow> None))"

definition decode_message ::
  "'s registry \<Rightarrow> (string option \<times> json) list \<Rightarrow> (string \<times> 's registered_task \<times> json \<times> int \<times> int) option" where
  "decode_message reg ms =
     (case (obj_get ms ''task_name'', obj_get ms ''kwargs'') of
        (Some (JString name), Some kw) \<Rightarrow>
          (case (int_member ms ''attempt'' 1, reg name) of
             (Some a, Some task) \<Rightarrow>
               map_option (\<lambda>n. (name, task, kw, a, n)) (int_member ms ''max_attempts'' (rt_max_attempts task))
           | _ \<Rightarrow> None)
      | _ \<Rightarrow> None)"

text \<open>The dictionary of the arguments; no handler takes an argument whose name is outside Latin-1.\<close>

definition dict_of :: "(string option \<times> json) list \<Rightarrow> kwargs" where
  "dict_of ms = fold (\<lambda>(k, v) d. AList.update (the k) (arg_of_json v) d) ms []"

definition kwargs_of :: "json \<Rightarrow> kwargs option" where
  "kwargs_of v = (case v of JObject ms \<Rightarrow> if None \<in> fst ` set ms then None else Some (dict_of ms) | _ \<Rightarrow> None)"

text \<open>\<^verbatim>\<open>str(queue_key).split("queue:")[-1]\<close>\<close>

fun after_queue :: "string \<Rightarrow> string" where
  "after_queue [] = []"
| "after_queue (c # s) =
     (if contains ''queue:'' s then after_queue s
      else if starts_with ''queue:'' (c # s) then drop 6 (c # s) else c # s)"

section \<open>Enqueueing\<close>

text \<open>The arguments with the attempt numbers, as the fallback takes them.\<close>

definition with_attempts :: "int \<Rightarrow> int \<Rightarrow> kwargs \<Rightarrow> kwargs" where
  "with_attempts a n kw = (''_task_attempt'', AInt a) # (''_task_max_attempts'', AInt n) # kw"

definition add_known :: "string \<Rightarrow> ('w, 'r) redis_queue \<Rightarrow> ('w, 'r) redis_queue" where
  "add_known q st = st\<lparr>qs_world := (qs_world st)\<lparr>rq_known := List.insert q (rq_known (qs_world st))\<rparr>\<rparr>"

definition redis_enqueue ::
  "'r redis_client \<Rightarrow> time \<Rightarrow> time \<Rightarrow> ('w, 'r) redis_queue_world registry \<Rightarrow> string \<Rightarrow> string option \<Rightarrow> kwargs
     \<Rightarrow> ('w, 'r) redis_queue \<Rightarrow> (err + unit) \<times> ('w, 'r) redis_queue" where
  "redis_enqueue client m m' reg name queue kw st =
     (case reg name of
        None \<Rightarrow> (Inl (KeyError name), st)
      | Some task \<Rightarrow>
          let q = (case queue of Some q \<Rightarrow> q | None \<Rightarrow> rt_default_queue task) in
          (case attempt_metadata task kw of
             Inl e \<Rightarrow> (Inl e, st)
           | Inr (a, n, kw') \<Rightarrow>
               let st1 = add_known q st in
               (case queue_message name kw' a n of
                  Inl e \<Rightarrow> (Inl e, st1)
                | Inr msg \<Rightarrow>
                    (case redis_do m m' (rc_rpush client (queue_key (rq_handle (qs_world st1)) q) msg) st1 of
                       (Inl (RedisUnavailable _), st2) \<Rightarrow> async_enqueue reg name (Some q) (with_attempts a n kw') st2
                     | (Inl e, st2) \<Rightarrow> (Inl e, st2)
                     | (Inr _, st2) \<Rightarrow> (Inr (), tell [Enqueued q name, State name Queued (mk_details q a n None kw')] st2)))))"

section \<open>Working\<close>

text \<open>An argument of this name would be given twice to \<^verbatim>\<open>enqueue\<close>.\<close>

definition reserved_kwargs :: "string list" where
  "reserved_kwargs = [''self'', ''task_name'', ''queue'', ''_task_attempt'', ''_task_max_attempts'']"

definition redis_handle_result ::
  "'r redis_client \<Rightarrow> time \<Rightarrow> time \<Rightarrow> ('w, 'r) redis_queue_world registry \<Rightarrow> string \<Rightarrow> string \<Rightarrow> kwargs \<Rightarrow> int \<Rightarrow> int
     \<Rightarrow> outcome \<Rightarrow> ('w, 'r) redis_queue \<Rightarrow> (err + unit) \<times> ('w, 'r) redis_queue" where
  "redis_handle_result client m m' reg name q kw a n out st =
     (case out of
        OtherValue \<Rightarrow> (Inr (), tell (end_notes name q a n kw OtherValue) st)
      | Result r \<Rightarrow>
          if wants_retry r a n then
            (let st1 = tell [State name RetryScheduled (mk_details q a n (tr_reason r) kw)] st in
             if \<exists>k\<in>fst ` set kw. k \<in> set reserved_kwargs
             then (Inl (TypeError ''enqueue() got multiple values for an argument''), st1)
             else redis_enqueue client m m' reg name (Some q) (retry_kwargs a n kw) st1)
          else (Inr (), tell (end_notes name q a n kw (Result r)) st))"

text \<open>What is reported of a message whose processing raised; \<open>str_of\<close> is \<^verbatim>\<open>str\<close> of a value that is not a text.\<close>

definition crash_report ::
  "(json \<Rightarrow> string) \<Rightarrow> int \<Rightarrow> json option \<Rightarrow> tnote list" where
  "crash_report str_of worker payload =
     (case payload of
        Some (JObject ms) \<Rightarrow>
          (let name = (case obj_get ms ''task_name'' of Some (JString s) \<Rightarrow> s | Some v \<Rightarrow> str_of v | None \<Rightarrow> ''None'');
               get = (\<lambda>xs k dflt. (case obj_get xs k of Some v \<Rightarrow> arg_of_json v | None \<Rightarrow> dflt));
               details = (''worker_index'', AInt worker) # (case obj_get ms ''kwargs'' of
                 Some (JObject kw) \<Rightarrow>
                   [(''media_id'', get kw ''media_id'' ANone), (''correlation_id'', get kw ''correlation_id'' ANone),
                    (''attempt'', get ms ''attempt'' (AInt 1)), (''max_attempts'', get ms ''max_attempts'' (AInt 1))]
               | _ \<Rightarrow> [])
           in [CrashState name details, CrashFailure name details])
      | _ \<Rightarrow> [CrashState ''unknown'' [(''worker_index'', AInt worker)], CrashFailure ''unknown'' [(''worker_index'', AInt worker)]])"

definition add_active :: "int \<Rightarrow> ('w, 'r) redis_queue \<Rightarrow> ('w, 'r) redis_queue" where
  "add_active d st = st\<lparr>qs_world := (qs_world st)\<lparr>rq_active := rq_active (qs_world st) + d\<rparr>\<rparr>"

text \<open>The job proper, between the count up and the \<^verbatim>\<open>finally\<close>.\<close>

definition run_job ::
  "'r redis_client \<Rightarrow> time \<Rightarrow> time \<Rightarrow> ('w, 'r) redis_queue_world registry \<Rightarrow> tnote list \<Rightarrow> string
     \<Rightarrow> ('w, 'r) redis_queue_world registered_task \<Rightarrow> string \<Rightarrow> kwargs \<Rightarrow> int \<Rightarrow> int \<Rightarrow> ('w, 'r) redis_queue \<Rightarrow> ('w, 'r) redis_queue" where
  "run_job client m m' reg crash name task q kw a n st =
     (case run_handler task name q a n kw st of
        (Inl _, st1) \<Rightarrow> tell crash st1
      | (Inr out, st1) \<Rightarrow>
          (case redis_handle_result client m m' reg name q kw a n out st1 of
             (Inl _, st2) \<Rightarrow> tell crash st2 | (Inr _, st2) \<Rightarrow> st2))"

definition process_message ::
  "'r redis_client \<Rightarrow> time \<Rightarrow> time \<Rightarrow> ('w, 'r) redis_queue_world registry \<Rightarrow> (json \<Rightarrow> string) \<Rightarrow> int \<Rightarrow> string \<Rightarrow> string
     \<Rightarrow> ('w, 'r) redis_queue \<Rightarrow> ('w, 'r) redis_queue" where
  "process_message client m m' reg str_of worker key raw st =
     (let payload = (case json_loads raw of Inr v \<Rightarrow> Some v | Inl _ \<Rightarrow> None);
          crash = crash_report str_of worker payload in
      case (case payload of Some (JObject ms) \<Rightarrow> decode_message reg ms | _ \<Rightarrow> None) of
        None \<Rightarrow> tell crash st
      | Some (name, task, kwv, a, n) \<Rightarrow>
          let st1 = add_active 1 st in
          (case kwargs_of kwv of
             None \<Rightarrow> tell crash st1
           | Some kw \<Rightarrow> run_job client m m' reg crash name task (after_queue key) kw a n st1))"

text \<open>One turn of \<^verbatim>\<open>_run_worker\<close>; an exception that is not Redis being away ends the worker.\<close>

definition redis_worker_turn ::
  "'r redis_client \<Rightarrow> time \<Rightarrow> time \<Rightarrow> time \<Rightarrow> time \<Rightarrow> ('w, 'r) redis_queue_world registry \<Rightarrow> (json \<Rightarrow> string)
     \<Rightarrow> string list option \<Rightarrow> int \<Rightarrow> ('w, 'r) redis_queue \<Rightarrow> (err + unit) \<times> ('w, 'r) redis_queue" where
  "redis_worker_turn client m1 m1' m2 m2' reg str_of worker_queues worker st =
     (let h = rq_handle (qs_world st);
          keys = map (queue_key h) (dequeue_queue_names worker_queues (rq_known (qs_world st))) in
      if keys = [] then (Inr (), st)
      else (case redis_do m1 m1' (rc_blpop client keys) st of
         (Inl (RedisUnavailable _), st1) \<Rightarrow> (Inr (), st1)
       | (Inl e, st1) \<Rightarrow> (Inl e, st1)
       | (Inr None, st1) \<Rightarrow> (Inr (), st1)
       | (Inr (Some (key, raw)), st1) \<Rightarrow>
           let st2 = process_message client m2 m2' reg str_of worker key raw st1 in
           (Inr (), if 0 < rq_active (qs_world st2) then add_active (-1) st2 else st2)))"

section \<open>Lengths\<close>

fun read_named_queue_lengths ::
  "'r redis_client \<Rightarrow> redis_handle \<Rightarrow> string list \<Rightarrow> 'r \<Rightarrow> (err + (string \<times> int) list) \<times> 'r" where
  "read_named_queue_lengths client h [] s = (Inr [], s)"
| "read_named_queue_lengths client h (q # qs) s =
     io_bind (rc_llen client (queue_key h q)) (\<lambda>n. io_bind (read_named_queue_lengths client h qs) (\<lambda>ns.
       io_return ((q, n) # ns))) s"

definition all_queues_empty ::
  "'r redis_client \<Rightarrow> time \<Rightarrow> time \<Rightarrow> string list option \<Rightarrow> ('w, 'r) redis_queue \<Rightarrow> (err + bool) \<times> ('w, 'r) redis_queue" where
  "all_queues_empty client m m' worker_queues st =
     (let w = qs_world st in
      case redis_do m m' (read_named_queue_lengths client (rq_handle w) (join_queue_names worker_queues (rq_known w))) st of
        (Inl (RedisUnavailable _), st1) \<Rightarrow> (Inr True, st1)
      | (Inl e, st1) \<Rightarrow> (Inl e, st1)
      | (Inr ns, st1) \<Rightarrow> (Inr (list_all (\<lambda>(_, n). n = 0) ns), st1))"

definition safe_queue_lengths ::
  "'r redis_client \<Rightarrow> time \<Rightarrow> time \<Rightarrow> ('w, 'r) redis_queue \<Rightarrow> (err + (string \<times> int) list) \<times> ('w, 'r) redis_queue" where
  "safe_queue_lengths client m m' st =
     (let w = qs_world st in
      case redis_do m m' (read_named_queue_lengths client (rq_handle w) (sort (rq_known w))) st of
        (Inl (RedisUnavailable _), st1) \<Rightarrow> (Inr [], st1)
      | r \<Rightarrow> r)"

end
