(* ===== verification/Redis_Queue_Props.thy ===== *)
theory Redis_Queue_Props
  imports Redis_Queue Task_Props
begin

text \<open>
  A job that is enqueued in Redis is run as the inline queue runs it, on a server that keeps its lists; while
  Redis is away, it goes to the queue in process.
\<close>

section \<open>What is assumed of the server\<close>

text \<open>\<open>qlists\<close> reads from its state the list under a key: \<^verbatim>\<open>RPUSH\<close> appends, \<^verbatim>\<open>BLPOP\<close> takes the head of the first list that has one.\<close>

definition list_server :: "'r redis_client \<Rightarrow> ('r \<Rightarrow> string \<Rightarrow> string list) \<Rightarrow> bool" where
  "list_server client qlists \<longleftrightarrow>
     (\<forall>k v s. \<exists>s'. rc_rpush client k v s = (Inr (), s') \<and> qlists s' = (qlists s)(k := qlists s k @ [v]))
     \<and> (\<forall>ks s. \<exists>s'. (case find (\<lambda>k. qlists s k \<noteq> []) ks of
          None \<Rightarrow> rc_blpop client ks s = (Inr None, s') \<and> qlists s' = qlists s
        | Some k \<Rightarrow> rc_blpop client ks s = (Inr (Some (k, hd (qlists s k))), s') \<and> qlists s' = (qlists s)(k := tl (qlists s k))))"

lemma redis_do_ready:
  assumes "handle_ready m (rq_handle (qs_world st))" "callback (rq_server (qs_world st)) = (Inr x, s')"
  shows "redis_do m m' callback st =
    (Inr x, st\<lparr>qs_world := (qs_world st)\<lparr>rq_handle := after_success (rq_handle (qs_world st)), rq_server := s'\<rparr>\<rparr>)"
  by (simp add: redis_do_def execute_ready [where callback = callback, OF assms] Let_def)

lemma queue_key_after_success [simp]: "queue_key (after_success h) q = queue_key h q"
  by (simp add: queue_key_def)

section \<open>Messages\<close>

definition plain_kwargs :: "kwargs \<Rightarrow> bool" where
  "plain_kwargs kw = (distinct (map fst kw)
     \<and> (\<forall>a\<in>snd ` set kw. case a of AJson _ \<Rightarrow> False | AInt n \<Rightarrow> short_int n | _ \<Rightarrow> True))"

lemma plain_arg: "(case a of AJson _ \<Rightarrow> False | AInt n \<Rightarrow> short_int n | _ \<Rightarrow> True) \<Longrightarrow> json_plain (json_of_arg a) \<and> arg_of_json (json_of_arg a) = a"
  by (cases a) simp_all

lemma plain_fields_map: "\<forall>a\<in>snd ` set kw. json_plain (f a) \<Longrightarrow> plain_fields (map (\<lambda>(k, a). (Some k, f a)) kw)"
  by (induction kw) auto

lemma plain_writable: "json_plain v \<Longrightarrow> json_writable v" "plain_fields ms \<Longrightarrow> writable_fields ms"
  by (induction v and ms rule: json_writable_writable_fields.induct) auto

lemma message_plain:
  assumes "plain_kwargs kw" "short_int a" "short_int n"
  shows "json_plain (message_value name kw a n)"
proof -
  have "plain_fields (map (\<lambda>(k, a). (Some k, json_of_arg a)) kw)"
    using assms(1) plain_arg by (intro plain_fields_map) (force simp: plain_kwargs_def)
  then show ?thesis using assms(2,3) by (simp add: message_value_def)
qed

lemma update_fold:
  assumes "distinct (map fst kw)" "fst ` set kw \<inter> fst ` set d = {}"
  shows "fold (\<lambda>(k, a) d. AList.update k a d) kw d = d @ kw"
  using assms
proof (induction kw arbitrary: d)
  case (Cons e kw)
  obtain k a where e: "e = (k, a)" by (cases e)
  have "AList.update k a d = d @ [(k, a)]" using Cons.prems(2) by (induction d) (auto simp: e)
  moreover have "fst ` set kw \<inter> fst ` set (d @ [(k, a)]) = {}" using Cons.prems by (auto simp: e)
  ultimately show ?case using Cons.IH [of "d @ [(k, a)]"] Cons.prems(1) by (simp add: e)
qed simp

lemma dict_of_kwargs:
  assumes "plain_kwargs kw"
  shows "dict_of (map (\<lambda>(k, a). (Some k, json_of_arg a)) kw) = kw"
proof -
  have "dict_of (map (\<lambda>(k, a). (Some k, json_of_arg a)) kw) = fold (\<lambda>(k, a) d. AList.update k a d) kw []"
    unfolding dict_of_def fold_map
    by (rule fold_cong) (use assms plain_arg in \<open>force simp: plain_kwargs_def fun_eq_iff\<close>)+
  then show ?thesis using update_fold [of kw "[]"] assms by (simp add: plain_kwargs_def)
qed

lemma decode_message_value:
  assumes "reg name = Some task" "plain_kwargs kw"
  obtains ms kwv where "message_value name kw a n = JObject ms" "decode_message reg ms = Some (name, task, kwv, a, n)"
    "kwargs_of kwv = Some kw"
proof
  let ?kwv = "JObject (map (\<lambda>(k, a). (Some k, json_of_arg a)) kw)"
  let ?ms = "[(Some ''task_name'', JString name), (Some ''kwargs'', ?kwv), (Some ''attempt'', JInt a), (Some ''max_attempts'', JInt n)]"
  show "message_value name kw a n = JObject ?ms" by (simp add: message_value_def)
  show "decode_message reg ?ms = Some (name, task, ?kwv, a, n)"
    by (simp add: decode_message_def obj_get_def int_member_def assms(1))
  have "None \<notin> fst ` set (map (\<lambda>(k, a). (Some k, json_of_arg a)) kw)" by auto
  then show "kwargs_of ?kwv = Some kw" by (simp add: kwargs_of_def dict_of_kwargs [OF assms(2)])
qed

lemma contains_append: "contains p s \<Longrightarrow> contains p (xs @ s)"
  by (induction xs) simp_all

lemma contains_prefix: "contains p (p @ s)"
  by (cases "p @ s") (auto simp: append_eq_Cons_conv)

lemma after_queue_key:
  assumes "\<not> contains ''queue:'' q"
  shows "after_queue (queue_key h q) = q"
proof -
  have base: "after_queue (''queue:'' @ q) = q"
    using assms by (simp add: starts_with_def)
  have "after_queue (xs @ ''queue:'' @ q) = q" for xs
  proof (induction xs)
    case (Cons c xs)
    have "contains ''queue:'' (xs @ ''queue:'' @ q)" by (intro contains_append contains_prefix)
    then show ?case using Cons.IH by simp
  qed (use base in simp)
  from this [of "rh_prefix h @ '':''"] base show ?thesis by (simp add: queue_key_def prefixed_def)
qed

section \<open>One job\<close>

text \<open>A handler that works on the application only.\<close>

definition on_app :: "(kwargs \<Rightarrow> 'w \<Rightarrow> (err + outcome) \<times> 'w) \<Rightarrow> ('w, 'r) redis_queue_world handler" where
  "on_app g kw st = (case g kw (rq_app (qs_world st)) of (r, x) \<Rightarrow> (r, st\<lparr>qs_world := (qs_world st)\<lparr>rq_app := x\<rparr>\<rparr>))"

text \<open>What the attempts at a job do to the application.\<close>

function job_loop :: "(kwargs \<Rightarrow> 'w \<Rightarrow> (err + outcome) \<times> 'w) \<Rightarrow> (int \<Rightarrow> int \<Rightarrow> kwargs) \<Rightarrow> int \<Rightarrow> int \<Rightarrow> 'w \<Rightarrow> 'w" where
  "job_loop g args a n x =
     (case g (args a n) x of
        (Inr (Result r), x') \<Rightarrow> if wants_retry r a n then job_loop g args (a + 1) n x' else x'
      | (_, x') \<Rightarrow> x')"
  by pat_completeness auto
termination
  by (relation "measure (\<lambda>(g, args, a, n, x). nat (n - a))") (auto simp: wants_retry_def)

declare job_loop.simps [simp del]

lemma sync_loop_job:
  assumes "rt_handler task = on_world g"
  shows "qs_world (sync_loop task name q a n kw st) = job_loop g (\<lambda>a n. handler_kwargs task a n kw) a n (qs_world st)"
  using assms
proof (induction task name q a n kw st rule: sync_loop.induct)
  case (1 task name q a n kw st)
  obtain r x where g: "g (handler_kwargs task a n kw) (qs_world st) = (r, x)" by (cases "g (handler_kwargs task a n kw) (qs_world st)")
  then have run: "run_handler task name q a n kw st = (r, (tell [State name Started (mk_details q a n None kw)] st)\<lparr>qs_world := x\<rparr>)"
    by (simp add: run_handler_def 1(2) on_world_def tell_def)
  show ?case
    using 1(1) [OF run [symmetric]]
    by (subst sync_loop.simps, subst job_loop.simps) (auto simp: run g 1(2) tell_def split: sum.splits outcome.splits)
qed

definition job_state ::
  "('r \<Rightarrow> string \<Rightarrow> string list) \<Rightarrow> string list option \<Rightarrow> string \<Rightarrow> (string \<Rightarrow> string list) \<Rightarrow> string list \<Rightarrow> 'w
     \<Rightarrow> ('w, 'r) redis_queue \<Rightarrow> bool" where
  "job_state qlists wq q base msgs x st \<longleftrightarrow> (let w = qs_world st; h = rq_handle w; names = dequeue_queue_names wq (rq_known w) in
     qlists (rq_server w) = base(queue_key h q := msgs) \<and> handle_ready 0 h \<and> rq_app w = x
     \<and> q \<in> set names \<and> (\<forall>q'\<in>set names. base (queue_key h q') = []))"

lemma job_state_frame [simp]:
  "job_state qlists wq q base msgs x (tell ns st) = job_state qlists wq q base msgs x st"
  "job_state qlists wq q base msgs x (add_active d st) = job_state qlists wq q base msgs x st"
  by (simp_all add: job_state_def add_active_def Let_def)

lemma ready_later: "handle_ready 0 h \<Longrightarrow> 0 \<le> t \<Longrightarrow> handle_ready t h"
  by (simp add: handle_ready_def handle_available_def)

lemma find_only:
  assumes "\<forall>k\<in>set ks. P k \<longleftrightarrow> k = K" "K \<in> set ks"
  shows "find P ks = Some K"
  using assms by (induction ks) auto

lemma turn_takes_message:
  assumes "list_server client qlists" "job_state qlists wq q base [raw] x st" "0 \<le> t1"
  shows "\<exists>st1. job_state qlists wq q base [] x st1 \<and> rq_handle (qs_world st1) = after_success (rq_handle (qs_world st))
    \<and> redis_worker_turn client t1 t1' t2 t2' reg str_of wq i st = (Inr (),
        let st2 = process_message client t2 t2' reg str_of i (queue_key (rq_handle (qs_world st)) q) raw st1
        in if 0 < rq_active (qs_world st2) then add_active (-1) st2 else st2)"
proof -
  let ?w = "qs_world st"
  let ?h = "rq_handle ?w" and ?names = "dequeue_queue_names wq (rq_known (qs_world st))"
  let ?K = "queue_key ?h q" and ?ks = "map (queue_key ?h) ?names"
  from assms(2) have j: "qlists (rq_server ?w) = base(?K := [raw])" "handle_ready 0 ?h" "rq_app ?w = x" "q \<in> set ?names"
    "\<forall>q'\<in>set ?names. base (queue_key ?h q') = []" by (auto simp: job_state_def Let_def)
  have "find (\<lambda>k. qlists (rq_server ?w) k \<noteq> []) ?ks = Some ?K"
    unfolding j(1) by (rule find_only) (use j(4,5) in auto)
  with assms(1) obtain s' where s': "rc_blpop client ?ks (rq_server ?w) = (Inr (Some (?K, raw)), s')" "qlists s' = base(?K := [])"
    unfolding list_server_def by (force simp: j(1) dest: spec [of _ ?ks] spec [of _ "rq_server ?w"])
  note d = redis_do_ready [where callback = "rc_blpop client ?ks", OF ready_later [OF j(2) assms(3)] s'(1)]
  let ?st1 = "st\<lparr>qs_world := ?w\<lparr>rq_handle := after_success ?h, rq_server := s'\<rparr>\<rparr>"
  have "?ks \<noteq> []" using j(4) by auto
  then have "redis_worker_turn client t1 t1' t2 t2' reg str_of wq i st = (Inr (),
        let st2 = process_message client t2 t2' reg str_of i ?K raw ?st1
        in if 0 < rq_active (qs_world st2) then add_active (-1) st2 else st2)"
    by (simp add: redis_worker_turn_def d [of t1'] Let_def del: map_is_Nil_conv)
  moreover have "job_state qlists wq q base [] x ?st1"
    using j s'(2) after_success_ready [OF j(2), of 0] by (simp add: job_state_def)
  ultimately show ?thesis by (intro exI [of _ ?st1]) simp
qed

lemma turn_finds_nothing:
  assumes "list_server client qlists" "job_state qlists wq q base [] x st" "0 \<le> t1"
  shows "job_state qlists wq q base [] x (snd (redis_worker_turn client t1 t1' t2 t2' reg str_of wq i st))"
proof -
  let ?w = "qs_world st"
  let ?h = "rq_handle ?w" and ?names = "dequeue_queue_names wq (rq_known (qs_world st))"
  let ?ks = "map (queue_key ?h) ?names"
  from assms(2) have j: "qlists (rq_server ?w) = base(queue_key ?h q := [])" "handle_ready 0 ?h" "rq_app ?w = x" "q \<in> set ?names"
    "\<forall>q'\<in>set ?names. base (queue_key ?h q') = []" by (auto simp: job_state_def Let_def)
  have "find (\<lambda>k. qlists (rq_server ?w) k \<noteq> []) ?ks = None"
    unfolding find_None_iff j(1) using j(5) by auto
  with assms(1) obtain s' where s': "rc_blpop client ?ks (rq_server ?w) = (Inr None, s')" "qlists s' = base(queue_key ?h q := [])"
    unfolding list_server_def by (force simp: j(1) dest: spec [of _ ?ks] spec [of _ "rq_server ?w"])
  note d = redis_do_ready [where callback = "rc_blpop client ?ks", OF ready_later [OF j(2) assms(3)] s'(1)]
  have "?ks \<noteq> []" using j(4) by auto
  then have "snd (redis_worker_turn client t1 t1' t2 t2' reg str_of wq i st) =
      st\<lparr>qs_world := ?w\<lparr>rq_handle := after_success ?h, rq_server := s'\<rparr>\<rparr>"
    by (simp add: redis_worker_turn_def d [of t1'] Let_def del: map_is_Nil_conv)
  with j s'(2) after_success_ready [OF j(2), of 0] show ?thesis by (simp add: job_state_def)
qed

lemma length_show_nat_mono: "a \<le> b \<Longrightarrow> length (show_nat a) \<le> length (show_nat b)"
proof (induction b arbitrary: a rule: show_nat.induct)
  case (1 b)
  show ?case
  proof (cases "b < 10 \<or> a < 10")
    case True
    have "1 \<le> length (show_nat b)" by (cases "show_nat b") auto
    moreover have "length (show_nat a) = 1" using True 1(2) by (subst show_nat.simps) auto
    ultimately show ?thesis by simp
  next
    case False
    then have "length (show_nat (a div 10)) \<le> length (show_nat (b div 10))" using 1 by (simp add: div_le_mono)
    with False show ?thesis by (subst (1 2) show_nat.simps) simp
  qed
qed

lemma short_int_less: "0 \<le> a \<Longrightarrow> a \<le> b \<Longrightarrow> short_int b \<Longrightarrow> short_int a"
  using length_show_nat_mono [OF nat_mono, of a b] by (simp add: short_int_def)

text \<open>The job whose message was just written, and the next message of it.\<close>

definition job_ok :: "string list option \<Rightarrow> string \<Rightarrow> kwargs \<Rightarrow> int \<Rightarrow> int \<Rightarrow> bool" where
  "job_ok wq q kw a n = (plain_kwargs kw \<and> set reserved_kwargs \<inter> fst ` set kw = {} \<and> 0 \<le> a \<and> short_int a \<and> short_int n
     \<and> \<not> contains ''queue:'' q)"

definition message_text :: "string \<Rightarrow> kwargs \<Rightarrow> int \<Rightarrow> int \<Rightarrow> string" where
  "message_text name kw a n = json_write (message_value name kw a n)"

lemma queue_message_ok: "job_ok wq q kw a n \<Longrightarrow> queue_message name kw a n = Inr (message_text name kw a n)"
  by (simp add: queue_message_def message_text_def job_ok_def plain_writable message_plain Let_def)

lemma job_ok_next: "job_ok wq q kw a n \<Longrightarrow> a < n \<Longrightarrow> job_ok wq q kw (a + 1) n"
  using short_int_less [of "a + 1" n] by (simp add: job_ok_def)

lemma redis_enqueue_ready:
  assumes "list_server client qlists" "job_state qlists wq q base [] x st" "handle_ready m (rq_handle (qs_world st))"
    and "reg name = Some task" "attempt_metadata task kw0 = Inr (a, n, kw)" "job_ok wq q kw a n"
    and "q = (case queue of Some q \<Rightarrow> q | None \<Rightarrow> rt_default_queue task)"
  shows "\<exists>st'. redis_enqueue client m m' reg name queue kw0 st = (Inr (), st')
    \<and> job_state qlists wq q base [message_text name kw a n] x st'"
proof -
  let ?st1 = "add_known q st"
  let ?w = "qs_world ?st1"
  let ?h = "rq_handle ?w"
  have names: "set (dequeue_queue_names wq (rq_known ?w)) = set (dequeue_queue_names wq (rq_known (qs_world st)))"
    using assms(2) by (cases wq) (auto simp: job_state_def Let_def dequeue_queue_names_def add_known_def)
  from assms(2) have j: "qlists (rq_server ?w) = base(queue_key ?h q := [])" "rq_app ?w = x" "handle_ready 0 ?h"
    "q \<in> set (dequeue_queue_names wq (rq_known ?w))" "\<forall>q'\<in>set (dequeue_queue_names wq (rq_known ?w)). base (queue_key ?h q') = []"
    unfolding names by (auto simp: job_state_def Let_def add_known_def)
  have r: "handle_ready m ?h" using assms(3) by (simp add: add_known_def)
  let ?m = "message_text name kw a n"
  from assms(1) obtain s' where s': "rc_rpush client (queue_key ?h q) ?m (rq_server ?w) = (Inr (), s')"
    "qlists s' = (qlists (rq_server ?w))(queue_key ?h q := qlists (rq_server ?w) (queue_key ?h q) @ [?m])"
    unfolding list_server_def by blast
  then have s2: "qlists s' = base(queue_key ?h q := [?m])" by (simp add: j(1))
  note d = redis_do_ready [where callback = "rc_rpush client (queue_key ?h q) ?m", OF r s'(1)]
  let ?st2 = "?st1\<lparr>qs_world := ?w\<lparr>rq_handle := after_success ?h, rq_server := s'\<rparr>\<rparr>"
  have "redis_enqueue client m m' reg name queue kw0 st =
      (Inr (), tell [Enqueued q name, State name Queued (mk_details q a n None kw)] ?st2)"
    by (simp add: redis_enqueue_def assms(4,5) assms(7) [symmetric] Let_def queue_message_ok [OF assms(6)] d [of m'])
  moreover have "job_state qlists wq q base [?m] x ?st2"
    using j s2 after_success_ready [OF j(3), of 0] by (simp add: job_state_def)
  ultimately show ?thesis by simp
qed

lemma turn_runs_attempt:
  assumes "list_server client qlists" "job_state qlists wq q base [message_text name kw a n] x st" "0 \<le> t1" "0 \<le> t2"
    and "reg name = Some task" "rt_handler task = on_app g" "job_ok wq q kw a n"
    and "g (handler_kwargs task a n kw) x = (r, x')"
  shows "job_state qlists wq q base
     (case r of Inr (Result r) \<Rightarrow> if wants_retry r a n then [message_text name kw (a + 1) n] else [] | _ \<Rightarrow> []) x'
     (snd (redis_worker_turn client t1 t1' t2 t2' reg str_of wq i st))"
proof -
  let ?K = "queue_key (rq_handle (qs_world st)) q" and ?m = "message_text name kw a n"
  have ok: "plain_kwargs kw" "short_int a" "short_int n" "\<not> contains ''queue:'' q" "set reserved_kwargs \<inter> fst ` set kw = {}"
    using assms(7) by (simp_all add: job_ok_def)
  obtain st1 where st1: "job_state qlists wq q base [] x st1"
    and turn: "snd (redis_worker_turn client t1 t1' t2 t2' reg str_of wq i st) =
      (let st2 = process_message client t2 t2' reg str_of i ?K ?m st1
       in if 0 < rq_active (qs_world st2) then add_active (-1) st2 else st2)"
    using turn_takes_message [OF assms(1-3), where t1' = t1' and ?t2.0 = t2 and t2' = t2' and reg = reg and str_of = str_of and i = i]
    by (metis snd_conv)
  obtain ms kwv where ms: "message_value name kw a n = JObject ms" "decode_message reg ms = Some (name, task, kwv, a, n)"
    "kwargs_of kwv = Some kw" by (rule decode_message_value [where reg = reg and name = name and task = task and kw = kw and a = a and n = n, OF assms(5) ok(1)])
  have "json_loads ?m = Inr (JObject ms)"
    unfolding message_text_def using loads_write [OF message_plain [OF ok(1-3), of name]] unfolding ms(1) .
  then obtain crash where proc: "process_message client t2 t2' reg str_of i ?K ?m st1
      = run_job client t2 t2' reg crash name task q kw a n (add_active 1 st1)"
    by (simp add: process_message_def ms(2,3) after_queue_key [OF ok(4)] Let_def)
  define st2 where "st2 = (tell [State name Started (mk_details q a n None kw)] (add_active 1 st1))"
  have "rq_app (qs_world st2) = x" using st1 by (simp add: st2_def job_state_def Let_def add_active_def)
  then have run: "run_handler task name q a n kw (add_active 1 st1) = (r, st2\<lparr>qs_world := (qs_world st2)\<lparr>rq_app := x'\<rparr>\<rparr>)"
    using assms(8) by (simp add: run_handler_def assms(6) on_app_def st2_def)
  let ?st3 = "st2\<lparr>qs_world := (qs_world st2)\<lparr>rq_app := x'\<rparr>\<rparr>"
  have st3: "job_state qlists wq q base [] x' ?st3"
    using st1 by (simp add: st2_def job_state_def Let_def add_active_def)
  have "job_state qlists wq q base
     (case r of Inr (Result r) \<Rightarrow> if wants_retry r a n then [message_text name kw (a + 1) n] else [] | _ \<Rightarrow> []) x'
     (run_job client t2 t2' reg crash name task q kw a n (add_active 1 st1))"
  proof (cases "\<exists>o'. r = Inr (Result o') \<and> wants_retry o' a n")
    case False
    then show ?thesis using st3
      by (auto simp: run_job_def run redis_handle_result_def split: sum.splits outcome.splits)
  next
    case True
    then obtain o' where o': "r = Inr (Result o')" "wants_retry o' a n" by blast
    let ?st4 = "tell [State name RetryScheduled (mk_details q a n (tr_reason o') kw)] ?st3"
    have "a < n" using o'(2) by (simp add: wants_retry_def)
    have am: "attempt_metadata task (retry_kwargs a n kw) = Inr (a + 1, n, kw)"
      by (rule attempt_metadata_retry) (use ok(5) in \<open>auto simp: reserved_kwargs_def\<close>)
    have st4: "job_state qlists wq q base [] x' ?st4" using st3 by simp
    then have "handle_ready t2 (rq_handle (qs_world ?st4))" using ready_later assms(4) by (auto simp: job_state_def Let_def)
    from redis_enqueue_ready [where reg = reg and name = name and task = task and queue = "Some q" and m' = t2',
        OF assms(1) st4 this assms(5) am job_ok_next [OF assms(7) \<open>a < n\<close>]]
    obtain st5 where "redis_enqueue client t2 t2' reg name (Some q) (retry_kwargs a n kw) ?st4 = (Inr (), st5)"
      "job_state qlists wq q base [message_text name kw (a + 1) n] x' st5" by auto
    moreover have "\<not> (\<exists>k\<in>fst ` set kw. k \<in> set reserved_kwargs)" using ok(5) by blast
    ultimately show ?thesis by (simp add: run_job_def run o' redis_handle_result_def Let_def)
  qed
  then show ?thesis by (simp add: turn proc Let_def)
qed

section \<open>The queue in Redis and the queue that runs inline\<close>

text \<open>Turns of workers, at any times and by any workers; extra turns find nothing.\<close>

definition turns ::
  "'r redis_client \<Rightarrow> ('w, 'r) redis_queue_world registry \<Rightarrow> (json \<Rightarrow> string) \<Rightarrow> string list option
     \<Rightarrow> (time \<times> time \<times> time \<times> time \<times> int) list \<Rightarrow> ('w, 'r) redis_queue \<Rightarrow> ('w, 'r) redis_queue" where
  "turns client reg str_of wq ts st =
     fold (\<lambda>(t1, t1', t2, t2', i) st. snd (redis_worker_turn client t1 t1' t2 t2' reg str_of wq i st)) ts st"

definition from_zero :: "(time \<times> time \<times> time \<times> time \<times> int) list \<Rightarrow> bool" where
  "from_zero ts = (\<forall>(t1, _, t2, _, _)\<in>set ts. 0 \<le> t1 \<and> 0 \<le> t2)"

lemma turns_idle:
  assumes "list_server client qlists" "job_state qlists wq q base [] x st" "from_zero ts"
  shows "job_state qlists wq q base [] x (turns client reg str_of wq ts st)"
  using assms(2,3)
proof (induction ts arbitrary: st)
  case (Cons t ts)
  obtain t1 t1' t2 t2' i where t: "t = (t1, t1', t2, t2', i)" by (cases t)
  from turn_finds_nothing [OF assms(1) Cons.prems(1)] Cons show ?case by (simp add: turns_def t from_zero_def)
qed (simp add: turns_def)

lemma turns_run_job:
  assumes "list_server client qlists" "reg name = Some task" "rt_handler task = on_app g"
    and "job_state qlists wq q base [message_text name kw a n] x st" "job_ok wq q kw a n"
    and "from_zero ts" "nat (n - a) < length ts"
  shows "job_state qlists wq q base [] (job_loop g (\<lambda>a n. handler_kwargs task a n kw) a n x) (turns client reg str_of wq ts st)"
  using assms(4-7)
proof (induction ts arbitrary: st a x)
  case (Cons t ts)
  obtain t1 t1' t2 t2' i where t: "t = (t1, t1', t2, t2', i)" by (cases t)
  then have z: "0 \<le> t1" "0 \<le> t2" "from_zero ts" using Cons.prems(3) by (auto simp: from_zero_def)
  obtain r x' where g: "g (handler_kwargs task a n kw) x = (r, x')" by (cases "g (handler_kwargs task a n kw) x")
  let ?st' = "snd (redis_worker_turn client t1 t1' t2 t2' reg str_of wq i st)"
  note step = turn_runs_attempt [where reg = reg and name = name and task = task and g = g and kw = kw and a = a and n = n
      and t1' = t1' and t2' = t2' and str_of = str_of and i = i, OF assms(1) Cons.prems(1) z(1,2) assms(2,3) Cons.prems(2) g]
  have ts: "turns client reg str_of wq (t # ts) st = turns client reg str_of wq ts ?st'" by (simp add: turns_def t)
  show ?case
  proof (cases "\<exists>o'. r = Inr (Result o') \<and> wants_retry o' a n")
    case False
    then have "job_state qlists wq q base [] x' ?st'" using step by (auto split: sum.splits outcome.splits)
    moreover have "job_loop g (\<lambda>a n. handler_kwargs task a n kw) a n x = x'"
      using False g by (subst job_loop.simps) (auto split: sum.splits outcome.splits)
    ultimately show ?thesis using turns_idle [OF assms(1) _ z(3)] ts by metis
  next
    case True
    then obtain o' where o': "r = Inr (Result o')" "wants_retry o' a n" by blast
    then have "a < n" by (simp add: wants_retry_def)
    moreover have "job_state qlists wq q base [message_text name kw (a + 1) n] x' ?st'" using step o' by simp
    ultimately have "job_state qlists wq q base [] (job_loop g (\<lambda>a n. handler_kwargs task a n kw) (a + 1) n x') (turns client reg str_of wq ts ?st')"
      using Cons.prems(4) by (intro Cons.IH job_ok_next [OF Cons.prems(2)] z(3)) auto
    then show ?thesis using o' g ts by (subst job_loop.simps) simp
  qed
qed simp

lemma job_state_lists: "job_state qlists wq q base [] x st \<Longrightarrow> qlists (rq_server (qs_world st)) = base \<and> rq_app (qs_world st) = x"
  by (auto simp: job_state_def Let_def fun_upd_idem)

text \<open>C30: A job that is enqueued in Redis, on a server that keeps its lists and whose watched lists are empty, is run
  by the workers exactly as the queue in process would run it inline: the message is read back with the same
  arguments, queue and attempt numbers, the handler is called with them once per attempt and the result ends the
  job or has it enqueued again, so that the application ends in the same state. As many turns of workers as there
  are attempts left are enough, and they leave the server's lists as they were.\<close>

theorem redis_queue_runs_jobs_like_inline:
  assumes "list_server client qlists" "reg name = Some task" "rt_handler task = on_app g"
    and "inline name = Some itask" "rt_handler itask = on_world g" "rt_default_queue itask = rt_default_queue task"
    and "rt_max_attempts itask = rt_max_attempts task" "rt_pass_retry_metadata itask = rt_pass_retry_metadata task"
    and "attempt_metadata task kw = Inr (a, n, kw')" "q = (case queue of Some q \<Rightarrow> q | None \<Rightarrow> rt_default_queue task)"
    and "job_ok wq q kw' a n" "job_state qlists wq q base [] (qs_world ist) st" "handle_ready m (rq_handle (qs_world st))"
    and "from_zero ts" "nat (n - a) < length ts"
  shows "\<exists>st1. redis_enqueue client m m' reg name queue kw st = (Inr (), st1)
    \<and> rq_app (qs_world (turns client reg str_of wq ts st1)) = qs_world (snd (sync_enqueue inline name queue kw ist))
    \<and> qlists (rq_server (qs_world (turns client reg str_of wq ts st1))) = qlists (rq_server (qs_world st))"
proof -
  from redis_enqueue_ready [where reg = reg and name = name and task = task and queue = queue and m' = m',
      OF assms(1,12,13,2,9,11,10)]
  obtain st1 where st1: "redis_enqueue client m m' reg name queue kw st = (Inr (), st1)"
    "job_state qlists wq q base [message_text name kw' a n] (qs_world ist) st1" by blast
  have "attempt_metadata itask kw = Inr (a, n, kw')"
    using assms(9) by (simp add: attempt_metadata_def assms(7))
  moreover have "handler_kwargs itask = handler_kwargs task" by (simp add: handler_kwargs_def fun_eq_iff assms(8))
  ultimately have inl: "qs_world (snd (sync_enqueue inline name queue kw ist)) =
      job_loop g (\<lambda>a n. handler_kwargs task a n kw') a n (qs_world ist)"
    using sync_loop_job [OF assms(5)] by (simp add: sync_enqueue_def assms(4) Let_def tell_def)
  note run = turns_run_job [where reg = reg and name = name and task = task and kw = kw' and a = a and n = n and g = g
      and str_of = str_of, OF assms(1-3) st1(2) assms(11,14,15)]
  from job_state_lists [OF run] job_state_lists [OF assms(12)] show ?thesis using st1(1) inl by auto
qed

text \<open>A server with lists only, and the job that fails twice.\<close>

definition sample_list_client :: "(string \<Rightarrow> string list) redis_client" where
  "sample_list_client = \<lparr>rc_ping = io_return True, rc_get = (\<lambda>_. io_return None), rc_set_ex = (\<lambda>_ _ _. io_return ()),
     rc_set_nx_ex = (\<lambda>_ _ _. io_return True), rc_delete = (\<lambda>_. io_return ()), rc_incr = (\<lambda>_. io_return 1),
     rc_expire = (\<lambda>_ _. io_return ()), rc_hgetall = (\<lambda>_. io_return []), rc_hdel = (\<lambda>_ _. io_return ()),
     rc_hincrby = (\<lambda>_ _ _. io_return ()), rc_rpush = (\<lambda>k v s. (Inr (), s(k := s k @ [v]))),
     rc_blpop = (\<lambda>ks s. case find (\<lambda>k. s k \<noteq> []) ks of None \<Rightarrow> (Inr None, s)
       | Some k \<Rightarrow> (Inr (Some (k, hd (s k))), s(k := tl (s k)))),
     rc_llen = (\<lambda>k s. (Inr (int (length (s k))), s))\<rparr>"

definition sample_redis_queue :: "(nat, string \<Rightarrow> string list) redis_queue" where
  "sample_redis_queue = \<lparr>qs_queue = [], qs_notes = [], qs_world =
     \<lparr>rq_handle = sample_handle, rq_server = (\<lambda>_. []), rq_known = [''q''], rq_active = 0, rq_app = 5\<rparr>\<rparr>"

definition redis_flaky_task :: "(nat, string \<Rightarrow> string list) redis_queue_world registered_task" where
  "redis_flaky_task = \<lparr>rt_handler = on_app flaky, rt_default_queue = ''q'', rt_max_attempts = 3, rt_pass_retry_metadata = True\<rparr>"

lemma sample_list_server: "list_server sample_list_client (\<lambda>s. s)"
  by (auto simp: list_server_def sample_list_client_def option.case_eq_if)

theorem redis_queue_runs_jobs_like_inline_witness:
  "\<exists>st1. redis_enqueue sample_list_client 0 0 [''t'' \<mapsto> redis_flaky_task] ''t'' None [] sample_redis_queue = (Inr (), st1)
    \<and> rq_app (qs_world (turns sample_list_client [''t'' \<mapsto> redis_flaky_task] (\<lambda>_. []) (Some [''q''])
        (replicate 3 (0, 0, 0, 0, 0)) st1)) = qs_world (snd (sync_enqueue flaky_registry ''t'' None [] (idle 5)))"
proof -
  have job: "job_ok (Some [''q'']) ''q'' [] 1 3"
  proof -
    have "short_int 1" "short_int 3" by (simp_all add: short_int_def show_nat.simps)
    then show ?thesis by (simp add: job_ok_def plain_kwargs_def)
  qed
  have st: "job_state (\<lambda>s. s) (Some [''q'']) ''q'' (\<lambda>_. []) [] (qs_world (idle 5)) sample_redis_queue"
    "handle_ready 0 (rq_handle (qs_world sample_redis_queue))"
    by (simp_all add: job_state_def sample_redis_queue_def sample_handle_def handle_ready_def handle_available_def
      handle_enabled_def dequeue_queue_names_def idle_def fun_eq_iff)
  have am: "attempt_metadata redis_flaky_task [] = Inr (1, 3, [])"
    by (simp add: attempt_metadata_def pop_int_def redis_flaky_task_def)
  have t: "rt_handler redis_flaky_task = on_app flaky" "rt_default_queue flaky_task = rt_default_queue redis_flaky_task"
    "rt_max_attempts flaky_task = rt_max_attempts redis_flaky_task"
    "rt_pass_retry_metadata flaky_task = rt_pass_retry_metadata redis_flaky_task"
    "''q'' = (case None of Some q \<Rightarrow> q | None \<Rightarrow> rt_default_queue redis_flaky_task)"
    by (simp_all add: redis_flaky_task_def flaky_task_def)
  note main = redis_queue_runs_jobs_like_inline [where qlists = "\<lambda>s. s" and client = sample_list_client and g = flaky and a = 1 and n = 3
      and reg = "[''t'' \<mapsto> redis_flaky_task]" and name = "''t''" and task = redis_flaky_task and inline = flaky_registry
      and itask = flaky_task and kw = "[]" and kw' = "[]" and q = "''q''" and queue = None and wq = "Some [''q'']" and base = "\<lambda>_. []"
      and ist = "idle 5" and st = sample_redis_queue and m = 0 and m' = 0 and ts = "replicate 3 (0, 0, 0, 0, 0)" and str_of = "\<lambda>_. []"]
  have "[''t'' \<mapsto> redis_flaky_task] ''t'' = Some redis_flaky_task" "from_zero (replicate 3 (0, 0, 0, 0, 0))"
    "nat (3 - 1) < length (replicate 3 (0 :: int, 0 :: int, 0 :: int, 0 :: int, 0 :: int))"
    by (simp_all add: from_zero_def)
  from main [OF sample_list_server this(1) t(1) flaky_facts(1,2) t(2-4) am t(5) job st this(2,3)] show ?thesis by blast
qed

section \<open>While Redis is away\<close>

lemma enqueue_during_outage:
  assumes "reg name = Some task" "attempt_metadata task kw = Inr (a, n, kw')"
    and "handle_enabled (rq_handle (qs_world st))" "\<not> handle_available m (rq_handle (qs_world st))"
    and "queue_message name kw' a n = Inr msg"
  shows "redis_enqueue client m m' reg name (Some q) kw st =
    (Inr (), tell [Enqueued q name, State name Queued (mk_details q (max 1 a) (max 1 n) None kw')]
      ((add_known q st)\<lparr>qs_queue := qs_queue st @
        [\<lparr>qt_task_name = name, qt_kwargs = kw', qt_attempt = max 1 a, qt_max_attempts = max 1 n\<rparr>]\<rparr>))"
proof -
  have x: "handle_execute m m' callback (rq_handle (qs_world st)) s =
      (Inl (RedisUnavailable ''Redis is temporarily unavailable.''), rq_handle (qs_world st), s)" for callback :: "'r \<Rightarrow> (err + unit) \<times> 'r" and s
    using assms(3,4) by (simp add: handle_execute_def get_client_def)
  have "attempt_metadata task (with_attempts a n kw') = Inr (a, n, kw')"
    using attempt_metadata_retry [of kw' task "a - 1" n] attempt_metadata_clean [OF assms(2)]
    by (simp add: with_attempts_def retry_kwargs_def)
  then show ?thesis
    using assms(1,2) by (simp add: redis_enqueue_def Let_def assms(5) redis_do_def x async_enqueue_def add_known_def)
qed

text \<open>A message that cannot be read ends, in the \<^verbatim>\<open>finally\<close>, a job that it never began: the count of active jobs, by which
  \<^verbatim>\<open>join\<close> decides, loses a job that another worker is still running.\<close>

lemma unreadable_message_uncounts_a_job:
  assumes "json_loads raw = Inl e" "dequeue_queue_names wq (rq_known (qs_world st)) \<noteq> []"
    and "redis_do m1 m1' (rc_blpop client (map (queue_key (rq_handle (qs_world st))) (dequeue_queue_names wq (rq_known (qs_world st))))) st
      = (Inr (Some (key, raw)), st1)" "0 < rq_active (qs_world st1)"
  shows "rq_active (qs_world (snd (redis_worker_turn client m1 m1' m2 m2' reg str_of wq i st))) = rq_active (qs_world st1) - 1"
  using assms by (simp add: redis_worker_turn_def process_message_def add_active_def Let_def)

end
