(* ===== verification/Worker_Pool.thy ===== *)
theory Worker_Pool
  imports Task_Props Thumb_Facts
begin

text \<open>
  Several workers of \<^verbatim>\<open>AsyncTaskQueue\<close> on one queue, in any interleaving, with the handlers that the program registers. What was
  asked for, taken and run is kept as a history beside the state; what the queue owes for it is computed from the
  requests and the answers of the handlers alone.
\<close>

section \<open>The pool\<close>

text \<open>
  The application enqueues, a free worker takes the first item, a running item is finished (its handler's effects, its notes
  and its retry happen then). \<open>regs t\<close> are the tasks with the clock readings \<open>t\<close>.
\<close>

datatype 's pool_event =
    Asked "'s registry" string kwargs
  | Took queued_task
  | Ran queued_task "err + outcome" "queued_task list" 's

type_synonym 's pool = "'s queue_state \<times> queued_task list \<times> 's pool_event list"

text \<open>The call of the handler in a turn.\<close>

definition turn_call :: "'s registry \<Rightarrow> queued_task \<Rightarrow> 's queue_state \<Rightarrow> (err + outcome) \<times> 's queue_state" where
  "turn_call reg item st =
     (case reg (qt_task_name item) of
        None \<Rightarrow> (Inl (KeyError (qt_task_name item)), st)
      | Some task \<Rightarrow> run_handler task (qt_task_name item) (rt_default_queue task) (qt_attempt item) (qt_max_attempts item)
          (qt_kwargs item) st)"

definition ran_event :: "'s registry \<Rightarrow> queued_task \<Rightarrow> 's queue_state \<Rightarrow> 's pool_event" where
  "ran_event reg item st = (case turn_call reg item st of
     (r, st1) \<Rightarrow> Ran item r (drop (length (qs_queue st)) (qs_queue st1)) (qs_world st1))"

inductive pool_step :: "('t \<Rightarrow> 's registry) \<Rightarrow> nat \<Rightarrow> 's pool \<Rightarrow> 's pool \<Rightarrow> bool" for regs workers where
  enqueue: "async_enqueue (regs t) name q kw st = (r, st')
    \<Longrightarrow> pool_step regs workers (st, run, h) (st', run, h @ [Asked (regs t) name kw])"
| take: "qs_queue st = item # rest \<Longrightarrow> length run < workers
    \<Longrightarrow> pool_step regs workers (st, run, h) (st\<lparr>qs_queue := rest\<rparr>, item # run, h @ [Took item])"
| finish: "item \<in> set run
    \<Longrightarrow> pool_step regs workers (st, run, h) (worker_turn (regs t) item st, remove1 item run, h @ [ran_event (regs t) item st])"

inductive pool_reach :: "('t \<Rightarrow> 's registry) \<Rightarrow> nat \<Rightarrow> 's \<Rightarrow> 's pool \<Rightarrow> bool" for regs workers w0 where
  init: "pool_reach regs workers w0 (\<lparr>qs_queue = [], qs_notes = [], qs_world = w0\<rparr>, [], [])"
| step: "pool_reach regs workers w0 p \<Longrightarrow> pool_step regs workers p p' \<Longrightarrow> pool_reach regs workers w0 p'"

inductive_cases pool_stepE: "pool_step regs workers (st, run, h) p'"

lemma pool_step_cases:
  assumes "pool_step regs workers (st, run, h) p'"
  obtains (enq) t name q kw r st' where "p' = (st', run, h @ [Asked (regs t) name kw])" "async_enqueue (regs t) name q kw st = (r, st')"
  | (take) item rest where "p' = (st\<lparr>qs_queue := rest\<rparr>, item # run, h @ [Took item])" "qs_queue st = item # rest" "length run < workers"
  | (fin) t item where "p' = (worker_turn (regs t) item st, remove1 item run, h @ [ran_event (regs t) item st])" "item \<in> set run"
  using assms by (auto elim!: pool_stepE)

section \<open>What the queue owes\<close>

text \<open>A request for a known task, with attempt numbers that can be read, is owed one item.\<close>

definition asked_items :: "'s registry \<Rightarrow> string \<Rightarrow> kwargs \<Rightarrow> queued_task list" where
  "asked_items reg name kw =
     (case reg name of
        None \<Rightarrow> []
      | Some task \<Rightarrow> (case attempt_metadata task kw of
          Inl _ \<Rightarrow> []
        | Inr (a, m, kw') \<Rightarrow> [\<lparr>qt_task_name = name, qt_kwargs = kw', qt_attempt = max 1 a, qt_max_attempts = max 1 m\<rparr>]))"

definition asks_again :: "queued_task \<Rightarrow> err + outcome \<Rightarrow> bool" where
  "asks_again i r = (case r of Inr (Result res) \<Rightarrow> wants_retry res (qt_attempt i) (qt_max_attempts i) | _ \<Rightarrow> False)"

text \<open>A run is owed what its handler enqueued and, if it asked for another attempt, the same item with the next number.\<close>

fun owed :: "'s pool_event \<Rightarrow> queued_task list" where
  "owed (Asked reg name kw) = asked_items reg name kw"
| "owed (Took i) = []"
| "owed (Ran i r spawned w) = spawned @ (if asks_again i r then [i\<lparr>qt_attempt := qt_attempt i + 1\<rparr>] else [])"

fun took :: "'s pool_event \<Rightarrow> queued_task list" where
  "took (Took i) = [i]"
| "took _ = []"

fun ran :: "'s pool_event \<Rightarrow> queued_task list" where
  "ran (Ran i r spawned w) = [i]"
| "ran _ = []"

fun retried :: "'s pool_event \<Rightarrow> bool" where
  "retried (Ran i r spawned w) = asks_again i r"
| "retried _ = False"

fun world_after :: "'s pool_event \<Rightarrow> 's \<Rightarrow> 's" where
  "world_after (Ran i r spawned w) _ = w"
| "world_after _ w = w"

definition all_of :: "('s pool_event \<Rightarrow> queued_task list) \<Rightarrow> 's pool_event list \<Rightarrow> queued_task list" where
  "all_of f h = concat (map f h)"

lemma all_of_simps [simp]: "all_of f [] = []" "all_of f (h @ [e]) = all_of f h @ f e"
  by (simp_all add: all_of_def)

definition retry_count :: "tnote list \<Rightarrow> nat" where
  "retry_count ns = length (filter (\<lambda>n. \<exists>name d. n = State name RetryScheduled d) ns)"

lemma retry_count_simps [simp]:
  "retry_count [] = 0" "retry_count (xs @ ys) = retry_count xs + retry_count ys"
  "retry_count (State n s d # ns) = (if s = RetryScheduled then 1 else 0) + retry_count ns"
  "retry_count (Enqueued x y # ns) = retry_count ns" "retry_count (Failure n d # ns) = retry_count ns"
  by (simp_all add: retry_count_def)

lemma ends_simps [simp]: "\<not> ends Queued" "\<not> ends Started" "\<not> ends RetryScheduled" "ends Skipped" "ends Succeeded"
  "ends FailedPermanent" "ends FailedExhausted"
  by (simp_all add: ends_def)

section \<open>Handlers that keep the queue\<close>

text \<open>An item as \<^verbatim>\<open>enqueue\<close> builds it, of a task that is always registered.\<close>

definition item_ok :: "('t \<Rightarrow> 's registry) \<Rightarrow> queued_task \<Rightarrow> bool" where
  "item_ok regs i \<longleftrightarrow> (\<forall>t. regs t (qt_task_name i) \<noteq> None) \<and> 1 \<le> qt_attempt i \<and> 1 \<le> qt_max_attempts i
     \<and> ''_task_attempt'' \<notin> fst ` set (qt_kwargs i) \<and> ''_task_max_attempts'' \<notin> fst ` set (qt_kwargs i)"

text \<open>A handler may enqueue, and reports no start, end or retry of its own; its result has a state of the program's handlers.\<close>

definition keeps_queue :: "('t \<Rightarrow> 's registry) \<Rightarrow> 's handler \<Rightarrow> bool" where
  "keeps_queue regs f \<longleftrightarrow> (\<forall>kw st. \<exists>spawned ns.
     qs_queue (snd (f kw st)) = qs_queue st @ spawned \<and> (\<forall>i\<in>set spawned. item_ok regs i)
     \<and> qs_notes (snd (f kw st)) = qs_notes st @ ns \<and> started_attempts ns = [] \<and> end_states ns = [] \<and> retry_count ns = 0
     \<and> (\<forall>r. fst (f kw st) = Inr (Result r) \<longrightarrow> tr_state r \<in> {Skipped, RetryScheduled, Succeeded, FailedPermanent, FailedExhausted}))"

definition tasks_keep_queue :: "('t \<Rightarrow> 's registry) \<Rightarrow> bool" where
  "tasks_keep_queue regs \<longleftrightarrow> (\<forall>t u. dom (regs t) = dom (regs u))
     \<and> (\<forall>t name task. regs t name = Some task \<longrightarrow> keeps_queue regs (rt_handler task))"

lemma on_world_keeps_queue:
  assumes "\<And>kw w r. fst (g kw w) = Inr (Result r) \<Longrightarrow> tr_state r \<in> {Skipped, RetryScheduled, Succeeded, FailedPermanent, FailedExhausted}"
  shows "keeps_queue regs (on_world g)"
  using assms by (auto simp: keeps_queue_def on_world_def intro!: exI [of _ "[]"])

lemma async_enqueue_effect:
  assumes "async_enqueue reg name q kw st = (r, st')"
  shows "qs_queue st' = qs_queue st @ asked_items reg name kw" "qs_world st' = qs_world st"
    "\<exists>ns. qs_notes st' = qs_notes st @ ns \<and> started_attempts ns = [] \<and> end_states ns = [] \<and> retry_count ns = 0"
  using assms by (auto simp: async_enqueue_def asked_items_def Let_def split: option.splits sum.splits)

lemma asked_items_ok:
  assumes "\<forall>t u. dom (regs t) = dom (regs u)" "i \<in> set (asked_items (regs t) name kw)"
  shows "item_ok regs i"
proof -
  have "regs u name \<noteq> None" if "regs t name \<noteq> None" for u using assms(1) that by (metis domIff)
  moreover from assms(2) obtain task where t: "regs t name = Some task" by (cases "regs t name") (auto simp: asked_items_def)
  moreover from assms(2) t obtain a m kw' where meta: "attempt_metadata task kw = Inr (a, m, kw')"
    by (cases "attempt_metadata task kw") (auto simp: asked_items_def)
  moreover from assms(2) t meta have "i = \<lparr>qt_task_name = name, qt_kwargs = kw', qt_attempt = max 1 a, qt_max_attempts = max 1 m\<rparr>"
    by (simp add: asked_items_def)
  moreover from attempt_metadata_clean [OF meta] have "''_task_attempt'' \<notin> fst ` set kw'" "''_task_max_attempts'' \<notin> fst ` set kw'" by blast+
  ultimately show ?thesis by (simp add: item_ok_def)
qed

text \<open>A turn without another attempt ends in one final report.\<close>

lemma last_notes:
  assumes "\<not> asks_again item r"
    and "\<And>res. r = Inr (Result res) \<Longrightarrow> tr_state res \<in> {Skipped, RetryScheduled, Succeeded, FailedPermanent, FailedExhausted}"
  obtains ns where "snd (case (r, st1) of
      (Inl e, st1) \<Rightarrow> (Inr () :: err + unit, tell (crash_notes (qt_task_name item) q (qt_attempt item) (qt_max_attempts item) (qt_kwargs item) e) st1)
    | (Inr out, st1) \<Rightarrow> handle_task_result reg q item out st1) = tell ns st1"
    "started_attempts ns = []" "length (end_states ns) = 1" "retry_count ns = 0"
proof (cases r)
  case (Inl e)
  with crash_note_counts show ?thesis by (intro that) (auto simp: crash_notes_def Let_def)
next
  case (Inr out)
  show ?thesis
  proof (cases out)
    case OtherValue
    with Inr show ?thesis by (intro that) (auto simp: handle_task_result_def end_notes_def Let_def)
  next
    case (Result res)
    with Inr assms have "\<not> wants_retry res (qt_attempt item) (qt_max_attempts item)"
      "tr_state res \<in> {Skipped, RetryScheduled, Succeeded, FailedPermanent, FailedExhausted}" by (auto simp: asks_again_def)
    with Inr Result show ?thesis
      by (intro that [of "end_notes (qt_task_name item) q (qt_attempt item) (qt_max_attempts item) (qt_kwargs item) (Result res)"])
        (auto simp: handle_task_result_def end_notes_def terminal_state_def is_failure_def Let_def)
  qed
qed

text \<open>A turn pays what is owed for it, and reports one start and one end or retry.\<close>

lemma turn_effect:
  fixes regs :: "'t \<Rightarrow> 's registry" and t :: 't and st :: "'s queue_state"
  assumes keep: "tasks_keep_queue regs" and item: "item_ok regs item"
  defines "e \<equiv> ran_event (regs t) item st" and "st' \<equiv> worker_turn (regs t) item st"
  shows "qs_queue st' = qs_queue st @ owed e" "\<forall>i\<in>set (owed e). item_ok regs i" "qs_world st' = world_after e (qs_world st)"
    "\<exists>ns. qs_notes st' = qs_notes st @ ns \<and> length (started_attempts ns) = 1
       \<and> length (end_states ns) + retry_count ns = 1 \<and> retry_count ns = (if retried e then 1 else 0)"
proof -
  let ?name = "qt_task_name item" and ?kw = "qt_kwargs item" and ?a = "qt_attempt item" and ?m = "qt_max_attempts item"
  from item obtain task where task: "regs t ?name = Some task" unfolding item_ok_def by blast
  let ?q = "rt_default_queue task"
  let ?start = "State ?name Started (mk_details ?q ?a ?m None ?kw)"
  obtain r st1 where call: "run_handler task ?name ?q ?a ?m ?kw st = (r, st1)" by fastforce
  let ?kw' = "handler_kwargs task ?a ?m ?kw" and ?st0 = "tell [?start] st"
  have call': "rt_handler task ?kw' ?st0 = (r, st1)" using call by (simp add: run_handler_def)
  from keep task have "keeps_queue regs (rt_handler task)" by (auto simp: tasks_keep_queue_def)
  from this [unfolded keeps_queue_def, rule_format, of ?kw' ?st0] obtain spawned ns where
    kept: "qs_queue st1 = qs_queue st @ spawned" "\<forall>i\<in>set spawned. item_ok regs i"
      "qs_notes st1 = qs_notes st @ ?start # ns" "started_attempts ns = []" "end_states ns = []" "retry_count ns = 0"
    and state: "\<And>res. r = Inr (Result res) \<Longrightarrow> tr_state res \<in> {Skipped, RetryScheduled, Succeeded, FailedPermanent, FailedExhausted}"
    unfolding call' by auto
  have e: "e = Ran item r spawned (qs_world st1)" by (simp add: e_def ran_event_def turn_call_def task call kept(1))
  have wt: "st' = snd (execute_task (regs t) task ?q item st)" by (simp add: st'_def worker_turn_def task)
  have "qs_queue st' = qs_queue st @ owed e \<and> (\<forall>i\<in>set (owed e). item_ok regs i) \<and> qs_world st' = world_after e (qs_world st)
    \<and> (\<exists>ns. qs_notes st' = qs_notes st @ ns \<and> length (started_attempts ns) = 1
       \<and> length (end_states ns) + retry_count ns = 1 \<and> retry_count ns = (if retried e then 1 else 0))"
  proof (cases "asks_again item r")
    case False
    have run: "st' = snd (case (r, st1) of
        (Inl e, st1) \<Rightarrow> (Inr () :: err + unit, tell (crash_notes ?name ?q ?a ?m ?kw e) st1)
      | (Inr out, st1) \<Rightarrow> handle_task_result (regs t) ?q item out st1)"
      unfolding wt by (simp add: execute_task_def call Let_def)
    obtain ns' where st': "st' = tell ns' st1" "started_attempts ns' = []" "length (end_states ns') = 1" "retry_count ns' = 0"
      unfolding run by (rule last_notes [OF False state, where q = ?q and reg = "regs t" and ?st1.0 = st1])
    with False kept show ?thesis by (intro conjI exI [of _ "?start # ns @ ns'"]) (simp_all add: e)
  next
    case True
    then obtain res where res: "r = Inr (Result res)" "wants_retry res ?a ?m"
      by (auto simp: asks_again_def split: sum.splits outcome.splits)
    let ?st2 = "tell [State ?name RetryScheduled (mk_details ?q ?a ?m (tr_reason res) ?kw)] st1"
    have again: "async_enqueue (regs t) ?name (Some ?q) (retry_kwargs ?a ?m ?kw) ?st2 = (fst (async_enqueue (regs t) ?name (Some ?q) (retry_kwargs ?a ?m ?kw) ?st2), st')"
      unfolding wt by (simp add: execute_task_def call res handle_task_result_def Let_def)
    have "asked_items (regs t) ?name (retry_kwargs ?a ?m ?kw) = [item\<lparr>qt_attempt := ?a + 1\<rparr>]"
      using item by (simp add: asked_items_def task attempt_metadata_retry item_ok_def)
    with async_enqueue_effect [OF again] obtain ns' where "qs_queue st' = qs_queue st1 @ [item\<lparr>qt_attempt := ?a + 1\<rparr>]"
      "qs_world st' = qs_world st1" "qs_notes st' = qs_notes ?st2 @ ns'" "started_attempts ns' = []" "end_states ns' = []" "retry_count ns' = 0"
      by auto
    with True kept item show ?thesis
      by (intro conjI exI [of _ "?start # ns @ State ?name RetryScheduled (mk_details ?q ?a ?m (tr_reason res) ?kw) # ns'"])
        (simp_all add: e item_ok_def)
  qed
  then show "qs_queue st' = qs_queue st @ owed e" "\<forall>i\<in>set (owed e). item_ok regs i" "qs_world st' = world_after e (qs_world st)"
    "\<exists>ns. qs_notes st' = qs_notes st @ ns \<and> length (started_attempts ns) = 1
       \<and> length (end_states ns) + retry_count ns = 1 \<and> retry_count ns = (if retried e then 1 else 0)" by blast+
qed

section \<open>The books of the pool\<close>

definition pool_inv :: "('t \<Rightarrow> 's registry) \<Rightarrow> nat \<Rightarrow> 's \<Rightarrow> 's pool \<Rightarrow> bool" where
  "pool_inv regs workers w0 p \<longleftrightarrow> (case p of (st, run, h) \<Rightarrow>
     length run \<le> workers
     \<and> all_of owed h = all_of took h @ qs_queue st
     \<and> mset (all_of took h) = mset run + mset (all_of ran h)
     \<and> qs_world st = fold world_after h w0
     \<and> length (started_attempts (qs_notes st)) = length (all_of ran h)
     \<and> length (end_states (qs_notes st)) + retry_count (qs_notes st) = length (all_of ran h)
     \<and> retry_count (qs_notes st) = length (filter retried h)
     \<and> (\<forall>i\<in>set (qs_queue st) \<union> set run. item_ok regs i))"

lemma ran_event_sel [simp]: "took (ran_event reg item st) = []" "ran (ran_event reg item st) = [item]"
  by (simp_all add: ran_event_def split: prod.split)

lemma pool_inv_step:
  assumes keep: "tasks_keep_queue regs" and inv: "pool_inv regs workers w0 p" and "pool_step regs workers p p'"
  shows "pool_inv regs workers w0 p'"
proof -
  obtain st run h where p: "p = (st, run, h)" by (metis prod_cases3)
  note inv = inv [unfolded p pool_inv_def prod.case]
  from assms(3) [unfolded p] show ?thesis
  proof (cases rule: pool_step_cases)
    case (enq t name q kw r st')
    have "\<forall>i\<in>set (asked_items (regs t) name kw). item_ok regs i"
      using keep by (intro ballI asked_items_ok) (auto simp: tasks_keep_queue_def)
    with async_enqueue_effect [OF enq(2)] inv show ?thesis by (auto simp: enq(1) pool_inv_def)
  next
    case (take item rest)
    with inv show ?thesis by (auto simp: take(1) pool_inv_def)
  next
    case (fin t item)
    with inv have ok: "item_ok regs item" by blast
    note eff = turn_effect [OF keep ok, of t st]
    have len: "length run = Suc (length (remove1 item run))" and sub: "set (remove1 item run) \<subseteq> set run"
      using fin(2) by (simp_all add: length_remove1 set_remove1_subset) (metis Suc_pred length_pos_if_in_set)
    let ?e = "ran_event (regs t) item st" and ?st = "worker_turn (regs t) item st"
    from eff(4) obtain ns where ns: "qs_notes ?st = qs_notes st @ ns" "length (started_attempts ns) = 1"
      "length (end_states ns) + retry_count ns = 1" "retry_count ns = (if retried ?e then 1 else 0)" by blast
    have items: "\<forall>i\<in>set (qs_queue ?st) \<union> set (remove1 item run). item_ok regs i"
      using inv eff(1,2) sub by (auto simp del: owed.simps)
    have "all_of owed (h @ [?e]) = all_of took (h @ [?e]) @ qs_queue ?st"
      "mset (all_of took (h @ [?e])) = mset (remove1 item run) + mset (all_of ran (h @ [?e]))"
      "qs_world ?st = fold world_after (h @ [?e]) w0"
      using inv eff(1,3) fin(2) by simp_all
    with inv len ns items show ?thesis by (simp add: fin(1) pool_inv_def)
  qed
qed

text \<open>C20: In every state that a pool of workers can reach, by any interleaving of requests, of workers taking items and of
  finished runs, no more items run than there are workers, and the books balance: the items owed so far (one
  for each request that could be read, those that a handler enqueued, and the same item with the next attempt number for
  each handler that asked for another attempt while one was left), in this order, are those that were taken, in the order
  they were taken, followed by those that wait; and each item taken is running or has been run, once. The state of the
  application is what the calls of the handlers made of it, one after the other. Each run is reported
  started once, and then ended or, exactly when it is queued again, due for a retry. So no request and no retry is lost,
  and none is run twice. Handlers may enqueue and do what they like to the application.\<close>

theorem pool_loses_nothing:
  assumes "tasks_keep_queue regs" and "pool_reach regs workers w0 (st, run, h)"
  shows "length run \<le> workers
    \<and> all_of owed h = all_of took h @ qs_queue st
    \<and> mset (all_of took h) = mset run + mset (all_of ran h)
    \<and> qs_world st = fold world_after h w0
    \<and> length (started_attempts (qs_notes st)) = length (all_of ran h)
    \<and> length (end_states (qs_notes st)) + retry_count (qs_notes st) = length (all_of ran h)
    \<and> retry_count (qs_notes st) = length (filter retried h)"
proof -
  have "pool_inv regs workers w0 p" if "pool_reach regs workers w0 p" for p
    using that
  proof induction
    case init
    show ?case by (simp add: pool_inv_def)
  next
    case (step p p')
    then show ?case using pool_inv_step [OF assms(1)] by blast
  qed
  from this [OF assms(2)] show ?thesis by (simp add: pool_inv_def)
qed

section \<open>The tasks of the program\<close>

text \<open>\<^verbatim>\<open>AppState.recover_thumbnails\<close> and \<^verbatim>\<open>uploads.prune_expired_albums\<close> called with a task's keyword arguments; the first enqueues
  on the queue it is run from. With other arguments Python raises \<^verbatim>\<open>TypeError\<close>.\<close>

definition enqueue_recovery :: "world registry \<Rightarrow> string \<Rightarrow> string \<Rightarrow> (queued_task list \<times> tnote list) \<times> world
    \<Rightarrow> (err + unit) \<times> (queued_task list \<times> tnote list) \<times> world" where
  "enqueue_recovery reg mid cid = (\<lambda>((queue, notes), w).
     case async_enqueue reg (ts_name generate_thumbnail_task) None [(''media_id'', AStr mid), (''correlation_id'', AStr cid)]
         \<lparr>qs_queue = queue, qs_notes = notes, qs_world = w\<rparr> of
       (r, st) \<Rightarrow> (r, (qs_queue st, qs_notes st), qs_world st))"

definition recover_handler :: "world registry \<Rightarrow> world handler" where
  "recover_handler reg kw st =
     (case kw of
        [(key, ABool include_failed)] \<Rightarrow>
          if key = ''include_failed'' then
            (case recover_thumbnails (enqueue_recovery reg) include_failed ((qs_queue st, qs_notes st), qs_world st) of
               (r, (queue, notes), w) \<Rightarrow> (map_sum id (\<lambda>_. OtherValue) r, \<lparr>qs_queue = queue, qs_notes = notes, qs_world = w\<rparr>))
          else (Inl (TypeError ''arguments''), st)
      | _ \<Rightarrow> (Inl (TypeError ''arguments''), st))"

definition prune_handler :: "time \<times> time \<Rightarrow> int \<Rightarrow> world handler" where
  "prune_handler clocks retention kw st =
     (let run = (\<lambda>dry_run. (Inr OtherValue, st\<lparr>qs_world := snd (prune_expired_albums (fst clocks) (snd clocks) retention dry_run (qs_world st))\<rparr>)) in
      case kw of
        [] \<Rightarrow> run False
      | [(key, ABool dry_run)] \<Rightarrow> if key = ''dry_run'' then run dry_run else (Inl (TypeError ''arguments''), st)
      | _ \<Rightarrow> (Inl (TypeError ''arguments''), st))"

text \<open>The registry of \<^verbatim>\<open>AppState\<close>. Enqueueing looks up the queue and the attempts of a task only, so the registry that recovery
  enqueues by may have any handlers.\<close>

definition core_registry :: "(string \<Rightarrow> err + int) \<Rightarrow> processors \<Rightarrow> int \<Rightarrow> time \<times> time \<Rightarrow> world registry" where
  "core_registry cfg procs retention clocks =
     register_core_tasks (thumbnail_handler cfg procs)
       (recover_handler (register_core_tasks (thumbnail_handler cfg procs) (\<lambda>_ st. (Inr OtherValue, st)) (prune_handler clocks retention) Map.empty))
       (prune_handler clocks retention) Map.empty"

lemma core_task:
  "core_registry cfg procs retention clocks name = Some task \<longleftrightarrow>
     name = ''generate_thumbnail'' \<and> task = \<lparr>rt_handler = thumbnail_handler cfg procs, rt_default_queue = ''thumbnails'',
       rt_max_attempts = 3, rt_pass_retry_metadata = True\<rparr>
   \<or> name = ''recover_thumbnails'' \<and> task = \<lparr>rt_handler = recover_handler (register_core_tasks (thumbnail_handler cfg procs)
         (\<lambda>_ st. (Inr OtherValue, st)) (prune_handler clocks retention) Map.empty), rt_default_queue = ''thumbnails'',
       rt_max_attempts = 1, rt_pass_retry_metadata = False\<rparr>
   \<or> name = ''prune_expired_albums'' \<and> task = \<lparr>rt_handler = prune_handler clocks retention, rt_default_queue = ''cleanup'',
       rt_max_attempts = 1, rt_pass_retry_metadata = False\<rparr>"
  by (auto simp: core_registry_def register_core_tasks_def register_def generate_thumbnail_task_def recover_thumbnails_task_def
      prune_expired_albums_task_def)

lemma core_names: "core_registry cfg procs retention clocks name \<noteq> None \<longleftrightarrow>
    name \<in> {''generate_thumbnail'', ''recover_thumbnails'', ''prune_expired_albums''}"
  by (auto simp: core_task)

lemma thumbnail_states:
  "generate_thumbnail cfg procs mid cid a n w = (Inr r, w') \<Longrightarrow>
     tr_state r \<in> {Skipped, RetryScheduled, Succeeded, FailedPermanent, FailedExhausted}"
  by (auto simp: generate_thumbnail_def skipped_def thumbnail_retry_def thumbnail_failed_def Let_def
      split: option.splits if_splits sum.splits prod.splits)

lemma thumbnail_keeps_queue: "keeps_queue regs (thumbnail_handler cfg procs)"
  unfolding keeps_queue_def thumbnail_handler_def
  by (intro allI exI [of _ "[]"]) (auto split: option.splits arg.splits prod.splits sum.splits dest: thumbnail_states)

lemma prune_keeps_queue: "keeps_queue regs (prune_handler clocks retention)"
  unfolding keeps_queue_def prune_handler_def Let_def
  by (intro allI exI [of _ "[]"]) (auto split: list.splits arg.splits)

lemma enqueue_recovery_effect:
  assumes "\<And>i. i \<in> set (asked_items reg ''generate_thumbnail'' [(''media_id'', AStr mid), (''correlation_id'', AStr cid)]) \<Longrightarrow> item_ok regs i"
    and "enqueue_recovery reg mid cid ((q, ns), w) = (r, (q', ns'), w')"
  shows "\<exists>spawned more_ns. q' = q @ spawned \<and> (\<forall>i\<in>set spawned. item_ok regs i)
    \<and> ns' = ns @ more_ns \<and> started_attempts more_ns = [] \<and> end_states more_ns = [] \<and> retry_count more_ns = 0"
proof -
  obtain r0 st where a: "async_enqueue reg ''generate_thumbnail'' None [(''media_id'', AStr mid), (''correlation_id'', AStr cid)]
      \<lparr>qs_queue = q, qs_notes = ns, qs_world = w\<rparr> = (r0, st)" by fastforce
  with assms(2) have "q' = qs_queue st" "ns' = qs_notes st" by (auto simp: enqueue_recovery_def generate_thumbnail_task_def)
  with async_enqueue_effect [OF a] assms(1) show ?thesis by auto
qed

lemma recover_loop_keeps_queue:
  assumes "\<And>mid cid i. i \<in> set (asked_items reg ''generate_thumbnail'' [(''media_id'', AStr mid), (''correlation_id'', AStr cid)]) \<Longrightarrow> item_ok regs i"
    and "recover_loop (enqueue_recovery reg) inc ms seen n ((q, ns), w) = (r, (q', ns'), w')"
  shows "\<exists>spawned more_ns. q' = q @ spawned \<and> (\<forall>i\<in>set spawned. item_ok regs i)
    \<and> ns' = ns @ more_ns \<and> started_attempts more_ns = [] \<and> end_states more_ns = [] \<and> retry_count more_ns = 0"
  using assms(2)
proof (induction ms arbitrary: seen n q ns w)
  case Nil
  then show ?case by (intro exI [of _ "[]"]) simp
next
  case (Cons m ms)
  show ?case
  proof (cases "md_id m \<in> set seen")
    case True
    with Cons show ?thesis by simp
  next
    case False
    let ?u = "if inc \<and> md_thumb_status m = ''failed''
              then and_then (update_media_row (m\<lparr>md_thumb_status := ''pending''\<rparr>) (w_db w)) (\<lambda>(_, d). Inr (with_db w d)) else Inr w"
    note run = Cons.prems [unfolded recover_loop.simps if_not_P [OF False] fst_conv snd_conv]
    show ?thesis
    proof (cases ?u)
      case (Inl e)
      with run show ?thesis by (intro exI [of _ "[]"]) simp
    next
      case (Inr w1)
      obtain r1 q1 ns1 w2 where e: "enqueue_recovery reg (md_id m) (''recovery-'' @ md_id m) ((q, ns), w1) = (r1, (q1, ns1), w2)"
        by (metis prod.collapse)
      obtain sp1 mn1 where one: "q1 = q @ sp1" "\<forall>i\<in>set sp1. item_ok regs i"
        "ns1 = ns @ mn1" "started_attempts mn1 = []" "end_states mn1 = []" "retry_count mn1 = 0"
        using enqueue_recovery_effect [OF _ e, of regs] assms(1) by blast
      show ?thesis
      proof (cases r1)
        case r1: (Inl e1)
        with run Inr e one show ?thesis by auto
      next
        case r1: (Inr u)
        with run Inr e have "recover_loop (enqueue_recovery reg) inc ms (md_id m # seen) (n + 1) ((q1, ns1), w2) = (r, (q', ns'), w')" by simp
        from Cons.IH [OF this] obtain sp mn where "q' = q1 @ sp" "\<forall>i\<in>set sp. item_ok regs i" "ns' = ns1 @ mn"
          "started_attempts mn = []" "end_states mn = []" "retry_count mn = 0" by blast
        with one show ?thesis by (intro exI [of _ "sp1 @ sp"] exI [of _ "mn1 @ mn"]) auto
      qed
    qed
  qed
qed

lemma recover_keeps_queue:
  assumes "\<And>mid cid i. i \<in> set (asked_items reg ''generate_thumbnail'' [(''media_id'', AStr mid), (''correlation_id'', AStr cid)]) \<Longrightarrow> item_ok regs i"
  shows "keeps_queue regs (recover_handler reg)"
  unfolding keeps_queue_def
proof (intro allI)
  fix kw :: kwargs and st :: "world queue_state"
  let ?goal = "\<exists>spawned ns. qs_queue (snd (recover_handler reg kw st)) = qs_queue st @ spawned \<and> (\<forall>i\<in>set spawned. item_ok regs i)
     \<and> qs_notes (snd (recover_handler reg kw st)) = qs_notes st @ ns \<and> started_attempts ns = [] \<and> end_states ns = [] \<and> retry_count ns = 0
     \<and> (\<forall>r. fst (recover_handler reg kw st) = Inr (Result r) \<longrightarrow> tr_state r \<in> {Skipped, RetryScheduled, Succeeded, FailedPermanent, FailedExhausted})"
  show ?goal
  proof (cases "\<exists>inc. kw = [(''include_failed'', ABool inc)]")
    case True
    then obtain inc where kw: "kw = [(''include_failed'', ABool inc)]" by blast
    obtain r q ns w where run: "recover_thumbnails (enqueue_recovery reg) inc ((qs_queue st, qs_notes st), qs_world st) = (r, (q, ns), w)"
      by (metis prod.collapse)
    from recover_loop_keeps_queue [OF assms this [unfolded recover_thumbnails_def]] kw run show ?goal
      by (auto simp: recover_handler_def map_sum_def split: sum.splits)
  next
    case False
    then have "recover_handler reg kw st = (Inl (TypeError ''arguments''), st)"
      by (auto simp: recover_handler_def split: list.splits arg.splits)
    then show ?goal by (intro exI [of _ "[]"]) simp
  qed
qed

text \<open>The program's handlers meet the hypothesis of the pool.\<close>

lemma core_tasks_keep_queue: "tasks_keep_queue (core_registry cfg procs retention)"
proof -
  have "item_ok (core_registry cfg procs retention) i"
    if "i \<in> set (asked_items (register_core_tasks (thumbnail_handler cfg procs) f g Map.empty) ''generate_thumbnail''
      [(''media_id'', AStr mid), (''correlation_id'', AStr cid)])" for mid cid i f g
    using that core_names
    by (simp add: asked_items_def register_core_tasks_def register_def generate_thumbnail_task_def recover_thumbnails_task_def
        prune_expired_albums_task_def attempt_metadata_def pop_int_def item_ok_def)
  then have "keeps_queue (core_registry cfg procs retention) (recover_handler (register_core_tasks (thumbnail_handler cfg procs) f g Map.empty))"
    for f g by (rule recover_keeps_queue)
  then have "keeps_queue (core_registry cfg procs retention) (rt_handler task)"
    if "core_registry cfg procs retention clocks name = Some task" for clocks name task
    using that thumbnail_keeps_queue prune_keeps_queue unfolding core_task by (elim disjE conjE) simp_all
  moreover have "dom (core_registry cfg procs retention t) = dom (core_registry cfg procs retention u)" for t u
    by (rule set_eqI) (simp add: domIff core_names del: not_None_eq)
  ultimately show ?thesis unfolding tasks_keep_queue_def by blast
qed

text \<open>Recovery on the program's own queue: the run of the task enqueues the pending thumbnail, which then waits.\<close>

theorem pool_loses_nothing_witness:
  "\<exists>st h. pool_reach (core_registry sample_cfg sample_procs 90) 2 pending_world (st, [], h)
     \<and> all_of ran h = [\<lparr>qt_task_name = ''recover_thumbnails'', qt_kwargs = [(''include_failed'', ABool False)], qt_attempt = 1, qt_max_attempts = 1\<rparr>]
     \<and> all_of owed h = all_of took h @ qs_queue st \<and> map qt_task_name (qs_queue st) = [''generate_thumbnail'']"
proof -
  let ?regs = "core_registry sample_cfg sample_procs 90" and ?kw = "[(''include_failed'', ABool False)]"
  let ?i = "\<lparr>qt_task_name = ''recover_thumbnails'', qt_kwargs = ?kw, qt_attempt = 1, qt_max_attempts = 1\<rparr>"
  let ?idle = "\<lparr>qs_queue = [], qs_notes = [], qs_world = pending_world\<rparr>"
  let ?s = "snd (async_enqueue (?regs (0, 0)) ''recover_thumbnails'' None ?kw ?idle)"
  let ?taken = "?s\<lparr>qs_queue := []\<rparr>"
  let ?st = "worker_turn (?regs (0, 0)) ?i ?taken"
  let ?h = "[Asked (?regs (0, 0)) ''recover_thumbnails'' ?kw, Took ?i, ran_event (?regs (0, 0)) ?i ?taken]"
  have q: "qs_queue ?s = [?i]" by code_simp
  have "pool_reach ?regs 2 pending_world (?st, remove1 ?i [?i], (([] @ [Asked (?regs (0, 0)) ''recover_thumbnails'' ?kw]) @ [Took ?i])
      @ [ran_event (?regs (0, 0)) ?i ?taken])"
  proof (rule pool_reach.step [OF pool_reach.step [OF pool_reach.step [OF pool_reach.init]]])
    show "pool_step ?regs 2 (?idle, [], []) (?s, [], [] @ [Asked (?regs (0, 0)) ''recover_thumbnails'' ?kw])"
      by (rule pool_step.enqueue [OF prod.collapse [symmetric]])
    show "pool_step ?regs 2 (?s, [], [] @ [Asked (?regs (0, 0)) ''recover_thumbnails'' ?kw])
        (?taken, [?i], ([] @ [Asked (?regs (0, 0)) ''recover_thumbnails'' ?kw]) @ [Took ?i])"
      by (rule pool_step.take [OF q]) simp
  qed (rule pool_step.finish, simp)
  then have reach: "pool_reach ?regs 2 pending_world (?st, [], ?h)" by simp
  have ran: "all_of ran ?h = [?i]" by (simp add: all_of_def)
  have waits: "map qt_task_name (qs_queue ?st) = [''generate_thumbnail'']" by code_simp
  have paid: "all_of owed ?h = all_of took ?h @ qs_queue ?st"
    using pool_loses_nothing [OF core_tasks_keep_queue reach] by (elim conjE)
  from reach ran paid waits show ?thesis by (intro exI [of _ ?st] exI [of _ ?h] conjI)
qed

end
