(* ===== verification/Ids.thy ===== *)
theory Ids
  imports Prelude
begin

text \<open>
  The identifiers of albums and media, \<^verbatim>\<open>src/imghost/ids.py\<close>: how they are drawn and what the handlers accept.
\<close>

definition id_alphabet :: string where
  "id_alphabet = ''23456789abcdefghjkmnpqrstuvwxyz''"

definition album_id_length :: nat where
  "album_id_length = 9"

definition media_id_length :: nat where
  "media_id_length = 12"

text \<open>The draws of \<^verbatim>\<open>secrets.choice\<close> are an argument.\<close>

definition generate_id :: "nat list \<Rightarrow> string" where
  "generate_id draws = map (\<lambda>i. id_alphabet ! (i mod length id_alphabet)) draws"

definition is_valid_id :: "string \<Rightarrow> nat \<Rightarrow> bool" where
  "is_valid_id v len = (let normalized = py_lower v in
     length normalized = len \<and> list_all (\<lambda>c. c \<in> set id_alphabet) normalized)"

text \<open>\<^verbatim>\<open>HTTPException(status_code=404)\<close>\<close>

definition not_found :: err where
  "not_found = HTTPException 404 ''Not Found''"

lemma generated_id_valid: "is_valid_id (generate_id draws) (length draws)"
proof -
  have "\<forall>c\<in>set id_alphabet. py_lower_char c = c" by code_simp
  moreover have "id_alphabet ! (i mod length id_alphabet) \<in> set id_alphabet" for i
    by (rule nth_mem) (simp add: id_alphabet_def)
  ultimately show ?thesis
    by (simp add: is_valid_id_def generate_id_def py_lower_def list_all_iff)
qed

end
