(* ===== verification/Sharex_Flow.thy ===== *)
theory Sharex_Flow
  imports Tokens Album_Props Ids
begin

text \<open>
  Deleting an album through the link that an upload by ShareX was given: the three pages of \<^verbatim>\<open>web/pages.py\<close> over the
  capabilities in the database and the signed confirmation in a cookie. What a page shows is its arguments; a redirect is its path and the value of the cookie it sets.
\<close>

section \<open>The pages\<close>

datatype sharex_page =
    ConfirmPage string "string option" nat
  | DeletedPage string "string option" nat

definition invalid_deletion_url :: err where
  "invalid_deletion_url = HTTPException 403 ''Invalid ShareX deletion URL.''"

definition invalid_confirmation :: err where
  "invalid_confirmation = HTTPException 403 ''ShareX deletion confirmation expired or is invalid.''"

definition sharex_confirm_path :: "string \<Rightarrow> string" where
  "sharex_confirm_path aid = ''/sharex/delete/'' @ aid @ ''/confirm''"

definition load_sharex_confirmation :: "token_env \<Rightarrow> time \<Rightarrow> string option \<Rightarrow> string \<Rightarrow> err + sharex_confirmation" where
  "load_sharex_confirmation E now cookie aid =
     (let raw = (case cookie of Some c \<Rightarrow> c | None \<Rightarrow> []) in
      if raw = [] then Inl (HTTPException 403 ''Missing ShareX deletion confirmation.'')
      else (case loads_confirmation E now sharex_delete_confirm_seconds raw of
         Inl (ValueError _) \<Rightarrow> Inl invalid_confirmation
       | Inl e \<Rightarrow> Inl e
       | Inr p \<Rightarrow> if sx_album_id p \<noteq> aid then Inl invalid_confirmation else Inr p))"

text \<open>\<open>now\<close>: the check of the expiry; \<open>dbnow\<close>: the database's clock; \<open>later\<close>: the time of the confirmation.\<close>

definition sharex_delete_entry ::
  "token_env \<Rightarrow> crypto \<Rightarrow> time \<Rightarrow> time \<Rightarrow> time \<Rightarrow> string \<Rightarrow> string option \<Rightarrow> world \<Rightarrow> (err + string \<times> string) \<times> world" where
  "sharex_delete_entry E cr now dbnow later aid token w =
     (if \<not> is_valid_id aid album_id_length then (Inl not_found, w)
      else if \<not> truthy token then (Inl (HTTPException 403 ''Missing ShareX deletion token.''), w)
      else (case split_capability_token (the token) of
         Inl _ \<Rightarrow> (Inl invalid_deletion_url, w)
       | Inr (sel, sec_text) \<Rightarrow>
           (case get_sharex_delete_capability sel (w_db w) of
              None \<Rightarrow> (Inl invalid_deletion_url, w)
            | Some c \<Rightarrow>
                if sc_purpose c \<noteq> sharex_delete_purpose \<or> sc_album_id c \<noteq> aid \<or> sc_revoked_at c \<noteq> None
                   \<or> sc_consumed_at c \<noteq> None \<or> sc_expires_at c \<le> now
                then (Inl invalid_deletion_url, w)
                else (case verify_capability_secret cr c sec_text of
                   Inl e \<Rightarrow> (Inl e, w)
                 | Inr same \<Rightarrow>
                     (case get_album aid (w_db w) of
                        None \<Rightarrow> (Inl invalid_deletion_url, w)
                      | Some album \<Rightarrow>
                          if \<not> same \<or> al_user_id album \<noteq> Some (sc_user_id c) then (Inl invalid_deletion_url, w)
                          else (Inr (sharex_confirm_path aid,
                              dumps_confirmation E later \<lparr>sx_selector = sel, sx_album_id = aid,
                                sx_user_id = sc_user_id c, sx_created_at = None\<rparr>),
                            with_db w (snd (touch_sharex_delete_capability dbnow sel (w_db w)))))))))"

definition sharex_delete_confirm_page ::
  "token_env \<Rightarrow> time \<Rightarrow> time \<Rightarrow> string \<Rightarrow> string option \<Rightarrow> db \<Rightarrow> err + sharex_page" where
  "sharex_delete_confirm_page E now later aid cookie d =
     (if \<not> is_valid_id aid album_id_length then Inl not_found
      else and_then (load_sharex_confirmation E now cookie aid) (\<lambda>confirmation.
        case get_sharex_delete_capability (sx_selector confirmation) d of
          None \<Rightarrow> Inl invalid_deletion_url
        | Some c \<Rightarrow>
            if sc_purpose c \<noteq> sharex_delete_purpose \<or> sc_revoked_at c \<noteq> None \<or> sc_expires_at c \<le> later
            then Inl invalid_deletion_url
            else (case get_album aid d of
               None \<Rightarrow> if sc_consumed_at c \<noteq> None then Inr (DeletedPage aid None 0) else Inl invalid_deletion_url
             | Some album \<Rightarrow>
                 if al_user_id album \<noteq> Some (sx_user_id confirmation) then Inl invalid_deletion_url
                 else Inr (ConfirmPage (al_id album) (al_title album) (length (list_album_media aid d))))))"

text \<open>The capability is consumed in a transaction of its own, before the album is deleted.\<close>

definition sharex_delete_confirm_submit ::
  "token_env \<Rightarrow> time \<Rightarrow> time \<Rightarrow> time \<Rightarrow> string \<Rightarrow> string option \<Rightarrow> string option \<Rightarrow> world \<Rightarrow> (err + sharex_page) \<times> world" where
  "sharex_delete_confirm_submit E now dbnow later aid correlation cookie w =
     (if \<not> is_valid_id aid album_id_length then (Inl not_found, w)
      else let cid = (if truthy correlation then the correlation else ''sharex-delete'') in
        (case load_sharex_confirmation E now cookie aid of
           Inl e \<Rightarrow> (Inl e, w)
         | Inr confirmation \<Rightarrow>
             (case consume_sharex_delete_capability dbnow (sx_selector confirmation) aid (w_db w) of
                (None, d) \<Rightarrow>
                  (if (\<exists>c\<in>set_option (get_sharex_delete_capability (sx_selector confirmation) d).
                        sc_user_id c = sx_user_id confirmation \<and> sc_consumed_at c \<noteq> None)
                      \<and> get_album aid d = None
                   then Inr (DeletedPage aid None 0) else Inl invalid_confirmation, with_db w d)
              | (Some c, d) \<Rightarrow>
                  (case get_user (sc_user_id c) d of
                     None \<Rightarrow> (Inl invalid_confirmation, with_db w d)
                   | Some actor_user \<Rightarrow>
                       (case delete_album later aid None cid (Some actor_user) (with_db w d) of
                          (Inl e, w') \<Rightarrow> (Inl e, w')
                        | (Inr (album, items), w') \<Rightarrow>
                            (Inr (DeletedPage (al_id album) (al_title album) (length items)), w'))))))"

end
