(* ===== verification/Sharex_Props.thy ===== *)
theory Sharex_Props
  imports Sharex_Flow Token_Props Account_Facts
begin

text \<open>
  What the deletion link promises: a submitted confirmation deletes the one album it names, in the name of the
  user of its capability, or leaves albums, media and objects alone; and a link that was issued works once.
\<close>

section \<open>Consuming a capability\<close>

lemma update_where_None: "find P xs = None \<Longrightarrow> update_where P f xs = xs"
  by (induction xs) (auto simp: update_where_def split: if_splits)

lemma delete_where_update:
  assumes "\<And>x. Q x \<Longrightarrow> P x \<and> P (f x)"
  shows "delete_where P (update_where Q f xs) = delete_where P xs"
  using assms by (induction xs) (auto simp: update_where_def delete_where_def)

lemma consume_cases:
  assumes "consume_sharex_delete_capability now sel aid d = (r, d')"
  obtains "r = None" "d' = d" "find (consumable now sel aid) (db_sharex d) = None"
  | c where "r = Some (c\<lparr>sc_consumed_at := Some now, sc_last_seen_at := Some now\<rparr>)"
      "c \<in> set (db_sharex d)" "consumable now sel aid c"
      "d' = d\<lparr>db_sharex := update_where (consumable now sel aid) (\<lambda>c. c\<lparr>sc_consumed_at := Some now, sc_last_seen_at := Some now\<rparr>) (db_sharex d)\<rparr>"
proof (cases "find (consumable now sel aid) (db_sharex d)")
  case None
  then have "d\<lparr>db_sharex := db_sharex d\<rparr> = d'" "r = None"
    using assms by (simp_all add: consume_sharex_delete_capability_def update_sharex_where_def update_where_None)
  with None that(1) show thesis by simp
next
  case (Some c)
  then have "c \<in> set (db_sharex d)" "consumable now sel aid c" by (auto simp: find_Some_iff)
  with assms Some show thesis by (intro that(2) [of c]) (simp_all add: consume_sharex_delete_capability_def update_sharex_where_def)
qed

lemma get_user_sharex: "get_user u (d\<lparr>db_sharex := xs\<rparr>) = get_user u d"
proof -
  have "row_to_user (d\<lparr>db_sharex := xs\<rparr>) = row_to_user d" by (simp add: row_to_user_def fun_eq_iff Let_def)
  then show ?thesis by (simp add: get_user_def)
qed

lemma delete_album_refused:
  assumes "delete_album now aid tok cid actor w = (Inl e, w')"
  shows "w' = w"
proof (cases "get_album aid (w_db w)")
  case None
  with assms show ?thesis by (simp add: delete_album_def)
next
  case (Some a)
  with assms show ?thesis
    by (cases "require_album_access now a tok actor (case actor of Some u \<Rightarrow> us_is_admin u | None \<Rightarrow> False)")
      (auto simp: delete_album_def repo_delete_album_def Let_def split: option.splits)
qed

lemma delete_album_allowed:
  assumes "delete_album now aid tok cid actor w = (Inr r, w')" "get_album aid (w_db w) = Some a"
  shows "may_access now a tok actor (case actor of Some u \<Rightarrow> us_is_admin u | None \<Rightarrow> False)"
  using assms by (cases "require_album_access now a tok actor (case actor of Some u \<Rightarrow> us_is_admin u | None \<Rightarrow> False)")
    (auto simp: delete_album_def require_album_access_Inr)

section \<open>A submitted confirmation\<close>

text \<open>A confirmation was signed for the album of its capability, which no update of a capability changes.\<close>

definition confirmation_matches :: "token_env \<Rightarrow> time \<Rightarrow> string option \<Rightarrow> string \<Rightarrow> db \<Rightarrow> bool" where
  "confirmation_matches E now cookie aid d =
     (case load_sharex_confirmation E now cookie aid of
        Inr p \<Rightarrow> (\<forall>c\<in>set_option (get_sharex_delete_capability (sx_selector p) d). sc_album_id c = aid)
      | Inl _ \<Rightarrow> True)"

lemma capability_has_album:
  assumes "db_wf d" "get_sharex_delete_capability sel d = Some c"
  shows "get_album (sc_album_id c) d \<noteq> None"
  using assms find_row_SomeD [of sc_selector sel "db_sharex d" c]
  by (auto simp: db_wf_def fks_ok_def get_sharex_delete_capability_def get_album_def album_exists_find)

lemma cascade_after_consume:
  assumes "get_album aid d = Some album"
    and "d' = d\<lparr>db_sharex := update_where (consumable now sel aid) f (db_sharex d)\<rparr>" "\<And>c. sc_album_id (f c) = sc_album_id c"
  shows "db_albums (cascade_album (\<lambda>r. al_id r = aid) d') = delete_where (\<lambda>a. al_id a = aid) (db_albums d)"
    "db_media (cascade_album (\<lambda>r. al_id r = aid) d') = delete_where (\<lambda>m. md_album_id m = aid) (db_media d)"
    "db_sharex (cascade_album (\<lambda>r. al_id r = aid) d') = delete_where (\<lambda>c. sc_album_id c = aid) (db_sharex d)"
proof -
  from assms(1) have "\<exists>r\<in>set (db_albums d). al_id r = aid" by (auto simp: get_album_def dest: find_row_SomeD)
  then have gone: "set (map al_id (filter (\<lambda>r. al_id r = aid) (db_albums d))) = {aid}" by auto
  have "delete_where (\<lambda>c. sc_album_id c = aid) (update_where (consumable now sel aid) f (db_sharex d)) = delete_where (\<lambda>c. sc_album_id c = aid) (db_sharex d)"
    by (rule delete_where_update) (simp add: consumable_def assms(3))
  then show "db_sharex (cascade_album (\<lambda>r. al_id r = aid) d') = delete_where (\<lambda>c. sc_album_id c = aid) (db_sharex d)"
    unfolding cascade_album_def Let_def assms(2) using gone by simp
  show "db_albums (cascade_album (\<lambda>r. al_id r = aid) d') = delete_where (\<lambda>a. al_id a = aid) (db_albums d)"
    "db_media (cascade_album (\<lambda>r. al_id r = aid) d') = delete_where (\<lambda>m. md_album_id m = aid) (db_media d)"
    unfolding cascade_album_def Let_def assms(2) using gone by simp_all
qed

text \<open>The deletion in the name of the user of the capability.\<close>

lemma delete_in_name_of:
  assumes "(case get_user uid (w_db w) of None \<Rightarrow> (Inl invalid_confirmation, w)
      | Some u \<Rightarrow> (case delete_album later aid None cid (Some u) w of (Inl e, w') \<Rightarrow> (Inl e, w')
         | (Inr (album, items), w') \<Rightarrow> (Inr (DeletedPage (al_id album) (al_title album) (length items)), w'))) = (r, w')"
  obtains (refused) e where "r = Inl e" "w' = w"
  | (deleted) u album items where "get_user uid (w_db w) = Some u" "delete_album later aid None cid (Some u) w = (Inr (album, items), w')"
      "r = Inr (DeletedPage (al_id album) (al_title album) (length items))" "get_album aid (w_db w) = Some album" "al_id album = aid"
      "us_is_admin u \<or> al_user_id album = Some (us_id u) \<or> al_delete_token album = Some []"
proof (cases r)
  case (Inl e)
  with assms refused show ?thesis by (auto split: option.splits sum.splits prod.splits dest: delete_album_refused)
next
  case (Inr shown)
  with assms obtain u album items where u: "get_user uid (w_db w) = Some u"
    and del: "delete_album later aid None cid (Some u) w = (Inr (album, items), w')"
    and sh: "shown = DeletedPage (al_id album) (al_title album) (length items)"
    by (auto split: option.splits sum.splits prod.splits)
  from delete_album_done [OF del] have a: "get_album aid (w_db w) = Some album" by simp
  then have "al_id album = aid" by (auto simp: get_album_def dest: find_row_SomeD)
  moreover from delete_album_allowed [OF del] a have "us_is_admin u \<or> al_user_id album = Some (us_id u) \<or> al_delete_token album = Some []"
    by (auto simp: may_access_def)
  ultimately show ?thesis using deleted u del sh a Inr by blast
qed

text \<open>C31: A confirmation that is answered with a page deleted, just then, the album it names, with its items, capabilities
  and objects, on a capability for that album that was neither consumed, revoked nor expired, and in the name of the
  user of that capability, who owns the album or is an administrator (or the album's token is empty); it never
  reports an earlier deletion. Refused, it leaves albums, items, users, objects and the log alone, and consumed
  the capability at most.\<close>

theorem sharex_submit_outcomes:
  assumes "db_wf (w_db w)" "confirmation_matches E now cookie aid (w_db w)"
    and "sharex_delete_confirm_submit E now dbnow later aid correlation cookie w = (r, w')"
  shows "case r of
      Inr shown \<Rightarrow> \<exists>conf c user album. load_sharex_confirmation E now cookie aid = Inr conf
        \<and> c \<in> set (db_sharex (w_db w)) \<and> consumable dbnow (sx_selector conf) aid c
        \<and> get_user (sc_user_id c) (w_db w) = Some user \<and> get_album aid (w_db w) = Some album
        \<and> (us_is_admin user \<or> al_user_id album = Some (us_id user) \<or> al_delete_token album = Some [])
        \<and> shown = DeletedPage aid (al_title album) (length (list_album_media aid (w_db w)))
        \<and> db_albums (w_db w') = delete_where (\<lambda>a. al_id a = aid) (db_albums (w_db w))
        \<and> db_media (w_db w') = delete_where (\<lambda>m. md_album_id m = aid) (db_media (w_db w))
        \<and> db_sharex (w_db w') = delete_where (\<lambda>c. sc_album_id c = aid) (db_sharex (w_db w))
        \<and> w_store w' = delete_media_storage_keys (list_album_media aid (w_db w)) (w_store w)
    | Inl e \<Rightarrow> w' = w \<or> (\<exists>conf. load_sharex_confirmation E now cookie aid = Inr conf
        \<and> w' = with_db w (snd (consume_sharex_delete_capability dbnow (sx_selector conf) aid (w_db w))))"
proof (cases "is_valid_id aid album_id_length \<and> (\<exists>conf. load_sharex_confirmation E now cookie aid = Inr conf)")
  case False
  with assms(3) show ?thesis
    by (cases "load_sharex_confirmation E now cookie aid") (auto simp: sharex_delete_confirm_submit_def Let_def split: if_splits)
next
  case True
  then obtain conf where conf: "is_valid_id aid album_id_length" "load_sharex_confirmation E now cookie aid = Inr conf" by blast
  obtain x d where con: "consume_sharex_delete_capability dbnow (sx_selector conf) aid (w_db w) = (x, d)" by fastforce
  then show ?thesis
  proof (cases rule: consume_cases)
    case 1
    have "\<not> (\<exists>c\<in>set_option (get_sharex_delete_capability (sx_selector conf) (w_db w)).
        sc_user_id c = sx_user_id conf \<and> sc_consumed_at c \<noteq> None \<and> get_album aid (w_db w) = None)"
      using capability_has_album [OF assms(1)] assms(2) by (auto simp: confirmation_matches_def conf(2))
    with 1 assms(3) conf con show ?thesis
      by (auto simp: sharex_delete_confirm_submit_def Let_def with_db_def split: if_splits)
  next
    case (2 c)
    have ids: "get_album aid d = get_album aid (w_db w)" "list_album_media aid d = list_album_media aid (w_db w)"
      "get_user (sc_user_id c) d = get_user (sc_user_id c) (w_db w)"
      by (simp_all add: 2(4) get_album_def list_album_media_def get_user_sharex)
    have used: "snd (consume_sharex_delete_capability dbnow (sx_selector conf) aid (w_db w)) = d" by (simp add: con)
    obtain cid where run: "(case get_user (sc_user_id c) (w_db (with_db w d)) of None \<Rightarrow> (Inl invalid_confirmation, with_db w d)
      | Some u \<Rightarrow> (case delete_album later aid None cid (Some u) (with_db w d) of (Inl e, w') \<Rightarrow> (Inl e, w')
         | (Inr (album, items), w') \<Rightarrow> (Inr (DeletedPage (al_id album) (al_title album) (length items)), w'))) = (r, w')"
      using assms(3) conf con 2(1) by (auto simp: sharex_delete_confirm_submit_def Let_def)
    then show ?thesis
    proof (cases rule: delete_in_name_of)
      case refused
      with conf(2) used show ?thesis by auto
    next
      case (deleted u album items)
      from deleted(4) have a: "get_album aid (w_db w) = Some album" by (simp add: ids(1))
      note done_ = delete_album_done [OF deleted(2)]
      then have "w_db w' = cascade_album (\<lambda>r. al_id r = aid) d" by simp
      then show ?thesis
        using deleted conf(2) 2(2,3) ids a done_ cascade_after_consume [OF a 2(4)] by auto
    qed
  qed
qed

section \<open>A link that was issued\<close>

text \<open>The draws of \<^verbatim>\<open>token_urlsafe\<close> and the identifiers have no dots and no blanks.\<close>

definition plain_text :: "string \<Rightarrow> bool" where
  "plain_text s = (s \<noteq> [] \<and> (\<forall>c\<in>set s. c \<noteq> CHR ''.'' \<and> \<not> py_isspace c))"

lemma plain_strip: "plain_text s \<Longrightarrow> py_strip s = s"
  by (rule py_strip_none) (simp add: plain_text_def)

lemma split_link:
  assumes "plain_text a" "plain_text b"
  shows "split_capability_token (a @ CHR ''.'' # b) = Inr (a, b)"
proof -
  have "CHR ''.'' \<notin> set a" "a \<noteq> []" "b \<noteq> []" using assms by (auto simp: plain_text_def)
  then show ?thesis by (simp add: split_capability_token_def partition_at_found plain_strip [OF assms(1)] plain_strip [OF assms(2)])
qed

lemma valid_id_plain:
  assumes "is_valid_id aid (Suc n)"
  shows "plain_text aid"
proof -
  have lower: "\<not> (py_lower_char c \<in> set id_alphabet \<and> (c = CHR ''.'' \<or> py_isspace c))" for c
  proof
    assume c: "py_lower_char c \<in> set id_alphabet \<and> (c = CHR ''.'' \<or> py_isspace c)"
    from c have "(of_char c :: nat) = 46 \<or> py_isspace c" by (elim conjE disjE) simp_all
    then have "(of_char c :: nat) = 46 \<or> (9 \<le> (of_char c :: nat) \<and> (of_char c :: nat) \<le> 13) \<or> (28 \<le> (of_char c :: nat) \<and> (of_char c :: nat) \<le> 32)
        \<or> (of_char c :: nat) = 133 \<or> (of_char c :: nat) = 160"
      by (simp only: py_isspace_def Let_def)
    then have "\<not> ((65 \<le> (of_char c :: nat) \<and> (of_char c :: nat) \<le> 90)
        \<or> (192 \<le> (of_char c :: nat) \<and> (of_char c :: nat) \<le> 222 \<and> (of_char c :: nat) \<noteq> 215))" by linarith
    then have "py_lower_char c = c" unfolding py_lower_char_def Let_def by (rule if_not_P)
    with c have "c \<in> set id_alphabet" "c = CHR ''.'' \<or> py_isspace c" by auto
    moreover have "\<forall>c\<in>set id_alphabet. c \<noteq> CHR ''.'' \<and> \<not> py_isspace c" by code_simp
    ultimately show False by blast
  qed
  from assms have "aid \<noteq> []" "\<forall>c\<in>set aid. py_lower_char c \<in> set id_alphabet"
    by (auto simp: is_valid_id_def py_lower_def Let_def list_all_iff)
  with lower show ?thesis by (auto simp: plain_text_def)
qed

lemma confirmation_at:
  assumes "token_env_ok E" "in_datetime later" "plain_text sel" "plain_text aid" "plain_text uid"
    and "cookie = dumps_confirmation E later \<lparr>sx_selector = sel, sx_album_id = aid, sx_user_id = uid, sx_created_at = None\<rparr>"
  shows "load_sharex_confirmation E now (Some cookie) aid =
    (if later \<le> now \<and> now \<le> later + seconds sharex_delete_confirm_seconds
     then Inr \<lparr>sx_selector = sel, sx_album_id = aid, sx_user_id = uid, sx_created_at = Some (tk_isoformat E later)\<rparr>
     else Inl invalid_confirmation)"
proof -
  have "cookie \<noteq> []" unfolding assms(6) by (simp add: dumps_confirmation_def sign_values_def Let_def)
  moreover have "loads_confirmation E now sharex_delete_confirm_seconds cookie =
      (if later \<le> now \<and> now \<le> later + seconds sharex_delete_confirm_seconds
       then Inr \<lparr>sx_selector = sel, sx_album_id = aid, sx_user_id = uid, sx_created_at = Some (tk_isoformat E later)\<rparr>
       else Inl (ValueError ''invalid_sharex_delete_confirmation''))"
    using token_round_trip_parts [OF assms(1,2),
        of "\<lparr>os_mode = [], os_next_path = [], os_jti = [], os_user_id = None, os_created_at = None\<rparr>"
          "\<lparr>ra_user_id = [], ra_provider = [], ra_provider_uid = [], ra_created_at = None\<rparr>"
          "\<lparr>sx_selector = sel, sx_album_id = aid, sx_user_id = uid, sx_created_at = None\<rparr>" now sharex_delete_confirm_seconds]
      assms(3-6) by (simp add: Let_def plain_strip) (simp add: plain_text_def)
  ultimately show ?thesis by (simp add: load_sharex_confirmation_def Let_def)
qed

lemma confirmation_loads:
  assumes "token_env_ok E" "in_datetime later" "later \<le> now" "now \<le> later + seconds sharex_delete_confirm_seconds"
    and "plain_text sel" "plain_text aid" "plain_text uid"
    and "cookie = dumps_confirmation E later \<lparr>sx_selector = sel, sx_album_id = aid, sx_user_id = uid, sx_created_at = None\<rparr>"
  shows "load_sharex_confirmation E now (Some cookie) aid =
    Inr \<lparr>sx_selector = sel, sx_album_id = aid, sx_user_id = uid, sx_created_at = Some (tk_isoformat E later)\<rparr>"
  using confirmation_at [OF assms(1,2,5-8)] assms(3,4) by simp

lemma find_consumable:
  "keys_distinct sc_selector xs \<Longrightarrow> find (consumable now sel aid) xs =
     (case find_row sc_selector sel xs of Some c \<Rightarrow> if consumable now sel aid c then Some c else None | None \<Rightarrow> None)"
proof (induction xs)
  case (Cons x xs)
  then have "find_row sc_selector (sc_selector x) xs = None"
    by (auto simp: keys_distinct_def find_row_None_iff image_iff)
  with Cons show ?case by (auto simp: keys_distinct_def find_row_Cons consumable_def)
qed simp

lemma entry_step:
  assumes "is_valid_id aid album_id_length" "plain_text sel" "plain_text sec_text"
    and "get_sharex_delete_capability sel (w_db w) = Some c" "sc_purpose c = sharex_delete_purpose" "sc_album_id c = aid"
    and "sc_revoked_at c = None" "sc_consumed_at c = None" "now < sc_expires_at c" "verify_capability_secret cr c sec_text = Inr True"
    and "get_album aid (w_db w) = Some album" "al_user_id album = Some (sc_user_id c)"
  shows "sharex_delete_entry E cr now dbnow later aid (Some (sel @ CHR ''.'' # sec_text)) w =
    (Inr (sharex_confirm_path aid, dumps_confirmation E later \<lparr>sx_selector = sel, sx_album_id = aid,
       sx_user_id = sc_user_id c, sx_created_at = None\<rparr>),
     with_db w (snd (touch_sharex_delete_capability dbnow sel (w_db w))))"
  using assms by (simp add: sharex_delete_entry_def split_link)

lemma delete_album_granted:
  assumes "get_album aid (w_db w) = Some a" "may_access now a tok actor (case actor of Some u \<Rightarrow> us_is_admin u | None \<Rightarrow> False)"
  shows "\<exists>w'. delete_album now aid tok cid actor w = (Inr (a, list_album_media aid (w_db w)), w')"
proof -
  have "require_album_access now a tok actor (case actor of Some u \<Rightarrow> us_is_admin u | None \<Rightarrow> False) = Inr ()"
    using assms(2) by (simp add: require_album_access_Inr)
  then show ?thesis using assms(1) by (simp add: delete_album_def repo_delete_album_def Let_def)
qed

lemma gone_after_cascade:
  assumes "db_wf d" "get_album aid d = Some a" "get_sharex_delete_capability sel d = Some c" "sc_album_id c = aid"
  shows "get_album aid (cascade_album (\<lambda>r. al_id r = aid) d) = None"
    "get_sharex_delete_capability sel (cascade_album (\<lambda>r. al_id r = aid) d) = None"
proof -
  show "get_album aid (cascade_album (\<lambda>r. al_id r = aid) d) = None"
    by (simp add: get_album_def find_row_None_iff)
  have "x \<notin> set (db_sharex (cascade_album (\<lambda>r. al_id r = aid) d))" if "sc_selector x = sel" for x
  proof
    assume x: "x \<in> set (db_sharex (cascade_album (\<lambda>r. al_id r = aid) d))"
    then have "x = c"
      using assms(1,3) that find_row_unique [of sc_selector "db_sharex d" x]
      by (auto simp: get_sharex_delete_capability_def in_sharex_cascade_album db_wf_keys)
    with x assms(2,4) show False by (auto simp: in_sharex_cascade_album get_album_def dest: find_row_SomeD)
  qed
  then show "get_sharex_delete_capability sel (cascade_album (\<lambda>r. al_id r = aid) d) = None"
    by (auto simp: get_sharex_delete_capability_def find_row_None_iff)
qed

text \<open>A confirmation with a capability that can be consumed: the album is deleted, or it is not in force any more for the user,
  who is no administrator; the capability is consumed either way.\<close>

lemma submit_step:
  assumes "is_valid_id aid album_id_length" "load_sharex_confirmation E now cookie aid = Inr conf" "db_wf (w_db w)"
    and "get_sharex_delete_capability (sx_selector conf) (w_db w) = Some c" "consumable dbnow (sx_selector conf) aid c"
    and "get_user (sc_user_id c) (w_db w) = Some u" "get_album aid (w_db w) = Some a" "al_user_id a = Some (us_id u)"
  shows "\<exists>w'. (if us_is_admin u \<or> \<not> is_expired later (al_expires_at a)
      then sharex_delete_confirm_submit E now dbnow later aid correlation cookie w =
          (Inr (DeletedPage aid (al_title a) (length (list_album_media aid (w_db w)))), w')
        \<and> get_album aid (w_db w') = None \<and> get_sharex_delete_capability (sx_selector conf) (w_db w') = None \<and> db_wf (w_db w')
      else sharex_delete_confirm_submit E now dbnow later aid correlation cookie w =
          (Inl (HTTPException 404 ''Album not found.''), w')
        \<and> w' = with_db w ((w_db w)\<lparr>db_sharex := db_sharex (w_db w')\<rparr>)
        \<and> get_sharex_delete_capability (sx_selector conf) (w_db w') =
            Some (c\<lparr>sc_consumed_at := Some dbnow, sc_last_seen_at := Some dbnow\<rparr>) \<and> db_wf (w_db w'))"
proof -
  let ?f = "\<lambda>c. c\<lparr>sc_consumed_at := Some dbnow, sc_last_seen_at := Some dbnow\<rparr>"
  let ?P = "consumable dbnow (sx_selector conf) aid"
  let ?d = "(w_db w)\<lparr>db_sharex := update_where ?P ?f (db_sharex (w_db w))\<rparr>"
  have k: "keys_distinct sc_selector (db_sharex (w_db w))" using assms(3) by (rule db_wf_keys)
  have con: "consume_sharex_delete_capability dbnow (sx_selector conf) aid (w_db w) = (Some (?f c), ?d)"
    using assms(4,5) find_consumable [OF k, of dbnow "sx_selector conf" aid]
    by (simp add: consume_sharex_delete_capability_def update_sharex_where_def get_sharex_delete_capability_def)
  have wf: "db_wf ?d" using db_wf_consume [OF assms(3), of dbnow "sx_selector conf" aid] con by simp
  have a: "get_album aid ?d = Some a" "al_id a = aid" using assms(7) by (auto simp: get_album_def dest: find_row_SomeD)
  have c: "get_sharex_delete_capability (sx_selector conf) ?d = Some (?f c)" "sc_album_id (?f c) = aid"
    using assms(4,5) by (simp_all add: get_sharex_delete_capability_def find_row_update_where consumable_def)
  obtain cid where run: "sharex_delete_confirm_submit E now dbnow later aid correlation cookie w =
     (case delete_album later aid None cid (Some u) (with_db w ?d) of (Inl e, w') \<Rightarrow> (Inl e, w')
        | (Inr (album, items), w') \<Rightarrow> (Inr (DeletedPage (al_id album) (al_title album) (length items)), w'))"
    using assms(1,2,6) con by (simp add: sharex_delete_confirm_submit_def Let_def get_user_sharex)
  show ?thesis
  proof (cases "us_is_admin u \<or> \<not> is_expired later (al_expires_at a)")
    case True
    have may: "may_access later a None (Some u) (case Some u of Some u \<Rightarrow> us_is_admin u | None \<Rightarrow> False)"
      using assms(8) True by (auto simp: may_access_def)
    obtain w' where del: "delete_album later aid None cid (Some u) (with_db w ?d) = (Inr (a, list_album_media aid ?d), w')"
      using delete_album_granted [OF _ may, of aid "with_db w ?d"] a(1) by auto
    have "w_db w' = cascade_album (\<lambda>r. al_id r = aid) ?d" using delete_album_done [OF del] by simp
    with gone_after_cascade [OF wf a(1) c] run del a(2) True db_wf_cascade_album [OF wf] show ?thesis by (simp add: list_album_media_def)
  next
    case False
    have "delete_album later aid None cid (Some u) (with_db w ?d) = (Inl (HTTPException 404 ''Album not found.''), with_db w ?d)"
      using False a(1) by (simp add: delete_album_def require_album_access_def)
    with run c(1) wf False show ?thesis by (simp add: with_db_def)
  qed
qed

lemma issued_capability:
  assumes "issue_capability cr t0 sel sec_text aid uid = Inr (cap, link)"
  shows "link = sel @ CHR ''.'' # sec_text" "sc_selector cap = sel" "sc_purpose cap = sharex_delete_purpose"
    "sc_album_id cap = aid" "sc_user_id cap = uid" "sc_revoked_at cap = None" "sc_consumed_at cap = None"
    "sc_expires_at cap = t0 + days 90" "sc_secret_hash cap = cr_sha256_hex cr (utf8_encode sec_text)"
  using assms by (auto simp: issue_capability_def datetime_add_def sharex_delete_capability_days_def split: if_splits)

lemma registered_capability:
  assumes "create_sharex_delete_capability cap d0 = Inr (row, d)" "get_album aid d0 = Some album"
  shows "get_sharex_delete_capability (sc_selector cap) d = Some cap \<and> get_album aid d = Some album
    \<and> list_album_media aid d = list_album_media aid d0 \<and> (\<exists>u. get_user (sc_user_id cap) d = Some u \<and> us_id u = sc_user_id cap)"
proof -
  from assms(1) have new: "find_row sc_selector (sc_selector cap) (db_sharex d0) = None" "user_exists d0 (sc_user_id cap)"
    "d = d0\<lparr>db_sharex := db_sharex d0 @ [cap]\<rparr>"
    by (auto simp: create_sharex_delete_capability_def split: if_splits)
  then obtain rw where "find_row ur_id (sc_user_id cap) (db_users d) = Some rw" by (auto simp: user_exists_find)
  then have "\<exists>u. get_user (sc_user_id cap) d = Some u \<and> us_id u = sc_user_id cap"
    by (auto simp: get_user_def row_to_user_def Let_def dest: find_row_SomeD)
  then show ?thesis
    using new assms(2) by (simp add: get_sharex_delete_capability_def find_row_append find_row_Cons get_album_def list_album_media_def)
qed

text \<open>A capability that is gone or consumed is good for nothing.\<close>

lemma entry_void:
  assumes "is_valid_id aid album_id_length" "plain_text sel" "plain_text sec_text"
    and "\<forall>c. get_sharex_delete_capability sel (w_db w) = Some c \<longrightarrow> sc_consumed_at c \<noteq> None"
  shows "sharex_delete_entry E cr now dbnow made aid (Some (sel @ CHR ''.'' # sec_text)) w = (Inl invalid_deletion_url, w)"
  using assms by (cases "get_sharex_delete_capability sel (w_db w)") (simp_all add: sharex_delete_entry_def split_link)

lemma page_void:
  assumes "is_valid_id aid album_id_length"
    and "load_sharex_confirmation E n cookie aid = Inl invalid_confirmation \<or> load_sharex_confirmation E n cookie aid = Inr conf"
    and "get_sharex_delete_capability (sx_selector conf) d = None"
  shows "sharex_delete_confirm_page E n later aid cookie d \<in> {Inl invalid_deletion_url, Inl invalid_confirmation}"
  using assms by (auto simp: sharex_delete_confirm_page_def)

lemma submit_void:
  assumes "is_valid_id aid album_id_length" "db_wf (w_db w)"
    and "load_sharex_confirmation E n cookie aid = Inl invalid_confirmation \<or> load_sharex_confirmation E n cookie aid = Inr conf"
    and void: "\<forall>c. get_sharex_delete_capability (sx_selector conf) (w_db w) = Some c \<longrightarrow> sc_consumed_at c \<noteq> None \<and> get_album aid (w_db w) \<noteq> None"
  shows "sharex_delete_confirm_submit E n dbnow later aid correlation cookie w = (Inl invalid_confirmation, w)"
proof -
  have "keys_distinct sc_selector (db_sharex (w_db w))" using assms(2) by (rule db_wf_keys)
  then have none: "find (consumable dbnow (sx_selector conf) aid) (db_sharex (w_db w)) = None"
    using find_consumable [of "db_sharex (w_db w)" dbnow "sx_selector conf" aid] void
    by (auto simp: get_sharex_delete_capability_def consumable_def split: option.splits)
  have same: "update_where (consumable dbnow (sx_selector conf) aid) f (db_sharex (w_db w)) = db_sharex (w_db w)" for f
    by (rule update_where_None [OF none])
  show ?thesis
    using assms(1,3) void none
    by (cases "get_sharex_delete_capability (sx_selector conf) (w_db w)")
      (auto simp: sharex_delete_confirm_submit_def Let_def consume_sharex_delete_capability_def update_sharex_where_def
        same with_db_def)
qed

text \<open>C32: A deletion link that was just issued and registered for an album of its user leads, until it expires, to the
  page that asks for the confirmation, with a cookie that is good for five minutes. Submitted in that time, the
  confirmation deletes the album, if the album is in force then or the user is an administrator. If the album has expired by then,
  the user is told that there is none and nothing but the capability changes, which is consumed all the same. Either
  way the link is refused from then on and the cookie deletes nothing more, whenever they are used; once the album is
  deleted, the page refuses the cookie, too.\<close>

theorem sharex_link_works_once:
  assumes "token_env_ok E" "is_ascii (cr_sha256_hex cr (utf8_encode sec_text))" "db_wf (w_db w)"
    and "issue_capability cr t0 sel sec_text aid uid = Inr (cap, link)"
    and "create_sharex_delete_capability cap (w_db w) = Inr (row, d)"
    and "is_valid_id aid album_id_length" "plain_text sel" "plain_text sec_text" "plain_text uid"
    and "get_album aid (w_db w) = Some album" "al_user_id album = Some uid"
    and "now < t0 + days 90" "later' < t0 + days 90" "dbnow' < t0 + days 90"
    and "in_datetime made" "made \<le> now'" "now' \<le> made + seconds 300" "made \<le> now''" "now'' \<le> made + seconds 300"
  shows "\<exists>u cookie w1 r w2. get_user uid (w_db w) = Some u
    \<and> sharex_delete_entry E cr now dbnow made aid (Some link) (with_db w d) = (Inr (sharex_confirm_path aid, cookie), w1)
    \<and> sharex_delete_confirm_page E now' later' aid (Some cookie) (w_db w1) =
        Inr (ConfirmPage aid (al_title album) (length (list_album_media aid (w_db w))))
    \<and> sharex_delete_confirm_submit E now'' dbnow' later'' aid correlation (Some cookie) w1 = (r, w2)
    \<and> (if us_is_admin u \<or> \<not> is_expired later'' (al_expires_at album)
       then r = Inr (DeletedPage aid (al_title album) (length (list_album_media aid (w_db w)))) \<and> get_album aid (w_db w2) = None
         \<and> (\<forall>n l. sharex_delete_confirm_page E n l aid (Some cookie) (w_db w2) \<in> {Inl invalid_deletion_url, Inl invalid_confirmation})
       else r = Inl (HTTPException 404 ''Album not found.'') \<and> w2 = with_db w ((w_db w)\<lparr>db_sharex := db_sharex (w_db w2)\<rparr>))
    \<and> (\<forall>n dbn mk. sharex_delete_entry E cr n dbn mk aid (Some link) w2 = (Inl invalid_deletion_url, w2))
    \<and> (\<forall>n dbn l cid. sharex_delete_confirm_submit E n dbn l aid cid (Some cookie) w2 = (Inl invalid_confirmation, w2))"
proof -
  note cap = issued_capability [OF assms(4)]
  note reg = registered_capability [OF assms(5,10), unfolded cap(2)]
  have wf: "db_wf d" using db_wf_create_sharex [OF assms(3,5)] .
  have same: "d = (w_db w)\<lparr>db_sharex := db_sharex d\<rparr>"
    using assms(5) by (auto simp: create_sharex_delete_capability_def split: if_splits)
  have d: "get_sharex_delete_capability sel d = Some cap" "get_album aid d = Some album" "list_album_media aid d = list_album_media aid (w_db w)"
    using reg by simp_all
  obtain u where u: "get_user uid d = Some u" "us_id u = uid" using reg cap(5) by auto
  have u0: "get_user uid (w_db w) = Some u" using u(1) by (subst (asm) same) (simp add: get_user_sharex)
  have ver: "verify_capability_secret cr cap sec_text = Inr True"
    using assms(2) by (simp add: verify_capability_secret_def compare_digest_def cap(9))
  let ?cookie = "dumps_confirmation E made \<lparr>sx_selector = sel, sx_album_id = aid, sx_user_id = uid, sx_created_at = None\<rparr>"
  let ?touch = "\<lambda>c. c\<lparr>sc_last_seen_at := Some dbnow\<rparr>"
  let ?d1 = "snd (touch_sharex_delete_capability dbnow sel d)" and ?conf = "\<lparr>sx_selector = sel, sx_album_id = aid, sx_user_id = uid, sx_created_at = Some (tk_isoformat E made)\<rparr>"
  note entry = entry_step [OF assms(6-8), of "with_db w d" cap now cr album E dbnow made]
  have e: "sharex_delete_entry E cr now dbnow made aid (Some link) (with_db w d) = (Inr (sharex_confirm_path aid, ?cookie), with_db w ?d1)"
    using entry d cap assms(11,12) ver by (simp add: with_db_def)
  have plain: "plain_text aid" using valid_id_plain [of aid 8] assms(6) by (simp add: album_id_length_def)
  note at = confirmation_at [OF assms(1,15,7) plain assms(9) refl, unfolded sharex_delete_confirm_seconds_def]
  have load: "load_sharex_confirmation E now' (Some ?cookie) aid = Inr ?conf" "load_sharex_confirmation E now'' (Some ?cookie) aid = Inr ?conf"
    using at [of now'] at [of now''] assms(16-19) by simp_all
  have ever: "load_sharex_confirmation E n (Some ?cookie) aid = Inl invalid_confirmation \<or> load_sharex_confirmation E n (Some ?cookie) aid = Inr ?conf"
    for n using at [of n] by simp
  have d1: "?d1 = d\<lparr>db_sharex := update_where (\<lambda>c. sc_selector c = sel) ?touch (db_sharex d)\<rparr>"
    by (simp add: touch_sharex_delete_capability_def update_sharex_where_def)
  have in_d1: "get_sharex_delete_capability sel ?d1 = Some (?touch cap)" "get_album aid ?d1 = Some album" "get_user uid ?d1 = Some u"
    "list_album_media aid ?d1 = list_album_media aid (w_db w)"
    using d u(1) unfolding d1 by (simp_all add: get_sharex_delete_capability_def find_row_update_where cap(2) get_album_def list_album_media_def get_user_sharex)
  have page: "sharex_delete_confirm_page E now' later' aid (Some ?cookie) ?d1 = Inr (ConfirmPage aid (al_title album) (length (list_album_media aid (w_db w))))"
    using assms(6,10,11,13) in_d1 load(1) cap by (auto simp: sharex_delete_confirm_page_def get_album_def dest: find_row_SomeD)
  obtain r w2 where run: "sharex_delete_confirm_submit E now'' dbnow' later'' aid correlation (Some ?cookie) (with_db w ?d1) = (r, w2)" by fastforce
  have con: "consumable dbnow' (sx_selector ?conf) aid (?touch cap)" using cap assms(14) by (simp add: consumable_def)
  note step = submit_step [OF assms(6) load(2), of "with_db w ?d1" "?touch cap" dbnow' u album later'' correlation, unfolded run]
  have done_: "if us_is_admin u \<or> \<not> is_expired later'' (al_expires_at album)
      then r = Inr (DeletedPage aid (al_title album) (length (list_album_media aid (w_db w)))) \<and> get_album aid (w_db w2) = None
        \<and> get_sharex_delete_capability sel (w_db w2) = None \<and> db_wf (w_db w2)
      else r = Inl (HTTPException 404 ''Album not found.'') \<and> w2 = with_db w (?d1\<lparr>db_sharex := db_sharex (w_db w2)\<rparr>)
        \<and> (\<exists>c. get_sharex_delete_capability sel (w_db w2) = Some c \<and> sc_consumed_at c \<noteq> None) \<and> db_wf (w_db w2)"
    using step in_d1 db_wf_touch [OF wf] cap(5) u(2) assms(11) con
    by (auto simp: with_db_def split: if_splits)
  have wf2: "db_wf (w_db w2)"
    using done_ by presburger
  have void: "\<forall>c. get_sharex_delete_capability sel (w_db w2) = Some c \<longrightarrow> sc_consumed_at c \<noteq> None \<and> get_album aid (w_db w2) \<noteq> None"
  proof (cases "us_is_admin u \<or> \<not> is_expired later'' (al_expires_at album)")
    case False
    with done_ have w2: "w2 = with_db w (?d1\<lparr>db_sharex := db_sharex (w_db w2)\<rparr>)" "\<exists>c. get_sharex_delete_capability sel (w_db w2) = Some c \<and> sc_consumed_at c \<noteq> None"
      by simp_all
    have "get_album aid (w_db w2) = Some album" by (subst w2(1)) (use in_d1(2) in \<open>simp add: get_album_def\<close>)
    with w2(2) show ?thesis by auto
  qed (use done_ in simp)
  have "\<forall>n dbn mk. sharex_delete_entry E cr n dbn mk aid (Some link) w2 = (Inl invalid_deletion_url, w2)"
    using entry_void [OF assms(6-8)] void by (simp add: cap(1))
  moreover have "\<forall>n dbn l cid. sharex_delete_confirm_submit E n dbn l aid cid (Some ?cookie) w2 = (Inl invalid_confirmation, w2)"
    using submit_void [OF assms(6) wf2 ever] void by simp
  moreover have "\<forall>n l. sharex_delete_confirm_page E n l aid (Some ?cookie) (w_db w2) \<in> {Inl invalid_deletion_url, Inl invalid_confirmation}"
    if "get_sharex_delete_capability sel (w_db w2) = None" using page_void [OF assms(6) ever, of "w_db w2"] that by simp
  moreover have "with_db w (?d1\<lparr>db_sharex := x\<rparr>) = with_db w ((w_db w)\<lparr>db_sharex := x\<rparr>)" for x
    unfolding d1 by (subst same) simp
  ultimately show ?thesis
    using u0 e page run done_ by (intro exI [of _ u] exI [of _ ?cookie] exI [of _ "with_db w ?d1"] exI [of _ r] exI [of _ w2]) auto
qed

section \<open>A concrete link\<close>

definition link_album :: string where
  "link_album = ''abcdefgh2''"

definition link_capability :: sharex_capability where
  "link_capability = \<lparr>sc_selector = ''s'', sc_purpose = sharex_delete_purpose, sc_album_id = link_album, sc_user_id = ''u'',
     sc_secret_hash = ''x'', sc_created_at = 0, sc_expires_at = days 90, sc_consumed_at = None, sc_revoked_at = None,
     sc_last_seen_at = None\<rparr>"

definition link_world :: "sharex_capability list \<Rightarrow> world" where
  "link_world cs = with_db (sample_world []) (sample_db\<lparr>db_albums := [sample_album link_album (Some ''u'') None None],
     db_media := [], db_sharex := cs\<rparr>)"

definition link_cookie :: string where
  "link_cookie = dumps_confirmation sample_token_env 5
     \<lparr>sx_selector = ''s'', sx_album_id = link_album, sx_user_id = ''u'', sx_created_at = None\<rparr>"

lemma link_facts:
  "is_valid_id link_album album_id_length" "plain_text ''s''" "plain_text ''x''" "plain_text ''u''" "plain_text link_album"
  "db_wf (w_db (link_world []))" "db_wf (w_db (link_world [link_capability]))" "in_datetime 5" "(5 :: int) < days 90"
  "get_album link_album (w_db (link_world cs)) = Some (sample_album link_album (Some ''u'') None None)"
  "list_album_media link_album (w_db (link_world cs)) = []"
  by code_simp+

theorem sharex_submit_outcomes_witness:
  "\<exists>w'. sharex_delete_confirm_submit sample_token_env 6 6 6 link_album None (Some link_cookie) (link_world [link_capability])
      = (Inr (DeletedPage link_album None 0), w')
    \<and> db_albums (w_db w') = [] \<and> db_sharex (w_db w') = []"
proof -
  let ?w = "link_world [link_capability]"
  have load: "load_sharex_confirmation sample_token_env 6 (Some link_cookie) link_album =
      Inr \<lparr>sx_selector = ''s'', sx_album_id = link_album, sx_user_id = ''u'', sx_created_at = Some (tk_isoformat sample_token_env 5)\<rparr>"
    by (rule confirmation_loads [OF sample_token_env_ok link_facts(8) _ _ link_facts(2,5,4) link_cookie_def])
      (simp_all add: sharex_delete_confirm_seconds_def seconds_def sec_def)
  have st: "get_sharex_delete_capability ''s'' (w_db ?w) = Some link_capability" "consumable 6 ''s'' link_album link_capability"
    "get_user (sc_user_id link_capability) (w_db ?w) = Some (row_to_user (w_db ?w) (sample_user_row ''u'' False))"
    by (simp_all add: link_world_def link_capability_def get_sharex_delete_capability_def find_row_Cons consumable_def days_def sec_def
      get_user_def sample_defs)
  have al: "al_user_id (sample_album link_album (Some ''u'') None None) = Some (us_id (row_to_user (w_db ?w) (sample_user_row ''u'' False)))"
    "al_expires_at (sample_album link_album (Some ''u'') None None) = None" "al_title (sample_album link_album (Some ''u'') None None) = None"
    by (simp_all add: row_to_user_def Let_def sample_defs)
  obtain w' where run: "sharex_delete_confirm_submit sample_token_env 6 6 6 link_album None (Some link_cookie) ?w
      = (Inr (DeletedPage link_album None 0), w')"
    using submit_step [OF link_facts(1) load link_facts(7) _ _ st(3) link_facts(10) al(1), where later = 6 and dbnow = 6 and correlation = None]
      st(1,2) link_facts(11) al(2,3) by (auto simp:)
  have "confirmation_matches sample_token_env 6 (Some link_cookie) link_album (w_db ?w)"
    by (simp add: confirmation_matches_def load st(1)) (simp add: link_capability_def)
  from sharex_submit_outcomes [OF link_facts(7) this run]
  have "db_albums (w_db w') = delete_where (\<lambda>a. al_id a = link_album) (db_albums (w_db ?w))"
    "db_sharex (w_db w') = delete_where (\<lambda>c. sc_album_id c = link_album) (db_sharex (w_db ?w))" by auto
  moreover have "delete_where (\<lambda>a. al_id a = link_album) (db_albums (w_db ?w)) = []"
    "delete_where (\<lambda>c. sc_album_id c = link_album) (db_sharex (w_db ?w)) = []" by code_simp+
  ultimately show ?thesis using run by auto
qed

theorem sharex_link_works_once_witness:
  "\<exists>row d cookie w1 w2. create_sharex_delete_capability link_capability (w_db (link_world [])) = Inr (row, d)
    \<and> sharex_delete_entry sample_token_env sample_crypto 5 5 5 link_album (Some ''s.x'') (with_db (link_world []) d)
        = (Inr (sharex_confirm_path link_album, cookie), w1)
    \<and> sharex_delete_confirm_submit sample_token_env 6 6 6 link_album None (Some cookie) w1 = (Inr (DeletedPage link_album None 0), w2)
    \<and> get_album link_album (w_db w2) = None"
proof -
  have ascii: "is_ascii (cr_sha256_hex sample_crypto (utf8_encode ''x''))"
    by (simp add: is_ascii_def sample_crypto_def utf8_encode_def)
  have issue: "issue_capability sample_crypto 0 ''s'' ''x'' link_album ''u'' = Inr (link_capability, ''s.x'')"
    by (simp add: issue_capability_def datetime_add_def in_datetime_def days_def sec_def sharex_delete_capability_days_def
      link_capability_def sample_crypto_def utf8_encode_def)
  obtain row d where made: "create_sharex_delete_capability link_capability (w_db (link_world [])) = Inr (row, d)"
    by (simp add: create_sharex_delete_capability_def link_world_def link_capability_def album_exists_def user_exists_def sample_defs)
  have al: "al_user_id (sample_album link_album (Some ''u'') None None) = Some ''u''" "al_title (sample_album link_album (Some ''u'') None None) = None"
    "al_expires_at (sample_album link_album (Some ''u'') None None) = None" by (simp_all add: sample_album_def)
  have times: "(5 :: int) < 0 + days 90" "(6 :: int) < 0 + days 90" "(5 :: int) \<le> 6" "(6 :: int) \<le> 5 + seconds 300"
    by (simp_all add: days_def sec_def seconds_def)
  obtain cookie w1 r w2 where
    "sharex_delete_entry sample_token_env sample_crypto 5 5 5 link_album (Some ''s.x'') (with_db (link_world []) d)
        = (Inr (sharex_confirm_path link_album, cookie), w1)"
    and run: "sharex_delete_confirm_submit sample_token_env 6 6 6 link_album None (Some cookie) w1 = (r, w2)"
      "r = Inr (DeletedPage link_album None 0)" "get_album link_album (w_db w2) = None"
    using sharex_link_works_once [OF sample_token_env_ok ascii link_facts(6) issue made link_facts(1-4,10) al(1)
        times(1,2,2) link_facts(8) times(3,4,3,4), where later'' = 6 and dbnow = 5 and correlation = None]
    by (auto simp: al(2,3) link_facts(11))
  with made show ?thesis unfolding run(2) by blast
qed

end
