(* ===== verification/Serving.thy ===== *)
theory Serving
  imports Albums Ids Paths
begin

text \<open>
  What anybody may read: the images and thumbnails of \<^verbatim>\<open>web/media.py\<close> and \<^verbatim>\<open>web/media_helpers.py\<close>, the album as
  JSON and as an archive (\<^verbatim>\<open>web/public_api.py\<close>, \<^verbatim>\<open>payloads.py\<close>, \<^verbatim>\<open>stream_album_zip\<close> of \<^verbatim>\<open>service.py\<close>), over the
  tables and the object store. A response is what it carries; the bytes of an archive are the library's.
\<close>

section \<open>One image\<close>

definition extract_media_id :: "string \<Rightarrow> string" where
  "extract_media_id raw_id = py_lower (case rsplit_last CHR ''.'' raw_id of Some (a, _) \<Rightarrow> a | None \<Rightarrow> raw_id)"

definition validate_media_id_or_404 :: "string \<Rightarrow> err + string" where
  "validate_media_id_or_404 raw_id =
     (let media_id = extract_media_id raw_id in
      if is_valid_id media_id media_id_length then Inr media_id else Inl not_found)"

definition thumb_format :: "media \<Rightarrow> string" where
  "thumb_format m =
     (if md_thumb_is_orig m \<or> \<not> truthy (md_thumb_key m) then md_format m
      else (let key = the (md_thumb_key m) in
        py_lower (case rsplit_last CHR ''.'' key of Some (_, e) \<Rightarrow> e | None \<Rightarrow> key)))"

definition thumb_media_type :: "media \<Rightarrow> string" where
  "thumb_media_type m =
     (case map_of [(''jpg'', ''image/jpeg''), (''jpeg'', ''image/jpeg''), (''webp'', ''image/webp''), (''png'', ''image/png''),
         (''gif'', ''image/gif''), (''bmp'', ''image/bmp'')] (thumb_format m) of
        Some t \<Rightarrow> t | None \<Rightarrow> md_mime_type m)"

text \<open>\<open>RangeRefused n\<close> is the status 416 with \<^verbatim>\<open>Content-Range: bytes */n\<close>, \<open>StillProcessing\<close> an empty 202.\<close>

record served =
  sv_stream :: storage_stream
  sv_media_type :: string
  sv_etag :: string

datatype media_response = StillProcessing | RangeRefused int | Served served

datatype serve_error = ServeHttp err | ServeStream stream_error

definition served_size :: "bool \<Rightarrow> media \<Rightarrow> int" where
  "served_size thumb m =
     (if \<not> thumb \<or> md_thumb_is_orig m \<or> md_thumb_size m = None \<or> md_thumb_size m = Some 0 then md_file_size m
      else the (md_thumb_size m))"

definition served_key :: "bool \<Rightarrow> media \<Rightarrow> string" where
  "served_key thumb m =
     (if \<not> thumb \<or> md_thumb_is_orig m \<or> \<not> truthy (md_thumb_key m) then md_storage_key m else the (md_thumb_key m))"

text \<open>A range that is not a number raises a \<^verbatim>\<open>ValueError\<close> that is not handled.\<close>

definition stream_media :: "time \<Rightarrow> string \<Rightarrow> bool \<Rightarrow> string option \<Rightarrow> db \<Rightarrow> store \<Rightarrow> serve_error + media_response" where
  "stream_media now raw_id thumb range_header d s =
     (case validate_media_id_or_404 raw_id of
        Inl e \<Rightarrow> Inl (ServeHttp e)
      | Inr media_id \<Rightarrow>
          (case get_media media_id d of
             None \<Rightarrow> Inl (ServeHttp not_found)
           | Some m \<Rightarrow>
               (case get_album (md_album_id m) d of
                  None \<Rightarrow> Inl (ServeHttp not_found)
                | Some album \<Rightarrow>
                    if is_expired now (al_expires_at album) then Inl (ServeHttp not_found)
                    else if thumb \<and> md_thumb_status m \<in> {''pending'', ''processing''} then Inr StillProcessing
                    else if thumb \<and> md_thumb_status m = ''failed'' then Inl (ServeHttp not_found)
                    else (case normalize_byte_range range_header (served_size thumb m) of
                       Inl (InvalidByteRange _) \<Rightarrow> Inr (RangeRefused (served_size thumb m))
                     | Inl e \<Rightarrow> Inl (ServeStream (StreamRange e))
                     | Inr br \<Rightarrow>
                         (case local_get_stream (served_key thumb m) (map_option br_header_value br) s of
                            Inl e \<Rightarrow> Inl (ServeStream e)
                          | Inr st \<Rightarrow> Inr (Served \<lparr>sv_stream = st,
                              sv_media_type = (if thumb then thumb_media_type m else md_mime_type m),
                              sv_etag = CHR 0x22 # md_id m @ [CHR 0x22]\<rparr>))))))"

section \<open>An album as JSON\<close>

definition media_url :: "string \<Rightarrow> string \<Rightarrow> string \<Rightarrow> string" where
  "media_url base_url media_id fmt =
     (let normalized = (if fmt = ''jpeg'' then ''jpg'' else fmt);
          ext = (if normalized \<noteq> [] then CHR ''.'' # normalized else [])
      in base_url @ ''/i/'' @ media_id @ ext)"

definition thumb_url :: "string \<Rightarrow> string \<Rightarrow> string \<Rightarrow> string" where
  "thumb_url base_url media_id fmt =
     (let normalized = (if fmt = ''jpeg'' then ''jpg'' else fmt);
          ext = (if normalized \<noteq> [] then CHR ''.'' # normalized else [])
      in base_url @ ''/t/'' @ media_id @ ext)"

definition compatibility_warning_key :: "media \<Rightarrow> string option" where
  "compatibility_warning_key m =
     (if md_codec_hint m = Some ''hevc'' then Some ''hevc''
      else if md_codec_hint m = Some ''vp9'' \<and> md_format m = ''webm'' then Some ''vp9_webm''
      else None)"

definition compat_warning_messages :: "(string \<times> string) list" where
  "compat_warning_messages =
     [(''hevc'', ''This video uses HEVC encoding and may not play in Firefox. Try Chrome or Safari.''),
      (''vp9_webm'', ''This video may not play in older Safari. Try Chrome or Firefox.'')]"

definition compatibility_warning :: "media \<Rightarrow> string option" where
  "compatibility_warning m = Option.bind (compatibility_warning_key m) (map_of compat_warning_messages)"

definition resolve_cover_media :: "album \<Rightarrow> media list \<Rightarrow> media option" where
  "resolve_cover_media a items =
     (let first = (case items of [] \<Rightarrow> None | m # _ \<Rightarrow> Some m) in
      if truthy (al_cover_media_id a) then
        (case find_row md_id (the (al_cover_media_id a)) items of Some m \<Rightarrow> Some m | None \<Rightarrow> first)
      else first)"

record item_payload =
  ip_media :: media
  ip_media_url :: string
  ip_thumb_url :: string
  ip_compat_warning_key :: "string option"
  ip_compat_warning :: "string option"

record album_payload =
  ap_album :: album
  ap_item_count :: int
  ap_total_size :: int
  ap_cover_url :: "string option"
  ap_items :: "item_payload list"

text \<open>The fields of a row that are copied as they are stay in \<open>ap_album\<close> and \<open>ip_media\<close>.\<close>

definition album_to_payload :: "string \<Rightarrow> album \<Rightarrow> media list \<Rightarrow> album_payload" where
  "album_to_payload base_url a items =
     (let cover = resolve_cover_media a items in
      \<lparr>ap_album = a, ap_item_count = int (length items), ap_total_size = sum_list (map md_file_size items),
       ap_cover_url = map_option (\<lambda>m. media_url base_url (md_id m) (md_format m)) cover,
       ap_items = map (\<lambda>m. \<lparr>ip_media = m, ip_media_url = media_url base_url (md_id m) (md_format m),
         ip_thumb_url = thumb_url base_url (md_id m) (thumb_format m),
         ip_compat_warning_key = compatibility_warning_key m, ip_compat_warning = compatibility_warning m\<rparr>) items\<rparr>)"

definition get_album_page :: "time \<Rightarrow> string \<Rightarrow> string \<Rightarrow> db \<Rightarrow> err + album_payload" where
  "get_album_page now base_url aid d =
     (if \<not> is_valid_id aid album_id_length then Inl not_found
      else (case get_album aid d of
         None \<Rightarrow> Inl not_found
       | Some album \<Rightarrow>
           if is_expired now (al_expires_at album) then Inl not_found
           else Inr (album_to_payload base_url album (list_album_media aid d))))"

section \<open>An album as an archive\<close>

definition archive_char :: "char \<Rightarrow> char" where
  "archive_char c = (if c \<in> {CHR 0x22, CHR ''*'', CHR '':'', CHR ''<'', CHR ''>'', CHR ''?'', CHR ''|''} then CHR ''_'' else c)"

definition sanitize_archive_filename :: "string \<Rightarrow> string \<Rightarrow> string \<Rightarrow> string" where
  "sanitize_archive_filename raw_name media_id media_format =
     (let fallback = (if media_format \<noteq> [] then media_id @ CHR ''.'' # media_format else media_id) in
      if raw_name = [] then fallback
      else let name = path_name (map (\<lambda>c. if c = CHR 0x5C then CHR ''/'' else c) raw_name);
               candidate = rstrip_on (\<lambda>c. c = CHR ''.'') (py_strip
                 (map archive_char (filter (\<lambda>c. 32 \<le> (of_char c :: nat) \<and> c \<noteq> CHR 0x7F) name)))
           in if candidate = [] \<or> candidate \<in> {''.'', ''..''} then fallback else candidate)"

text \<open>The \<^verbatim>\<open>while True\<close> loop; \<open>n\<close> bounds the names it tries.\<close>

fun dedupe_name :: "nat \<Rightarrow> string \<Rightarrow> string \<Rightarrow> string list \<Rightarrow> nat \<Rightarrow> string option" where
  "dedupe_name n stem suffix seen index =
     (let deduped = stem @ CHR ''-'' # show_nat index @ suffix in
      if deduped \<notin> set seen then Some deduped
      else (case n of 0 \<Rightarrow> None | Suc n' \<Rightarrow> dedupe_name n' stem suffix seen (Suc index)))"

declare dedupe_name.simps [simp del]

definition archive_name :: "media \<Rightarrow> nat \<Rightarrow> string list \<Rightarrow> string option" where
  "archive_name m index seen =
     (let base = sanitize_archive_filename (md_filename_orig m) (md_id m) (md_format m);
          candidate = (if CHR ''.'' \<notin> set base \<and> md_format m \<noteq> [] then base @ CHR ''.'' # md_format m else base) in
      if candidate \<notin> set seen then Some candidate
      else dedupe_name (length seen) (if path_stem candidate \<noteq> [] then path_stem candidate else md_id m)
        (path_suffix candidate) seen index)"

text \<open>The keys of the objects with the names of the entries, in the order they are added.\<close>

fun archive_entries :: "nat \<Rightarrow> string list \<Rightarrow> media list \<Rightarrow> (string \<times> string) list option" where
  "archive_entries index seen [] = Some []"
| "archive_entries index seen (m # ms) =
     (case archive_name m index seen of
        None \<Rightarrow> None
      | Some name \<Rightarrow> map_option (Cons (md_storage_key m, name)) (archive_entries (Suc index) (name # seen) ms))"

definition stream_album_zip :: "string \<Rightarrow> db \<Rightarrow> err + (string \<times> string) list option" where
  "stream_album_zip aid d =
     (case get_album aid d of
        None \<Rightarrow> Inl (HTTPException 404 ''Album not found.'')
      | Some _ \<Rightarrow> Inr (archive_entries 1 [] (list_album_media aid d)))"

definition download_album_zip :: "time \<Rightarrow> string \<Rightarrow> db \<Rightarrow> err + (string \<times> (string \<times> string) list option)" where
  "download_album_zip now aid d =
     (if \<not> is_valid_id aid album_id_length then Inl not_found
      else (case get_album aid d of
         None \<Rightarrow> Inl not_found
       | Some album \<Rightarrow>
           if is_expired now (al_expires_at album) then Inl not_found
           else and_then (stream_album_zip aid d) (\<lambda>entries. Inr (al_id album @ ''.zip'', entries))))"

end
