(* ===== verification/Serving_Props.thy ===== *)
theory Serving_Props
  imports Serving Samples
begin

text \<open>
  What anybody may read: an image only while its album is public, and then its own bytes; an archive whose entries
  have different names that stay inside the directory it is unpacked in.
\<close>

section \<open>Names of entries\<close>

definition safe_char :: "char \<Rightarrow> bool" where
  "safe_char c = (32 \<le> (of_char c :: nat) \<and> c \<notin> {CHR 0x7F, CHR ''/'', CHR 0x5C, CHR 0x22, CHR ''*'', CHR '':'', CHR ''<'', CHR ''>'', CHR ''?'', CHR ''|''})"

text \<open>Such a name is neither empty nor a directory.\<close>

definition safe_name :: "string \<Rightarrow> bool" where
  "safe_name s = ((\<forall>c\<in>set s. safe_char c) \<and> (\<exists>c\<in>set s. c \<noteq> CHR ''.''))"

lemma archive_char_safe:
  assumes "32 \<le> (of_char c :: nat)" "c \<noteq> CHR 0x7F" "c \<noteq> CHR ''/''" "c \<noteq> CHR 0x5C"
  shows "safe_char (archive_char c)"
  using assms by (auto simp: archive_char_def safe_char_def)

lemma path_name_subset: "set (path_name p) \<subseteq> set p"
proof -
  have split: "x \<in> set (split_at c s) \<Longrightarrow> set x \<subseteq> set s" for x c s
    by (induction c s arbitrary: x rule: split_at.induct) (fastforce split: if_splits list.splits)+
  let ?cs = "filter (\<lambda>c. c \<noteq> [] \<and> c \<noteq> ''.'') (split_at (CHR ''/'') p)"
  show ?thesis
  proof (cases "?cs = []")
    case False
    then have "path_name p = last ?cs" "last ?cs \<in> set (split_at CHR ''/'' p)"
      using last_in_set [OF False] by (auto simp: path_name_def split: list.splits)
    with split show ?thesis by metis
  qed (simp add: path_name_def)
qed

text \<open>What identifiers and formats are made of.\<close>

definition plain_media :: "media \<Rightarrow> bool" where
  "plain_media m = (safe_name (md_id m) \<and> (\<forall>c\<in>set (md_format m). safe_char c))"

lemma safe_dot: "safe_char CHR ''.''" "safe_char CHR ''-''"
  by (simp_all add: safe_char_def)

lemma sanitized_safe:
  assumes "safe_name mid" "\<forall>c\<in>set fmt. safe_char c"
  shows "safe_name (sanitize_archive_filename raw mid fmt)"
proof -
  let ?fallback = "if fmt \<noteq> [] then mid @ CHR ''.'' # fmt else mid"
  have fb: "safe_name ?fallback" using assms safe_dot by (auto simp: safe_name_def)
  define name where "name = path_name (map (\<lambda>c. if c = CHR 0x5C then CHR ''/'' else c) raw)"
  define t where "t = py_strip (map archive_char (filter (\<lambda>c. 32 \<le> (of_char c :: nat) \<and> c \<noteq> CHR 0x7F) name))"
  define cand where "cand = rstrip_on (\<lambda>c. c = CHR ''.'') t"
  have name: "c \<noteq> CHR ''/'' \<and> c \<noteq> CHR 0x5C" if c: "c \<in> set name" for c
  proof -
    have "c \<in> set (map (\<lambda>c. if c = CHR 0x5C then CHR ''/'' else c) raw)" using c path_name_subset unfolding name_def by blast
    then have "c \<noteq> CHR 0x5C" by auto
    with path_name_no_slash c show ?thesis unfolding name_def by blast
  qed
  have safe: "safe_char c" if "c \<in> set cand" for c
  proof -
    have "c \<in> set (map archive_char (filter (\<lambda>c. 32 \<le> (of_char c :: nat) \<and> c \<noteq> CHR 0x7F) name))"
      using that set_rstrip_on set_py_strip unfolding cand_def t_def by blast
    then obtain d where "c = archive_char d" "d \<in> set name" "32 \<le> (of_char d :: nat)" "d \<noteq> CHR 0x7F" by auto
    with archive_char_safe name show ?thesis by simp
  qed
  have "safe_name cand" if "cand \<noteq> []"
    using that safe rstrip_on_last [of "\<lambda>c. c = CHR ''.''" t] last_in_set [OF that] unfolding safe_name_def cand_def by blast
  then show ?thesis
    using fb unfolding sanitize_archive_filename_def Let_def name_def [symmetric] t_def [symmetric] cand_def [symmetric] by auto
qed

section \<open>Images\<close>

lemma stream_of_range:
  assumes "st_objects s key = Some data" "in_int8 (int (length data))" "normalize_byte_range h (int (length data)) = Inr br"
    and "local_get_stream key (map_option br_header_value br) s = Inr st"
  shows "concat (ss_body st) = (case br of None \<Rightarrow> data
      | Some r \<Rightarrow> take (nat (br_end r - br_start r + 1)) (drop (nat (br_start r)) data))
    \<and> ss_status_code st = (case br of None \<Rightarrow> 200 | Some _ \<Rightarrow> 206)"
proof -
  have get: "st_get_bytes key s = Inr data"
    using assms(1,4) by (auto simp: local_get_stream_def st_get_bytes_def split: if_splits)
  have c: "0 < chunk_size" by (simp add: chunk_size_def)
  note chunks = read_chunks_props [OF c]
  have again: "normalize_byte_range (map_option br_header_value br) (int (length data)) = Inr br"
  proof (cases br)
    case None
    then show ?thesis by (simp add: normalize_None_iff)
  next
    case (Some r)
    with normalize_in_bounds [of h "int (length data)" r] assms(3) normalize_header_value [of "br_start r" "br_end r" "int (length data)"] assms(2)
    show ?thesis by (cases r) simp
  qed
  then show ?thesis
    using get assms(4) chunks [of data "length data"] normalize_in_bounds [of h "int (length data)"] assms(3)
    by (cases br) (auto simp: local_get_stream_def Let_def chunks)
qed

text \<open>C36: An image or a thumbnail is sent only while its album exists and has not expired, and it is the item that the
  identifier in the address names, whatever its case and its extension: the bytes sent are those of the item's own
  original, or of its own thumbnail, that the range asks for, with the status that says so and the item's
  identifier as the tag. This takes the stored sizes to be those of the objects.\<close>

theorem only_public_images_are_served:
  assumes "stream_media now raw_id thumb h d s = Inr (Served sv)"
    and "\<forall>m. get_media (extract_media_id raw_id) d = Some m \<longrightarrow>
      (\<exists>data. st_objects s (served_key thumb m) = Some data \<and> int (length data) = served_size thumb m \<and> in_int8 (served_size thumb m))"
  shows "\<exists>m album data br. get_media (extract_media_id raw_id) d = Some m \<and> is_valid_id (md_id m) media_id_length
    \<and> get_album (md_album_id m) d = Some album \<and> \<not> is_expired now (al_expires_at album)
    \<and> (served_key thumb m = md_storage_key m \<or> (thumb \<and> md_thumb_key m = Some (served_key thumb m)))
    \<and> st_objects s (served_key thumb m) = Some data \<and> normalize_byte_range h (int (length data)) = Inr br
    \<and> concat (ss_body (sv_stream sv)) = (case br of None \<Rightarrow> data
        | Some r \<Rightarrow> take (nat (br_end r - br_start r + 1)) (drop (nat (br_start r)) data))
    \<and> ss_status_code (sv_stream sv) = (case br of None \<Rightarrow> 200 | Some _ \<Rightarrow> 206)
    \<and> sv_etag sv = CHR 0x22 # md_id m @ [CHR 0x22]"
proof -
  let ?id = "extract_media_id raw_id"
  have valid: "is_valid_id ?id media_id_length" "validate_media_id_or_404 raw_id = Inr ?id"
    using assms(1) by (auto simp: stream_media_def validate_media_id_or_404_def Let_def split: if_splits)
  from assms(1) obtain m album where m: "get_media ?id d = Some m" "get_album (md_album_id m) d = Some album" "\<not> is_expired now (al_expires_at album)"
    by (auto simp: stream_media_def valid(2) split: option.splits if_splits)
  from assms(2) m(1) obtain data where data: "st_objects s (served_key thumb m) = Some data" "int (length data) = served_size thumb m"
    "in_int8 (int (length data))" by auto
  from assms(1) obtain br st where st: "normalize_byte_range h (int (length data)) = Inr br"
    "local_get_stream (served_key thumb m) (map_option br_header_value br) s = Inr st" "sv_stream sv = st" "sv_etag sv = CHR 0x22 # md_id m @ [CHR 0x22]"
    by (auto simp: stream_media_def valid(2) m data(2) split: if_splits sum.splits range_error.splits)
  have "md_id m = ?id" using m(1) by (auto simp: get_media_def dest: find_row_SomeD)
  moreover have "served_key thumb m = md_storage_key m \<or> (thumb \<and> md_thumb_key m = Some (served_key thumb m))"
    by (cases "md_thumb_key m") (auto simp: served_key_def)
  ultimately show ?thesis using valid(1) m data(1) st stream_of_range [OF data(1,3) st(1,2)] by auto
qed

theorem only_public_images_are_served_witness:
  "\<exists>st. stream_media 0 ''ABCDEFGH2345.png'' False (Some ''bytes=1-2'')
      (sample_db\<lparr>db_media := [sample_media ''abcdefgh2345'' ''a'' None ''k1'' None 1000 \<lparr>md_file_size := 4\<rparr>]\<rparr>) (sample_store []) = Inr (Served st)
    \<and> concat (ss_body (sv_stream st)) = ''at''"
proof -
  let ?m = "sample_media ''abcdefgh2345'' ''a'' None ''k1'' None 1000 \<lparr>md_file_size := 4\<rparr>"
  let ?d = "sample_db\<lparr>db_media := [?m]\<rparr>"
  have id: "extract_media_id ''ABCDEFGH2345.png'' = ''abcdefgh2345''" "is_valid_id ''abcdefgh2345'' media_id_length" by code_simp+
  have m: "get_media ''abcdefgh2345'' ?d = Some ?m" "get_album (md_album_id ?m) ?d = Some (sample_album ''a'' (Some ''u'') None None)"
    "served_key False ?m = ''k1''" "served_size False ?m = 4" "al_expires_at (sample_album ''a'' (Some ''u'') None None) = None"
    by (simp_all add: get_media_def get_album_def find_row_Cons sample_defs served_key_def served_size_def)
  have r: "normalize_byte_range (Some ''bytes=1-2'') 4 = Inr (Some \<lparr>br_start = 1, br_end = 2\<rparr>)" by code_simp
  then have h: "normalize_byte_range (Some (br_header_value \<lparr>br_start = 1, br_end = 2\<rparr>)) 4 = Inr (Some \<lparr>br_start = 1, br_end = 2\<rparr>)"
    by (intro normalize_header_value) (simp_all add: in_int8_def)
  have data: "st_objects (sample_store []) ''k1'' = Some ''data''" by (simp add: sample_store_def)
  then have "\<exists>st. local_get_stream ''k1'' (Some (br_header_value \<lparr>br_start = 1, br_end = 2\<rparr>)) (sample_store []) = Inr st"
    by (simp add: local_get_stream_def st_get_bytes_def Let_def h)
  then obtain st where run: "stream_media 0 ''ABCDEFGH2345.png'' False (Some ''bytes=1-2'') ?d (sample_store []) = Inr (Served st)"
    using id m r by (auto simp: stream_media_def validate_media_id_or_404_def Let_def)
  have sizes: "\<forall>m. get_media (extract_media_id ''ABCDEFGH2345.png'') ?d = Some m \<longrightarrow>
      (\<exists>data. st_objects (sample_store []) (served_key False m) = Some data \<and> int (length data) = served_size False m \<and> in_int8 (served_size False m))"
    using id m data by (auto simp: in_int8_def)
  from only_public_images_are_served [OF run sizes] id m data r show ?thesis using run by (auto simp: eval_nat_numeral)
qed

section \<open>Albums\<close>

lemma resolve_cover_media_member:
  "resolve_cover_media a items = Some m \<Longrightarrow> m \<in> set items"
  by (auto simp: resolve_cover_media_def Let_def split: if_splits option.splits list.splits dest: find_row_SomeD)

lemma resolve_cover_media_None: "resolve_cover_media a items = None \<longleftrightarrow> items = []"
  by (cases items) (auto simp: resolve_cover_media_def Let_def split: option.splits)

text \<open>The address of an image in a payload names the item that is served under it.\<close>

lemma media_url_names_item:
  assumes "is_valid_id (md_id m) media_id_length" "py_lower (md_id m) = md_id m" "CHR ''.'' \<notin> set (md_format m)"
    and "md_format m \<noteq> []"
  shows "\<exists>raw. media_url base_url (md_id m) (md_format m) = base_url @ ''/i/'' @ raw \<and> extract_media_id raw = md_id m"
proof -
  let ?f = "if md_format m = ''jpeg'' then ''jpg'' else md_format m"
  have "CHR ''.'' \<notin> set (rev ?f)" using assms(3) by simp
  then have "rsplit_last CHR ''.'' (md_id m @ CHR ''.'' # ?f) = Some (md_id m, ?f)"
    unfolding rsplit_last_def by (simp add: partition_at_found del: if_split)
  then show ?thesis using assms(2,4)
    by (intro exI [of _ "md_id m @ CHR ''.'' # ?f"]) (auto simp: media_url_def extract_media_id_def Let_def)
qed

section \<open>Archives\<close>

text \<open>Among more names than were given out, one is free: the loop ends.\<close>

lemma dedupe_rec:
  "dedupe_name 0 stem suffix seen i =
     (if stem @ CHR ''-'' # show_nat i @ suffix \<notin> set seen then Some (stem @ CHR ''-'' # show_nat i @ suffix) else None)"
  "dedupe_name (Suc n) stem suffix seen i =
     (if stem @ CHR ''-'' # show_nat i @ suffix \<notin> set seen then Some (stem @ CHR ''-'' # show_nat i @ suffix)
      else dedupe_name n stem suffix seen (Suc i))"
  by (simp_all add: dedupe_name.simps [of 0] dedupe_name.simps [of "Suc n"] Let_def)

lemma dedupe_None:
  "dedupe_name n stem suffix seen i = None \<Longrightarrow> j \<le> n \<Longrightarrow> stem @ CHR ''-'' # show_nat (i + j) @ suffix \<in> set seen"
proof (induction n arbitrary: i j)
  case (Suc n)
  from Suc.prems(1) have first: "stem @ CHR ''-'' # show_nat i @ suffix \<in> set seen" "dedupe_name n stem suffix seen (Suc i) = None"
    by (simp_all add: dedupe_rec split: if_splits)
  show ?case
  proof (cases j)
    case (Suc k)
    then show ?thesis using Suc.IH [OF first(2), of k] \<open>j \<le> Suc n\<close> by simp
  qed (use first(1) in simp)
qed (simp add: dedupe_rec split: if_splits)

lemma dedupe_finds: "\<exists>name. dedupe_name (length seen) stem suffix seen i = Some name"
proof (rule ccontr)
  assume "\<not> ?thesis"
  then have all: "\<forall>j\<le>length seen. stem @ CHR ''-'' # show_nat (i + j) @ suffix \<in> set seen"
    using dedupe_None [of "length seen" stem suffix seen i] by auto
  let ?f = "\<lambda>j. stem @ CHR ''-'' # show_nat (i + j) @ suffix"
  have "inj_on ?f {..length seen}" by (auto simp: inj_on_def)
  then have "card {..length seen} \<le> card (set seen)" using all by (intro card_inj_on_le) auto
  with card_length [of seen] show False by simp
qed

lemma dedupe_Some:
  "dedupe_name n stem suffix seen i = Some name \<Longrightarrow> name \<notin> set seen \<and> (\<exists>j. name = stem @ CHR ''-'' # show_nat j @ suffix)"
proof (induction n arbitrary: i)
  case (Suc n)
  then show ?case by (auto simp: dedupe_rec split: if_splits)
qed (auto simp: dedupe_rec split: if_splits)

lemma digits_safe: "c \<in> set (show_nat n) \<Longrightarrow> safe_char c"
  by (drule show_nat_decimal) (auto simp: is_decimal_def safe_char_def Let_def)

lemma archive_name_ok:
  assumes "plain_media m"
  obtains name where "archive_name m index seen = Some name" "name \<notin> set seen" "safe_name name"
proof -
  define base where "base = sanitize_archive_filename (md_filename_orig m) (md_id m) (md_format m)"
  define cand where "cand = (if CHR ''.'' \<notin> set base \<and> md_format m \<noteq> [] then base @ CHR ''.'' # md_format m else base)"
  have "safe_name base" using assms sanitized_safe by (simp add: plain_media_def base_def)
  then have cand: "safe_name cand" using assms safe_dot by (auto simp: cand_def safe_name_def plain_media_def)
  have unfold: "archive_name m index seen = (if cand \<notin> set seen then Some cand
      else dedupe_name (length seen) (if path_stem cand \<noteq> [] then path_stem cand else md_id m) (path_suffix cand) seen index)"
    unfolding archive_name_def Let_def base_def [symmetric] cand_def [symmetric] ..
  show thesis
  proof (cases "cand \<in> set seen")
    case False
    then show thesis using unfold cand that by simp
  next
    case True
    let ?stem = "if path_stem cand \<noteq> [] then path_stem cand else md_id m"
    obtain name where name: "dedupe_name (length seen) ?stem (path_suffix cand) seen index = Some name" using dedupe_finds by blast
    from dedupe_Some [OF name] obtain j where n: "name \<notin> set seen" "name = ?stem @ CHR ''-'' # show_nat j @ path_suffix cand" by blast
    have "\<forall>c\<in>set ?stem. safe_char c" "\<forall>c\<in>set (path_suffix cand). safe_char c"
      using cand assms set_path_stem path_name_subset set_path_suffix safe_dot unfolding safe_name_def plain_media_def by (auto, blast+)
    then have "safe_name name" unfolding n(2) safe_name_def using digits_safe safe_dot by auto
    with name n(1) True unfold that show thesis by simp
  qed
qed

lemma archive_entries_ok:
  assumes "\<forall>m\<in>set ms. plain_media m"
  shows "\<exists>es. archive_entries index seen ms = Some es \<and> map fst es = map md_storage_key ms
    \<and> distinct (map snd es) \<and> set (map snd es) \<inter> set seen = {} \<and> (\<forall>name\<in>set (map snd es). safe_name name)"
  using assms
proof (induction ms arbitrary: index seen)
  case (Cons m ms)
  then have "plain_media m" by simp
  then obtain name where n: "archive_name m index seen = Some name" "name \<notin> set seen" "safe_name name" by (rule archive_name_ok)
  from Cons.IH [of "Suc index" "name # seen"] Cons.prems obtain es where "archive_entries (Suc index) (name # seen) ms = Some es"
    "map fst es = map md_storage_key ms" "distinct (map snd es)" "set (map snd es) \<inter> set (name # seen) = {}"
    "\<forall>name\<in>set (map snd es). safe_name name" by auto
  then show ?case using n by (intro exI [of _ "(md_storage_key m, name) # es"]) auto
qed simp

text \<open>C37: The archive of an album names an entry for every item, in order, with the item's original as its content: the
  search for a name that is not taken always ends, the names are all different, and none of them leaves the
  directory it is unpacked in, whatever names the files were uploaded under.\<close>

theorem archive_names_are_unique_and_safe:
  assumes "stream_album_zip aid d = Inr es" "\<forall>m\<in>set (list_album_media aid d). plain_media m"
  shows "\<exists>entries. es = Some entries \<and> map fst entries = map md_storage_key (list_album_media aid d)
    \<and> distinct (map snd entries) \<and> (\<forall>name\<in>set (map snd entries). safe_name name)"
proof -
  from assms(1) have "es = archive_entries 1 [] (list_album_media aid d)"
    by (auto simp: stream_album_zip_def split: option.splits)
  with archive_entries_ok [OF assms(2), of 1 "[]"] show ?thesis by auto
qed

theorem archive_names_are_unique_and_safe_witness:
  "\<exists>entries. stream_album_zip ''a'' (sample_db\<lparr>db_media := map (\<lambda>m. m\<lparr>md_filename_orig := ''../a''\<rparr>) (db_media sample_db)\<rparr>) = Inr (Some entries)
    \<and> distinct (map snd entries) \<and> length entries = 3"
proof -
  let ?d = "sample_db\<lparr>db_media := map (\<lambda>m. m\<lparr>md_filename_orig := ''../a''\<rparr>) (db_media sample_db)\<rparr>"
  have "get_album ''a'' ?d \<noteq> None" by code_simp
  then obtain es where es: "stream_album_zip ''a'' ?d = Inr es" by (auto simp: stream_album_zip_def)
  have "\<forall>m\<in>set (list_album_media ''a'' ?d). plain_media m" by code_simp
  from archive_names_are_unique_and_safe [OF es this] obtain entries where e: "es = Some entries"
    "map fst entries = map md_storage_key (list_album_media ''a'' ?d)" "distinct (map snd entries)" by blast
  have "length (list_album_media ''a'' ?d) = 3" by code_simp
  with e(2) have "length entries = 3" by (metis length_map)
  with es e show ?thesis by blast
qed

end
