(* ===== verification/Auth_Flow.thy ===== *)
theory Auth_Flow
  imports Accounts Auth_Limits Sessions Runtime_Config
begin

text \<open>
  \<^verbatim>\<open>src/imghost/web/auth_context.py\<close> and \<^verbatim>\<open>web/auth.py\<close>: who a request is from, the gate of the administrative interface (those of the pages are in \<^verbatim>\<open>Web_Pages\<close>), and
  login, registration and logout, over the tables, the sessions and the limits on authentication. The telemetry
  calls are left out. \<open>k i\<close> is the \<open>i\<close>-th clock a request reads: wall or monotonic, as the code has it.
\<close>

section \<open>The state and the environment of the handlers\<close>

record 's site =
  si_world :: world
  si_config :: "config_row list"
  si_redis :: redis_handle
  si_server :: 's
  si_auth :: auth_limiter
  si_degraded :: bool
  si_uploads :: limiter
  si_uploads_degraded :: bool

record 's site_env =
  en_environment :: environment
  en_client :: "'s redis_client"
  en_crypto :: crypto
  en_sessions :: session_settings

text \<open>What a handler reads of a request: the header \<^verbatim>\<open>Authorization\<close> (empty when it is absent), the session cookie,
  the address of the client and the path.\<close>

record http_request =
  rq_authorization :: string
  rq_session_cookie :: "string option"
  rq_ip :: string
  rq_path :: string

text \<open>\<^verbatim>\<open>int(await runtime_config.get_value(key))\<close> and \<^verbatim>\<open>bool(...)\<close>: the settings are read from their table.\<close>

definition site_cfg :: "'s site_env \<Rightarrow> 's site \<Rightarrow> string \<Rightarrow> err + int" where
  "site_cfg V st = config_int (en_environment V) (si_config st)"

definition site_flag :: "'s site_env \<Rightarrow> 's site \<Rightarrow> string \<Rightarrow> err + bool" where
  "site_flag V st key = map_sum id as_bool (get_value (en_environment V) (si_config st) key)"

definition si_db :: "'s site \<Rightarrow> db" where
  "si_db st = w_db (si_world st)"

definition site_auth :: "'s site \<Rightarrow> 's auth_state" where
  "site_auth st = (si_redis st, si_server st, si_auth st, si_degraded st)"

definition with_auth :: "'s site \<Rightarrow> 's auth_state \<Rightarrow> 's site" where
  "with_auth st a = (case a of (h, s, au, degraded) \<Rightarrow>
     st\<lparr>si_redis := h, si_server := s, si_auth := au, si_degraded := degraded\<rparr>)"

text \<open>\<^verbatim>\<open>build_auth_rate_limiter\<close>: the limiter in Redis when the handle is enabled, the one in memory otherwise.\<close>

definition limiter_call ::
  "('s auth_state \<Rightarrow> (err + unit) \<times> 's auth_state) \<Rightarrow> (auth_limiter \<Rightarrow> (err + unit) \<times> auth_limiter)
     \<Rightarrow> 's site \<Rightarrow> (err + unit) \<times> 's site" where
  "limiter_call in_redis in_memory st =
     (if handle_enabled (si_redis st) then (case in_redis (site_auth st) of (r, a) \<Rightarrow> (r, with_auth st a))
      else (case in_memory (si_auth st) of (r, au) \<Rightarrow> (r, st\<lparr>si_auth := au\<rparr>)))"

definition login_attempt :: "'s site_env \<Rightarrow> (nat \<Rightarrow> time) \<Rightarrow> string \<Rightarrow> string \<Rightarrow> 's site \<Rightarrow> (err + unit) \<times> 's site" where
  "login_attempt V k ip login_key st = limiter_call
     (r_enforce_login_attempt (site_cfg V st) (en_client V) (k 0) (k 1) (k 2) (k 3) ip login_key)
     (enforce_login_attempt (site_cfg V st) (k 3) ip login_key) st"

definition login_failure :: "'s site_env \<Rightarrow> (nat \<Rightarrow> time) \<Rightarrow> string \<Rightarrow> 's site \<Rightarrow> (err + unit) \<times> 's site" where
  "login_failure V k login_key st = limiter_call
     (r_record_login_failure (site_cfg V st) (en_client V) (k 4) (k 5) (k 6) login_key)
     (record_login_failure (site_cfg V st) (k 6) login_key) st"

definition login_success :: "'s site_env \<Rightarrow> (nat \<Rightarrow> time) \<Rightarrow> string \<Rightarrow> 's site \<Rightarrow> (err + unit) \<times> 's site" where
  "login_success V k login_key st = limiter_call
     (\<lambda>a. (Inr (), r_record_login_success (en_client V) (k 4) login_key a))
     (\<lambda>au. (Inr (), record_login_success login_key au)) st"

definition registration_attempt :: "'s site_env \<Rightarrow> (nat \<Rightarrow> time) \<Rightarrow> string \<Rightarrow> 's site \<Rightarrow> (err + unit) \<times> 's site" where
  "registration_attempt V k ip st = limiter_call
     (r_enforce_registration_attempt (site_cfg V st) (en_client V) (k 0) (k 1) (k 2) (k 3) ip)
     (enforce_registration_attempt (site_cfg V st) (k 3) ip) st"

definition api_key_attempt :: "'s site_env \<Rightarrow> (nat \<Rightarrow> time) \<Rightarrow> string \<Rightarrow> 's site \<Rightarrow> (err + unit) \<times> 's site" where
  "api_key_attempt V k ip st = limiter_call
     (r_enforce_api_key_attempt (en_client V) (k 10) (k 11) (k 12) ip) (enforce_api_key_attempt (k 12) ip) st"

definition api_key_failure :: "'s site_env \<Rightarrow> (nat \<Rightarrow> time) \<Rightarrow> string \<Rightarrow> 's site \<Rightarrow> (err + unit) \<times> 's site" where
  "api_key_failure V k ip st = limiter_call
     (r_record_api_key_failure (site_cfg V st) (en_client V) (k 13) (k 14) (k 15) ip)
     (record_api_key_failure (site_cfg V st) (k 15) ip) st"

definition api_key_success :: "'s site_env \<Rightarrow> (nat \<Rightarrow> time) \<Rightarrow> string \<Rightarrow> 's site \<Rightarrow> (err + unit) \<times> 's site" where
  "api_key_success V k ip st = limiter_call
     (\<lambda>a. (Inr (), r_record_api_key_success (en_client V) (k 13) ip a)) (\<lambda>au. (Inr (), record_api_key_success ip au)) st"

definition admin_attempt :: "'s site_env \<Rightarrow> (nat \<Rightarrow> time) \<Rightarrow> string \<Rightarrow> 's site \<Rightarrow> (err + unit) \<times> 's site" where
  "admin_attempt V k ip st = limiter_call
     (r_enforce_admin_attempt (en_client V) (k 20) (k 21) (k 22) ip) (enforce_admin_attempt (k 22) ip) st"

definition admin_denial :: "'s site_env \<Rightarrow> (nat \<Rightarrow> time) \<Rightarrow> string \<Rightarrow> 's site \<Rightarrow> (err + unit) \<times> 's site" where
  "admin_denial V k ip st = limiter_call
     (r_record_admin_denial (site_cfg V st) (en_client V) (k 23) (k 24) (k 25) ip)
     (record_admin_denial (site_cfg V st) (k 25) ip) st"

section \<open>Who a request is from\<close>

record principal =
  pr_user :: user
  pr_raw_api_key :: "string option"

text \<open>The token of a bearer header, if the header is one.\<close>

definition bearer_token :: "string \<Rightarrow> string option" where
  "bearer_token header = (case partition_at CHR '' '' header of (scheme, _, token) \<Rightarrow>
     if py_lower scheme = ''bearer'' \<and> token \<noteq> [] then Some token else None)"

definition not_allowed :: err where
  "not_allowed = HTTPException 403 ''User is not allowed to authenticate.''"

definition touch_api_key :: "time \<Rightarrow> api_key \<Rightarrow> 's site \<Rightarrow> (err + unit) \<times> 's site" where
  "touch_api_key now key st =
     (case update_api_key (key\<lparr>ak_last_used_at := Some now\<rparr>) (si_db st) of
        Inl e \<Rightarrow> (Inl e, st)
      | Inr (_, d) \<Rightarrow> (Inr (), st\<lparr>si_world := with_db (si_world st) d\<rparr>))"

definition api_key_principal ::
  "'s site_env \<Rightarrow> (nat \<Rightarrow> time) \<Rightarrow> string \<Rightarrow> string \<Rightarrow> 's site \<Rightarrow> (err + principal) \<times> 's site" where
  "api_key_principal V k ip token =
     io_seq (api_key_attempt V k ip) (\<lambda>st.
       (case get_api_key_by_hash (hash_api_key (en_crypto V) token) (si_db st) of
          None \<Rightarrow> io_seq (api_key_failure V k ip) (io_raise (HTTPException 401 ''Invalid API key.'')) st
        | Some key \<Rightarrow>
            (case get_user (ak_user_id key) (si_db st) of
               None \<Rightarrow> io_seq (api_key_failure V k ip) (io_raise not_allowed) st
             | Some u \<Rightarrow>
                 if us_suspended u then io_seq (api_key_failure V k ip) (io_raise not_allowed) st
                 else io_seq (api_key_success V k ip) (io_seq (touch_api_key (k 16) key)
                   (io_return \<lparr>pr_user = u, pr_raw_api_key = Some token\<rparr>)) st)))"

text \<open>\<^verbatim>\<open>SessionBackendUnavailable\<close> is \<open>session_unavailable\<close>; it is caught, any other exception passes.\<close>

definition resolve_session :: "'s site_env \<Rightarrow> (nat \<Rightarrow> time) \<Rightarrow> string \<Rightarrow> 's site \<Rightarrow> (err + string option) \<times> 's site" where
  "resolve_session V k token st =
     (case resolve_user (en_client V) (en_sessions V) (k 17) (k 18) (k 19) token (si_redis st, si_server st) of
        (r, h, s) \<Rightarrow> (r, st\<lparr>si_redis := h, si_server := s\<rparr>))"

text \<open>With the principal, whether \<^verbatim>\<open>request.state.clear_session_cookie\<close> has been set: the middleware
  \<^verbatim>\<open>clear_stale_session_cookie\<close> then deletes the cookie from the browser.\<close>

definition session_principal ::
  "'s site_env \<Rightarrow> (nat \<Rightarrow> time) \<Rightarrow> bool \<Rightarrow> string \<Rightarrow> 's site \<Rightarrow> ((err + principal option) \<times> bool) \<times> 's site" where
  "session_principal V k required token st =
     (case resolve_session V k token st of
        (Inl e, st1) \<Rightarrow>
          ((if e = session_unavailable
            then (if required then Inl (HTTPException 401 ''Invalid session.'') else Inr None) else Inl e, False), st1)
      | (Inr uid, st1) \<Rightarrow>
          if \<not> truthy uid
          then ((if required then Inl (HTTPException 401 ''Authentication required.'') else Inr None, True), st1)
          else (case get_user (the uid) (si_db st1) of
             None \<Rightarrow> ((if required then Inl (HTTPException 401 ''Invalid session.'') else Inr None, True), st1)
           | Some u \<Rightarrow>
               ((if us_suspended u then Inl not_allowed
                 else Inr (Some \<lparr>pr_user = u, pr_raw_api_key = None\<rparr>), False), st1)))"

definition authenticated_principal ::
  "'s site_env \<Rightarrow> (nat \<Rightarrow> time) \<Rightarrow> bool \<Rightarrow> http_request \<Rightarrow> 's site \<Rightarrow> ((err + principal option) \<times> bool) \<times> 's site" where
  "authenticated_principal V k required rq st =
     (case bearer_token (rq_authorization rq) of
        Some token \<Rightarrow>
          (case api_key_principal V k (rq_ip rq) token st of (r, st1) \<Rightarrow> ((map_sum id Some r, False), st1))
      | None \<Rightarrow>
          if truthy (rq_session_cookie rq) then session_principal V k required (the (rq_session_cookie rq)) st
          else ((if required then Inl (HTTPException 401 ''Authentication required.'') else Inr None, False), st))"

definition authenticated_user ::
  "'s site_env \<Rightarrow> (nat \<Rightarrow> time) \<Rightarrow> bool \<Rightarrow> http_request \<Rightarrow> 's site \<Rightarrow> (err + user option) \<times> 's site" where
  "authenticated_user V k required rq st =
     (case authenticated_principal V k required rq st of
        ((r, _), st1) \<Rightarrow> (map_sum id (map_option pr_user) r, st1))"

section \<open>The gates\<close>

definition is_denial :: "err \<Rightarrow> bool" where
  "is_denial e = (case e of HTTPException c _ \<Rightarrow> c \<in> {401, 403} | _ \<Rightarrow> False)"

definition admin_required :: err where
  "admin_required = HTTPException 403 ''Admin access required.''"

definition require_admin_user :: "'s site_env \<Rightarrow> (nat \<Rightarrow> time) \<Rightarrow> http_request \<Rightarrow> 's site \<Rightarrow> (err + user) \<times> 's site" where
  "require_admin_user V k rq =
     io_seq (admin_attempt V k (rq_ip rq)) (\<lambda>st.
       (case authenticated_user V k True rq st of
          (Inl e, st1) \<Rightarrow>
            if is_denial e then io_seq (admin_denial V k (rq_ip rq)) (io_raise e) st1 else (Inl e, st1)
        | (Inr u, st1) \<Rightarrow>
            (case u of
               Some a \<Rightarrow> if us_is_admin a then (Inr a, st1)
                 else io_seq (admin_denial V k (rq_ip rq)) (io_raise admin_required) st1
             | None \<Rightarrow> io_seq (admin_denial V k (rq_ip rq)) (io_raise admin_required) st1)))"

section \<open>Login, registration and logout\<close>

record login_request =
  lq_login :: string
  lq_password :: string
  lq_remember_me :: bool

record registration_request =
  gq_username :: string
  gq_email :: string
  gq_password :: string
  gq_remember_me :: bool

text \<open>The body of the answer and the session cookie with its age.\<close>

record login_response =
  lp_summary :: user_summary
  lp_token :: string
  lp_max_age :: "int option"

definition hash_auth_identifier :: "crypto \<Rightarrow> string \<Rightarrow> string" where
  "hash_auth_identifier cr v = cr_sha256_hex cr (utf8_encode (py_lower (py_strip v)))"

definition cookie_max_age :: "time \<Rightarrow> time option \<Rightarrow> int option" where
  "cookie_max_age now expires_at =
     map_option (\<lambda>e. max 1 (if now \<le> e then (e - now) div sec else - ((now - e) div sec))) expires_at"

text \<open>The session is created, then the user is summed up, then the cookie is set.\<close>

definition open_session ::
  "'s site_env \<Rightarrow> (nat \<Rightarrow> time) \<Rightarrow> string \<Rightarrow> user \<Rightarrow> bool \<Rightarrow> 's site \<Rightarrow> (err + login_response) \<times> 's site" where
  "open_session V k new_uuid u remember_me st =
     (case create_session (en_client V) (en_sessions V) (k 30, k 31, k 32) (k 33) (k 34) new_uuid (us_id u) remember_me
        (si_redis st, si_server st) of
        (r, h, s) \<Rightarrow>
          (let st1 = st\<lparr>si_redis := h, si_server := s\<rparr> in
           (case r of
              Inl e \<Rightarrow> (Inl (if e = session_unavailable
                 then HTTPException 503 ''Redis-backed sessions are currently unavailable.'' else e), st1)
            | Inr (token, expires_at) \<Rightarrow>
                (and_then (get_current_user_summary (site_cfg V st1) u (si_db st1)) (\<lambda>summary.
                   Inr \<lparr>lp_summary = summary, lp_token = token, lp_max_age = cookie_max_age (k 35) expires_at\<rparr>), st1))))"

definition login ::
  "'s site_env \<Rightarrow> (nat \<Rightarrow> time) \<Rightarrow> string \<Rightarrow> string \<Rightarrow> http_request \<Rightarrow> login_request \<Rightarrow> 's site
     \<Rightarrow> (err + login_response) \<times> 's site" where
  "login V k new_uuid cid rq p =
     (let login_key = hash_auth_identifier (en_crypto V) (py_strip (lq_login p)) in
      io_seq (login_attempt V k (rq_ip rq) login_key) (\<lambda>st.
        (case authenticate_local_user (en_crypto V) (lq_login p) (lq_password p) (si_db st) of
           Inl (HTTPException c detail) \<Rightarrow>
             io_seq (login_failure V k login_key) (io_raise (HTTPException c detail)) st
         | Inl e \<Rightarrow> (Inl e, st)
         | Inr u \<Rightarrow>
             io_seq (login_success V k login_key) (\<lambda>st1.
               open_session V k new_uuid u (lq_remember_me p)
                 (if us_is_admin u then st1\<lparr>si_world := emit (AdminLoggedIn (us_id u) ''web'' cid) (si_world st1)\<rparr>
                  else st1)) st)))"

definition register_user ::
  "'s site_env \<Rightarrow> (nat \<Rightarrow> time) \<Rightarrow> account_inputs \<Rightarrow> string \<Rightarrow> string \<Rightarrow> http_request \<Rightarrow> registration_request
     \<Rightarrow> 's site \<Rightarrow> (err + login_response) \<times> 's site" where
  "register_user V k ai new_uuid cid rq p =
     io_seq (registration_attempt V k (rq_ip rq)) (\<lambda>st.
       (case site_flag V st ''allow_registration'' of
          Inl e \<Rightarrow> (Inl e, st)
        | Inr False \<Rightarrow> (Inl (HTTPException 403 ''Registration is disabled.''), st)
        | Inr True \<Rightarrow>
            (case create_user (en_crypto V) ai \<lparr>uc_username = gq_username p, uc_email = gq_email p,
                 uc_password = Some (gq_password p), uc_is_admin = False, uc_quota_bytes = None,
                 uc_rate_limit_rpm = None, uc_rate_limit_bph = None\<rparr> ''registration'' (Some cid) None ''web'' (si_world st) of
               (Inl e, w) \<Rightarrow> (Inl e, st\<lparr>si_world := w\<rparr>)
             | (Inr u, w) \<Rightarrow> open_session V k new_uuid u (gq_remember_me p) (st\<lparr>si_world := w\<rparr>))))"

text \<open>The identity of who logs out only goes to the telemetry, but it is looked up first.\<close>

definition logout :: "'s site_env \<Rightarrow> (nat \<Rightarrow> time) \<Rightarrow> http_request \<Rightarrow> 's site \<Rightarrow> (err + unit) \<times> 's site" where
  "logout V k rq st =
     (case authenticated_user V k False rq st of
        (r, st1) \<Rightarrow>
          if (case r of Inl (HTTPException _ _) \<Rightarrow> False | Inl _ \<Rightarrow> True | Inr _ \<Rightarrow> False)
          then (map_sum id (\<lambda>_. ()) r, st1)
          else (case clear_session (en_client V) (en_sessions V) (k 36) (k 37) (k 38) (rq_session_cookie rq)
                 (si_redis st1, si_server st1) of
              (r', h, s) \<Rightarrow> (r', st1\<lparr>si_redis := h, si_server := s\<rparr>)))"

end
