(* ===== verification/Auth_Flow_Props.thy ===== *)
theory Auth_Flow_Props
  imports Auth_Flow Session_Props Auth_Limit_Props Account_Props Config_Props
begin

text \<open>
  What the handlers of authentication guarantee together: who a request may be from, who passes the gate of the
  administration, how long a password may be guessed at, and that a login is a session.
\<close>

section \<open>The limiter leaves the tables alone\<close>

lemma with_auth_world [simp]: "si_world (with_auth st a) = si_world st"
  by (simp add: with_auth_def split: prod.split)

lemma with_auth_config [simp]: "si_config (with_auth st a) = si_config st"
  by (simp add: with_auth_def split: prod.split)

lemma site_cfg_cong: "si_config st' = si_config st \<Longrightarrow> site_cfg V st' = site_cfg V st"
  by (simp add: site_cfg_def)

lemma site_cfg_limits [simp]: "site_cfg V (st\<lparr>si_auth := au\<rparr>) = site_cfg V st"
  by (simp add: site_cfg_def)

lemma limiter_call_config: "limiter_call r m st = (x, st') \<Longrightarrow> si_config st' = si_config st"
  by (auto simp: limiter_call_def split: if_splits prod.splits)

lemma limiter_call_world: "limiter_call r m st = (x, st') \<Longrightarrow> si_world st' = si_world st"
  by (auto simp: limiter_call_def split: if_splits prod.splits)

lemma limiter_call_memory:
  "\<not> handle_enabled (si_redis st) \<Longrightarrow>
     limiter_call r m st = (fst (m (si_auth st)), st\<lparr>si_auth := snd (m (si_auth st))\<rparr>)"
  by (simp add: limiter_call_def split: prod.split)

lemmas site_limits = login_attempt_def login_failure_def login_success_def registration_attempt_def api_key_attempt_def
  api_key_failure_def api_key_success_def admin_attempt_def admin_denial_def

lemma api_key_attempt_world: "api_key_attempt V k ip st = (x, st') \<Longrightarrow> si_world st' = si_world st"
  and api_key_failure_world: "api_key_failure V k ip st = (x, st') \<Longrightarrow> si_world st' = si_world st"
  and api_key_success_world: "api_key_success V k ip st = (x, st') \<Longrightarrow> si_world st' = si_world st"
  and admin_attempt_world: "admin_attempt V k ip st = (x, st') \<Longrightarrow> si_world st' = si_world st"
  and admin_denial_world: "admin_denial V k ip st = (x, st') \<Longrightarrow> si_world st' = si_world st"
  and login_attempt_world: "login_attempt V k ip key st = (x, st') \<Longrightarrow> si_world st' = si_world st"
  and login_failure_world: "login_failure V k key st = (x, st') \<Longrightarrow> si_world st' = si_world st"
  and login_success_world: "login_success V k key st = (x, st') \<Longrightarrow> si_world st' = si_world st"
  unfolding site_limits by (blast intro: limiter_call_world)+

lemmas limit_worlds = api_key_attempt_world api_key_failure_world api_key_success_world admin_attempt_world
  admin_denial_world login_attempt_world login_failure_world login_success_world

section \<open>Who a request is from\<close>

definition touched :: "time \<Rightarrow> api_key \<Rightarrow> db \<Rightarrow> db" where
  "touched now key d =
     d\<lparr>db_api_keys := update_where (\<lambda>r. ak_id r = ak_id key) (\<lambda>_. key\<lparr>ak_last_used_at := Some now\<rparr>) (db_api_keys d)\<rparr>"

lemma get_user_touched [simp]: "get_user v (touched now key d) = get_user v d"
  by (rule get_user_cong) (simp_all add: touched_def)

lemma touch_api_key_ok:
  "touch_api_key now key st = (Inr x, st') \<Longrightarrow> si_world st' = with_db (si_world st) (touched now key (si_db st))"
  by (auto simp: touch_api_key_def update_api_key_def touched_def Let_def split: sum.splits if_splits)

lemma touch_api_key_failed: "touch_api_key now key st = (Inl e, st') \<Longrightarrow> st' = st"
  by (auto simp: touch_api_key_def split: sum.splits)

lemma api_key_principal_ok:
  assumes "api_key_principal V k ip token st = (Inr p, st')"
  shows "\<exists>key. get_api_key_by_hash (hash_api_key (en_crypto V) token) (si_db st) = Some key
    \<and> get_user (ak_user_id key) (si_db st) = Some (pr_user p) \<and> \<not> us_suspended (pr_user p)
    \<and> pr_raw_api_key p = Some token \<and> si_world st' = with_db (si_world st) (touched (k 16) key (si_db st))"
proof -
  obtain r1 st1 where a: "api_key_attempt V k ip st = (r1, st1)" by fastforce
  note w1 = api_key_attempt_world [OF a]
  show ?thesis
    using assms w1
    by (auto simp: api_key_principal_def a io_defs si_db_def split: sum.splits option.splits prod.splits if_splits
      dest!: api_key_success_world touch_api_key_ok)
qed

lemma get_api_key_by_hash_SomeD: "get_api_key_by_hash h d = Some key \<Longrightarrow> key \<in> set (db_api_keys d) \<and> ak_key_hash key = h"
  by (auto simp: get_api_key_by_hash_def dest: find_row_SomeD)

lemma resolve_session_world: "resolve_session V k token st = (r, st') \<Longrightarrow> si_world st' = si_world st"
  by (auto simp: resolve_session_def split: prod.splits)

lemma session_principal_ok:
  assumes "session_principal V k required token st = ((Inr (Some p), stale), st')"
  shows "fst (resolve_session V k token st) = Inr (Some (us_id (pr_user p))) \<and> \<not> us_suspended (pr_user p) \<and> \<not> stale
    \<and> get_user (us_id (pr_user p)) (si_db st) = Some (pr_user p) \<and> pr_raw_api_key p = None \<and> si_world st' = si_world st"
proof -
  obtain r st1 where r: "resolve_session V k token st = (r, st1)" by fastforce
  note run = assms [unfolded session_principal_def r]
  from run obtain uid where u: "r = Inr (Some uid)" "uid \<noteq> []"
    by (cases r; cases "projr r") (auto split: if_splits)
  with run obtain u where g: "get_user uid (si_db st1) = Some u" by (cases "get_user uid (si_db st1)") (auto split: if_splits)
  with run u have "\<not> us_suspended u" "p = \<lparr>pr_user = u, pr_raw_api_key = None\<rparr>" "\<not> stale" "st' = st1"
    by (auto split: if_splits)
  with resolve_session_world [OF r] r u g get_user_SomeD [OF g] show ?thesis by (simp add: si_db_def)
qed

lemma resolve_session_user:
  assumes "fst (resolve_session V k token st) = Inr (Some u)"
  obtains pl where "decode_signed_token (ss_env (en_sessions V)) (k 17) token = Inr (Some pl)" "se_user_id pl = u"
proof -
  have "fst (resolve_user (en_client V) (en_sessions V) (k 17) (k 18) (k 19) token (si_redis st, si_server st)) = Inr (Some u)"
    using assms by (simp add: resolve_session_def split: prod.splits)
  from resolve_user_cases [OF this] that show thesis by blast
qed

lemma authenticated_principal_parts:
  assumes "authenticated_principal V k required rq st = ((Inr (Some p), stale), st')"
  shows "get_user (us_id (pr_user p)) (si_db st') = Some (pr_user p)" "\<not> us_suspended (pr_user p)" "\<not> stale"
    and "\<And>token. bearer_token (rq_authorization rq) = Some token \<Longrightarrow> pr_raw_api_key p = Some token
      \<and> (\<exists>key. key \<in> set (db_api_keys (si_db st)) \<and> ak_key_hash key = hash_api_key (en_crypto V) token
          \<and> ak_user_id key = us_id (pr_user p) \<and> si_world st' = with_db (si_world st) (touched (k 16) key (si_db st)))"
    and "bearer_token (rq_authorization rq) = None \<Longrightarrow> pr_raw_api_key p = None \<and> si_world st' = si_world st
      \<and> (\<exists>token pl. rq_session_cookie rq = Some token \<and> fst (resolve_session V k token st) = Inr (Some (us_id (pr_user p)))
          \<and> decode_signed_token (ss_env (en_sessions V)) (k 17) token = Inr (Some pl) \<and> se_user_id pl = us_id (pr_user p))"
proof -
  have "get_user (us_id (pr_user p)) (si_db st') = Some (pr_user p) \<and> \<not> us_suspended (pr_user p) \<and> \<not> stale
    \<and> (\<forall>token. bearer_token (rq_authorization rq) = Some token \<longrightarrow> pr_raw_api_key p = Some token
      \<and> (\<exists>key. key \<in> set (db_api_keys (si_db st)) \<and> ak_key_hash key = hash_api_key (en_crypto V) token
          \<and> ak_user_id key = us_id (pr_user p) \<and> si_world st' = with_db (si_world st) (touched (k 16) key (si_db st))))
    \<and> (bearer_token (rq_authorization rq) = None \<longrightarrow> pr_raw_api_key p = None \<and> si_world st' = si_world st
      \<and> (\<exists>token pl. rq_session_cookie rq = Some token \<and> fst (resolve_session V k token st) = Inr (Some (us_id (pr_user p)))
          \<and> decode_signed_token (ss_env (en_sessions V)) (k 17) token = Inr (Some pl) \<and> se_user_id pl = us_id (pr_user p)))"
  proof (cases "bearer_token (rq_authorization rq)")
    case (Some token)
    obtain r st1 where a: "api_key_principal V k (rq_ip rq) token st = (r, st1)" by fastforce
    with assms Some have r: "r = Inr p" "st' = st1" "\<not> stale"
      by (cases r; auto simp: authenticated_principal_def)+
    from api_key_principal_ok [OF a [unfolded r(1)]] obtain key where
      key: "get_api_key_by_hash (hash_api_key (en_crypto V) token) (si_db st) = Some key"
      "get_user (ak_user_id key) (si_db st) = Some (pr_user p)" "\<not> us_suspended (pr_user p)" "pr_raw_api_key p = Some token"
      "si_world st1 = with_db (si_world st) (touched (k 16) key (si_db st))" by blast
    with get_api_key_by_hash_SomeD [OF key(1)] get_user_SomeD [OF key(2)] r Some show ?thesis
      by (auto simp: si_db_def)
  next
    case None
    with assms obtain token where t: "rq_session_cookie rq = Some token"
      "session_principal V k required token st = ((Inr (Some p), stale), st')"
      by (cases "rq_session_cookie rq") (auto simp: authenticated_principal_def split: if_splits)
    note s = session_principal_ok [OF t(2)]
    from resolve_session_user [OF conjunct1 [OF s]] obtain pl where
      "decode_signed_token (ss_env (en_sessions V)) (k 17) token = Inr (Some pl)" "se_user_id pl = us_id (pr_user p)" .
    with s t(1) None show ?thesis by (auto simp: si_db_def)
  qed
  then show "get_user (us_id (pr_user p)) (si_db st') = Some (pr_user p)" "\<not> us_suspended (pr_user p)" "\<not> stale"
    "\<And>token. bearer_token (rq_authorization rq) = Some token \<Longrightarrow> pr_raw_api_key p = Some token
      \<and> (\<exists>key. key \<in> set (db_api_keys (si_db st)) \<and> ak_key_hash key = hash_api_key (en_crypto V) token
          \<and> ak_user_id key = us_id (pr_user p) \<and> si_world st' = with_db (si_world st) (touched (k 16) key (si_db st)))"
    "bearer_token (rq_authorization rq) = None \<Longrightarrow> pr_raw_api_key p = None \<and> si_world st' = si_world st
      \<and> (\<exists>token pl. rq_session_cookie rq = Some token \<and> fst (resolve_session V k token st) = Inr (Some (us_id (pr_user p)))
          \<and> decode_signed_token (ss_env (en_sessions V)) (k 17) token = Inr (Some pl) \<and> se_user_id pl = us_id (pr_user p))"
    by blast+
qed

text \<open>C38: Whoever a request is taken to be from is a user of the tables who is not suspended, with the stored fields. With a
  bearer header, the user is the owner of the key whose hash is that of the token, and the request leaves its time in
  that key and nothing else in the tables; without one, the session cookie resolves to this user, and its token is one
  that the server signed for that user and is still in force. A bearer header is never passed over for the cookie.\<close>

theorem principals_are_genuine:
  assumes "authenticated_principal V k required rq st = ((Inr (Some p), stale), st')"
  shows "get_user (us_id (pr_user p)) (si_db st') = Some (pr_user p) \<and> \<not> us_suspended (pr_user p) \<and> \<not> stale
    \<and> (case bearer_token (rq_authorization rq) of
         Some token \<Rightarrow> pr_raw_api_key p = Some token
           \<and> (\<exists>key\<in>set (db_api_keys (si_db st)). ak_key_hash key = hash_api_key (en_crypto V) token
               \<and> ak_user_id key = us_id (pr_user p) \<and> si_world st' = with_db (si_world st) (touched (k 16) key (si_db st)))
       | None \<Rightarrow> pr_raw_api_key p = None \<and> si_world st' = si_world st
           \<and> (\<exists>body payload pl. rq_session_cookie rq = Some (body @ CHR ''.'' # tk_hmac (ss_env (en_sessions V)) payload)
               \<and> b64_decode body = Some payload
               \<and> decode_signed_token (ss_env (en_sessions V)) (k 17) (the (rq_session_cookie rq)) = Inr (Some pl)
               \<and> se_user_id pl = us_id (pr_user p)))"
proof (cases "bearer_token (rq_authorization rq)")
  case (Some token)
  with authenticated_principal_parts(1-4) [OF assms] show ?thesis by auto
next
  case None
  with authenticated_principal_parts(5) [OF assms] obtain token pl where t: "rq_session_cookie rq = Some token"
    "decode_signed_token (ss_env (en_sessions V)) (k 17) token = Inr (Some pl)" "se_user_id pl = us_id (pr_user p)" by blast
  from decode_signed_token_Some [OF t(2)] obtain body payload where
    "token = body @ CHR ''.'' # tk_hmac (ss_env (en_sessions V)) payload" "b64_decode body = Some payload" .
  with t None authenticated_principal_parts(1-3,5) [OF assms] show ?thesis by auto
qed

section \<open>A site for examples\<close>

text \<open>One failure, and windows and locks of one second.\<close>

definition ones :: "config_row list" where
  "ones = map (\<lambda>key. \<lparr>cr_key = key, cr_value = Some ''1'', cr_updated_at = 0\<rparr>)
     [''auth_rate_limit_login_ip_rpm'', ''auth_rate_limit_login_account_failures'',
      ''auth_rate_limit_login_account_window_seconds'', ''auth_rate_limit_login_lock_seconds'',
      ''auth_rate_limit_admin_ip_failures'', ''auth_rate_limit_admin_ip_window_seconds'', ''auth_rate_limit_admin_lock_seconds'']"

definition sample_env :: "(string \<rightharpoonup> string \<times> time) site_env" where
  "sample_env = \<lparr>en_environment = (\<lambda>_. None), en_client = lease_client 0, en_crypto = sample_crypto,
     en_sessions = sample_session_settings True\<rparr>"

definition sample_site :: "world \<Rightarrow> (string \<rightharpoonup> string \<times> time) site" where
  "sample_site w = \<lparr>si_world = w, si_config = ones, si_redis = sample_handle\<lparr>rh_mode := ''disabled''\<rparr>, si_server = Map.empty,
     si_auth = no_attempts, si_degraded = False, si_uploads = no_windows, si_uploads_degraded = False\<rparr>"

lemma sample_site_cfg: "site_cfg sample_env (sample_site w) = config_int (\<lambda>_. None) ones"
  by (simp add: site_cfg_def sample_env_def sample_site_def)

lemma sample_cfg_value:
  assumes "find_spec key = Some spec" "map_sum id rv_value (resolve_row (\<lambda>_. None) ones spec) = Inr (CInt n)"
  shows "config_int (\<lambda>_. None) ones key = Inr n"
proof -
  have "list_all (\<lambda>s. is_ok (resolve_row (\<lambda>_. None) ones s)) runtime_config_specs" by code_simp
  moreover from assms(2) obtain v where "resolve_row (\<lambda>_. None) ones spec = Inr v" "rv_value v = CInt n"
    by (cases "resolve_row (\<lambda>_. None) ones spec") auto
  ultimately have "get_value (\<lambda>_. None) ones key = Inr (CInt n)" using get_value_Inr [OF assms(1)] by (auto simp: list_all_iff)
  then show ?thesis by (simp add: config_int_def)
qed

lemma sample_cfg_ones: "key \<in> set (map cr_key ones) \<Longrightarrow> config_int (\<lambda>_. None) ones key = Inr 1"
proof -
  have "list_all (\<lambda>k. case find_spec k of None \<Rightarrow> False
      | Some s \<Rightarrow> map_sum id rv_value (resolve_row (\<lambda>_. None) ones s) = Inr (CInt 1)) (map cr_key ones)" by code_simp
  moreover assume "key \<in> set (map cr_key ones)"
  ultimately obtain s where "find_spec key = Some s" "map_sum id rv_value (resolve_row (\<lambda>_. None) ones s) = Inr (CInt 1)"
    by (fastforce simp: list_all_iff split: option.splits)
  then show ?thesis by (rule sample_cfg_value)
qed

lemma ones_settings:
  "login_failure_settings (config_int (\<lambda>_. None) ones) = Inr (1, 1, 1)"
  "admin_denial_settings (config_int (\<lambda>_. None) ones) = Inr (1, 1, 1)"
  "config_int (\<lambda>_. None) ones ''auth_rate_limit_login_ip_rpm'' = Inr 1"
  by (simp_all add: login_failure_settings_def admin_denial_settings_def failure_settings_def sample_cfg_ones
      ones_def [THEN arg_cong, of "map cr_key"])

lemma sample_quota: "config_int (\<lambda>_. None) ones ''default_user_quota_bytes'' = Inr 2147483648"
proof -
  have "map_option (\<lambda>s. map_sum id rv_value (resolve_row (\<lambda>_. None) ones s)) (find_spec ''default_user_quota_bytes'')
      = Some (Inr (CInt 2147483648))" by code_simp
  then show ?thesis by (auto intro: sample_cfg_value)
qed

lemma sample_site_off: "\<not> handle_enabled (si_redis (sample_site w))"
  by (simp add: sample_site_def handle_enabled_def)

definition cookie_request :: "string \<Rightarrow> http_request" where
  "cookie_request token = \<lparr>rq_authorization = [], rq_session_cookie = Some token, rq_ip = ''1'', rq_path = ''/''\<rparr>"

lemma sample_cookie_principal:
  assumes "get_user ''u'' (w_db w) = Some (sample_user ''u'' admin)"
  shows "authenticated_principal sample_env (\<lambda>_. 5) b (cookie_request sample_token) (sample_site w)
     = ((Inr (Some \<lparr>pr_user = sample_user ''u'' admin, pr_raw_api_key = None\<rparr>), False), sample_site w)"
proof -
  have "cookie_resolve_user (sample_session_settings True) 5 sample_token = Inr (Some ''u'')"
    by (simp add: cookie_resolve_user_def sample_token_decodes new_payload_def)
  moreover have "sample_token \<noteq> []" by (simp add: sample_token_def sign_session_def sign_values_def Let_def)
  ultimately show ?thesis
    using sample_site_off [of w] assms
    by (simp add: authenticated_principal_def cookie_request_def bearer_token_def session_principal_def resolve_session_def
      sample_env_def resolve_user_def si_db_def) (simp add: sample_site_def sample_user_def)
qed

lemma sample_principal:
  "authenticated_principal sample_env (\<lambda>_. 5) True (cookie_request sample_token) (sample_site (sample_world []))
     = ((Inr (Some \<lparr>pr_user = sample_user ''u'' False, pr_raw_api_key = None\<rparr>), False), sample_site (sample_world []))"
proof (rule sample_cookie_principal)
  show "get_user ''u'' (w_db (sample_world [])) = Some (sample_user ''u'' False)" by code_simp
qed

theorem principals_are_genuine_witness:
  "\<not> us_suspended (sample_user ''u'' False) \<and> (\<exists>body. \<exists>payload :: bytes. sample_token = body @ CHR ''.'' # show_nat (length payload))"
proof -
  from principals_are_genuine [OF sample_principal]
  have "\<not> us_suspended (sample_user ''u'' False)" "\<exists>body payload. sample_token = body @ CHR ''.'' # tk_hmac sample_token_env payload"
    by (auto simp: cookie_request_def bearer_token_def sample_env_def sample_session_settings_def)
  then show ?thesis by (auto simp: sample_token_env_def)
qed

section \<open>The gate of the administration\<close>

text \<open>With the limiter in memory, telling who a request is from changes no user, no denial and no lock of the administration.\<close>

definition same_gate :: "string \<Rightarrow> 's site \<Rightarrow> 's site \<Rightarrow> bool" where
  "same_gate ip st st' \<longleftrightarrow> si_redis st' = si_redis st \<and> si_config st' = si_config st \<and> db_users (si_db st') = db_users (si_db st)
     \<and> au_admin_denials (si_auth st') = au_admin_denials (si_auth st)
     \<and> au_locks (si_auth st') (admin_lock ip) = au_locks (si_auth st) (admin_lock ip)"

lemma same_gate_refl: "same_gate ip st st"
  by (simp add: same_gate_def)

lemma same_gate_trans: "same_gate ip a b \<Longrightarrow> same_gate ip b c \<Longrightarrow> same_gate ip a c"
  by (simp add: same_gate_def)

lemma admin_lock_names [simp]: "admin_lock a \<noteq> api_key_lock b" "api_key_lock b \<noteq> admin_lock a"
  by (simp_all add: admin_lock_def api_key_lock_def)

lemma check_lock_denials [simp]: "au_admin_denials (snd (check_lock key now au)) = au_admin_denials au"
  by (simp add: check_lock_def split: option.split)

lemma api_key_failure_gate:
  "au_admin_denials (snd (record_api_key_failure cfg now ip au)) = au_admin_denials au
   \<and> au_locks (snd (record_api_key_failure cfg now ip au)) (admin_lock ip') = au_locks au (admin_lock ip')"
  by (auto simp: record_api_key_failure_def dest!: count_failure_locks [where k = "admin_lock ip'"] split: sum.split prod.split)

lemma limiter_memory_gate:
  assumes "limiter_call r m st = (x, st')" "\<not> handle_enabled (si_redis st)"
    and "au_admin_denials (snd (m (si_auth st))) = au_admin_denials (si_auth st)"
    and "au_locks (snd (m (si_auth st))) (admin_lock ip) = au_locks (si_auth st) (admin_lock ip)"
  shows "same_gate ip st st'"
  using assms by (auto simp: limiter_call_memory same_gate_def si_db_def)

lemma api_key_gate:
  assumes "\<not> handle_enabled (si_redis st)"
  shows "api_key_attempt V k ip' st = (x, st') \<Longrightarrow> same_gate ip st st'"
    and "api_key_failure V k ip' st = (x, st') \<Longrightarrow> same_gate ip st st'"
    and "api_key_success V k ip' st = (x, st') \<Longrightarrow> same_gate ip st st'"
  unfolding api_key_attempt_def api_key_failure_def api_key_success_def
  by (erule limiter_memory_gate [OF _ assms];
      simp add: enforce_api_key_attempt_def check_lock_locks api_key_failure_gate record_api_key_success_def)+

lemma touch_api_key_gate: "touch_api_key now key st = (x, st') \<Longrightarrow> same_gate ip st st'"
  by (auto simp: touch_api_key_def update_api_key_def same_gate_def si_db_def Let_def split: sum.splits if_splits)

lemma io_seq_invariant:
  assumes "io_seq a b st = (x, st')" "I st"
    and "\<And>y s1. a st = (y, s1) \<Longrightarrow> I s1" "\<And>y s1. a st = (Inr y, s1) \<Longrightarrow> I s1 \<Longrightarrow> b s1 = (x, st') \<Longrightarrow> I st'"
  shows "I st'"
  using assms by (auto simp: io_seq_def io_bind_def split: prod.splits sum.splits)

lemma api_key_principal_gate:
  assumes "api_key_principal V k ip' token st = (x, st')" and off: "\<not> handle_enabled (si_redis st)"
  shows "same_gate ip st st'"
proof -
  have fail: "same_gate ip s s'" if "io_seq (api_key_failure V k ip') (io_raise e) s = (y, s')" "\<not> handle_enabled (si_redis s)" for e s y s'
    by (rule io_seq_invariant [OF that(1), of "same_gate ip s"])
      (auto simp: same_gate_refl io_raise_def intro: api_key_gate(2) [OF that(2)])
  have ok: "same_gate ip s s'"
    if "io_seq (api_key_success V k ip') (io_seq (touch_api_key t key) (io_return p)) s = (y, s')" "\<not> handle_enabled (si_redis s)"
    for t key p s y s'
  proof (rule io_seq_invariant [OF that(1), of "same_gate ip s"])
    fix s1 assume s1: "same_gate ip s s1" and r: "io_seq (touch_api_key t key) (io_return p) s1 = (y, s')"
    show "same_gate ip s s'"
      by (rule io_seq_invariant [OF r, of "same_gate ip s"])
        (auto simp: s1 io_return_def intro: same_gate_trans [OF s1] touch_api_key_gate)
  qed (auto simp: same_gate_refl intro: api_key_gate(3) [OF that(2)])
  show ?thesis
  proof (rule io_seq_invariant [OF assms(1) [unfolded api_key_principal_def], of "same_gate ip st"])
    fix s1
    assume s1: "same_gate ip st s1" and r: "(case get_api_key_by_hash (hash_api_key (en_crypto V) token) (si_db s1) of
          None \<Rightarrow> io_seq (api_key_failure V k ip') (io_raise (HTTPException 401 ''Invalid API key.'')) s1
        | Some key \<Rightarrow>
            (case get_user (ak_user_id key) (si_db s1) of
               None \<Rightarrow> io_seq (api_key_failure V k ip') (io_raise not_allowed) s1
             | Some u \<Rightarrow>
                 if us_suspended u then io_seq (api_key_failure V k ip') (io_raise not_allowed) s1
                 else io_seq (api_key_success V k ip') (io_seq (touch_api_key (k 16) key)
                   (io_return \<lparr>pr_user = u, pr_raw_api_key = Some token\<rparr>)) s1)) = (x, st')"
    have "\<not> handle_enabled (si_redis s1)" using s1 off by (simp add: same_gate_def)
    with r have "same_gate ip s1 st'" by (auto split: option.splits if_splits intro: fail ok)
    with s1 show "same_gate ip st st'" by (rule same_gate_trans)
  qed (auto simp: same_gate_refl intro: api_key_gate(1) [OF off])
qed

lemma resolve_session_memory:
  "\<not> handle_enabled (si_redis st) \<Longrightarrow> resolve_session V k token st = (cookie_resolve_user (en_sessions V) (k 17) token, st)"
  by (simp add: resolve_session_def resolve_user_def)

lemma authenticated_user_gate:
  assumes "authenticated_user V k required rq st = (x, st')" "\<not> handle_enabled (si_redis st)"
  shows "same_gate ip st st'"
proof (cases "bearer_token (rq_authorization rq)")
  case (Some token)
  obtain r s1 where a: "api_key_principal V k (rq_ip rq) token st = (r, s1)" by fastforce
  from api_key_principal_gate [OF this assms(2)] assms(1) Some a show ?thesis
    by (simp add: authenticated_user_def authenticated_principal_def)
next
  case None
  have "snd (session_principal V k required token st) = st" for token
    by (simp add: session_principal_def resolve_session_memory [OF assms(2)] split: sum.split option.split)
  with None assms(1) have "st' = st"
    by (auto simp: authenticated_user_def authenticated_principal_def split: prod.splits if_splits) (metis snd_conv)+
  then show ?thesis by (simp add: same_gate_refl)
qed

text \<open>A denial is counted, whether or not it also locks the client out.\<close>

lemma record_admin_denial_counts:
  assumes "admin_denial_settings cfg = Inr (threshold, w, l)" "0 < w"
  shows "fst (record_admin_denial cfg now ip au) = Inr ()
    \<and> (\<exists>earlier. window_of (au_admin_denials (snd (record_admin_denial cfg now ip au))) ip = earlier @ [now])"
proof -
  obtain counter m1 where sd: "setdefault ip (au_admin_denials au) = (counter, m1)" by fastforce
  have "0 < seconds w" using assms(2) by (simp add: seconds_def sec_def)
  then obtain xs where "auth_prune now (seconds w) (auth_add now counter) = xs @ [now]"
    using prune_keeps [of "[now]" now "seconds w" counter] by (auto simp: auth_add_def)
  then show ?thesis
    by (simp add: record_admin_denial_def assms(1) count_failure_def sd Let_def auth_count_def window_of_def auth_add_def)
qed

lemma admin_denial_run:
  assumes "admin_denial_settings (site_cfg V st) = Inr (threshold, w, l)" "0 < w" "\<not> handle_enabled (si_redis st)"
  shows "\<exists>st' earlier. io_seq (admin_denial V k ip) b st = b st' \<and> si_world st' = si_world st
    \<and> window_of (au_admin_denials (si_auth st')) ip = earlier @ [k 25]"
  using record_admin_denial_counts [OF assms(1,2), of "k 25" ip "si_auth st"] assms(3)
  by (auto simp: io_seq_def io_bind_def admin_denial_def limiter_call_memory)

lemma admin_denial_raises:
  fixes st :: "'s site" and r :: "err + 'a"
  assumes "admin_denial_settings (site_cfg V st) = Inr (threshold, w, l)" "0 < w" "\<not> handle_enabled (si_redis st)"
    and "io_seq (admin_denial V k ip) (io_raise e) st = (r, st')"
  shows "r = Inl e \<and> si_world st' = si_world st \<and> (\<exists>earlier. window_of (au_admin_denials (si_auth st')) ip = earlier @ [k 25])"
  using admin_denial_run [OF assms(1-3), of k ip "io_raise e :: 's site \<Rightarrow> (err + 'a) \<times> 's site"] assms(4)
  by (auto simp: io_raise_def)

lemma authenticated_user_Some:
  assumes "authenticated_user V k required rq st = (Inr (Some u), st')"
  shows "get_user (us_id u) (si_db st') = Some u \<and> \<not> us_suspended u"
proof -
  obtain r stale s1 where a: "authenticated_principal V k required rq st = ((r, stale), s1)" by (metis prod.exhaust)
  with assms obtain p where "r = Inr (Some p)" "u = pr_user p" "s1 = st'"
    by (cases r) (auto simp: authenticated_user_def)
  with authenticated_principal_parts(1,2) a show ?thesis by blast
qed

lemma admin_attempt_memory:
  assumes "\<not> handle_enabled (si_redis st)"
  shows "admin_attempt V k ip st = (case au_locks (si_auth st) (admin_lock ip) of
      None \<Rightarrow> (Inr (), st)
    | Some e \<Rightarrow> if e \<le> k 22 then (Inr (), st\<lparr>si_auth := (si_auth st)\<lparr>au_locks := (au_locks (si_auth st))(admin_lock ip := None)\<rparr>\<rparr>)
        else (Inl too_many_attempts, st))"
  using assms by (auto simp: admin_attempt_def limiter_call_memory enforce_admin_attempt_def check_lock_def split: option.split)

text \<open>The gate of the administration, with the limiter in memory: while the client's lock runs, the request is refused
  with 429 before anything is looked at and nothing changes, not even for an administrator. Otherwise whoever passes is
  an administrator of the tables who is not suspended, and whoever is refused with 401 or 403 has the refusal counted
  against the client; no user changes in either case.\<close>

theorem admin_gate_holds:
  assumes "require_admin_user V k rq st = (r, st')" "\<not> handle_enabled (si_redis st)"
    and "admin_denial_settings (site_cfg V st) = Inr (threshold, w, l)" "0 < w"
  shows "db_users (si_db st') = db_users (si_db st)
    \<and> (if \<exists>e. au_locks (si_auth st) (admin_lock (rq_ip rq)) = Some e \<and> k 22 < e then r = Inl too_many_attempts \<and> st' = st
       else (case r of
           Inr a \<Rightarrow> us_is_admin a \<and> \<not> us_suspended a \<and> get_user (us_id a) (si_db st') = Some a
         | Inl e \<Rightarrow> is_denial e \<longrightarrow> (\<exists>earlier. window_of (au_admin_denials (si_auth st')) (rq_ip rq) = earlier @ [k 25])))"
proof (cases "\<exists>e. au_locks (si_auth st) (admin_lock (rq_ip rq)) = Some e \<and> k 22 < e")
  case True
  with assms(1) show ?thesis
    by (auto simp: require_admin_user_def io_seq_def io_bind_def admin_attempt_memory [OF assms(2)])
next
  case False
  then obtain s0 where a: "admin_attempt V k (rq_ip rq) st = (Inr (), s0)" and s0: "si_redis s0 = si_redis st" "si_world s0 = si_world st"
      "si_config s0 = si_config st"
    by (cases "au_locks (si_auth st) (admin_lock (rq_ip rq))") (auto simp: admin_attempt_memory [OF assms(2)] not_less)
  obtain x s1 where u: "authenticated_user V k True rq s0 = (x, s1)" by fastforce
  have off0: "\<not> handle_enabled (si_redis s0)" using assms(2) s0 by simp
  have g: "same_gate (rq_ip rq) s0 s1" by (rule authenticated_user_gate [OF u off0])
  then have off1: "\<not> handle_enabled (si_redis s1)" and users: "db_users (si_db s1) = db_users (si_db st)"
    using off0 s0 by (simp_all add: same_gate_def si_db_def)
  have "site_cfg V s1 = site_cfg V st" using g s0 by (intro site_cfg_cong) (simp add: same_gate_def)
  then have "admin_denial_settings (site_cfg V s1) = Inr (threshold, w, l)" using assms(3) by simp
  note denied = admin_denial_raises [OF this assms(4) off1]
  note step = io_seq_Inr [where m = "admin_attempt V k (rq_ip rq)", OF a]
  note run = assms(1) [unfolded require_admin_user_def step u]
  show ?thesis
  proof (cases "\<exists>a. x = Inr (Some a) \<and> us_is_admin a")
    case True
    then obtain a where "x = Inr (Some a)" "us_is_admin a" by blast
    with run have "r = Inr a" "st' = s1" by auto
    moreover have "get_user (us_id a) (si_db s1) = Some a \<and> \<not> us_suspended a"
      using authenticated_user_Some [of V k True rq s0 a s1] u \<open>x = Inr (Some a)\<close> by simp
    ultimately show ?thesis using \<open>us_is_admin a\<close> users False by auto
  next
    case not_admin: False
    then have "\<exists>e. io_seq (admin_denial V k (rq_ip rq)) (io_raise e) s1 = (r, st') \<or> r = Inl e \<and> \<not> is_denial e \<and> st' = s1"
      using run by (cases x) (auto split: option.splits if_splits)
    then show ?thesis
    proof (elim exE disjE)
      fix e assume "io_seq (admin_denial V k (rq_ip rq)) (io_raise e) s1 = (r, st')"
      from denied [OF this] False users show ?thesis by (auto simp: si_db_def)
    qed (use False users in auto)
  qed
qed

definition admin_site :: "(string \<rightharpoonup> string \<times> time) site" where
  "admin_site = (sample_site (sample_world []))
     \<lparr>si_auth := no_attempts\<lparr>au_locks := [admin_lock ''1'' \<mapsto> 7]\<rparr>\<rparr>"

theorem admin_gate_holds_witness:
  "fst (require_admin_user sample_env (\<lambda>_. 5) (cookie_request sample_token) admin_site) = Inl too_many_attempts"
proof -
  have "site_cfg sample_env admin_site = config_int (\<lambda>_. None) ones"
    by (simp add: admin_site_def sample_site_cfg)
  then have "admin_denial_settings (site_cfg sample_env admin_site) = Inr (1, 1, 1)" by (simp add: ones_settings)
  moreover have "\<not> handle_enabled (si_redis admin_site)" using sample_site_off by (simp add: admin_site_def)
  ultimately show ?thesis
    using admin_gate_holds [OF prod.collapse [symmetric], of admin_site sample_env 1 1 1 "\<lambda>_. 5" "cookie_request sample_token"]
    by (auto simp: admin_site_def cookie_request_def split: if_splits)
qed

section \<open>Guessing a password\<close>

type_synonym guess = "(nat \<Rightarrow> time) \<times> string \<times> string \<times> http_request \<times> login_request"

definition send_login :: "'s site_env \<Rightarrow> guess \<Rightarrow> 's site \<Rightarrow> (err + login_response) \<times> 's site" where
  "send_login V g = (case g of (k, new_uuid, cid, rq, p) \<Rightarrow> login V k new_uuid cid rq p)"

definition guess_key :: "crypto \<Rightarrow> guess \<Rightarrow> string" where
  "guess_key cr g = (case g of (k, new_uuid, cid, rq, p) \<Rightarrow> hash_auth_identifier cr (py_strip (lq_login p)))"

definition guess_time :: "guess \<Rightarrow> time" where
  "guess_time g = fst g 6"

definition wrong_guess :: "crypto \<Rightarrow> db \<Rightarrow> guess \<Rightarrow> bool" where
  "wrong_guess cr d g = (case g of (k, new_uuid, cid, rq, p) \<Rightarrow>
     (case authenticate_local_user cr (lq_login p) (lq_password p) d of Inl (HTTPException _ _) \<Rightarrow> True | _ \<Rightarrow> False))"

fun send_logins :: "'s site_env \<Rightarrow> guess list \<Rightarrow> 's site \<Rightarrow> (err + login_response) list \<times> 's site" where
  "send_logins V [] st = ([], st)"
| "send_logins V (g # gs) st =
     (case send_login V g st of (r, st1) \<Rightarrow> (case send_logins V gs st1 of (rs, st2) \<Rightarrow> (r # rs, st2)))"

lemma send_logins_snoc:
  "send_logins V (gs @ [g]) st =
     (case send_logins V gs st of (rs, st1) \<Rightarrow> (case send_login V g st1 of (r, st2) \<Rightarrow> (rs @ [r], st2)))"
  by (induction gs arbitrary: st) (simp_all split: prod.split)

lemma login_attempt_failures:
  "au_login_failures (snd (enforce_login_attempt cfg now ip key au)) = au_login_failures au"
  by (simp add: enforce_login_attempt_def check_lock_def split: option.split sum.split prod.split)

lemma login_lock_inject [simp]: "login_lock k = login_lock k' \<longleftrightarrow> k = k'"
  by (simp add: login_lock_def)

lemma login_attempt_other_locks:
  "k' \<noteq> key \<Longrightarrow> au_locks (snd (enforce_login_attempt cfg now ip key au)) (login_lock k') = au_locks au (login_lock k')"
  by (simp add: enforce_login_attempt_def check_lock_def split: option.split sum.split prod.split)

lemma login_failure_others:
  assumes "k' \<noteq> key"
  shows "window_of (au_login_failures (snd (record_login_failure cfg now key au))) k' = window_of (au_login_failures au) k'"
    "au_locks (snd (record_login_failure cfg now key au)) (login_lock k') = au_locks au (login_lock k')"
  using assms by (auto simp: record_login_failure_def count_failure_def setdefault_def window_of_def Let_def
      split: option.split sum.split prod.split)

lemma login_attempt_refusal:
  "fst (enforce_login_attempt cfg now ip key au) = Inl e \<Longrightarrow> cfg ''auth_rate_limit_login_ip_rpm'' = Inr rpm \<Longrightarrow> e = too_many_attempts"
  by (auto simp: enforce_login_attempt_def check_lock_def attempt_window_def enforce_attempt_counter_def
    split: option.splits prod.splits sum.splits if_splits)

text \<open>A login with wrong credentials that is not turned away counts as one failure.\<close>

lemma wrong_login:
  assumes "send_login V g st = (r, st')" "wrong_guess (en_crypto V) (si_db st) g" "r \<noteq> Inl too_many_attempts"
    and "\<not> handle_enabled (si_redis st)" "login_failure_settings (site_cfg V st) = Inr settings"
    and "site_cfg V st ''auth_rate_limit_login_ip_rpm'' = Inr rpm"
  shows "si_redis st' = si_redis st \<and> si_world st' = si_world st \<and> si_config st' = si_config st
    \<and> (\<exists>au. au_login_failures au = au_login_failures (si_auth st)
        \<and> (\<forall>k'. k' \<noteq> guess_key (en_crypto V) g \<longrightarrow> au_locks au (login_lock k') = au_locks (si_auth st) (login_lock k'))
        \<and> si_auth st' = snd (record_login_failure (site_cfg V st) (guess_time g) (guess_key (en_crypto V) g) au))"
proof -
  obtain k new_uuid cid rq p where g: "g = (k, new_uuid, cid, rq, p)" by (metis prod_cases5)
  define key where "key = guess_key (en_crypto V) g"
  obtain c detail where bad: "authenticate_local_user (en_crypto V) (lq_login p) (lq_password p) (si_db st) = Inl (HTTPException c detail)"
    using assms(2) by (auto simp: wrong_guess_def g split: sum.splits err.splits)
  have keyeq: "hash_auth_identifier (en_crypto V) (py_strip (lq_login p)) = key" by (simp add: key_def guess_key_def g)
  let ?a = "enforce_login_attempt (site_cfg V st) (k 3) (rq_ip rq) key (si_auth st)"
  let ?st = "st\<lparr>si_auth := snd ?a\<rparr>"
  have a: "login_attempt V k (rq_ip rq) key st = (fst ?a, ?st)"
    by (simp add: login_attempt_def limiter_call_memory [OF assms(4)])
  have run: "io_seq (login_attempt V k (rq_ip rq) key) (\<lambda>st. case authenticate_local_user (en_crypto V) (lq_login p) (lq_password p) (si_db st) of
           Inl (HTTPException c detail) \<Rightarrow> io_seq (login_failure V k key) (io_raise (HTTPException c detail)) st
         | Inl e \<Rightarrow> (Inl e, st)
         | Inr u \<Rightarrow> io_seq (login_success V k key) (\<lambda>st1. open_session V k new_uuid u (lq_remember_me p)
                 (if us_is_admin u then st1\<lparr>si_world := emit (AdminLoggedIn (us_id u) ''web'' cid) (si_world st1)\<rparr> else st1)) st) st = (r, st')"
    using assms(1) unfolding send_login_def g login_def by (simp only: prod.case Let_def keyeq)
  have "fst ?a = Inr ()"
  proof (rule ccontr)
    assume "fst ?a \<noteq> Inr ()"
    then obtain e where e: "fst ?a = Inl e" by (cases "fst ?a") auto
    from run have "r = Inl e" by (simp add: io_seq_def io_bind_def a e)
    with login_attempt_refusal [OF e assms(6)] assms(3) show False by simp
  qed
  moreover have "si_db ?st = si_db st" by (simp add: si_db_def)
  ultimately have "io_seq (login_failure V k key) (io_raise (HTTPException c detail)) ?st = (r, st')"
    using run by (simp add: io_seq_def io_bind_def a bad)
  moreover have "fst (record_login_failure (site_cfg V st) (k 6) key (snd ?a)) = Inr ()"
    by (simp add: record_login_failure_def assms(5) split: prod.split)
  ultimately have "st' = ?st\<lparr>si_auth := snd (record_login_failure (site_cfg V st) (k 6) key (snd ?a))\<rparr>"
    using assms(4) by (simp add: io_seq_def io_bind_def login_failure_def limiter_call_memory io_raise_def)
  then show ?thesis
    by (auto simp: g guess_time_def key_def [symmetric, unfolded g] login_attempt_failures login_attempt_other_locks
        intro!: exI [of _ "snd ?a"])
qed

lemma wrong_login_answer:
  assumes "authenticate_local_user (en_crypto V) (lq_login p) (lq_password p) (si_db st) = Inl (HTTPException c detail)"
    and "fst (enforce_login_attempt (site_cfg V st) (k 3) (rq_ip rq) (hash_auth_identifier (en_crypto V) (py_strip (lq_login p)))
      (si_auth st)) = Inr ()"
    and "\<not> handle_enabled (si_redis st)" "login_failure_settings (site_cfg V st) = Inr settings"
  shows "fst (login V k new_uuid cid rq p st) = Inl (HTTPException c detail)"
proof -
  let ?key = "hash_auth_identifier (en_crypto V) (py_strip (lq_login p))"
  let ?st = "st\<lparr>si_auth := snd (enforce_login_attempt (site_cfg V st) (k 3) (rq_ip rq) ?key (si_auth st))\<rparr>"
  have "login_attempt V k (rq_ip rq) ?key st = (Inr (), ?st)"
    using assms(2) by (simp add: login_attempt_def limiter_call_memory [OF assms(3)])
  moreover have "si_db ?st = si_db st" by (simp add: si_db_def)
  moreover obtain st3 where "login_failure V k ?key ?st = (Inr (), st3)"
    using assms(3) by (auto simp: login_failure_def limiter_call_memory record_login_failure_def assms(4) split: prod.splits)
  ultimately show ?thesis
    by (simp add: login_def Let_def io_seq_def io_bind_def io_raise_def assms(1))
qed

text \<open>The guesses at one name, among guesses at others.\<close>

definition guess_times :: "crypto \<Rightarrow> string \<Rightarrow> guess list \<Rightarrow> time list" where
  "guess_times cr key gs = map guess_time (filter (\<lambda>g. guess_key cr g = key) gs)"

lemma guess_times_snoc [simp]:
  "guess_times cr key [] = []"
  "guess_times cr key (gs @ [g]) = guess_times cr key gs @ (if guess_key cr g = key then [guess_time g] else [])"
  by (simp_all add: guess_times_def)

lemma guess_times_le: "sorted (map guess_time (gs @ [g])) \<Longrightarrow> t \<in> set (guess_times cr key gs) \<Longrightarrow> t \<le> guess_time g"
  by (auto simp: guess_times_def sorted_append)

lemma wrong_logins:
  fixes key :: string
  assumes "send_logins V gs st = (rs, st')" "\<forall>g\<in>set gs. wrong_guess (en_crypto V) (si_db st) g"
    and "Inl too_many_attempts \<notin> set rs" "\<not> handle_enabled (si_redis st)"
    and cfg: "login_failure_settings (site_cfg V st) = Inr (threshold, w, l)" "0 < threshold"
    and rpm: "site_cfg V st ''auth_rate_limit_login_ip_rpm'' = Inr rpm"
    and "sorted (map guess_time gs)"
  defines "ts \<equiv> guess_times (en_crypto V) key"
  assumes "\<forall>t\<in>set (ts gs). last (ts gs) - seconds w < t"
  shows "si_redis st' = si_redis st \<and> si_world st' = si_world st \<and> si_config st' = si_config st
    \<and> (\<exists>xs. window_of (au_login_failures (si_auth st')) key = xs @ ts gs)
    \<and> (ts gs \<noteq> [] \<and> threshold \<le> int (length (ts gs)) \<longrightarrow>
         au_locks (si_auth st') (login_lock key) = Some (last (ts gs) + seconds l))"
  using assms(1-4,8,10)
proof (induction gs arbitrary: rs st' rule: rev_induct)
  case Nil
  then show ?case by (simp add: ts_def)
next
  case (snoc g gs)
  obtain rs1 st1 where r1: "send_logins V gs st = (rs1, st1)" by fastforce
  obtain r st2 where r2: "send_login V g st1 = (r, st2)" by fastforce
  from snoc.prems(1) r1 r2 have rs: "rs = rs1 @ [r]" "st' = st2" by (auto simp: send_logins_snoc)
  have sorted: "sorted (map guess_time gs)" using snoc.prems(5) by (simp add: sorted_append)
  have win: "\<forall>t\<in>set (ts gs). last (ts gs) - seconds w < t"
  proof
    fix t assume t: "t \<in> set (ts gs)"
    then have "last (ts gs) \<in> set (ts gs)" by (cases "ts gs") auto
    then have "last (ts gs) \<le> guess_time g" using guess_times_le [OF snoc.prems(5)] by (simp add: ts_def)
    with snoc.prems(6) t show "last (ts gs) - seconds w < t" by (fastforce simp: ts_def split: if_splits)
  qed
  from snoc.IH [OF r1] snoc.prems(2-4) sorted win rs have IH: "si_redis st1 = si_redis st" "si_world st1 = si_world st" "si_config st1 = si_config st"
    "\<exists>xs. window_of (au_login_failures (si_auth st1)) key = xs @ ts gs"
    "ts gs \<noteq> [] \<and> threshold \<le> int (length (ts gs)) \<longrightarrow> au_locks (si_auth st1) (login_lock key) = Some (last (ts gs) + seconds l)" by auto
  have "wrong_guess (en_crypto V) (si_db st1) g" "r \<noteq> Inl too_many_attempts" "\<not> handle_enabled (si_redis st1)"
    using snoc.prems(2-4) IH(1,2) rs by (auto simp: si_db_def)
  moreover have same: "site_cfg V st1 = site_cfg V st" by (rule site_cfg_cong [OF IH(3)])
  ultimately obtain au where au: "si_redis st2 = si_redis st1" "si_world st2 = si_world st1" "si_config st2 = si_config st1"
    "au_login_failures au = au_login_failures (si_auth st1)"
    "\<And>k'. k' \<noteq> guess_key (en_crypto V) g \<Longrightarrow> au_locks au (login_lock k') = au_locks (si_auth st1) (login_lock k')"
    "si_auth st2 = snd (record_login_failure (site_cfg V st) (guess_time g) (guess_key (en_crypto V) g) au)"
    using wrong_login [OF r2, of "(threshold, w, l)" rpm] cfg(1) rpm by auto
  show ?case
  proof (cases "guess_key (en_crypto V) g = key")
    case True
    have "\<forall>t\<in>set (ts gs @ [guess_time g]). guess_time g - seconds w < t"
      using snoc.prems(6) True by (simp add: ts_def)
    from record_failure_step [OF cfg IH(4) [folded au(4)] this] au rs IH True show ?thesis by (auto simp: ts_def add.commute)
  next
    case False
    with au(4-6) IH rs au(1-3) show ?thesis by (simp add: ts_def login_failure_others)
  qed
qed

text \<open>An account has two names to sign in by, each with a key of its own in the limiter.\<close>

definition reached_by :: "db \<Rightarrow> string \<Rightarrow> user \<Rightarrow> bool" where
  "reached_by d login_text u \<longleftrightarrow> (case get_user_by_email (py_lower (py_strip login_text)) d of
     Some v \<Rightarrow> v = u | None \<Rightarrow> get_user_by_username (py_strip login_text) d = Some u)"

definition account_keys :: "crypto \<Rightarrow> user \<Rightarrow> string list" where
  "account_keys cr u = map (hash_auth_identifier cr) [us_email u, us_username u]"

text \<open>Whoever signs in is reached by the name that was given.\<close>

lemma authenticates_reached: "authenticate_local_user cr x y d = Inr u \<Longrightarrow> reached_by d x u"
  by (auto simp: authenticate_local_user_def reached_by_def Let_def split: if_splits option.splits)

lemma py_isspace_lower [simp]: "py_isspace (py_lower_char c) = py_isspace c"
proof -
  have "(of_char (char_of (n + 32) :: char) :: nat) = n + 32" if "n \<le> 222" for n :: nat using that by (simp add: of_char_of)
  then show ?thesis by (auto simp: py_isspace_def py_lower_char_def Let_def)
qed

lemma py_lower_char_idem [simp]: "py_lower_char (py_lower_char c) = py_lower_char c"
proof -
  have "(of_char (char_of (n + 32) :: char) :: nat) = n + 32" if "n \<le> 222" for n :: nat using that by (simp add: of_char_of)
  then show ?thesis by (auto simp: py_lower_char_def Let_def)
qed

lemma strip_lower: "py_strip (py_lower x) = py_lower (py_strip x)"
  by (simp add: py_strip_def py_lower_def rstrip_on_def lstrip_on_def dropWhile_map rev_map comp_def)

lemma strip_idem [simp]: "py_strip (py_strip x) = py_strip x"
proof -
  let ?D = "dropWhile py_isspace"
  have "?D (rev (?D (rev (?D x)))) = rev (?D (rev (?D x)))"
  proof (cases "rev (?D (rev (?D x)))")
    case (Cons c cs)
    obtain zs where "?D x = rev (?D (rev (?D x))) @ zs"
      by (metis rev_append rev_rev_ident takeWhile_dropWhile_id)
    with Cons have "c = hd (?D x)" "?D x \<noteq> []" by auto
    then have "\<not> py_isspace c" using hd_dropWhile by blast
    with Cons show ?thesis by simp
  qed (simp only: dropWhile.simps)
  then show ?thesis by (simp add: py_strip_def rstrip_on_def lstrip_on_def)
qed

lemma reached_by_key:
  assumes "reached_by d x u"
  shows "hash_auth_identifier cr (py_strip x) \<in> set (account_keys cr u)"
proof -
  have low: "py_lower (py_lower y) = py_lower y" for y by (simp add: py_lower_def comp_def)
  from assms have "us_email u = py_lower (py_strip x) \<or> us_username u = py_strip x"
    by (auto simp: reached_by_def get_user_by_email_def get_user_by_username_def row_to_user_def Let_def
        split: option.splits dest!: find_row_SomeD)
  then show ?thesis by (auto simp: account_keys_def hash_auth_identifier_def strip_lower low)
qed

text \<open>At time \<open>now\<close>, the guesses at one name are as many as allowed, within the window, and the lock has not passed.\<close>

definition guessed_out :: "crypto \<Rightarrow> int \<times> int \<times> int \<Rightarrow> guess list \<Rightarrow> time \<Rightarrow> string \<Rightarrow> bool" where
  "guessed_out cr settings gs now key \<longleftrightarrow> (case settings of (threshold, w, l) \<Rightarrow>
     let ts = guess_times cr key gs in
     threshold \<le> int (length ts) \<and> (\<forall>t\<in>set ts. last ts - seconds w < t) \<and> now < last ts + seconds l)"

lemma guessed_out_refused:
  assumes "send_logins V gs st = (rs, st')" "\<forall>g\<in>set gs. wrong_guess (en_crypto V) (si_db st) g"
    and "Inl too_many_attempts \<notin> set rs" "\<not> handle_enabled (si_redis st)"
    and "login_failure_settings (site_cfg V st) = Inr (threshold, w, l)" "0 < threshold"
    and "site_cfg V st ''auth_rate_limit_login_ip_rpm'' = Inr rpm" "sorted (map guess_time gs)"
    and out: "guessed_out (en_crypto V) (threshold, w, l) gs (k 3) (hash_auth_identifier (en_crypto V) (py_strip (lq_login p)))"
  shows "login V k new_uuid cid rq p st' = (Inl too_many_attempts, st')"
proof -
  let ?key = "hash_auth_identifier (en_crypto V) (py_strip (lq_login p))"
  let ?ts = "guess_times (en_crypto V) ?key gs"
  from out have o: "threshold \<le> int (length ?ts)" "\<forall>t\<in>set ?ts. last ?ts - seconds w < t" "k 3 < last ?ts + seconds l"
    by (simp_all add: guessed_out_def Let_def)
  have "?ts \<noteq> []" using o(1) assms(6) by auto
  with wrong_logins [OF assms(1-8) o(2)] o(1) have "si_redis st' = si_redis st"
    "au_locks (si_auth st') (login_lock ?key) = Some (last ?ts + seconds l)" by auto
  with assms(4) o(3) show ?thesis
    by (simp add: login_def Let_def io_seq_def io_bind_def login_attempt_def limiter_call_memory enforce_login_attempt_def check_lock_def)
qed

text \<open>C39: Guessing passwords, with the limiter in memory: failures are counted by the name that was given (blanks at its ends and case
  aside), whatever address they came from and whatever other names were guessed at in between. Once as many logins with
  wrong credentials under one name as the settings allow have been answered within the window, every login under that
  name is refused with 429 until the lock time after the last of them has passed, with the right password too, and
  nothing changes. An account has two names, its address and its user name, and one stays open while the other is
  locked: once both are guessed out, every login that would reach the account is refused. The guesses change nothing in the
  tables.\<close>

theorem guessing_locks_the_account:
  assumes "send_logins V gs st = (rs, st')" "\<forall>g\<in>set gs. wrong_guess (en_crypto V) (si_db st) g"
    and "Inl too_many_attempts \<notin> set rs" "\<not> handle_enabled (si_redis st)"
    and "login_failure_settings (site_cfg V st) = Inr (threshold, w, l)" "0 < threshold"
    and "site_cfg V st ''auth_rate_limit_login_ip_rpm'' = Inr rpm" "sorted (map guess_time gs)"
  defines "out \<equiv> guessed_out (en_crypto V) (threshold, w, l) gs"
  shows "si_world st' = si_world st
    \<and> (\<forall>p k new_uuid cid rq. out (k 3) (hash_auth_identifier (en_crypto V) (py_strip (lq_login p)))
         \<longrightarrow> login V k new_uuid cid rq p st' = (Inl too_many_attempts, st'))
    \<and> (\<forall>p k new_uuid cid rq u. reached_by (si_db st') (lq_login p) u \<and> (\<forall>key\<in>set (account_keys (en_crypto V) u). out (k 3) key)
         \<longrightarrow> login V k new_uuid cid rq p st' = (Inl too_many_attempts, st'))"
proof -
  have "si_world st' = si_world st"
  proof -
    obtain key where "key \<notin> guess_key (en_crypto V) ` set gs"
      using ex_new_if_finite [OF infinite_UNIV_listI, of "guess_key (en_crypto V) ` set gs"] by blast
    then have "guess_times (en_crypto V) key gs = []" by (auto simp: guess_times_def filter_empty_conv)
    with wrong_logins [OF assms(1-8), of key] show ?thesis by simp
  qed
  with guessed_out_refused [OF assms(1-8)] reached_by_key show ?thesis unfolding out_def by blast
qed

definition sample_guess :: guess where
  "sample_guess = (\<lambda>_. seconds 1, ''s'', ''c'', cookie_request [], \<lparr>lq_login = '' Zoe@X'', lq_password = ''x'', lq_remember_me = False\<rparr>)"

lemma sample_attempt: "fst (enforce_login_attempt (config_int (\<lambda>_. None) ones) t ip key no_attempts) = Inr ()"
  by (simp add: enforce_login_attempt_def check_lock_def no_attempts_def ones_settings attempt_window_def setdefault_def
    enforce_attempt_counter_def auth_count_def auth_prune_def)

lemma sample_guess_answer:
  "fst (send_login sample_env sample_guess (sample_site (snd registered))) = Inl (HTTPException 401 ''Invalid credentials.'')"
proof -
  have db: "si_db (sample_site (snd registered)) = w_db (snd registered)" "en_crypto sample_env = sample_crypto"
    by (simp_all add: si_db_def sample_site_def sample_env_def)
  have "authenticate_local_user sample_crypto '' Zoe@X'' ''x'' (w_db (snd registered)) = Inl (HTTPException 401 ''Invalid credentials.'')"
    by code_simp
  moreover have "si_auth (sample_site (snd registered)) = no_attempts" by (simp add: sample_site_def)
  ultimately show ?thesis
    unfolding send_login_def sample_guess_def prod.case
    by (intro wrong_login_answer [OF _ _ sample_site_off]) (simp_all add: db sample_site_cfg ones_settings sample_attempt)
qed

theorem guessing_locks_the_account_witness:
  "fst (login sample_env (\<lambda>_. seconds 1) ''s'' ''c'' (cookie_request []) \<lparr>lq_login = ''zoe@x'', lq_password = ''12345678'', lq_remember_me = False\<rparr>
     (snd (send_logins sample_env [sample_guess] (sample_site (snd registered))))) = Inl too_many_attempts"
proof -
  let ?st = "sample_site (snd registered)"
  let ?p = "\<lparr>lq_login = ''zoe@x'', lq_password = ''12345678'', lq_remember_me = False\<rparr>"
  have c: "login_failure_settings (site_cfg sample_env ?st) = Inr (1, 1, 1)"
    "site_cfg sample_env ?st ''auth_rate_limit_login_ip_rpm'' = Inr 1"
    by (simp_all add: sample_site_cfg ones_settings)
  have cr: "en_crypto sample_env = sample_crypto" "si_db ?st = w_db (snd registered)" by (simp_all add: sample_env_def si_db_def sample_site_def)
  have g: "wrong_guess sample_crypto (w_db (snd registered)) sample_guess" "guess_key sample_crypto sample_guess = ''zoe@x''"
    by code_simp+
  have r: "Inl too_many_attempts \<notin> set (fst (send_logins sample_env [sample_guess] ?st))"
    using sample_guess_answer by (auto simp: too_many_attempts_def split: prod.split)
  have h: "hash_auth_identifier sample_crypto (py_strip ''zoe@x'') = ''zoe@x''" by code_simp
  have t: "guess_time sample_guess = seconds 1" by (simp add: sample_guess_def guess_time_def)
  have out: "guessed_out (en_crypto sample_env) (1, 1, 1) [sample_guess] (seconds 1) (hash_auth_identifier (en_crypto sample_env) (py_strip (lq_login ?p)))"
    by (simp add: guessed_out_def guess_times_def cr g(2) h t Let_def) (simp add: seconds_def sec_def)
  have wrong: "\<forall>g\<in>set [sample_guess]. wrong_guess (en_crypto sample_env) (si_db ?st) g" by (simp add: cr g(1))
  have "sorted (map guess_time [sample_guess])" by simp
  from guessing_locks_the_account [OF prod.collapse [symmetric] wrong r sample_site_off c(1) _ c(2) this] out
  show ?thesis by simp
qed

section \<open>A login is a session\<close>

lemma login_answered:
  assumes "login V k new_uuid cid rq p st = (Inr resp, st')" and off: "\<not> handle_enabled (si_redis st)"
  defines "key \<equiv> hash_auth_identifier (en_crypto V) (py_strip (lq_login p))"
  shows "\<exists>u au e. authenticate_local_user (en_crypto V) (lq_login p) (lq_password p) (si_db st) = Inr u
    \<and> si_auth st' = record_login_success key au
    \<and> si_world st' = (if us_is_admin u then emit (AdminLoggedIn (us_id u) ''web'' cid) (si_world st) else si_world st)
    \<and> sm_user (lp_summary resp) = u
    \<and> cookie_create_session (en_sessions V) (k 30) new_uuid (us_id u) (lq_remember_me p) = Inr (lp_token resp, e)"
proof -
  let ?a = "enforce_login_attempt (site_cfg V st) (k 3) (rq_ip rq) key (si_auth st)"
  let ?st = "st\<lparr>si_auth := snd ?a\<rparr>"
  have a: "login_attempt V k (rq_ip rq) key st = (fst ?a, ?st)"
    by (simp add: login_attempt_def limiter_call_memory [OF off])
  have ok: "login_success V k key ?st = (Inr (), st\<lparr>si_auth := record_login_success key (snd ?a)\<rparr>)"
    using off by (simp add: login_success_def limiter_call_memory)
  have db: "si_db ?st = si_db st" by (simp add: si_db_def)
  note run = assms(1) [unfolded login_def Let_def, folded key_def]
  from run obtain u where u: "authenticate_local_user (en_crypto V) (lq_login p) (lq_password p) (si_db st) = Inr u"
    by (auto simp: io_seq_def io_bind_def a db io_raise_def split: sum.splits prod.splits err.splits)
  define st2 where "st2 = (let st1 = st\<lparr>si_auth := record_login_success key (snd ?a)\<rparr> in
    if us_is_admin u then st1\<lparr>si_world := emit (AdminLoggedIn (us_id u) ''web'' cid) (si_world st1)\<rparr> else st1)"
  have "open_session V k new_uuid u (lq_remember_me p) st2 = (Inr resp, st')"
    using run by (cases "fst ?a") (simp_all add: io_seq_def io_bind_def a db u ok st2_def Let_def)
  moreover have "si_redis st2 = si_redis st" by (simp add: st2_def Let_def)
  ultimately obtain e where "cookie_create_session (en_sessions V) (k 30) new_uuid (us_id u) (lq_remember_me p) = Inr (lp_token resp, e)"
    "st' = st2" "sm_user (lp_summary resp) = u"
    using off by (auto simp: open_session_def create_session_def get_current_user_summary_def Let_def split: sum.splits)
  with u show ?thesis by (auto simp: st2_def Let_def)
qed

text \<open>With the right password, within the limits, a login is answered.\<close>

lemma login_succeeds:
  assumes "authenticate_local_user (en_crypto V) (lq_login p) (lq_password p) (si_db st) = Inr u"
    and "fst (enforce_login_attempt (site_cfg V st) (k 3) (rq_ip rq) (hash_auth_identifier (en_crypto V) (py_strip (lq_login p)))
      (si_auth st)) = Inr ()"
    and off: "\<not> handle_enabled (si_redis st)" and "datable (en_sessions V) (k 30) (lq_remember_me p)"
    and "site_cfg V st ''default_user_quota_bytes'' = Inr q"
  shows "\<exists>resp st'. login V k new_uuid cid rq p st = (Inr resp, st') \<and> si_redis st' = si_redis st"
proof -
  let ?key = "hash_auth_identifier (en_crypto V) (py_strip (lq_login p))"
  let ?a = "enforce_login_attempt (site_cfg V st) (k 3) (rq_ip rq) ?key (si_auth st)"
  let ?st = "st\<lparr>si_auth := snd ?a\<rparr>"
  let ?st1 = "st\<lparr>si_auth := record_login_success ?key (snd ?a)\<rparr>"
  have a: "login_attempt V k (rq_ip rq) ?key st = (Inr (), ?st)"
    using assms(2) by (simp add: login_attempt_def limiter_call_memory [OF off])
  have ok: "login_success V k ?key ?st = (Inr (), ?st1)"
    using off by (simp add: login_success_def limiter_call_memory)
  have db: "si_db ?st = si_db st" by (simp add: si_db_def)
  define st2 where "st2 = (if us_is_admin u then ?st1\<lparr>si_world := emit (AdminLoggedIn (us_id u) ''web'' cid) (si_world ?st1)\<rparr> else ?st1)"
  have r: "login V k new_uuid cid rq p st = open_session V k new_uuid u (lq_remember_me p) st2"
    unfolding login_def Let_def by (simp add: io_seq_def io_bind_def a db assms(1) ok st2_def)
  have st2: "si_redis st2 = si_redis st" "site_cfg V st2 = site_cfg V st" by (simp_all add: st2_def site_cfg_def)
  show ?thesis
    unfolding r using off
    by (auto simp: open_session_def st2 create_session_def cookie_create_session_def create_signed [OF assms(4)]
      get_current_user_summary_def Let_def site_cfg_def assms(5) [unfolded site_cfg_def] st2(2) [unfolded site_cfg_def]
      split: option.split)
qed

lemma authenticate_ok_user:
  assumes "authenticate_local_user cr x y d = Inr u"
  shows "\<exists>r\<in>set (db_users d). ur_id r = us_id u"
proof -
  from assms have "get_user_by_email (py_lower (py_strip x)) d = Some u \<or> get_user_by_username (py_strip x) d = Some u"
    by (auto simp: authenticate_local_user_def Let_def split: if_splits option.splits)
  then show ?thesis
    by (auto simp: get_user_by_email_def get_user_by_username_def row_to_user_def Let_def dest!: find_row_SomeD)
qed

text \<open>C40: A login that is answered was made with the password of the user it names, lifts the lock and forgets the failures
  of that login, changes no table, and, without Redis, hands out a token that is good for exactly that user: whatever
  happens in between, a request with it as its cookie is from that user as the tables then have them, until the session
  expires, and from nobody when the user is gone or afterwards; a suspended user is refused.\<close>

theorem login_opens_a_session:
  assumes "login V k new_uuid cid rq p st = (Inr resp, st')" "\<not> handle_enabled (si_redis st)"
    and "token_env_ok (ss_env (en_sessions V))" "datable (en_sessions V) (k 30) (lq_remember_me p)" "new_uuid \<noteq> []"
    and "\<forall>r\<in>set (db_users (si_db st)). ur_id r \<noteq> []"
  defines "key \<equiv> hash_auth_identifier (en_crypto V) (py_strip (lq_login p))"
  shows "\<exists>u. authenticate_local_user (en_crypto V) (lq_login p) (lq_password p) (si_db st) = Inr u
    \<and> sm_user (lp_summary resp) = u \<and> si_db st' = si_db st
    \<and> au_login_failures (si_auth st') key = None \<and> au_locks (si_auth st') (login_lock key) = None
    \<and> (\<forall>k2 required rq2 st2. \<not> handle_enabled (si_redis st2) \<and> bearer_token (rq_authorization rq2) = None
          \<and> rq_session_cookie rq2 = Some (lp_token resp) \<longrightarrow>
         authenticated_principal V k2 required rq2 st2 =
           ((if \<not> in_force (new_expiry (en_sessions V) (k 30) (lq_remember_me p)) (k2 17)
             then (if required then Inl (HTTPException 401 ''Authentication required.'') else Inr None, True)
             else (case get_user (us_id u) (si_db st2) of
                 None \<Rightarrow> (if required then Inl (HTTPException 401 ''Invalid session.'') else Inr None, True)
               | Some v \<Rightarrow> (if us_suspended v then Inl not_allowed else Inr (Some \<lparr>pr_user = v, pr_raw_api_key = None\<rparr>), False))), st2))"
proof -
  let ?exp = "new_expiry (en_sessions V) (k 30) (lq_remember_me p)"
  from login_answered [OF assms(1,2)] obtain u au e where u:
    "authenticate_local_user (en_crypto V) (lq_login p) (lq_password p) (si_db st) = Inr u"
    "si_auth st' = record_login_success key au"
    "si_world st' = (if us_is_admin u then emit (AdminLoggedIn (us_id u) ''web'' cid) (si_world st) else si_world st)"
    "sm_user (lp_summary resp) = u"
    "cookie_create_session (en_sessions V) (k 30) new_uuid (us_id u) (lq_remember_me p) = Inr (lp_token resp, e)"
    unfolding key_def by blast
  have id: "us_id u \<noteq> []" using authenticate_ok_user [OF u(1)] assms(6) by auto
  have tok: "lp_token resp = sign_session (ss_env (en_sessions V))
      (new_payload (en_sessions V) (k 30) new_uuid (us_id u) (lq_remember_me p) ''cookie'') ''cookie''"
    using u(5) by (simp add: cookie_create_session_def create_signed [OF assms(4)])
  have resolve: "cookie_resolve_user (en_sessions V) now (lp_token resp) = Inr (if in_force ?exp now then Some (us_id u) else None)" for now
    unfolding tok cookie_resolve_user_def
    by (simp add: decode_created [OF assms(3,4,5) id]) (simp add: new_payload_def)
  have ne: "lp_token resp \<noteq> []" unfolding tok by (simp add: sign_session_def sign_values_def Let_def)
  have "authenticated_principal V k2 required rq2 st2 =
       ((if \<not> in_force ?exp (k2 17) then (if required then Inl (HTTPException 401 ''Authentication required.'') else Inr None, True)
         else (case get_user (us_id u) (si_db st2) of
             None \<Rightarrow> (if required then Inl (HTTPException 401 ''Invalid session.'') else Inr None, True)
           | Some v \<Rightarrow> (if us_suspended v then Inl not_allowed else Inr (Some \<lparr>pr_user = v, pr_raw_api_key = None\<rparr>), False))), st2)"
    if "\<not> handle_enabled (si_redis st2)" "bearer_token (rq_authorization rq2) = None" "rq_session_cookie rq2 = Some (lp_token resp)"
    for k2 required rq2 st2
    using that ne id by (simp add: authenticated_principal_def session_principal_def resolve_session_memory resolve split: option.split)
  moreover have "si_db st' = si_db st" by (simp add: si_db_def u(3))
  moreover have "au_login_failures (si_auth st') key = None" "au_locks (si_auth st') (login_lock key) = None"
    by (simp_all add: u(2) record_login_success_def)
  ultimately show ?thesis using u(1,4) by blast
qed

definition zoe_login :: login_request where
  "zoe_login = \<lparr>lq_login = ''zoe@x'', lq_password = ''12345678'', lq_remember_me = False\<rparr>"

theorem login_opens_a_session_witness:
  "\<exists>resp st'. login sample_env (\<lambda>_. 0) ''s'' ''c'' (cookie_request []) zoe_login (sample_site (snd registered)) = (Inr resp, st')
    \<and> fst (fst (authenticated_principal sample_env (\<lambda>_. 5) True (cookie_request (lp_token resp)) st'))
        = Inr (Some \<lparr>pr_user = fst registered, pr_raw_api_key = None\<rparr>)"
proof -
  let ?run = "login sample_env (\<lambda>_. 0) ''s'' ''c'' (cookie_request []) zoe_login (sample_site (snd registered))"
  have env: "en_sessions sample_env = sample_session_settings True" "en_crypto sample_env = sample_crypto"
    "si_db (sample_site (snd registered)) = w_db (snd registered)"
    by (simp_all add: sample_env_def si_db_def sample_site_def)
  have ids: "list_all (\<lambda>r. ur_id r \<noteq> []) (db_users (w_db (snd registered)))" by code_simp
  have u: "authenticate_local_user sample_crypto ''zoe@x'' ''12345678'' (w_db (snd registered)) = Inr (fst registered)" by code_simp
  have g: "get_user (us_id (fst registered)) (w_db (snd registered)) = Some (fst registered)" "\<not> us_suspended (fst registered)"
    by code_simp+
  have "fst (enforce_login_attempt (site_cfg sample_env (sample_site (snd registered))) 0 ''1'' key (si_auth (sample_site (snd registered)))) = Inr ()" for key
    unfolding sample_site_cfg by (simp add: sample_site_def sample_attempt)
  with login_succeeds [of sample_env zoe_login "sample_site (snd registered)" "fst registered" "\<lambda>_. 0" "cookie_request []" 2147483648 "''s''" "''c''"]
  obtain resp st' where run: "?run = (Inr resp, st')" and off: "\<not> handle_enabled (si_redis st')"
    using sample_site_off u sample_session(2) by (auto simp: env zoe_login_def cookie_request_def sample_site_cfg sample_quota)
  have prem: "token_env_ok (ss_env (en_sessions sample_env))" "datable (en_sessions sample_env) 0 (lq_remember_me zoe_login)"
    "\<forall>r\<in>set (db_users (si_db (sample_site (snd registered)))). ur_id r \<noteq> []"
    using sample_session(1,2) ids by (simp_all add: env list_all_iff)
  from login_opens_a_session [OF run sample_site_off prem(1,2) _ prem(3)] obtain w where
    w: "authenticate_local_user sample_crypto ''zoe@x'' ''12345678'' (w_db (snd registered)) = Inr w" "si_db st' = w_db (snd registered)"
    and later: "\<And>k2 required rq2. bearer_token (rq_authorization rq2) = None \<Longrightarrow> rq_session_cookie rq2 = Some (lp_token resp) \<Longrightarrow>
      authenticated_principal sample_env k2 required rq2 st' =
       ((if \<not> in_force (new_expiry (sample_session_settings True) 0 False) (k2 17)
         then (if required then Inl (HTTPException 401 ''Authentication required.'') else Inr None, True)
         else (case get_user (us_id w) (si_db st') of
             None \<Rightarrow> (if required then Inl (HTTPException 401 ''Invalid session.'') else Inr None, True)
           | Some v \<Rightarrow> (if us_suspended v then Inl not_allowed else Inr (Some \<lparr>pr_user = v, pr_raw_api_key = None\<rparr>), False))), st')"
    using off by (auto simp: env zoe_login_def)
  have "w = fst registered" using w(1) u by simp
  with later [of "cookie_request (lp_token resp)" "\<lambda>_. 5" True] g w(2)
  have "fst (fst (authenticated_principal sample_env (\<lambda>_. 5) True (cookie_request (lp_token resp)) st'))
      = Inr (Some \<lparr>pr_user = fst registered, pr_raw_api_key = None\<rparr>)"
    by (simp add: cookie_request_def bearer_token_def in_force_def sample_session(3))
  with run show ?thesis by auto
qed

end
