(* ===== verification/Zip_Bridge.thy ===== *)
theory Zip_Bridge
  imports Prelude
begin

text \<open>
  \<^verbatim>\<open>AsyncIterableBridge\<close> of \<^verbatim>\<open>src/imghost/zip_streaming.py\<close>: a thread runs an asynchronous source and hands its chunks
  through a bounded queue to the thread that iterates. The two run as one step relation, in any interleaving; a
  \<^verbatim>\<open>put\<close> that times out on a full queue and tries again is no step.
\<close>

section \<open>The two threads\<close>

datatype bridge_item = Chunk string | Ending "err option"

text \<open>\<open>Ended None\<close> is the end of the iteration, \<open>Ended (Some e)\<close> raises \<open>e\<close>, \<open>Abandoned\<close> is a generator that was closed.\<close>

datatype consumer = Reading | Ended "err option" | Abandoned

record bridge =
  bg_left :: "string list"
  bg_open :: bool
  bg_done :: bool
  bg_queue :: "bridge_item list"
  bg_stopped :: bool
  bg_sent :: "string list"
  bg_consumer :: consumer

text \<open>\<open>bg_left\<close> is what the source has yet to yield, \<open>bg_open\<close> that it has not been closed, \<open>bg_done\<close> that the thread of
  the source has finished. A queue of size 0 or less is unbounded.\<close>

definition bridge_start :: "string list \<Rightarrow> bridge" where
  "bridge_start chunks = \<lparr>bg_left = chunks, bg_open = True, bg_done = False, bg_queue = [], bg_stopped = False,
     bg_sent = [], bg_consumer = Reading\<rparr>"

definition has_room :: "int \<Rightarrow> bridge \<Rightarrow> bool" where
  "has_room n b = (n \<le> 0 \<or> int (length (bg_queue b)) < n)"

text \<open>\<open>n\<close> is \<^verbatim>\<open>max_queue_size\<close>; \<open>e\<close> is how the source ends: \<open>None\<close> when it is exhausted, or the exception that the factory,
  the source or its closing raises after the chunks. After \<^verbatim>\<open>stopped\<close> is set, \<^verbatim>\<open>enqueue\<close> returns \<^verbatim>\<open>False\<close> and the
  cancellation of the task arrives: the source is closed and nothing more is put.\<close>

inductive bridge_step :: "int \<Rightarrow> err option \<Rightarrow> bridge \<Rightarrow> bridge \<Rightarrow> bool" for n e where
  put_chunk: "bg_open b \<Longrightarrow> bg_left b = c # cs \<Longrightarrow> \<not> bg_stopped b \<Longrightarrow> has_room n b \<Longrightarrow>
    bridge_step n e b (b\<lparr>bg_left := cs, bg_queue := bg_queue b @ [Chunk c]\<rparr>)"
| give_up: "bg_open b \<Longrightarrow> bg_stopped b \<Longrightarrow> bridge_step n e b (b\<lparr>bg_open := False, bg_done := True\<rparr>)"
| close_source: "bg_open b \<Longrightarrow> bg_left b = [] \<Longrightarrow> bridge_step n e b (b\<lparr>bg_open := False\<rparr>)"
| put_end: "\<not> bg_open b \<Longrightarrow> \<not> bg_done b \<Longrightarrow> \<not> bg_stopped b \<Longrightarrow> has_room n b \<Longrightarrow>
    bridge_step n e b (b\<lparr>bg_done := True, bg_queue := bg_queue b @ [Ending e]\<rparr>)"
| skip_end: "\<not> bg_open b \<Longrightarrow> \<not> bg_done b \<Longrightarrow> bg_stopped b \<Longrightarrow> bridge_step n e b (b\<lparr>bg_done := True\<rparr>)"
| get_chunk: "bg_consumer b = Reading \<Longrightarrow> bg_queue b = Chunk c # q \<Longrightarrow>
    bridge_step n e b (b\<lparr>bg_queue := q, bg_sent := bg_sent b @ [c]\<rparr>)"
| get_end: "bg_consumer b = Reading \<Longrightarrow> bg_queue b = Ending r # q \<Longrightarrow>
    bridge_step n e b (b\<lparr>bg_queue := q, bg_consumer := Ended r, bg_stopped := True\<rparr>)"
| abandon: "bg_consumer b = Reading \<Longrightarrow> bridge_step n e b (b\<lparr>bg_consumer := Abandoned, bg_stopped := True\<rparr>)"

inductive_simps bridge_step_iff: "bridge_step n e b b'"

definition bridge_reach :: "int \<Rightarrow> err option \<Rightarrow> string list \<Rightarrow> bridge \<Rightarrow> bool" where
  "bridge_reach n e chunks b = (bridge_step n e)\<^sup>*\<^sup>* (bridge_start chunks) b"

section \<open>Invariant\<close>

definition queued :: "bridge \<Rightarrow> string list" where
  "queued b = concat (map (\<lambda>i. case i of Chunk c \<Rightarrow> [c] | Ending _ \<Rightarrow> []) (bg_queue b))"

definition chunks_only :: "bridge_item list \<Rightarrow> bool" where
  "chunks_only q = list_all (\<lambda>i. case i of Chunk _ \<Rightarrow> True | Ending _ \<Rightarrow> False) q"

definition bridge_inv :: "int \<Rightarrow> err option \<Rightarrow> string list \<Rightarrow> bridge \<Rightarrow> bool" where
  "bridge_inv n e chunks b \<longleftrightarrow>
     bg_sent b @ queued b @ bg_left b = chunks
     \<and> (0 < n \<longrightarrow> int (length (bg_queue b)) \<le> n)
     \<and> (bg_stopped b \<longleftrightarrow> bg_consumer b \<noteq> Reading)
     \<and> (bg_open b \<longrightarrow> \<not> bg_done b)
     \<and> (case bg_consumer b of
          Reading \<Rightarrow> (if bg_done b then \<exists>q. bg_queue b = q @ [Ending e] \<and> chunks_only q else chunks_only (bg_queue b))
            \<and> (bg_open b \<or> bg_left b = [])
        | Ended r \<Rightarrow> r = e \<and> bg_sent b = chunks \<and> bg_queue b = [] \<and> \<not> bg_open b \<and> bg_done b
        | Abandoned \<Rightarrow> True)"

lemma queued_simps [simp]:
  "bg_queue b = Chunk c # q \<Longrightarrow> queued b = c # concat (map (\<lambda>i. case i of Chunk c \<Rightarrow> [c] | Ending _ \<Rightarrow> []) q)"
  "bg_queue b = Ending r # q \<Longrightarrow> queued b = concat (map (\<lambda>i. case i of Chunk c \<Rightarrow> [c] | Ending _ \<Rightarrow> []) q)"
  by (simp_all add: queued_def)

lemma chunks_only_simps [simp]:
  "chunks_only []" "chunks_only (Chunk c # q) = chunks_only q" "\<not> chunks_only (Ending r # q)"
  "chunks_only (q @ q') = (chunks_only q \<and> chunks_only q')"
  by (simp_all add: chunks_only_def)

lemma bridge_start_inv: "bridge_inv n e chunks (bridge_start chunks)"
  by (simp add: bridge_inv_def bridge_start_def queued_def)

lemma bridge_step_inv:
  assumes "bridge_step n e b b'" "bridge_inv n e chunks b"
  shows "bridge_inv n e chunks b'"
  using assms
proof cases
  case (get_end r q)
  have inv: "bg_sent b @ queued b @ bg_left b = chunks" "bg_open b \<longrightarrow> \<not> bg_done b"
    "if bg_done b then \<exists>q. bg_queue b = q @ [Ending e] \<and> chunks_only q else chunks_only (bg_queue b)" "bg_open b \<or> bg_left b = []"
    using assms(2) get_end(2) by (simp_all add: bridge_inv_def)
  then obtain p where fin: "bg_done b" and p: "bg_queue b = p @ [Ending e]" "chunks_only p"
    using get_end(3) by (auto split: if_splits)
  with get_end(3) have "q = []" "r = e" by (cases p; auto)+
  with inv fin get_end(1,3) show ?thesis by (simp add: bridge_inv_def queued_def)
next
  case (get_chunk c q)
  have inv: "bg_sent b @ queued b @ bg_left b = chunks" "bg_open b \<longrightarrow> \<not> bg_done b" "0 < n \<longrightarrow> int (length (bg_queue b)) \<le> n"
    "if bg_done b then \<exists>q. bg_queue b = q @ [Ending e] \<and> chunks_only q else chunks_only (bg_queue b)" "bg_open b \<or> bg_left b = []"
    "\<not> bg_stopped b"
    using assms(2) get_chunk(2) by (simp_all add: bridge_inv_def)
  moreover have "if bg_done b then \<exists>q'. q = q' @ [Ending e] \<and> chunks_only q' else chunks_only q"
    using inv(4) get_chunk(3) by (auto simp: Cons_eq_append_conv split: if_splits)
  ultimately show ?thesis
    using get_chunk by (auto simp: bridge_inv_def queued_def)
next
  case (put_chunk c cs)
  with assms(2) show ?thesis by (cases "bg_consumer b") (auto simp: bridge_inv_def has_room_def queued_def)
next
  case put_end
  with assms(2) show ?thesis by (cases "bg_consumer b") (auto simp: bridge_inv_def has_room_def queued_def)
next
  case close_source
  with assms(2) show ?thesis by (cases "bg_consumer b") (simp_all add: bridge_inv_def queued_def)
next
  case give_up
  with assms(2) show ?thesis by (cases "bg_consumer b") (simp_all add: bridge_inv_def queued_def)
next
  case skip_end
  with assms(2) show ?thesis by (cases "bg_consumer b") (simp_all add: bridge_inv_def queued_def)
next
  case abandon
  with assms(2) show ?thesis by (simp add: bridge_inv_def queued_def)
qed

lemma bridge_reach_inv: "bridge_reach n e chunks b \<Longrightarrow> bridge_inv n e chunks b"
  unfolding bridge_reach_def by (induction rule: rtranclp_induct) (simp_all add: bridge_start_inv bridge_step_inv)

section \<open>Progress\<close>

definition bridge_work :: "bridge \<Rightarrow> nat" where
  "bridge_work b = 2 * length (bg_left b) + length (bg_queue b) + (if bg_open b then 1 else 0)
     + (if bg_done b then 0 else 2) + (if bg_consumer b = Reading then 1 else 0)"

lemma bridge_step_work:
  assumes "bridge_step n e b b'" "bg_open b \<longrightarrow> \<not> bg_done b"
  shows "bridge_work b' < bridge_work b"
  using assms by cases (auto simp: bridge_work_def)

lemma bridge_steps_bounded:
  assumes "(bridge_step n e ^^ k) b b'" "bridge_inv n e chunks b"
  shows "bridge_work b' + k \<le> bridge_work b \<and> bridge_inv n e chunks b'"
  using assms
proof (induction k arbitrary: b')
  case (Suc k)
  then obtain m where "(bridge_step n e ^^ k) b m" "bridge_step n e m b'" by auto
  note m = Suc.IH [OF this(1) Suc.prems(2)] this(2)
  then have "bg_open m \<longrightarrow> \<not> bg_done m" by (simp add: bridge_inv_def)
  from bridge_step_work [OF m(2) this] bridge_step_inv [OF m(2)] m(1) show ?case by simp
qed simp

lemma bridge_progress:
  assumes "bridge_inv n e chunks b" "\<nexists>b'. bridge_step n e b b'"
  shows "\<not> bg_open b \<and> bg_done b \<and> bg_consumer b \<noteq> Reading"
proof (intro conjI notI)
  show "False" if "bg_consumer b = Reading" using abandon [OF that] assms(2) by blast
  then have s: "bg_stopped b" using assms(1) by (auto simp: bridge_inv_def)
  show "False" if "bg_open b" using give_up [OF that s] assms(2) by blast
  then show "bg_done b" using skip_end [OF _ _ s] assms(2) by blast
qed

text \<open>A reader who does not leave need not: until the end has been read, one of the other steps is possible.\<close>

lemma bridge_moves:
  assumes "bridge_inv n e chunks b" "bg_consumer b = Reading"
  shows "\<exists>b'. bridge_step n e b b' \<and> bg_consumer b' \<noteq> Abandoned"
proof (cases "bg_queue b")
  case (Cons i q)
  then show ?thesis
    using get_chunk [OF assms(2)] get_end [OF assms(2)] assms(2) by (cases i) (fastforce intro: exI)+
next
  case Nil
  have s: "\<not> bg_stopped b" "\<not> bg_done b" "has_room n b"
    using assms Nil by (auto simp: bridge_inv_def has_room_def split: if_splits)
  show ?thesis
  proof (cases "bg_open b")
    case True
    with assms(2) s show ?thesis
      by (cases "bg_left b") (use close_source put_chunk in fastforce)+
  next
    case False
    with put_end [OF False s(2,1,3)] assms(2) show ?thesis by (intro exI conjI) auto
  qed
qed

lemma bridge_reach_work: "bridge_reach n e chunks b \<Longrightarrow> bridge_work b \<le> 2 * length chunks + 4"
  unfolding bridge_reach_def
proof (induction rule: rtranclp_induct)
  case (step b c)
  have "bridge_inv n e chunks b" using step.hyps(1) by (simp add: bridge_reach_inv bridge_reach_def)
  then have "bg_open b \<longrightarrow> \<not> bg_done b" by (simp add: bridge_inv_def)
  from bridge_step_work [OF step.hyps(2) this] step.IH show ?case by simp
qed (simp add: bridge_work_def bridge_start_def)

text \<open>C13: However the two threads interleave, what has been sent is the first chunks of the source, in order and each once, and
  the queue never outgrows its size. No interleaving goes on for ever, and none gets stuck: as long as the reader
  reads on, another step is possible without its leaving; when nothing more can happen, the source has been closed, its thread has
  finished and the reader is done, and a reader who did not leave has all the chunks and the end of the source, be it
  an exception.\<close>

theorem zip_bridge_delivers:
  assumes "bridge_reach n e chunks b"
  shows "(\<exists>rest. chunks = bg_sent b @ rest) \<and> (0 < n \<longrightarrow> int (length (bg_queue b)) \<le> n)
    \<and> (\<forall>k b'. (bridge_step n e ^^ k) b b' \<longrightarrow> k \<le> 2 * length chunks + 4)
    \<and> (bg_consumer b = Reading \<longrightarrow> (\<exists>b'. bridge_step n e b b' \<and> bg_consumer b' \<noteq> Abandoned))
    \<and> ((\<nexists>b'. bridge_step n e b b') \<longrightarrow> \<not> bg_open b \<and> bg_done b \<and> bg_consumer b \<noteq> Reading)
    \<and> (\<forall>r. bg_consumer b = Ended r \<longrightarrow> r = e \<and> bg_sent b = chunks)"
proof -
  have inv: "bridge_inv n e chunks b" by (rule bridge_reach_inv [OF assms])
  have "bg_sent b @ queued b @ bg_left b = chunks" using inv by (simp add: bridge_inv_def)
  then have "\<exists>rest. chunks = bg_sent b @ rest" by metis
  moreover have "k \<le> 2 * length chunks + 4" if "(bridge_step n e ^^ k) b b'" for k b'
    using bridge_steps_bounded [OF that inv] bridge_reach_work [OF assms] by linarith
  moreover have "r = e \<and> bg_sent b = chunks" if "bg_consumer b = Ended r" for r using inv that by (simp add: bridge_inv_def)
  moreover have "0 < n \<longrightarrow> int (length (bg_queue b)) \<le> n" using inv by (simp add: bridge_inv_def)
  ultimately show ?thesis using bridge_moves [OF inv] bridge_progress [OF inv] by blast
qed

text \<open>One chunk through a queue of size 1, up to the exception that ends the source.\<close>

definition sample_bridge :: bridge where
  "sample_bridge = \<lparr>bg_left = [], bg_open = False, bg_done = True, bg_queue = [], bg_stopped = True, bg_sent = [''x''],
     bg_consumer = Ended (Some (OSError ''gone''))\<rparr>"

lemma sample_bridge_reach: "bridge_reach 1 (Some (OSError ''gone'')) [''x''] sample_bridge"
proof -
  let ?s = "bridge_step 1 (Some (OSError ''gone''))"
  let ?b0 = "bridge_start [''x'']"
  let ?b1 = "?b0\<lparr>bg_left := [], bg_queue := [Chunk ''x'']\<rparr>"
  let ?b2 = "?b1\<lparr>bg_queue := [], bg_sent := [''x'']\<rparr>"
  let ?b3 = "?b2\<lparr>bg_open := False\<rparr>"
  let ?b4 = "?b3\<lparr>bg_done := True, bg_queue := [Ending (Some (OSError ''gone''))]\<rparr>"
  have s1: "?s ?b0 ?b1" using put_chunk [of ?b0 "''x''" "[]" 1] by (simp add: bridge_start_def has_room_def)
  have s2: "?s ?b1 ?b2" using get_chunk [of ?b1 "''x''" "[]"] by (simp add: bridge_start_def)
  have s3: "?s ?b2 ?b3" using close_source [of ?b2] by (simp add: bridge_start_def)
  have s4: "?s ?b3 ?b4" using put_end [of ?b3 1] by (simp add: bridge_start_def has_room_def)
  have s5: "?s ?b4 sample_bridge" using get_end [of ?b4 "Some (OSError ''gone'')" "[]"] by (simp add: bridge_start_def sample_bridge_def)
  note into = converse_rtranclp_into_rtranclp [of ?s]
  show ?thesis unfolding bridge_reach_def by (rule into [OF s1 into [OF s2 into [OF s3 into [OF s4 into [OF s5 rtranclp.rtrancl_refl [of ?s sample_bridge]]]]]])
qed

theorem zip_bridge_delivers_witness:
  "bg_sent sample_bridge = [''x''] \<and> (\<nexists>b. bridge_step 1 (Some (OSError ''gone'')) sample_bridge b)"
proof
  show "bg_sent sample_bridge = [''x'']"
    using zip_bridge_delivers [OF sample_bridge_reach] by (simp add: sample_bridge_def)
  show "\<nexists>b. bridge_step 1 (Some (OSError ''gone'')) sample_bridge b"
    by (simp add: bridge_step_iff sample_bridge_def)
qed

end
