(* ===== verification/Listings.thy ===== *)
theory Listings
  imports Serving User_Repo
begin

text \<open>
  The lists of albums that \<^verbatim>\<open>service.py\<close> makes for a user, for the administration and for a public profile, and the bounds
  on a page (\<^verbatim>\<open>web/pagination.py\<close>).
\<close>

section \<open>Pages\<close>

definition validate_pagination :: "int \<Rightarrow> int \<Rightarrow> int \<Rightarrow> err + unit" where
  "validate_pagination lim ofs max_limit =
     (if lim < 1 \<or> max_limit < lim
        then Inl (HTTPException 400 (''limit must be between 1 and '' @ show_int max_limit @ ''.''))
      else if ofs < 0 then Inl (HTTPException 400 ''offset must be non-negative.'')
      else Inr ())"

record 'a listing =
  li_items :: "'a list"
  li_total :: int
  li_limit :: int
  li_offset :: int
  li_has_more :: bool

definition listing_of :: "int \<Rightarrow> int \<Rightarrow> 'a list \<Rightarrow> int \<Rightarrow> 'a listing" where
  "listing_of lim ofs items n = \<lparr>li_items = items, li_total = n, li_limit = lim, li_offset = ofs,
     li_has_more = (ofs + int (length items) < n)\<rparr>"

definition items_of :: "string \<Rightarrow> (string \<times> media list) list \<Rightarrow> media list" where
  "items_of aid by_album = (case map_of by_album aid of Some items \<Rightarrow> items | None \<Rightarrow> [])"

definition get_current_user_albums_page :: "user \<Rightarrow> string \<Rightarrow> int \<Rightarrow> int \<Rightarrow> db \<Rightarrow> album_payload listing" where
  "get_current_user_albums_page u base_url lim ofs d =
     (case list_user_albums_page (us_id u) lim ofs d of (albums, n) \<Rightarrow>
       let by_album = list_media_for_album_ids (map al_id albums) d in
       listing_of lim ofs (map (\<lambda>a. album_to_payload base_url a (items_of (al_id a) by_album)) albums) n)"

section \<open>For the administration\<close>

text \<open>A payload with the name of the owner; \<^verbatim>\<open>user_id\<close> is in \<open>ap_album\<close>.\<close>

record admin_album =
  aa_payload :: album_payload
  aa_owner_username :: "string option"

record album_summary =
  as_album :: album
  as_owner_username :: "string option"
  as_item_count :: int
  as_total_size :: int

text \<open>The dictionary of users keeps the last of two with one identifier; identifiers are unique.\<close>

definition owner_of :: "user list \<Rightarrow> album \<Rightarrow> user option" where
  "owner_of users a = (if truthy (al_user_id a) then map_of (rev (map (\<lambda>u. (us_id u, u)) users)) (the (al_user_id a)) else None)"

definition list_albums_for_admin :: "db \<Rightarrow> album_summary list" where
  "list_albums_for_admin d =
     (let albums = list_albums d; users = list_users d in
      map (\<lambda>a. let items = list_album_media (al_id a) d in
        \<lparr>as_album = a, as_owner_username = map_option us_username (owner_of users a),
         as_item_count = int (length items), as_total_size = storage_bytes_for_media items\<rparr>) albums)"

definition list_albums_for_admin_page ::
  "string \<Rightarrow> string option \<Rightarrow> string option \<Rightarrow> bool option \<Rightarrow> int \<Rightarrow> int \<Rightarrow> db \<Rightarrow> admin_album listing" where
  "list_albums_for_admin_page base_url q owner anonymous lim ofs d =
     (case list_albums_page q owner anonymous lim ofs d of (albums, n) \<Rightarrow>
       let users = list_users d in
       listing_of lim ofs (map (\<lambda>a. let items = list_album_media (al_id a) d in
         \<lparr>aa_payload = (album_to_payload base_url a items)\<lparr>ap_total_size := storage_bytes_for_media items\<rparr>,
          aa_owner_username = map_option us_username (owner_of users a)\<rparr>) albums) n)"

definition list_albums_for_user_admin_page ::
  "string \<Rightarrow> string \<Rightarrow> int \<Rightarrow> int \<Rightarrow> db \<Rightarrow> err + admin_album listing" where
  "list_albums_for_user_admin_page user_id base_url lim ofs d =
     (case get_user user_id d of
        None \<Rightarrow> Inl (HTTPException 404 ''User not found.'')
      | Some u \<Rightarrow>
          (case list_user_albums_page (us_id u) lim ofs d of (albums, n) \<Rightarrow>
            let by_album = list_media_for_album_ids (map al_id albums) d in
            Inr (listing_of lim ofs (map (\<lambda>a. \<lparr>aa_payload = album_to_payload base_url a (items_of (al_id a) by_album),
              aa_owner_username = Some (us_username u)\<rparr>) albums) n)))"

definition list_albums_for_user_admin_view :: "string \<Rightarrow> db \<Rightarrow> err + admin_album list" where
  "list_albums_for_user_admin_view user_id d =
     map_sum id li_items (list_albums_for_user_admin_page user_id [] 1000 0 d)"

section \<open>A public profile\<close>

record public_album =
  pb_album :: album
  pb_item_count :: int
  pb_total_size :: int
  pb_cover :: "media option"
  pb_cover_thumb_format :: "string option"

text \<open>\<^verbatim>\<open>sort(key=..., reverse=True)\<close> leaves elements of one key in the order they had. The clock is read once for each
  album that has an expiry: \<open>clock i\<close> at the \<open>i\<close>-th album.\<close>

definition sort_reverse :: "('a \<Rightarrow> 'k::linorder) \<Rightarrow> 'a list \<Rightarrow> 'a list" where
  "sort_reverse key xs = rev (sort_key key (rev xs))"

definition visible_albums :: "(nat \<Rightarrow> time) \<Rightarrow> album list \<Rightarrow> album list" where
  "visible_albums clock albums =
     map snd (filter (\<lambda>(i, a). case al_expires_at a of None \<Rightarrow> True | Some e \<Rightarrow> clock i < e) (enumerate 0 albums))"

definition list_public_albums_for_username :: "(nat \<Rightarrow> time) \<Rightarrow> string \<Rightarrow> db \<Rightarrow> err + user \<times> public_album list" where
  "list_public_albums_for_username clock username d =
     (case get_user_by_username username d of
        None \<Rightarrow> Inl (HTTPException 404 ''User not found.'')
      | Some u \<Rightarrow>
          (let visible = sort_reverse al_updated_at (visible_albums clock (list_user_albums (us_id u) d)) in
           Inr (u, map (\<lambda>a.
             let items = list_album_media (al_id a) d;
                 chosen = (if truthy (al_cover_media_id a) then find_row md_id (the (al_cover_media_id a)) items else None);
                 cover = (if chosen = None \<and> items \<noteq> [] then Some (hd items) else chosen)
             in \<lparr>pb_album = a, pb_item_count = int (length items), pb_total_size = sum_list (map md_file_size items), pb_cover = cover,
                 pb_cover_thumb_format = (case cover of
                   None \<Rightarrow> None
                 | Some m \<Rightarrow> Some (if truthy (md_thumb_key m) \<and> \<not> md_thumb_is_orig m
                     then (let key = the (md_thumb_key m) in
                       py_lower (case rsplit_last CHR ''.'' key of Some (_, x) \<Rightarrow> x | None \<Rightarrow> key))
                     else md_format m))\<rparr>) visible)))"

section \<open>Reading page after page\<close>

lemma items_of_listing: "aid \<in> set ids \<Longrightarrow> items_of aid (list_media_for_album_ids ids d) = list_album_media aid d"
proof -
  assume "aid \<in> set ids"
  then have "map_of (map (\<lambda>a. (a, list_album_media a d)) (remdups ids)) aid = Some (list_album_media aid d)"
    by (simp add: map_of_map_restrict)
  moreover have "list_media_for_album_ids ids d = map (\<lambda>a. (a, list_album_media a d)) (remdups ids)"
    using \<open>aid \<in> set ids\<close> by (auto simp: list_media_for_album_ids_def Let_def)
  ultimately show ?thesis by (simp add: items_of_def)
qed

lemma page_map: "page lim ofs (map f xs) = map f (page lim ofs xs)"
  by (simp add: page_def take_map drop_map)

lemma length_page: "0 \<le> lim \<Longrightarrow> 0 \<le> ofs \<Longrightarrow> int (length (page lim ofs xs)) = max 0 (min lim (int (length xs) - ofs))"
  by (simp add: page_def)

text \<open>The pages of size \<open>lim\<close> up to the \<open>n\<close>-th put together.\<close>

lemma pages_take: "0 \<le> lim \<Longrightarrow> concat (map (\<lambda>i. page lim (int i * lim) xs) [0..<n]) = take (n * nat lim) xs"
proof (induction n)
  case (Suc n)
  have "nat (int n * lim) = n * nat lim" using Suc.prems by (simp add: nat_mult_distrib)
  then have "page lim (int n * lim) xs = take (nat lim) (drop (n * nat lim) xs)" by (simp add: page_def)
  moreover have "Suc n * nat lim = n * nat lim + nat lim" by simp
  ultimately show ?case using Suc by (simp only: take_add upt_Suc_append le0 map_append concat_append) simp
qed simp

text \<open>The number of the last page.\<close>

definition last_page :: "int \<Rightarrow> int \<Rightarrow> nat" where
  "last_page lim n = nat ((n - 1) div lim)"

lemma paging:
  fixes xs :: "'a list"
  assumes "1 \<le> lim"
  defines "n \<equiv> last_page lim (int (length xs))"
  shows "concat (map (\<lambda>i. page lim (int i * lim) xs) [0..<Suc n]) = xs"
    and "i < n \<Longrightarrow> int i * lim + int (length (page lim (int i * lim) xs)) < int (length xs)"
    and "\<not> int n * lim + int (length (page lim (int n * lim) xs)) < int (length xs)"
proof -
  have n: "int (length xs) \<le> (int n + 1) * lim" "xs \<noteq> [] \<Longrightarrow> int n * lim < int (length xs)"
  proof -
    let ?l = "int (length xs)" and ?r = "(int (length xs) - 1) mod lim"
    have r: "?r < lim" "0 \<le> ?r" using assms(1) by simp_all
    have d: "?l - 1 = int n * lim + ?r" if "xs \<noteq> []"
    proof -
      from that have "1 \<le> ?l" by (cases xs) simp_all
      with that have "int n = (?l - 1) div lim" using assms(1) by (simp add: n_def last_page_def pos_imp_zdiv_nonneg_iff)
      then show ?thesis by simp
    qed
    show "?l \<le> (int n + 1) * lim"
    proof (cases "xs = []")
      case False
      from d [OF this] r show ?thesis unfolding distrib_right by linarith
    qed (use assms(1) in simp)
    show "int n * lim < ?l" if "xs \<noteq> []" using d [OF that] r by linarith
  qed
  have "length xs \<le> Suc n * nat lim"
  proof -
    have "int (length xs) \<le> int (Suc n * nat lim)" using n(1) assms(1) by (simp add: algebra_simps)
    then show ?thesis by linarith
  qed
  then show "concat (map (\<lambda>i. page lim (int i * lim) xs) [0..<Suc n]) = xs"
    using pages_take [of lim xs "Suc n"] assms(1) by simp
  show "int i * lim + int (length (page lim (int i * lim) xs)) < int (length xs)" if "i < n"
  proof -
    have "(-1) div lim < 0" using assms(1) by (simp add: pos_imp_zdiv_neg_iff)
    with that have "xs \<noteq> []" by (auto simp: n_def last_page_def)
    have "(int i + 1) * lim \<le> int n * lim" using that assms(1) by (intro mult_right_mono) auto
    with n(2) [OF \<open>xs \<noteq> []\<close>] have "(int i + 1) * lim < int (length xs)" by simp
    moreover have "int (length (page lim (int i * lim) xs)) \<le> lim" using assms(1) by (simp add: length_page)
    ultimately show ?thesis by (simp add: algebra_simps)
  qed
  show "\<not> int n * lim + int (length (page lim (int n * lim) xs)) < int (length xs)"
  proof (cases "xs = []")
    case True
    then have "0 \<le> int n * lim" using assms(1) by simp
    with True show ?thesis by simp
  next
    case False
    from n(2) [OF this] n(1) assms(1) show ?thesis by (simp add: length_page algebra_simps)
  qed
qed

end
