(* ===== verification/Listing_Props.thy ===== *)
theory Listing_Props
  imports Listings Samples
begin

text \<open>
  What the lists show: reading page after page shows everything once, and a public profile shows what has not expired.
\<close>

section \<open>Pages\<close>

lemma length_order_desc [simp]: "length (order_desc key rows) = length rows"
  by (simp add: order_desc_def)

text \<open>What reading a list page after page, as long as there is more, must give.\<close>

definition reads_all :: "(int \<Rightarrow> 'a listing) \<Rightarrow> int \<Rightarrow> 'a list \<Rightarrow> bool" where
  "reads_all pg lim everything \<longleftrightarrow>
     (let n = last_page lim (int (length everything)) in
      concat (map (\<lambda>i. li_items (pg (int i * lim))) [0..<Suc n]) = everything
      \<and> (\<forall>i<n. li_has_more (pg (int i * lim))) \<and> \<not> li_has_more (pg (int n * lim)))"

lemma listing_reads_all:
  assumes "1 \<le> lim" "\<And>ofs. pg ofs = listing_of lim ofs (map f (page lim ofs xs)) (int (length xs))"
  shows "reads_all pg lim (map f xs)"
proof -
  have items: "li_items (pg ofs) = page lim ofs (map f xs)" for ofs
    by (simp add: assms(2) listing_of_def page_map)
  have more: "li_has_more (pg ofs) \<longleftrightarrow> ofs + int (length (page lim ofs (map f xs))) < int (length (map f xs))" for ofs
    by (simp add: assms(2) listing_of_def page_map)
  show ?thesis
    unfolding reads_all_def Let_def items more
    using paging(1) [OF assms(1), of "map f xs"] paging(2) [OF assms(1), of _ "map f xs"] paging(3) [OF assms(1), of "map f xs"]
    by blast
qed

lemma items_of_page:
  "map (\<lambda>a. g a (items_of (al_id a) (list_media_for_album_ids (map al_id albums) d))) albums
     = map (\<lambda>a. g a (list_album_media (al_id a) d)) albums"
  by (intro map_cong refl) (simp add: items_of_listing)

text \<open>C14: Whoever reads the albums of a user, or the albums that match a search of the administration, page after page of
  any size for as long as the answer says that there is more, reads each of them once, with its own items, the last
  changed first, and the last page says that there is no more.\<close>

theorem pages_list_everything:
  assumes "1 \<le> lim"
  shows "reads_all (\<lambda>ofs. get_current_user_albums_page u base_url lim ofs d) lim
      (map (\<lambda>a. album_to_payload base_url a (list_album_media (al_id a) d))
        (order_desc (\<lambda>a. (al_updated_at a, al_id a)) (filter (\<lambda>a. al_user_id a = Some (us_id u)) (db_albums d))))
    \<and> reads_all (\<lambda>ofs. list_albums_for_admin_page base_url q owner anonymous lim ofs d) lim
      (map (\<lambda>a. \<lparr>aa_payload = (album_to_payload base_url a (list_album_media (al_id a) d))
            \<lparr>ap_total_size := storage_bytes_for_media (list_album_media (al_id a) d)\<rparr>,
          aa_owner_username = map_option us_username (owner_of (list_users d) a)\<rparr>)
        (order_desc (\<lambda>a. (al_updated_at a, al_id a)) (filter (album_matches d q owner anonymous) (db_albums d))))"
proof
  show "reads_all (\<lambda>ofs. get_current_user_albums_page u base_url lim ofs d) lim
      (map (\<lambda>a. album_to_payload base_url a (list_album_media (al_id a) d))
        (order_desc (\<lambda>a. (al_updated_at a, al_id a)) (filter (\<lambda>a. al_user_id a = Some (us_id u)) (db_albums d))))"
    by (rule listing_reads_all [OF assms])
      (simp add: get_current_user_albums_page_def list_user_albums_page_def Let_def
        items_of_page [where g = "album_to_payload base_url"])
  show "reads_all (\<lambda>ofs. list_albums_for_admin_page base_url q owner anonymous lim ofs d) lim
      (map (\<lambda>a. \<lparr>aa_payload = (album_to_payload base_url a (list_album_media (al_id a) d))
            \<lparr>ap_total_size := storage_bytes_for_media (list_album_media (al_id a) d)\<rparr>,
          aa_owner_username = map_option us_username (owner_of (list_users d) a)\<rparr>)
        (order_desc (\<lambda>a. (al_updated_at a, al_id a)) (filter (album_matches d q owner anonymous) (db_albums d))))"
    by (rule listing_reads_all [OF assms]) (simp add: list_albums_for_admin_page_def list_albums_page_def Let_def)
qed

theorem pages_list_everything_witness:
  "concat (map (\<lambda>i. map (al_id \<circ> ap_album) (li_items (get_current_user_albums_page (sample_user ''u'' False) [] 1 (int i) sample_db))) [0..<1])
     = [''a'']"
proof -
  have len: "last_page 1 (int (length (order_desc (\<lambda>a. (al_updated_at a, al_id a))
      (filter (\<lambda>a. al_user_id a = Some (us_id (sample_user ''u'' False))) (db_albums sample_db))))) = 0"
    by (simp add: last_page_def sample_defs)
  have "reads_all (\<lambda>ofs. get_current_user_albums_page (sample_user ''u'' False) [] 1 ofs sample_db) 1
      (map (\<lambda>a. album_to_payload [] a (list_album_media (al_id a) sample_db))
        (order_desc (\<lambda>a. (al_updated_at a, al_id a)) (filter (\<lambda>a. al_user_id a = Some (us_id (sample_user ''u'' False))) (db_albums sample_db))))"
    using pages_list_everything [of 1 "sample_user ''u'' False" "[]" sample_db None None None] by simp
  then have "li_items (get_current_user_albums_page (sample_user ''u'' False) [] 1 0 sample_db)
      = [album_to_payload [] (sample_album ''a'' (Some ''u'') None None) (list_album_media ''a'' sample_db)]"
    unfolding reads_all_def Let_def using len by (simp add: sample_defs order_desc_def)
  then show ?thesis by (simp add: album_to_payload_def Let_def sample_album_def)
qed

section \<open>A public profile\<close>

lemma set_visible: "a \<in> set (visible_albums clock albums) \<Longrightarrow> a \<in> set albums \<and> (\<forall>e. al_expires_at a = Some e \<longrightarrow> (\<exists>i. clock i < e))"
  by (fastforce simp: visible_albums_def in_set_enumerate_eq split: option.splits)

lemma visible_stays:
  "\<forall>e i. al_expires_at a = Some e \<longrightarrow> clock i < e \<Longrightarrow> a \<in> set albums \<Longrightarrow> a \<in> set (visible_albums clock albums)"
proof -
  assume e: "\<forall>e i. al_expires_at a = Some e \<longrightarrow> clock i < e" and "a \<in> set albums"
  then obtain i where "i < length albums" "albums ! i = a" by (auto simp: in_set_conv_nth)
  then have "(i, a) \<in> set (enumerate 0 albums)" by (simp add: in_set_enumerate_eq)
  with e show ?thesis by (force simp: visible_albums_def split: option.split)
qed

lemma set_sort_reverse [simp]: "set (sort_reverse key xs) = set xs"
  by (simp add: sort_reverse_def)

lemma sort_reverse_sorted: "sorted_wrt (\<lambda>a b. key b \<le> key a) (sort_reverse key xs)"
proof -
  have "sorted_wrt (\<lambda>x y. y \<le> x) (map key (sort_reverse key xs))"
    unfolding sort_reverse_def by (simp add: rev_map [symmetric] sorted_wrt_rev)
  then show ?thesis by (simp add: sorted_wrt_map)
qed

lemma public_profile_lists:
  assumes "list_public_albums_for_username clock name d = Inr (u, shown)"
  shows "get_user_by_username name d = Some u"
    and "map pb_album shown = sort_reverse al_updated_at (visible_albums clock (list_user_albums (us_id u) d))"
  using assms by (auto simp: list_public_albums_for_username_def Let_def comp_def split: option.splits)

text \<open>The profile of a user shows their own albums that have not expired, all of them, the last changed first.\<close>

lemma public_profile_is_current:
  assumes "list_public_albums_for_username clock name d = Inr (u, shown)" "\<And>i. t0 \<le> clock i \<and> clock i \<le> t1"
  shows "\<forall>a\<in>set (map pb_album shown). al_user_id a = Some (us_id u) \<and> (\<forall>e. al_expires_at a = Some e \<longrightarrow> t0 < e)"
    and "a \<in> set (db_albums d) \<Longrightarrow> al_user_id a = Some (us_id u) \<Longrightarrow> \<forall>e. al_expires_at a = Some e \<longrightarrow> t1 < e \<Longrightarrow> a \<in> set (map pb_album shown)"
    and "sorted_wrt (\<lambda>a b. al_updated_at b \<le> al_updated_at a) (map pb_album shown)"
proof -
  note m = public_profile_lists [OF assms(1)]
  show "\<forall>a\<in>set (map pb_album shown). al_user_id a = Some (us_id u) \<and> (\<forall>e. al_expires_at a = Some e \<longrightarrow> t0 < e)"
    unfolding m using assms(2) by (fastforce dest!: set_visible simp: list_user_albums_def intro: le_less_trans)
  show "a \<in> set (map pb_album shown)" if "a \<in> set (db_albums d)" "al_user_id a = Some (us_id u)" "\<forall>e. al_expires_at a = Some e \<longrightarrow> t1 < e"
    unfolding m set_sort_reverse using that assms(2) by (intro visible_stays) (auto simp: list_user_albums_def intro: le_less_trans)
  show "sorted_wrt (\<lambda>a b. al_updated_at b \<le> al_updated_at a) (map pb_album shown)"
    unfolding m by (rule sort_reverse_sorted)
qed

end
