(* ===== verification/Web_Public.thy ===== *)
theory Web_Public
  imports Auth_Flow Listings Service Ids
begin

text \<open>
  The public interface over HTTP, \<^verbatim>\<open>src/imghost/web/public_api.py\<close>: uploads, with the deletion links that uploads by API key are
  given, and the changes of albums and items, each in the name of whoever the request is from. What the framework and
  \<^verbatim>\<open>pydantic\<close> have decoded of a request is an argument. The addresses that \<^verbatim>\<open>public_base_url\<close> finds, and the
  correlation identifier, are part of the context of a request; clocks 40 and above are the handler's own.
\<close>

section \<open>The environment\<close>

record 's web_env =
  wb_site :: "'s site_env"
  wb_procs :: processors
  wb_mime :: mime_tables
  wb_listen :: "event \<Rightarrow> world \<Rightarrow> world"

record web_context =
  wc_request :: http_request
  wc_clock :: "nat \<Rightarrow> time"
  wc_cid :: string
  wc_base_url :: string

text \<open>An operation of the service on the tables and objects of the site.\<close>

definition in_world :: "(world \<Rightarrow> (err + 'a) \<times> world) \<Rightarrow> 's site \<Rightarrow> (err + 'a) \<times> 's site" where
  "in_world f st = (case f (si_world st) of (r, w) \<Rightarrow> (r, st\<lparr>si_world := w\<rparr>))"

definition web_user :: "'s web_env \<Rightarrow> web_context \<Rightarrow> bool \<Rightarrow> 's site \<Rightarrow> (err + user option) \<times> 's site" where
  "web_user V wc required st = authenticated_user (wb_site V) (wc_clock wc) required (wc_request wc) st"

section \<open>Addresses\<close>

text \<open>\<^verbatim>\<open>urllib.parse.quote_plus\<close>\<close>

definition url_safe :: "char \<Rightarrow> bool" where
  "url_safe c = (let n = (of_char c :: nat) in
     (97 \<le> n \<and> n \<le> 122) \<or> (65 \<le> n \<and> n \<le> 90) \<or> (48 \<le> n \<and> n \<le> 57) \<or> c \<in> set ''_.-~'')"

definition quote_byte :: "char \<Rightarrow> string" where
  "quote_byte c = (if url_safe c then [c] else if c = CHR '' '' then ''+''
     else let n = (of_char c :: nat) in [CHR ''%'', ''0123456789ABCDEF'' ! (n div 16), ''0123456789ABCDEF'' ! (n mod 16)])"

definition quote_plus :: "string \<Rightarrow> string" where
  "quote_plus s = concat (map quote_byte (utf8_encode s))"

definition build_sharex_delete_url :: "string \<Rightarrow> string \<Rightarrow> string \<Rightarrow> string" where
  "build_sharex_delete_url base_url raw_token album_id =
     base_url @ ''/sharex/delete/'' @ album_id @ ''?token='' @ quote_plus raw_token"

definition album_manage_url :: "string \<Rightarrow> album \<Rightarrow> bool \<Rightarrow> string" where
  "album_manage_url base_url a include_token =
     (let path = base_url @ ''/manage/'' @ al_id a in
      if \<not> truthy (al_delete_token a) \<or> \<not> include_token then path
      else path @ ''?token='' @ quote_plus (the (al_delete_token a)))"

section \<open>Uploading\<close>

text \<open>One file of the form, with what its upload and the deletion link draw.\<close>

record form_item =
  fi_file :: upload_file
  fi_inputs :: upload_inputs
  fi_clock :: "nat \<Rightarrow> time"
  fi_selector :: string
  fi_secret :: string
  fi_issued :: time

definition upload_rate_limit_key :: "web_context \<Rightarrow> user option \<Rightarrow> string" where
  "upload_rate_limit_key wc u = (case u of Some v \<Rightarrow> us_id v | None \<Rightarrow> rq_ip (wc_request wc))"

text \<open>\<^verbatim>\<open>build_rate_limiter\<close>: the limiter in Redis when the handle is enabled, the one in memory otherwise.\<close>

definition upload_limits ::
  "'s site_env \<Rightarrow> 's site \<Rightarrow> (nat \<Rightarrow> time) \<Rightarrow> string \<Rightarrow> int \<Rightarrow> user option
     \<Rightarrow> redis_handle \<times> 's \<times> limiter \<times> bool \<Rightarrow> (err + unit) \<times> redis_handle \<times> 's \<times> limiter \<times> bool" where
  "upload_limits V st c key n actor r =
     (case r of (h, s, lm, degraded) \<Rightarrow>
      if handle_enabled h
      then redis_enforce_upload_limits (site_cfg V st) (en_client V) (c 0) (c 1) (c 2) (c 3) key n actor r
      else (case mem_enforce_upload_limits (site_cfg V st) (c 3) key n actor lm of (v, lm') \<Rightarrow> (v, h, s, lm', degraded)))"

definition upload_item ::
  "'s web_env \<Rightarrow> web_context \<Rightarrow> user option \<Rightarrow> string \<Rightarrow> string option \<Rightarrow> form_item \<Rightarrow> string option \<Rightarrow> string option
     \<Rightarrow> 's site \<Rightarrow> (err + album \<times> media) \<times> 's site" where
  "upload_item V wc u source title fi album_id tok st =
     (case upload (site_cfg (wb_site V) st) (wb_procs V) (wb_mime V) (wb_listen V) (upload_limits (wb_site V) st (fi_clock fi))
        (fi_inputs fi) (fi_file fi) album_id title (wc_cid wc) \<lparr>ca_user = u, ca_source = source\<rparr> tok
        (Some (upload_rate_limit_key wc u)) (si_world st, si_redis st, si_server st, si_uploads st, si_uploads_degraded st) of
        (r, w, h, s, lm, degraded) \<Rightarrow>
          (r, st\<lparr>si_world := w, si_redis := h, si_server := s, si_uploads := lm, si_uploads_degraded := degraded\<rparr>))"

definition issue_delete_link ::
  "crypto \<Rightarrow> form_item \<Rightarrow> string \<Rightarrow> string \<Rightarrow> world \<Rightarrow> (err + string) \<times> world" where
  "issue_delete_link cr fi album_id user_id w =
     (case issue_capability cr (fi_issued fi) (fi_selector fi) (fi_secret fi) album_id user_id of
        Inl e \<Rightarrow> (Inl e, w)
      | Inr (c, raw) \<Rightarrow>
          (case create_sharex_delete_capability c (w_db w) of
             Inl e \<Rightarrow> (Inl e, w)
           | Inr (_, d) \<Rightarrow> (Inr raw, with_db w d)))"

text \<open>The loop over the files: all go to the album of the first, and an album that was made for it has a token that opens it
  to the next. \<open>links\<close> is \<^verbatim>\<open>sharex_delete_tokens\<close>.\<close>

fun upload_files ::
  "'s web_env \<Rightarrow> web_context \<Rightarrow> user option \<Rightarrow> bool \<Rightarrow> string option \<Rightarrow> form_item list \<Rightarrow> string option \<Rightarrow> string option
     \<Rightarrow> (string \<rightharpoonup> string) \<Rightarrow> 's site \<Rightarrow> (err + (album \<times> media) list \<times> (string \<rightharpoonup> string)) \<times> 's site" where
  "upload_files V wc u by_key title [] album_id tok links st = (Inr ([], links), st)"
| "upload_files V wc u by_key title (fi # fis) album_id tok links st =
     io_bind (upload_item V wc u (if by_key then ''api'' else ''web'') title fi album_id tok) (\<lambda>(a, m).
       let tok' = (if truthy (al_delete_token a) then al_delete_token a else tok);
           rest = (\<lambda>links'. io_bind (upload_files V wc u by_key title fis (Some (al_id a)) tok' links')
             (\<lambda>(results, final). io_return ((a, m) # results, final))) in
       (case u of
          Some v \<Rightarrow>
            if by_key \<and> al_user_id a = Some (us_id v)
            then io_bind (in_world (issue_delete_link (en_crypto (wb_site V)) fi (al_id a) (us_id v)))
              (\<lambda>raw. rest (links(al_id a \<mapsto> raw)))
            else rest links
        | None \<Rightarrow> rest links)) st"

record uploaded_item =
  ut_media_id :: string
  ut_media_url :: string
  ut_thumb_url :: string
  ut_thumb_status :: string

record upload_response =
  ur_album_id :: string
  ur_album_url :: string
  ur_media_id :: string
  ur_media_url :: string
  ur_thumb_url :: string
  ur_manage_url :: "string option"
  ur_delete_url :: "string option"
  ur_expires_at :: "time option"
  ur_items :: "uploaded_item list"

definition upload_payload :: "string \<Rightarrow> (string \<rightharpoonup> string) \<Rightarrow> album \<Rightarrow> media \<Rightarrow> (album \<times> media) list \<Rightarrow> upload_response" where
  "upload_payload base_url links a m results =
     \<lparr>ur_album_id = al_id a, ur_album_url = base_url @ ''/a/'' @ al_id a, ur_media_id = md_id m,
      ur_media_url = media_url base_url (md_id m) (md_format m), ur_thumb_url = thumb_url base_url (md_id m) (md_format m),
      ur_manage_url = (if truthy (al_delete_token a) then Some (album_manage_url base_url a True) else None),
      ur_delete_url = map_option (\<lambda>raw. build_sharex_delete_url base_url raw (al_id a)) (links (al_id a)),
      ur_expires_at = al_expires_at a,
      ur_items = map (\<lambda>(_, m). \<lparr>ut_media_id = md_id m, ut_media_url = media_url base_url (md_id m) (md_format m),
        ut_thumb_url = thumb_url base_url (md_id m) (thumb_format m), ut_thumb_status = md_thumb_status m\<rparr>) results\<rparr>"

text \<open>The framework refuses a form without a file.\<close>

record upload_form =
  fo_first :: form_item
  fo_others :: "form_item list"
  fo_album_id :: "string option"
  fo_title :: "string option"
  fo_delete_token :: "string option"

definition anonymous_refused :: err where
  "anonymous_refused = HTTPException 403 ''Anonymous uploads are disabled.''"

text \<open>Without a user the switch for anonymous uploads is read.\<close>

definition anonymous_allowed :: "'s site_env \<Rightarrow> user option \<Rightarrow> 's site \<Rightarrow> err + unit" where
  "anonymous_allowed V u st = (if u \<noteq> None then Inr () else and_then (site_flag V st ''anon_upload_enabled'')
     (\<lambda>allowed. if allowed then Inr () else Inl anonymous_refused))"

definition web_upload :: "'s web_env \<Rightarrow> web_context \<Rightarrow> upload_form \<Rightarrow> 's site \<Rightarrow> (err + upload_response) \<times> 's site" where
  "web_upload V wc fo st =
     (case authenticated_principal (wb_site V) (wc_clock wc) False (wc_request wc) st of
        ((Inl e, _), st1) \<Rightarrow> (Inl e, st1)
      | ((Inr p, _), st1) \<Rightarrow>
          (let u = map_option pr_user p; by_key = (\<exists>q. p = Some q \<and> pr_raw_api_key q \<noteq> None) in
           io_bind (\<lambda>s. (anonymous_allowed (wb_site V) u s, s)) (\<lambda>_.
           io_bind (upload_files V wc u by_key (fo_title fo) (fo_first fo # fo_others fo) (fo_album_id fo) (fo_delete_token fo)
               Map.empty)
             (\<lambda>(results, links). io_return (case hd results of (a, m) \<Rightarrow> upload_payload (wc_base_url wc) links a m results))) st1))"

section \<open>Changing albums and items\<close>

definition web_delete_album ::
  "'s web_env \<Rightarrow> web_context \<Rightarrow> string \<Rightarrow> string option \<Rightarrow> 's site \<Rightarrow> (err + string \<times> nat) \<times> 's site" where
  "web_delete_album V wc aid tok =
     (if \<not> is_valid_id aid album_id_length then io_raise not_found
      else io_bind (web_user V wc False) (\<lambda>u.
        io_bind (in_world (delete_album (wc_clock wc 40) aid tok (wc_cid wc) u)) (\<lambda>(a, items).
          io_return (al_id a, length items))))"

definition web_patch_album ::
  "'s web_env \<Rightarrow> web_context \<Rightarrow> string \<Rightarrow> string option \<Rightarrow> string option patch \<Rightarrow> string option patch \<Rightarrow> 's site
     \<Rightarrow> (err + album_payload) \<times> 's site" where
  "web_patch_album V wc aid tok title cover =
     (if \<not> is_valid_id aid album_id_length then io_raise not_found
      else io_bind (web_user V wc False) (\<lambda>u.
        io_bind (in_world (update_album (wc_clock wc 40) (wc_clock wc 41) aid tok (wc_cid wc) u title cover)) (\<lambda>(a, items).
          io_return (album_to_payload (wc_base_url wc) a items))))"

definition web_patch_album_order ::
  "'s web_env \<Rightarrow> web_context \<Rightarrow> string \<Rightarrow> string option \<Rightarrow> (string \<times> int) list \<Rightarrow> 's site
     \<Rightarrow> (err + album_payload) \<times> 's site" where
  "web_patch_album_order V wc aid tok order =
     (if \<not> is_valid_id aid album_id_length then io_raise not_found
      else io_bind (web_user V wc False) (\<lambda>u.
        io_bind (in_world (reorder_album (wc_clock wc 40) (wc_clock wc 41) aid tok order (wc_cid wc) u)) (\<lambda>(a, items).
          io_return (album_to_payload (wc_base_url wc) a items))))"

record media_deleted =
  dm_media_id :: string
  dm_album_id :: string
  dm_album_deleted :: bool
  dm_remaining_item_count :: nat

definition web_delete_media ::
  "'s web_env \<Rightarrow> web_context \<Rightarrow> string \<Rightarrow> string option \<Rightarrow> 's site \<Rightarrow> (err + media_deleted) \<times> 's site" where
  "web_delete_media V wc mid tok =
     (if \<not> is_valid_id mid media_id_length then io_raise not_found
      else io_bind (web_user V wc False) (\<lambda>u.
        io_bind (in_world (delete_media (wc_clock wc 40) (wc_clock wc 41) mid tok (wc_cid wc) u)) (\<lambda>r.
          io_return \<lparr>dm_media_id = md_id (mr_deleted_media r), dm_album_id = md_album_id (mr_deleted_media r),
            dm_album_deleted = mr_album_deleted r, dm_remaining_item_count = length (mr_remaining_items r)\<rparr>)))"

end
