(* ===== verification/Web_User.thy ===== *)
theory Web_User
  imports Web_Public
begin

text \<open>
  What signed-in users do with their own account over HTTP, \<^verbatim>\<open>src/imghost/web/user_api.py\<close>. Telemetry is left out;
  \<open>ai\<close> is what an operation on accounts draws.
\<close>

section \<open>Who asks\<close>

text \<open>\<^verbatim>\<open>authenticated_user(request, required=True)\<close>, whose result the handlers use as a user.\<close>

definition required_user :: "'s web_env \<Rightarrow> web_context \<Rightarrow> 's site \<Rightarrow> (err + user) \<times> 's site" where
  "required_user V wc = io_bind (web_user V wc True) (\<lambda>u.
     case u of Some v \<Rightarrow> io_return v | None \<Rightarrow> io_raise (AttributeError ''id''))"

definition required_principal :: "'s web_env \<Rightarrow> web_context \<Rightarrow> 's site \<Rightarrow> (err + principal) \<times> 's site" where
  "required_principal V wc st =
     (case authenticated_principal (wb_site V) (wc_clock wc) True (wc_request wc) st of
        ((Inl e, _), st1) \<Rightarrow> (Inl e, st1)
      | ((Inr p, _), st1) \<Rightarrow> (case p of Some q \<Rightarrow> (Inr q, st1) | None \<Rightarrow> (Inl (AttributeError ''raw_api_key''), st1)))"

text \<open>A query on the tables.\<close>

definition from_db :: "('s site \<Rightarrow> err + 'a) \<Rightarrow> 's site \<Rightarrow> (err + 'a) \<times> 's site" where
  "from_db f st = (f st, st)"

definition user_summary_of :: "'s web_env \<Rightarrow> user \<Rightarrow> 's site \<Rightarrow> (err + user_summary) \<times> 's site" where
  "user_summary_of V u = from_db (\<lambda>st. get_current_user_summary (site_cfg (wb_site V) st) u (si_db st))"

section \<open>The handlers\<close>

definition web_me :: "'s web_env \<Rightarrow> web_context \<Rightarrow> 's site \<Rightarrow> (err + user_summary) \<times> 's site" where
  "web_me V wc = io_bind (required_user V wc) (user_summary_of V)"

definition web_my_albums ::
  "'s web_env \<Rightarrow> web_context \<Rightarrow> int \<Rightarrow> int \<Rightarrow> 's site \<Rightarrow> (err + album_payload listing) \<times> 's site" where
  "web_my_albums V wc lim ofs = io_bind (required_user V wc) (\<lambda>u.
     io_seq (io_lift (validate_pagination lim ofs 200)) (from_db (\<lambda>st.
       Inr (get_current_user_albums_page u (wc_base_url wc) lim ofs (si_db st)))))"

text \<open>The key itself and when it was made.\<close>

definition web_new_api_key ::
  "'s web_env \<Rightarrow> web_context \<Rightarrow> account_inputs \<Rightarrow> 's site \<Rightarrow> (err + string \<times> time) \<times> 's site" where
  "web_new_api_key V wc ai = io_bind (required_user V wc) (\<lambda>u.
     io_bind (in_world (issue_api_key (en_crypto (wb_site V)) ai u (Some (wc_cid wc)) (Some (us_id u)) ''api''))
       (\<lambda>(key, raw). io_return (raw, ak_created_at key)))"

definition web_change_password ::
  "'s web_env \<Rightarrow> web_context \<Rightarrow> account_inputs \<Rightarrow> string \<Rightarrow> string \<Rightarrow> 's site \<Rightarrow> (err + unit) \<times> 's site" where
  "web_change_password V wc ai current_password new_password = io_bind (required_user V wc) (\<lambda>u.
     io_bind (in_world (change_password (en_crypto (wb_site V)) ai u current_password new_password (Some (wc_cid wc)) ''api''))
       (\<lambda>_. io_return ()))"

definition sharex_config :: "string \<Rightarrow> string \<Rightarrow> (string option \<times> json) list" where
  "sharex_config base_url raw_api_key =
     [(Some ''Version'', JString ''14.1.0''), (Some ''Name'', JString ''imghost''),
      (Some ''DestinationType'', JString ''ImageUploader, FileUploader''), (Some ''RequestMethod'', JString ''POST''),
      (Some ''RequestURL'', JString (base_url @ ''/api/v1/upload'')),
      (Some ''Headers'', JObject [(Some ''Authorization'', JString (''Bearer '' @ raw_api_key))]),
      (Some ''Body'', JString ''MultipartFormData''), (Some ''FileFormName'', JString ''file''),
      (Some ''URL'', JString ''$json:media_url$''), (Some ''ThumbnailURL'', JString ''$json:thumb_url$''),
      (Some ''DeletionURL'', JString ''$json:delete_url$'')]"

text \<open>A request with an API key is answered with that key, one with a session with a new key, which replaces the old.\<close>

definition web_sharex_config ::
  "'s web_env \<Rightarrow> web_context \<Rightarrow> account_inputs \<Rightarrow> 's site \<Rightarrow> (err + (string option \<times> json) list) \<times> 's site" where
  "web_sharex_config V wc ai = io_bind (required_principal V wc) (\<lambda>p.
     io_bind (case pr_raw_api_key p of
         Some raw \<Rightarrow> io_return raw
       | None \<Rightarrow> io_bind (in_world (issue_api_key (en_crypto (wb_site V)) ai (pr_user p) (Some (wc_cid wc))
           (Some (us_id (pr_user p))) ''sharex'')) (\<lambda>(_, raw). io_return raw))
       (\<lambda>raw. io_return (sharex_config (wc_base_url wc) raw)))"

text \<open>\<^verbatim>\<open>load_account_delete_reauth_cookie\<close>\<close>

definition load_account_delete_reauth_cookie :: "string option \<Rightarrow> string option" where
  "load_account_delete_reauth_cookie cookie =
     (let v = py_strip (case cookie of Some c \<Rightarrow> c | None \<Rightarrow> []) in if v \<noteq> [] then Some v else None)"

record user_delete_request =
  dr_method :: string
  dr_current_password :: "string option"

definition clear_browser_session :: "'s web_env \<Rightarrow> web_context \<Rightarrow> 's site \<Rightarrow> (err + unit) \<times> 's site" where
  "clear_browser_session V wc st =
     (let k = wc_clock wc in
      case clear_session (en_client (wb_site V)) (en_sessions (wb_site V)) (k 36) (k 37) (k 38)
        (rq_session_cookie (wc_request wc)) (si_redis st, si_server st) of
        (r, h, s) \<Rightarrow> (r, st\<lparr>si_redis := h, si_server := s\<rparr>))"

text \<open>The confirmation is checked, the user deleted, then the session of the browser cleared.\<close>

definition web_delete_me ::
  "'s web_env \<Rightarrow> web_context \<Rightarrow> user_delete_request \<Rightarrow> string option \<Rightarrow> 's site \<Rightarrow> (err + string \<times> int \<times> int) \<times> 's site" where
  "web_delete_me V wc rq cookie = io_bind (required_user V wc) (\<lambda>u.
     let k = wc_clock wc;
         reauth_token = (if dr_method rq = ''oauth_reauth'' then load_account_delete_reauth_cookie cookie else None);
         loads = (\<lambda>t. map_sum id reauth.truncate (reauth_loads (ss_env (en_sessions (wb_site V))) (k 40) 600 t)) in
     io_seq (from_db (\<lambda>st. validate_account_deletion_confirmation (en_crypto (wb_site V)) loads u
         \<lparr>dc_method = dr_method rq, dc_current_password = dr_current_password rq, dc_reauth_token = reauth_token\<rparr> (si_db st)))
       (io_bind (in_world (delete_user_account (k 41) u (wc_cid wc))) (\<lambda>(n_albums, n_items).
         io_seq (clear_browser_session V wc) (io_return (us_id u, n_albums, n_items)))))"

definition web_disconnect_google :: "'s web_env \<Rightarrow> web_context \<Rightarrow> 's site \<Rightarrow> (err + user_summary) \<times> 's site" where
  "web_disconnect_google V wc = io_bind (required_user V wc) (\<lambda>u.
     io_seq (in_world (disconnect_oauth_provider u ''google'')) (user_summary_of V u))"

end
