(* ===== verification/Web_Admin.thy ===== *)
theory Web_Admin
  imports Web_User
begin

text \<open>
  The administration over HTTP, \<^verbatim>\<open>src/imghost/web/admin_api.py\<close>. The records of who read what (\<^verbatim>\<open>_audit_admin_read\<close>), the
  audit log and the status report belong to telemetry and are left out.
\<close>

definition web_admin :: "'s web_env \<Rightarrow> web_context \<Rightarrow> 's site \<Rightarrow> (err + user) \<times> 's site" where
  "web_admin V wc = require_admin_user (wb_site V) (wc_clock wc) (wc_request wc)"

text \<open>\<^verbatim>\<open>(q or "").strip() or None\<close>\<close>

definition stripped_query :: "string option \<Rightarrow> string option" where
  "stripped_query q = (let v = py_strip (or_str q []) in if v \<noteq> [] then Some v else None)"

section \<open>Reading\<close>

definition web_list_users ::
  "'s web_env \<Rightarrow> web_context \<Rightarrow> string option \<Rightarrow> bool option \<Rightarrow> bool option \<Rightarrow> int \<Rightarrow> int \<Rightarrow> 's site
     \<Rightarrow> (err + usage_page) \<times> 's site" where
  "web_list_users V wc q is_admin suspended lim ofs =
     io_seq (web_admin V wc) (io_seq (io_lift (validate_pagination lim ofs 200)) (from_db (\<lambda>st.
       list_users_with_usage_page (site_cfg (wb_site V) st) (stripped_query q) is_admin suspended lim ofs (si_db st))))"

definition web_get_user :: "'s web_env \<Rightarrow> web_context \<Rightarrow> string \<Rightarrow> 's site \<Rightarrow> (err + user_usage) \<times> 's site" where
  "web_get_user V wc uid = io_seq (web_admin V wc) (from_db (\<lambda>st.
     get_user_with_usage_for_admin (site_cfg (wb_site V) st) uid (si_db st)))"

definition web_get_user_stats ::
  "'s web_env \<Rightarrow> web_context \<Rightarrow> string \<Rightarrow> 's site \<Rightarrow> (err + string \<times> string \<times> int \<times> usage \<times> quota_view) \<times> 's site" where
  "web_get_user_stats V wc uid = io_seq (web_admin V wc) (from_db (\<lambda>st.
     get_user_storage_stats_for_admin (site_cfg (wb_site V) st) uid (si_db st)))"

definition web_list_user_albums ::
  "'s web_env \<Rightarrow> web_context \<Rightarrow> string \<Rightarrow> int \<Rightarrow> int \<Rightarrow> 's site \<Rightarrow> (err + admin_album listing) \<times> 's site" where
  "web_list_user_albums V wc uid lim ofs =
     io_seq (web_admin V wc) (io_seq (io_lift (validate_pagination lim ofs 200)) (from_db (\<lambda>st.
       list_albums_for_user_admin_page uid (wc_base_url wc) lim ofs (si_db st))))"

definition web_list_albums ::
  "'s web_env \<Rightarrow> web_context \<Rightarrow> string option \<Rightarrow> string option \<Rightarrow> bool option \<Rightarrow> int \<Rightarrow> int \<Rightarrow> 's site
     \<Rightarrow> (err + admin_album listing) \<times> 's site" where
  "web_list_albums V wc q owner anonymous lim ofs =
     io_seq (web_admin V wc) (io_seq (io_lift (validate_pagination lim ofs 200)) (from_db (\<lambda>st.
       Inr (list_albums_for_admin_page (wc_base_url wc) (stripped_query q) (stripped_query owner) anonymous lim ofs (si_db st)))))"

definition web_get_config ::
  "'s web_env \<Rightarrow> web_context \<Rightarrow> 's site \<Rightarrow> (err + (string \<times> runtime_config_value) list) \<times> 's site" where
  "web_get_config V wc = io_seq (web_admin V wc) (from_db (\<lambda>st. list_effective (en_environment (wb_site V)) (si_config st)))"

definition web_stats :: "'s web_env \<Rightarrow> web_context \<Rightarrow> 's site \<Rightarrow> (err + storage_overview) \<times> 's site" where
  "web_stats V wc = io_seq (web_admin V wc) (from_db (\<lambda>st. global_storage_stats (site_cfg (wb_site V) st) (si_db st)))"

section \<open>Settings\<close>

text \<open>The fields of \<^verbatim>\<open>AdminConfigPatchRequest\<close>; the fields that were sent, in this order, are the updates.\<close>

definition config_patch_fields :: "string list" where
  "config_patch_fields =
     [''allow_registration'', ''anon_upload_enabled'', ''anon_expiry_hours'', ''max_upload_bytes'', ''video_thumb_frames'',
      ''default_user_quota_bytes'', ''server_quota_bytes'', ''rate_limit_anon_rpm'', ''rate_limit_anon_bph'',
      ''rate_limit_global_anon_rpm'', ''rate_limit_global_anon_bph'', ''rate_limit_user_rpm'', ''rate_limit_user_bph'',
      ''auth_rate_limit_login_ip_rpm'', ''auth_rate_limit_login_account_failures'',
      ''auth_rate_limit_login_account_window_seconds'', ''auth_rate_limit_login_lock_seconds'',
      ''auth_rate_limit_registration_ip_rpm'', ''auth_rate_limit_api_key_ip_failures'',
      ''auth_rate_limit_api_key_ip_window_seconds'', ''auth_rate_limit_api_key_lock_seconds'',
      ''auth_rate_limit_admin_ip_failures'', ''auth_rate_limit_admin_ip_window_seconds'', ''auth_rate_limit_admin_lock_seconds'']"

definition config_updates :: "(string \<rightharpoonup> json) \<Rightarrow> (string \<times> json) list" where
  "config_updates sent = List.map_filter (\<lambda>key. map_option (Pair key) (sent key)) config_patch_fields"

definition tell_config_change :: "string \<Rightarrow> string \<Rightarrow> config_change \<Rightarrow> world \<Rightarrow> world" where
  "tell_config_change admin_id cid c w =
     emit (ConfigChanged (ch_key c) (Some admin_id) (Some (ch_old_value c)) (Some (ch_new_value c)) ''api'' cid) w"

definition web_patch_config ::
  "'s web_env \<Rightarrow> web_context \<Rightarrow> (string \<rightharpoonup> json) \<Rightarrow> 's site
     \<Rightarrow> (err + (string \<times> runtime_config_value) list) \<times> 's site" where
  "web_patch_config V wc sent = io_bind (web_admin V wc) (\<lambda>admin st.
     (case update_values (en_environment (wb_site V)) (wc_clock wc 40) (config_updates sent) (si_config st) of
        (Inl e, rows) \<Rightarrow> (Inl e, st\<lparr>si_config := rows\<rparr>)
      | (Inr changes, rows) \<Rightarrow>
          (list_effective (en_environment (wb_site V)) rows,
           st\<lparr>si_config := rows, si_world := fold (tell_config_change (us_id admin) (wc_cid wc)) changes (si_world st)\<rparr>)))"

section \<open>Users\<close>

text \<open>What the answers say of a user: the row, with the quota in effect.\<close>

definition admin_user_payload :: "'s web_env \<Rightarrow> user \<Rightarrow> 's site \<Rightarrow> (err + user \<times> int) \<times> 's site" where
  "admin_user_payload V u = from_db (\<lambda>st. and_then (case us_quota_bytes u of Some q \<Rightarrow> Inr q
     | None \<Rightarrow> site_cfg (wb_site V) st ''default_user_quota_bytes'') (\<lambda>q. Inr (u, q)))"

definition web_create_user ::
  "'s web_env \<Rightarrow> web_context \<Rightarrow> account_inputs \<Rightarrow> user_create_input \<Rightarrow> 's site \<Rightarrow> (err + user \<times> int) \<times> 's site" where
  "web_create_user V wc ai p = io_bind (web_admin V wc) (\<lambda>admin.
     io_bind (in_world (create_user (en_crypto (wb_site V)) ai p ''admin'' (Some (wc_cid wc)) (Some (us_id admin)) ''api''))
       (admin_user_payload V))"

text \<open>The fields that were sent; \<^verbatim>\<open>null\<close> is \<open>None\<close>.\<close>

record user_patch_request =
  pq_is_admin :: "bool option patch"
  pq_suspended :: "bool option patch"
  pq_quota_bytes :: "int option patch"
  pq_rate_limit_rpm :: "int option patch"
  pq_rate_limit_bph :: "int option patch"
  pq_password :: "string option patch"

text \<open>\<^verbatim>\<open>bool(None)\<close> is \<^verbatim>\<open>False\<close>: a \<^verbatim>\<open>null\<close> takes the rights of an administrator away.\<close>

definition user_update_of :: "user_patch_request \<Rightarrow> user_update_input" where
  "user_update_of p = \<lparr>ud_is_admin = (case pq_is_admin p of UNSET \<Rightarrow> UNSET | Given b \<Rightarrow> Given (b = Some True)),
     ud_suspended = (case pq_suspended p of UNSET \<Rightarrow> None | Given s \<Rightarrow> s), ud_quota_bytes = pq_quota_bytes p,
     ud_rate_limit_rpm = pq_rate_limit_rpm p, ud_rate_limit_bph = pq_rate_limit_bph p, ud_password = None\<rparr>"

definition web_patch_user ::
  "'s web_env \<Rightarrow> web_context \<Rightarrow> account_inputs \<Rightarrow> string \<Rightarrow> user_patch_request \<Rightarrow> 's site
     \<Rightarrow> (err + user \<times> int) \<times> 's site" where
  "web_patch_user V wc ai uid p = io_bind (web_admin V wc) (\<lambda>admin.
     if pq_password p \<noteq> UNSET
     then io_raise (HTTPException 400 ''Use the dedicated admin password reset endpoint for password changes.'')
     else io_bind (in_world (update_user (en_crypto (wb_site V)) ai uid (user_update_of p) (wc_cid wc) (Some (us_id admin))))
       (admin_user_payload V))"

definition web_reset_password ::
  "'s web_env \<Rightarrow> web_context \<Rightarrow> account_inputs \<Rightarrow> string \<Rightarrow> string \<Rightarrow> 's site \<Rightarrow> (err + string) \<times> 's site" where
  "web_reset_password V wc ai uid new_password = io_bind (web_admin V wc) (\<lambda>admin.
     io_bind (in_world (reset_user_password (en_crypto (wb_site V)) ai uid new_password (wc_cid wc) (Some (us_id admin))))
       (\<lambda>u. io_return (us_id u)))"

definition web_delete_user :: "'s web_env \<Rightarrow> web_context \<Rightarrow> string \<Rightarrow> 's site \<Rightarrow> (err + string \<times> int \<times> int) \<times> 's site" where
  "web_delete_user V wc uid = io_bind (web_admin V wc) (\<lambda>admin.
     io_bind (in_world (delete_user_by_id (wc_clock wc 40) uid (wc_cid wc) ''admin'' (Some (us_id admin))))
       (\<lambda>(n_albums, n_items). io_return (uid, n_albums, n_items)))"

section \<open>Albums\<close>

definition web_admin_patch_album ::
  "'s web_env \<Rightarrow> web_context \<Rightarrow> string \<Rightarrow> time option patch \<Rightarrow> 's site \<Rightarrow> (err + album_payload) \<times> 's site" where
  "web_admin_patch_album V wc aid expires =
     (if \<not> is_valid_id aid album_id_length then io_raise not_found
      else io_bind (web_admin V wc) (\<lambda>admin.
        io_bind (in_world (admin_update_album (wc_clock wc 40) aid expires (wc_cid wc) (Some (us_id admin)))) (\<lambda>a.
          from_db (\<lambda>st. Inr (album_to_payload (wc_base_url wc) a (list_album_media aid (si_db st)))))))"

definition web_admin_delete_album ::
  "'s web_env \<Rightarrow> web_context \<Rightarrow> string \<Rightarrow> 's site \<Rightarrow> (err + string \<times> nat) \<times> 's site" where
  "web_admin_delete_album V wc aid =
     (if \<not> is_valid_id aid album_id_length then io_raise not_found
      else io_bind (web_admin V wc) (\<lambda>admin.
        io_bind (in_world (delete_album (wc_clock wc 40) aid None (wc_cid wc) (Some admin))) (\<lambda>(a, items).
          io_return (al_id a, length items))))"

end
