(* ===== verification/Web_Facts.thy ===== *)
theory Web_Facts
  imports Web_Admin Service_Props Auth_Flow_Props
begin

text \<open>
  How the handlers are reasoned about: an operation on the site \<^emph>\<open>keeps\<close> an invariant, and \<^emph>\<open>spares\<close> an album; both go
  through the combinators by rules, so that a handler needs only the facts of the operations it calls.
\<close>

section \<open>Invariants through the combinators\<close>

definition keeps :: "('s \<Rightarrow> bool) \<Rightarrow> ('s \<Rightarrow> 'r \<times> 's) \<Rightarrow> bool" where
  "keeps I m = (\<forall>s. I s \<longrightarrow> I (snd (m s)))"

named_theorems keeps_rules \<open>operations and combinators that keep an invariant\<close>

lemma keepsI: "(\<And>s r s'. I s \<Longrightarrow> m s = (r, s') \<Longrightarrow> I s') \<Longrightarrow> keeps I m"
  unfolding keeps_def by (metis prod.collapse)

lemma keepsD: "keeps I m \<Longrightarrow> m s = (r, s') \<Longrightarrow> I s \<Longrightarrow> I s'"
  unfolding keeps_def by (metis snd_conv)

lemma keeps_pure [keeps_rules]:
  "keeps I (io_return x)" "keeps I (io_raise e)" "keeps I (io_lift r)" "keeps I (from_db f)"
  by (simp_all add: keeps_def io_defs from_db_def)

lemma keeps_bind [keeps_rules]: "keeps I m \<Longrightarrow> (\<And>x. keeps I (f x)) \<Longrightarrow> keeps I (io_bind m f)"
  unfolding keeps_def io_bind_def by (fastforce split: sum.split prod.split)

lemma keeps_seq [keeps_rules]: "keeps I m \<Longrightarrow> keeps I n \<Longrightarrow> keeps I (io_seq m n)"
  unfolding io_seq_def by (rule keeps_bind)

lemma keeps_if [keeps_rules]: "keeps I m \<Longrightarrow> keeps I n \<Longrightarrow> keeps I (if b then m else n)"
  by simp

lemma keeps_option [keeps_rules]: "keeps I m \<Longrightarrow> (\<And>x. keeps I (f x)) \<Longrightarrow> keeps I (case r of None \<Rightarrow> m | Some x \<Rightarrow> f x)"
  by (cases r) simp_all

lemma keeps_prod [keeps_rules]: "(\<And>x y. keeps I (f x y)) \<Longrightarrow> keeps I (case p of (x, y) \<Rightarrow> f x y)"
  by (cases p) simp

section \<open>What authentication leaves\<close>

text \<open>At most the time of last use of one key changes in the tables.\<close>

definition only_touched :: "'s site \<Rightarrow> 's site \<Rightarrow> bool" where
  "only_touched st st' \<longleftrightarrow> si_config st' = si_config st
     \<and> (si_world st' = si_world st \<or> (\<exists>key now d. update_api_key (key\<lparr>ak_last_used_at := Some now\<rparr>) (si_db st) = Inr (key\<lparr>ak_last_used_at := Some now\<rparr>, d)
          \<and> key \<in> set (db_api_keys (si_db st)) \<and> si_world st' = with_db (si_world st) d))"

lemma only_touched_refl: "only_touched st st"
  by (simp add: only_touched_def)

lemma only_touched_world:
  "si_world st1 = si_world st \<Longrightarrow> si_config st1 = si_config st \<Longrightarrow> only_touched st1 st2 \<Longrightarrow> only_touched st st2"
  "only_touched st st1 \<Longrightarrow> si_world st2 = si_world st1 \<Longrightarrow> si_config st2 = si_config st1 \<Longrightarrow> only_touched st st2"
  by (auto simp: only_touched_def si_db_def)

lemma limit_configs:
  "api_key_attempt V k ip st = (x, st') \<Longrightarrow> si_config st' = si_config st"
  "api_key_failure V k ip st = (x, st') \<Longrightarrow> si_config st' = si_config st"
  "api_key_success V k ip st = (x, st') \<Longrightarrow> si_config st' = si_config st"
  "admin_attempt V k ip st = (x, st') \<Longrightarrow> si_config st' = si_config st"
  "admin_denial V k ip st = (x, st') \<Longrightarrow> si_config st' = si_config st"
  "login_attempt V k ip key st = (x, st') \<Longrightarrow> si_config st' = si_config st"
  "login_failure V k key st = (x, st') \<Longrightarrow> si_config st' = si_config st"
  "login_success V k key st = (x, st') \<Longrightarrow> si_config st' = si_config st"
  "registration_attempt V k ip st = (x, st') \<Longrightarrow> si_config st' = si_config st"
  unfolding site_limits by (blast intro: limiter_call_config)+

lemma registration_attempt_world: "registration_attempt V k ip st = (x, st') \<Longrightarrow> si_world st' = si_world st"
  unfolding site_limits by (blast intro: limiter_call_world)

text \<open>A limiter's call, then the rest.\<close>

lemma touched_seq:
  assumes "io_seq a b st = (x, st')"
    and "\<And>y s. a st = (y, s) \<Longrightarrow> si_world s = si_world st \<and> si_config s = si_config st"
    and "\<And>s. si_world s = si_world st \<Longrightarrow> b s = (x, st') \<Longrightarrow> only_touched s st'"
  shows "only_touched st st'"
proof -
  obtain y s where a: "a st = (y, s)" by fastforce
  note same = assms(2) [OF a]
  show ?thesis
  proof (cases y)
    case (Inl e)
    with assms(1) a have "st' = s" by (simp add: io_seq_def io_bind_def)
    with same show ?thesis by (auto simp: only_touched_def)
  next
    case (Inr u)
    with assms(1) a have "b s = (x, st')" by (simp add: io_seq_def io_bind_def)
    with assms(3) same only_touched_world(1) show ?thesis by metis
  qed
qed

lemma touch_api_key_touches:
  assumes "touch_api_key now key st = (x, st')" "key \<in> set (db_api_keys (si_db st))"
  shows "only_touched st st'"
proof (cases "update_api_key (key\<lparr>ak_last_used_at := Some now\<rparr>) (si_db st)")
  case (Inl e)
  with assms show ?thesis by (simp add: touch_api_key_def only_touched_refl)
next
  case (Inr r)
  obtain key' d where r: "r = (key', d)" by (cases r)
  with Inr have "key' = key\<lparr>ak_last_used_at := Some now\<rparr>" by (auto simp: update_api_key_def Let_def split: if_splits)
  with assms(1) Inr r have "st' = st\<lparr>si_world := with_db (si_world st) d\<rparr>" by (simp add: touch_api_key_def)
  with assms(2) Inr r \<open>key' = _\<close> show ?thesis
    unfolding only_touched_def by (intro conjI disjI2 exI [of _ key] exI [of _ now] exI [of _ d]) simp_all
qed

lemma api_key_principal_touches:
  assumes "api_key_principal V k ip token st = (x, st')"
  shows "only_touched st st'"
  using assms unfolding api_key_principal_def
proof (rule touched_seq)
  show "si_world s = si_world st \<and> si_config s = si_config st" if "api_key_attempt V k ip st = (y, s)" for y s
    using that by (simp add: limit_worlds limit_configs)
next
  fix s assume run: "(case get_api_key_by_hash (hash_api_key (en_crypto V) token) (si_db s) of
      None \<Rightarrow> io_seq (api_key_failure V k ip) (io_raise (HTTPException 401 ''Invalid API key.'')) s
    | Some key \<Rightarrow> (case get_user (ak_user_id key) (si_db s) of
          None \<Rightarrow> io_seq (api_key_failure V k ip) (io_raise not_allowed) s
        | Some u \<Rightarrow> if us_suspended u then io_seq (api_key_failure V k ip) (io_raise not_allowed) s
            else io_seq (api_key_success V k ip) (io_seq (touch_api_key (k 16) key) (io_return \<lparr>pr_user = u, pr_raw_api_key = Some token\<rparr>)) s)) = (x, st')"
  have failed: "only_touched s st'" if "io_seq (api_key_failure V k ip) (io_raise e) s = (x, st')" for e
    using that by (rule touched_seq) (auto simp: limit_worlds limit_configs io_raise_def only_touched_refl)
  show "only_touched s st'"
  proof (cases "get_api_key_by_hash (hash_api_key (en_crypto V) token) (si_db s)")
    case None
    with run failed show ?thesis by simp
  next
    case (Some key)
    have "only_touched s st'" if "io_seq (api_key_success V k ip) (io_seq (touch_api_key (k 16) key) (io_return p)) s = (x, st')" for p
      using that
    proof (rule touched_seq)
      fix s1 assume s1: "si_world s1 = si_world s" and t: "io_seq (touch_api_key (k 16) key) (io_return p) s1 = (x, st')"
      obtain y s2 where y: "touch_api_key (k 16) key s1 = (y, s2)" by fastforce
      with t have "st' = s2" by (auto simp: io_defs split: sum.splits)
      moreover have "key \<in> set (db_api_keys (si_db s1))" using get_api_key_by_hash_SomeD [OF Some] s1 by (simp add: si_db_def)
      ultimately show "only_touched s1 st'" using touch_api_key_touches [OF y] by simp
    qed (simp add: limit_worlds limit_configs)
    with run Some failed show ?thesis by (auto split: option.splits if_splits)
  qed
qed

lemma session_principal_touches:
  assumes "session_principal V k required token st = (x, st')"
  shows "only_touched st st'"
proof -
  obtain r st1 where r: "resolve_session V k token st = (r, st1)" by fastforce
  have "si_world st1 = si_world st \<and> si_config st1 = si_config st"
    using r by (auto simp: resolve_session_def split: prod.splits)
  moreover have "st' = st1"
    using assms by (auto simp: session_principal_def r split: sum.splits option.splits if_splits)
  ultimately show ?thesis by (simp add: only_touched_def)
qed

lemma authenticated_principal_touches:
  assumes "authenticated_principal V k required rq st = (x, st')"
  shows "only_touched st st'"
proof (cases "bearer_token (rq_authorization rq)")
  case (Some token)
  obtain r st1 where "api_key_principal V k (rq_ip rq) token st = (r, st1)" by fastforce
  with api_key_principal_touches [OF this] Some assms show ?thesis by (auto simp: authenticated_principal_def)
next
  case None
  with assms show ?thesis
    by (auto simp: authenticated_principal_def only_touched_refl split: if_splits dest: session_principal_touches)
qed

lemma authenticated_user_touches:
  assumes "authenticated_user V k required rq st = (r, st')"
  shows "only_touched st st'"
proof -
  obtain y stale st1 where "authenticated_principal V k required rq st = ((y, stale), st1)" by (metis prod.collapse)
  with authenticated_principal_touches [OF this] assms show ?thesis by (simp add: authenticated_user_def)
qed

lemma require_admin_user_touches:
  assumes "require_admin_user V k rq st = (r, st')"
  shows "only_touched st st'"
  using assms unfolding require_admin_user_def
proof (rule touched_seq)
  fix s assume run: "(case authenticated_user V k True rq s of
      (Inl e, st1) \<Rightarrow> if is_denial e then io_seq (admin_denial V k (rq_ip rq)) (io_raise e) st1 else (Inl e, st1)
    | (Inr u, st1) \<Rightarrow> (case u of
        None \<Rightarrow> io_seq (admin_denial V k (rq_ip rq)) (io_raise admin_required) st1
      | Some a \<Rightarrow> if us_is_admin a then (Inr a, st1)
          else io_seq (admin_denial V k (rq_ip rq)) (io_raise admin_required) st1)) = (r, st')"
  obtain y st1 where y: "authenticated_user V k True rq s = (y, st1)" by fastforce
  note t = authenticated_user_touches [OF y]
  have denied: "only_touched s st'" if "io_seq (admin_denial V k (rq_ip rq)) (io_raise e) st1 = (r, st')" for e
  proof -
    obtain z s2 where z: "admin_denial V k (rq_ip rq) st1 = (z, s2)" by fastforce
    with that have "st' = s2" by (auto simp: io_defs split: sum.splits)
    with only_touched_world(2) [OF t] z show ?thesis by (simp add: limit_worlds limit_configs)
  qed
  show "only_touched s st'"
    using run y t denied by (cases y) (auto split: option.splits if_splits)
qed (simp add: limit_worlds limit_configs)

lemma update_api_key_only: "update_api_key k d = Inr (k', d') \<Longrightarrow> \<exists>ks. d' = d\<lparr>db_api_keys := ks\<rparr>"
  by (auto simp: update_api_key_def Let_def split: if_splits)

lemma only_touched_rows:
  assumes "only_touched st st'"
  shows "db_users (si_db st') = db_users (si_db st)" "db_albums (si_db st') = db_albums (si_db st)"
    "db_media (si_db st') = db_media (si_db st)" "db_rate_limits (si_db st') = db_rate_limits (si_db st)"
    "tidies (si_db st) (si_db st')" "si_config st' = si_config st"
proof -
  from assms have "si_world st' = si_world st \<or> (\<exists>key k d. update_api_key key (si_db st) = Inr (k, d) \<and> si_db st' = d)"
    by (auto simp: only_touched_def si_db_def)
  then have "si_db st' = si_db st \<or> (\<exists>ks. si_db st' = (si_db st)\<lparr>db_api_keys := ks\<rparr>)"
    using update_api_key_only by (metis si_db_def)
  then show "db_users (si_db st') = db_users (si_db st)" "db_albums (si_db st') = db_albums (si_db st)"
    "db_media (si_db st') = db_media (si_db st)" "db_rate_limits (si_db st') = db_rate_limits (si_db st)"
    by auto
  from \<open>si_world st' = si_world st \<or> _\<close> show "tidies (si_db st) (si_db st')" by (auto simp: si_db_def intro: tidies_update_api_key)
  from assms show "si_config st' = si_config st" by (simp add: only_touched_def)
qed

section \<open>The invariant of the site\<close>

definition site_ok :: "'s site \<Rightarrow> bool" where
  "site_ok st \<longleftrightarrow> service_ok (si_db st) \<and> config_typed (si_config st)"

lemma site_ok_touched: "only_touched st st' \<Longrightarrow> site_ok st \<Longrightarrow> site_ok st'"
  using service_ok_tidies only_touched_rows(5,6) unfolding site_ok_def by metis

lemma keeps_auth [keeps_rules]:
  "keeps site_ok (web_user V wc b)" "keeps site_ok (required_user V wc)" "keeps site_ok (required_principal V wc)"
  "keeps site_ok (web_admin V wc)" "keeps site_ok (user_summary_of V u)" "keeps site_ok (admin_user_payload V u)"
proof -
  show user: "keeps site_ok (web_user V wc b)" for b
    unfolding web_user_def [abs_def] by (rule keepsI) (blast intro: site_ok_touched authenticated_user_touches)
  show "keeps site_ok (required_user V wc)" unfolding required_user_def by (intro keeps_rules user)
  show "keeps site_ok (required_principal V wc)"
    by (rule keepsI) (auto simp: required_principal_def split: prod.splits sum.splits option.splits
      intro: site_ok_touched dest!: authenticated_principal_touches)
  show "keeps site_ok (web_admin V wc)"
    unfolding web_admin_def [abs_def] by (rule keepsI) (blast intro: site_ok_touched require_admin_user_touches)
  show "keeps site_ok (user_summary_of V u)" "keeps site_ok (admin_user_payload V u)"
    unfolding user_summary_of_def admin_user_payload_def by (rule keeps_rules)+
qed

lemma keeps_world:
  assumes "\<And>w r w'. f w = (r, w') \<Longrightarrow> tidies (w_db w) (w_db w')"
  shows "keeps site_ok (in_world f)"
  by (rule keepsI) (auto simp: in_world_def site_ok_def si_db_def split: prod.splits dest!: assms intro: service_ok_tidies)

lemma keeps_world_steps [keeps_rules]:
  "keeps site_ok (in_world (delete_album now aid tok cid actor))"
  "keeps site_ok (in_world (update_album now dbnow aid tok cid actor title cover))"
  "keeps site_ok (in_world (reorder_album now dbnow aid tok order cid actor))"
  "keeps site_ok (in_world (delete_media now dbnow mid tok cid actor))"
  "keeps site_ok (in_world (admin_update_album dbnow aid expires cid who))"
  "keeps site_ok (in_world (issue_api_key cr ai u cid' who source))"
  "keeps site_ok (in_world (change_password cr ai u cur pw cid' source))"
  "keeps site_ok (in_world (create_user cr ai p meth cid' who source))"
  "keeps site_ok (in_world (update_user cr ai uid ud cid who))"
  "keeps site_ok (in_world (reset_user_password cr ai uid pw cid who))"
  "keeps site_ok (in_world (delete_user_by_id now uid cid by_whom who))"
  "keeps site_ok (in_world (delete_user_account now u cid))"
  "keeps site_ok (in_world (disconnect_oauth_provider u provider))"
  by (rule keeps_world; (unfold delete_user_account_def)?, erule tidy_steps)+

lemma keeps_clear_session [keeps_rules]: "keeps site_ok (clear_browser_session V wc)"
  by (rule keepsI) (auto simp: clear_browser_session_def Let_def site_ok_def si_db_def split: prod.splits)

lemma tidies_issue_delete_link:
  fixes w :: world
  shows "issue_delete_link cr fi aid uid w = (r, w') \<Longrightarrow> tidies (w_db w) (w_db w')"
  by (auto simp: issue_delete_link_def split: sum.splits) (erule tidies_create_sharex)

lemma keeps_issue_link [keeps_rules]: "keeps site_ok (in_world (issue_delete_link cr fi aid uid))"
  by (rule keeps_world, erule tidies_issue_delete_link)

section \<open>Uploads\<close>

lemma upload_item_run:
  assumes "upload_item V wc u source title fi album_id tok st = (r, st')"
  obtains lm w' rl where "upload (site_cfg (wb_site V) st) (wb_procs V) (wb_mime V) (wb_listen V) (upload_limits (wb_site V) st (fi_clock fi))
      (fi_inputs fi) (fi_file fi) album_id title (wc_cid wc) \<lparr>ca_user = u, ca_source = source\<rparr> tok
      (Some (upload_rate_limit_key wc u)) (si_world st, lm) = (r, w', rl)"
    "si_world st' = w'" "si_config st' = si_config st"
  using assms by (auto simp: upload_item_def split: prod.splits)

lemma upload_album_id:
  assumes "upload cfg procs mt listen limit ui f album_id title cid actor tok lk (w, r) = (Inr (a, x), w', r')"
    and "db_wf (w_db w)" "album_id \<noteq> Some []" "upload_listener listen"
  shows "al_id a = (case album_id of Some aid \<Rightarrow> aid | None \<Rightarrow> ui_album_id ui)"
  using assms
proof (rule upload_cases)
  fix b w1 x0
  assume got: "get_or_create_album cfg ui album_id title cid actor tok w = (Inr b, w1)"
    and a: "(Inr (a, x) :: err + album \<times> media) = Inr (if \<not> truthy (al_title b) \<and> truthy title then b\<lparr>al_title := title\<rparr> else b, x0)"
  have "al_id b = (case album_id of Some aid \<Rightarrow> aid | None \<Rightarrow> ui_album_id ui)"
    using got assms(3) by (cases album_id)
      (auto simp: get_or_create_album_def new_album_def create_album_def dest: existing_album_ok split: sum.splits if_splits)
  with a show ?thesis by (auto split: if_splits)
qed auto

text \<open>Identifiers of new albums are drawn, and never empty.\<close>

definition drawn :: "form_item \<Rightarrow> bool" where
  "drawn fi \<longleftrightarrow> ui_album_id (fi_inputs fi) \<noteq> []"

lemma upload_item_keeps:
  assumes "upload_item V wc u source title fi album_id tok st = (r, st')" "upload_listener (wb_listen V)"
    and "album_id \<noteq> Some []" "site_ok st"
  shows "site_ok st'" "\<And>a x. r = Inr (a, x) \<Longrightarrow> drawn fi \<Longrightarrow> al_id a \<noteq> []"
proof -
  obtain lm w' rl where up: "upload (site_cfg (wb_site V) st) (wb_procs V) (wb_mime V) (wb_listen V) (upload_limits (wb_site V) st (fi_clock fi))
      (fi_inputs fi) (fi_file fi) album_id title (wc_cid wc) \<lparr>ca_user = u, ca_source = source\<rparr> tok
      (Some (upload_rate_limit_key wc u)) (si_world st, lm) = (r, w', rl)" "si_world st' = w'" "si_config st' = si_config st"
    by (rule upload_item_run [OF assms(1)])
  have ok: "service_ok (w_db (si_world st))" and wf: "db_wf (w_db (si_world st))"
    using assms(4) by (simp_all add: site_ok_def si_db_def service_ok_def)
  have "service_ok (w_db w')"
  proof (cases r)
    case (Inl e)
    from up(1) wf assms(3,2) have "w_db w' = w_db (si_world st)" by (rule upload_cases) (use Inl in auto)
    with ok show ?thesis by simp
  next
    case (Inr ax)
    obtain a x where "ax = (a, x)" by (cases ax)
    from service_ok_upload [OF up(1) [unfolded Inr this] ok assms(3,2)] show ?thesis .
  qed
  with up assms(4) show "site_ok st'" by (simp add: site_ok_def si_db_def)
  show "al_id a \<noteq> []" if "r = Inr (a, x)" "drawn fi" for a x
    using upload_album_id [OF up(1) [unfolded that(1)] wf assms(3,2)] that(2) assms(3) by (auto simp: drawn_def split: option.splits)
qed

text \<open>A bind whose continuation needs what the first operation returned.\<close>

lemma io_bind_run:
  assumes "io_bind m f st = (r, st')"
  obtains (failed) e where "m st = (Inl e, st')" "r = Inl e" | (went_on) x s where "m st = (Inr x, s)" "f x s = (r, st')"
  using assms by (auto simp: io_bind_def split: prod.splits sum.splits)

text \<open>An invariant goes through the loop over the files when each upload keeps it and hands on a condition \<open>P\<close> on the album and
  the token, and each new link keeps it.\<close>

lemma upload_files_invariant:
  assumes "upload_files V wc u by_key title fis album_id tok links st = (r, st')"
    and item: "\<And>fi source aid tok s r s'. fi \<in> set fis \<Longrightarrow> upload_item V wc u source title fi aid tok s = (r, s') \<Longrightarrow> P aid tok \<Longrightarrow> I s
      \<Longrightarrow> I s' \<and> (\<forall>a x tok'. r = Inr (a, x) \<longrightarrow> P (Some (al_id a)) tok')"
    and link: "\<And>fi b v. keeps I (in_world (issue_delete_link (en_crypto (wb_site V)) fi b v))"
    and "P album_id tok" "I st"
  shows "I st'"
  using assms(1,4,5) item
proof (induction fis arbitrary: album_id tok links st st' r)
  case (Cons fi fis)
  from Cons.prems(1) show ?case
    unfolding upload_files.simps Let_def
  proof (cases rule: io_bind_run)
    case (failed e)
    from Cons.prems(4) [OF _ failed(1) Cons.prems(2,3)] show ?thesis by simp
  next
    case (went_on ax s)
    obtain a x where ax: "ax = (a, x)" by (cases ax)
    from Cons.prems(4) [OF _ went_on(1) Cons.prems(2,3)] ax have one: "I s" "\<And>tok'. P (Some (al_id a)) tok'" by auto
    have rest: "keeps I (upload_files V wc u by_key title fis (Some (al_id a)) tok' links')" for tok' links'
    proof (rule keepsI)
      fix s r s' assume i: "I s" and run: "upload_files V wc u by_key title fis (Some (al_id a)) tok' links' s = (r, s')"
      show "I s'"
      proof (rule Cons.IH [OF run one(2) i])
        fix fj source aid tok s r s'
        assume "fj \<in> set fis" "upload_item V wc u source title fj aid tok s = (r, s')" "P aid tok" "I s"
        from Cons.prems(4) [OF _ this(2-4)] this(1)
        show "I s' \<and> (\<forall>a x tok'. r = Inr (a, x) \<longrightarrow> P (Some (al_id a)) tok')" by simp
      qed
    qed
    have "keeps I (case u of
          Some v \<Rightarrow> if by_key \<and> al_user_id a = Some (us_id v)
            then io_bind (in_world (issue_delete_link (en_crypto (wb_site V)) fi (al_id a) (us_id v)))
              (\<lambda>raw. io_bind (upload_files V wc u by_key title fis (Some (al_id a))
                (if truthy (al_delete_token a) then al_delete_token a else tok) (links(al_id a \<mapsto> raw)))
                (\<lambda>(results, final). io_return ((a, x) # results, final)))
            else io_bind (upload_files V wc u by_key title fis (Some (al_id a))
                (if truthy (al_delete_token a) then al_delete_token a else tok) links)
                (\<lambda>(results, final). io_return ((a, x) # results, final))
        | None \<Rightarrow> io_bind (upload_files V wc u by_key title fis (Some (al_id a))
                (if truthy (al_delete_token a) then al_delete_token a else tok) links)
                (\<lambda>(results, final). io_return ((a, x) # results, final)))"
      by (intro keeps_rules rest link)
    from keepsD [OF this] went_on(2) one(1) ax show ?thesis by simp
  qed
qed simp

lemma upload_files_keeps:
  assumes "upload_files V wc u by_key title fis album_id tok links st = (r, st')" "upload_listener (wb_listen V)"
    and "album_id \<noteq> Some []" "\<forall>fi\<in>set fis. drawn fi" "site_ok st"
  shows "site_ok st'"
  using assms(1)
proof (rule upload_files_invariant [where P = "\<lambda>aid _. aid \<noteq> Some []"])
  fix fi source aid tk s r s'
  assume "fi \<in> set fis" "upload_item V wc u source title fi aid tk s = (r, s')" "aid \<noteq> Some []" "site_ok s"
  with upload_item_keeps [OF this(2) assms(2) this(3,4)] assms(4)
  show "site_ok s' \<and> (\<forall>a x (tok' :: string option). r = Inr (a, x) \<longrightarrow> Some (al_id a) \<noteq> Some [])" by blast
qed (rule keeps_rules, use assms in simp_all)

end
