(* ===== verification/Web_Oauth.thy ===== *)
theory Web_Oauth
  imports Web_User
begin

text \<open>
  Signing in, linking and re-authentication with an account elsewhere: \<^verbatim>\<open>src/imghost/web/oauth.py\<close>, \<^verbatim>\<open>oauth/google.py\<close>,
  \<^verbatim>\<open>oauth/pkce.py\<close> and the paths to come back to of \<^verbatim>\<open>web/page_context.py\<close>. The answers of the provider's server are arguments.
\<close>

section \<open>Redirections\<close>

definition urlencode :: "(string \<times> string) list \<Rightarrow> string" where
  "urlencode params = join_with ''&'' (map (\<lambda>(k, v). quote_plus k @ ''='' @ quote_plus v) params)"

definition query_redirect :: "string \<Rightarrow> (string \<times> string option) list \<Rightarrow> string" where
  "query_redirect path params =
     (let filtered = filter (\<lambda>(_, v). truthy v) params in
      if filtered = [] then path else path @ ''?'' @ urlencode (map (\<lambda>(k, v). (k, the v)) filtered))"

definition login_redirect :: "string option \<Rightarrow> string" where
  "login_redirect next_path = (if truthy next_path then ''/login?'' @ urlencode [(''next'', the next_path)] else ''/login'')"

text \<open>The network location that \<^verbatim>\<open>urlsplit\<close> finds in an address that begins with a slash: it drops tabs and line ends before it
  looks, and such an address has no scheme. \<open>refused\<close> tells which locations it does not accept.\<close>

definition netloc_of :: "string \<Rightarrow> string" where
  "netloc_of url = (let u = filter (\<lambda>c. c \<notin> {CHR 0x09, CHR 0x0A, CHR 0x0D}) url in
     if take 2 u = ''//'' then takeWhile (\<lambda>c. c \<notin> set ''/?#'') (drop 2 u) else [])"

definition normalize_next_path :: "(string \<Rightarrow> bool) \<Rightarrow> string option \<Rightarrow> string \<Rightarrow> err + string" where
  "normalize_next_path refused next_path dflt =
     (let candidate = py_strip (or_str next_path []) in
      if candidate = [] \<or> \<not> starts_with ''/'' candidate \<or> starts_with ''//'' candidate then Inr dflt
      else if refused (netloc_of candidate) then Inl (ValueError ''urlsplit'')
      else if netloc_of candidate \<noteq> [] then Inr dflt else Inr candidate)"

section \<open>The provider\<close>

definition build_code_challenge :: "(bytes \<Rightarrow> bytes) \<Rightarrow> string \<Rightarrow> string" where
  "build_code_challenge sha256 code_verifier = b64_encode (sha256 (utf8_encode code_verifier))"

record oauth_provider =
  op_authorization_url :: "string \<Rightarrow> string \<Rightarrow> string \<Rightarrow> string"
  op_exchange_code :: "string \<Rightarrow> string \<Rightarrow> string \<Rightarrow> err + oauth_identity"

text \<open>An answer over HTTP, whose body, if any, is a JSON object.\<close>

record http_reply =
  hr_status :: int
  hr_fields :: "(string option \<times> json) list"

record google_client =
  gc_id :: string
  gc_secret :: string
  gc_post :: "string \<Rightarrow> (string \<times> string) list \<Rightarrow> err + http_reply"
  gc_get :: "string \<Rightarrow> string \<Rightarrow> err + http_reply"

definition google_authorization_url :: "google_client \<Rightarrow> string \<Rightarrow> string \<Rightarrow> string \<Rightarrow> string" where
  "google_authorization_url g redirect_uri signed_state code_challenge =
     ''https://accounts.google.com/o/oauth2/v2/auth?'' @ urlencode [
       (''client_id'', gc_id g), (''redirect_uri'', redirect_uri), (''response_type'', ''code''),
       (''scope'', ''openid email profile''), (''state'', signed_state), (''code_challenge'', code_challenge),
       (''code_challenge_method'', ''S256''), (''access_type'', ''online''), (''prompt'', ''select_account'')]"

text \<open>\<^verbatim>\<open>payload.get(a) or payload.get(b) or text\<close>, as text.\<close>

definition field_or :: "token_env \<Rightarrow> (string option \<times> json) list \<Rightarrow> string list \<Rightarrow> string \<Rightarrow> string" where
  "field_or E ms keys dflt =
     (case filter (json_truthy E) (List.map_filter (obj_get ms) keys) of [] \<Rightarrow> dflt | v # _ \<Rightarrow> json_str E v)"

definition checked_reply :: "token_env \<Rightarrow> string \<Rightarrow> err + http_reply \<Rightarrow> err + (string option \<times> json) list" where
  "checked_reply E failure reply = and_then reply (\<lambda>r.
     if 400 \<le> hr_status r then Inl (HTTPException 400 (field_or E (hr_fields r) [''error_description'', ''error''] failure))
     else Inr (hr_fields r))"

text \<open>\<^verbatim>\<open>(payload.get(key) or "").strip() or None\<close>\<close>

definition stripped_field :: "token_env \<Rightarrow> (string option \<times> json) list \<Rightarrow> string \<Rightarrow> err + string option" where
  "stripped_field E ms key =
     (case obj_get ms key of
        None \<Rightarrow> Inr None
      | Some v \<Rightarrow> if \<not> json_truthy E v then Inr None
          else (case v of JString s \<Rightarrow> Inr (if py_strip s \<noteq> [] then Some (py_strip s) else None)
            | _ \<Rightarrow> Inl (AttributeError ''strip'')))"

definition google_exchange_code :: "token_env \<Rightarrow> google_client \<Rightarrow> string \<Rightarrow> string \<Rightarrow> string \<Rightarrow> err + oauth_identity" where
  "google_exchange_code E g code redirect_uri code_verifier =
     and_then (checked_reply E ''OAuth token exchange failed.'' (gc_post g ''https://oauth2.googleapis.com/token''
       [(''code'', code), (''client_id'', gc_id g), (''client_secret'', gc_secret g), (''redirect_uri'', redirect_uri),
        (''code_verifier'', code_verifier), (''grant_type'', ''authorization_code'')])) (\<lambda>token.
     let access_token = field_or E token [''access_token''] [] in
     if access_token = [] then Inl (HTTPException 400 ''OAuth token exchange failed.'')
     else and_then (checked_reply E ''OAuth user lookup failed.''
         (gc_get g ''https://openidconnect.googleapis.com/v1/userinfo'' (''Bearer '' @ access_token))) (\<lambda>info.
       let subject = str_field E info ''sub''; email = py_lower (str_field E info ''email'') in
       if subject = [] \<or> email = [] then Inl (HTTPException 400 ''OAuth provider did not return a usable identity.'')
       else and_then (stripped_field E info ''name'') (\<lambda>display_name. and_then (stripped_field E info ''picture'') (\<lambda>_.
         Inr \<lparr>oi_provider = ''google'', oi_provider_uid = subject, oi_email = email,
           oi_email_verified = (case obj_get info ''email_verified'' of Some v \<Rightarrow> json_truthy E v | None \<Rightarrow> False),
           oi_display_name = display_name\<rparr>))))"

definition google_provider :: "token_env \<Rightarrow> google_client \<Rightarrow> oauth_provider" where
  "google_provider E g = \<lparr>op_authorization_url = google_authorization_url g, op_exchange_code = google_exchange_code E g\<rparr>"

section \<open>Starting\<close>

record oauth_env =
  oe_providers :: "string \<rightharpoonup> oauth_provider"
  oe_sha256 :: "bytes \<Rightarrow> bytes"
  oe_refused :: "string \<Rightarrow> bool"

definition oauth_modes :: "string set" where
  "oauth_modes = {''login'', ''link'', ''delete_account''}"

definition oauth_mode :: "string \<Rightarrow> string" where
  "oauth_mode m = (let v = py_lower (py_strip (if m \<noteq> [] then m else ''login'')) in if v \<in> oauth_modes then v else ''login'')"

definition own_account :: "string \<Rightarrow> bool" where
  "own_account m \<longleftrightarrow> m \<in> {''link'', ''delete_account''}"

definition callback_url :: "web_context \<Rightarrow> string \<Rightarrow> string" where
  "callback_url wc provider_name = wc_base_url wc @ ''/auth/'' @ provider_name @ ''/callback''"

text \<open>\<open>jti\<close> and \<open>code_verifier\<close> are drawn; the answer is the address to go to.\<close>

definition start_oauth ::
  "'s web_env \<Rightarrow> oauth_env \<Rightarrow> web_context \<Rightarrow> string \<Rightarrow> string \<Rightarrow> string \<Rightarrow> string option \<Rightarrow> string
     \<Rightarrow> 's site \<Rightarrow> (err + string) \<times> 's site" where
  "start_oauth V R wc jti code_verifier provider_name nxt mode =
     (case oe_providers R provider_name of
        None \<Rightarrow> io_raise not_found
      | Some provider \<Rightarrow>
          (let m = oauth_mode mode; k = wc_clock wc in
           io_bind (io_lift (normalize_next_path (oe_refused R) nxt (if m = ''login'' then ''/dashboard'' else ''/settings''))) (\<lambda>next_path.
           io_bind (web_user V wc False) (\<lambda>u.
             if own_account m \<and> u = None then io_return (login_redirect (Some ''/settings''))
             else let user_id = (if own_account m then map_option us_id u else None) in
               io_bind (io_lift (datetime_add (k 51) (60 * 10 * sec))) (\<lambda>expires.
               io_bind (in_world (\<lambda>w. let d = delete_expired_oauth_state_nonces (k 50) (w_db w) in
                   (case create_oauth_state_nonce \<lparr>on_jti = jti, on_mode = m, on_user_id = user_id, on_code_verifier = code_verifier,
                        on_created_at = k 51, on_expires_at = expires\<rparr> d of
                      Inl e \<Rightarrow> (Inl e, with_db w d)
                    | Inr (n, d') \<Rightarrow> (Inr n, with_db w d')))) (\<lambda>n.
               io_return (op_authorization_url provider (callback_url wc provider_name)
                 (oauth_state_dumps (ss_env (en_sessions (wb_site V))) (k 52) \<lparr>os_mode = m, os_next_path = next_path,
                    os_jti = on_jti n, os_user_id = user_id, os_created_at = None\<rparr>)
                 (build_code_challenge (oe_sha256 R) code_verifier))))))))"

section \<open>Coming back\<close>

text \<open>Where the browser is sent, with the session or the re-authentication that it is given.\<close>

record oauth_answer =
  oa_location :: string
  oa_session :: "(string \<times> int option) option"
  oa_reauth :: "string option"

definition going_to :: "string \<Rightarrow> oauth_answer" where
  "going_to location = \<lparr>oa_location = location, oa_session = None, oa_reauth = None\<rparr>"

definition status_key :: "string \<Rightarrow> string" where
  "status_key m = (if m = ''link'' then ''oauth_status'' else if m = ''delete_account'' then ''delete_reauth_status'' else ''oauth_error'')"

definition status_tone :: "string \<Rightarrow> string \<Rightarrow> (string \<times> string option) list" where
  "status_tone m tone = (if m = ''link'' then [(''oauth_tone'', Some tone)]
     else if m = ''delete_account'' then [(''delete_reauth_tone'', Some tone)] else [])"

text \<open>The three places of the handler that send back with a message share this shape.\<close>

definition oauth_failed :: "string \<Rightarrow> string \<Rightarrow> string \<Rightarrow> oauth_answer" where
  "oauth_failed m next_path message =
     (let target = (if own_account m then ''/settings'' else ''/login'') in
      going_to (query_redirect target ((''next'', if target = ''/login'' then Some next_path else None)
        # (status_key m, Some message) # status_tone m ''error'')))"

definition unverified :: "string \<Rightarrow> oauth_answer" where
  "unverified provider_name = going_to (query_redirect ''/login''
     [(''oauth_error'', Some (provider_label provider_name @ '' sign-in could not be verified.''))])"

definition mismatch :: "string \<Rightarrow> string \<Rightarrow> oauth_answer" where
  "mismatch m provider_name = going_to (query_redirect ''/settings''
     ((status_key m, Some (if m = ''link'' then ''Please sign in again before connecting '' @ provider_label provider_name @ ''.''
         else ''Please sign in again before confirming account deletion with '' @ provider_label provider_name @ ''.''))
      # status_tone m ''error''))"

text \<open>The end of a sign-in: a session that is remembered.\<close>

definition oauth_session ::
  "'s web_env \<Rightarrow> (nat \<Rightarrow> time) \<Rightarrow> string \<Rightarrow> string \<Rightarrow> string \<Rightarrow> user \<Rightarrow> 's site \<Rightarrow> (err + oauth_answer) \<times> 's site" where
  "oauth_session V k new_uuid provider_name next_path u st =
     (case create_session (en_client (wb_site V)) (en_sessions (wb_site V)) (k 30, k 31, k 32) (k 33) (k 34) new_uuid (us_id u) True
        (si_redis st, si_server st) of
        (r, h, s) \<Rightarrow>
          ((case r of
              Inl e \<Rightarrow> if e = session_unavailable then Inr (going_to (query_redirect ''/login''
                  [(''oauth_error'', Some (provider_label provider_name @ '' sign-in is temporarily unavailable.''))])) else Inl e
            | Inr (token, expires_at) \<Rightarrow> Inr \<lparr>oa_location = query_redirect next_path [],
                oa_session = Some (token, cookie_max_age (k 35) expires_at), oa_reauth = None\<rparr>),
           st\<lparr>si_redis := h, si_server := s\<rparr>))"

text \<open>What is tried with the code, after the state, its nonce and the session have been checked: an \<^verbatim>\<open>HTTPException\<close> of the provider or of the service is turned into a message.\<close>

definition issue_reauth ::
  "'s web_env \<Rightarrow> time \<Rightarrow> user \<Rightarrow> oauth_identity \<Rightarrow> 's site \<Rightarrow> err + string" where
  "issue_reauth V now u i st =
     issue_account_delete_reauth_token
       (\<lambda>p. reauth_dumps (ss_env (en_sessions (wb_site V))) now (reauth.extend p (reauth_payload.fields None)))
       u (oi_provider i) (oi_provider_uid i) (si_db st)"

definition oauth_login_by_code ::
  "'s web_env \<Rightarrow> web_context \<Rightarrow> account_inputs \<Rightarrow> oauth_identity \<Rightarrow> user option \<Rightarrow> 's site \<Rightarrow> (err + user \<times> string) \<times> 's site" where
  "oauth_login_by_code V wc ai i current = io_bind (from_db (\<lambda>st. site_flag (wb_site V) st ''allow_registration'')) (\<lambda>allow.
     in_world (complete_oauth_login (en_crypto (wb_site V)) ai i current allow (Some (wc_cid wc)) ''web''))"

definition catch_http :: "(string \<Rightarrow> 'a) \<Rightarrow> ('s \<Rightarrow> (err + 'a) \<times> 's) \<Rightarrow> 's \<Rightarrow> (err + 'a) \<times> 's" where
  "catch_http handle m st = (case m st of
     (Inl (HTTPException c detail), st1) \<Rightarrow> (Inr (handle detail), st1) | r \<Rightarrow> r)"

definition oauth_attempt ::
  "'s web_env \<Rightarrow> web_context \<Rightarrow> account_inputs \<Rightarrow> string \<Rightarrow> oauth_provider \<Rightarrow> string \<Rightarrow> oauth_state_nonce \<Rightarrow> string
     \<Rightarrow> user option \<Rightarrow> 's site \<Rightarrow> (err + oauth_answer + user) \<times> 's site" where
  "oauth_attempt V wc ai provider_name provider code nonce m current =
     io_bind (io_lift (op_exchange_code provider code (callback_url wc provider_name) (on_code_verifier nonce))) (\<lambda>i.
       if m = ''delete_account'' then
         (case current of
            None \<Rightarrow> io_raise (RuntimeError ''AssertionError'')
          | Some u \<Rightarrow> io_bind (from_db (issue_reauth V (wc_clock wc 60) u i)) (\<lambda>token.
              io_return (Inl \<lparr>oa_location = query_redirect ''/settings''
                  [(''delete_reauth_status'', Some (provider_label provider_name
                      @ '' re-authentication confirmed. You can now delete your account.'')),
                   (''delete_reauth_tone'', Some ''success'')],
                oa_session = None, oa_reauth = Some token\<rparr>)))
       else io_bind (oauth_login_by_code V wc ai i current) (\<lambda>(u, outcome). io_return (Inr u)))"

definition oauth_with_code ::
  "'s web_env \<Rightarrow> web_context \<Rightarrow> account_inputs \<Rightarrow> string \<Rightarrow> string \<Rightarrow> oauth_provider \<Rightarrow> string \<Rightarrow> oauth_state_nonce \<Rightarrow> string \<Rightarrow> string
     \<Rightarrow> user option \<Rightarrow> 's site \<Rightarrow> (err + oauth_answer) \<times> 's site" where
  "oauth_with_code V wc ai new_uuid provider_name provider code nonce m next_path current =
     io_bind (catch_http (Inl \<circ> oauth_failed m next_path) (oauth_attempt V wc ai provider_name provider code nonce m current))
     (\<lambda>r. case r of
        Inl answer \<Rightarrow> io_return answer
      | Inr u \<Rightarrow>
          if m = ''link'' then io_return (going_to (query_redirect ''/settings''
            [(''oauth_status'', Some (provider_label provider_name @ '' account connected.'')), (''oauth_tone'', Some ''success'')]))
          else oauth_session V (wc_clock wc) new_uuid provider_name next_path u)"

text \<open>The handler once the nonce is consumed.\<close>

definition oauth_checked ::
  "'s web_env \<Rightarrow> oauth_env \<Rightarrow> web_context \<Rightarrow> account_inputs \<Rightarrow> string \<Rightarrow> string \<Rightarrow> oauth_provider \<Rightarrow> oauth_state_payload
     \<Rightarrow> oauth_state_nonce \<Rightarrow> string option \<Rightarrow> string option \<Rightarrow> 's site \<Rightarrow> (err + oauth_answer) \<times> 's site" where
  "oauth_checked V R wc ai new_uuid provider_name provider s nonce code error =
     (let m = os_mode s in
      io_bind (io_lift (normalize_next_path (oe_refused R) (Some (os_next_path s)) (if m = ''login'' then ''/dashboard'' else ''/settings'')))
        (\<lambda>next_path.
      io_bind (web_user V wc False) (\<lambda>u.
        if own_account m \<and> (\<forall>v. u = Some v \<longrightarrow> Some (us_id v) \<noteq> os_user_id s) then io_return (mismatch m provider_name)
        else if truthy error
          then io_return (oauth_failed m next_path (provider_label provider_name @ '' sign-in was cancelled or denied.''))
        else if \<not> truthy code
          then io_return (oauth_failed m next_path (provider_label provider_name @ '' sign-in did not return a code.''))
        else oauth_with_code V wc ai new_uuid provider_name provider (the code) nonce m next_path (if m = ''login'' then None else u))))"

definition oauth_callback ::
  "'s web_env \<Rightarrow> oauth_env \<Rightarrow> web_context \<Rightarrow> account_inputs \<Rightarrow> string \<Rightarrow> string \<Rightarrow> string option \<Rightarrow> string option \<Rightarrow> string option
     \<Rightarrow> 's site \<Rightarrow> (err + oauth_answer) \<times> 's site" where
  "oauth_callback V R wc ai new_uuid provider_name signed_state code error st =
     (case oe_providers R provider_name of
        None \<Rightarrow> (Inl not_found, st)
      | Some provider \<Rightarrow>
          (case oauth_state_loads (ss_env (en_sessions (wb_site V))) (wc_clock wc 50) 600 (or_str signed_state []) of
             Inl (ValueError _) \<Rightarrow> (Inr (unverified provider_name), st)
           | Inl e \<Rightarrow> (Inl e, st)
           | Inr s \<Rightarrow>
               if os_jti s = [] then (Inr (unverified provider_name), st)
               else (case consume_oauth_state_nonce (wc_clock wc 51) (os_jti s) (si_db st) of
                  (None, d) \<Rightarrow> (Inr (unverified provider_name), st\<lparr>si_world := with_db (si_world st) d\<rparr>)
                | (Some nonce, d) \<Rightarrow> oauth_checked V R wc ai new_uuid provider_name provider s nonce code error
                    (st\<lparr>si_world := with_db (si_world st) d\<rparr>))))"

end
