(* ===== verification/Web_Oauth_Props.thy ===== *)
theory Web_Oauth_Props
  imports Web_Facts Web_Oauth
begin

text \<open>
  What a sign-in with an account elsewhere is bound to: the state that the program signed, its nonce, the session that began the flow
  and the identity that the provider vouches for.
\<close>

section \<open>Nonces\<close>

lemma db_wf_nonces_upd:
  assumes "db_wf d" "keys_distinct on_jti ns" "\<And>n. n \<in> set ns \<Longrightarrow> opt_user_exists d (on_user_id n)"
  shows "db_wf (d\<lparr>db_nonces := ns\<rparr>)"
proof -
  have u: "user_exists (d\<lparr>db_nonces := ns\<rparr>) = user_exists d" "album_exists (d\<lparr>db_nonces := ns\<rparr>) = album_exists d"
    by (auto simp: user_exists_def album_exists_def fun_eq_iff)
  have same: "opt_user_exists (d\<lparr>db_nonces := ns\<rparr>) v = opt_user_exists d v" for v by (cases v) (simp_all add: u)
  show ?thesis using assms by (simp add: db_wf_def keys_ok_def fks_ok_def u same)
qed

lemma wf_nonces:
  assumes "db_wf d"
  shows "keys_distinct on_jti (db_nonces d)" "n \<in> set (db_nonces d) \<Longrightarrow> opt_user_exists d (on_user_id n)"
  using assms by (auto simp: db_wf_def keys_ok_def fks_ok_def)

lemma tidies_nonces:
  "tidies d (snd (consume_oauth_state_nonce now jti d))" "tidies d (delete_expired_oauth_state_nonces now d)"
  "create_oauth_state_nonce n d = Inr (n', d') \<Longrightarrow> tidies d d'"
proof -
  have del: "db_wf d \<Longrightarrow> db_wf (d\<lparr>db_nonces := delete_where P (db_nonces d)\<rparr>)" for P
    using wf_nonces by (intro db_wf_nonces_upd) (auto simp: keys_distinct_delete_where)
  show "tidies d (snd (consume_oauth_state_nonce now jti d))" "tidies d (delete_expired_oauth_state_nonces now d)"
    by (rule tidies_other; simp add: consume_oauth_state_nonce_def delete_expired_oauth_state_nonces_def Let_def del)+
  assume "create_oauth_state_nonce n d = Inr (n', d')"
  then show "tidies d d'"
    using wf_nonces by (intro tidies_other)
      (auto simp: create_oauth_state_nonce_def keys_distinct_snoc split: if_splits intro!: db_wf_nonces_upd)
qed

lemma consume_oauth_state_nonce_Some:
  assumes "consume_oauth_state_nonce now jti d = (Some n, d')"
  shows "n \<in> set (db_nonces d)" "on_jti n = jti" "now < on_expires_at n"
    "\<forall>m\<in>set (db_nonces d'). on_jti m = jti \<longrightarrow> on_expires_at m \<le> now"
  using assms by (auto simp: consume_oauth_state_nonce_def Let_def delete_where_def find_Some_iff)

section \<open>Invariants of the flow\<close>

lemma keeps_catch [keeps_rules]: "keeps I m \<Longrightarrow> keeps I (catch_http h m)"
  unfolding keeps_def catch_http_def by (fastforce split: prod.split sum.split err.split)

lemma keeps_sum [keeps_rules]:
  "(\<And>x. keeps I (f x)) \<Longrightarrow> (\<And>x. keeps I (g x)) \<Longrightarrow> keeps I (case r of Inl x \<Rightarrow> f x | Inr x \<Rightarrow> g x)"
  by (cases r) simp_all

text \<open>An invariant that authentication, the sign-in and the new session keep is kept by the handler once the nonce is consumed.\<close>

lemma keeps_with_code:
  assumes "\<And>i current. keeps I (oauth_login_by_code V wc ai i current)"
    and "\<And>u. keeps I (oauth_session V (wc_clock wc) new_uuid p next_path u)"
  shows "keeps I (oauth_with_code V wc ai new_uuid p provider code nonce m next_path current)"
  unfolding oauth_with_code_def oauth_attempt_def by (intro keeps_rules assms)

lemma oauth_session_same:
  assumes "oauth_session V k new_uuid p next_path u st = (r, st')"
  shows "si_world st' = si_world st" "si_config st' = si_config st"
  using assms by (auto simp: oauth_session_def split: prod.splits)

lemma keeps_oauth_session [keeps_rules]: "keeps site_ok (oauth_session V k new_uuid p next_path u)"
  by (rule keepsI) (simp add: site_ok_def si_db_def oauth_session_same)

lemma keeps_oauth_login [keeps_rules]: "keeps site_ok (oauth_login_by_code V wc ai i current)"
  unfolding oauth_login_by_code_def
  by (rule keeps_bind [OF keeps_pure(4)], rule keeps_world, erule tidies_oauth_login)

lemma keeps_start_oauth: "keeps site_ok (start_oauth V R wc jti verifier p nxt m)"
proof -
  have nonce: "keeps site_ok (in_world (\<lambda>w. case create_oauth_state_nonce n (delete_expired_oauth_state_nonces t (w_db w)) of
      Inl e \<Rightarrow> (Inl e, with_db w (delete_expired_oauth_state_nonces t (w_db w))) | Inr (n', d') \<Rightarrow> (Inr n', with_db w d')))" for t n
    by (rule keeps_world)
      (auto simp: Let_def tidies_nonces(2) split: sum.splits intro: tidies_trans [OF tidies_nonces(2) tidies_nonces(3)])
  have "keeps site_ok (case oe_providers R p of None \<Rightarrow> io_raise not_found | Some provider \<Rightarrow> f provider)"
    if "\<And>provider. keeps site_ok (f provider)" for f :: "oauth_provider \<Rightarrow> 's site \<Rightarrow> (err + string) \<times> 's site"
    by (intro keeps_rules that)
  then show ?thesis unfolding start_oauth_def Let_def by (intro keeps_rules nonce)
qed

lemma keeps_callback: "keeps site_ok (oauth_callback V R wc ai new_uuid p signed_state code error)"
proof (rule keepsI)
  fix st r st'
  assume ok: "site_ok st" and run: "oauth_callback V R wc ai new_uuid p signed_state code error st = (r, st')"
  have consumed: "site_ok (st\<lparr>si_world := with_db (si_world st) d\<rparr>)" if "consume_oauth_state_nonce t j (si_db st) = (n, d)" for t j n d
    using ok tidies_nonces(1) [of "si_db st" t j] service_ok_tidies that by (auto simp: site_ok_def si_db_def)
  have "keeps site_ok (oauth_checked V R wc ai new_uuid p provider s n code error)" for provider s n
    unfolding oauth_checked_def Let_def by (intro keeps_rules keeps_with_code)
  from keepsD [OF this _ consumed] run ok show "site_ok st'"
    unfolding oauth_callback_def by (auto split: option.splits sum.splits err.splits if_splits prod.splits intro: consumed)
qed

text \<open>The nonces, once one is consumed, stay as they are.\<close>

definition nonces_are :: "oauth_state_nonce list \<Rightarrow> 's site \<Rightarrow> bool" where
  "nonces_are ns st \<longleftrightarrow> db_nonces (si_db st) = ns"

lemma create_user_nonces:
  assumes "create_user cr ai p meth cid actor source w = (r, w')"
  shows "db_nonces (w_db w') = db_nonces (w_db w)"
proof -
  have "db_nonces d' = db_nonces d" if "repo_create_user u d = Inr (u', d')" for u u' d d'
    using that by (auto simp: repo_create_user_def split: if_splits dest!: set_rate_limit_overrides_frame)
  with assms show ?thesis by (auto simp: create_user_def emit_if_def split: sum.splits prod.splits option.splits)
qed

lemma oauth_login_nonces:
  assumes "complete_oauth_login cr ai i current allow cid source w = (r, w')"
  shows "db_nonces (w_db w') = db_nonces (w_db w)"
proof -
  have link: "db_nonces (w_db w') = db_nonces (w_db w)" if "add_link ai i u how w = (r, w')" for u how w r
    using that by (auto simp: add_link_def split: sum.splits dest!: create_user_sso_link_ok(1))
  have "db_nonces (w_db w') = db_nonces (w_db w)" if "register_by_oauth cr ai i cid source w = (r, w')"
    using that by (auto simp: register_by_oauth_def split: if_splits sum.splits prod.splits dest!: create_user_nonces link)
  with assms link show ?thesis by (auto simp: complete_oauth_login_def split: if_splits option.splits)
qed

lemma touched_nonces:
  assumes "only_touched st st'"
  shows "db_nonces (si_db st') = db_nonces (si_db st)" "db_sso_links (si_db st') = db_sso_links (si_db st)"
  using assms unfolding only_touched_def si_db_def by (auto dest!: update_api_key_only)

lemma keeps_nonces [keeps_rules]:
  "keeps (nonces_are ns) (web_user V wc b)" "keeps (nonces_are ns) (oauth_login_by_code V wc ai i current)"
  "keeps (nonces_are ns) (oauth_session V k new_uuid p next_path u)"
proof -
  show "keeps (nonces_are ns) (web_user V wc b)"
    by (rule keepsI) (auto simp: nonces_are_def web_user_def touched_nonces dest!: authenticated_user_touches)
  have "keeps (nonces_are ns) (in_world (complete_oauth_login cr ai i current allow cid source))" for cr allow cid source
    by (rule keepsI) (auto simp: nonces_are_def in_world_def si_db_def oauth_login_nonces split: prod.splits)
  then show "keeps (nonces_are ns) (oauth_login_by_code V wc ai i current)"
    unfolding oauth_login_by_code_def by (intro keeps_rules)
  show "keeps (nonces_are ns) (oauth_session V k new_uuid p next_path u)"
    by (rule keepsI) (simp add: nonces_are_def si_db_def oauth_session_same)
qed

section \<open>One run of the callback\<close>

text \<open>A callback that sends back with a session or a re-authentication has gone all the way.\<close>

definition grants :: "oauth_answer \<Rightarrow> bool" where
  "grants a \<longleftrightarrow> oa_session a \<noteq> None \<or> oa_reauth a \<noteq> None"

lemma no_grants: "\<not> grants (going_to l)" "\<not> grants (oauth_failed m n t)" "\<not> grants (unverified p)" "\<not> grants (mismatch m p)"
  by (simp_all add: grants_def going_to_def oauth_failed_def unverified_def mismatch_def Let_def)

lemma oauth_callback_run:
  assumes "oauth_callback V R wc ai new_uuid p signed_state code error st = (Inr a, st')" "grants a"
  obtains provider s n d next_path u st1 c where "oe_providers R p = Some provider"
    "oauth_state_loads (ss_env (en_sessions (wb_site V))) (wc_clock wc 50) 600 (or_str signed_state []) = Inr s"
    "consume_oauth_state_nonce (wc_clock wc 51) (os_jti s) (si_db st) = (Some n, d)"
    "web_user V wc False (st\<lparr>si_world := with_db (si_world st) d\<rparr>) = (Inr u, st1)"
    "own_account (os_mode s) \<Longrightarrow> \<exists>v. u = Some v \<and> os_user_id s = Some (us_id v)" "code = Some c"
    "oauth_with_code V wc ai new_uuid p provider c n (os_mode s) next_path (if os_mode s = ''login'' then None else u) st1 = (Inr a, st')"
proof -
  from assms obtain provider s n d where r: "oe_providers R p = Some provider"
    "oauth_state_loads (ss_env (en_sessions (wb_site V))) (wc_clock wc 50) 600 (or_str signed_state []) = Inr s"
    "consume_oauth_state_nonce (wc_clock wc 51) (os_jti s) (si_db st) = (Some n, d)"
    and run: "oauth_checked V R wc ai new_uuid p provider s n code error (st\<lparr>si_world := with_db (si_world st) d\<rparr>) = (Inr a, st')"
    unfolding oauth_callback_def
    by (auto simp: no_grants split: option.splits sum.splits err.splits if_splits prod.splits)
  from run obtain next_path u st1 where u: "web_user V wc False (st\<lparr>si_world := with_db (si_world st) d\<rparr>) = (Inr u, st1)"
    and rest: "(if own_account (os_mode s) \<and> (\<forall>v. u = Some v \<longrightarrow> Some (us_id v) \<noteq> os_user_id s)
       then io_return (mismatch (os_mode s) p)
       else if truthy error then io_return (oauth_failed (os_mode s) next_path (provider_label p @ '' sign-in was cancelled or denied.''))
       else if \<not> truthy code then io_return (oauth_failed (os_mode s) next_path (provider_label p @ '' sign-in did not return a code.''))
       else oauth_with_code V wc ai new_uuid p provider (the code) n (os_mode s) next_path
         (if os_mode s = ''login'' then None else u)) st1 = (Inr a, st')"
    by (auto simp: oauth_checked_def Let_def io_bind_def io_lift_def split: prod.splits sum.splits)
  have same: "own_account (os_mode s) \<Longrightarrow> \<exists>v. u = Some v \<and> os_user_id s = Some (us_id v)"
    using rest assms(2) no_grants by (auto simp: io_return_def split: if_splits)
  obtain c where c: "code = Some c"
    using rest assms(2) no_grants by (cases code) (auto simp: io_return_def split: if_splits)
  from rest assms(2) no_grants
  have "oauth_with_code V wc ai new_uuid p provider c n (os_mode s) next_path (if os_mode s = ''login'' then None else u) st1 = (Inr a, st')"
    by (auto simp: io_return_def c split: if_splits)
  with that r u same c show ?thesis by blast
qed

text \<open>What the end of the flow says of the identity.\<close>

lemma catch_http_Inr:
  assumes "catch_http h m st = (Inr r, st')"
  obtains (caught) c detail where "m st = (Inl (HTTPException c detail), st')" "r = h detail" | (fine) "m st = (Inr r, st')"
  using assms by (auto simp: catch_http_def split: prod.splits sum.splits err.splits)

lemma io_bind_Inr_run:
  assumes "io_bind m f st = (Inr x, st')"
  obtains y s where "m st = (Inr y, s)" "f y s = (Inr x, st')"
  using assms by (auto simp: io_bind_def split: prod.splits sum.splits)

lemma oauth_attempt_run:
  assumes "oauth_attempt V wc ai p provider c n m current st = (Inr r, st1)"
  obtains i where "op_exchange_code provider c (callback_url wc p) (on_code_verifier n) = Inr i"
    "case r of
       Inl a \<Rightarrow> m = ''delete_account'' \<and> oa_session a = None \<and> st1 = st
         \<and> (\<exists>v. current = Some v \<and> link_owner (oi_provider i) (oi_provider_uid i) (si_db st) = Some (us_id v))
     | Inr v \<Rightarrow> m \<noteq> ''delete_account'' \<and> (\<exists>allow how. in_world (complete_oauth_login (en_crypto (wb_site V)) ai i current allow
         (Some (wc_cid wc)) ''web'') st = (Inr (v, how), st1))"
proof -
  from assms obtain i where i: "op_exchange_code provider c (callback_url wc p) (on_code_verifier n) = Inr i"
    unfolding oauth_attempt_def by (auto simp: io_lift_def elim!: io_bind_Inr_run)
  have owned: "link_owner (oi_provider i) (oi_provider_uid i) (si_db st) = Some (us_id v)" if "issue_reauth V t v i st = Inr token" for t v token
    using that by (auto simp: issue_reauth_def issue_account_delete_reauth_token_def link_owner_def split: option.splits if_splits)
  show ?thesis
  proof (cases "m = ''delete_account''")
    case True
    with assms i that owned show ?thesis
      unfolding oauth_attempt_def
      by (cases current) (auto simp: io_lift_def io_raise_def io_return_def from_db_def elim!: io_bind_Inr_run)
  next
    case False
    with assms i obtain v how where x: "oauth_login_by_code V wc ai i current st = (Inr (v, how), st1)" "r = Inr v"
      unfolding oauth_attempt_def by (auto simp: io_lift_def io_return_def elim!: io_bind_Inr_run)
    from x(1) obtain allow where "in_world (complete_oauth_login (en_crypto (wb_site V)) ai i current allow (Some (wc_cid wc)) ''web'') st
        = (Inr (v, how), st1)"
      by (auto simp: oauth_login_by_code_def io_bind_def from_db_def split: sum.splits)
    with i that x(2) False show ?thesis by auto
  qed
qed

lemma oauth_with_code_run:
  assumes "oauth_with_code V wc ai new_uuid p provider c n m next_path current st = (Inr a, st')" "grants a"
  obtains (confirms) i v where "op_exchange_code provider c (callback_url wc p) (on_code_verifier n) = Inr i"
      "m = ''delete_account''" "current = Some v" "oa_session a = None" "st' = st"
      "link_owner (oi_provider i) (oi_provider_uid i) (si_db st) = Some (us_id v)"
  | (signs_in) i v how st1 allow where "op_exchange_code provider c (callback_url wc p) (on_code_verifier n) = Inr i"
      "\<not> own_account m" "oauth_session V (wc_clock wc) new_uuid p next_path v st1 = (Inr a, st')"
      "in_world (complete_oauth_login (en_crypto (wb_site V)) ai i current allow (Some (wc_cid wc)) ''web'') st = (Inr (v, how), st1)"
proof -
  from assms(1) obtain r st1 where tried: "catch_http (Inl \<circ> oauth_failed m next_path) (oauth_attempt V wc ai p provider c n m current) st = (Inr r, st1)"
    and rest: "(case r of
        Inl answer \<Rightarrow> io_return answer
      | Inr u \<Rightarrow>
          if m = ''link'' then io_return (going_to (query_redirect ''/settings''
            [(''oauth_status'', Some (provider_label p @ '' account connected.'')), (''oauth_tone'', Some ''success'')]))
          else oauth_session V (wc_clock wc) new_uuid p next_path u) st1 = (Inr a, st')"
    unfolding oauth_with_code_def by (rule io_bind_Inr_run)
  have "oauth_attempt V wc ai p provider c n m current st = (Inr r, st1)"
    using tried
  proof (cases rule: catch_http_Inr)
    case (caught e detail)
    with rest assms(2) no_grants show ?thesis by (auto simp: io_return_def)
  qed
  then obtain i where i: "op_exchange_code provider c (callback_url wc p) (on_code_verifier n) = Inr i"
    and which: "case r of
       Inl a \<Rightarrow> m = ''delete_account'' \<and> oa_session a = None \<and> st1 = st
         \<and> (\<exists>v. current = Some v \<and> link_owner (oi_provider i) (oi_provider_uid i) (si_db st) = Some (us_id v))
     | Inr v \<Rightarrow> m \<noteq> ''delete_account'' \<and> (\<exists>allow how. in_world (complete_oauth_login (en_crypto (wb_site V)) ai i current allow
         (Some (wc_cid wc)) ''web'') st = (Inr (v, how), st1))"
    by (rule oauth_attempt_run)
  show ?thesis
  proof (cases r)
    case (Inl answer)
    with rest which i confirms show ?thesis by (auto simp: io_return_def)
  next
    case (Inr v)
    have "m \<noteq> ''link''" using rest Inr assms(2) no_grants by (auto simp: io_return_def)
    with rest which i signs_in Inr show ?thesis by (auto simp: own_account_def)
  qed
qed

lemma loads_same:
  assumes "oauth_state_loads E now m tok = Inr s" "oauth_state_loads E later m' tok = Inr s'"
  shows "s' = s"
  using assms by (auto simp: oauth_state_loads_def Let_def split: if_splits)

text \<open>Without its nonce a state signs nobody in.\<close>

lemma spent_state_refused:
  assumes "oauth_callback V R wc ai new_uuid p signed_state code error st = (Inr a, st')"
    and "oauth_state_loads (ss_env (en_sessions (wb_site V))) now 600 (or_str signed_state []) = Inr s"
    and "\<forall>n\<in>set (db_nonces (si_db st)). on_jti n \<noteq> os_jti s"
  shows "a = unverified p"
proof -
  have "fst (consume_oauth_state_nonce t (os_jti s) (si_db st)) = None" for t
    using assms(3) by (auto simp: consume_oauth_state_nonce_def Let_def find_None_iff)
  with assms(1) loads_same [OF assms(2)] show ?thesis
    by (auto simp: oauth_callback_def split: option.splits sum.splits err.splits if_splits prod.splits) (metis fst_conv option.distinct(1))
qed

section \<open>What a grant is bound to\<close>

lemma oauth_session_grants:
  assumes "oauth_session V k new_uuid p next_path u st = (Inr a, st')" "grants a"
  obtains token expires where "create_session (en_client (wb_site V)) (en_sessions (wb_site V)) (k 30, k 31, k 32) (k 33) (k 34) new_uuid (us_id u) True
        (si_redis st, si_server st) = (Inr (token, expires), si_redis st', si_server st')"
    "oa_session a = Some (token, cookie_max_age (k 35) expires)" "oa_reauth a = None"
  using assms no_grants by (auto simp: oauth_session_def split: prod.splits sum.splits if_splits)

text \<open>What a sign-in leaves behind: the identity is linked to the user the session is for, and no link has changed hands.\<close>

lemma sign_in_grants:
  assumes login: "in_world (complete_oauth_login (en_crypto (wb_site V)) ai i current allow (Some cid) ''web'') st = (Inr (v, how), st1)"
    and opened: "oauth_session V k new_uuid p next_path v st1 = (Inr a, st')" and "grants a" and wf: "db_wf (si_db st)"
  shows "oi_email_verified i" "oa_reauth a = None"
    "\<exists>(v::user) token expires old. link_owner (oi_provider i) (oi_provider_uid i) (si_db st') = Some (us_id v)
       \<and> create_session (en_client (wb_site V)) (en_sessions (wb_site V)) (k 30, k 31, k 32) (k 33) (k 34) new_uuid (us_id v) True old
         = (Inr (token, expires), si_redis st', si_server st')
       \<and> oa_session a = Some (token, cookie_max_age (k 35) expires)"
    "link_owner q uid (si_db st) = Some w \<Longrightarrow> link_owner q uid (si_db st') = Some w"
proof -
  have "complete_oauth_login (en_crypto (wb_site V)) ai i current allow (Some cid) ''web'' (si_world st) = (Inr (v, how), si_world st1)"
    using login by (auto simp: in_world_def split: prod.splits)
  note parts = oauth_login_respects_links_parts [OF this wf [unfolded si_db_def]]
  from opened assms(3) obtain token expires where tok: "create_session (en_client (wb_site V)) (en_sessions (wb_site V))
      (k 30, k 31, k 32) (k 33) (k 34) new_uuid (us_id v) True (si_redis st1, si_server st1) = (Inr (token, expires), si_redis st', si_server st')"
    "oa_session a = Some (token, cookie_max_age (k 35) expires)" "oa_reauth a = None"
    by (rule oauth_session_grants)
  have db: "si_db st' = w_db (si_world st1)" using oauth_session_same [OF opened] by (simp add: si_db_def)
  show "oi_email_verified i" "oa_reauth a = None" using parts(1) tok(3) by simp_all
  show "\<exists>(v::user) token expires old. link_owner (oi_provider i) (oi_provider_uid i) (si_db st') = Some (us_id v)
       \<and> create_session (en_client (wb_site V)) (en_sessions (wb_site V)) (k 30, k 31, k 32) (k 33) (k 34) new_uuid (us_id v) True old
         = (Inr (token, expires), si_redis st', si_server st')
       \<and> oa_session a = Some (token, cookie_max_age (k 35) expires)"
    using parts(2) [folded db] tok(1,2) by blast
  show "link_owner q uid (si_db st) = Some w \<Longrightarrow> link_owner q uid (si_db st') = Some w"
    using parts(3) by (simp add: db) (simp add: si_db_def)
qed

lemma callback_spends:
  assumes "oauth_callback V R wc ai new_uuid p signed_state code error st = (Inr a, st')" "grants a" "site_ok st"
    and "oauth_state_loads (ss_env (en_sessions (wb_site V))) (wc_clock wc 50) 600 (or_str signed_state []) = Inr s"
  shows "\<forall>n\<in>set (db_nonces (si_db st')). on_jti n \<noteq> os_jti s"
proof (rule oauth_callback_run [OF assms(1,2)])
  fix provider s' n d next_path u st1 c
  assume l: "oauth_state_loads (ss_env (en_sessions (wb_site V))) (wc_clock wc 50) 600 (or_str signed_state []) = Inr s'"
    and consumed: "consume_oauth_state_nonce (wc_clock wc 51) (os_jti s') (si_db st) = (Some n, d)"
    and u: "web_user V wc False (st\<lparr>si_world := with_db (si_world st) d\<rparr>) = (Inr u, st1)"
    and run: "oauth_with_code V wc ai new_uuid p provider c n (os_mode s') next_path (if os_mode s' = ''login'' then None else u) st1 = (Inr a, st')"
  have s: "s' = s" using l assms(4) by simp
  have "nonces_are (db_nonces d) st1" by (rule keepsD [OF keeps_nonces(1) u]) (simp add: nonces_are_def si_db_def)
  then have "nonces_are (db_nonces d) st'" using keepsD [OF keeps_with_code run] keeps_nonces(2,3) by blast
  moreover have "m = n" if "m \<in> set (db_nonces (si_db st))" "on_jti m = os_jti s" for m
  proof -
    have "keys_distinct on_jti (db_nonces (si_db st))" using assms(3) by (simp add: site_ok_def service_ok_def wf_nonces)
    with that consume_oauth_state_nonce_Some(1,2) [OF consumed] s show ?thesis
      by (auto simp: keys_distinct_def distinct_map inj_on_def)
  qed
  ultimately show ?thesis
    using consumed s by (auto simp: nonces_are_def consume_oauth_state_nonce_def Let_def delete_where_def find_Some_iff)
qed

text \<open>C5: Coming back from a provider. Only a callback whose state this program signed, at most ten minutes ago, and whose nonce is in
  the tables and not expired opens a session or confirms who may delete an account, and it does so for an identity
  that the provider gave for the code and the verifier kept with that nonce. A session is opened for the one user
  the identity is linked to afterwards, whose address the provider has verified; a confirmation is given to the user who
  began the flow, is still signed in and has the identity linked. No linked account changes hands. The nonce is gone
  then: the same state sent again, with any code and at any time, is not accepted.\<close>

theorem oauth_callback_is_bound:
  assumes "oauth_callback V R wc ai new_uuid p signed_state code error st = (Inr a, st')" "grants a" "site_ok st"
  shows "\<exists>s n provider c i.
    oauth_state_loads (ss_env (en_sessions (wb_site V))) (wc_clock wc 50) 600 (or_str signed_state []) = Inr s
    \<and> n \<in> set (db_nonces (si_db st)) \<and> on_jti n = os_jti s \<and> wc_clock wc 51 < on_expires_at n
    \<and> oe_providers R p = Some provider \<and> code = Some c
    \<and> op_exchange_code provider c (callback_url wc p) (on_code_verifier n) = Inr i
    \<and> (if os_mode s = ''delete_account''
       then oa_session a = None \<and> (\<exists>v::user. os_user_id s = Some (us_id v) \<and> fst (web_user V wc False (st\<lparr>si_world := with_db (si_world st)
             (snd (consume_oauth_state_nonce (wc_clock wc 51) (os_jti s) (si_db st)))\<rparr>)) = Inr (Some v)
         \<and> link_owner (oi_provider i) (oi_provider_uid i) (si_db st) = Some (us_id v))
       else os_mode s \<noteq> ''link'' \<and> oa_reauth a = None \<and> oi_email_verified i
         \<and> (\<exists>(v::user) token expires old. link_owner (oi_provider i) (oi_provider_uid i) (si_db st') = Some (us_id v)
           \<and> create_session (en_client (wb_site V)) (en_sessions (wb_site V)) (wc_clock wc 30, wc_clock wc 31, wc_clock wc 32)
               (wc_clock wc 33) (wc_clock wc 34) new_uuid (us_id v) True old = (Inr (token, expires), si_redis st', si_server st')
           \<and> oa_session a = Some (token, cookie_max_age (wc_clock wc 35) expires)))
    \<and> (\<forall>pr uid owner. link_owner pr uid (si_db st) = Some owner \<longrightarrow> link_owner pr uid (si_db st') = Some owner)
    \<and> (\<forall>wc' ai' uuid' p' code' error' a' st2. oauth_callback V R wc' ai' uuid' p' signed_state code' error' st' = (Inr a', st2)
         \<longrightarrow> a' = unverified p')"
proof (rule oauth_callback_run [OF assms(1,2)])
  fix provider s n d next_path u st1 c
  assume pr: "oe_providers R p = Some provider" and c: "code = Some c"
    and l: "oauth_state_loads (ss_env (en_sessions (wb_site V))) (wc_clock wc 50) 600 (or_str signed_state []) = Inr s"
    and consumed: "consume_oauth_state_nonce (wc_clock wc 51) (os_jti s) (si_db st) = (Some n, d)"
    and u: "web_user V wc False (st\<lparr>si_world := with_db (si_world st) d\<rparr>) = (Inr u, st1)"
    and own: "own_account (os_mode s) \<Longrightarrow> \<exists>v. u = Some v \<and> os_user_id s = Some (us_id v)"
    and run: "oauth_with_code V wc ai new_uuid p provider c n (os_mode s) next_path (if os_mode s = ''login'' then None else u) st1 = (Inr a, st')"
  let ?st0 = "st\<lparr>si_world := with_db (si_world st) d\<rparr>"
  note n = consume_oauth_state_nonce_Some [OF consumed]
  have spent: "a' = unverified p'" if "oauth_callback V R wc' ai' uuid' p' signed_state code' error' st' = (Inr a', st2)" for wc' ai' uuid' p' code' error' a' st2
    by (rule spent_state_refused [OF that l callback_spends [OF assms l]])
  have "site_ok ?st0"
    using assms(3) tidies_nonces(1) [of "si_db st" "wc_clock wc 51" "os_jti s"] service_ok_tidies
    by (simp add: site_ok_def si_db_def consumed) (metis si_db_def snd_conv consumed)
  then have wf: "db_wf (si_db st1)" using keepsD [OF keeps_auth(1) u] by (simp add: site_ok_def service_ok_def)
  have links: "db_sso_links (si_db st1) = db_sso_links (si_db st)"
    using touched_nonces(2) [OF authenticated_user_touches [OF u [unfolded web_user_def]]] consumed
    by (auto simp: si_db_def consume_oauth_state_nonce_def Let_def)
  then have owners: "link_owner q uid (si_db st1) = link_owner q uid (si_db st)" for q uid by (simp add: link_owner_def get_user_sso_link_def)
  from run assms(2) show ?thesis
  proof (cases rule: oauth_with_code_run)
    case (confirms i v)
    from own confirms(2,3) have o: "os_user_id s = Some (us_id v)" "u = Some v" by (auto simp: own_account_def split: if_splits)
    with u consumed have "fst (web_user V wc False (st\<lparr>si_world := with_db (si_world st)
             (snd (consume_oauth_state_nonce (wc_clock wc 51) (os_jti s) (si_db st)))\<rparr>)) = Inr (Some v)" by simp
    with confirms o l n(1-3) pr c spent owners show ?thesis
      by (intro exI [of _ s] exI [of _ n] exI [of _ provider] exI [of _ c] exI [of _ i]) simp
  next
    case (signs_in i v how st2 allow)
    note grant = sign_in_grants [OF signs_in(4,3) assms(2) wf]
    have m: "os_mode s \<noteq> ''delete_account''" "os_mode s \<noteq> ''link''" using signs_in(2) by (auto simp: own_account_def)
    have kept: "link_owner q uid (si_db st') = Some w" if "link_owner q uid (si_db st) = Some w" for q uid w
      using grant(4) that owners by simp
    from l n(1-3) pr c signs_in(1) m grant(1-3) kept spent show ?thesis
      by (intro exI [of _ s] exI [of _ n] exI [of _ provider] exI [of _ c] exI [of _ i]) simp
  qed
qed

section \<open>Example\<close>

definition sample_web :: "(string \<rightharpoonup> string \<times> time) web_env" where
  "sample_web = \<lparr>wb_site = sample_env, wb_procs = sample_procs,
     wb_mime = \<lparr>mt_guess_type = (\<lambda>_. None), mt_guess_extension = (\<lambda>_. None)\<rparr>, wb_listen = (\<lambda>_ w. w)\<rparr>"

definition sample_context :: web_context where
  "sample_context = \<lparr>wc_request = cookie_request sample_token, wc_clock = (\<lambda>_. 5), wc_cid = ''c'', wc_base_url = []\<rparr>"

text \<open>The user of the tables comes back from the provider to confirm the deletion of the account.\<close>

definition sample_nonce :: oauth_state_nonce where
  "sample_nonce = \<lparr>on_jti = ''j'', on_mode = ''delete_account'', on_user_id = Some ''u'', on_code_verifier = ''v'', on_created_at = 5, on_expires_at = 9\<rparr>"

definition nonce_world :: world where
  "nonce_world = with_db (sample_world []) (sample_db\<lparr>db_sso_links := [sample_link], db_nonces := [sample_nonce]\<rparr>)"

definition sample_oauth :: oauth_env where
  "sample_oauth = \<lparr>oe_providers = [''google'' \<mapsto> \<lparr>op_authorization_url = (\<lambda>_ _ _. []),
       op_exchange_code = (\<lambda>code _ verifier. if (code, verifier) = (''c'', ''v'') then Inr (sample_identity ''g1'' ''U'') else Inl not_found)\<rparr>],
     oe_sha256 = id, oe_refused = (\<lambda>_. False)\<rparr>"

definition sample_state :: string where
  "sample_state = oauth_state_dumps sample_token_env 5
     \<lparr>os_mode = ''delete_account'', os_next_path = ''/settings'', os_jti = ''j'', os_user_id = Some ''u'', os_created_at = None\<rparr>"

lemma sample_state_loads:
  "oauth_state_loads sample_token_env 5 600 sample_state =
     Inr \<lparr>os_mode = ''delete_account'', os_next_path = ''/settings'', os_jti = ''j'', os_user_id = Some ''u'', os_created_at = Some ''5''\<rparr>"
proof -
  have "in_datetime 5" by (simp add: in_datetime_def)
  from token_round_trip_parts [OF sample_token_env_ok this,
      of "\<lparr>os_mode = ''delete_account'', os_next_path = ''/settings'', os_jti = ''j'', os_user_id = Some ''u'', os_created_at = None\<rparr>"
        "\<lparr>ra_user_id = [], ra_provider = [], ra_provider_uid = [], ra_created_at = None\<rparr>"
        "\<lparr>sx_selector = [], sx_album_id = [], sx_user_id = [], sx_created_at = None\<rparr>" 5 600]
  have "oauth_state_loads sample_token_env 5 600 sample_state =
     Inr \<lparr>os_mode = py_strip ''delete_account'', os_next_path = py_strip ''/settings'', os_jti = py_strip ''j'', os_user_id = Some (py_strip ''u''),
       os_created_at = Some (show_int 5)\<rparr>"
    by (simp add: sample_state_def seconds_def sec_def Let_def) (simp add: sample_token_env_def)
  moreover have "py_strip ''delete_account'' = ''delete_account''" "py_strip ''/settings'' = ''/settings''" "py_strip ''j'' = ''j''"
    "py_strip ''u'' = ''u''" "show_int 5 = ''5''" by code_simp+
  ultimately show ?thesis by simp
qed

lemma ones_typed: "config_typed ones"
proof -
  have "list_all (\<lambda>r. case find_spec (cr_key r) of None \<Rightarrow> True | Some s \<Rightarrow> is_ok (decode_stored_value s (cr_value r))) ones" by code_simp
  then show ?thesis by (auto simp: config_typed_def row_typed_def list_all_iff split: option.splits)
qed

lemma nonce_world_ok: "site_ok (sample_site nonce_world)"
proof -
  let ?d = "sample_db\<lparr>db_sso_links := [sample_link], db_nonces := [sample_nonce]\<rparr>"
  have "db_wf ?d"
    by (rule db_wf_nonces_upd [OF linked_world_wf]) (simp_all add: keys_distinct_def sample_nonce_def user_exists_def sample_defs)
  moreover have "items_owned ?d" "tokens_ok ?d" by (simp_all add: items_owned_def tokens_ok_def sample_defs)
  moreover have "within_limit ?d" using sample_service_ok by (simp add: service_ok_def within_limit_def list_album_media_def)
  ultimately show ?thesis by (simp add: site_ok_def service_ok_def si_db_def sample_site_def nonce_world_def ones_typed)
qed

lemma sample_callback:
  "\<exists>a st. oauth_callback sample_web sample_oauth sample_context sample_account_inputs ''s'' ''google'' (Some sample_state) (Some ''c'') None
     (sample_site nonce_world) = (Inr a, st) \<and> grants a"
proof -
  let ?d = "sample_db\<lparr>db_sso_links := [sample_link], db_nonces := []\<rparr>"
  let ?st = "sample_site (with_db nonce_world ?d)"
  have env: "ss_env (en_sessions sample_env) = sample_token_env" "or_str (Some sample_state) [] = sample_state" "wc_clock sample_context t = 5" "wb_site sample_web = sample_env"
      "wc_request sample_context = cookie_request sample_token" for t
    by (simp_all add: sample_web_def sample_env_def sample_session_settings_def sample_context_def or_str_def)
  have used: "consume_oauth_state_nonce 5 ''j'' (si_db (sample_site nonce_world)) = (Some sample_nonce, ?d)"
    by (simp add: consume_oauth_state_nonce_def si_db_def sample_site_def nonce_world_def sample_nonce_def delete_where_def)
  have "get_user ''u'' (w_db (with_db nonce_world ?d)) = Some (sample_user ''u'' False)"
    by (simp add: nonce_world_def) code_simp
  from sample_cookie_principal [OF this]
  have u: "web_user sample_web sample_context False ?st = (Inr (Some (sample_user ''u'' False)), ?st)"
    by (simp add: web_user_def authenticated_user_def env) (simp add: sample_context_def)
  have same: "(sample_site nonce_world)\<lparr>si_world := with_db (si_world (sample_site nonce_world)) ?d\<rparr> = ?st" by (simp add: sample_site_def)
  have path: "normalize_next_path (oe_refused sample_oauth) (Some ''/settings'') ''/settings'' = Inr ''/settings''" by code_simp
  have linked: "get_user_sso_link ''google'' ''g1'' (si_db ?st) = Some sample_link"
    by (simp add: get_user_sso_link_def si_db_def sample_site_def nonce_world_def find_row_Cons sample_link_def)
  have ends: "sl_user_id sample_link = ''u''" "us_id (sample_user ''u'' False) = ''u''" "on_code_verifier sample_nonce = ''v''"
    "oi_provider (sample_identity ''g1'' ''U'') = ''google''" "oi_provider_uid (sample_identity ''g1'' ''U'') = ''g1''"
    by (simp_all add: sample_link_def sample_user_def sample_nonce_def sample_identity_def)
  obtain provider where pr: "oe_providers sample_oauth ''google'' = Some provider"
    "\<And>r. op_exchange_code provider ''c'' r ''v'' = Inr (sample_identity ''g1'' ''U'')"
    by (simp add: sample_oauth_def)
  show ?thesis
    by (simp add: oauth_callback_def oauth_checked_def Let_def pr env sample_state_loads used same io_bind_def io_lift_def path u own_account_def ends
        oauth_with_code_def catch_http_def oauth_attempt_def from_db_def issue_reauth_def issue_account_delete_reauth_token_def linked
        io_return_def grants_def)
qed

theorem oauth_callback_is_bound_witness:
  "\<exists>a st. oauth_callback sample_web sample_oauth sample_context sample_account_inputs ''s'' ''google'' (Some sample_state) (Some ''c'') None
       (sample_site nonce_world) = (Inr a, st) \<and> grants a
     \<and> (\<forall>a' st2. oauth_callback sample_web sample_oauth sample_context sample_account_inputs ''s'' ''google'' (Some sample_state) (Some ''c'') None
       st = (Inr a', st2) \<longrightarrow> a' = unverified ''google'')"
proof -
  obtain a st where run: "oauth_callback sample_web sample_oauth sample_context sample_account_inputs ''s'' ''google'' (Some sample_state) (Some ''c'') None
     (sample_site nonce_world) = (Inr a, st)" "grants a"
    using sample_callback by blast
  have "a' = unverified ''google''" if "oauth_callback sample_web sample_oauth sample_context sample_account_inputs ''s'' ''google''
      (Some sample_state) (Some ''c'') None st = (Inr a', st2)" for a' st2
    using oauth_callback_is_bound [OF run nonce_world_ok] that by (elim exE conjE) metis
  with run show ?thesis by blast
qed

end
