(* ===== verification/Web_Props.thy ===== *)
theory Web_Props
  imports Web_Facts Web_Oauth_Props Sharex_Props
begin

text \<open>
  What holds of the program behind its HTTP interface: which states it can reach, whose albums a request can touch, and
  who administers it.
\<close>

section \<open>Requests\<close>

text \<open>A form of an upload: an empty album identifier counts as none, and identifiers are drawn.\<close>

definition form_ok :: "upload_form \<Rightarrow> bool" where
  "form_ok fo \<longleftrightarrow> fo_album_id fo \<noteq> Some [] \<and> (\<forall>fi\<in>set (fo_first fo # fo_others fo). drawn fi)"

inductive public_request :: "'s web_env \<Rightarrow> web_context \<Rightarrow> string option \<Rightarrow> 's site \<Rightarrow> 's site \<Rightarrow> bool" for V wc tok where
  uploads: "web_upload V wc fo st = (r, st') \<Longrightarrow> form_ok fo \<Longrightarrow> fo_delete_token fo = tok \<Longrightarrow> public_request V wc tok st st'"
| deletes_album: "web_delete_album V wc aid tok st = (r, st') \<Longrightarrow> public_request V wc tok st st'"
| patches_album: "web_patch_album V wc aid tok title cover st = (r, st') \<Longrightarrow> public_request V wc tok st st'"
| orders_album: "web_patch_album_order V wc aid tok order st = (r, st') \<Longrightarrow> public_request V wc tok st st'"
| deletes_media: "web_delete_media V wc mid tok st = (r, st') \<Longrightarrow> public_request V wc tok st st'"

inductive user_request :: "'s web_env \<Rightarrow> web_context \<Rightarrow> 's site \<Rightarrow> 's site \<Rightarrow> bool" for V wc where
  reads_self: "web_me V wc st = (r, st') \<Longrightarrow> user_request V wc st st'"
| lists_own: "web_my_albums V wc lim ofs st = (ra, st') \<Longrightarrow> user_request V wc st st'"
| makes_key: "web_new_api_key V wc ai st = (rk, st') \<Longrightarrow> user_request V wc st st'"
| changes_password: "web_change_password V wc ai cur pw st = (rp, st') \<Longrightarrow> user_request V wc st st'"
| gets_sharex: "web_sharex_config V wc ai st = (rs, st') \<Longrightarrow> user_request V wc st st'"
| deletes_self: "web_delete_me V wc dq cookie st = (rd, st') \<Longrightarrow> user_request V wc st st'"
| disconnects: "web_disconnect_google V wc st = (rg, st') \<Longrightarrow> user_request V wc st st'"

text \<open>With the state that an administrative request leaves, whether it was answered without an exception.\<close>

inductive admin_request :: "'s web_env \<Rightarrow> web_context \<Rightarrow> bool \<Rightarrow> 's site \<Rightarrow> 's site \<Rightarrow> bool" for V wc where
  lists_users: "web_list_users V wc q adm susp lim ofs st = (r1, st') \<Longrightarrow> admin_request V wc (is_ok r1) st st'"
| gets_user: "web_get_user V wc uid st = (r2, st') \<Longrightarrow> admin_request V wc (is_ok r2) st st'"
| gets_stats: "web_get_user_stats V wc uid st = (r3, st') \<Longrightarrow> admin_request V wc (is_ok r3) st st'"
| lists_user_albums: "web_list_user_albums V wc uid lim ofs st = (r4, st') \<Longrightarrow> admin_request V wc (is_ok r4) st st'"
| lists_albums: "web_list_albums V wc q owner anonymous lim ofs st = (r5, st') \<Longrightarrow> admin_request V wc (is_ok r5) st st'"
| gets_config: "web_get_config V wc st = (r6, st') \<Longrightarrow> admin_request V wc (is_ok r6) st st'"
| gets_overview: "web_stats V wc st = (r7, st') \<Longrightarrow> admin_request V wc (is_ok r7) st st'"
| patches_config: "web_patch_config V wc sent st = (r8, st') \<Longrightarrow> admin_request V wc (is_ok r8) st st'"
| creates_user: "web_create_user V wc ai p st = (r9, st') \<Longrightarrow> admin_request V wc (is_ok r9) st st'"
| patches_user: "web_patch_user V wc ai uid pq st = (r10, st') \<Longrightarrow> admin_request V wc (is_ok r10) st st'"
| resets_password: "web_reset_password V wc ai uid pw st = (r11, st') \<Longrightarrow> admin_request V wc (is_ok r11) st st'"
| deletes_user: "web_delete_user V wc uid st = (r12, st') \<Longrightarrow> admin_request V wc (is_ok r12) st st'"
| patches_album: "web_admin_patch_album V wc aid expires st = (r13, st') \<Longrightarrow> admin_request V wc (is_ok r13) st st'"
| deletes_album: "web_admin_delete_album V wc aid st = (r14, st') \<Longrightarrow> admin_request V wc (is_ok r14) st st'"

text \<open>The background tasks run with the settings of the moment.\<close>

definition web_services :: "'s web_env \<Rightarrow> (string \<Rightarrow> string \<Rightarrow> unit \<times> world \<Rightarrow> (err + unit) \<times> unit \<times> world) \<Rightarrow> 's site \<Rightarrow> services" where
  "web_services V enqueue st = \<lparr>sv_cfg = site_cfg (wb_site V) st, sv_procs = wb_procs V, sv_mime = wb_mime V,
     sv_listen = wb_listen V, sv_enqueue = enqueue, sv_crypto = en_crypto (wb_site V)\<rparr>"

inductive web_step :: "'s web_env \<Rightarrow> 's site \<Rightarrow> 's site \<Rightarrow> bool" for V where
  public: "public_request V wc tok st st' \<Longrightarrow> web_step V st st'"
| user: "user_request V wc st st' \<Longrightarrow> web_step V st st'"
| admin: "admin_request V wc ok st st' \<Longrightarrow> web_step V st st'"
| logs_in: "login (wb_site V) k new_uuid cid rq lq st = (r, st') \<Longrightarrow> web_step V st st'"
| registers: "register_user (wb_site V) k ai new_uuid cid rq gq st = (r', st') \<Longrightarrow> web_step V st st'"
| logs_out: "logout (wb_site V) k rq st = (ro, st') \<Longrightarrow> web_step V st st'"
| opens_link: "in_world (sharex_delete_entry E cr now dbnow later aid token) st = (re, st') \<Longrightarrow> web_step V st st'"
| confirms_link: "in_world (sharex_delete_confirm_submit E now dbnow later aid cid' cookie) st = (rc, st') \<Longrightarrow> web_step V st st'"
| goes_to_provider: "start_oauth V R wc jti verifier p nxt m st = (rp, st') \<Longrightarrow> web_step V st st'"
| comes_back: "oauth_callback V R wc ai new_uuid p signed_state code error st = (rb, st') \<Longrightarrow> web_step V st st'"
| background: "thumbs_enqueue enqueue \<Longrightarrow> system_step (web_services V enqueue st) (si_world st) w'
    \<Longrightarrow> web_step V st (st\<lparr>si_world := w'\<rparr>)"

section \<open>States that can be reached\<close>

lemma keeps_principal:
  assumes "\<And>p. keeps site_ok (f p)"
    and "(case authenticated_principal V k b rq st of ((Inl e, _), s) \<Rightarrow> (Inl e, s) | ((Inr p, _), s) \<Rightarrow> f p s) = (r, st')" "site_ok st"
  shows "site_ok st'"
proof -
  obtain x stale s where a: "authenticated_principal V k b rq st = ((x, stale), s)" by (metis prod.collapse)
  note s = site_ok_touched [OF authenticated_principal_touches [OF a] assms(3)]
  with assms(2) keepsD [OF assms(1)] show ?thesis by (cases x) (auto simp: a)
qed

lemma web_upload_keeps:
  assumes "web_upload V wc fo st = (r, st')" "form_ok fo" "upload_listener (wb_listen V)" "site_ok st"
  shows "site_ok st'"
  using _ assms(1,4) [unfolded web_upload_def Let_def]
proof (rule keeps_principal)
  fix p
  have files: "keeps site_ok (upload_files V wc (map_option pr_user p) b (fo_title fo) (fo_first fo # fo_others fo)
      (fo_album_id fo) (fo_delete_token fo) Map.empty)" for b
    by (rule keepsI, erule upload_files_keeps [OF _ assms(3)]) (use assms(2) in \<open>auto simp: form_ok_def\<close>)
  have check: "keeps site_ok (\<lambda>s. (anonymous_allowed (wb_site V) u s, s))" for u by (simp add: keeps_def)
  show "keeps site_ok (io_bind (\<lambda>s. (anonymous_allowed (wb_site V) (map_option pr_user p) s, s)) (\<lambda>_.
      io_bind (upload_files V wc (map_option pr_user p) (\<exists>q. p = Some q \<and> pr_raw_api_key q \<noteq> None) (fo_title fo)
        (fo_first fo # fo_others fo) (fo_album_id fo) (fo_delete_token fo) Map.empty)
      (\<lambda>(results, links). io_return (case hd results of (a, m) \<Rightarrow> upload_payload (wc_base_url wc) links a m results))))"
    by (intro keeps_rules files check)
qed

lemma public_request_keeps: "public_request V wc tok st st' \<Longrightarrow> upload_listener (wb_listen V) \<Longrightarrow> site_ok st \<Longrightarrow> site_ok st'"
proof (induction rule: public_request.induct)
  case (deletes_album aid st r st')
  have "keeps site_ok (web_delete_album V wc aid tok)" unfolding web_delete_album_def by (intro keeps_rules)
  from keepsD [OF this deletes_album(1,3)] show ?case .
next
  case (patches_album aid title cover st r st')
  have "keeps site_ok (web_patch_album V wc aid tok title cover)" unfolding web_patch_album_def by (intro keeps_rules)
  from keepsD [OF this patches_album(1,3)] show ?case .
next
  case (orders_album aid order st r st')
  have "keeps site_ok (web_patch_album_order V wc aid tok order)" unfolding web_patch_album_order_def by (intro keeps_rules)
  from keepsD [OF this orders_album(1,3)] show ?case .
next
  case (deletes_media mid st r st')
  have "keeps site_ok (web_delete_media V wc mid tok)" unfolding web_delete_media_def by (intro keeps_rules)
  from keepsD [OF this deletes_media(1,3)] show ?case .
qed (rule web_upload_keeps)

lemma user_request_keeps:
  assumes "user_request V wc st st'" "site_ok st"
  shows "site_ok st'"
proof -
  have handlers: "keeps site_ok (web_me V wc)" "keeps site_ok (web_my_albums V wc lim ofs)" "keeps site_ok (web_new_api_key V wc ai)"
    "keeps site_ok (web_change_password V wc ai cur pw)" "keeps site_ok (web_sharex_config V wc ai)"
    "keeps site_ok (web_delete_me V wc dq cookie)" "keeps site_ok (web_disconnect_google V wc)" for lim ofs ai cur pw dq cookie
    unfolding web_me_def web_my_albums_def web_new_api_key_def web_change_password_def web_sharex_config_def web_delete_me_def
      web_disconnect_google_def Let_def
    by (intro keeps_rules)+
  from assms(1) show ?thesis
    by cases (erule handlers [THEN keepsD, OF _ assms(2)])+
qed

text \<open>An administrative handler is the gate, then an operation.\<close>

lemma web_patch_config_keeps: "keeps site_ok (web_patch_config V wc sent)"
proof -
  have told: "w_db (fold (tell_config_change who cid) chs w) = w_db w" for who cid chs and w :: world
    by (induction chs arbitrary: w) (simp_all add: tell_config_change_def)
  show ?thesis
    unfolding web_patch_config_def
  proof (rule keeps_bind [OF keeps_auth(4)], rule keepsI)
    fix admin s r s'
    assume "site_ok s"
      and run: "(case update_values (en_environment (wb_site V)) (wc_clock wc 40) (config_updates sent) (si_config s) of
          (Inl e, rows) \<Rightarrow> (Inl e, s\<lparr>si_config := rows\<rparr>)
        | (Inr changes, rows) \<Rightarrow> (list_effective (en_environment (wb_site V)) rows,
            s\<lparr>si_config := rows, si_world := fold (tell_config_change (us_id admin) (wc_cid wc)) changes (si_world s)\<rparr>)) = (r, s')"
    then show "site_ok s'"
      using update_values_typed [of "si_config s" "en_environment (wb_site V)" "wc_clock wc 40" "config_updates sent"]
      by (auto simp: site_ok_def si_db_def told split: prod.splits sum.splits)
  qed
qed

lemma admin_request_keeps:
  assumes "admin_request V wc ok st st'" "site_ok st"
  shows "site_ok st'"
proof -
  have handlers: "keeps site_ok (web_list_users V wc q adm susp lim ofs)" "keeps site_ok (web_get_user V wc uid)"
    "keeps site_ok (web_get_user_stats V wc uid)" "keeps site_ok (web_list_user_albums V wc uid lim ofs)"
    "keeps site_ok (web_list_albums V wc q owner anonymous lim ofs)" "keeps site_ok (web_get_config V wc)"
    "keeps site_ok (web_stats V wc)" "keeps site_ok (web_create_user V wc ai p)" "keeps site_ok (web_patch_user V wc ai uid pq)"
    "keeps site_ok (web_reset_password V wc ai uid pw)" "keeps site_ok (web_delete_user V wc uid)"
    "keeps site_ok (web_admin_patch_album V wc aid expires)" "keeps site_ok (web_admin_delete_album V wc aid)"
    for q adm susp lim ofs uid owner anonymous ai p pq pw aid expires
    unfolding web_list_users_def web_get_user_def web_get_user_stats_def web_list_user_albums_def web_list_albums_def
      web_get_config_def web_stats_def web_create_user_def web_patch_user_def web_reset_password_def web_delete_user_def
      web_admin_patch_album_def web_admin_delete_album_def
    by (intro keeps_rules)+
  from assms(1) show ?thesis
    by cases (erule handlers [THEN keepsD, OF _ assms(2)] web_patch_config_keeps [THEN keepsD, OF _ assms(2)])+
qed

lemma si_world_same: "si_world st' = si_world st \<Longrightarrow> si_config st' = si_config st \<Longrightarrow> site_ok st' = site_ok st"
  by (simp add: site_ok_def si_db_def)

lemma keeps_same:
  assumes "\<And>s r s'. m s = (r, s') \<Longrightarrow> si_world s' = si_world s \<and> si_config s' = si_config s"
  shows "keeps site_ok m"
  by (rule keepsI) (use assms si_world_same in blast)

lemma keeps_open_session: "keeps site_ok (open_session V k new_uuid u remember)"
  by (rule keeps_same) (auto simp: open_session_def Let_def split: prod.splits sum.splits)

lemma login_keeps:
  assumes "login V k new_uuid cid rq lq st = (r, st')" "site_ok st"
  shows "site_ok st'"
proof -
  have limits: "keeps site_ok (login_attempt V k ip key)" "keeps site_ok (login_failure V k key)" "keeps site_ok (login_success V k key)" for ip key
    by (rule keeps_same; simp add: limit_worlds limit_configs)+
  have opens: "keeps site_ok (\<lambda>s. open_session V k new_uuid u b (if c then s\<lparr>si_world := emit ev (si_world s)\<rparr> else s))" for u b c ev
    by (rule keepsI, erule keepsD [OF keeps_open_session]) (simp add: site_ok_def si_db_def)
  have "keeps site_ok (login V k new_uuid cid rq lq)"
    unfolding login_def Let_def
  proof (rule keeps_seq [OF limits(1)], rule keepsI)
    fix s r s' assume "site_ok s" and run: "(case authenticate_local_user (en_crypto V) (lq_login lq) (lq_password lq) (si_db s) of
           Inl (HTTPException c detail) \<Rightarrow> io_seq (login_failure V k (hash_auth_identifier (en_crypto V) (py_strip (lq_login lq))))
              (io_raise (HTTPException c detail)) s
         | Inl e \<Rightarrow> (Inl e, s)
         | Inr u \<Rightarrow> io_seq (login_success V k (hash_auth_identifier (en_crypto V) (py_strip (lq_login lq)))) (\<lambda>st1.
               open_session V k new_uuid u (lq_remember_me lq)
                 (if us_is_admin u then st1\<lparr>si_world := emit (AdminLoggedIn (us_id u) ''web'' cid) (si_world st1)\<rparr>
                  else st1)) s) = (r, s')"
    have failed: "keeps site_ok (io_seq (login_failure V k key) (io_raise e))" for key e by (intro keeps_rules limits)
    have went: "keeps site_ok (io_seq (login_success V k key) (\<lambda>st1. open_session V k new_uuid u (lq_remember_me lq)
        (if us_is_admin u then st1\<lparr>si_world := emit (AdminLoggedIn (us_id u) ''web'' cid) (si_world st1)\<rparr> else st1)))" for key u
      by (intro keeps_rules limits opens)
    show "site_ok s'"
      using run \<open>site_ok s\<close> keepsD [OF failed] keepsD [OF went] by (auto split: sum.splits err.splits)
  qed
  from keepsD [OF this assms] show ?thesis .
qed

lemma register_keeps:
  assumes "register_user V k ai new_uuid cid rq gq st = (r, st')" "site_ok st"
  shows "site_ok st'"
proof -
  have "keeps site_ok (register_user V k ai new_uuid cid rq gq)"
    unfolding register_user_def
  proof (rule keeps_seq, rule keeps_same, simp add: registration_attempt_world limit_configs, rule keepsI)
    fix s r s' assume "site_ok s" and run: "(case site_flag V s ''allow_registration'' of Inl e \<Rightarrow> (Inl e, s)
        | Inr True \<Rightarrow> (case create_user (en_crypto V) ai \<lparr>uc_username = gq_username gq, uc_email = gq_email gq,
                 uc_password = Some (gq_password gq), uc_is_admin = False, uc_quota_bytes = None,
                 uc_rate_limit_rpm = None, uc_rate_limit_bph = None\<rparr> ''registration'' (Some cid) None ''web'' (si_world s) of
               (Inl e, w) \<Rightarrow> (Inl e, s\<lparr>si_world := w\<rparr>)
             | (Inr u, w) \<Rightarrow> open_session V k new_uuid u (gq_remember_me gq) (s\<lparr>si_world := w\<rparr>))
        | Inr False \<Rightarrow> (Inl (HTTPException 403 ''Registration is disabled.''), s)) = (r, s')"
    have created: "site_ok (s\<lparr>si_world := w\<rparr>)" if "create_user cr ai p meth c who source (si_world s) = (x, w)" for cr p meth c who source x w
      using tidies_create_user [OF that] \<open>site_ok s\<close> service_ok_tidies by (auto simp: site_ok_def si_db_def)
    show "site_ok s'"
      using run \<open>site_ok s\<close>
      by (auto split: sum.splits bool.splits prod.splits intro: created keepsD [OF keeps_open_session, OF _ created])
  qed
  from keepsD [OF this assms] show ?thesis .
qed

lemma logout_keeps:
  assumes "logout V k rq st = (r, st')" "site_ok st"
  shows "site_ok st'"
proof -
  obtain x s where a: "authenticated_user V k False rq st = (x, s)" by fastforce
  note ok = site_ok_touched [OF authenticated_user_touches [OF a] assms(2)]
  from assms(1) have "si_world st' = si_world s \<and> si_config st' = si_config s"
    by (auto simp: logout_def a split: if_splits prod.splits)
  with ok si_world_same show ?thesis by blast
qed

lemma tidies_sharex_entry:
  assumes "sharex_delete_entry E cr now dbnow later aid token w = (r, w')"
  shows "tidies (w_db w) (w_db w')"
proof -
  have "tidies d (snd (touch_sharex_delete_capability dbnow sel d))" for sel d
    by (rule tidies_other, erule db_wf_touch) (simp_all add: touch_sharex_delete_capability_def update_sharex_where_def Let_def split: prod.split)
  with assms show ?thesis
    by (auto simp: sharex_delete_entry_def split: if_splits sum.splits option.splits prod.splits)
qed

lemma tidies_sharex_submit:
  assumes "sharex_delete_confirm_submit E now dbnow later aid cid cookie w = (r, w')"
  shows "tidies (w_db w) (w_db w')"
proof -
  have consumed: "tidies d (snd (consume_sharex_delete_capability dbnow sel aid d))" for sel d
    by (rule tidies_other, erule db_wf_consume) (simp_all add: consume_sharex_delete_capability_def update_sharex_where_def Let_def split: prod.split)
  have step: "tidies d d'" if "consume_sharex_delete_capability dbnow sel aid d = (c, d')" for sel d c d'
    using consumed [of d sel] that by simp
  show ?thesis
    using assms
    by (auto simp: sharex_delete_confirm_submit_def Let_def split: if_splits sum.splits option.splits prod.splits
        dest!: step tidies_delete_album intro: tidies_trans)
qed

lemma keeps_sharex:
  "keeps site_ok (in_world (sharex_delete_entry E cr now dbnow later aid token))"
  "keeps site_ok (in_world (sharex_delete_confirm_submit E now dbnow later aid cid cookie))"
  by (rule keeps_world, erule tidies_sharex_entry tidies_sharex_submit)+

lemma web_step_keeps:
  assumes "web_step V st st'" "upload_listener (wb_listen V)" "site_ok st"
  shows "site_ok st'"
  using assms(1)
proof cases
  case (public wc tok)
  from public_request_keeps [OF this assms(2,3)] show ?thesis .
next
  case (background enqueue w')
  have "services_ok (web_services V enqueue st)" using assms(2) background(2) by (simp add: services_ok_def web_services_def)
  from tidies_system_step [OF background(3) this] assms(3) background(1) show ?thesis
    by (auto simp: site_ok_def si_db_def intro: service_ok_tidies)
next
  case user
  then show ?thesis by (rule user_request_keeps [OF _ assms(3)])
next
  case admin
  then show ?thesis by (rule admin_request_keeps [OF _ assms(3)])
next
  case logs_in
  then show ?thesis by (rule login_keeps [OF _ assms(3)])
next
  case registers
  then show ?thesis by (rule register_keeps [OF _ assms(3)])
next
  case logs_out
  then show ?thesis by (rule logout_keeps [OF _ assms(3)])
next
  case opens_link
  then show ?thesis by (rule keepsD [OF keeps_sharex(1) _ assms(3)])
next
  case confirms_link
  then show ?thesis by (rule keepsD [OF keeps_sharex(2) _ assms(3)])
next
  case goes_to_provider
  then show ?thesis by (rule keepsD [OF keeps_start_oauth _ assms(3)])
next
  case comes_back
  then show ?thesis by (rule keepsD [OF keeps_callback _ assms(3)])
qed

text \<open>C1: Whatever requests of visitors, users and administrators and whatever background tasks the site works through, in any
  order, every state it reaches satisfies the schema, its items belong to the owners of their albums, no album of a
  user opens to a delete token, no album exceeds a thousand items, and every setting can be read, with its type.\<close>

theorem reachable_sites_ok:
  assumes "(web_step V)\<^sup>*\<^sup>* st st'" "upload_listener (wb_listen V)" "defaults_ok (en_environment (wb_site V))" "site_ok st"
  shows "service_ok (si_db st')
    \<and> (\<forall>spec\<in>set runtime_config_specs. \<exists>v. get_value (en_environment (wb_site V)) (si_config st') (sp_key spec) = Inr v
        \<and> has_type (sp_value_type spec) v)"
proof -
  have "site_ok st'" using assms(1,4) by (induction rule: rtranclp_induct) (auto intro: web_step_keeps [OF _ assms(2)])
  with get_value_typed [OF _ assms(3)] show ?thesis by (simp add: site_ok_def)
qed

section \<open>The albums of others\<close>

text \<open>Whoever a request is from.\<close>

definition requester :: "'s web_env \<Rightarrow> web_context \<Rightarrow> 's site \<Rightarrow> user option" where
  "requester V wc st = (case fst (fst (authenticated_principal (wb_site V) (wc_clock wc) False (wc_request wc) st)) of
     Inr p \<Rightarrow> map_option pr_user p | Inl _ \<Rightarrow> None)"

text \<open>The album \<open>aid\<close> is as it was in \<open>d\<close>, save for thumbnails.\<close>

definition as_in :: "string \<Rightarrow> db \<Rightarrow> db \<Rightarrow> bool" where
  "as_in aid d d' \<longleftrightarrow> get_album aid d' = get_album aid d \<and> list_all2 rethumbed (list_album_media aid d) (list_album_media aid d')"

lemma as_in_spares: "spares aid d d' \<Longrightarrow> as_in aid d d'"
  by (simp add: spares_def as_in_def list_all2_refl)

lemma as_in_refl: "as_in aid d d"
  by (simp add: as_in_spares)

lemma as_in_trans: "as_in aid a b \<Longrightarrow> as_in aid b c \<Longrightarrow> as_in aid a c"
  unfolding as_in_def using list_all2_trans [of rethumbed rethumbed rethumbed, OF rethumbed_trans] by auto

lemma as_in_touched: "only_touched st st' \<Longrightarrow> as_in aid (si_db st) (si_db st')"
  by (rule as_in_spares) (simp add: spares_def get_album_def list_album_media_def only_touched_rows)

definition beside :: "string \<Rightarrow> db \<Rightarrow> 's site \<Rightarrow> bool" where
  "beside aid d s \<longleftrightarrow> site_ok s \<and> as_in aid d (si_db s)"

lemma upload_item_beside:
  assumes "upload_item V wc u source title fi album_id tok st = (r, st')" "upload_listener (wb_listen V)"
    and "album_id \<noteq> Some []" "drawn fi" "beside aid d st" "get_album aid d = Some album"
    and "(\<exists>b. album_id = Some b \<and> b \<noteq> aid) \<or> \<not> may_access t album tok u True"
  shows "beside aid d st' \<and> (\<forall>a x. r = Inr (a, x) \<longrightarrow> al_id a \<noteq> [] \<and> al_id a \<noteq> aid)"
proof -
  have ok: "site_ok st" and as: "as_in aid d (si_db st)" using assms(5) by (simp_all add: beside_def)
  note kept = upload_item_keeps [OF assms(1-3) ok]
  obtain lm w' rl where up: "upload (site_cfg (wb_site V) st) (wb_procs V) (wb_mime V) (wb_listen V) (upload_limits (wb_site V) st (fi_clock fi))
      (fi_inputs fi) (fi_file fi) album_id title (wc_cid wc) \<lparr>ca_user = u, ca_source = source\<rparr> tok
      (Some (upload_rate_limit_key wc u)) (si_world st, lm) = (r, w', rl)" "si_world st' = w'" "si_config st' = si_config st"
    by (rule upload_item_run [OF assms(1)])
  have wf: "db_wf (w_db (si_world st))" using ok by (simp add: site_ok_def si_db_def service_ok_def)
  have g: "get_album aid (w_db (si_world st)) = Some album" using as assms(6) by (simp add: as_in_def si_db_def)
  show ?thesis
  proof (cases r)
    case (Inl e)
    from up(1) wf assms(3,2) have "w_db w' = w_db (si_world st)" by (rule upload_cases) (use Inl in auto)
    with kept(1) as up(2) Inl show ?thesis by (simp add: beside_def si_db_def)
  next
    case (Inr ax)
    obtain a x where ax: "ax = (a, x)" by (cases ax)
    note run = up(1) [unfolded Inr ax]
    have other: "al_id a \<noteq> aid"
    proof (cases "\<exists>b. album_id = Some b \<and> b \<noteq> aid")
      case True
      with upload_album_id [OF run wf assms(3,2)] show ?thesis by auto
    next
      case False
      with assms(7) have "\<not> may_access t album tok (ca_user \<lparr>ca_user = u, ca_source = source\<rparr>) True" by simp
      from upload_elsewhere_id [OF run wf assms(3,2) g this] show ?thesis .
    qed
    from upload_spares_other [OF run wf assms(3,2) g other] g have "as_in aid (si_db st) (si_db st')"
      by (simp add: as_in_def si_db_def up(2))
    with as_in_trans [OF as] kept Inr ax other assms(4) show ?thesis by (auto simp: beside_def)
  qed
qed

lemma beside_link: "keeps (beside aid d) (in_world (issue_delete_link cr fi b v))"
proof (rule keepsI)
  fix s r s' assume s: "beside aid d s" and run: "in_world (issue_delete_link cr fi b v) s = (r, s')"
  from keepsD [OF keeps_issue_link run] s have "site_ok s'" by (simp add: beside_def)
  moreover have "spares aid (si_db s) (si_db s')"
    using run by (auto simp: in_world_def issue_delete_link_def si_db_def create_sharex_delete_capability_def spares_def get_album_def
        list_album_media_def split: sum.splits prod.splits if_splits)
  ultimately show "beside aid d s'" using s as_in_spares as_in_trans unfolding beside_def by blast
qed

lemma upload_spares_others:
  assumes "web_upload V wc fo st = (r, st')" "form_ok fo" "upload_listener (wb_listen V)" "site_ok st"
    and "get_album aid (si_db st) = Some album" "\<not> may_access t album (fo_delete_token fo) (requester V wc st) True"
  shows "as_in aid (si_db st) (si_db st')"
proof -
  obtain x stale s where a: "authenticated_principal (wb_site V) (wc_clock wc) False (wc_request wc) st = ((x, stale), s)" by (metis prod.collapse)
  note touched = authenticated_principal_touches [OF a]
  have s: "beside aid (si_db st) s" using site_ok_touched [OF touched assms(4)] as_in_touched [OF touched] by (simp add: beside_def)
  show ?thesis
  proof (cases x)
    case (Inl e)
    with assms(1) a as_in_touched [OF touched] show ?thesis by (simp add: web_upload_def)
  next
    case (Inr p)
    have u: "requester V wc st = map_option pr_user p" by (simp add: requester_def a Inr)
    let ?files = "upload_files V wc (map_option pr_user p) (\<exists>q. p = Some q \<and> pr_raw_api_key q \<noteq> None) (fo_title fo)
      (fo_first fo # fo_others fo) (fo_album_id fo) (fo_delete_token fo) Map.empty"
    have "beside aid (si_db st) s2" if "?files s1 = (y, s2)" "beside aid (si_db st) s1" for s1 y s2
      using that(1)
    proof (rule upload_files_invariant [where
          P = "\<lambda>b tk. b \<noteq> Some [] \<and> ((\<exists>c. b = Some c \<and> c \<noteq> aid) \<or> \<not> may_access t album tk (map_option pr_user p) True)"])
      fix fi source b tk s r s'
      assume "fi \<in> set (fo_first fo # fo_others fo)" and run: "upload_item V wc (map_option pr_user p) source (fo_title fo) fi b tk s = (r, s')"
        and P: "b \<noteq> Some [] \<and> ((\<exists>c. b = Some c \<and> c \<noteq> aid) \<or> \<not> may_access t album tk (map_option pr_user p) True)"
        and I: "beside aid (si_db st) s"
      then have "drawn fi" using assms(2) by (auto simp: form_ok_def)
      from upload_item_beside [OF run assms(3) conjunct1 [OF P] this I assms(5) conjunct2 [OF P]]
      show "beside aid (si_db st) s' \<and> (\<forall>a y tok'. r = Inr (a, y) \<longrightarrow> Some (al_id a) \<noteq> Some []
          \<and> ((\<exists>c. Some (al_id a) = Some c \<and> c \<noteq> aid) \<or> \<not> may_access t album tok' (map_option pr_user p) True))" by simp
    next
      from assms(2,6) u show "fo_album_id fo \<noteq> Some [] \<and> ((\<exists>c. fo_album_id fo = Some c \<and> c \<noteq> aid)
          \<or> \<not> may_access t album (fo_delete_token fo) (map_option pr_user p) True)" by (simp add: form_ok_def)
    qed (rule beside_link, rule that(2))
    then have "keeps (beside aid (si_db st)) ?files" by (blast intro: keepsI)
    then have "keeps (beside aid (si_db st)) (io_bind (\<lambda>s. (anonymous_allowed (wb_site V) (map_option pr_user p) s, s)) (\<lambda>_.
        io_bind ?files (\<lambda>(results, links). io_return (case hd results of (a, m) \<Rightarrow> upload_payload (wc_base_url wc) links a m results))))"
      by (intro keeps_rules) (simp_all add: keeps_def)
    from keepsD [OF this _ s] assms(1) show ?thesis by (simp add: web_upload_def a Inr beside_def Let_def)
  qed
qed

lemma requester_run:
  assumes "io_bind (web_user V wc False) (\<lambda>u. io_bind (in_world (f u)) g) st = (r, st')"
    and "\<And>x s. snd (g x s) = s" "site_ok st" "get_album aid (si_db st) = Some album"
    and "\<And>w y w'. f (requester V wc st) w = (y, w') \<Longrightarrow> get_album aid (w_db w) = Some album \<Longrightarrow> db_wf (w_db w)
      \<Longrightarrow> spares aid (w_db w) (w_db w')"
  shows "as_in aid (si_db st) (si_db st')"
proof -
  obtain x stale s where a: "authenticated_principal (wb_site V) (wc_clock wc) False (wc_request wc) st = ((x, stale), s)" by (metis prod.collapse)
  note touched = authenticated_principal_touches [OF a]
  note as = as_in_touched [OF touched]
  have user: "web_user V wc False st = (map_sum id (map_option pr_user) x, s)" by (simp add: web_user_def authenticated_user_def a)
  show ?thesis
  proof (cases x)
    case (Inl e)
    with assms(1) user as show ?thesis by (simp add: io_bind_def)
  next
    case (Inr p)
    have u: "requester V wc st = map_option pr_user p" by (simp add: requester_def a Inr)
    obtain y w' where f: "f (map_option pr_user p) (si_world s) = (y, w')" by fastforce
    have "get_album aid (w_db (si_world s)) = Some album" "db_wf (w_db (si_world s))"
      using as assms(4) site_ok_touched [OF touched assms(3)] by (simp_all add: as_in_def si_db_def site_ok_def service_ok_def)
    from assms(5) [OF f [folded u] this] have "as_in aid (si_db s) (w_db w')" by (simp add: si_db_def as_in_spares)
    moreover have "io_bind (in_world (f (map_option pr_user p))) g s = (r, st')"
      using assms(1) user Inr by (simp add: io_bind_def)
    then have "si_world st' = w'"
      using assms(2) by (auto simp: io_bind_def in_world_def f split: sum.splits prod.splits) (metis snd_conv site.select_convs(1) site.surjective site.update_convs(1))
    ultimately show ?thesis using as_in_trans [OF as] by (simp add: si_db_def)
  qed
qed

text \<open>C3: Whatever a request to the public interface asks for, an album that belongs to somebody else than the user the request is
  from, that this user does not administer and whose delete token the request does not show keeps its row and its items in
  their order, save for the thumbnails that the listener to an upload may complete. This includes uploads of many files,
  whose later files show the token of the album made for the first.\<close>

theorem requests_spare_albums_of_others:
  assumes "public_request V wc tok st st'" "upload_listener (wb_listen V)" "site_ok st"
    and "get_album aid (si_db st) = Some album" "\<not> may_access t album tok (requester V wc st) True"
  shows "get_album aid (si_db st') = Some album
    \<and> list_all2 rethumbed (list_album_media aid (si_db st)) (list_album_media aid (si_db st'))"
proof -
  note op = requester_run [OF _ _ assms(3,4)]
  from assms(1) have "as_in aid (si_db st) (si_db st')"
  proof cases
    case (uploads fo r)
    from upload_spares_others [OF uploads(1,2) assms(2-4)] assms(5) uploads(3) show ?thesis by simp
  next
    case (deletes_album aid' r)
    show ?thesis
      using deletes_album unfolding web_delete_album_def
      by (cases "is_valid_id aid' album_id_length")
        (auto intro!: op elim!: spares_delete_album [OF _ _ assms(5)] simp: io_return_def io_raise_def as_in_refl split: prod.split)
  next
    case (patches_album aid' title cover r)
    show ?thesis
      using patches_album unfolding web_patch_album_def
      by (cases "is_valid_id aid' album_id_length")
        (auto intro!: op elim!: spares_update_album [OF _ _ assms(5)] simp: io_return_def io_raise_def as_in_refl split: prod.split)
  next
    case (orders_album aid' order r)
    show ?thesis
      using orders_album unfolding web_patch_album_order_def
      by (cases "is_valid_id aid' album_id_length")
        (auto intro!: op elim!: spares_reorder_album [OF _ _ assms(5)] simp: io_return_def io_raise_def as_in_refl split: prod.split)
  next
    case (deletes_media mid r)
    show ?thesis
      using deletes_media unfolding web_delete_media_def
      by (cases "is_valid_id mid media_id_length")
        (auto intro!: op elim!: spares_delete_media [OF _ _ assms(5)] simp: io_return_def io_raise_def as_in_refl split: prod.split)
  qed
  with assms(4) show ?thesis by (simp add: as_in_def)
qed

section \<open>Who administers\<close>

lemma web_admin_ok:
  assumes "web_admin V wc st = (Inr a, s)"
  shows "us_is_admin a \<and> \<not> us_suspended a \<and> get_user (us_id a) (si_db st) = Some a"
proof -
  have run: "require_admin_user (wb_site V) (wc_clock wc) (wc_request wc) st = (Inr a, s)" using assms by (simp add: web_admin_def)
  then obtain s0 where u: "authenticated_user (wb_site V) (wc_clock wc) True (wc_request wc) s0 = (Inr (Some a), s)" "us_is_admin a"
    by (auto simp: require_admin_user_def io_defs split: prod.splits sum.splits option.splits if_splits)
  from authenticated_user_Some [OF u(1)] get_user_cong [OF only_touched_rows(1,4) [OF require_admin_user_touches [OF run]]] u(2)
  show ?thesis by simp
qed

lemma gated:
  assumes "io_bind (web_admin V wc) f st = (r, st')"
  shows "(\<exists>a s. web_admin V wc st = (Inr a, s) \<and> only_touched st s \<and> us_is_admin a \<and> \<not> us_suspended a
      \<and> get_user (us_id a) (si_db st) = Some a \<and> f a s = (r, st'))
    \<or> \<not> is_ok r \<and> only_touched st st'"
  using assms
proof (cases rule: io_bind_run)
  case (failed e)
  then have "only_touched st st'" unfolding web_admin_def by (intro require_admin_user_touches)
  with failed(2) show ?thesis by simp
next
  case (went_on a s)
  then have "only_touched st s" unfolding web_admin_def by (intro require_admin_user_touches)
  with web_admin_ok [OF went_on(1)] went_on show ?thesis by blast
qed

text \<open>C4: The administrative interface answers, and does anything beyond noting when a key was last used, only for a request that
  the gate takes to be from an administrator of the tables who is not suspended.\<close>

theorem only_administrators_administer:
  assumes "admin_request V wc ok st st'"
  shows "(\<exists>a s. web_admin V wc st = (Inr a, s) \<and> only_touched st s \<and> us_is_admin a \<and> \<not> us_suspended a
      \<and> get_user (us_id a) (si_db st) = Some a)
    \<or> \<not> ok \<and> only_touched st st'"
proof -
  have no_album: "\<not> ok \<and> only_touched st st'" if "io_raise e st = (r :: err + 'x, st')" "ok = is_ok r" for e r
    using that by (auto simp: io_raise_def only_touched_refl)
  from assms show ?thesis
  proof cases
    case (patches_album aid expires r)
    then show ?thesis
      by (cases "is_valid_id aid album_id_length") (auto simp: web_admin_patch_album_def dest!: gated no_album)
  next
    case (deletes_album aid r)
    then show ?thesis
      by (cases "is_valid_id aid album_id_length") (auto simp: web_admin_delete_album_def dest!: gated no_album)
  qed (unfold web_list_users_def web_get_user_def web_get_user_stats_def web_list_user_albums_def web_list_albums_def
      web_get_config_def web_stats_def web_patch_config_def web_create_user_def web_patch_user_def web_reset_password_def
      web_delete_user_def io_seq_def; drule gated; blast)+
qed

section \<open>Examples\<close>

text \<open>An album of the user \<^verbatim>\<open>u\<close>, who may be an administrator, and one of nobody with a delete token.\<close>

definition web_db :: "bool \<Rightarrow> db" where
  "web_db admin = empty_db\<lparr>db_users := [sample_user_row ''u'' admin],
     db_albums := [sample_album link_album (Some ''u'') None None, sample_album ''x'' None (Some ''t'') (Some 5)],
     db_media := [sample_media ''m4'' ''x'' None ''k4'' (Some ''t4'') 1000]\<rparr>"

abbreviation web_world :: "bool \<Rightarrow> world" where
  "web_world admin \<equiv> with_db (sample_world []) (web_db admin)"

lemma sample_web_listener: "upload_listener (wb_listen sample_web)"
  using sample_services_ok by (simp add: services_ok_def sample_services_def sample_web_def)

lemma web_user_is: "get_user ''u'' (w_db (web_world admin)) = Some (sample_user ''u'' admin)"
  by (cases admin; simp only:; code_simp)

lemma sample_web_ok: "site_ok (sample_site (web_world admin))"
proof -
  have "db_wf (web_db admin)" by (cases admin; simp only:; code_simp)
  moreover have "items_owned (web_db admin)" "tokens_ok (web_db admin)"
    by (simp_all add: items_owned_def tokens_ok_def web_db_def sample_album_def sample_media_def link_album_def)
  moreover have "length (list_album_media aid (web_db admin)) \<le> length (db_media (web_db admin))" for aid
    by (simp add: list_album_media_def)
  then have "within_limit (web_db admin)"
    unfolding within_limit_def by (rule allI [OF order_trans]) (simp add: web_db_def max_album_items_def)
  ultimately show ?thesis by (simp add: site_ok_def service_ok_def si_db_def sample_site_def ones_typed)
qed

lemma sample_delete:
  "fst (delete_album 5 link_album None ''c'' (Some (sample_user ''u'' admin)) (web_world admin)) = Inr (sample_album link_album (Some ''u'') None None, [])"
  "get_album link_album (w_db (snd (delete_album 5 link_album None ''c'' (Some (sample_user ''u'' admin)) (web_world admin)))) = None"
  by (cases admin; simp only:; code_simp)+

lemma sample_web_delete:
  "web_delete_album sample_web sample_context link_album None (sample_site (web_world False)) = (Inr (link_album, 0),
     sample_site (snd (delete_album 5 link_album None ''c'' (Some (sample_user ''u'' False)) (web_world False))))"
proof -
  obtain w' where d: "delete_album 5 link_album None ''c'' (Some (sample_user ''u'' False)) (web_world False)
      = (Inr (sample_album link_album (Some ''u'') None None, []), w')"
    using sample_delete(1) [of False] by (metis prod.collapse)
  have "web_user sample_web sample_context False (sample_site (web_world False)) = (Inr (Some (sample_user ''u'' False)), sample_site (web_world False))"
    by (simp add: web_user_def authenticated_user_def sample_web_def sample_context_def sample_cookie_principal [OF web_user_is])
  then show ?thesis
    using d link_facts(1) by (simp add: web_delete_album_def io_defs in_world_def sample_album_def) (simp add: sample_site_def sample_context_def io_return_def)
qed

theorem reachable_sites_ok_witness:
  "\<exists>st. (web_step sample_web)\<^sup>*\<^sup>* (sample_site (web_world False)) st \<and> get_album link_album (si_db st) = None \<and> service_ok (si_db st)"
proof -
  let ?st = "sample_site (snd (delete_album 5 link_album None ''c'' (Some (sample_user ''u'' False)) (web_world False)))"
  have run: "(web_step sample_web)\<^sup>*\<^sup>* (sample_site (web_world False)) ?st"
    by (rule r_into_rtranclp [of "web_step sample_web", OF web_step.public [OF public_request.deletes_album [OF sample_web_delete]]])
  have "defaults_ok (en_environment (wb_site sample_web))" by (simp add: sample_web_def sample_env_def plain_defaults_ok)
  from reachable_sites_ok [OF run sample_web_listener this sample_web_ok] have "service_ok (si_db ?st)" by blast
  moreover have "get_album link_album (si_db ?st) = None" using sample_delete(2) [of False] by (simp add: si_db_def sample_site_def)
  ultimately show ?thesis using run by blast
qed

theorem requests_spare_albums_of_others_witness:
  "\<exists>st. public_request sample_web sample_context (Some ''?'') (sample_site (web_world False)) st
     \<and> get_album ''x'' (si_db st) = Some (sample_album ''x'' None (Some ''t'') (Some 5))"
proof -
  have u: "requester sample_web sample_context (sample_site (web_world False)) = Some (sample_user ''u'' False)"
    by (simp add: requester_def sample_web_def sample_context_def sample_cookie_principal [OF web_user_is])
  have x: "get_album ''x'' (si_db (sample_site (web_world False))) = Some (sample_album ''x'' None (Some ''t'') (Some 5))"
    by (simp add: si_db_def sample_site_def) code_simp
  have "\<not> may_access 0 (sample_album ''x'' None (Some ''t'') (Some 5)) (Some ''?'') (Some (sample_user ''u'' False)) True"
    by (simp add: may_access_def sample_album_def sample_user_def)
  moreover obtain r st where "web_delete_album sample_web sample_context link_album (Some ''?'') (sample_site (web_world False)) = (r, st)" by fastforce
  then have "public_request sample_web sample_context (Some ''?'') (sample_site (web_world False)) st" by (rule public_request.deletes_album)
  ultimately show ?thesis using requests_spare_albums_of_others [OF _ sample_web_listener sample_web_ok x] u by metis
qed

lemma sample_web_admin:
  "web_admin sample_web sample_context (sample_site (web_world True)) = (Inr (sample_user ''u'' True), sample_site (web_world True))"
proof -
  have "admin_attempt sample_env (\<lambda>_. 5) ''1'' (sample_site (web_world True)) = (Inr (), sample_site (web_world True))"
    using sample_site_off by (simp add: admin_attempt_memory) (simp add: sample_site_def no_attempts_def)
  moreover have "us_is_admin (sample_user ''u'' True)" by (simp add: sample_user_def)
  moreover have "rq_ip (cookie_request sample_token) = ''1''" by (simp add: cookie_request_def)
  ultimately show ?thesis
    by (simp add: web_admin_def sample_web_def sample_context_def require_admin_user_def io_seq_def io_bind_def
      authenticated_user_def sample_cookie_principal [OF web_user_is])
qed

theorem only_administrators_administer_witness:
  "\<exists>st. admin_request sample_web sample_context True (sample_site (web_world True)) st \<and> get_album link_album (si_db st) = None
     \<and> (\<exists>a. us_is_admin a \<and> get_user (us_id a) (web_db True) = Some a)"
proof -
  let ?st = "sample_site (snd (delete_album 5 link_album None ''c'' (Some (sample_user ''u'' True)) (web_world True)))"
  obtain w' where d: "delete_album 5 link_album None ''c'' (Some (sample_user ''u'' True)) (web_world True)
      = (Inr (sample_album link_album (Some ''u'') None None, []), w')"
    using sample_delete(1) [of True] by (metis prod.collapse)
  have "web_admin_delete_album sample_web sample_context link_album (sample_site (web_world True)) = (Inr (link_album, 0), ?st)"
    using d link_facts(1) sample_web_admin
    by (simp add: web_admin_delete_album_def io_defs in_world_def sample_album_def) (simp add: sample_site_def sample_context_def io_return_def)
  from admin_request.deletes_album [OF this] have run: "admin_request sample_web sample_context True (sample_site (web_world True)) ?st" by simp
  from only_administrators_administer [OF run] have "\<exists>a. us_is_admin a \<and> get_user (us_id a) (web_db True) = Some a"
    by (auto simp: si_db_def sample_site_def)
  with run sample_delete(2) [of True] show ?thesis by (auto simp: si_db_def sample_site_def)
qed

end
