(* ===== verification/Web_Pages.thy ===== *)
theory Web_Pages
  imports Web_Oauth Web_Admin Listings Serving "HOL-Library.Log_Nat"
begin

text \<open>
  The pages: \<^verbatim>\<open>src/imghost/web/pages.py\<close> with its contexts (\<^verbatim>\<open>page_context.py\<close>, \<^verbatim>\<open>page_views.py\<close>, \<^verbatim>\<open>display_helpers.py\<close>). A page is
  the name of its template, its title, its scripts and the context that the template is given; rendering is not modelled. The
  gates of the pages (\<^verbatim>\<open>auth_context.py\<close>) and the administrators' pages write to the audit log, of which the world keeps the
  times: the rows of what a page request does are modelled here. The two pages of the deletion links are in \<^verbatim>\<open>Sharex_Flow\<close>.
\<close>

section \<open>Numbers and times for reading\<close>

text \<open>The nearest multiple of \<open>m\<close>, in multiples; a tie goes to the even one, as in floating point and in its formatting.\<close>

definition half_even :: "nat \<Rightarrow> nat \<Rightarrow> nat" where
  "half_even n m = (let q = n div m; r = n mod m in if 2 * r < m \<or> (2 * r = m \<and> even q) then q else q + 1)"

text \<open>\<^verbatim>\<open>float(n)\<close>: 53 significant bits.\<close>

definition float_nat :: "nat \<Rightarrow> nat" where
  "float_nat n = (let k = floorlog 2 n - 53 in half_even n (2 ^ k) * 2 ^ k)"

definition size_units :: "string list" where
  "size_units = [''B'', ''KB'', ''MB'', ''GB'', ''TB'']"

text \<open>The loop over the units: \<open>n / m\<close> is the size in the unit; dividing a float by 1024 is exact.\<close>

fun humanize_in :: "nat \<Rightarrow> nat \<Rightarrow> string list \<Rightarrow> string" where
  "humanize_in n m [] = []"
| "humanize_in n m (u # us) =
     (if n < 1024 * m \<or> us = [] then
        (if u = ''B'' then show_nat (n div m) @ '' '' @ u
         else let tenths = half_even (10 * n) m in show_nat (tenths div 10) @ ''.'' @ show_nat (tenths mod 10) @ '' '' @ u)
      else humanize_in n (1024 * m) us)"

definition humanize_bytes :: "int \<Rightarrow> string" where
  "humanize_bytes n = (if n < 0 then show_int n @ '' B'' else humanize_in (float_nat (nat n)) 1 size_units)"

definition ceil_div :: "int \<Rightarrow> int \<Rightarrow> int" where
  "ceil_div a b = - ((- a) div b)"

definition humanize_expiry :: "time \<Rightarrow> time option \<Rightarrow> string option" where
  "humanize_expiry now expires_at =
     (case expires_at of
        None \<Rightarrow> None
      | Some e \<Rightarrow>
          (let total = (if e \<le> now then 0 else (e - now) div sec) in
           Some (if total < 3600 then ''This album expires in '' @ show_int (max 1 (ceil_div total 60)) @ '' minute(s).''
             else if total < 86400 then ''This album expires in '' @ show_int (ceil_div total 3600) @ '' hour(s).''
             else ''This album expires in '' @ show_int (ceil_div total 86400) @ '' day(s).'')))"

text \<open>The civil date of a day counted from the epoch: years begin in March, so that the leap day ends them, and come in
  cycles of 400.\<close>

definition civil_date :: "int \<Rightarrow> int \<times> int \<times> int" where
  "civil_date z =
     (let z' = z + 719468; era = z' div 146097; doe = z' mod 146097;
          yoe = (doe - doe div 1460 + doe div 36524 - doe div 146096) div 365;
          doy = doe - (365 * yoe + yoe div 4 - yoe div 100);
          mp = (5 * doy + 2) div 153;
          m = (if mp < 10 then mp + 3 else mp - 9)
      in (yoe + era * 400 + (if m \<le> 2 then 1 else 0), m, doy - (153 * mp + 2) div 5 + 1))"

definition two_digits :: "int \<Rightarrow> string" where
  "two_digits n = (if n < 10 then ''0'' else []) @ show_int n"

text \<open>\<^verbatim>\<open>"%-m/%-d/%Y, %-I:%M:%S %p"\<close>\<close>

definition display_timestamp :: "time \<Rightarrow> string" where
  "display_timestamp t =
     (let s = t div sec; r = s mod 86400; h = r div 3600 in
      case civil_date (s div 86400) of (y, m, d) \<Rightarrow>
        show_int m @ ''/'' @ show_int d @ ''/'' @ show_int y @ '', ''
        @ show_int (if h mod 12 = 0 then 12 else h mod 12) @ '':'' @ two_digits (r div 60 mod 60) @ '':'' @ two_digits (r mod 60)
        @ (if h < 12 then '' AM'' else '' PM''))"

section \<open>Contexts\<close>

text \<open>\<open>pe_audit_writes i\<close>: whether the sink's insertion at the \<open>i\<close>-th clock succeeds; \<^verbatim>\<open>emit\<close> swallows a failure.\<close>

record page_env =
  pe_google :: bool
  pe_analytics :: bool
  pe_refused :: "string \<Rightarrow> bool"
  pe_audit_writes :: "nat \<Rightarrow> bool"

record page_flags =
  pf_allow_registration :: bool
  pf_anon_upload_enabled :: bool
  pf_anon_expiry_hours :: int
  pf_max_upload_bytes :: int
  pf_google_oauth_enabled :: bool

definition runtime_flags :: "'s web_env \<Rightarrow> page_env \<Rightarrow> 's site \<Rightarrow> err + page_flags" where
  "runtime_flags V P st =
     and_then (site_flag (wb_site V) st ''allow_registration'') (\<lambda>registration.
     and_then (site_flag (wb_site V) st ''anon_upload_enabled'') (\<lambda>uploads.
     and_then (site_cfg (wb_site V) st ''anon_expiry_hours'') (\<lambda>expiry.
     and_then (site_cfg (wb_site V) st ''max_upload_bytes'') (\<lambda>max_bytes.
     Inr \<lparr>pf_allow_registration = registration, pf_anon_upload_enabled = uploads, pf_anon_expiry_hours = expiry,
       pf_max_upload_bytes = max_bytes, pf_google_oauth_enabled = pe_google P\<rparr>))))"

definition nav_items :: "user option \<Rightarrow> bool \<Rightarrow> (string \<times> string) list" where
  "nav_items u allow_registration =
     (case u of
        None \<Rightarrow> (''/login'', ''Login'') # (if allow_registration then [(''/register'', ''Register'')] else [])
      | Some a \<Rightarrow> [(''/dashboard'', ''Dashboard''), (''/albums'', ''Albums''), (''/settings'', ''Settings'')]
          @ (if us_is_admin a then [(''/admin'', ''Admin'')] else []))"

definition build_open_graph :: "string \<Rightarrow> string \<Rightarrow> string \<Rightarrow> string option \<Rightarrow> (string \<times> string) list" where
  "build_open_graph title description url image_url =
     [(''title'', title), (''description'', description), (''type'', ''website''), (''url'', url),
      (''twitter_card'', if truthy image_url then ''summary_large_image'' else ''summary''),
      (''twitter_title'', title), (''twitter_description'', description)]
     @ (if truthy image_url then [(''image'', the image_url), (''twitter_image'', the image_url)] else [])"

record workspace =
  wk_album_id :: string
  wk_access_mode :: string
  wk_workspace_label :: string
  wk_post_delete_url :: string
  wk_delete_token :: "string option"

definition build_workspace_bootstrap :: "string \<Rightarrow> string \<Rightarrow> string \<Rightarrow> string option \<Rightarrow> workspace" where
  "build_workspace_bootstrap aid access_mode post_delete_url delete_token =
     \<lparr>wk_album_id = aid, wk_access_mode = access_mode,
      wk_workspace_label = (if access_mode = ''owner'' then ''Owner view'' else ''Manage view''),
      wk_post_delete_url = post_delete_url, wk_delete_token = delete_token\<rparr>"

record album_view =
  av_payload :: album_payload
  av_total_size_display :: string
  av_created_at_display :: string
  av_updated_at_display :: string
  av_last_edited_display :: "string option"
  av_file_size_displays :: "string list"
  av_expiry_hint :: "string option"
  av_compat_warnings :: "string list"
  av_is_owner_viewer :: bool
  av_open_graph :: "(string \<times> string) list"

text \<open>\<^verbatim>\<open>dict.fromkeys\<close> keeps the first of equal keys.\<close>

definition first_of_each :: "'a list \<Rightarrow> 'a list" where
  "first_of_each xs = rev (remdups (rev xs))"

definition build_public_album_page_context :: "time \<Rightarrow> string \<Rightarrow> album \<Rightarrow> media list \<Rightarrow> string option \<Rightarrow> album_view" where
  "build_public_album_page_context now base_url a items viewer =
     (let payload = album_to_payload base_url a items;
          size_text = humanize_bytes (ap_total_size payload);
          created = display_timestamp (al_created_at a); updated = display_timestamp (al_updated_at a)
      in \<lparr>av_payload = payload, av_total_size_display = size_text, av_created_at_display = created, av_updated_at_display = updated,
        av_last_edited_display = (if updated \<noteq> created then Some updated else None),
        av_file_size_displays = map (humanize_bytes \<circ> md_file_size) items,
        av_expiry_hint = humanize_expiry now (al_expires_at a),
        av_compat_warnings = map the (filter truthy (first_of_each (map compatibility_warning items))),
        av_is_owner_viewer = (viewer \<noteq> None \<and> al_user_id a = viewer),
        av_open_graph = build_open_graph (or_str (al_title a) ''Untitled album'')
          (show_int (ap_item_count payload) @ '' item(s) '' @ [CHR 0xB7] @ '' '' @ size_text)
          (base_url @ ''/a/'' @ al_id a) (ap_cover_url payload)\<rparr>)"

record profile_view =
  pv_user :: user
  pv_albums :: "(public_album \<times> string \<times> string) list"
  pv_open_graph :: "(string \<times> string) list"

text \<open>The image of a profile: the first cover with a finished thumbnail.\<close>

definition cover_image :: "string \<Rightarrow> public_album \<Rightarrow> string option" where
  "cover_image base_url p =
     (case pb_cover p of
        None \<Rightarrow> None
      | Some m \<Rightarrow> if md_id m \<noteq> [] \<and> truthy (pb_cover_thumb_format p) \<and> md_thumb_status m = ''done''
          then Some (thumb_url base_url (md_id m) (the (pb_cover_thumb_format p))) else None)"

definition build_public_user_album_list_context :: "string \<Rightarrow> user \<Rightarrow> public_album list \<Rightarrow> profile_view" where
  "build_public_user_album_list_context base_url u albums =
     \<lparr>pv_user = u,
      pv_albums = map (\<lambda>p. (p, humanize_bytes (pb_total_size p), display_timestamp (al_created_at (pb_album p)))) albums,
      pv_open_graph = build_open_graph (us_username u @ '' albums'')
        (show_nat (length albums) @ '' public album(s), sorted by most recently modified.'')
        (base_url @ ''/u/'' @ us_username u)
        (case List.map_filter (cover_image base_url) albums of [] \<Rightarrow> None | url # _ \<Rightarrow> Some url)\<rparr>"

section \<open>Pages\<close>

text \<open>What each template is given besides the common context.\<close>

datatype page_extra =
    NoExtra
  | HomeExtra "(string \<times> string) list" bool
  | EntryExtra string "string option"
  | SessionExtra user_summary
  | SettingsExtra user_summary "string option" "string option" "string option" "string option"
  | WorkspaceExtra workspace
  | AdminUserExtra string string
  | AlbumExtra album_view
  | ProfileExtra profile_view

record web_page =
  pg_template :: string
  pg_title :: string
  pg_user :: "user option"
  pg_nav :: "(string \<times> string) list"
  pg_base_url :: string
  pg_flags :: page_flags
  pg_extra :: page_extra
  pg_scripts :: "string list"
  pg_analytics :: bool

datatype page_answer = Shown web_page | Sent_to string

definition render_template_page ::
  "'s web_env \<Rightarrow> page_env \<Rightarrow> web_context \<Rightarrow> string \<Rightarrow> string \<Rightarrow> bool \<Rightarrow> user option \<Rightarrow> page_extra \<Rightarrow> string list
     \<Rightarrow> 's site \<Rightarrow> (err + page_answer) \<times> 's site" where
  "render_template_page V P wc template title public_analytics u extra scripts = from_db (\<lambda>st.
     and_then (runtime_flags V P st) (\<lambda>flags.
     Inr (Shown \<lparr>pg_template = template, pg_title = title, pg_user = u, pg_nav = nav_items u (pf_allow_registration flags),
       pg_base_url = wc_base_url wc, pg_flags = flags, pg_extra = extra, pg_scripts = scripts,
       pg_analytics = (public_analytics \<and> pe_analytics P)\<rparr>)))"

subsection \<open>The audit log\<close>

definition emit_audit :: "page_env \<Rightarrow> web_context \<Rightarrow> nat \<Rightarrow> 's site \<Rightarrow> (err + unit) \<times> 's site" where
  "emit_audit P wc i st =
     (Inr (), if pe_audit_writes P i
        then st\<lparr>si_world := (si_world st)\<lparr>w_audit := w_audit (si_world st) @ [wc_clock wc i]\<rparr>\<rparr> else st)"

text \<open>An operation, then an event if its result calls for one; the result is answered or raised again.\<close>

definition with_audit ::
  "page_env \<Rightarrow> web_context \<Rightarrow> nat \<Rightarrow> (err + 'a \<Rightarrow> bool) \<Rightarrow> ('s site \<Rightarrow> (err + 'a) \<times> 's site) \<Rightarrow> 's site \<Rightarrow> (err + 'a) \<times> 's site" where
  "with_audit P wc i calls m st =
     (case m st of (r, st1) \<Rightarrow> if calls r then io_seq (emit_audit P wc i) (io_lift r) st1 else (r, st1))"

definition has_status :: "int set \<Rightarrow> err + 'a \<Rightarrow> bool" where
  "has_status codes r = (case r of Inl (HTTPException c _) \<Rightarrow> c \<in> codes | _ \<Rightarrow> False)"

text \<open>\<^verbatim>\<open>authenticated_user(request)\<close> with its events: a key is accepted, refused or over its limit. A session writes none.\<close>

definition page_viewer :: "'s web_env \<Rightarrow> page_env \<Rightarrow> web_context \<Rightarrow> 's site \<Rightarrow> (err + user option) \<times> 's site" where
  "page_viewer V P wc = with_audit P wc 73
     (\<lambda>r. bearer_token (rq_authorization (wc_request wc)) \<noteq> None \<and> (has_status {401, 403, 429} r \<or> is_ok r))
     (web_user V wc False)"

definition audit_admin_page_view :: "page_env \<Rightarrow> web_context \<Rightarrow> 's site \<Rightarrow> (err + unit) \<times> 's site" where
  "audit_admin_page_view P wc = emit_audit P wc 72"

subsection \<open>The gates\<close>

text \<open>A page answers with the user or with a redirection to the login, which names the path to come back to.\<close>

datatype page_gate = PageUser user | LoginRedirect string

definition require_page_user :: "'s web_env \<Rightarrow> page_env \<Rightarrow> web_context \<Rightarrow> 's site \<Rightarrow> (err + page_gate) \<times> 's site" where
  "require_page_user V P wc =
     io_bind (page_viewer V P wc) (\<lambda>u. io_return
       (case u of Some a \<Rightarrow> PageUser a | None \<Rightarrow> LoginRedirect (rq_path (wc_request wc))))"

definition page_denial :: "'s web_env \<Rightarrow> page_env \<Rightarrow> web_context \<Rightarrow> 's site \<Rightarrow> (err + unit) \<times> 's site" where
  "page_denial V P wc = io_seq (admin_denial (wb_site V) (wc_clock wc) (rq_ip (wc_request wc))) (emit_audit P wc 75)"

definition require_page_admin :: "'s web_env \<Rightarrow> page_env \<Rightarrow> web_context \<Rightarrow> 's site \<Rightarrow> (err + page_gate) \<times> 's site" where
  "require_page_admin V P wc =
     io_seq (with_audit P wc 74 (has_status {429}) (admin_attempt (wb_site V) (wc_clock wc) (rq_ip (wc_request wc))))
       (io_bind (page_viewer V P wc) (\<lambda>u.
         case u of
           None \<Rightarrow> io_seq (page_denial V P wc) (io_return (LoginRedirect (rq_path (wc_request wc))))
         | Some a \<Rightarrow>
             if us_is_admin a then io_return (PageUser a)
             else io_seq (page_denial V P wc) (io_raise admin_required)))"

definition gate_page ::
  "('s site \<Rightarrow> (err + page_gate) \<times> 's site) \<Rightarrow> (user \<Rightarrow> 's site \<Rightarrow> (err + page_answer) \<times> 's site)
     \<Rightarrow> 's site \<Rightarrow> (err + page_answer) \<times> 's site" where
  "gate_page gate f = io_bind gate (\<lambda>g. case g of
     LoginRedirect path \<Rightarrow> io_return (Sent_to (login_redirect (Some path)))
   | PageUser u \<Rightarrow> f u)"

definition user_page ::
  "'s web_env \<Rightarrow> page_env \<Rightarrow> web_context \<Rightarrow> (user \<Rightarrow> 's site \<Rightarrow> (err + page_answer) \<times> 's site)
     \<Rightarrow> 's site \<Rightarrow> (err + page_answer) \<times> 's site" where
  "user_page V P wc = gate_page (require_page_user V P wc)"

definition administrator_page ::
  "'s web_env \<Rightarrow> page_env \<Rightarrow> web_context \<Rightarrow> (user \<Rightarrow> 's site \<Rightarrow> (err + page_answer) \<times> 's site)
     \<Rightarrow> 's site \<Rightarrow> (err + page_answer) \<times> 's site" where
  "administrator_page V P wc = gate_page (require_page_admin V P wc)"

subsection \<open>For everybody\<close>

definition index_page :: "'s web_env \<Rightarrow> page_env \<Rightarrow> web_context \<Rightarrow> 's site \<Rightarrow> (err + page_answer) \<times> 's site" where
  "index_page V P wc = io_bind (page_viewer V P wc) (\<lambda>u.
     io_bind (from_db (runtime_flags V P)) (\<lambda>flags.
     render_template_page V P wc ''pages/home.html'' ''imghost'' True u
       (HomeExtra (build_open_graph ''imghost'' ''Upload your photos and videos. Share them in seconds.'' (wc_base_url wc) None)
         (u \<noteq> None \<or> pf_anon_upload_enabled flags))
       [''js/upload-box.js'', ''js/home.js'']))"

text \<open>Login and registration differ in the template and the title.\<close>

definition entry_page ::
  "'s web_env \<Rightarrow> page_env \<Rightarrow> web_context \<Rightarrow> string \<Rightarrow> string \<Rightarrow> string option \<Rightarrow> string option \<Rightarrow> 's site \<Rightarrow> (err + page_answer) \<times> 's site" where
  "entry_page V P wc template title nxt oauth_error = io_bind (page_viewer V P wc) (\<lambda>u.
     if u \<noteq> None then io_return (Sent_to ''/dashboard'')
     else io_bind (io_lift (normalize_next_path (pe_refused P) nxt ''/dashboard'')) (\<lambda>next_path.
       render_template_page V P wc template title False None (EntryExtra next_path (stripped_query oauth_error)) [''js/auth.js'']))"

definition login_page :: "'s web_env \<Rightarrow> page_env \<Rightarrow> web_context \<Rightarrow> string option \<Rightarrow> string option \<Rightarrow> 's site \<Rightarrow> (err + page_answer) \<times> 's site" where
  "login_page V P wc = entry_page V P wc ''pages/login.html'' ''Login''"

definition register_page :: "'s web_env \<Rightarrow> page_env \<Rightarrow> web_context \<Rightarrow> string option \<Rightarrow> string option \<Rightarrow> 's site \<Rightarrow> (err + page_answer) \<times> 's site" where
  "register_page V P wc = entry_page V P wc ''pages/register.html'' ''Register''"

definition album_page :: "'s web_env \<Rightarrow> page_env \<Rightarrow> web_context \<Rightarrow> string \<Rightarrow> 's site \<Rightarrow> (err + page_answer) \<times> 's site" where
  "album_page V P wc aid =
     (if \<not> is_valid_id aid album_id_length then io_raise not_found
      else io_bind (page_viewer V P wc) (\<lambda>u st.
        case get_album aid (si_db st) of
          None \<Rightarrow> (Inl not_found, st)
        | Some a \<Rightarrow> if is_expired (wc_clock wc 70) (al_expires_at a) then (Inl not_found, st)
            else render_template_page V P wc ''pages/public-album.html'' (or_str (al_title a) ''Untitled album'') True u
              (AlbumExtra (build_public_album_page_context (wc_clock wc 71) (wc_base_url wc) a (list_album_media aid (si_db st))
                (map_option us_id u))) [''js/public-album.js''] st))"

definition user_album_list_page :: "'s web_env \<Rightarrow> page_env \<Rightarrow> web_context \<Rightarrow> string \<Rightarrow> 's site \<Rightarrow> (err + page_answer) \<times> 's site" where
  "user_album_list_page V P wc username = io_bind (page_viewer V P wc) (\<lambda>viewer.
     io_bind (from_db (\<lambda>st. list_public_albums_for_username (\<lambda>i. wc_clock wc (80 + i)) username (si_db st))) (\<lambda>(u, albums).
     render_template_page V P wc ''pages/public-user-albums.html'' (us_username u @ '' albums'') True viewer
       (ProfileExtra (build_public_user_album_list_context (wc_base_url wc) u albums))
       [''js/album-cards.js'', ''js/public-user-albums.js'']))"

text \<open>The page for who has the delete token, in the address or in a cookie.\<close>

definition workspace_scripts :: "string list" where
  "workspace_scripts = [''js/upload-box.js'', ''js/album-detail-core.js'', ''js/album-detail-render.js'',
     ''js/album-detail-actions.js'', ''js/album-detail.js'']"

definition manage_album_page ::
  "'s web_env \<Rightarrow> page_env \<Rightarrow> web_context \<Rightarrow> string \<Rightarrow> string option \<Rightarrow> string option \<Rightarrow> 's site \<Rightarrow> (err + page_answer) \<times> 's site" where
  "manage_album_page V P wc aid token cookie =
     (if \<not> is_valid_id aid album_id_length then io_raise not_found
      else let active = (if truthy token then token else cookie) in
        if \<not> truthy active then io_raise (HTTPException 403 ''Missing manage token.'')
        else io_bind (page_viewer V P wc) (\<lambda>viewer st.
          case get_album aid (si_db st) of
            None \<Rightarrow> (Inl not_found, st)
          | Some a \<Rightarrow>
              if is_expired (wc_clock wc 70) (al_expires_at a) \<or> al_delete_token a = None then (Inl not_found, st)
              else if active \<noteq> al_delete_token a then (Inl (HTTPException 403 ''Invalid manage token.''), st)
              else render_template_page V P wc ''pages/album-detail.html'' ''Manage Album'' False viewer
                (WorkspaceExtra (build_workspace_bootstrap aid ''token'' ''/'' active)) workspace_scripts st))"

subsection \<open>For users\<close>

definition dashboard_page :: "'s web_env \<Rightarrow> page_env \<Rightarrow> web_context \<Rightarrow> 's site \<Rightarrow> (err + page_answer) \<times> 's site" where
  "dashboard_page V P wc = user_page V P wc (\<lambda>u.
     io_bind (user_summary_of V u) (\<lambda>summary.
     render_template_page V P wc ''pages/dashboard.html'' ''Dashboard'' False (Some u) (SessionExtra summary)
       [''js/upload-box.js'', ''js/album-cards.js'', ''js/dashboard.js'']))"

definition albums_page :: "'s web_env \<Rightarrow> page_env \<Rightarrow> web_context \<Rightarrow> 's site \<Rightarrow> (err + page_answer) \<times> 's site" where
  "albums_page V P wc = user_page V P wc (\<lambda>u.
     render_template_page V P wc ''pages/albums.html'' ''Albums'' False (Some u) NoExtra [''js/album-cards.js'', ''js/albums.js''])"

definition album_detail_page :: "'s web_env \<Rightarrow> page_env \<Rightarrow> web_context \<Rightarrow> string \<Rightarrow> 's site \<Rightarrow> (err + page_answer) \<times> 's site" where
  "album_detail_page V P wc aid =
     (if \<not> is_valid_id aid album_id_length then io_raise not_found
      else user_page V P wc (\<lambda>u st.
        case get_album aid (si_db st) of
          None \<Rightarrow> (Inl not_found, st)
        | Some a \<Rightarrow>
            if is_expired (wc_clock wc 70) (al_expires_at a) \<or> al_user_id a \<noteq> Some (us_id u) then (Inl not_found, st)
            else render_template_page V P wc ''pages/album-detail.html'' ''Album'' False (Some u)
              (WorkspaceExtra (build_workspace_bootstrap aid ''owner'' ''/albums'' None)) workspace_scripts st))"

definition settings_page ::
  "'s web_env \<Rightarrow> page_env \<Rightarrow> web_context \<Rightarrow> (string \<Rightarrow> string option) \<Rightarrow> 's site \<Rightarrow> (err + page_answer) \<times> 's site" where
  "settings_page V P wc query = user_page V P wc (\<lambda>u.
     io_bind (user_summary_of V u) (\<lambda>summary.
     render_template_page V P wc ''pages/settings.html'' ''Settings'' False (Some u)
       (SettingsExtra summary (stripped_query (query ''oauth_status'')) (stripped_query (query ''oauth_tone''))
         (stripped_query (query ''delete_reauth_status'')) (stripped_query (query ''delete_reauth_tone'')))
       [''js/settings.js'']))"

subsection \<open>For administrators\<close>

definition admin_page :: "'s web_env \<Rightarrow> page_env \<Rightarrow> web_context \<Rightarrow> 's site \<Rightarrow> (err + page_answer) \<times> 's site" where
  "admin_page V P wc = administrator_page V P wc (\<lambda>u.
     io_bind (user_summary_of V u) (\<lambda>summary.
     io_seq (audit_admin_page_view P wc)
     (render_template_page V P wc ''pages/admin.html'' ''Admin'' False (Some u) (SessionExtra summary)
       [''js/admin-common.js'', ''js/admin-index.js''])))"

text \<open>The pages without a context of their own.\<close>

definition admin_plain_page :: "'s web_env \<Rightarrow> page_env \<Rightarrow> web_context \<Rightarrow> string \<Rightarrow> string \<Rightarrow> string \<Rightarrow> 's site \<Rightarrow> (err + page_answer) \<times> 's site" where
  "admin_plain_page V P wc template title script = administrator_page V P wc (\<lambda>u.
     io_seq (audit_admin_page_view P wc)
     (render_template_page V P wc template title False (Some u) NoExtra [''js/admin-common.js'', script]))"

definition admin_users_page :: "'s web_env \<Rightarrow> page_env \<Rightarrow> web_context \<Rightarrow> 's site \<Rightarrow> (err + page_answer) \<times> 's site" where
  "admin_users_page V P wc = admin_plain_page V P wc ''pages/admin-users.html'' ''Admin Users'' ''js/admin-users.js''"

definition admin_users_new_page :: "'s web_env \<Rightarrow> page_env \<Rightarrow> web_context \<Rightarrow> 's site \<Rightarrow> (err + page_answer) \<times> 's site" where
  "admin_users_new_page V P wc = admin_plain_page V P wc ''pages/admin-users-new.html'' ''Admin New User'' ''js/admin-users-new.js''"

definition admin_albums_page :: "'s web_env \<Rightarrow> page_env \<Rightarrow> web_context \<Rightarrow> 's site \<Rightarrow> (err + page_answer) \<times> 's site" where
  "admin_albums_page V P wc = admin_plain_page V P wc ''pages/admin-albums.html'' ''Admin Albums'' ''js/admin-albums.js''"

definition admin_config_page :: "'s web_env \<Rightarrow> page_env \<Rightarrow> web_context \<Rightarrow> 's site \<Rightarrow> (err + page_answer) \<times> 's site" where
  "admin_config_page V P wc = admin_plain_page V P wc ''pages/admin-config.html'' ''Admin Config'' ''js/admin-config.js''"

definition admin_ops_page :: "'s web_env \<Rightarrow> page_env \<Rightarrow> web_context \<Rightarrow> 's site \<Rightarrow> (err + page_answer) \<times> 's site" where
  "admin_ops_page V P wc = admin_plain_page V P wc ''pages/admin-ops.html'' ''Admin Ops'' ''js/admin-ops.js''"

definition admin_user_detail_page :: "'s web_env \<Rightarrow> page_env \<Rightarrow> web_context \<Rightarrow> string \<Rightarrow> 's site \<Rightarrow> (err + page_answer) \<times> 's site" where
  "admin_user_detail_page V P wc uid = administrator_page V P wc (\<lambda>u.
     io_bind (from_db (\<lambda>st. get_user_with_usage_for_admin (site_cfg (wb_site V) st) uid (si_db st))) (\<lambda>found.
     io_seq (audit_admin_page_view P wc)
     (render_template_page V P wc ''pages/admin-user-detail.html'' (''Admin User '' @ us_username (uu_user found)) False (Some u)
       (AdminUserExtra uid (us_username (uu_user found)))
       [''js/admin-common.js'', ''js/album-cards.js'', ''js/admin-user-detail.js''])))"

end
