(* ===== verification/Page_Props.thy ===== *)
theory Page_Props
  imports Web_Props Web_Pages
begin

text \<open>
  Who is shown which page, and the little that looking at pages changes.
\<close>

section \<open>Numbers and times for reading\<close>

lemma half_even_nearest: "0 < m \<Longrightarrow> 2 * \<bar>int (half_even n m) * int m - int n\<bar> \<le> int m"
proof -
  assume m: "0 < m"
  have n: "int n = int m * int (n div m) + int (n mod m)" by (metis mult_div_mod_eq of_nat_add of_nat_mult)
  have r: "int (n mod m) < int m" using m by simp
  have up: "int (n div m + 1) * int m - int n = int m - int (n mod m)" using n by (simp add: algebra_simps)
  have down: "int (n div m) * int m - int n = - int (n mod m)" using n by (simp add: algebra_simps)
  show ?thesis using r up down by (auto simp: half_even_def Let_def)
qed

lemma float_nat_exact: "n < 2 ^ 53 \<Longrightarrow> float_nat n = n"
proof -
  assume "n < 2 ^ 53"
  then have "floorlog 2 n \<le> 53" by (simp only: floorlog_leI)
  then show ?thesis by (simp add: float_nat_def half_even_def)
qed

lemma civil_date_samples: "civil_date 0 = (1970, 1, 1)" "civil_date 11016 = (2000, 2, 29)" "civil_date 11017 = (2000, 3, 1)"
  unfolding civil_date_def Let_def by simp_all

lemma humanize_samples:
  "humanize_bytes 1023 = ''1023 B''"
  "humanize_expiry 0 (Some (seconds 61)) = Some ''This album expires in 2 minute(s).''"
  by code_simp+

section \<open>Looking changes little\<close>

definition add_rows :: "time list \<Rightarrow> 's site \<Rightarrow> 's site" where
  "add_rows ts st = st\<lparr>si_world := (si_world st)\<lparr>w_audit := w_audit (si_world st) @ ts\<rparr>\<rparr>"



lemma add_rows_simps [simp]:
  "add_rows [] st = st" "add_rows qs (add_rows ps st) = add_rows (ps @ qs) st"
  "si_db (add_rows ps st) = si_db st" "si_config (add_rows ps st) = si_config st"
  "si_uploads (add_rows ps st) = si_uploads st" "si_uploads_degraded (add_rows ps st) = si_uploads_degraded st"
  by (simp_all add: add_rows_def si_db_def)

















section \<open>Who looks\<close>






definition known_user :: "user \<Rightarrow> 's site \<Rightarrow> bool" where
  "known_user u st \<longleftrightarrow> get_user (us_id u) (si_db st) = Some u \<and> \<not> us_suspended u"

lemma known_user_add [simp]: "known_user u (add_rows ts st) = known_user u st"
  by (simp add: known_user_def)






section \<open>Who is shown what\<close>


























section \<open>Example\<close>




end
