(* ===== verification/S3_Storage.thy ===== *)
theory S3_Storage
  imports Storage
begin

text \<open>
  \<^verbatim>\<open>S3StorageBackend\<close> of \<^verbatim>\<open>src/imghost/storage.py\<close> and the choice of the backend. The client that boto3 makes is a parameter; what
  S3 documents of it is \<open>s3_serves\<close>. Under it this backend and the one on the filesystem cannot be told apart.
\<close>

section \<open>The client\<close>

text \<open>An exception of the client, with the status that \<^verbatim>\<open>_status_code\<close> finds in it.\<close>

datatype s3_error = S3Error (s3_status: "int option")

record s3_response =
  s3_content_length :: "int option"
  s3_content_range :: "string option"
  s3_content_type :: "string option"
  s3_body :: bytes

record 's s3_client =
  s3_open :: "s3_error + unit"
  s3_put_object :: "string \<Rightarrow> string \<Rightarrow> bytes \<Rightarrow> 's \<Rightarrow> (s3_error + unit) \<times> 's"
  s3_delete_object :: "string \<Rightarrow> string \<Rightarrow> 's \<Rightarrow> (s3_error + unit) \<times> 's"
  s3_head_object :: "string \<Rightarrow> string \<Rightarrow> 's \<Rightarrow> s3_error + int"
  s3_get_object :: "string \<Rightarrow> string \<Rightarrow> string option \<Rightarrow> 's \<Rightarrow> s3_error + s3_response"
  s3_head_bucket :: "string \<Rightarrow> 's \<Rightarrow> s3_error + unit"
  s3_create_bucket :: "string \<Rightarrow> 's \<Rightarrow> (s3_error + unit) \<times> 's"

text \<open>The rest of an operation once the client is there; making it may raise.\<close>

definition s3_read :: "'s s3_client \<Rightarrow> (s3_error + 'a) \<Rightarrow> s3_error + 'a" where
  "s3_read cl r = (case s3_open cl of Inl e \<Rightarrow> Inl e | Inr _ \<Rightarrow> r)"

definition s3_write :: "'s s3_client \<Rightarrow> ('s \<Rightarrow> (s3_error + 'a) \<times> 's) \<Rightarrow> 's \<Rightarrow> (s3_error + 'a) \<times> 's" where
  "s3_write cl f s = (case s3_open cl of Inl e \<Rightarrow> (Inl e, s) | Inr _ \<Rightarrow> f s)"

section \<open>The backend\<close>

definition s3_put :: "'s s3_client \<Rightarrow> string \<Rightarrow> string \<Rightarrow> bytes \<Rightarrow> 's \<Rightarrow> (s3_error + unit) \<times> 's" where
  "s3_put cl bucket key data = s3_write cl (s3_put_object cl bucket key data)"

definition s3_delete :: "'s s3_client \<Rightarrow> string \<Rightarrow> string \<Rightarrow> 's \<Rightarrow> (s3_error + unit) \<times> 's" where
  "s3_delete cl bucket key = s3_write cl (s3_delete_object cl bucket key)"

definition s3_exists :: "'s s3_client \<Rightarrow> string \<Rightarrow> string \<Rightarrow> 's \<Rightarrow> s3_error + bool" where
  "s3_exists cl bucket key s =
     (case s3_read cl (s3_head_object cl bucket key s) of
        Inr _ \<Rightarrow> Inr True
      | Inl e \<Rightarrow> if s3_status e = Some 404 then Inr False else Inl e)"

definition s3_get_size :: "'s s3_client \<Rightarrow> string \<Rightarrow> string \<Rightarrow> 's \<Rightarrow> s3_error + int" where
  "s3_get_size cl bucket key s = s3_read cl (s3_head_object cl bucket key s)"

definition s3_get_bytes :: "'s s3_client \<Rightarrow> string \<Rightarrow> string \<Rightarrow> 's \<Rightarrow> s3_error + bytes" where
  "s3_get_bytes cl bucket key s = map_sum id s3_body (s3_read cl (s3_get_object cl bucket key None s))"

definition s3_health_check :: "'s s3_client \<Rightarrow> string \<Rightarrow> 's \<Rightarrow> bool" where
  "s3_health_check cl bucket s = (case s3_read cl (s3_head_bucket cl bucket s) of Inr _ \<Rightarrow> True | Inl _ \<Rightarrow> False)"

definition s3_init_storage :: "'s s3_client \<Rightarrow> string \<Rightarrow> 's \<Rightarrow> (s3_error + unit) \<times> 's" where
  "s3_init_storage cl bucket s =
     (case s3_read cl (s3_head_bucket cl bucket s) of
        Inr _ \<Rightarrow> (Inr (), s)
      | Inl e \<Rightarrow> if s3_status e \<noteq> Some 404 then (Inl e, s) else s3_write cl (s3_create_bucket cl bucket) s)"

record s3_stream =
  sm_status_code :: int
  sm_content_type :: string
  sm_content_length :: "int option"
  sm_content_range :: "string option"
  sm_body :: "bytes list"

datatype s3_stream_error = S3Range range_error | S3Failed s3_error

text \<open>The range that is asked of the server is the one the code understood, written anew. The body is read in pieces until it ends.\<close>

definition s3_get_stream :: "'s s3_client \<Rightarrow> string \<Rightarrow> string \<Rightarrow> string option \<Rightarrow> 's \<Rightarrow> s3_stream_error + s3_stream" where
  "s3_get_stream cl bucket key range_header s =
     (case (if truthy range_header
            then (case s3_read cl (s3_head_object cl bucket key s) of
                Inl e \<Rightarrow> Inl (S3Failed e)
              | Inr n \<Rightarrow> (case normalize_byte_range range_header n of
                  Inl e \<Rightarrow> Inl (S3Range e)
                | Inr None \<Rightarrow> Inr range_header
                | Inr (Some r) \<Rightarrow> Inr (Some (br_header_value r))))
            else Inr None) of
        Inl e \<Rightarrow> Inl e
      | Inr asked \<Rightarrow>
          (case s3_read cl (s3_get_object cl bucket key asked s) of
             Inl e \<Rightarrow> Inl (S3Failed e)
           | Inr resp \<Rightarrow> Inr \<lparr>sm_status_code = (if truthy range_header then 206 else 200),
               sm_content_type = or_str (s3_content_type resp) ''application/octet-stream'',
               sm_content_length = s3_content_length resp, sm_content_range = s3_content_range resp,
               sm_body = read_chunks chunk_size (s3_body resp) (length (s3_body resp))\<rparr>))"

section \<open>Which backend\<close>

record storage_settings =
  sg_backend :: string
  sg_s3_endpoint_url :: "string option"
  sg_s3_access_key_id :: "string option"
  sg_s3_secret_access_key :: "string option"
  sg_s3_bucket :: "string option"

datatype backend = LocalBackend | S3Backend string

definition build_storage_backend :: "storage_settings \<Rightarrow> err + backend" where
  "build_storage_backend g =
     (if sg_backend g \<in> {''filesystem'', ''fs'', ''local''} then Inr LocalBackend
      else if sg_backend g \<in> {''garage'', ''s3''} then
        if \<not> truthy (sg_s3_endpoint_url g) then Inl (RuntimeError ''S3_ENDPOINT_URL is required for garage storage.'')
        else if \<not> truthy (sg_s3_access_key_id g) then Inl (RuntimeError ''S3_ACCESS_KEY_ID is required for garage storage.'')
        else if \<not> truthy (sg_s3_secret_access_key g) then Inl (RuntimeError ''S3_SECRET_ACCESS_KEY is required for garage storage.'')
        else if \<not> truthy (sg_s3_bucket g) then Inl (RuntimeError ''S3_BUCKET is required for garage storage.'')
        else Inr (S3Backend (the (sg_s3_bucket g)))
      else Inl (RuntimeError (''Unsupported storage backend: '' @ sg_backend g)))"

section \<open>What S3 promises\<close>

text \<open>\<open>objs\<close> is what the bucket holds. A range within an object is answered with its bytes and where they are from.\<close>

definition s3_serves :: "'s s3_client \<Rightarrow> string \<Rightarrow> ('s \<Rightarrow> string \<Rightarrow> bytes option) \<Rightarrow> bool" where
  "s3_serves cl bucket objs \<longleftrightarrow>
     s3_open cl = Inr ()
     \<and> (\<forall>s k d. fst (s3_put_object cl bucket k d s) = Inr () \<and> objs (snd (s3_put_object cl bucket k d s)) = (objs s)(k \<mapsto> d))
     \<and> (\<forall>s k. fst (s3_delete_object cl bucket k s) = Inr () \<and> objs (snd (s3_delete_object cl bucket k s)) = (objs s)(k := None))
     \<and> (\<forall>s k. objs s k = None \<longrightarrow> s3_head_object cl bucket k s = Inl (S3Error (Some 404))
          \<and> (\<forall>h. s3_get_object cl bucket k h s = Inl (S3Error (Some 404))))
     \<and> (\<forall>s k d. objs s k = Some d \<longrightarrow> s3_head_object cl bucket k s = Inr (int (length d))
          \<and> (\<exists>resp. s3_get_object cl bucket k None s = Inr resp \<and> s3_body resp = d
               \<and> s3_content_length resp = Some (int (length d)) \<and> s3_content_range resp = None)
          \<and> (\<forall>r. 0 \<le> br_start r \<and> br_start r \<le> br_end r \<and> br_end r < int (length d) \<longrightarrow>
               (\<exists>resp. s3_get_object cl bucket k (Some (br_header_value r)) s = Inr resp
                  \<and> s3_body resp = take (nat (br_end r - br_start r + 1)) (drop (nat (br_start r)) d)
                  \<and> s3_content_length resp = Some (br_end r - br_start r + 1)
                  \<and> s3_content_range resp = Some (br_content_range_value r @ ''/'' @ show_int (int (length d))))))"

text \<open>Behind the interface of a store, where an exception of the client is one of \<^verbatim>\<open>err\<close>, such a bucket keeps the contract the services
  rely on (\<open>object_store\<close>), as the directory does; no operation fails.\<close>

lemma s3_keeps_the_contract:
  assumes "s3_serves cl bucket objs"
  shows "object_store (\<lambda>k d s. apfst (map_sum err_of id) (s3_put cl bucket k d s)) (\<lambda>k s. apfst (map_sum err_of id) (s3_delete cl bucket k s))
    objs (\<lambda>_ _. False)"
  using assms by unfold_locales (simp_all add: s3_serves_def s3_put_def s3_delete_def s3_write_def)

lemma read_chunks_0 [simp]: "read_chunks chunk rest 0 = []"
  by (subst read_chunks.simps) simp

lemma read_chunks_take: "n \<le> length rest \<Longrightarrow> read_chunks chunk (take n rest) n = read_chunks chunk rest n"
proof (induction chunk rest n rule: read_chunks.induct)
  case (1 chunk rest n)
  show ?case
  proof (cases "n = 0 \<or> chunk = 0 \<or> rest = []")
    case True
    then show ?thesis by (subst (1 2) read_chunks.simps) auto
  next
    case False
    let ?m = "min chunk n"
    have "read_chunks chunk (take (n - ?m) (drop ?m rest)) (n - ?m) = read_chunks chunk (drop ?m rest) (n - ?m)"
      using "1.IH" [OF False refl refl] "1.prems" by simp
    moreover have "drop ?m (take n rest) = take (n - ?m) (drop ?m rest)" by (simp add: drop_take)
    ultimately show ?thesis
      using False "1.prems" by (cases "chunk \<le> n"; subst (1 2) read_chunks.simps; simp add: Let_def min_def)
  qed
qed

definition same_stream :: "s3_stream_error + s3_stream \<Rightarrow> stream_error + storage_stream \<Rightarrow> bool" where
  "same_stream x y =
     (case x of
        Inl (S3Range e) \<Rightarrow> y = Inl (StreamRange e)
      | Inl (S3Failed e) \<Rightarrow> s3_status e = Some 404 \<and> (\<exists>e'. y = Inl (StreamStorage e'))
      | Inr a \<Rightarrow> (case y of
          Inl _ \<Rightarrow> False
        | Inr b \<Rightarrow> sm_status_code a = ss_status_code b \<and> sm_content_length a = Some (ss_content_length b)
            \<and> sm_content_range a = ss_content_range b \<and> sm_body a = ss_body b))"

lemma s3_streams_alike:
  assumes "s3_serves cl bucket objs" "st_objects fs = objs srv" "\<forall>k. \<not> st_faulty fs (SGet k)"
  shows "same_stream (s3_get_stream cl bucket key h srv) (local_get_stream key h fs)"
proof (cases "objs srv key")
  case None
  with assms show ?thesis
    by (auto simp: s3_serves_def same_stream_def s3_get_stream_def local_get_stream_def st_get_bytes_def s3_read_def)
next
  case (Some d)
  have opens: "s3_open cl = Inr ()" using assms(1) by (simp add: s3_serves_def)
  from assms(1) Some have head: "s3_head_object cl bucket key srv = Inr (int (length d))"
    and whole: "\<exists>resp. s3_get_object cl bucket key None srv = Inr resp \<and> s3_body resp = d
               \<and> s3_content_length resp = Some (int (length d)) \<and> s3_content_range resp = None"
    and part: "\<And>r. 0 \<le> br_start r \<Longrightarrow> br_start r \<le> br_end r \<Longrightarrow> br_end r < int (length d) \<Longrightarrow>
               (\<exists>resp. s3_get_object cl bucket key (Some (br_header_value r)) srv = Inr resp
                  \<and> s3_body resp = take (nat (br_end r - br_start r + 1)) (drop (nat (br_start r)) d)
                  \<and> s3_content_length resp = Some (br_end r - br_start r + 1)
                  \<and> s3_content_range resp = Some (br_content_range_value r @ ''/'' @ show_int (int (length d))))"
    by (auto simp: s3_serves_def)
  have bytes: "st_get_bytes key fs = Inr d" using assms(2,3) Some by (simp add: st_get_bytes_def)
  show ?thesis
  proof (cases "truthy h")
    case False
    then have "normalize_byte_range h (int (length d)) = Inr None" by (simp add: normalize_None_iff)
    with whole False bytes opens show ?thesis
      by (auto simp: same_stream_def s3_get_stream_def local_get_stream_def s3_read_def)
  next
    case True
    show ?thesis
    proof (cases "normalize_byte_range h (int (length d))")
      case (Inl e)
      with True head bytes opens show ?thesis
        by (simp add: same_stream_def s3_get_stream_def local_get_stream_def s3_read_def)
    next
      case (Inr br)
      with True normalize_None_iff [of h] obtain r where r: "br = Some r" by (cases br) auto
      note b = normalize_in_bounds [OF Inr [unfolded r]]
      from part b obtain resp where resp: "s3_get_object cl bucket key (Some (br_header_value r)) srv = Inr resp"
          "s3_body resp = take (nat (br_end r - br_start r + 1)) (drop (nat (br_start r)) d)"
          "s3_content_length resp = Some (br_end r - br_start r + 1)"
          "s3_content_range resp = Some (br_content_range_value r @ ''/'' @ show_int (int (length d)))" by blast
      let ?n = "nat (br_end r - br_start r + 1)"
      have n: "?n \<le> length (drop (nat (br_start r)) d)" using b unfolding length_drop by arith
      then have "length (s3_body resp) = ?n" using resp(2) by simp
      with read_chunks_take [OF n, of chunk_size] resp(2)
      have "read_chunks chunk_size (s3_body resp) (length (s3_body resp)) = read_chunks chunk_size (drop (nat (br_start r)) d) ?n" by simp
      moreover have "max 0 (br_end r - br_start r + 1) = br_end r - br_start r + 1" using b by simp
      ultimately show ?thesis
        using True head bytes opens Inr r resp
        by (simp add: same_stream_def s3_get_stream_def local_get_stream_def s3_read_def Let_def)
    qed
  qed
qed

text \<open>C17: A bucket of a server that keeps S3's promises and a directory with the same objects cannot be told apart through the two
  backends: writes and deletions leave both with the same objects, the questions whether an object is there, how
  large it is and what it holds get the same answers, and every request for a stream, with any range header, is
  refused by both for the same reason or answered by both with the same status, length, range and pieces.\<close>

theorem s3_backend_agrees_with_filesystem:
  assumes "s3_serves cl bucket objs" "st_objects fs = objs srv" "\<forall>op. \<not> st_faulty fs op"
  shows "(let p = s3_put cl bucket key data srv; q = st_put key data fs in
      fst p = Inr () \<and> fst q = Inr () \<and> objs (snd p) = st_objects (snd q))
    \<and> (let p = s3_delete cl bucket key srv; q = st_delete key fs in
      fst p = Inr () \<and> fst q = Inr () \<and> objs (snd p) = st_objects (snd q))
    \<and> s3_exists cl bucket key srv = Inr (st_exists key fs)
    \<and> map_sum (\<lambda>_. ()) id (s3_get_size cl bucket key srv) = map_sum (\<lambda>_. ()) id (st_get_size key fs)
    \<and> map_sum (\<lambda>_. ()) id (s3_get_bytes cl bucket key srv) = map_sum (\<lambda>_. ()) id (st_get_bytes key fs)
    \<and> same_stream (s3_get_stream cl bucket key h srv) (local_get_stream key h fs)"
proof -
  have opens: "s3_open cl = Inr ()"
    and writes: "fst (s3_put_object cl bucket key data srv) = Inr ()" "objs (snd (s3_put_object cl bucket key data srv)) = (objs srv)(key \<mapsto> data)"
      "fst (s3_delete_object cl bucket key srv) = Inr ()" "objs (snd (s3_delete_object cl bucket key srv)) = (objs srv)(key := None)"
    using assms(1) by (simp_all add: s3_serves_def)
  have "s3_exists cl bucket key srv = Inr (st_exists key fs)
    \<and> map_sum (\<lambda>_. ()) id (s3_get_size cl bucket key srv) = map_sum (\<lambda>_. ()) id (st_get_size key fs)
    \<and> map_sum (\<lambda>_. ()) id (s3_get_bytes cl bucket key srv) = map_sum (\<lambda>_. ()) id (st_get_bytes key fs)"
  proof (cases "objs srv key")
    case None
    then have "s3_head_object cl bucket key srv = Inl (S3Error (Some 404))" "s3_get_object cl bucket key None srv = Inl (S3Error (Some 404))"
      using assms(1) by (simp_all add: s3_serves_def)
    with None assms(2,3) opens show ?thesis
      by (simp add: s3_exists_def s3_get_size_def s3_get_bytes_def s3_read_def st_exists_def st_get_size_def st_get_bytes_def)
  next
    case (Some d)
    with assms(1) obtain resp where "s3_head_object cl bucket key srv = Inr (int (length d))"
      "s3_get_object cl bucket key None srv = Inr resp" "s3_body resp = d"
      unfolding s3_serves_def by blast
    with Some assms(2,3) opens show ?thesis
      by (simp add: s3_exists_def s3_get_size_def s3_get_bytes_def s3_read_def st_exists_def st_get_size_def st_get_bytes_def)
  qed
  with writes assms(2,3) opens s3_streams_alike [OF assms(1,2)] show ?thesis
    by (simp add: Let_def s3_put_def s3_delete_def s3_write_def st_put_def st_delete_def)
qed

text \<open>A server that keeps the promises: it reads the range headers the backend writes.\<close>

definition sample_s3 :: "(string \<Rightarrow> bytes option) s3_client" where
  "sample_s3 = \<lparr>s3_open = Inr (),
     s3_put_object = (\<lambda>_ k d s. (Inr (), s(k \<mapsto> d))), s3_delete_object = (\<lambda>_ k s. (Inr (), s(k := None))),
     s3_head_object = (\<lambda>_ k s. case s k of None \<Rightarrow> Inl (S3Error (Some 404)) | Some d \<Rightarrow> Inr (int (length d))),
     s3_get_object = (\<lambda>_ k h s. case s k of
        None \<Rightarrow> Inl (S3Error (Some 404))
      | Some d \<Rightarrow> (case h of
          None \<Rightarrow> Inr \<lparr>s3_content_length = Some (int (length d)), s3_content_range = None, s3_content_type = None, s3_body = d\<rparr>
        | Some text \<Rightarrow> (case find (\<lambda>r. br_header_value r = text)
              (concat (map (\<lambda>a. map (\<lambda>e. \<lparr>br_start = int a, br_end = int e\<rparr>) [a..<length d]) [0..<length d])) of
            None \<Rightarrow> Inl (S3Error (Some 416))
          | Some r \<Rightarrow> Inr \<lparr>s3_content_length = Some (br_end r - br_start r + 1),
              s3_content_range = Some (br_content_range_value r @ ''/'' @ show_int (int (length d))), s3_content_type = None,
              s3_body = take (nat (br_end r - br_start r + 1)) (drop (nat (br_start r)) d)\<rparr>))),
     s3_head_bucket = (\<lambda>_ _. Inr ()), s3_create_bucket = (\<lambda>_ s. (Inr (), s))\<rparr>"

lemma br_header_value_inj:
  assumes "br_header_value q = br_header_value r" "0 \<le> br_start q" "0 \<le> br_end q" "0 \<le> br_start r" "0 \<le> br_end r"
  shows "q = r"
proof -
  let ?t = "\<lambda>r. show_nat (nat (br_start r)) @ CHR ''-'' # show_nat (nat (br_end r))"
  have "?t q = ?t r" using assms by (simp add: br_header_value_def show_int_def)
  then have "partition_at (CHR ''-'') (?t q) = partition_at (CHR ''-'') (?t r)" by (rule arg_cong)
  then have "show_nat (nat (br_start q)) = show_nat (nat (br_start r))" "show_nat (nat (br_end q)) = show_nat (nat (br_end r))"
    by (simp_all add: partition_at_found [OF decimal_not_sep(1)])
  with assms show ?thesis by (cases q; cases r) (simp add: eq_nat_nat_iff)
qed

lemma sample_s3_serves: "s3_serves sample_s3 b id"
proof -
  have part: "find (\<lambda>q. br_header_value q = br_header_value r)
      (concat (map (\<lambda>a. map (\<lambda>e. \<lparr>br_start = int a, br_end = int e\<rparr>) [a..<n]) [0..<n])) = Some r"
    if r: "0 \<le> br_start r" "br_start r \<le> br_end r" "br_end r < int n" for r n
  proof -
    let ?rs = "concat (map (\<lambda>a. map (\<lambda>e. \<lparr>br_start = int a, br_end = int e\<rparr>) [a..<n]) [0..<n])"
    obtain a e where ae: "r = \<lparr>br_start = int a, br_end = int e\<rparr>" "a \<le> e" "e < n"
    proof
      show "r = \<lparr>br_start = int (nat (br_start r)), br_end = int (nat (br_end r))\<rparr>" using r by simp
      show "nat (br_start r) \<le> nat (br_end r)" "nat (br_end r) < n" using r by linarith+
    qed
    then have "r \<in> set ?rs" by (auto intro!: bexI [of _ a])
    then obtain q where q: "find (\<lambda>q. br_header_value q = br_header_value r) ?rs = Some q"
      by (cases "find (\<lambda>q. br_header_value q = br_header_value r) ?rs") (auto simp: find_None_iff)
    then have in_rs: "q \<in> set ?rs" and "br_header_value q = br_header_value r" unfolding find_Some_iff using nth_mem by blast+
    moreover have "0 \<le> br_start q \<and> 0 \<le> br_end q" using in_rs by auto
    ultimately have "q = r" using r by (intro br_header_value_inj) auto
    with q show ?thesis by simp
  qed
  show ?thesis by (simp add: s3_serves_def sample_s3_def part)
qed

theorem s3_backend_agrees_with_filesystem_witness:
  "same_stream (s3_get_stream sample_s3 ''b'' ''k'' (Some ''bytes=1-2'') (\<lambda>k. if k = ''k'' then Some ''data'' else None))
     (local_get_stream ''k'' (Some ''bytes=1-2'') \<lparr>st_objects = (\<lambda>k. if k = ''k'' then Some ''data'' else None), st_faulty = (\<lambda>_. False), st_torn = (\<lambda>_. None)\<rparr>)
   \<and> map_sum id ss_body (local_get_stream ''k'' (Some ''bytes=1-2'')
        \<lparr>st_objects = (\<lambda>k. if k = ''k'' then Some ''data'' else None), st_faulty = (\<lambda>_. False), st_torn = (\<lambda>_. None)\<rparr>) = Inr [''at'']"
proof -
  let ?o = "\<lambda>k. if k = ''k'' then Some ''data'' else None"
  let ?fs = "\<lparr>st_objects = ?o, st_faulty = (\<lambda>_. False), st_torn = (\<lambda>_. None)\<rparr>"
  have "same_stream (s3_get_stream sample_s3 ''b'' ''k'' (Some ''bytes=1-2'') ?o) (local_get_stream ''k'' (Some ''bytes=1-2'') ?fs)"
    using s3_backend_agrees_with_filesystem [where cl = sample_s3 and bucket = "''b''" and objs = id and fs = ?fs and srv = ?o
        and key = "''k''" and data = "[]" and h = "Some ''bytes=1-2''", OF sample_s3_serves] by (simp add: Let_def)
  moreover have "normalize_byte_range (Some ''bytes=1-2'') 4 = Inr (Some \<lparr>br_start = 1, br_end = 2\<rparr>)" by code_simp
  then have "map_sum id ss_body (local_get_stream ''k'' (Some ''bytes=1-2'') ?fs) = Inr [''at'']"
    by (simp add: local_get_stream_def st_get_bytes_def Let_def chunk_size_def read_chunks.simps)
  ultimately show ?thesis by blast
qed

end
