(* ===== verification/Origins.thy ===== *)
theory Origins
  imports Auth_Flow
begin

text \<open>
  Where a request comes from and under which address the program is seen: \<^verbatim>\<open>src/imghost/public_origin.py\<close>, \<^verbatim>\<open>web/csrf.py\<close> and the client
  address of \<^verbatim>\<open>web/request_helpers.py\<close>. What \<^verbatim>\<open>ipaddress\<close> makes of an address and which locations \<^verbatim>\<open>urlsplit\<close> refuses for
  their characters or for what they have in brackets are parameters.
\<close>

record net_env =
  ne_refused :: "string \<Rightarrow> bool"
  ne_ip_address :: "string \<Rightarrow> string option"
  ne_in_network :: "string \<Rightarrow> string \<Rightarrow> bool"

record origin_settings =
  st_base_url :: string
  st_public_origin_enabled :: bool
  st_trusted_public_origins :: "string list"
  st_trusted_proxy_cidrs_enabled :: bool
  st_trusted_proxy_cidrs :: "string list"

record web_request =
  wr_method :: string
  wr_path :: string
  wr_scheme :: string
  wr_netloc :: string
  wr_header :: "string \<Rightarrow> string option"
  wr_client_host :: "string option"
  wr_http :: http_request

section \<open>Splitting an address\<close>

record split_url =
  su_scheme :: string
  su_netloc :: string
  su_path :: string
  su_query :: string
  su_fragment :: string

definition is_ascii_alpha :: "char \<Rightarrow> bool" where
  "is_ascii_alpha c = (let n = (of_char c :: nat) in (65 \<le> n \<and> n \<le> 90) \<or> (97 \<le> n \<and> n \<le> 122))"

definition scheme_char :: "char \<Rightarrow> bool" where
  "scheme_char c \<longleftrightarrow> is_ascii_alpha c \<or> is_decimal c \<or> c \<in> set ''+-.''"

text \<open>What comes after the last separator, with what comes before it when there is one: \<^verbatim>\<open>rpartition\<close>.\<close>

definition after_last :: "char \<Rightarrow> string \<Rightarrow> string" where
  "after_last c s = (case rsplit_last c s of Some (_, x) \<Rightarrow> x | None \<Rightarrow> s)"

definition split_scheme :: "string \<Rightarrow> string \<times> string" where
  "split_scheme url = (case partition_at CHR '':'' url of (a, found, b) \<Rightarrow>
     if found \<and> a \<noteq> [] \<and> is_ascii_alpha (hd url) \<and> list_all scheme_char a then (py_lower a, b) else ([], url))"

text \<open>With a bracket, a location has something in brackets at the start of its host, followed by nothing or a port.\<close>

definition brackets_ok :: "string \<Rightarrow> bool" where
  "brackets_ok netloc =
     (if CHR ''['' \<notin> set netloc \<and> CHR '']'' \<notin> set netloc then True
      else if CHR ''['' \<notin> set netloc \<or> CHR '']'' \<notin> set netloc then False
      else (case partition_at CHR ''['' (after_last CHR ''@'' netloc) of (before, opened, rest) \<Rightarrow>
        if opened then before = [] \<and> (case partition_at CHR '']'' rest of (_, _, port) \<Rightarrow> port = [] \<or> starts_with '':'' port) else True))"

definition urlsplit :: "net_env \<Rightarrow> string \<Rightarrow> err + split_url" where
  "urlsplit N raw =
     (let url = filter (\<lambda>c. c \<notin> {CHR 0x09, CHR 0x0A, CHR 0x0D}) (lstrip_on (\<lambda>c. (of_char c :: nat) \<le> 32) raw) in
      case split_scheme url of (scheme, rest) \<Rightarrow>
        let located = (take 2 rest = ''//'');
            netloc = (if located then takeWhile (\<lambda>c. c \<notin> set ''/?#'') (drop 2 rest) else []);
            tail = (if located then dropWhile (\<lambda>c. c \<notin> set ''/?#'') (drop 2 rest) else rest) in
        if \<not> brackets_ok netloc then Inl (ValueError ''Invalid IPv6 URL'')
        else if ne_refused N netloc then Inl (ValueError ''netloc'')
        else (case partition_at CHR ''#'' tail of (before, _, fragment) \<Rightarrow>
          case partition_at CHR ''?'' before of (path, _, query) \<Rightarrow>
            Inr \<lparr>su_scheme = scheme, su_netloc = netloc, su_path = path, su_query = query, su_fragment = fragment\<rparr>))"

text \<open>The parts of a location. An absent name, password or host and an empty one are used alike.\<close>

definition su_username :: "split_url \<Rightarrow> string" where
  "su_username u = (case rsplit_last CHR ''@'' (su_netloc u) of
     None \<Rightarrow> [] | Some (info, _) \<Rightarrow> fst (partition_at CHR '':'' info))"

definition su_password :: "split_url \<Rightarrow> string" where
  "su_password u = (case rsplit_last CHR ''@'' (su_netloc u) of
     None \<Rightarrow> [] | Some (info, _) \<Rightarrow> snd (snd (partition_at CHR '':'' info)))"

definition su_hostinfo :: "split_url \<Rightarrow> string \<times> string" where
  "su_hostinfo u = (let hostinfo = after_last CHR ''@'' (su_netloc u) in
     case partition_at CHR ''['' hostinfo of (_, opened, rest) \<Rightarrow>
       if opened then (case partition_at CHR '']'' rest of (host, _, after) \<Rightarrow>
         (case partition_at CHR '':'' after of (_, _, port) \<Rightarrow> (host, port)))
       else (case partition_at CHR '':'' hostinfo of (host, _, port) \<Rightarrow> (host, port)))"

text \<open>The zone of an address keeps its case.\<close>

definition su_hostname :: "split_url \<Rightarrow> string" where
  "su_hostname u = (case partition_at CHR ''%'' (fst (su_hostinfo u)) of (host, percent, zone) \<Rightarrow>
     py_lower host @ (if percent then CHR ''%'' # zone else []))"

definition su_port :: "split_url \<Rightarrow> err + int option" where
  "su_port u = (let port = snd (su_hostinfo u) in
     if port = [] then Inr None
     else if list_all is_decimal port \<and> decimal_value port \<le> 65535 then Inr (Some (decimal_value port))
     else Inl (ValueError ''Port out of range 0-65535''))"

section \<open>Origins\<close>

definition normalize_origin :: "net_env \<Rightarrow> string \<Rightarrow> err + string option" where
  "normalize_origin N origin =
     (let candidate = py_strip origin in
      if candidate = [] then Inr None
      else and_then (urlsplit N candidate) (\<lambda>u.
        if su_scheme u \<notin> {''http'', ''https''} then Inr None
        else if su_username u \<noteq> [] \<or> su_password u \<noteq> [] \<or> su_path u \<notin> {[], ''/''} \<or> su_query u \<noteq> [] \<or> su_fragment u \<noteq> [] then Inr None
        else let host = py_lower (py_strip (su_hostname u)) in
          if host = [] \<or> (\<exists>c\<in>set host. c \<in> set ''/?#@'') then Inr None
          else (case su_port u of
             Inl _ \<Rightarrow> Inr None
           | Inr port \<Rightarrow>
               let port = (if (su_scheme u = ''http'' \<and> port = Some 80) \<or> (su_scheme u = ''https'' \<and> port = Some 443) then None else port) in
               Inr (Some (su_scheme u @ ''://'' @ (case port of None \<Rightarrow> host | Some p \<Rightarrow> host @ '':'' @ show_int p))))))"

definition trusted_origin_set :: "net_env \<Rightarrow> origin_settings \<Rightarrow> err + string set" where
  "trusted_origin_set N g =
     and_then (map_results (normalize_origin N) (st_trusted_public_origins g)) (\<lambda>configured.
     and_then (normalize_origin N (st_base_url g)) (\<lambda>fallback.
     Inr (set (List.map_filter id configured) \<union> set_option fallback)))"

definition header_or :: "web_request \<Rightarrow> string \<Rightarrow> string" where
  "header_or rq name = (case wr_header rq name of Some v \<Rightarrow> v | None \<Rightarrow> [])"

definition header_first_value :: "web_request \<Rightarrow> string \<Rightarrow> string" where
  "header_first_value rq name = py_strip (fst (partition_at CHR '','' (header_or rq name)))"

definition request_peer_host :: "web_request \<Rightarrow> string option" where
  "request_peer_host rq = (case wr_client_host rq of
     None \<Rightarrow> None | Some h \<Rightarrow> if py_strip h \<noteq> [] then Some (py_strip h) else None)"

definition request_uses_trusted_proxy_headers :: "net_env \<Rightarrow> origin_settings \<Rightarrow> web_request \<Rightarrow> bool" where
  "request_uses_trusted_proxy_headers N g rq =
     (if \<not> st_trusted_proxy_cidrs_enabled g then True
      else (case request_peer_host rq of
        None \<Rightarrow> False
      | Some h \<Rightarrow> (case ne_ip_address N h of None \<Rightarrow> False | Some ip \<Rightarrow> (\<exists>cidr\<in>set (st_trusted_proxy_cidrs g). ne_in_network N ip cidr))))"

definition trusted_forwarded_client_ip :: "net_env \<Rightarrow> origin_settings \<Rightarrow> web_request \<Rightarrow> string option" where
  "trusted_forwarded_client_ip N g rq =
     (if \<not> request_uses_trusted_proxy_headers N g rq then None
      else (case List.map_filter (\<lambda>name. let v = header_first_value rq name in if v = [] then None else ne_ip_address N v)
          [''CF-Connecting-IP'', ''X-Real-IP'', ''X-Forwarded-For''] of
        [] \<Rightarrow> None | ip # _ \<Rightarrow> Some ip))"

definition client_ip :: "net_env \<Rightarrow> origin_settings \<Rightarrow> web_request \<Rightarrow> string" where
  "client_ip N g rq = (case trusted_forwarded_client_ip N g rq of
     Some ip \<Rightarrow> ip | None \<Rightarrow> or_str (wr_client_host rq) ''unknown'')"

definition request_origin :: "net_env \<Rightarrow> web_request \<Rightarrow> err + string option" where
  "request_origin N rq =
     (let scheme = py_lower (py_strip (wr_scheme rq)); sent = py_strip (header_or rq ''Host'');
          host = (if sent = [] then wr_netloc rq else sent)
      in if scheme = [] \<or> host = [] then Inr None else normalize_origin N (scheme @ ''://'' @ host))"

definition forwarded_origin :: "net_env \<Rightarrow> web_request \<Rightarrow> err + string option" where
  "forwarded_origin N rq =
     (let proto = py_lower (header_first_value rq ''X-Forwarded-Proto''); host = header_first_value rq ''X-Forwarded-Host''
      in if proto = [] \<or> host = [] then Inr None else normalize_origin N (proto @ ''://'' @ host))"

definition trusted_forwarded_origin :: "net_env \<Rightarrow> origin_settings \<Rightarrow> web_request \<Rightarrow> err + string option" where
  "trusted_forwarded_origin N g rq =
     (if request_uses_trusted_proxy_headers N g rq then forwarded_origin N rq else Inr None)"

text \<open>The warnings of \<^verbatim>\<open>public_base_url\<close> are left out; to write one, it reads the forwarded origin of a proxy that is not trusted.\<close>

definition public_base_url :: "net_env \<Rightarrow> origin_settings \<Rightarrow> web_request \<Rightarrow> err + string" where
  "public_base_url N g rq =
     and_then (trusted_origin_set N g) (\<lambda>trusted.
     and_then (normalize_origin N (st_base_url g)) (\<lambda>normal.
     let fallback = or_str normal (st_base_url g) in
     and_then (trusted_forwarded_origin N g rq) (\<lambda>forwarded.
     and_then (if forwarded = None then forwarded_origin N rq else Inr None) (\<lambda>_.
     case forwarded of
       Some f \<Rightarrow> Inr (if \<not> st_public_origin_enabled g \<or> f \<in> trusted then f else fallback)
     | None \<Rightarrow> and_then (request_origin N rq) (\<lambda>own.
         Inr (case own of
             Some o' \<Rightarrow> if \<not> st_public_origin_enabled g \<or> o' \<in> trusted then o' else fallback
           | None \<Rightarrow> fallback))))))"

section \<open>Requests from other sites\<close>

definition referer_origin :: "net_env \<Rightarrow> string option \<Rightarrow> err + string option" where
  "referer_origin N referer =
     (let candidate = py_strip (or_str referer []) in
      if candidate = [] then Inr None
      else and_then (urlsplit N candidate) (\<lambda>u.
        if su_scheme u = [] \<or> su_netloc u = [] then Inr None else normalize_origin N (su_scheme u @ ''://'' @ su_netloc u)))"

definition request_uses_bearer_auth :: "web_request \<Rightarrow> bool" where
  "request_uses_bearer_auth rq = (bearer_token (rq_authorization (wr_http rq)) \<noteq> None)"

definition csrf_trusted_set :: "net_env \<Rightarrow> origin_settings \<Rightarrow> web_request \<Rightarrow> err + string set" where
  "csrf_trusted_set N g rq =
     and_then (trusted_origin_set N g) (\<lambda>trusted.
       if st_public_origin_enabled g then Inr trusted
       else and_then (request_origin N rq) (\<lambda>own. and_then (trusted_forwarded_origin N g rq) (\<lambda>forwarded.
         Inr (trusted \<union> set_option own \<union> set_option forwarded))))"

definition has_trusted_csrf_source :: "net_env \<Rightarrow> origin_settings \<Rightarrow> web_request \<Rightarrow> err + bool" where
  "has_trusted_csrf_source N g rq =
     and_then (csrf_trusted_set N g rq) (\<lambda>trusted.
     and_then (normalize_origin N (header_or rq ''Origin'')) (\<lambda>origin.
     case origin of
       Some x \<Rightarrow> Inr (x \<in> trusted)
     | None \<Rightarrow> and_then (referer_origin N (wr_header rq ''Referer'')) (\<lambda>referer.
         Inr (case referer of Some x \<Rightarrow> x \<in> trusted | None \<Rightarrow> False))))"

definition csrf_blocked :: err where
  "csrf_blocked = HTTPException 403 ''CSRF protection blocked the request.''"

text \<open>The middleware around the handlers.\<close>

definition enforce_session_csrf ::
  "net_env \<Rightarrow> origin_settings \<Rightarrow> web_request \<Rightarrow> ('s \<Rightarrow> (err + 'a) \<times> 's) \<Rightarrow> 's \<Rightarrow> (err + 'a) \<times> 's" where
  "enforce_session_csrf N g rq call_next st =
     (if wr_method rq \<notin> {''POST'', ''PATCH'', ''DELETE''} then call_next st
      else if wr_path rq \<in> {''/api/v1/auth/login'', ''/api/v1/auth/register''} then call_next st
      else if request_uses_bearer_auth rq then call_next st
      else if \<not> truthy (rq_session_cookie (wr_http rq)) then call_next st
      else (case has_trusted_csrf_source N g rq of
        Inl e \<Rightarrow> (Inl e, st)
      | Inr True \<Rightarrow> call_next st
      | Inr False \<Rightarrow> (Inl csrf_blocked, st)))"

end
