(* ===== verification/Origin_Props.thy ===== *)
theory Origin_Props
  imports Origins Auth_Flow_Props
begin

text \<open>
  Which origins count: under which address the program presents itself, and from where a browser may use its session.
\<close>

section \<open>Known origins\<close>

text \<open>An origin that the configuration names, in its normal form.\<close>

definition configured_origin :: "net_env \<Rightarrow> origin_settings \<Rightarrow> string \<Rightarrow> bool" where
  "configured_origin N g x \<longleftrightarrow> (\<exists>known\<in>set (st_base_url g # st_trusted_public_origins g). normalize_origin N known = Inr (Some x))"

lemma map_results_mem:
  "map_results f xs = Inr ys \<Longrightarrow> Some y \<in> set ys \<longleftrightarrow> (\<exists>x\<in>set xs. f x = Inr (Some y))"
  by (induction xs arbitrary: ys) auto

lemma trusted_origin_set_iff:
  assumes "trusted_origin_set N g = Inr S"
  shows "x \<in> S \<longleftrightarrow> configured_origin N g x"
proof -
  from assms obtain configured fallback where c: "map_results (normalize_origin N) (st_trusted_public_origins g) = Inr configured"
    and f: "normalize_origin N (st_base_url g) = Inr fallback" and S: "S = set (List.map_filter id configured) \<union> set_option fallback"
    by (auto simp: trusted_origin_set_def)
  have "x \<in> set (List.map_filter id configured) \<longleftrightarrow> Some x \<in> set configured"
    by (force simp: List.map_filter_def)
  with map_results_mem [OF c] f S show ?thesis by (cases fallback) (auto simp: configured_origin_def)
qed

lemma csrf_trusted_set_cases:
  assumes "csrf_trusted_set N g rq = Inr S" "x \<in> S"
  shows "configured_origin N g x \<or> \<not> st_public_origin_enabled g
    \<and> (request_origin N rq = Inr (Some x) \<or> trusted_forwarded_origin N g rq = Inr (Some x))"
  using assms trusted_origin_set_iff by (auto simp: csrf_trusted_set_def split: if_splits)

text \<open>Where a page was when it sent a request: what its \<^verbatim>\<open>Origin\<close> says, or without one its \<^verbatim>\<open>Referer\<close>.\<close>

definition sent_from :: "net_env \<Rightarrow> web_request \<Rightarrow> string \<Rightarrow> bool" where
  "sent_from N rq x \<longleftrightarrow> normalize_origin N (header_or rq ''Origin'') = Inr (Some x)
     \<or> normalize_origin N (header_or rq ''Origin'') = Inr None \<and> referer_origin N (wr_header rq ''Referer'') = Inr (Some x)"

lemma trusted_source:
  assumes "has_trusted_csrf_source N g rq = Inr True"
  shows "\<exists>x. sent_from N rq x \<and> (configured_origin N g x \<or> \<not> st_public_origin_enabled g
    \<and> (request_origin N rq = Inr (Some x) \<or> trusted_forwarded_origin N g rq = Inr (Some x)))"
proof -
  from assms obtain S origin where S: "csrf_trusted_set N g rq = Inr S" and o': "normalize_origin N (header_or rq ''Origin'') = Inr origin"
    and rest: "(case origin of Some x \<Rightarrow> Inr (x \<in> S)
      | None \<Rightarrow> and_then (referer_origin N (wr_header rq ''Referer'')) (\<lambda>referer.
         Inr (case referer of Some x \<Rightarrow> x \<in> S | None \<Rightarrow> False))) = (Inr True :: err + bool)"
    by (auto simp: has_trusted_csrf_source_def)
  obtain x where "sent_from N rq x" "x \<in> S"
    using o' rest by (cases origin) (auto simp: sent_from_def split: option.splits)
  with csrf_trusted_set_cases [OF S] show ?thesis by blast
qed

text \<open>C16: No request that another site makes a browser send, to change something, acts in the name of the browser's user: whoever a
  \<^verbatim>\<open>POST\<close>, \<^verbatim>\<open>PATCH\<close> or \<^verbatim>\<open>DELETE\<close> (but for login and registration) is taken to be from behind the middleware has sent an API key
  along, or the page that sent it has an origin that the configuration names, in whatever way either is written; only
  where public origins are switched off may it be the address the request itself went to, or came through.\<close>

theorem cross_site_requests_ride_no_session:
  assumes "enforce_session_csrf N g rq (\<lambda>s. case authenticated_principal V k required (wr_http rq) s of ((x, _), s1) \<Rightarrow> (x, s1)) st
      = (Inr (Some p), st')"
    and "wr_method rq \<in> {''POST'', ''PATCH'', ''DELETE''}" "wr_path rq \<notin> {''/api/v1/auth/login'', ''/api/v1/auth/register''}"
  shows "pr_raw_api_key p \<noteq> None \<and> pr_raw_api_key p = bearer_token (rq_authorization (wr_http rq))
    \<or> (\<exists>x. sent_from N rq x \<and> (configured_origin N g x \<or> \<not> st_public_origin_enabled g
        \<and> (request_origin N rq = Inr (Some x) \<or> trusted_forwarded_origin N g rq = Inr (Some x))))"
proof (cases "bearer_token (rq_authorization (wr_http rq))")
  case (Some token)
  with assms have "map_sum id Some (fst (api_key_principal V k (rq_ip (wr_http rq)) token st)) = Inr (Some p)"
    by (auto simp: enforce_session_csrf_def request_uses_bearer_auth_def authenticated_principal_def split: prod.splits)
  then obtain s where "api_key_principal V k (rq_ip (wr_http rq)) token st = (Inr p, s)"
    by (cases "api_key_principal V k (rq_ip (wr_http rq)) token st"; cases "fst (api_key_principal V k (rq_ip (wr_http rq)) token st)") auto
  then have "pr_raw_api_key p = Some token"
    by (auto simp: api_key_principal_def io_defs split: prod.splits sum.splits option.splits if_splits)
  with Some show ?thesis by simp
next
  case None
  have "truthy (rq_session_cookie (wr_http rq))"
    using assms None by (auto simp: enforce_session_csrf_def request_uses_bearer_auth_def authenticated_principal_def split: if_splits)
  with assms None have "has_trusted_csrf_source N g rq = Inr True"
    by (auto simp: enforce_session_csrf_def request_uses_bearer_auth_def split: sum.splits bool.splits)
  from trusted_source [OF this] show ?thesis by blast
qed

section \<open>The address of the program\<close>

text \<open>With public origins on, links name an origin of the configuration, or its base URL as it is written.\<close>

lemma base_url_is_configured:
  assumes "public_base_url N g rq = Inr url" "st_public_origin_enabled g"
  shows "configured_origin N g url \<or> url = st_base_url g"
proof -
  from assms obtain S normal where S: "trusted_origin_set N g = Inr S" and n: "normalize_origin N (st_base_url g) = Inr normal"
    and cases: "url \<in> S \<or> url = or_str normal (st_base_url g)"
    by (auto simp: public_base_url_def Let_def split: option.splits if_splits)
  from cases show ?thesis
    using trusted_origin_set_iff [OF S] n by (cases normal) (auto simp: configured_origin_def or_str_def)
qed

definition plain_net :: net_env where
  "plain_net = \<lparr>ne_refused = (\<lambda>_. False), ne_ip_address = (\<lambda>_. None), ne_in_network = (\<lambda>_ _. False)\<rparr>"

text \<open>The brackets of an IPv6 host are lost: two origins have one normal form, which is no origin any more.\<close>

lemma ipv6_origins_collide:
  assumes "\<And>s. \<not> ne_refused N s"
  shows "normalize_origin N ''http://[::1]:8'' = Inr (Some ''http://::1:8'')"
    "normalize_origin N ''http://[::1:8]'' = Inr (Some ''http://::1:8'')"
    "normalize_origin N ''http://::1:8'' \<noteq> Inr (Some ''http://::1:8'')"
proof -
  have same: "ne_refused N = ne_refused plain_net" using assms by (auto simp: plain_net_def)
  have "urlsplit N = urlsplit plain_net" unfolding urlsplit_def [abs_def] same ..
  then have N: "normalize_origin N x = normalize_origin plain_net x" for x by (simp only: normalize_origin_def)
  show "normalize_origin N ''http://[::1]:8'' = Inr (Some ''http://::1:8'')"
    "normalize_origin N ''http://[::1:8]'' = Inr (Some ''http://::1:8'')"
    "normalize_origin N ''http://::1:8'' \<noteq> Inr (Some ''http://::1:8'')"
    unfolding N by code_simp+
qed

section \<open>Example\<close>

definition sample_origins :: origin_settings where
  "sample_origins = \<lparr>st_base_url = ''http://h:80/'', st_public_origin_enabled = True, st_trusted_public_origins = [''https://b''],
     st_trusted_proxy_cidrs_enabled = False, st_trusted_proxy_cidrs = []\<rparr>"

definition sample_post :: web_request where
  "sample_post = \<lparr>wr_method = ''POST'', wr_path = ''/x'', wr_scheme = ''http'', wr_netloc = ''h'',
     wr_header = [''Origin'' \<mapsto> ''HTTP://H''], wr_client_host = None, wr_http = cookie_request sample_token\<rparr>"

theorem cross_site_requests_ride_no_session_witness:
  "\<exists>x. sent_from plain_net sample_post x \<and> configured_origin plain_net sample_origins x"
proof -
  let ?run = "\<lambda>s. case authenticated_principal sample_env (\<lambda>_. 5) True (wr_http sample_post) s of ((x, _), s1) \<Rightarrow> (x, s1)"
  have "has_trusted_csrf_source plain_net sample_origins (sample_post\<lparr>wr_http := cookie_request []\<rparr>) = Inr True" by code_simp
  then have "has_trusted_csrf_source plain_net sample_origins sample_post = Inr True"
    by (simp add: has_trusted_csrf_source_def csrf_trusted_set_def header_or_def sample_post_def sample_origins_def)
  moreover have "wr_http sample_post = cookie_request sample_token" "wr_method sample_post = ''POST''" "wr_path sample_post = ''/x''"
    by (simp_all add: sample_post_def)
  ultimately have run: "enforce_session_csrf plain_net sample_origins sample_post ?run (sample_site (sample_world []))
      = (Inr (Some \<lparr>pr_user = sample_user ''u'' False, pr_raw_api_key = None\<rparr>), sample_site (sample_world []))"
    by (simp add: enforce_session_csrf_def sample_principal)
  have "wr_method sample_post \<in> {''POST'', ''PATCH'', ''DELETE''}" "wr_path sample_post \<notin> {''/api/v1/auth/login'', ''/api/v1/auth/register''}"
    by (simp_all add: sample_post_def)
  from cross_site_requests_ride_no_session [OF run this] show ?thesis by (auto simp: sample_origins_def)
qed

end
