(* ===== verification/Spec2Isabelle.thy ===== *)
theory Spec2Isabelle
  imports Prune_Props Storage_Props Config_Props Rate_Limit_Props Auth_Limit_Props Task_Props Scheduler
    Upload_Props Thumbnail_Props Oauth_Props Usage_Props Service_Props Token_Props Session_Props Redis_Queue_Props Worker_Pool Sharex_Props
    Serving_Props Auth_Flow_Props Zip_Bridge Listing_Props Web_Props Page_Props S3_Storage Origin_Props
begin

text \<open>
  \<^bold>\<open>imghost\<close> is an image host: a FastAPI program over PostgreSQL, an object store (a directory or an S3 bucket) and, if configured,
  Redis. This library translates its Python code (\<^verbatim>\<open>src/src/imghost\<close>; the paths below are relative to it) into HOL functions on
  explicit states and proves what makes it correct. The properties, numbered C1 to C40 in their order of importance, each follow a text
  that states them.

  \<^bold>\<open>How the program is put together.\<close> The handlers under \<^verbatim>\<open>web/\<close> find out who a request is from (\<^verbatim>\<open>auth_context.py\<close>, over
  \<^verbatim>\<open>sessions.py\<close>, API keys and \<^verbatim>\<open>csrf.py\<close>), ask a limiter, and call one of two services: \<^verbatim>\<open>UploadService\<close> (albums, media, thumbnails,
  the retention job) and \<^verbatim>\<open>AccountService\<close> (users, passwords, keys, OAuth links). The services run queries of the repositories,
  write to the object store, emit events on a bus and read the settings of \<^verbatim>\<open>runtime_config.py\<close>. Listeners to the events enqueue
  background tasks, which a queue (inline, in-process workers, or lists in Redis) runs again through the services; a scheduler with a
  lease in Redis enqueues the retention job.

  \<^bold>\<open>The state.\<close> A \<open>db\<close> (\<^verbatim>\<open>Database\<close>) is the tables of \<^verbatim>\<open>db/init/001-init.sql\<close>, at the repository's root, as lists of records with the schema's keys,
  foreign keys and cascades; a \<open>store\<close> (\<^verbatim>\<open>Storage\<close>) maps keys to bytes and says which operations raise; a \<open>world\<close> (\<^verbatim>\<open>World\<close>) joins the
  two with the audit rows and the events emitted; a \<open>site\<close> (\<^verbatim>\<open>Auth_Flow\<close>) joins the world with the rows of settings, the
  limiters, and the handle on Redis with the server behind it. Operations take the state and return it, with \<open>err + 'a\<close> for what Python raises or returns.

  \<^bold>\<open>Theories and code.\<close>
  \<^item> \<^verbatim>\<open>Prelude\<close>, \<^verbatim>\<open>Paths\<close>, \<^verbatim>\<open>Encoding\<close>, \<^verbatim>\<open>Json\<close>, \<^verbatim>\<open>Json_Write\<close>: time, exceptions as values (\<open>err\<close>), and the parts of Python's strings,
    \<^verbatim>\<open>pathlib\<close>, Base64 and \<^verbatim>\<open>json\<close> that the code uses, with the generic lemmas on keyed lists. \<^verbatim>\<open>Ids\<close> is \<^verbatim>\<open>ids.py\<close>.
  \<^item> \<^verbatim>\<open>Models\<close>, \<^verbatim>\<open>World\<close>: \<^verbatim>\<open>models.py\<close> and \<^verbatim>\<open>events.py\<close>. \<^verbatim>\<open>Database\<close>, \<^verbatim>\<open>User_Repo\<close>: every query of \<^verbatim>\<open>repository_media.py\<close>,
    \<^verbatim>\<open>repository_users.py\<close>, \<^verbatim>\<open>repository_mapping.py\<close>. \<^verbatim>\<open>Db_Facts\<close>: each keeps the constraints of the schema (\<open>db_wf\<close>).
  \<^item> \<^verbatim>\<open>Storage\<close>, \<^verbatim>\<open>Storage_Props\<close>, \<^verbatim>\<open>S3_Storage\<close>: \<^verbatim>\<open>storage.py\<close>. The locale \<open>object_store\<close> is what the services rely on; C18 is about ranged
    reads, C17 says that the two backends agree.
  \<^item> \<^verbatim>\<open>Albums\<close>, \<^verbatim>\<open>Uploads\<close>, \<^verbatim>\<open>Thumbnails\<close>, \<^verbatim>\<open>Listings\<close>: \<^verbatim>\<open>service.py\<close>, \<^verbatim>\<open>processors.py\<close> and the recovery of \<^verbatim>\<open>app_state.py\<close>. Their properties are
    in \<^verbatim>\<open>Album_Props\<close> (C7, C8), \<^verbatim>\<open>Prune_Props\<close> (C9, C10), \<^verbatim>\<open>Upload_Props\<close> (C21 to C23), \<^verbatim>\<open>Thumbnail_Props\<close> (C24), \<^verbatim>\<open>Listing_Props\<close> (C14).
    The locale \<open>upload_listener\<close> in \<^verbatim>\<open>Thumb_Facts\<close> is what an upload may assume of the listener to its event.
  \<^item> \<^verbatim>\<open>Accounts\<close>, \<^verbatim>\<open>Account_Facts\<close>, \<^verbatim>\<open>Account_Props\<close> (C25, C26), \<^verbatim>\<open>Oauth_Props\<close>, \<^verbatim>\<open>Usage_Props\<close> (C27, C28): \<^verbatim>\<open>account_service.py\<close> and the bootstrap
    administrator.
  \<^item> \<^verbatim>\<open>Runtime_Config\<close>, \<^verbatim>\<open>Config_Props\<close> (C11, C12): \<^verbatim>\<open>runtime_config.py\<close>.
  \<^item> \<^verbatim>\<open>Redis_Support\<close>: \<^verbatim>\<open>redis_support.py\<close>, the circuit breaker in front of a server that is a parameter. \<^verbatim>\<open>Rate_Limits\<close>,
    \<^verbatim>\<open>Rate_Limit_Props\<close> (C15), \<^verbatim>\<open>Auth_Limits\<close>, \<^verbatim>\<open>Auth_Limit_Props\<close>: \<^verbatim>\<open>rate_limits.py\<close> and \<^verbatim>\<open>auth_rate_limits.py\<close>, whose windows in memory
    share the locale \<open>sliding_window\<close>.
  \<^item> \<^verbatim>\<open>Task_Queue\<close>, \<^verbatim>\<open>Task_Props\<close> (C19), \<^verbatim>\<open>Worker_Pool\<close> (C20), \<^verbatim>\<open>Redis_Queue\<close>, \<^verbatim>\<open>Redis_Queue_Props\<close> (C30): \<^verbatim>\<open>tasks.py\<close> and
    \<^verbatim>\<open>task_catalog.py\<close>; the pool of workers is an inductive step relation with its history, and the program's three tasks are handlers that
    may put others into the queue. \<^verbatim>\<open>Scheduler\<close> (C29): \<^verbatim>\<open>scheduler.py\<close>, several schedulers on one server.
  \<^item> \<^verbatim>\<open>Tokens\<close>, \<^verbatim>\<open>Token_Props\<close> (C33, C34): \<^verbatim>\<open>sharex_delete.py\<close>, \<^verbatim>\<open>account_delete_reauth.py\<close>, \<^verbatim>\<open>oauth/state.py\<close>. \<^verbatim>\<open>Sessions\<close>,
    \<^verbatim>\<open>Session_Props\<close> (C35): \<^verbatim>\<open>sessions.py\<close>. \<^verbatim>\<open>Sharex_Flow\<close>, \<^verbatim>\<open>Sharex_Props\<close> (C31, C32): the deletion links of \<^verbatim>\<open>web/pages.py\<close>.
  \<^item> \<^verbatim>\<open>Serving\<close>, \<^verbatim>\<open>Serving_Props\<close> (C36, C37): \<^verbatim>\<open>web/media.py\<close>, \<^verbatim>\<open>web/media_helpers.py\<close> and the archive of an album. \<^verbatim>\<open>Zip_Bridge\<close> (C13):
    \<^verbatim>\<open>zip_streaming.py\<close>, two threads and a bounded queue in any interleaving.
  \<^item> \<^verbatim>\<open>Auth_Flow\<close>, \<^verbatim>\<open>Auth_Flow_Props\<close> (C38 to C40): \<^verbatim>\<open>web/auth_context.py\<close> and \<^verbatim>\<open>web/auth.py\<close>. \<^verbatim>\<open>Origins\<close>, \<^verbatim>\<open>Origin_Props\<close> (C16):
    \<^verbatim>\<open>public_origin.py\<close>, \<^verbatim>\<open>web/csrf.py\<close> and the client's address.
  \<^item> \<^verbatim>\<open>Service\<close>, \<^verbatim>\<open>Tidying\<close>, \<^verbatim>\<open>Service_Props\<close> (C2): the services as one transition system, and the gallery (albums with owner and items) that
    it refines.
  \<^item> \<^verbatim>\<open>Web_Public\<close>, \<^verbatim>\<open>Web_User\<close>, \<^verbatim>\<open>Web_Admin\<close>, \<^verbatim>\<open>Web_Oauth\<close>, \<^verbatim>\<open>Web_Pages\<close>: the handlers of \<^verbatim>\<open>web/public_api.py\<close>, \<^verbatim>\<open>user_api.py\<close>,
    \<^verbatim>\<open>admin_api.py\<close>, \<^verbatim>\<open>oauth.py\<close> (with the package \<^verbatim>\<open>oauth\<close>) and \<^verbatim>\<open>pages.py\<close> over the site. \<^verbatim>\<open>Web_Facts\<close> has the rules
    by which an invariant goes through their combinators; \<^verbatim>\<open>Web_Props\<close> (C1, C3, C4) has the whole site as a transition system,
    \<^verbatim>\<open>Web_Oauth_Props\<close> (C5) the OAuth flow and \<^verbatim>\<open>Page_Props\<close> (C6) the pages, with the gates of the pages and the rows that a
    request for one adds to the audit log.
  \<^item> \<^verbatim>\<open>Samples\<close>: rows and states on which the witnesses evaluate.

  \<^bold>\<open>Parameters.\<close> Code outside the program is an argument of the definitions: bcrypt, SHA-256, HMAC and the ISO format of instants; the
  Redis server (a record of commands, each may fail); boto3's client; Google's servers; Pillow and ffmpeg; \<^verbatim>\<open>ipaddress\<close>; random draws and
  the readings of the clock. What a theorem needs of them is a named predicate (\<open>s3_serves\<close>, a server that keeps its lists, a
  digest that is ASCII), stated as an hypothesis and met by a concrete function in its witness. Nothing is assumed where failures matter:
  a theorem that does not mention \<open>st_faulty\<close> or the server's answers holds whatever fails.

  \<^bold>\<open>Bounds and fuel.\<close> Loops recurse on their data or have a measure that falls, with three exceptions. The scanner of JSON has fuel \<open>3 * length + 3\<close>, which the
  round trip in \<^verbatim>\<open>Json_Write\<close> proves enough for what the program writes. The search for a free name in an archive has as many attempts as there are
  names taken, plus one, and C37 proves that it ends with a new name. Draining a queue takes its number of turns as an argument; C19 and
  C30 say how many are enough. C13 bounds every run of the two threads by their work. Sizes and times are \<open>int\<close> or \<open>nat\<close>, as Python's
  are unbounded; the columns' \<^verbatim>\<open>BIGINT\<close> is taken not to overflow.

  \<^bold>\<open>Not modelled.\<close> Telemetry (the package \<^verbatim>\<open>telemetry\<close>: metrics, log lines, the audit log) with the two reports that
  read it. Of the audit log the world has the times of the rows, which the retention job deletes by age; rows are added by the requests
  for pages only, those that services, background tasks and other handlers write are left out. Further left out are the text of templates and the static web manifest and service worker; validation by pydantic and the decoding of forms; the media processors' own
  work; reading the environment, connecting, start-up, the command line and shutting down (workers are neither cancelled nor joined); the texts of errors of the
  operating system. Each handler runs as one step on the site: the interleaving of handlers between their awaits is not modelled,
  except where the code is about it (workers, schedulers, the archive's threads). Identifiers stand for well-formed UUIDs, and text
  is of the characters below 256 without NUL.
\<close>

end
